(* ===== verification/Prelude.thy ===== *)
theory Prelude
  imports Main "HOL-Library.Word"
begin

unbundle bit_operations_syntax

text \<open>
  Shared vocabulary of the development: the machine integers of the C++ sources, byte
  strings and character strings, the big-endian helpers every codec uses, and the generic
  lemmas on bits, lists and maps the component theories rest on. The collection
  \<open>wire_simps\<close> gathers the equations that evaluate a decoder on an encoder's output.
\<close>

named_theorems wire_simps \<open>reader and writer equations on canonical reader states\<close>

section \<open>Machine integers\<close>

type_synonym byte = "8 word"
type_synonym u8 = "8 word"
type_synonym u16 = "16 word"
type_synonym u32 = "32 word"
type_synonym u64 = "64 word"
type_synonym s64 = "64 word" \<comment> \<open>\<open>int64_t\<close>, read with \<open>sint\<close>\<close>

text \<open>\<open>std::vector<uint8_t>\<close>, and \<open>std::string\<close> seen as bytes.\<close>

type_synonym bytes = "byte list"

definition byte_of_char :: "char \<Rightarrow> byte" where
  "byte_of_char c = word_of_nat (of_char c)"

definition char_of_byte :: "byte \<Rightarrow> char" where
  "char_of_byte b = char_of (unat b)"

definition bytes_of_string :: "string \<Rightarrow> bytes" where
  "bytes_of_string = map byte_of_char"

definition string_of_bytes :: "bytes \<Rightarrow> string" where
  "string_of_bytes = map char_of_byte"

lemma char_of_byte_of_char [simp]: "char_of_byte (byte_of_char c) = c"
  by (simp add: char_of_byte_def byte_of_char_def unat_of_nat)

lemma byte_of_char_of_byte [simp]: "byte_of_char (char_of_byte b) = b"
proof -
  have "unat b < 2 ^ 8" using unsigned_less [of b] by simp
  then show ?thesis by (simp add: char_of_byte_def byte_of_char_def)
qed

lemma length_bytes_of_string [simp]: "length (bytes_of_string s) = length s"
  by (simp add: bytes_of_string_def)

lemma length_string_of_bytes [simp]: "length (string_of_bytes b) = length b"
  by (simp add: string_of_bytes_def)

lemma string_of_bytes_of_string [simp]: "string_of_bytes (bytes_of_string s) = s"
  by (simp add: string_of_bytes_def bytes_of_string_def o_def)

lemma bytes_of_string_of_bytes [simp]: "bytes_of_string (string_of_bytes b) = b"
  by (simp add: string_of_bytes_def bytes_of_string_def o_def)

lemma size_of_length:
  "n < 2 ^ 64 \<Longrightarrow> unat (word_of_nat n :: u64) = n"
  by (simp add: unat_of_nat)

section \<open>Bits\<close>

text \<open>One step of a big-endian read: eight more bits come in from the right.\<close>

lemma low_byte_mask: "(0xFF :: 'a::len word) = mask 8"
  by (simp add: mask_eq_exp_minus_1)

lemma be_step64:
  "push_bit 8 (drop_bit (k + 8) a) OR ucast (ucast (drop_bit k a AND 0xFF) :: byte) = drop_bit k (a :: u64)"
proof (rule bit_word_eqI)
  fix n assume "n < LENGTH(64)"
  show "bit (push_bit 8 (drop_bit (k + 8) a) OR ucast (ucast (drop_bit k a AND 0xFF) :: byte)) n
    = bit (drop_bit k a) n"
  proof (cases "n < 8")
    case False
    then obtain m where "n = 8 + m" using le_Suc_ex by (metis not_less)
    with \<open>n < LENGTH(64)\<close> show ?thesis
      unfolding low_byte_mask by (auto simp: bit_simps ac_simps)
  qed (auto simp: low_byte_mask bit_simps)
qed

lemma neg_one_minus: "- 1 - (x :: 'a::len word) = NOT x"
  by (simp add: not_eq_complement)

lemma drop_bit_small:
  assumes "unat (a :: 'a::len word) < 2 ^ n"
  shows "drop_bit n a = 0"
proof -
  have "unat (drop_bit n a) = unat a div 2 ^ n"
    by (metis unat_drop_bit_eq drop_bit_eq_div)
  with assms show ?thesis by (simp add: unat_eq_zero)
qed

lemma unat_ucast_small:
  "unat (a :: 'a::len word) < 2 ^ LENGTH('b) \<Longrightarrow> unat (ucast a :: 'b::len word) = unat a"
  by (metis unsigned_ucast_eq take_bit_nat_eq_self)

lemma ucast_ucast_small:
  "unat (a :: 'a::len word) < 2 ^ LENGTH('b) \<Longrightarrow> LENGTH('b) \<le> LENGTH('a) \<Longrightarrow> ucast (ucast a :: 'b::len word) = a"
  by (simp add: word_unat_eq_iff unat_ucast_small [of a] unat_ucast_small power_increasing order_less_le_trans)

section \<open>Buffers that agree\<close>

text \<open>Two buffers with the same first \<open>n\<close> bytes give the same byte and the same slice below \<open>n\<close>.\<close>

lemma nth_agree: "take n d = take n d' \<Longrightarrow> i < n \<Longrightarrow> d ! i = d' ! i"
  by (metis nth_take)

lemma drop_take_agree:
  assumes "take n d = take n d'" "i + k \<le> n"
  shows "take k (drop i d) = take k (drop i d')"
proof -
  have "take (i + k) e = take (i + k) (take n e)" for e :: "'a list"
    using assms(2) by (simp add: min_absorb1)
  then show ?thesis using assms(1) by (metis add.commute take_drop)
qed

end
