(* ===== verification/Libssh.thy ===== *)
theory Libssh
  imports Prelude
begin

text \<open>
  The calls \<open>fondamenta/backend/SftpBackend.cpp\<close> makes: to the socket API, to libssh2, and to the
  callback that decides on a host key. Their replies are the values the code tests. Library objects
  are numbers, a null pointer is \<open>None\<close>.
\<close>

text \<open>\<open>HostKeyStatus\<close> of \<open>SftpKnownHosts.h\<close>.\<close>

datatype HostKeyStatus = Host_Trusted | Host_Unknown | Host_KeyChanged

text \<open>\<open>LIBSSH2_SFTP_ATTRIBUTES\<close>: a field whose flag is not set is \<open>None\<close>.\<close>

record sftp_attrs =
  sa_permissions :: "u64 option"
  sa_size :: "u64 option"
  sa_mtime :: "u64 option"

datatype sftp_flag = FXF_READ | FXF_WRITE | FXF_CREAT | FXF_TRUNC

text \<open>
  \<open>SftpReaddir\<close> stands for the \<open>libssh2_sftp_readdir\<close> calls up to the one that is not positive: its
  reply has the names and attributes they gave, and whether the last one was an error.
\<close>

datatype ssh_call =
    GetAddrInfo string u16 | NewSocket nat | ConnectSocket int nat | CloseSocket int
  | SessionInit | SessionHandshake nat int | SessionHostkey nat | DecideKey HostKeyStatus bytes
  | UserauthPassword nat string string
  | UserauthPublickey nat string "string option" string "string option"
  | SftpInit nat | SftpLastError "nat option" | SessionLastErrno nat
  | SftpShutdown nat | SessionDisconnect nat | SessionFree nat
  | SftpStat nat string | SftpOpendir nat string | SftpReaddir nat | SftpClosedir nat
  | SftpOpen nat string "sftp_flag list" int | SftpFstat nat | SftpSeek nat u64
  | SftpRead nat nat | SftpWrite nat bytes | SftpClose nat
  | SftpMkdir nat string int | SftpRmdir nat string | SftpUnlink nat string
  | SftpRename nat string string | SftpSetstat nat string sftp_attrs

text \<open>The SFTP status codes and the session errors the code tells apart.\<close>

datatype sftp_status = FX_NO_SUCH_FILE | FX_NO_SUCH_PATH | FX_PERMISSION_DENIED | FX_NOT_A_DIRECTORY
  | FX_OP_UNSUPPORTED | FX_OTHER nat

datatype ssh_errno = SSH_SOCKET_SEND | SSH_SOCKET_RECV | SSH_SOCKET_DISCONNECT | SSH_SOCKET_TIMEOUT
  | SSH_TIMEOUT | SSH_OTHER int

text \<open>\<open>SshBytes\<close> is what a read put into the buffer, \<open>None\<close> for a negative count.\<close>

datatype ssh_reply = SshInt int | SshPtr "nat option" | SshKey "bytes option" | SshAddrs "nat list option"
  | SshAttrs "sftp_attrs option" | SshNames "(string \<times> sftp_attrs) list" bool | SshBytes "bytes option"
  | SshStatus sftp_status | SshErrno ssh_errno | SshBool bool | SshUnit

end
