(* ===== verification/Host.thy ===== *)
theory Host
  imports Libssh
begin

text \<open>
  The host system under the file server. Its calls are the POSIX calls and the Haiku attribute
  and query calls of \<open>src/src/traghetto/server/FileServer.cpp\<close>; the system itself is not under
  \<open>src/\<close> and stays a parameter: a function from the call and its state to a reply and the next
  state. A server operation is a tree of calls, each followed by what the code does with the
  reply, so that a statement over all trees is a statement for every behaviour of the system.
\<close>

section \<open>Calls and replies\<close>

datatype errno = ENOENT | EACCES | EPERM | EROFS | ELOOP | ENOTDIR | EISDIR | ENOSPC | EDQUOT | EOTHER nat

datatype open_flag = O_RDONLY | O_WRONLY | O_RDWR | O_CREAT | O_TRUNC | O_NOFOLLOW

text \<open>The fields of \<open>struct stat\<close> the server reads.\<close>

record os_stat =
  s_mode :: u32
  s_size :: s64
  s_mtime :: s64
  s_crtime :: s64
  s_ino :: u64

text \<open>
  The calls \<open>optional/smb/SmbBackend.cpp\<close> makes of libsmb2. Contexts, files and directories are numbers. A
  status is \<open>None\<close> for 0 or the \<open>errno\<close> the code gets by negating it. \<open>SmbReaddir\<close> stands for the calls of
  \<open>smb2_readdir\<close> up to the null pointer; \<open>SmbData\<close> has the count a read returned and the bytes it put into
  the buffer. \<open>SmbPoll\<close> is \<open>poll\<close> on the context's descriptor; \<open>SmbService\<close> may run the callback of the
  share enumeration, with its status and data: the level of the answer and the shares in it.
\<close>

datatype smb_type = Smb_File | Smb_Directory | Smb_Link

record smb_stat =
  sx_type :: smb_type
  sx_size :: u64
  sx_mtime :: u64
  sx_btime :: u64
  sx_ino :: u64

record share_info =
  si_name :: "string option"
  si_type :: u32

type_synonym enum_data = "(nat \<times> share_info list) option option"

datatype smb_call =
    SmbInit | SmbSetTimeout nat nat | SmbSetPassword nat string | SmbSetDomain nat string
  | SmbConnectShare nat string string "string option" | SmbDisconnectShare nat | SmbDestroy nat
  | SmbShareEnum nat | SmbPoll nat | SmbService nat
  | SmbStat nat string | SmbOpendir nat string | SmbReaddir nat nat | SmbClosedir nat nat
  | SmbOpen nat string "open_flag list" | SmbClose nat nat
  | SmbPread nat nat nat u64 | SmbPwrite nat nat bytes u64
  | SmbMkdir nat string | SmbRmdir nat string | SmbUnlink nat string | SmbRename nat string string
  | SmbTruncate nat string u64

datatype smb_reply = SmbPtr "nat option" | SmbStatus "errno option" | SmbAttrs "errno + smb_stat"
  | SmbNames "(string \<times> smb_stat) list" | SmbData int bytes | SmbInt int | SmbBool bool
  | SmbServed bool "(int \<times> enum_data) option" | SmbUnit

text \<open>
  \<open>Readdir\<close> stands for \<open>opendir\<close>, the \<open>readdir\<close> calls and \<open>closedir\<close>: its reply lists the names the
  stream yields; \<open>AttrDir\<close> likewise for an attribute directory. \<open>QNew\<close> is \<open>new BQuery\<close> with its
  volume and predicate, \<open>QResults\<close> the entries \<open>GetNextRef\<close> yields, each as the path \<open>BPath\<close> finds for it. \<open>RWritten\<close> carries the count \<open>fs_write_attr\<close> returns,
  \<open>None\<close> when it is negative, and the \<open>errno\<close> the code reads after a short count as well.

  The next two lines are the calls of the trust store and of the pairing policy: \<open>ReadFile\<close> is an
  \<open>std::ifstream\<close> read to its end, \<open>WriteFile\<close> an \<open>std::ofstream\<close> opened with \<open>trunc\<close>, written, flushed
  and closed (its reply is whether the stream is still good), \<open>ClockMs\<close> the steady clock and \<open>Ask\<close>
  the user's answer to the pairing prompt. \<open>Ssh\<close> are the calls of the SFTP client, \<open>Smb\<close> those of the
  SMB client.
\<close>

datatype TrustDecision = kTrusted | kUnknown | kKeyChanged

type_synonym fd = nat

datatype syscall =
    Realpath string | Lstat string | Readdir string
  | Open string "open_flag list" | Pread fd nat s64 | Pwrite fd bytes s64 | Close fd
  | Mkdir string u32 | Rmdir string | Unlink string | Rename string string | Truncate string s64
  | AttrDir string | FsStatAttr fd string | FsReadAttr fd string u32 nat | FsWriteAttr fd string u32 bytes
  | QVolume string | QNew string | QFetch nat bool | QResults nat | QDelete nat
  | QResolve u64 u64 string
  | ReadFile string | WriteFile string string | Chmod string u32
  | ClockMs | Ask string bytes TrustDecision
  | Ssh ssh_call | Smb smb_call

datatype volume = NoVolume | NoQueries | Queries

datatype reply =
    RPath "string option" | RStat "os_stat option" | RNames "string list option"
  | RFd "errno + fd" | RBytes "bytes option" | RCount "errno + nat" | RStatus "errno option"
  | RAttr "(u32 \<times> s64) option" | RVolume volume | RQuery "nat option" | RBool bool
  | RWritten "nat option" errno | RPaths "string option list" | RUnit
  | RText "string option" | RClock s64
  | RSsh ssh_reply | RSmb smb_reply

section \<open>Trees of calls\<close>

datatype 'a prog = Ret 'a | Call syscall "reply \<Rightarrow> 'a prog"

primrec pbind :: "'a prog \<Rightarrow> ('a \<Rightarrow> 'b prog) \<Rightarrow> 'b prog" where
  "pbind (Ret a) f = f a"
| "pbind (Call c k) f = Call c (\<lambda>r. pbind (k r) f)"

text \<open>The typed calls; a reply of another type is no reply to the call and counts as a failure.\<close>

definition sys_path :: "syscall \<Rightarrow> string option prog" where
  "sys_path c = Call c (\<lambda>r. Ret (case r of RPath x \<Rightarrow> x | _ \<Rightarrow> None))"
definition sys_stat :: "syscall \<Rightarrow> os_stat option prog" where
  "sys_stat c = Call c (\<lambda>r. Ret (case r of RStat x \<Rightarrow> x | _ \<Rightarrow> None))"
definition sys_names :: "syscall \<Rightarrow> string list option prog" where
  "sys_names c = Call c (\<lambda>r. Ret (case r of RNames x \<Rightarrow> x | _ \<Rightarrow> None))"
definition sys_fd :: "syscall \<Rightarrow> (errno + fd) prog" where
  "sys_fd c = Call c (\<lambda>r. Ret (case r of RFd x \<Rightarrow> x | _ \<Rightarrow> Inl (EOTHER 0)))"
definition sys_bytes :: "syscall \<Rightarrow> bytes option prog" where
  "sys_bytes c = Call c (\<lambda>r. Ret (case r of RBytes x \<Rightarrow> x | _ \<Rightarrow> None))"
definition sys_count :: "syscall \<Rightarrow> (errno + nat) prog" where
  "sys_count c = Call c (\<lambda>r. Ret (case r of RCount x \<Rightarrow> x | _ \<Rightarrow> Inl (EOTHER 0)))"
definition sys_written :: "syscall \<Rightarrow> (nat option \<times> errno) prog" where
  "sys_written c = Call c (\<lambda>r. Ret (case r of RWritten n e \<Rightarrow> (n, e) | _ \<Rightarrow> (None, EOTHER 0)))"
definition sys_status :: "syscall \<Rightarrow> errno option prog" where
  "sys_status c = Call c (\<lambda>r. Ret (case r of RStatus x \<Rightarrow> x | _ \<Rightarrow> Some (EOTHER 0)))"
definition sys_attr :: "syscall \<Rightarrow> (u32 \<times> s64) option prog" where
  "sys_attr c = Call c (\<lambda>r. Ret (case r of RAttr x \<Rightarrow> x | _ \<Rightarrow> None))"
definition sys_volume :: "syscall \<Rightarrow> volume prog" where
  "sys_volume c = Call c (\<lambda>r. Ret (case r of RVolume x \<Rightarrow> x | _ \<Rightarrow> NoVolume))"
definition sys_query :: "syscall \<Rightarrow> nat option prog" where
  "sys_query c = Call c (\<lambda>r. Ret (case r of RQuery x \<Rightarrow> x | _ \<Rightarrow> None))"
definition sys_bool :: "syscall \<Rightarrow> bool prog" where
  "sys_bool c = Call c (\<lambda>r. Ret (case r of RBool x \<Rightarrow> x | _ \<Rightarrow> False))"
definition sys_paths :: "syscall \<Rightarrow> string option list prog" where
  "sys_paths c = Call c (\<lambda>r. Ret (case r of RPaths x \<Rightarrow> x | _ \<Rightarrow> []))"
definition sys_text :: "syscall \<Rightarrow> string option prog" where
  "sys_text c = Call c (\<lambda>r. Ret (case r of RText x \<Rightarrow> x | _ \<Rightarrow> None))"
definition sys_clock :: "syscall \<Rightarrow> s64 prog" where
  "sys_clock c = Call c (\<lambda>r. Ret (case r of RClock x \<Rightarrow> x | _ \<Rightarrow> 0))"
definition sys_unit :: "syscall \<Rightarrow> unit prog" where
  "sys_unit c = Call c (\<lambda>r. Ret ())"

definition as_ssh :: "reply \<Rightarrow> ssh_reply" where
  "as_ssh r = (case r of RSsh x \<Rightarrow> x | _ \<Rightarrow> SshUnit)"
definition sys_ssh :: "(ssh_reply \<Rightarrow> 'a) \<Rightarrow> ssh_call \<Rightarrow> 'a prog" where
  "sys_ssh get c = Call (Ssh c) (\<lambda>r. Ret (get (as_ssh r)))"

definition as_smb :: "reply \<Rightarrow> smb_reply" where
  "as_smb r = (case r of RSmb x \<Rightarrow> x | _ \<Rightarrow> SmbUnit)"
definition sys_smb :: "(smb_reply \<Rightarrow> 'a) \<Rightarrow> smb_call \<Rightarrow> 'a prog" where
  "sys_smb get c = Call (Smb c) (\<lambda>r. Ret (get (as_smb r)))"

text \<open>Running a tree: its result, the system's last state, and the calls made, in order.\<close>

type_synonym 'os system = "syscall \<Rightarrow> 'os \<Rightarrow> reply \<times> 'os"

primrec run :: "'os system \<Rightarrow> 'a prog \<Rightarrow> 'os \<Rightarrow> 'a \<times> 'os \<times> syscall list" where
  "run sys (Ret a) s = (a, s, [])"
| "run sys (Call c k) s =
    (let (r, s1) = sys c s; (a, s2, log) = run sys (k r) s1 in (a, s2, c # log))"

definition result :: "'os system \<Rightarrow> 'a prog \<Rightarrow> 'os \<Rightarrow> 'a" where
  "result sys m s = fst (run sys m s)"

definition calls :: "'os system \<Rightarrow> 'a prog \<Rightarrow> 'os \<Rightarrow> syscall list" where
  "calls sys m s = snd (snd (run sys m s))"

section \<open>Statements about every run\<close>

text \<open>
  \<open>wp P Q m post\<close>: whatever the replies allowed by \<open>Q\<close>, each call of \<open>m\<close> satisfies \<open>P\<close> and the
  result satisfies \<open>post\<close>.
\<close>

primrec wp :: "(syscall \<Rightarrow> bool) \<Rightarrow> (syscall \<Rightarrow> reply \<Rightarrow> bool) \<Rightarrow> 'a prog \<Rightarrow> ('a \<Rightarrow> bool) \<Rightarrow> bool" where
  "wp P Q (Ret a) post = post a"
| "wp P Q (Call c k) post = (P c \<and> (\<forall>r. Q c r \<longrightarrow> wp P Q (k r) post))"

definition honest :: "(syscall \<Rightarrow> reply \<Rightarrow> bool) \<Rightarrow> 'os system \<Rightarrow> bool" where
  "honest Q sys \<longleftrightarrow> (\<forall>c s. Q c (fst (sys c s)))"

lemma wp_run:
  assumes "honest Q sys" and "wp P Q m post"
  shows "post (result sys m s) \<and> (\<forall>c \<in> set (calls sys m s). P c)"
  using assms(2)
proof (induction m arbitrary: s)
  case (Call c k)
  obtain r s1 where r: "sys c s = (r, s1)" by (cases "sys c s")
  then have "Q c r" using assms(1) unfolding honest_def by (metis fst_conv)
  then have "post (result sys (k r) s1) \<and> (\<forall>c \<in> set (calls sys (k r) s1). P c)"
    using Call by auto
  then show ?case using r Call.prems
    by (auto simp: result_def calls_def split: prod.splits)
qed (simp add: result_def calls_def)

lemma wp_pbind: "wp P Q (pbind m f) post = wp P Q m (\<lambda>a. wp P Q (f a) post)"
  by (induction m) simp_all

lemma wp_mono: "wp P Q m post \<Longrightarrow> (\<And>a. post a \<Longrightarrow> post' a) \<Longrightarrow> wp P Q m post'"
  by (induction m) auto

lemma wp_conj: "wp P Q m post \<Longrightarrow> wp P Q m post' \<Longrightarrow> wp P Q m (\<lambda>a. post a \<and> post' a)"
  by (induction m) auto

lemma wp_calls_mono: "wp P Q m post \<Longrightarrow> (\<And>c. P c \<Longrightarrow> P' c) \<Longrightarrow> wp P' Q m post"
  by (induction m) auto

lemma wp_replies_mono: "wp P Q m post \<Longrightarrow> (\<And>c r. Q' c r \<Longrightarrow> Q c r) \<Longrightarrow> wp P Q' m post"
  by (induction m) auto

text \<open>The rule for a bind whose first part has a lemma of its own.\<close>

lemma wp_bind: "wp P Q m mid \<Longrightarrow> (\<And>a. mid a \<Longrightarrow> wp P Q (f a) post) \<Longrightarrow> wp P Q (pbind m f) post"
  unfolding wp_pbind by (rule wp_mono)

lemma wp_case_sum: "(\<And>x. r = Inl x \<Longrightarrow> wp P Q (f x) post) \<Longrightarrow> (\<And>y. r = Inr y \<Longrightarrow> wp P Q (g y) post) \<Longrightarrow>
    wp P Q (case r of Inl x \<Rightarrow> f x | Inr y \<Rightarrow> g y) post"
  by (cases r) simp_all

lemma wp_case_option: "(r = None \<Longrightarrow> wp P Q f post) \<Longrightarrow> (\<And>y. r = Some y \<Longrightarrow> wp P Q (g y) post) \<Longrightarrow>
    wp P Q (case r of None \<Rightarrow> f | Some y \<Rightarrow> g y) post"
  by (cases r) simp_all

lemma wp_if: "(c \<Longrightarrow> wp P Q m post) \<Longrightarrow> (\<not> c \<Longrightarrow> wp P Q n post) \<Longrightarrow> wp P Q (if c then m else n) post"
  by simp

named_theorems wp_simps \<open>unfolding the calls\<close>

lemmas [wp_simps] = wp_pbind sys_path_def sys_stat_def sys_names_def sys_fd_def sys_bytes_def
  sys_count_def sys_written_def sys_status_def sys_attr_def sys_volume_def sys_query_def sys_bool_def
  sys_paths_def sys_unit_def sys_text_def sys_clock_def sys_ssh_def sys_smb_def

lemma pbind_Ret [simp]: "pbind m Ret = m"
  by (induction m) simp_all

lemma pbind_assoc: "pbind (pbind m f) g = pbind m (\<lambda>a. pbind (f a) g)"
  by (induction m) simp_all

lemma run_pbind:
  "run sys (pbind m f) s =
    (let (a, s1, l1) = run sys m s; (b, s2, l2) = run sys (f a) s1 in (b, s2, l1 @ l2))"
  by (induction m arbitrary: s) (simp_all split: prod.split)

end
