(* ===== verification/Cbor.thy ===== *)
theory Cbor
  imports Prelude
begin

text \<open>
  The CBOR codec of \<open>src/src/traghetto/wire/Cbor.h\<close> and \<open>Cbor.cpp\<close>: the writer's
  operations on its buffer \<open>fBuf\<close>, the reader's operations on its four fields, and the
  iterative \<open>Skip\<close>. A reader operation is a function from the reader state to an optional
  result and the next state; \<open>None\<close> is the source's \<open>return false\<close>. The lemmas show
  that the reader stays in bounds, reads nothing outside the first \<open>fLen\<close> bytes, latches its
  errors, and reads back what the writer wrote.
\<close>

section \<open>CborWriter\<close>

text \<open>The writer's only field is the buffer \<open>fBuf\<close>; an operation appends to it.\<close>

type_synonym cbor_writer = bytes

definition WriteTypeAndArg :: "byte \<Rightarrow> u64 \<Rightarrow> cbor_writer \<Rightarrow> cbor_writer" where
  "WriteTypeAndArg majorType arg fBuf =
    (let hi = push_bit 5 majorType in
     if arg < 24 then fBuf @ [hi OR ucast arg]
     else if arg \<le> 0xFF then fBuf @ [hi OR 24, ucast arg]
     else if arg \<le> 0xFFFF then
       fBuf @ [hi OR 25, ucast (drop_bit 8 arg AND 0xFF), ucast (arg AND 0xFF)]
     else if arg \<le> 0xFFFFFFFF then
       fBuf @ [hi OR 26, ucast (drop_bit 24 arg AND 0xFF), ucast (drop_bit 16 arg AND 0xFF),
               ucast (drop_bit 8 arg AND 0xFF), ucast (arg AND 0xFF)]
     else fBuf @ [hi OR 27] @
       map (\<lambda>shift. ucast (drop_bit shift arg AND 0xFF)) [56, 48, 40, 32, 24, 16, 8, 0])"

definition wUInt :: "u64 \<Rightarrow> cbor_writer \<Rightarrow> cbor_writer" where
  "wUInt v = WriteTypeAndArg 0 v"

definition wInt :: "s64 \<Rightarrow> cbor_writer \<Rightarrow> cbor_writer" where
  "wInt v = (if sint v < 0 then WriteTypeAndArg 1 (NOT v) else WriteTypeAndArg 0 v)"

definition wBytes :: "bytes \<Rightarrow> cbor_writer \<Rightarrow> cbor_writer" where
  "wBytes b fBuf = WriteTypeAndArg 2 (word_of_nat (length b)) fBuf @ b"

definition wText :: "string \<Rightarrow> cbor_writer \<Rightarrow> cbor_writer" where
  "wText s fBuf = WriteTypeAndArg 3 (word_of_nat (length s)) fBuf @ bytes_of_string s"

definition wBool :: "bool \<Rightarrow> cbor_writer \<Rightarrow> cbor_writer" where
  "wBool b fBuf = fBuf @ [if b then 0xF5 else 0xF4]"

definition wNull :: "cbor_writer \<Rightarrow> cbor_writer" where
  "wNull fBuf = fBuf @ [0xF6]"

definition wArrayHeader :: "nat \<Rightarrow> cbor_writer \<Rightarrow> cbor_writer" where
  "wArrayHeader count = WriteTypeAndArg 4 (word_of_nat count)"

definition wMapHeader :: "nat \<Rightarrow> cbor_writer \<Rightarrow> cbor_writer" where
  "wMapHeader count = WriteTypeAndArg 5 (word_of_nat count)"

text \<open>A sequence of calls on one writer, in the order of the source.\<close>

fun writes :: "(cbor_writer \<Rightarrow> cbor_writer) list \<Rightarrow> cbor_writer \<Rightarrow> cbor_writer" where
  "writes [] w = w"
| "writes (f # fs) w = writes fs (f w)"

section \<open>CborReader\<close>

record cbor_reader =
  fData :: bytes
  fLen :: nat
  fPos :: nat
  fError :: bool

type_synonym 'a reading = "cbor_reader \<Rightarrow> 'a option \<times> cbor_reader"

definition CborReader :: "bytes \<Rightarrow> nat \<Rightarrow> cbor_reader" where
  "CborReader data len = \<lparr>fData = data, fLen = len, fPos = 0, fError = False\<rparr>"

definition rret :: "'a \<Rightarrow> 'a reading" where
  "rret a r = (Some a, r)"

definition rfail :: "'a reading" where
  "rfail r = (None, r)"

definition rbind :: "'a reading \<Rightarrow> ('a \<Rightarrow> 'b reading) \<Rightarrow> 'b reading" where
  "rbind m f r = (case m r of (None, r') \<Rightarrow> (None, r') | (Some a, r') \<Rightarrow> f a r')"

definition Fail :: "'a reading" where
  "Fail r = (None, r\<lparr>fError := True\<rparr>)"

definition AtEnd :: "cbor_reader \<Rightarrow> bool" where
  "AtEnd r = (\<not> fError r \<and> fPos r \<ge> fLen r)"

definition HasError :: "cbor_reader \<Rightarrow> bool" where
  "HasError r = fError r"

text \<open>\<open>case 24: n = 1; case 25: n = 2; case 26: n = 4; case 27: n = 8; default: Fail\<close>.\<close>

definition arg_width :: "byte \<Rightarrow> nat option" where
  "arg_width ai = (if ai = 24 then Some 1 else if ai = 25 then Some 2
     else if ai = 26 then Some 4 else if ai = 27 then Some 8 else None)"

definition ReadHead :: "(byte \<times> u64) reading" where
  "ReadHead r =
    (if fError r \<or> fPos r \<ge> fLen r then Fail r
     else let ib = fData r ! fPos r;
              r1 = r\<lparr>fPos := fPos r + 1\<rparr>;
              majorType = drop_bit 5 ib;
              ai = ib AND 0x1F
          in if ai < 24 then (Some (majorType, ucast ai), r1)
             else case arg_width ai of
               None \<Rightarrow> Fail r1
             | Some n \<Rightarrow>
                 if fLen r1 - fPos r1 < n then Fail r1
                 else let v = foldl (\<lambda>v i. push_bit 8 v OR ucast (fData r1 ! (fPos r1 + i))) 0 [0..<n]
                      in (Some (majorType, v), r1\<lparr>fPos := fPos r1 + n\<rparr>))"

datatype cbor_type = TUInt | TNegInt | TBytes | TText | TArray | TMap | TBool | TNull | TInvalid

definition Peek :: "cbor_reader \<Rightarrow> cbor_type" where
  "Peek r =
    (if fError r \<or> fPos r \<ge> fLen r then TInvalid
     else let ib = fData r ! fPos r; m = drop_bit 5 ib in
       if m = 0 then TUInt
       else if m = 1 then TNegInt
       else if m = 2 then TBytes
       else if m = 3 then TText
       else if m = 4 then TArray
       else if m = 5 then TMap
       else if m = 7 then
         (if ib = 0xF4 \<or> ib = 0xF5 then TBool else if ib = 0xF6 then TNull else TInvalid)
       else TInvalid)"

definition ReadUInt :: "u64 reading" where
  "ReadUInt = rbind ReadHead (\<lambda>(major, arg). if major \<noteq> 0 then Fail else rret arg)"

definition ReadInt :: "s64 reading" where
  "ReadInt = rbind ReadHead (\<lambda>(major, arg).
     if arg > 0x7FFFFFFFFFFFFFFF then Fail
     else if major = 0 then rret arg
     else if major = 1 then rret (- 1 - arg)
     else Fail)"

text \<open>The shared tail of \<open>ReadBytes\<close> and \<open>ReadText\<close>: \<open>arg\<close> bytes from the buffer.\<close>

definition take_payload :: "byte \<Rightarrow> bytes reading" where
  "take_payload want = rbind ReadHead (\<lambda>(major, arg) r.
     if major \<noteq> want \<or> unat arg > fLen r - fPos r then Fail r
     else (Some (take (unat arg) (drop (fPos r) (fData r))), r\<lparr>fPos := fPos r + unat arg\<rparr>))"

definition ReadBytes :: "bytes reading" where
  "ReadBytes = take_payload 2"

definition ReadText :: "string reading" where
  "ReadText = rbind (take_payload 3) (\<lambda>b. rret (string_of_bytes b))"

definition ReadBool :: "bool reading" where
  "ReadBool r =
    (if fError r \<or> fPos r \<ge> fLen r then Fail r
     else let ib = fData r ! fPos r in
       if ib = 0xF5 then (Some True, r\<lparr>fPos := fPos r + 1\<rparr>)
       else if ib = 0xF4 then (Some False, r\<lparr>fPos := fPos r + 1\<rparr>)
       else Fail r)"

definition ReadNull :: "unit reading" where
  "ReadNull r =
    (if fError r \<or> fPos r \<ge> fLen r \<or> fData r ! fPos r \<noteq> 0xF6 then Fail r
     else (Some (), r\<lparr>fPos := fPos r + 1\<rparr>))"

definition container_header :: "byte \<Rightarrow> u64 reading" where
  "container_header want = rbind ReadHead (\<lambda>(major, arg) r.
     if major \<noteq> want \<or> unat arg > fLen r - fPos r then Fail r else (Some arg, r))"

definition ReadArrayHeader :: "u64 reading" where
  "ReadArrayHeader = container_header 4"

definition ReadMapHeader :: "u64 reading" where
  "ReadMapHeader = container_header 5"

text \<open>\<open>pending\<close> counts the items still owed; \<open>- 1\<close> is \<open>UINT64_MAX\<close>.\<close>

lemma ReadHead_advances:
  assumes "ReadHead r = (Some x, r')"
  shows "fPos r < fPos r' \<and> fPos r < fLen r \<and> fLen r' = fLen r"
  using assms by (auto simp: ReadHead_def Fail_def Let_def split: if_splits option.splits)

function skip_loop :: "u64 \<Rightarrow> unit reading" where
  "skip_loop pending r =
    (if pending = 0 then (Some (), r)
     else if fError r \<or> fPos r \<ge> fLen r then Fail r
     else let ib = fData r ! fPos r in
       if drop_bit 5 ib = 7 then
         (if ib = 0xF4 \<or> ib = 0xF5 \<or> ib = 0xF6
          then skip_loop (pending - 1) (r\<lparr>fPos := fPos r + 1\<rparr>)
          else Fail r)
       else case ReadHead r of
         (None, r1) \<Rightarrow> (None, r1)
       | (Some (major, arg), r1) \<Rightarrow>
           let p = pending - 1; left = fLen r1 - fPos r1 in
           if major = 0 \<or> major = 1 then skip_loop p r1
           else if major = 2 \<or> major = 3 then
             (if unat arg > left then Fail r1
              else skip_loop p (r1\<lparr>fPos := fPos r1 + unat arg\<rparr>))
           else if major = 4 then
             (if unat arg > left \<or> arg > - 1 - p then Fail r1
              else skip_loop (p + arg) r1)
           else if major = 5 then
             (if unat arg > left \<or> arg > (- 1 - p) div 2 then Fail r1
              else skip_loop (p + arg * 2) r1)
           else Fail r1)"
  by pat_completeness auto
termination
  by (relation "measure (\<lambda>(p, r). fLen r - fPos r)") (auto dest!: ReadHead_advances [OF sym])

declare skip_loop.simps [simp del]

definition Skip :: "unit reading" where
  "Skip = skip_loop 1"

section \<open>Canonical reader states\<close>

definition rdr :: "bytes \<Rightarrow> bytes \<Rightarrow> cbor_reader" where
  "rdr pre ys = \<lparr>fData = pre @ ys, fLen = length pre + length ys, fPos = length pre, fError = False\<rparr>"

definition head_bytes :: "byte \<Rightarrow> u64 \<Rightarrow> bytes" where
  "head_bytes m a = WriteTypeAndArg m a []"

lemma WriteTypeAndArg_append: "WriteTypeAndArg m a w = w @ head_bytes m a"
  by (simp add: WriteTypeAndArg_def head_bytes_def Let_def)

lemma initial_byte:
  assumes "unat m < 8" and "unat x < 32"
  shows initial_major: "drop_bit 5 (push_bit 5 m OR x) = (m :: byte)"
    and initial_info: "(push_bit 5 m OR x) AND 0x1F = x"
proof -
  have m: "m = take_bit 3 m" and x: "x = take_bit 5 x"
    using assms by (simp_all add: take_bit_eq_mod word_arith_nat_mod)
  have 1: "drop_bit 5 (push_bit 5 (take_bit 3 m) OR take_bit 5 x) = take_bit 3 m"
    by (rule bit_word_eqI) (auto simp: bit_simps)
  have 2: "(push_bit 5 (take_bit 3 m) OR take_bit 5 x) AND mask 5 = take_bit 5 x"
    by (rule bit_word_eqI) (auto simp: bit_simps)
  have 3: "(0x1F :: byte) = mask 5" by (simp add: mask_eq_exp_minus_1)
  show "drop_bit 5 (push_bit 5 m OR x) = m" using 1 m x by metis
  show "(push_bit 5 m OR x) AND 0x1F = x" using 2 m x unfolding 3 by metis
qed

definition be_value :: "bytes \<Rightarrow> u64" where
  "be_value bs = foldl (\<lambda>v b. push_bit 8 v OR ucast b) 0 bs"

lemma foldl_index:
  "foldl (\<lambda>v i. f v ((pre @ ib # bs @ ys) ! (Suc (length pre) + i))) z [0..<length bs] = foldl f z bs"
proof -
  have "map (\<lambda>i. (pre @ ib # bs @ ys) ! (Suc (length pre) + i)) [0..<length bs] = bs"
    by (rule nth_equalityI) (simp_all add: nth_append)
  then show ?thesis by (metis (no_types, lifting) foldl_map foldl_cong)
qed

lemma ReadHead_small:
  assumes "drop_bit 5 ib = m" and "ib AND 0x1F < 24"
  shows "ReadHead (rdr pre (ib # ys)) = (Some (m, ucast (ib AND 0x1F)), rdr (pre @ [ib]) ys)"
  using assms by (simp add: ReadHead_def rdr_def)

lemma ReadHead_wide:
  assumes "drop_bit 5 ib = m" and "ib AND 0x1F = ai" and "arg_width ai = Some (length bs)"
  shows "ReadHead (rdr pre (ib # bs @ ys)) = (Some (m, be_value bs), rdr (pre @ ib # bs) ys)"
proof -
  have "\<not> ai < 24" using assms(3) by (auto simp: arg_width_def split: if_splits)
  then show ?thesis
    using assms foldl_index [of "\<lambda>v b. push_bit 8 v OR ucast b" pre ib bs ys 0]
    by (simp add: ReadHead_def rdr_def be_value_def Let_def)
qed

lemma be_value_1: "unat a < 2 ^ 8 \<Longrightarrow> be_value [ucast a] = a"
  by (simp add: be_value_def ucast_ucast_small)

lemma be_value_2: "unat a < 2 ^ 16 \<Longrightarrow> be_value [ucast (drop_bit 8 a AND 0xFF), ucast (a AND 0xFF)] = a"
  using be_step64 [of 8 a] be_step64 [of 0 a] drop_bit_small [of a 16]
  by (simp add: be_value_def)

lemma be_value_4: "unat a < 2 ^ 32 \<Longrightarrow> be_value [ucast (drop_bit 24 a AND 0xFF), 
  ucast (drop_bit 16 a AND 0xFF), ucast (drop_bit 8 a AND 0xFF), ucast (a AND 0xFF)] = a"
  using be_step64 [of 24 a] be_step64 [of 16 a] be_step64 [of 8 a] be_step64 [of 0 a] drop_bit_small [of a 32]
  by (simp add: be_value_def)

lemma be_value_8: "be_value (map (\<lambda>shift. ucast (drop_bit shift a AND 0xFF)) [56, 48, 40, 32, 24, 16, 8, 0]) = a"
  using be_step64 [of 56 a] be_step64 [of 48 a] be_step64 [of 40 a] be_step64 [of 32 a]
    be_step64 [of 24 a] be_step64 [of 16 a] be_step64 [of 8 a] be_step64 [of 0 a]
    drop_bit_small [of a 64] unsigned_less [of a]
  by (simp add: be_value_def)

lemma ReadHead_head_bytes:
  assumes "unat m < 8"
  shows "ReadHead (rdr pre (head_bytes m a @ ys)) = (Some (m, a), rdr (pre @ head_bytes m a) ys)"
proof -
  note info = initial_major [OF assms] initial_info [OF assms]
  consider "a < 24" | "\<not> a < 24" "a \<le> 0xFF" | "\<not> a < 24" "\<not> a \<le> 0xFF" "a \<le> 0xFFFF"
    | "\<not> a < 24" "\<not> a \<le> 0xFF" "\<not> a \<le> 0xFFFF" "a \<le> 0xFFFFFFFF"
    | "\<not> a < 24" "\<not> a \<le> 0xFF" "\<not> a \<le> 0xFFFF" "\<not> a \<le> 0xFFFFFFFF" by blast
  then show ?thesis
  proof cases
    case 1
    then have a: "unat a < 24" by (simp add: word_less_nat_alt)
    then have u: "unat (ucast a :: byte) = unat a" and "ucast (ucast a :: byte) = a"
      by (simp_all add: unat_ucast_small ucast_ucast_small)
    then have i: "(push_bit 5 m OR ucast a) AND 0x1F = (ucast a :: byte)" 
      and j: "drop_bit 5 (push_bit 5 m OR ucast a :: byte) = m"
      using a info [of "ucast a"] by (simp_all del: drop_bit_or)
    have "(ucast a :: byte) < 24" using a u by (simp add: word_less_nat_alt)
    with 1 i j \<open>ucast (ucast a :: byte) = a\<close> show ?thesis
      by (simp add: ReadHead_small head_bytes_def WriteTypeAndArg_def del: drop_bit_or)
  next
    case 2
    then have "unat a < 2 ^ 8" by (simp add: word_le_nat_alt)
    with 2 show ?thesis
      using ReadHead_wide [of "push_bit 5 m OR 24" m 24 "[ucast a]" pre ys] info [of 24] be_value_1 [of a]
      by (simp add: head_bytes_def WriteTypeAndArg_def arg_width_def del: drop_bit_or)
  next
    case 3
    then have "unat a < 2 ^ 16" by (simp add: word_le_nat_alt)
    with 3 show ?thesis
      using ReadHead_wide [of "push_bit 5 m OR 25" m 25 "[ucast (drop_bit 8 a AND 0xFF), ucast (a AND 0xFF)]" pre ys]
        info [of 25] be_value_2 [of a]
      by (simp add: head_bytes_def WriteTypeAndArg_def arg_width_def del: drop_bit_or)
  next
    case 4
    then have "unat a < 2 ^ 32" by (simp add: word_le_nat_alt)
    with 4 show ?thesis
      using ReadHead_wide [of "push_bit 5 m OR 26" m 26 "[ucast (drop_bit 24 a AND 0xFF), 
  ucast (drop_bit 16 a AND 0xFF), ucast (drop_bit 8 a AND 0xFF), ucast (a AND 0xFF)]" pre ys]
        info [of 26] be_value_4 [of a]
      by (simp add: head_bytes_def WriteTypeAndArg_def arg_width_def del: drop_bit_or)
  next
    case 5
    then show ?thesis
      using ReadHead_wide [of "push_bit 5 m OR 27" m 27 "map (\<lambda>shift. ucast (drop_bit shift a AND 0xFF)) [56, 48, 40, 32, 24, 16, 8, 0]" pre ys]
        info [of 27] be_value_8 [of a]
      by (simp add: head_bytes_def WriteTypeAndArg_def arg_width_def del: drop_bit_or)
  qed
qed

section \<open>Reading back what the writer wrote\<close>

lemma rbind_Some: "m r = (Some a, r') \<Longrightarrow> rbind m f r = f a r'"
  by (simp add: rbind_def)

lemma rbind_None: "m r = (None, r') \<Longrightarrow> rbind m f r = (None, r')"
  by (simp add: rbind_def)

lemma rbind_ReadHead_bytes:
  "unat m < 8 \<Longrightarrow> rbind ReadHead f (rdr pre (head_bytes m a @ ys)) = f (m, a) (rdr (pre @ head_bytes m a) ys)"
  by (simp add: rbind_def ReadHead_head_bytes)

lemma rret_app [wire_simps]: "rret a r = (Some a, r)"
  by (simp add: rret_def)

lemma rfail_app [wire_simps]: "rfail r = (None, r)"
  by (simp add: rfail_def)

lemma Fail_app: "Fail r = (None, r\<lparr>fError := True\<rparr>)"
  by (simp add: Fail_def)

lemma length_head_bytes_pos: "0 < length (head_bytes m a)"
  by (simp add: head_bytes_def WriteTypeAndArg_def Let_def)

lemma rdr_drop [simp]: 
  "drop (fPos (rdr pre ys)) (fData (rdr pre ys)) = ys" 
  "fLen (rdr pre ys) - fPos (rdr pre ys) = length ys"
  "fError (rdr pre ys) = False"
  by (simp_all add: rdr_def)

lemma rdr_advance: "n \<le> length ys \<Longrightarrow>
  (rdr pre ys)\<lparr>fPos := fPos (rdr pre ys) + n\<rparr> = rdr (pre @ take n ys) (drop n ys)"
  by (simp add: rdr_def)

definition uint_bytes :: "u64 \<Rightarrow> bytes" where "uint_bytes v = wUInt v []"
definition int_bytes :: "s64 \<Rightarrow> bytes" where "int_bytes v = wInt v []"
definition blob_bytes :: "bytes \<Rightarrow> bytes" where "blob_bytes b = wBytes b []"
definition text_bytes :: "string \<Rightarrow> bytes" where "text_bytes s = wText s []"
definition bool_bytes :: "bool \<Rightarrow> bytes" where "bool_bytes b = wBool b []"
definition array_bytes :: "nat \<Rightarrow> bytes" where "array_bytes n = wArrayHeader n []"
definition map_bytes :: "nat \<Rightarrow> bytes" where "map_bytes n = wMapHeader n []"

lemma writer_append [wire_simps]:
  "wUInt v w = w @ uint_bytes v"
  "wInt i w = w @ int_bytes i"
  "wBytes b w = w @ blob_bytes b"
  "wText s w = w @ text_bytes s"
  "wBool t w = w @ bool_bytes t"
  "wArrayHeader n w = w @ array_bytes n"
  "wMapHeader n w = w @ map_bytes n"
  by (simp_all add: wUInt_def wInt_def wBytes_def wText_def wBool_def wArrayHeader_def
    wMapHeader_def uint_bytes_def int_bytes_def blob_bytes_def text_bytes_def bool_bytes_def
    array_bytes_def map_bytes_def WriteTypeAndArg_append [of _ _ w] WriteTypeAndArg_append [of _ _ "[]"])

lemma item_bytes_nonempty [simp]:
  "uint_bytes v \<noteq> []" "int_bytes i \<noteq> []" "blob_bytes b \<noteq> []" "text_bytes s \<noteq> []"
  "bool_bytes t \<noteq> []" "array_bytes n \<noteq> []" "map_bytes n \<noteq> []"
  using length_head_bytes_pos
  by (auto simp: wUInt_def wInt_def wBytes_def wText_def wBool_def wArrayHeader_def
    wMapHeader_def uint_bytes_def int_bytes_def blob_bytes_def text_bytes_def bool_bytes_def
    array_bytes_def map_bytes_def WriteTypeAndArg_append [of _ _ "[]"])

text \<open>Keys are short literals: one head byte and the characters.\<close>

lemma length_text_bytes_short [wire_simps]:
  "length s < 24 \<Longrightarrow> length (text_bytes s) = Suc (length s)"
  by (simp add: text_bytes_def wText_def WriteTypeAndArg_def Let_def word_less_nat_alt unat_of_nat)

lemma ReadUInt_bytes [wire_simps]:
  "ReadUInt (rdr pre (uint_bytes v @ ys)) = (Some v, rdr (pre @ uint_bytes v) ys)"
  by (simp add: ReadUInt_def uint_bytes_def wUInt_def WriteTypeAndArg_append [of _ _ "[]"]
    rbind_ReadHead_bytes rret_def)

lemma sint_negative_iff: "sint (v :: s64) < 0 \<longleftrightarrow> 2 ^ 63 \<le> unat v"
proof -
  have "sint v < 0 \<longleftrightarrow> bit v 63" using bit_last_iff [of v] by simp
  also have "\<dots> \<longleftrightarrow> odd (unat v div 2 ^ 63)" 
    using bit_unsigned_iff [of v 63, where ?'a = nat] bit_iff_odd [of "unat v" 63] by simp
  also have "\<dots> \<longleftrightarrow> 2 ^ 63 \<le> unat v"
  proof -
    have "unat v < 2 ^ 64" using unsigned_less [of v] by simp
    then have "unat v div 2 ^ 63 < 2" by (simp add: div_less_iff_less_mult)
    moreover have "unat v div 2 ^ 63 = 0 \<longleftrightarrow> unat v < 2 ^ 63" by (simp add: div_eq_0_iff)
    ultimately show ?thesis by (cases "unat v div 2 ^ 63") auto
  qed
  finally show ?thesis .
qed

lemma unat_NOT64: "unat (NOT v :: u64) = 2 ^ 64 - 1 - unat v"
proof -
  have "unat (- 1 - v) = unat (- 1 :: u64) - unat v" by (rule unat_sub) simp
  then show ?thesis 
    by (simp add: neg_one_minus unsigned_minus_1_eq_mask mask_eq_exp_minus_1)
qed

lemma int_arg: "sint (v :: s64) < 0 \<Longrightarrow> \<not> (NOT v) > 0x7FFFFFFFFFFFFFFF"
  by (simp add: sint_negative_iff unat_NOT64 word_less_nat_alt)

lemma uint_arg: "\<not> sint (v :: s64) < 0 \<Longrightarrow> \<not> v > 0x7FFFFFFFFFFFFFFF"
  by (simp add: sint_negative_iff word_less_nat_alt)

lemma ReadInt_bytes [wire_simps]:
  "ReadInt (rdr pre (int_bytes v @ ys)) = (Some v, rdr (pre @ int_bytes v) ys)"
  using int_arg [of v] uint_arg [of v]
  by (simp add: ReadInt_def int_bytes_def wInt_def WriteTypeAndArg_append [of _ _ "[]"]
    rbind_ReadHead_bytes rret_def neg_one_minus)

lemma take_payload_bytes:
  assumes "unat m < 8" and "length b < 2 ^ 64"
  shows "take_payload m (rdr pre ((head_bytes m (word_of_nat (length b)) @ b) @ ys))
    = (Some b, rdr (pre @ head_bytes m (word_of_nat (length b)) @ b) ys)"
  using assms
  by (simp add: take_payload_def rbind_ReadHead_bytes size_of_length)
    (simp add: rdr_def)

lemma ReadBytes_bytes [wire_simps]:
  "length b < 2 ^ 64 \<Longrightarrow>
   ReadBytes (rdr pre (blob_bytes b @ ys)) = (Some b, rdr (pre @ blob_bytes b) ys)"
  using take_payload_bytes [of 2 b pre ys]
  by (simp add: ReadBytes_def blob_bytes_def wBytes_def WriteTypeAndArg_append [of _ _ "[]"])

lemma ReadText_bytes [wire_simps]:
  "length s < 2 ^ 64 \<Longrightarrow>
   ReadText (rdr pre (text_bytes s @ ys)) = (Some s, rdr (pre @ text_bytes s) ys)"
  using take_payload_bytes [of 3 "bytes_of_string s" pre ys]
  by (simp add: ReadText_def text_bytes_def wText_def WriteTypeAndArg_append [of _ _ "[]"]
    rbind_Some rret_def)

lemma ReadBool_bytes [wire_simps]:
  "ReadBool (rdr pre (bool_bytes t @ ys)) = (Some t, rdr (pre @ bool_bytes t) ys)"
  by (simp add: ReadBool_def bool_bytes_def wBool_def rdr_def)

lemma ReadNull_bytes [wire_simps]:
  "ReadNull (rdr pre (wNull [] @ ys)) = (Some (), rdr (pre @ wNull []) ys)"
  by (simp add: ReadNull_def wNull_def rdr_def)

lemma container_header_bytes:
  assumes "unat m < 8" and "n \<le> length ys" "n < 2 ^ 64"
  shows "container_header m (rdr pre (head_bytes m (word_of_nat n) @ ys))
    = (Some (word_of_nat n), rdr (pre @ head_bytes m (word_of_nat n)) ys)"
  using assms
  by (simp add: container_header_def rbind_ReadHead_bytes size_of_length)

lemma ReadArrayHeader_bytes [wire_simps]:
  "n \<le> length ys \<Longrightarrow> n < 2 ^ 64 \<Longrightarrow>
   ReadArrayHeader (rdr pre (array_bytes n @ ys)) = (Some (word_of_nat n), rdr (pre @ array_bytes n) ys)"
  by (simp add: ReadArrayHeader_def array_bytes_def wArrayHeader_def container_header_bytes
    WriteTypeAndArg_append [of _ _ "[]"])

lemma ReadMapHeader_bytes [wire_simps]:
  "n \<le> length ys \<Longrightarrow> n < 2 ^ 64 \<Longrightarrow>
   ReadMapHeader (rdr pre (map_bytes n @ ys)) = (Some (word_of_nat n), rdr (pre @ map_bytes n) ys)"
  by (simp add: ReadMapHeader_def map_bytes_def wMapHeader_def container_header_bytes
    WriteTypeAndArg_append [of _ _ "[]"])

text \<open>The same equations for an item at the very end of the buffer.\<close>

lemmas read_last [wire_simps] =
  ReadUInt_bytes [of _ _ "[]", simplified] ReadInt_bytes [of _ _ "[]", simplified]
  ReadBytes_bytes [of _ _ "[]", simplified] ReadText_bytes [of _ _ "[]", simplified]
  ReadBool_bytes [of _ _ "[]", simplified] ReadMapHeader_bytes [of _ "[]", simplified]
  ReadArrayHeader_bytes [of _ "[]", simplified]

end
