(* ===== verification/CborSkip.thy ===== *)
theory CborSkip
  imports Cbor
begin

text \<open>
  What the iterative \<open>Skip\<close> of \<open>src/src/traghetto/wire/Cbor.cpp\<close> accepts. The recursive
  grammar of CBOR items (\<open>cbor_item\<close>, \<open>cbor_items\<close>) is the specification; the loop with its
  single 64-bit counter of owed items refines it: it consumes exactly one item of the grammar
  when there is one at the read position, and fails otherwise.
\<close>

section \<open>The grammar of the items Skip accepts\<close>

text \<open>
  \<open>opens x k\<close>: the bytes \<open>x\<close> open an item that is complete once \<open>k\<close> more items follow;
  an item is an opening and the items it announces.
  \<open>cbor_head m a h\<close>: the bytes \<open>h\<close> are one head with major type \<open>m\<close> and argument \<open>a\<close>,
  in any of the five widths (the reader does not insist on the shortest).
\<close>

fun cbor_head :: "byte \<Rightarrow> u64 \<Rightarrow> bytes \<Rightarrow> bool" where
  "cbor_head m a [] = False"
| "cbor_head m a (ib # bs) =
    (drop_bit 5 ib = m \<and>
     (if ib AND 0x1F < 24 then bs = [] \<and> a = ucast (ib AND 0x1F)
      else arg_width (ib AND 0x1F) = Some (length bs) \<and> a = be_value bs))"

inductive opens :: "bytes \<Rightarrow> nat \<Rightarrow> bool" where
  simple: "ib = 0xF4 \<or> ib = 0xF5 \<or> ib = 0xF6 \<Longrightarrow> opens [ib] 0"
| integer: "cbor_head m a h \<Longrightarrow> m = 0 \<or> m = 1 \<Longrightarrow> opens h 0"
| str: "cbor_head m a h \<Longrightarrow> m = 2 \<or> m = 3 \<Longrightarrow> length b = unat a \<Longrightarrow> opens (h @ b) 0"
| arr: "cbor_head 4 a h \<Longrightarrow> opens h (unat a)"
| mp: "cbor_head 5 a h \<Longrightarrow> opens h (2 * unat a)"

inductive cbor_item :: "bytes \<Rightarrow> bool" and cbor_items :: "nat \<Rightarrow> bytes \<Rightarrow> bool" where
  item: "opens x k \<Longrightarrow> cbor_items k b \<Longrightarrow> cbor_item (x @ b)"
| none: "cbor_items 0 []"
| more: "cbor_item x \<Longrightarrow> cbor_items n xs \<Longrightarrow> cbor_items (Suc n) (x @ xs)"

inductive_simps items_0 [simp]: "cbor_items 0 b"
inductive_cases items_SucE: "cbor_items (Suc n) b"
inductive_cases itemE: "cbor_item b"

lemma cbor_head_nonempty: "cbor_head m a h \<Longrightarrow> h \<noteq> []"
  by (cases h) auto

lemma opens_nonempty: "opens x k \<Longrightarrow> x \<noteq> []"
  by (erule opens.cases) (auto dest: cbor_head_nonempty)

lemma item_nonempty: "cbor_item b \<Longrightarrow> b \<noteq> []"
  by (auto elim!: itemE dest: opens_nonempty)

lemma items_append: "cbor_items (m + n) b \<longleftrightarrow> (\<exists>b1 b2. b = b1 @ b2 \<and> cbor_items m b1 \<and> cbor_items n b2)"
proof (induction m arbitrary: b)
  case (Suc m)
  show ?case
  proof
    assume "cbor_items (Suc m + n) b"
    then obtain x xs where "b = x @ xs" "cbor_item x" "cbor_items (m + n) xs" by (auto elim: items_SucE)
    then show "\<exists>b1 b2. b = b1 @ b2 \<and> cbor_items (Suc m) b1 \<and> cbor_items n b2"
      using Suc.IH by (metis append.assoc cbor_item_cbor_items.more)
  next
    assume "\<exists>b1 b2. b = b1 @ b2 \<and> cbor_items (Suc m) b1 \<and> cbor_items n b2"
    then show "cbor_items (Suc m + n) b"
      using Suc.IH by (fastforce elim!: items_SucE intro: cbor_item_cbor_items.more)
  qed
qed simp

lemma items_length: "cbor_items n b \<Longrightarrow> n \<le> length b"
proof (induction n arbitrary: b)
  case (Suc n)
  then obtain x xs where b: "b = x @ xs" "cbor_item x" "cbor_items n xs" by (auto elim: items_SucE)
  then have "0 < length x" using item_nonempty length_greater_0_conv by blast
  moreover have "n \<le> length xs" using Suc.IH b by blast
  ultimately show ?case using b by (simp del: length_greater_0_conv)
qed simp

text \<open>A head read by \<open>ReadHead\<close> is a head of the grammar, and conversely.\<close>

lemma ReadHead_cbor_head:
  assumes "cbor_head m a h"
  shows "ReadHead (rdr pre (h @ ys)) = (Some (m, a), rdr (pre @ h) ys)"
proof -
  obtain ib bs where h: "h = ib # bs" using assms by (cases h) auto
  show ?thesis
  proof (cases "ib AND 0x1F < 24")
    case True then show ?thesis using assms ReadHead_small [of ib m pre ys] by (auto simp: h)
  next
    case False then show ?thesis using assms ReadHead_wide [of ib m "ib AND 0x1F" bs pre ys] by (auto simp: h)
  qed
qed

lemma rdr_Cons: "\<not> fPos (rdr pre ys) \<ge> fLen (rdr pre ys) \<Longrightarrow> \<exists>y zs. ys = y # zs"
  by (cases ys) (auto simp: rdr_def)

lemma ReadHead_Some_head:
  assumes "ReadHead (rdr pre ys) = (Some (m, a), r')"
  shows "\<exists>h zs. ys = h @ zs \<and> cbor_head m a h \<and> r' = rdr (pre @ h) zs"
proof (cases ys)
  case Nil
  then show ?thesis using assms by (simp add: ReadHead_def rdr_def Fail_def)
next
  case (Cons ib zs)
  show ?thesis
  proof (cases "ib AND 0x1F < 24")
    case True
    then show ?thesis using assms ReadHead_small [of ib "drop_bit 5 ib" pre zs]
      by (intro exI [of _ "[ib]"] exI [of _ zs]) (auto simp: Cons)
  next
    case False
    with assms obtain n where n: "arg_width (ib AND 0x1F) = Some n" "n \<le> length zs"
      by (auto simp: ReadHead_def rdr_def Cons Fail_def Let_def split: option.splits if_splits)
    then have "ys = ib # take n zs @ drop n zs" using Cons by simp
    with n assms ReadHead_wide [of ib "drop_bit 5 ib" "ib AND 0x1F" "take n zs" pre "drop n zs"] False
    show ?thesis
      by (intro exI [of _ "ib # take n zs"] exI [of _ "drop n zs"]) auto
  qed
qed


lemma unat_dec: "p \<noteq> 0 \<Longrightarrow> unat (p :: u64) = Suc (unat (p - 1))"
  by (metis Suc_pred' unat_gt_0 unat_minus_one)

text \<open>One round of the loop on a canonical state, by the kind of the next item.\<close>

lemma skip_loop_0: "skip_loop 0 r = (Some (), r)"
  by (simp add: skip_loop.simps)

lemma skip_loop_end: "p \<noteq> 0 \<Longrightarrow> fst (skip_loop p (rdr pre [])) = None"
  by (simp add: skip_loop.simps rdr_def Fail_def)

lemma skip_loop_simple:
  "p \<noteq> 0 \<Longrightarrow> ib = 0xF4 \<or> ib = 0xF5 \<or> ib = 0xF6 \<Longrightarrow>
   skip_loop p (rdr pre (ib # zs)) = skip_loop (p - 1) (rdr (pre @ [ib]) zs)"
  by (subst skip_loop.simps) (auto simp: rdr_def)

lemma skip_loop_other7:
  "p \<noteq> 0 \<Longrightarrow> drop_bit 5 ib = 7 \<Longrightarrow> \<not> (ib = 0xF4 \<or> ib = 0xF5 \<or> ib = 0xF6) \<Longrightarrow>
   fst (skip_loop p (rdr pre (ib # zs))) = None"
  by (subst skip_loop.simps) (auto simp: rdr_def Fail_def)

lemma skip_loop_no_head:
  assumes "p \<noteq> 0" "drop_bit 5 ib \<noteq> 7" "fst (ReadHead (rdr pre (ib # zs))) = None"
  shows "fst (skip_loop p (rdr pre (ib # zs))) = None"
  using assms
  by (subst skip_loop.simps) (cases "ReadHead (rdr pre (ib # zs))", auto simp: rdr_def Fail_def)

definition skip_room :: "byte \<Rightarrow> u64 \<Rightarrow> u64 \<Rightarrow> nat \<Rightarrow> bool" where
  "skip_room m a p left = (if m = 2 \<or> m = 3 then unat a \<le> left
     else if m = 4 then unat a \<le> left \<and> a \<le> - 1 - p
     else if m = 5 then unat a \<le> left \<and> a \<le> (- 1 - p) div 2
     else m = 0 \<or> m = 1)"

lemma skip_loop_head:
  assumes "p \<noteq> 0" and h: "cbor_head m a h" and "m \<noteq> 7"
  shows "\<not> skip_room m a (p - 1) (length us) \<Longrightarrow> fst (skip_loop p (rdr pre (h @ us))) = None"
    and "skip_room m a (p - 1) (length us) \<Longrightarrow> skip_loop p (rdr pre (h @ us)) =
      (if m = 2 \<or> m = 3 then skip_loop (p - 1) (rdr (pre @ h @ take (unat a) us) (drop (unat a) us))
       else skip_loop (if m = 4 then p - 1 + a else if m = 5 then p - 1 + a * 2 else p - 1)
         (rdr (pre @ h) us))"
proof -
  obtain ib bs where ib: "h = ib # bs" using h by (cases h) auto
  have ne: "\<not> fError (rdr pre (h @ us))" "\<not> fPos (rdr pre (h @ us)) \<ge> fLen (rdr pre (h @ us))"
    "fData (rdr pre (h @ us)) ! fPos (rdr pre (h @ us)) = ib" "drop_bit 5 ib = m"
    using h by (simp_all add: rdr_def ib)
  note rh = ReadHead_cbor_head [OF h, of pre us]
  show "\<not> skip_room m a (p - 1) (length us) \<Longrightarrow> fst (skip_loop p (rdr pre (h @ us))) = None"
    using assms ne rh
    by (subst skip_loop.simps) (auto simp: Let_def skip_room_def Fail_def not_le split: if_splits)
  show "skip_room m a (p - 1) (length us) \<Longrightarrow> skip_loop p (rdr pre (h @ us)) =
      (if m = 2 \<or> m = 3 then skip_loop (p - 1) (rdr (pre @ h @ take (unat a) us) (drop (unat a) us))
       else skip_loop (if m = 4 then p - 1 + a else if m = 5 then p - 1 + a * 2 else p - 1)
         (rdr (pre @ h) us))"
    using assms ne rh rdr_advance [of "unat a" us "pre @ h"]
    by (subst skip_loop.simps) (auto simp: Let_def skip_room_def not_less split: if_splits)
qed


lemma room_add: 
  "skip_room 4 a p left \<Longrightarrow> unat (p + a) = unat p + unat a"
  "skip_room 5 a p left \<Longrightarrow> unat (p + a * 2) = unat p + 2 * unat a"
proof -
  have m: "unat (- 1 - p) = 2 ^ 64 - 1 - unat p" by (simp add: neg_one_minus unat_NOT64)
  have lt: "unat p < 2 ^ 64" using unsigned_less [of p] by simp
  show "unat (p + a) = unat p + unat a" if "skip_room 4 a p left"
    using that m lt by (auto simp: skip_room_def word_le_nat_alt unat_word_ariths)
  show "unat (p + a * 2) = unat p + 2 * unat a" if "skip_room 5 a p left"
  proof -
    have "unat a \<le> (2 ^ 64 - 1 - unat p) div 2"
      using that m by (simp add: skip_room_def word_le_nat_alt unat_div)
    then have "unat p + 2 * unat a < 2 ^ 64" using lt by simp
    then show ?thesis by (simp add: unat_word_ariths)
  qed
qed

lemma skip_room_iff:
  "skip_room m a p left \<longleftrightarrow> (if m = 2 \<or> m = 3 then unat a \<le> left
     else if m = 4 then unat a \<le> left \<and> unat p + unat a < 2 ^ 64
     else if m = 5 then unat a \<le> left \<and> unat p + 2 * unat a < 2 ^ 64
     else m = 0 \<or> m = 1)"
proof -
  have m: "unat (- 1 - p) = 2 ^ 64 - 1 - unat p" by (simp add: neg_one_minus unat_NOT64)
  have lt: "unat p < 2 ^ 64" using unsigned_less [of p] by simp
  have 1: "a \<le> - 1 - p \<longleftrightarrow> unat p + unat a < 2 ^ 64"
    unfolding word_le_nat_alt m using lt by simp arith
  have 2: "a \<le> (- 1 - p) div 2 \<longleftrightarrow> unat p + 2 * unat a < 2 ^ 64"
    unfolding word_le_nat_alt unat_div m using lt by simp arith
  show ?thesis unfolding skip_room_def 1 2 by simp
qed

text \<open>
  A round consumes one opening and adds the items it announces to the debt; it is taken
  exactly when the debt fits the counter and the announced items can fit the buffer.
\<close>

lemma skip_loop_round:
  assumes "p \<noteq> 0" and "opens x k" and "k + unat (p - 1) \<le> length zs" and "length zs < 2 ^ 64"
  shows "\<exists>q. unat q = k + unat (p - 1) \<and>
    skip_loop p (rdr pre (x @ zs)) = skip_loop q (rdr (pre @ x) zs)"
  using assms(2)
proof cases
  case (simple ib)
  then show ?thesis using skip_loop_simple [OF assms(1), of ib pre zs] by auto
next
  case (integer m a)
  then show ?thesis using skip_loop_head(2) [OF assms(1), of m a x zs pre]
    by (auto simp: skip_room_def)
next
  case (str m a h b)
  then show ?thesis using skip_loop_head(2) [OF assms(1), of m a h "b @ zs" pre]
    by (auto simp: skip_room_def)
next
  case (arr a)
  then show ?thesis using skip_loop_head(2) [OF assms(1), of 4 a x zs pre] assms(3,4)
    by (intro exI [of _ "p - 1 + a"]) (auto simp: skip_room_iff unat_word_ariths)
next
  case (mp a)
  then show ?thesis using skip_loop_head(2) [OF assms(1), of 5 a x zs pre] assms(3,4)
    by (intro exI [of _ "p - 1 + a * 2"]) (auto simp: skip_room_iff unat_word_ariths)
qed

lemma skip_loop_head_inv:
  assumes "p \<noteq> 0" "cbor_head m a h" "m \<noteq> 7"
    and "skip_loop p (rdr pre (h @ us)) = (Some (), r')"
  shows "\<exists>x k zs q. h @ us = x @ zs \<and> opens x k \<and> unat q = k + unat (p - 1) \<and>
    skip_loop q (rdr (pre @ x) zs) = (Some (), r')"
proof -
  note 1 = skip_loop_head(1) [OF assms(1-3)] and 2 = skip_loop_head(2) [OF assms(1-3)]
  have room: "skip_room m a (p - 1) (length us)"
    using 1 [of us pre] assms(4) by fastforce
  consider "m = 0 \<or> m = 1" | "m = 2 \<or> m = 3" | "m = 4" | "m = 5"
    using room by (auto simp: skip_room_def split: if_splits)
  then show ?thesis
  proof cases
    case 1
    then show ?thesis using 2 [OF room, of pre] assms(4) integer [OF assms(2)]
      by (intro exI [of _ h] exI [of _ 0] exI [of _ us] exI [of _ "p - 1"]) auto
  next
    case two: 2
    then have "length (take (unat a) us) = unat a" using room by (auto simp: skip_room_def)
    with two show ?thesis using 2 [OF room, of pre] assms(4) str [OF assms(2)]
      by (intro exI [of _ "h @ take (unat a) us"] exI [of _ 0] exI [of _ "drop (unat a) us"]
        exI [of _ "p - 1"]) auto
  next
    case 3
    then show ?thesis using 2 [OF room, of pre] assms(2,4) arr [of a h] room
      by (intro exI [of _ h] exI [of _ "unat a"] exI [of _ us] exI [of _ "p - 1 + a"])
        (auto simp: skip_room_iff unat_word_ariths)
  next
    case 4
    then show ?thesis using 2 [OF room, of pre] assms(2,4) mp [of a h] room
      by (intro exI [of _ h] exI [of _ "2 * unat a"] exI [of _ us] exI [of _ "p - 1 + a * 2"])
        (auto simp: skip_room_iff unat_word_ariths)
  qed
qed

lemma skip_loop_inv:
  assumes p: "p \<noteq> 0" and loop: "skip_loop p (rdr pre ys) = (Some (), r')"
  shows "\<exists>x k zs q. ys = x @ zs \<and> opens x k \<and> unat q = k + unat (p - 1) \<and>
    skip_loop q (rdr (pre @ x) zs) = (Some (), r')"
proof -
  obtain ib zs where ys: "ys = ib # zs"
    using loop skip_loop_end [OF p, of pre] by (cases ys) auto
  show ?thesis
  proof (cases "drop_bit 5 ib = 7")
    case True
    then have ib: "ib = 0xF4 \<or> ib = 0xF5 \<or> ib = 0xF6"
      using loop skip_loop_other7 [OF p, of ib pre zs] ys by force
    then show ?thesis using loop skip_loop_simple [OF p ib, of pre zs] ys simple [OF ib]
      by (intro exI [of _ "[ib]"] exI [of _ 0] exI [of _ zs] exI [of _ "p - 1"]) auto
  next
    case no7: False
    then have "fst (ReadHead (rdr pre ys)) \<noteq> None"
      using loop skip_loop_no_head [OF p no7, of pre zs] ys by (metis fst_conv option.distinct(1))
    then obtain m a r1 where "ReadHead (rdr pre ys) = (Some (m, a), r1)"
      by (metis not_Some_eq prod.collapse)
    then obtain h us where h: "ys = h @ us" "cbor_head m a h"
      using ReadHead_Some_head by blast
    moreover have "m \<noteq> 7" using h no7 ys by (cases h) auto
    ultimately show ?thesis using skip_loop_head_inv [OF p h(2)] loop by blast
  qed
qed

text \<open>What the loop consumed are exactly \<open>pending\<close> items.\<close>

lemma skip_loop_sound:
  "skip_loop p (rdr pre ys) = (Some (), r') \<Longrightarrow>
   \<exists>b zs. ys = b @ zs \<and> cbor_items (unat p) b \<and> r' = rdr (pre @ b) zs"
proof (induction "length ys" arbitrary: p pre ys rule: less_induct)
  case less
  show ?case
  proof (cases "p = 0")
    case True
    then show ?thesis using less.prems by (auto simp: skip_loop_0)
  next
    case p: False
    obtain x k zs q where x: "ys = x @ zs" "opens x k" "unat q = k + unat (p - 1)"
      and "skip_loop q (rdr (pre @ x) zs) = (Some (), r')"
      using skip_loop_inv [OF p less.prems] by blast
    then obtain b vs where "zs = b @ vs" "cbor_items (k + unat (p - 1)) b" "r' = rdr ((pre @ x) @ b) vs"
      using less.hyps [of zs q "pre @ x"] opens_nonempty by fastforce
    moreover then obtain b1 b2 where "b = b1 @ b2" "cbor_items k b1" "cbor_items (unat (p - 1)) b2"
      using items_append by blast
    ultimately show ?thesis
      using x item [OF x(2)] more [of "x @ b1" "unat (p - 1)" b2] unat_dec [OF p]
      by (intro exI [of _ "x @ b"] exI [of _ vs]) auto
  qed
qed

text \<open>Every sequence of \<open>pending\<close> items is consumed, whatever follows it.\<close>

lemma skip_loop_complete:
  "cbor_items (unat p) b \<Longrightarrow> length (b @ zs) < 2 ^ 64 \<Longrightarrow>
   skip_loop p (rdr pre (b @ zs)) = (Some (), rdr (pre @ b) zs)"
proof (induction "length b" arbitrary: p pre b rule: less_induct)
  case less
  show ?case
  proof (cases "p = 0")
    case True
    then show ?thesis using less.prems by (simp add: skip_loop_0)
  next
    case p: False
    then obtain y b2 where y: "b = y @ b2" "cbor_item y" "cbor_items (unat (p - 1)) b2"
      using less.prems(1) unat_dec [OF p] by (auto elim: items_SucE)
    then obtain x k b1 where x: "y = x @ b1" "opens x k" "cbor_items k b1"
      by (auto elim!: itemE)
    then have its: "cbor_items (k + unat (p - 1)) (b1 @ b2)"
      using items_append y(3) by blast
    have "k + unat (p - 1) \<le> length (b1 @ b2 @ zs)" "length (b1 @ b2 @ zs) < 2 ^ 64"
      using items_length [OF its] less.prems(2) x y by simp_all
    then obtain q where "unat q = k + unat (p - 1)"
      and "skip_loop p (rdr pre (x @ b1 @ b2 @ zs)) = skip_loop q (rdr (pre @ x) (b1 @ b2 @ zs))"
      using skip_loop_round [OF p x(2)] by blast
    then show ?thesis
      using less.hyps [of "b1 @ b2" q "pre @ x"] its less.prems(2) opens_nonempty [OF x(2)] x y by simp
  qed
qed


lemma Skip_iff_item:
  assumes "length ys < 2 ^ 64"
  shows "fst (Skip (rdr pre ys)) = Some () \<longleftrightarrow> (\<exists>b zs. ys = b @ zs \<and> cbor_item b)"
    and "cbor_item b \<Longrightarrow> ys = b @ zs \<Longrightarrow> Skip (rdr pre ys) = (Some (), rdr (pre @ b) zs)"
proof -
  have one: "cbor_items 1 b \<longleftrightarrow> cbor_item b" for b
    using more [of b 0 "[]"] none by (auto elim!: items_SucE)
  show *: "cbor_item b \<Longrightarrow> ys = b @ zs \<Longrightarrow> Skip (rdr pre ys) = (Some (), rdr (pre @ b) zs)" for b zs
    using skip_loop_complete [of 1 b zs pre] assms one by (simp add: Skip_def)
  show "fst (Skip (rdr pre ys)) = Some () \<longleftrightarrow> (\<exists>b zs. ys = b @ zs \<and> cbor_item b)"
    using * skip_loop_sound [of 1 pre ys] one
    by (fastforce simp: Skip_def intro: prod_eqI)
qed
end
