(* ===== verification/CborReading.thy ===== *)
theory CborReading
  imports CborSkip
begin

text \<open>
  What every reader operation of \<open>Cbor.cpp\<close> has in common, and the decoding loop that the
  message files under \<open>src/src/traghetto/wire\<close> repeat.
\<close>

section \<open>Reads that consume a definite run of bytes\<close>

definition definite :: "'a reading \<Rightarrow> bool" where
  "definite m \<longleftrightarrow> (\<forall>pre ys a r'. m (rdr pre ys) = (Some a, r') \<longrightarrow> length ys < 2 ^ 64 \<longrightarrow>
     (\<exists>b zs. ys = b @ zs \<and> r' = rdr (pre @ b) zs \<and>
       (\<forall>pre' zs'. length zs \<le> length zs' \<longrightarrow> length (b @ zs') < 2 ^ 64 \<longrightarrow>
          m (rdr pre' (b @ zs')) = (Some a, rdr (pre' @ b) zs'))))"

lemma definiteD:
  assumes "definite m" "m (rdr pre ys) = (Some a, r')" "length ys < 2 ^ 64"
  obtains b zs where "ys = b @ zs" "r' = rdr (pre @ b) zs"
    "\<And>pre' zs'. length zs \<le> length zs' \<Longrightarrow> length (b @ zs') < 2 ^ 64 \<Longrightarrow>
       m (rdr pre' (b @ zs')) = (Some a, rdr (pre' @ b) zs')"
  using assms unfolding definite_def by metis

lemma definiteI:
  assumes "\<And>pre ys a r'. m (rdr pre ys) = (Some a, r') \<Longrightarrow> length ys < 2 ^ 64 \<Longrightarrow>
     \<exists>b zs. ys = b @ zs \<and> r' = rdr (pre @ b) zs \<and>
       (\<forall>pre' zs'. length zs \<le> length zs' \<longrightarrow> length (b @ zs') < 2 ^ 64 \<longrightarrow>
          m (rdr pre' (b @ zs')) = (Some a, rdr (pre' @ b) zs'))"
  shows "definite m"
  using assms unfolding definite_def by blast

named_theorems definite_intros \<open>reads that consume a definite run of bytes\<close>

lemma definite_rret [definite_intros]: "definite (rret a)"
proof (rule definiteI)
  fix pre ys c r' assume "rret a (rdr pre ys) = (Some c, r')"
  then show "\<exists>b zs. ys = b @ zs \<and> r' = rdr (pre @ b) zs \<and>
     (\<forall>pre' zs'. length zs \<le> length zs' \<longrightarrow> length (b @ zs') < 2 ^ 64 \<longrightarrow>
        rret a (rdr pre' (b @ zs')) = (Some c, rdr (pre' @ b) zs'))"
    by (intro exI [of _ "[]"] exI [of _ ys]) (simp add: rret_def)
qed

lemma definite_rfail [definite_intros]: "definite rfail"
  by (rule definiteI) (simp add: rfail_def)

lemma definite_Fail [definite_intros]: "definite Fail"
  by (rule definiteI) (simp add: Fail_def)

lemma definite_rbind [definite_intros]:
  assumes m: "definite m" and f: "\<And>a. definite (f a)"
  shows "definite (rbind m f)"
proof (rule definiteI)
  fix pre ys c r'
  assume "rbind m f (rdr pre ys) = (Some c, r')" and len: "length ys < 2 ^ 64"
  then obtain a r1 where a: "m (rdr pre ys) = (Some a, r1)" and c: "f a r1 = (Some c, r')"
    by (cases "m (rdr pre ys)") (auto simp: rbind_def split: option.splits)
  obtain b1 zs1 where 1: "ys = b1 @ zs1" "r1 = rdr (pre @ b1) zs1"
    "\<And>pre' zs'. length zs1 \<le> length zs' \<Longrightarrow> length (b1 @ zs') < 2 ^ 64 \<Longrightarrow>
       m (rdr pre' (b1 @ zs')) = (Some a, rdr (pre' @ b1) zs')"
    using definiteD [OF m a len] by metis
  have "length zs1 < 2 ^ 64" using 1(1) len by simp
  then obtain b2 zs2 where 2: "zs1 = b2 @ zs2" "r' = rdr ((pre @ b1) @ b2) zs2"
    "\<And>pre' zs'. length zs2 \<le> length zs' \<Longrightarrow> length (b2 @ zs') < 2 ^ 64 \<Longrightarrow>
       f a (rdr pre' (b2 @ zs')) = (Some c, rdr (pre' @ b2) zs')"
    using definiteD [OF f c [unfolded 1(2)]] by metis
  show "\<exists>b zs. ys = b @ zs \<and> r' = rdr (pre @ b) zs \<and>
     (\<forall>pre' zs'. length zs \<le> length zs' \<longrightarrow> length (b @ zs') < 2 ^ 64 \<longrightarrow>
        rbind m f (rdr pre' (b @ zs')) = (Some c, rdr (pre' @ b) zs'))"
    using 1 2 by (intro exI [of _ "b1 @ b2"] exI [of _ zs2]) (auto simp: rbind_def)
qed

lemma definite_ReadHead [definite_intros]: "definite ReadHead"
proof (rule definiteI)
  fix pre ys a r' assume *: "ReadHead (rdr pre ys) = (Some a, r')"
  obtain m v where a: "a = (m, v)" by (cases a)
  obtain h zs where "ys = h @ zs" "cbor_head m v h" "r' = rdr (pre @ h) zs"
    using ReadHead_Some_head * unfolding a by blast
  then show "\<exists>b zs. ys = b @ zs \<and> r' = rdr (pre @ b) zs \<and>
     (\<forall>pre' zs'. length zs \<le> length zs' \<longrightarrow> length (b @ zs') < 2 ^ 64 \<longrightarrow>
        ReadHead (rdr pre' (b @ zs')) = (Some a, rdr (pre' @ b) zs'))"
    by (intro exI [of _ h] exI [of _ zs]) (simp add: ReadHead_cbor_head a)
qed

lemma Skip_Some:
  assumes "Skip (rdr pre ys) = (Some u, r')"
  obtains b zs where "ys = b @ zs" "cbor_item b" "r' = rdr (pre @ b) zs"
proof -
  obtain b zs where "ys = b @ zs" "cbor_items 1 b" "r' = rdr (pre @ b) zs"
    using assms skip_loop_sound [of 1 pre ys r'] by (auto simp: Skip_def)
  then show thesis using that by (auto elim!: items_SucE)
qed

lemma definite_Skip [definite_intros]: "definite Skip"
proof (rule definiteI)
  fix pre ys a r' assume "Skip (rdr pre ys) = (Some a, r')"
  then obtain b zs where "ys = b @ zs" "cbor_item b" "r' = rdr (pre @ b) zs"
    by (rule Skip_Some)
  then show "\<exists>b zs. ys = b @ zs \<and> r' = rdr (pre @ b) zs \<and>
     (\<forall>pre' zs'. length zs \<le> length zs' \<longrightarrow> length (b @ zs') < 2 ^ 64 \<longrightarrow>
        Skip (rdr pre' (b @ zs')) = (Some a, rdr (pre' @ b) zs'))"
    using Skip_iff_item(2) by (intro exI [of _ b] exI [of _ zs]) simp
qed

lemma definite_split [definite_intros]:
  "(\<And>a b. definite (f a b)) \<Longrightarrow> definite (case p of (a, b) \<Rightarrow> f a b)"
  by (cases p) simp

lemma definite_If [definite_intros]:
  "definite m \<Longrightarrow> definite n \<Longrightarrow> definite (if c then m else n)"
  by simp

lemma definite_option [definite_intros]:
  "definite m \<Longrightarrow> (\<And>x. definite (n x)) \<Longrightarrow> definite (case c of None \<Rightarrow> m | Some x \<Rightarrow> n x)"
  by (cases c) simp_all

lemma definite_payload [definite_intros]:
  "definite (\<lambda>r. if unat a > fLen r - fPos r then Fail r
     else (Some (take (unat a) (drop (fPos r) (fData r))), r\<lparr>fPos := fPos r + unat a\<rparr>))"
proof (rule definiteI)
  fix pre ys c r'
  assume "(if unat a > fLen (rdr pre ys) - fPos (rdr pre ys) then Fail (rdr pre ys)
     else (Some (take (unat a) (drop (fPos (rdr pre ys)) (fData (rdr pre ys)))),
       (rdr pre ys)\<lparr>fPos := fPos (rdr pre ys) + unat a\<rparr>)) = (Some c, r')"
  then have c: "unat a \<le> length ys" "c = take (unat a) ys" "r' = rdr (pre @ take (unat a) ys) (drop (unat a) ys)"
    by (auto simp: Fail_def rdr_advance split: if_splits)
  then have "length c = unat a" by simp
  then show "\<exists>b zs. ys = b @ zs \<and> r' = rdr (pre @ b) zs \<and>
     (\<forall>pre' zs'. length zs \<le> length zs' \<longrightarrow> length (b @ zs') < 2 ^ 64 \<longrightarrow>
       (if unat a > fLen (rdr pre' (b @ zs')) - fPos (rdr pre' (b @ zs')) then Fail (rdr pre' (b @ zs'))
     else (Some (take (unat a) (drop (fPos (rdr pre' (b @ zs'))) (fData (rdr pre' (b @ zs'))))),
       (rdr pre' (b @ zs'))\<lparr>fPos := fPos (rdr pre' (b @ zs')) + unat a\<rparr>)) = (Some c, rdr (pre' @ b) zs'))"
    using c by (intro exI [of _ c] exI [of _ "drop (unat a) ys"]) (auto simp: rdr_advance)
qed

lemma definite_room [definite_intros]:
  "definite (\<lambda>r. if unat a > fLen r - fPos r then Fail r else (Some a, r))"
proof (rule definiteI)
  fix pre ys c r'
  assume "(if unat a > fLen (rdr pre ys) - fPos (rdr pre ys) then Fail (rdr pre ys)
     else (Some a, rdr pre ys)) = (Some c, r')"
  then show "\<exists>b zs. ys = b @ zs \<and> r' = rdr (pre @ b) zs \<and>
     (\<forall>pre' zs'. length zs \<le> length zs' \<longrightarrow> length (b @ zs') < 2 ^ 64 \<longrightarrow>
       (if unat a > fLen (rdr pre' (b @ zs')) - fPos (rdr pre' (b @ zs')) then Fail (rdr pre' (b @ zs'))
        else (Some a, rdr pre' (b @ zs'))) = (Some c, rdr (pre' @ b) zs'))"
    by (intro exI [of _ "[]"] exI [of _ ys]) (auto simp: Fail_def split: if_splits)
qed

lemma take_payload_alt: "take_payload want = rbind ReadHead (\<lambda>(major, arg).
    if major \<noteq> want then Fail else (\<lambda>r. if unat arg > fLen r - fPos r then Fail r
     else (Some (take (unat arg) (drop (fPos r) (fData r))), r\<lparr>fPos := fPos r + unat arg\<rparr>)))"
  unfolding take_payload_def by (rule arg_cong [where f = "rbind ReadHead"]) (auto simp: fun_eq_iff)

lemma container_header_alt: "container_header want = rbind ReadHead (\<lambda>(major, arg).
    if major \<noteq> want then Fail else (\<lambda>r. if unat arg > fLen r - fPos r then Fail r else (Some arg, r)))"
  unfolding container_header_def by (rule arg_cong [where f = "rbind ReadHead"]) (auto simp: fun_eq_iff)

lemma definite_reads [definite_intros]:
  "definite ReadUInt" "definite ReadInt" "definite ReadBytes" "definite ReadText"
  "definite ReadArrayHeader" "definite ReadMapHeader"
  unfolding ReadUInt_def ReadInt_def ReadBytes_def ReadText_def ReadArrayHeader_def ReadMapHeader_def
    take_payload_alt container_header_alt
  by (intro definite_intros)+

lemma definite_ReadBool [definite_intros]: "definite ReadBool"
proof (rule definiteI)
  fix pre ys c r' assume *: "ReadBool (rdr pre ys) = (Some c, r')"
  then obtain y zs where "ys = y # zs" by (cases ys) (auto simp: ReadBool_def rdr_def Fail_def)
  with * show "\<exists>b zs. ys = b @ zs \<and> r' = rdr (pre @ b) zs \<and>
     (\<forall>pre' zs'. length zs \<le> length zs' \<longrightarrow> length (b @ zs') < 2 ^ 64 \<longrightarrow>
        ReadBool (rdr pre' (b @ zs')) = (Some c, rdr (pre' @ b) zs'))"
    by (intro exI [of _ "[y]"] exI [of _ zs])
      (auto simp: ReadBool_def rdr_def Fail_def Let_def split: if_splits)
qed


section \<open>Reads that stay inside the buffer\<close>

text \<open>
  A safe operation keeps \<open>fData\<close> and \<open>fLen\<close>, keeps \<open>fPos \<le> fLen\<close>, never clears
  \<open>fError\<close>, and its result and next state depend on the first \<open>fLen\<close> bytes only: the
  bytes behind the end of the buffer may be anything.
\<close>

definition in_bounds :: "cbor_reader \<Rightarrow> bool" where
  "in_bounds r \<longleftrightarrow> fPos r \<le> fLen r \<and> fLen r \<le> length (fData r)"

definition safe :: "'a reading \<Rightarrow> bool" where
  "safe m \<longleftrightarrow> (\<forall>r. in_bounds r \<longrightarrow>
     in_bounds (snd (m r)) \<and> fData (snd (m r)) = fData r \<and> fLen (snd (m r)) = fLen r \<and>
     fPos r \<le> fPos (snd (m r)) \<and> (fError r \<longrightarrow> fError (snd (m r))) \<and>
     (\<forall>d. fLen r \<le> length d \<longrightarrow> take (fLen r) d = take (fLen r) (fData r) \<longrightarrow>
        m (r\<lparr>fData := d\<rparr>) = (fst (m r), (snd (m r))\<lparr>fData := d\<rparr>)))"

named_theorems safe_intros \<open>reads that stay inside the buffer\<close>

lemma safeD:
  assumes "safe m" "in_bounds r"
  shows "in_bounds (snd (m r))" "fData (snd (m r)) = fData r" "fLen (snd (m r)) = fLen r"
    "fPos r \<le> fPos (snd (m r))" "fError r \<Longrightarrow> fError (snd (m r))"
    "fLen r \<le> length d \<Longrightarrow> take (fLen r) d = take (fLen r) (fData r) \<Longrightarrow>
      m (r\<lparr>fData := d\<rparr>) = (fst (m r), (snd (m r))\<lparr>fData := d\<rparr>)"
  using assms unfolding safe_def by blast+

lemma safe_simple [safe_intros]: "safe (rret a)" "safe rfail" "safe Fail"
  by (simp_all add: safe_def rret_def rfail_def Fail_def in_bounds_def)

lemma safe_rbind [safe_intros]:
  assumes m: "safe m" and f: "\<And>a. safe (f a)"
  shows "safe (rbind m f)"
  unfolding safe_def
proof (intro allI impI)
  fix r assume r: "in_bounds r"
  obtain c r1 where c: "m r = (c, r1)" by (cases "m r")
  note m1 = safeD [OF m r, unfolded c, simplified]
  show "in_bounds (snd (rbind m f r)) \<and> fData (snd (rbind m f r)) = fData r \<and>
     fLen (snd (rbind m f r)) = fLen r \<and> fPos r \<le> fPos (snd (rbind m f r)) \<and>
     (fError r \<longrightarrow> fError (snd (rbind m f r))) \<and>
     (\<forall>d. fLen r \<le> length d \<longrightarrow> take (fLen r) d = take (fLen r) (fData r) \<longrightarrow>
        rbind m f (r\<lparr>fData := d\<rparr>) = (fst (rbind m f r), (snd (rbind m f r))\<lparr>fData := d\<rparr>))"
  proof (cases c)
    case None
    then show ?thesis using c m1 by (simp add: rbind_def)
  next
    case (Some a)
    note f1 = safeD [OF f [of a] m1(1)]
    show ?thesis using c Some m1 f1 by (auto simp: rbind_def)
  qed
qed

lemma foldl_agree:
  assumes "take m d = take m d'" "p + n \<le> m"
  shows "foldl (\<lambda>v i. f v (d ! (p + i))) z [0..<n] = foldl (\<lambda>v i. f v (d' ! (p + i))) z [0..<n]"
  by (rule foldl_cong) (use assms nth_agree [of m d d'] in auto)

lemma safe_ReadHead [safe_intros]: "safe ReadHead"
  unfolding safe_def
proof (intro allI impI conjI)
  fix r assume r: "in_bounds r"
  show "in_bounds (snd (ReadHead r))" "fData (snd (ReadHead r)) = fData r"
    "fLen (snd (ReadHead r)) = fLen r" "fPos r \<le> fPos (snd (ReadHead r))"
    using r by (auto simp: ReadHead_def Fail_def in_bounds_def Let_def split: option.splits)
  show "fError (snd (ReadHead r))" if "fError r"
    using that by (simp add: ReadHead_def Fail_def)
  fix d assume d: "take (fLen r) d = take (fLen r) (fData r)"
  have nth: "d ! fPos r = fData r ! fPos r" if "fPos r < fLen r"
    using nth_agree [OF d that] .
  have fold: "foldl (\<lambda>v i. push_bit 8 v OR ucast (d ! (Suc (fPos r) + i))) 0 [0..<n] =
      foldl (\<lambda>v i. push_bit 8 v OR ucast (fData r ! (Suc (fPos r) + i))) (0 :: u64) [0..<n]"
    if "n \<le> fLen r - Suc (fPos r)" "fPos r < fLen r" for n
    by (rule foldl_agree [OF d, where f = "\<lambda>v b. push_bit 8 v OR ucast b"]) (use that in auto)
  show "ReadHead (r\<lparr>fData := d\<rparr>) = (fst (ReadHead r), snd (ReadHead r)\<lparr>fData := d\<rparr>)"
    using nth fold by (auto simp: ReadHead_def Fail_def Let_def not_le not_less split: option.splits)
qed

text \<open>The same at one state, which is what an induction over the bytes left needs.\<close>

definition safe_at :: "'a reading \<Rightarrow> cbor_reader \<Rightarrow> bool" where
  "safe_at m r \<longleftrightarrow>
     in_bounds (snd (m r)) \<and> fData (snd (m r)) = fData r \<and> fLen (snd (m r)) = fLen r \<and>
     fPos r \<le> fPos (snd (m r)) \<and> (fError r \<longrightarrow> fError (snd (m r))) \<and>
     (\<forall>d. fLen r \<le> length d \<longrightarrow> take (fLen r) d = take (fLen r) (fData r) \<longrightarrow>
        m (r\<lparr>fData := d\<rparr>) = (fst (m r), (snd (m r))\<lparr>fData := d\<rparr>))"

lemma safe_iff_at: "safe m \<longleftrightarrow> (\<forall>r. in_bounds r \<longrightarrow> safe_at m r)"
  by (simp add: safe_def safe_at_def)

lemma safe_at_rbind:
  assumes m: "safe_at m r" and f: "\<And>a r'. m r = (Some a, r') \<Longrightarrow> safe_at (f a) r'"
  shows "safe_at (rbind m f) r"
proof (cases "m r")
  case (Pair c r1)
  show ?thesis
  proof (cases c)
    case None
    then show ?thesis using Pair m by (simp add: rbind_def safe_at_def)
  next
    case (Some a)
    show ?thesis using Pair Some m f [of a r1] by (auto simp: rbind_def safe_at_def)
  qed
qed

definition simple_item :: "unit reading" where
  "simple_item r = (if fError r \<or> fPos r \<ge> fLen r then Fail r
     else let ib = fData r ! fPos r in
       if ib = 0xF4 \<or> ib = 0xF5 \<or> ib = 0xF6 then (Some (), r\<lparr>fPos := fPos r + 1\<rparr>) else Fail r)"

definition room_for :: "nat \<Rightarrow> nat \<Rightarrow> unit reading" where
  "room_for n k r = (if n > fLen r - fPos r then Fail r else (Some (), r\<lparr>fPos := fPos r + k\<rparr>))"

definition skip_head :: "u64 \<Rightarrow> u64 reading" where
  "skip_head p = rbind ReadHead (\<lambda>(major, arg).
     if major = 0 \<or> major = 1 then rret p
     else if major = 2 \<or> major = 3 then rbind (room_for (unat arg) (unat arg)) (\<lambda>_. rret p)
     else if major = 4 then
       (if arg > - 1 - p then Fail else rbind (room_for (unat arg) 0) (\<lambda>_. rret (p + arg)))
     else if major = 5 then
       (if arg > (- 1 - p) div 2 then Fail else rbind (room_for (unat arg) 0) (\<lambda>_. rret (p + arg * 2)))
     else Fail)"

definition skip_round :: "u64 \<Rightarrow> u64 reading" where
  "skip_round p r = (if \<not> fError r \<and> fPos r < fLen r \<and> drop_bit 5 (fData r ! fPos r) = 7
     then rbind simple_item (\<lambda>_. rret (p - 1)) r else skip_head (p - 1) r)"

lemma skip_loop_rounds:
  "skip_loop p r = (if p = 0 then rret () r else rbind (skip_round p) skip_loop r)"
  by (subst skip_loop.simps)
    (auto simp: skip_round_def simple_item_def skip_head_def room_for_def rbind_def rret_def Fail_def
      ReadHead_def Let_def split: option.splits prod.splits)

lemma safe_simple_item [safe_intros]: "safe simple_item"
  using nth_agree by (fastforce simp: safe_def simple_item_def Fail_def in_bounds_def Let_def)

lemma safe_room_for [safe_intros]: "k \<le> n \<Longrightarrow> safe (room_for n k)"
  by (auto simp: safe_def room_for_def Fail_def in_bounds_def)

lemma safe_split [safe_intros]:
  "(\<And>a b. safe (f a b)) \<Longrightarrow> safe (case p of (a, b) \<Rightarrow> f a b)"
  by (cases p) simp

lemma safe_If [safe_intros]: "(c \<Longrightarrow> safe m) \<Longrightarrow> (\<not> c \<Longrightarrow> safe n) \<Longrightarrow> safe (if c then m else n)"
  by simp

lemma safe_option [safe_intros]:
  "safe m \<Longrightarrow> (\<And>x. safe (n x)) \<Longrightarrow> safe (case c of None \<Rightarrow> m | Some x \<Rightarrow> n x)"
  by (cases c) simp_all

lemma safe_skip_head: "safe (skip_head p)"
  unfolding skip_head_def by (intro safe_intros) auto

lemma safe_at_cond:
  assumes "in_bounds r" "safe m" "safe n"
    and c: "\<And>d. take (fLen r) d = take (fLen r) (fData r) \<Longrightarrow> c (r\<lparr>fData := d\<rparr>) = c r"
  shows "safe_at (\<lambda>r. if c r then m r else n r) r"
proof (cases "c r")
  case True
  then show ?thesis using assms(1) safeD [OF assms(2,1)] c by (simp add: safe_at_def)
next
  case False
  then show ?thesis using assms(1) safeD [OF assms(3,1)] c by (simp add: safe_at_def)
qed

lemma safe_at_skip_round: "in_bounds r \<Longrightarrow> safe_at (skip_round p) r"
  unfolding skip_round_def [abs_def]
  by (rule safe_at_cond)
    (auto intro!: safe_intros safe_skip_head dest: nth_agree [where i = "fPos r"])

lemma skip_round_advances:
  "skip_round p r = (Some q, r') \<Longrightarrow> fPos r < fPos r' \<and> fPos r < fLen r \<and> fLen r' = fLen r"
  by (auto simp: skip_round_def simple_item_def skip_head_def room_for_def rbind_def rret_def Fail_def
      Let_def split: option.splits prod.splits if_splits dest!: ReadHead_advances)

lemma safe_at_skip_loop: "in_bounds r \<Longrightarrow> safe_at (skip_loop p) r"
proof (induction "fLen r - fPos r" arbitrary: p r rule: less_induct)
  case less
  show ?case
  proof (cases "p = 0")
    case True
    then show ?thesis using less.prems by (simp add: skip_loop_rounds [abs_def] rret_def safe_at_def)
  next
    case False
    then have *: "skip_loop p = rbind (skip_round p) skip_loop" by (simp add: skip_loop_rounds fun_eq_iff)
    show ?thesis unfolding *
    proof (rule safe_at_rbind [OF safe_at_skip_round [OF less.prems]])
      fix q r' assume q: "skip_round p r = (Some q, r')"
      then have "in_bounds r'" using safe_at_skip_round [OF less.prems, of p] by (simp add: safe_at_def)
      then show "safe_at (skip_loop q) r'" using skip_round_advances [OF q] less.hyps by auto
    qed
  qed
qed

lemma safe_Skip [safe_intros]: "safe Skip"
  using safe_at_skip_loop by (simp add: Skip_def safe_iff_at)

lemma safe_payload [safe_intros]:
  "safe (\<lambda>r. if unat a > fLen r - fPos r then Fail r
     else (Some (take (unat a) (drop (fPos r) (fData r))), r\<lparr>fPos := fPos r + unat a\<rparr>))"
  using drop_take_agree by (fastforce simp: safe_def Fail_def in_bounds_def)

lemma safe_room [safe_intros]:
  "safe (\<lambda>r. if unat a > fLen r - fPos r then Fail r else (Some a, r))"
  by (auto simp: safe_def Fail_def in_bounds_def)

lemma safe_reads [safe_intros]:
  "safe ReadUInt" "safe ReadInt" "safe ReadBytes" "safe ReadText"
  "safe ReadArrayHeader" "safe ReadMapHeader"
  unfolding ReadUInt_def ReadInt_def ReadBytes_def ReadText_def ReadArrayHeader_def ReadMapHeader_def
    take_payload_alt container_header_alt
  by (intro safe_intros)+

lemma safe_ReadBool [safe_intros]: "safe ReadBool"
  using nth_agree by (fastforce simp: safe_def ReadBool_def Fail_def in_bounds_def Let_def)

lemma safe_ReadNull [safe_intros]: "safe ReadNull"
  using nth_agree by (fastforce simp: safe_def ReadNull_def Fail_def in_bounds_def)

section \<open>The decoding loop of the message files\<close>

text \<open>
  Every decoder reads a map header, then \<open>count\<close> pairs of a text key and a value; a key it
  knows is stored unless it was seen before (\<open>if (haveX) return false\<close>), any other key has
  its value skipped. The slot of a key is an option: \<open>None\<close> stands for \<open>haveX = false\<close>.
\<close>

definition checked :: "('a \<Rightarrow> bool) \<Rightarrow> 'a reading \<Rightarrow> 'a reading" where
  "checked P m = rbind m (\<lambda>v. if P v then rret v else rfail)"

definition ReadU32 :: "u32 reading" where
  "ReadU32 = rbind ReadUInt (\<lambda>v. if v > 0xFFFFFFFF then rfail else rret (ucast v))"

definition once :: "'v option \<Rightarrow> 'v reading \<Rightarrow> ('v \<Rightarrow> 's) \<Rightarrow> 's reading" where
  "once slot m upd = (case slot of Some _ \<Rightarrow> rfail | None \<Rightarrow> rbind m (\<lambda>v. rret (upd v)))"

definition ignore :: "'s \<Rightarrow> 's reading" where
  "ignore s = rbind Skip (\<lambda>_. rret s)"

primrec read_fields :: "(string \<Rightarrow> 's \<Rightarrow> 's reading) \<Rightarrow> nat \<Rightarrow> 's \<Rightarrow> 's reading" where
  "read_fields field 0 s = rret s"
| "read_fields field (Suc n) s =
     rbind ReadText (\<lambda>key. rbind (field key s) (\<lambda>s'. read_fields field n s'))"

definition read_map :: "(string \<Rightarrow> 's \<Rightarrow> 's reading) \<Rightarrow> 's \<Rightarrow> ('s \<Rightarrow> 'x option) \<Rightarrow> 'x reading" where
  "read_map field init finish = rbind ReadMapHeader (\<lambda>count.
     rbind (read_fields field (unat count) init) (\<lambda>s.
       case finish s of None \<Rightarrow> rfail | Some x \<Rightarrow> rret x))"

primrec read_items :: "'a reading \<Rightarrow> nat \<Rightarrow> 'a list reading" where
  "read_items m 0 = rret []"
| "read_items m (Suc n) = rbind m (\<lambda>x. rbind (read_items m n) (\<lambda>xs. rret (x # xs)))"

definition read_array :: "nat \<Rightarrow> 'a reading \<Rightarrow> 'a list reading" where
  "read_array cap m = rbind ReadArrayHeader (\<lambda>n.
     if unat n > cap then rfail else read_items m (unat n))"

text \<open>\<open>if (r.HasError() || !r.AtEnd()) return false\<close> after the whole payload was read.\<close>

definition decode_message :: "'x reading \<Rightarrow> bytes \<Rightarrow> 'x option" where
  "decode_message m payload = (case m (CborReader payload (length payload)) of
     (None, _) \<Rightarrow> None
   | (Some x, r) \<Rightarrow> if HasError r \<or> \<not> AtEnd r then None else Some x)"

subsection \<open>Safety and definiteness\<close>

lemma safe_once [safe_intros]: "safe m \<Longrightarrow> safe (once slot m upd)"
  by (cases slot) (auto simp: once_def intro!: safe_intros)

lemma safe_checked [safe_intros]: "safe m \<Longrightarrow> safe (checked P m)"
  unfolding checked_def by (intro safe_intros)

lemma safe_ReadU32 [safe_intros]: "safe ReadU32"
  unfolding ReadU32_def by (intro safe_intros)

lemma safe_ignore [safe_intros]: "safe (ignore s)"
  unfolding ignore_def by (intro safe_intros)

lemma safe_fields: "(\<And>k s. safe (field k s)) \<Longrightarrow> safe (read_fields field n s)"
  by (induction n arbitrary: s) (auto intro!: safe_intros)

lemma safe_map [safe_intros]: "(\<And>k s. safe (field k s)) \<Longrightarrow> safe (read_map field init finish)"
  unfolding read_map_def by (intro safe_intros safe_fields)

lemma safe_items [safe_intros]: "safe m \<Longrightarrow> safe (read_items m n)"
  by (induction n) (auto intro!: safe_intros)

lemma safe_array [safe_intros]: "safe m \<Longrightarrow> safe (read_array cap m)"
  unfolding read_array_def by (intro safe_intros)

lemma definite_once [definite_intros]: "definite m \<Longrightarrow> definite (once slot m upd)"
  by (cases slot) (auto simp: once_def intro!: definite_intros)

lemma definite_checked [definite_intros]: "definite m \<Longrightarrow> definite (checked P m)"
  unfolding checked_def by (intro definite_intros)

lemma definite_ReadU32 [definite_intros]: "definite ReadU32"
  unfolding ReadU32_def by (intro definite_intros)

lemma definite_ignore [definite_intros]: "definite (ignore s)"
  unfolding ignore_def by (intro definite_intros)

lemma definite_fields: "(\<And>k s. definite (field k s)) \<Longrightarrow> definite (read_fields field n s)"
  by (induction n arbitrary: s) (auto intro!: definite_intros)

lemma definite_map [definite_intros]:
  "(\<And>k s. definite (field k s)) \<Longrightarrow> definite (read_map field init finish)"
  unfolding read_map_def by (intro definite_intros definite_fields)

lemma definite_items [definite_intros]: "definite m \<Longrightarrow> definite (read_items m n)"
  by (induction n) (auto intro!: definite_intros)

lemma definite_array [definite_intros]: "definite m \<Longrightarrow> definite (read_array cap m)"
  unfolding read_array_def by (intro definite_intros)

lemma CborReader_rdr: "CborReader p (length p) = rdr [] p"
  by (simp add: CborReader_def rdr_def)

lemma ended_iff: "HasError (rdr pre zs) \<or> \<not> AtEnd (rdr pre zs) \<longleftrightarrow> zs \<noteq> []"
  by (auto simp: HasError_def AtEnd_def rdr_def)

lemma decode_message_exact:
  assumes "m (rdr [] p) = (Some x, rdr p [])"
  shows "decode_message m p = Some x"
  using assms by (simp add: decode_message_def CborReader_rdr HasError_def AtEnd_def rdr_def)

text \<open>A payload that decodes is a whole message: no longer payload begins with it.\<close>

lemma decode_message_whole:
  assumes m: "definite m" and p: "decode_message m p = Some x"
    and zs: "zs \<noteq> []" "length (p @ zs) < 2 ^ 64"
  shows "decode_message m (p @ zs) = None"
proof -
  have len: "length p < 2 ^ 64" using zs(2) by simp
  obtain r' where r': "m (rdr [] p) = (Some x, r')" "\<not> (HasError r' \<or> \<not> AtEnd r')"
    using p by (auto simp: decode_message_def CborReader_rdr split: prod.splits option.splits if_splits)
  obtain b vs where b: "p = b @ vs" "r' = rdr ([] @ b) vs"
    and ext: "\<And>pre' zs'. length vs \<le> length zs' \<Longrightarrow> length (b @ zs') < 2 ^ 64 \<Longrightarrow>
       m (rdr pre' (b @ zs')) = (Some x, rdr (pre' @ b) zs')"
    by (rule definiteD [OF m r'(1) len]) blast
  have "vs = []" using r'(2) b(2) ended_iff by simp
  then have "m (rdr [] (p @ zs)) = (Some x, rdr p zs)" using ext [of zs "[]"] b zs(2) by simp
  then show ?thesis using zs(1) ended_iff [of p zs] CborReader_rdr [of "p @ zs"] by (simp add: decode_message_def)
qed

end
