(* ===== verification/Messages.thy ===== *)
theory Messages
  imports CborReading
begin

text \<open>
  The decoding loop of the message files as interfaces: \<open>item_codec\<close> (a value that is read
  back as it was written, and arrays of such values), \<open>wire_message\<close> (a map whose keys may come in
  any order, with other keys between them) and \<open>message_bounds\<close> (what a decoder guarantees
  of the values it returns). The message theories interpret them on the code's own loops.
\<close>


section \<open>A value that is read back as it was written\<close>

locale item_codec =
  fixes rd :: "'a reading" and enc :: "'a \<Rightarrow> bytes" and ok :: "'a \<Rightarrow> bool"
  assumes reads_back: "ok x \<Longrightarrow> length (enc x @ ys) < 2 ^ 64 \<Longrightarrow>
      rd (rdr pre (enc x @ ys)) = (Some x, rdr (pre @ enc x) ys)"
    and nonempty: "enc x \<noteq> []"
begin

lemma length_items: "length xs \<le> length (concat (map enc xs))"
proof (induction xs)
  case (Cons x xs)
  then show ?case using nonempty [of x] by (cases "enc x") auto
qed simp

lemma read_items_back:
  "\<forall>x \<in> set xs. ok x \<Longrightarrow> length (concat (map enc xs) @ ys) < 2 ^ 64 \<Longrightarrow>
   read_items rd (length xs) (rdr pre (concat (map enc xs) @ ys))
     = (Some xs, rdr (pre @ concat (map enc xs)) ys)"
  by (induction xs arbitrary: pre) (simp_all add: rret_def rbind_def reads_back)

lemma read_array_back:
  assumes "\<forall>x \<in> set xs. ok x" and "length xs \<le> cap"
    and "length (array_bytes (length xs) @ concat (map enc xs) @ ys) < 2 ^ 64"
  shows "read_array cap rd (rdr pre (array_bytes (length xs) @ concat (map enc xs) @ ys))
     = (Some xs, rdr (pre @ array_bytes (length xs) @ concat (map enc xs)) ys)"
  using assms length_items [of xs] read_items_back [of xs ys "pre @ array_bytes (length xs)"]
  by (simp add: read_array_def rbind_def ReadArrayHeader_bytes size_of_length)

lemma read_array_over:
  assumes "cap < length xs" and "length (array_bytes (length xs) @ concat (map enc xs) @ ys) < 2 ^ 64"
  shows "fst (read_array cap rd (rdr pre (array_bytes (length xs) @ concat (map enc xs) @ ys))) = None"
  using assms length_items [of xs]
  by (simp add: read_array_def rbind_def ReadArrayHeader_bytes size_of_length rfail_def)

end

lemma rbind_Some_iff:
  "rbind m f r = (Some b, r') \<longleftrightarrow> (\<exists>a r1. m r = (Some a, r1) \<and> f a r1 = (Some b, r'))"
  by (auto simp: rbind_def split: prod.splits option.splits)

lemma read_items_all:
  assumes "\<And>r x r'. m r = (Some x, r') \<Longrightarrow> P x"
  shows "read_items m n r = (Some xs, r') \<Longrightarrow> length xs = n \<and> (\<forall>x \<in> set xs. P x)"
proof (induction n arbitrary: r xs)
  case (Suc n)
  then obtain x r1 ys where "m r = (Some x, r1)" "read_items m n r1 = (Some ys, r')" "xs = x # ys"
    by (auto simp: rbind_Some_iff rret_def)
  then show ?case using Suc.IH assms by auto
qed (simp add: rret_def)

lemma read_array_all:
  assumes "\<And>r x r'. m r = (Some x, r') \<Longrightarrow> P x" and "read_array cap m r = (Some xs, r')"
  shows "length xs \<le> cap \<and> (\<forall>x \<in> set xs. P x)"
proof -
  obtain n r1 where "read_items m n r1 = (Some xs, r')" "n \<le> cap"
    using assms(2) by (auto simp: read_array_def rbind_Some_iff rfail_def not_less split: if_splits)
  then show ?thesis using read_items_all [of m P] assms(1) by blast
qed

section \<open>A message as a list of fields\<close>

definition field_bytes :: "(string \<times> bytes) list \<Rightarrow> bytes" where
  "field_bytes fs = concat (map (\<lambda>(k, b). text_bytes k @ b) fs)"

definition map_message :: "(string \<times> bytes) list \<Rightarrow> bytes" where
  "map_message fs = map_bytes (length fs) @ field_bytes fs"

lemma field_bytes_simps [simp]:
  "field_bytes [] = []" "field_bytes ((k, b) # fs) = text_bytes k @ b @ field_bytes fs"
  by (simp_all add: field_bytes_def)

lemma length_field_bytes: "length fs \<le> length (field_bytes fs)"
proof (induction fs)
  case (Cons f fs)
  then show ?case using item_bytes_nonempty(4) [of "fst f"] 
    by (cases f; cases "text_bytes (fst f)") auto
qed simp

lemma length_text_bytes: "length k < length (text_bytes k)"
  using length_head_bytes_pos [of 3 "word_of_nat (length k)"]
  by (simp add: text_bytes_def wText_def WriteTypeAndArg_append [of _ _ "[]"] del: length_greater_0_conv)

text \<open>
  The laws of one message: \<open>part K x\<close> is the decoder's state once it has stored exactly the
  keys \<open>K\<close> of the message \<open>x\<close>, \<open>val k x\<close> the bytes the encoder writes for \<open>k\<close>, and
  \<open>needed x\<close> the keys without which \<open>x\<close> is not conveyed.
\<close>

locale wire_message =
  fixes field :: "string \<Rightarrow> 's \<Rightarrow> 's reading" and init :: 's and finish :: "'s \<Rightarrow> 'x option"
    and order :: "string list" and needed :: "'x \<Rightarrow> string set" and ok :: "'x \<Rightarrow> bool"
    and val :: "string \<Rightarrow> 'x \<Rightarrow> bytes" and part :: "string set \<Rightarrow> 'x \<Rightarrow> 's"
  assumes order: "distinct order" and needed: "needed x \<subseteq> set order"
    and field_known: "ok x \<Longrightarrow> k \<in> set order \<Longrightarrow> k \<notin> K \<Longrightarrow> length (val k x @ ys) < 2 ^ 64 \<Longrightarrow>
      field k (part K x) (rdr pre (val k x @ ys)) = (Some (part (insert k K) x), rdr (pre @ val k x) ys)"
    and field_other: "k \<notin> set order \<Longrightarrow> field k s = ignore s"
    and part_none: "part {} x = init"
    and finish_part: "ok x \<Longrightarrow> needed x \<subseteq> K \<Longrightarrow> K \<subseteq> set order \<Longrightarrow> finish (part K x) = Some x"
begin

definition canon :: "'x \<Rightarrow> (string \<times> bytes) list" where
  "canon x = map (\<lambda>k. (k, val k x)) order"

definition carries :: "'x \<Rightarrow> (string \<times> bytes) list \<Rightarrow> bool" where
  "carries x fs \<longleftrightarrow> (\<forall>(k, b) \<in> set fs. if k \<in> set order then b = val k x else cbor_item b)"

definition known :: "(string \<times> bytes) list \<Rightarrow> string list" where
  "known fs = filter (\<lambda>k. k \<in> set order) (map fst fs)"

lemma ignore_item: "cbor_item b \<Longrightarrow> length (b @ ys) < 2 ^ 64 \<Longrightarrow>
    ignore s (rdr pre (b @ ys)) = (Some s, rdr (pre @ b) ys)"
  using Skip_iff_item(2) [of "b @ ys" b ys pre] by (simp add: ignore_def rbind_Some rret_def)

lemma fields_read:
  assumes "ok x"
  shows "carries x fs \<Longrightarrow> distinct (known fs) \<Longrightarrow> set (known fs) \<inter> K = {} \<Longrightarrow>
    length (field_bytes fs @ ys) < 2 ^ 64 \<Longrightarrow>
    read_fields field (length fs) (part K x) (rdr pre (field_bytes fs @ ys))
      = (Some (part (set (known fs) \<union> K) x), rdr (pre @ field_bytes fs) ys)"
proof (induction fs arbitrary: K pre)
  case Nil
  then show ?case by (simp add: rret_def known_def)
next
  case (Cons f fs)
  obtain k b where f: "f = (k, b)" by (cases f)
  have len: "length k < 2 ^ 64" "length (b @ field_bytes fs @ ys) < 2 ^ 64"
    using Cons.prems(4) length_text_bytes [of k] by (auto simp: f)
  have cs: "carries x fs" using Cons.prems(1) by (simp add: carries_def)
  show ?case
  proof (cases "k \<in> set order")
    case True
    then have b: "b = val k x" and k: "k \<notin> K" and known: "known (f # fs) = k # known fs"
      using Cons.prems by (auto simp: f carries_def known_def)
    have "field k (part K x) (rdr (pre @ text_bytes k) (b @ field_bytes fs @ ys))
        = (Some (part (insert k K) x), rdr ((pre @ text_bytes k) @ b) (field_bytes fs @ ys))"
      using field_known [OF assms True k] len b by blast
    moreover have "set (known fs) \<inter> insert k K = {}" "distinct (known fs)"
      using Cons.prems known by auto
    ultimately show ?thesis using Cons.IH [OF cs, of "insert k K"] len known
      by (simp add: f rbind_Some ReadText_bytes)
  next
    case False
    then have b: "cbor_item b" and known: "known (f # fs) = known fs"
      using Cons.prems by (auto simp: f carries_def known_def)
    show ?thesis using Cons.IH [OF cs, of K] Cons.prems len known b
      by (simp add: f rbind_Some ReadText_bytes field_other [OF False] ignore_item)
  qed
qed

lemma map_header_read:
  assumes "length (map_message fs @ ys) < 2 ^ 64"
  shows "ReadMapHeader (rdr pre (map_message fs @ ys))
    = (Some (word_of_nat (length fs)), rdr (pre @ map_bytes (length fs)) (field_bytes fs @ ys))"
    and "unat (word_of_nat (length fs) :: u64) = length fs"
  using assms length_field_bytes [of fs]
  by (simp_all add: map_message_def ReadMapHeader_bytes size_of_length)

lemma read_map_fields:
  assumes "ok x" "carries x fs" "distinct (known fs)" "length (map_message fs @ ys) < 2 ^ 64"
  shows "read_map field init finish (rdr pre (map_message fs @ ys)) =
    (case finish (part (set (known fs)) x) of
       None \<Rightarrow> (None, rdr (pre @ map_message fs) ys)
     | Some y \<Rightarrow> (Some y, rdr (pre @ map_message fs) ys))"
  using map_header_read [OF assms(4)] fields_read [OF assms(1-3), of "{}" ys "pre @ map_bytes (length fs)"] assms(4)
  by (simp add: read_map_def rbind_Some part_none map_message_def rret_def rfail_def split: option.split)

lemma known_subset: "set (known fs) \<subseteq> set order"
  by (auto simp: known_def)

text \<open>The fields in any order, with any other fields between them.\<close>

lemma read_any_order:
  assumes "ok x" "carries x fs" "distinct (known fs)" "needed x \<subseteq> set (known fs)"
    "length (map_message fs @ ys) < 2 ^ 64"
  shows "read_map field init finish (rdr pre (map_message fs @ ys)) = (Some x, rdr (pre @ map_message fs) ys)"
  using read_map_fields [OF assms(1-3,5)] finish_part [OF assms(1,4) known_subset] by simp

lemma decode_any_order:
  assumes "ok x" "carries x fs" "distinct (known fs)" "needed x \<subseteq> set (known fs)"
    "length (map_message fs) < 2 ^ 64"
  shows "decode_message (read_map field init finish) (map_message fs) = Some x"
  using read_any_order [OF assms(1-4), of "[]" "[]"] assms(5) by (simp add: decode_message_exact)

lemma canon_facts: "carries x (canon x)" "distinct (known (canon x))" "needed x \<subseteq> set (known (canon x))"
  using order needed by (auto simp: carries_def canon_def known_def comp_def)

text \<open>The encoders leave out a key that is not needed.\<close>

lemma decode_selected:
  assumes "ok x" "distinct ks" "set ks \<subseteq> set order" "needed x \<subseteq> set ks"
    "length (map_message (map (\<lambda>k. (k, val k x)) ks)) < 2 ^ 64"
  shows "decode_message (read_map field init finish) (map_message (map (\<lambda>k. (k, val k x)) ks)) = Some x"
proof (rule decode_any_order [OF assms(1) _ _ _ assms(5)])
  show "carries x (map (\<lambda>k. (k, val k x)) ks)" using assms(3) by (auto simp: carries_def)
  show "distinct (known (map (\<lambda>k. (k, val k x)) ks))" using assms(2) by (simp add: known_def comp_def)
  show "needed x \<subseteq> set (known (map (\<lambda>k. (k, val k x)) ks))"
    using assms(4) needed [of x] by (auto simp: known_def comp_def)
qed

lemma read_canon:
  "ok x \<Longrightarrow> length (map_message (canon x) @ ys) < 2 ^ 64 \<Longrightarrow>
   read_map field init finish (rdr pre (map_message (canon x) @ ys))
     = (Some x, rdr (pre @ map_message (canon x)) ys)"
  using read_any_order [of x "canon x"] canon_facts by blast

lemma decode_canon:
  "ok x \<Longrightarrow> length (map_message (canon x)) < 2 ^ 64 \<Longrightarrow>
   decode_message (read_map field init finish) (map_message (canon x)) = Some x"
  using decode_any_order [of x "canon x"] canon_facts by blast

lemma map_message_nonempty: "map_message fs \<noteq> []"
  by (simp add: map_message_def)

end

sublocale wire_message \<subseteq> as_item: item_codec "read_map field init finish" "\<lambda>x. map_message (canon x)" ok
  by unfold_locales (auto simp: read_canon map_message_nonempty)

text \<open>A message none of whose keys may be repeated, and whose \<open>required\<close> keys must be there.\<close>

locale strict_message = wire_message +
  fixes required :: "string set"
  assumes field_again: "k \<in> set order \<Longrightarrow> k \<in> K \<Longrightarrow> fst (field k (part K x) r) = None"
    and finish_missing: "K \<subseteq> set order \<Longrightarrow> \<not> required \<subseteq> K \<Longrightarrow> finish (part K x) = None"
begin

lemma repeated_rejected:
  assumes "ok x"
  shows "carries x fs \<Longrightarrow> set (known fs) \<inter> K \<noteq> {} \<or> \<not> distinct (known fs) \<Longrightarrow>
    length (field_bytes fs @ ys) < 2 ^ 64 \<Longrightarrow>
    fst (read_fields field (length fs) (part K x) (rdr pre (field_bytes fs @ ys))) = None"
proof (induction fs arbitrary: K pre)
  case Nil
  then show ?case by (simp add: known_def)
next
  case (Cons f fs)
  obtain k b where f: "f = (k, b)" by (cases f)
  have len: "length k < 2 ^ 64" "length (b @ field_bytes fs @ ys) < 2 ^ 64"
    using Cons.prems(3) length_text_bytes [of k] by (auto simp: f)
  have cs: "carries x fs" using Cons.prems(1) by (simp add: carries_def)
  show ?case
  proof (cases "k \<in> set order")
    case True
    then have b: "b = val k x" and known: "known (f # fs) = k # known fs"
      using Cons.prems by (auto simp: f carries_def known_def)
    show ?thesis
    proof (cases "k \<in> K")
      case k: True
      obtain r1 where "field k (part K x) (rdr (pre @ text_bytes k) (b @ field_bytes fs @ ys)) = (None, r1)"
        using field_again [OF True k, of x] by (metis prod.collapse)
      then show ?thesis using len by (simp add: f rbind_Some rbind_None ReadText_bytes)
    next
      case k: False
      then have "set (known fs) \<inter> insert k K \<noteq> {} \<or> \<not> distinct (known fs)"
        using Cons.prems(2) known by auto
      then show ?thesis using field_known [OF assms True k] Cons.IH [OF cs, of "insert k K"] len b
        by (simp add: f rbind_Some ReadText_bytes)
    qed
  next
    case False
    then have b: "cbor_item b" and known: "known (f # fs) = known fs"
      using Cons.prems by (auto simp: f carries_def known_def)
    show ?thesis using Cons.IH [OF cs, of K] Cons.prems len known b
      by (simp add: f rbind_Some ReadText_bytes field_other [OF False] ignore_item)
  qed
qed

lemma decode_repeated:
  assumes "ok x" "carries x fs" "\<not> distinct (known fs)" "length (map_message fs) < 2 ^ 64"
  shows "decode_message (read_map field init finish) (map_message fs) = None"
proof -
  have "length (map_message fs @ []) < 2 ^ 64" "length (field_bytes fs @ []) < 2 ^ 64"
    using assms(4) by (simp_all add: map_message_def)
  then have "fst (read_map field init finish (rdr [] (map_message fs))) = None"
    using map_header_read(1) [of fs "[]" "[]"] map_header_read(2) [of fs "[]"]
      repeated_rejected [OF assms(1,2), of "{}" "[]" "map_bytes (length fs)"] assms(3)
    by (cases "read_fields field (length fs) init (rdr (map_bytes (length fs)) (field_bytes fs))")
      (auto simp: read_map_def part_none rbind_def split: option.splits)
  then show ?thesis by (auto simp: decode_message_def CborReader_rdr split: prod.splits option.splits)
qed

lemma decode_missing:
  assumes "ok x" "carries x fs" "\<not> required \<subseteq> set (known fs)" "length (map_message fs) < 2 ^ 64"
  shows "decode_message (read_map field init finish) (map_message fs) = None"
proof (cases "distinct (known fs)")
  case True
  then show ?thesis using read_map_fields [OF assms(1,2), of "[]" "[]"] assms(3,4)
      finish_missing [OF known_subset assms(3), of x]
    by (simp add: decode_message_def CborReader_rdr)
qed (use assms decode_repeated in blast)

end

text \<open>The bounds a decoder enforces on what it returns, and that it reads nothing outside its buffer.\<close>

locale message_bounds =
  fixes field :: "string \<Rightarrow> 's \<Rightarrow> 's reading" and init :: 's and finish :: "'s \<Rightarrow> 'x option"
    and inv :: "'s \<Rightarrow> bool" and ok :: "'x \<Rightarrow> bool"
  assumes inv_init: "inv init"
    and inv_field: "inv s \<Longrightarrow> field k s r = (Some s', r') \<Longrightarrow> inv s'"
    and inv_finish: "inv s \<Longrightarrow> finish s = Some x \<Longrightarrow> ok x"
    and safe_field: "safe (field k s)"
    and definite_field: "definite (field k s)"
begin

lemma inv_fields: "inv s \<Longrightarrow> read_fields field n s r = (Some s', r') \<Longrightarrow> inv s'"
proof (induction n arbitrary: s r)
  case (Suc n)
  then show ?case by (auto simp: rbind_Some_iff dest: inv_field)
qed (simp add: rret_def)

lemma read_ok: "read_map field init finish r = (Some x, r') \<Longrightarrow> ok x"
  by (auto simp: read_map_def rbind_Some_iff rfail_def rret_def split: option.splits
      dest!: inv_fields [OF inv_init] inv_finish)

lemma decode_ok: "decode_message (read_map field init finish) p = Some x \<Longrightarrow> ok x"
  by (auto simp: decode_message_def split: prod.splits option.splits if_splits dest: read_ok)

lemma safe_read: "safe (read_map field init finish)"
  by (intro safe_map safe_field)

lemma definite_read: "definite (read_map field init finish)"
  by (intro definite_map definite_field)

lemma decode_whole:
  "decode_message (read_map field init finish) p = Some x \<Longrightarrow> zs \<noteq> [] \<Longrightarrow> length (p @ zs) < 2 ^ 64 \<Longrightarrow>
   decode_message (read_map field init finish) (p @ zs) = None"
  by (rule decode_message_whole [OF definite_read])

end

locale message_codec =
  strict_message field init finish order needed ok val part required +
  message_bounds field init finish inv ok
  for field :: "string \<Rightarrow> 's \<Rightarrow> 's reading" and init :: 's and finish :: "'s \<Rightarrow> 'x option"
    and order :: "string list" and needed :: "'x \<Rightarrow> string set" and ok :: "'x \<Rightarrow> bool"
    and val :: "string \<Rightarrow> 'x \<Rightarrow> bytes" and part :: "string set \<Rightarrow> 'x \<Rightarrow> 's"
    and required :: "string set" and inv :: "'s \<Rightarrow> bool"
begin

lemma decode_canon_iff:
  assumes "length (map_message (canon x)) < 2 ^ 64"
  shows "decode_message (read_map field init finish) (map_message (canon x)) = Some x \<longleftrightarrow> ok x"
  using decode_canon [OF _ assms] decode_ok by blast

end

section \<open>Sizes, and the readers the messages share\<close>

lemma length_head_bytes: "length (head_bytes m a) \<le> 9"
  by (simp add: head_bytes_def WriteTypeAndArg_def Let_def)

lemma item_lengths:
  "length (uint_bytes v) \<le> 9" "length (int_bytes i) \<le> 9" "length (blob_bytes b) \<le> 9 + length b"
  "length (text_bytes s) \<le> 9 + length s" "length (bool_bytes t) \<le> 9" "length (array_bytes n) \<le> 9"
  "length (map_bytes n) \<le> 9"
  using length_head_bytes
  by (simp_all add: wUInt_def wInt_def wBytes_def wText_def wBool_def wArrayHeader_def
    wMapHeader_def uint_bytes_def int_bytes_def blob_bytes_def text_bytes_def bool_bytes_def
    array_bytes_def map_bytes_def WriteTypeAndArg_append [of _ _ "[]"])

lemma once_None [simp]: "once None m upd = rbind m (\<lambda>v. rret (upd v))"
  by (simp add: once_def)

lemma once_Some [simp]: "once (Some w) m upd = rfail"
  by (simp add: once_def)

lemma rbind_app [wire_simps]: "m r = (Some a, r') \<Longrightarrow> rbind m (\<lambda>v. rret (upd v)) r = (Some (upd a), r')"
  by (simp add: rbind_def rret_def)

lemma checked_app [wire_simps]: "m r = (Some a, r') \<Longrightarrow> P a \<Longrightarrow> checked P m r = (Some a, r')"
  by (simp add: checked_def rbind_def rret_def)

named_theorems reads_inv \<open>what a successful read of a field says of its value\<close>

lemma once_SomeD [reads_inv]: "once slot m upd r = (Some s', r') \<Longrightarrow>
    slot = None \<and> (\<exists>v. m r = (Some v, r') \<and> s' = upd v)"
  by (auto simp: once_def rfail_def rret_def rbind_Some_iff split: option.splits)

lemma checked_SomeD [reads_inv]: "checked P m r = (Some v, r') \<Longrightarrow> m r = (Some v, r') \<and> P v"
  by (auto simp: checked_def rfail_def rret_def rbind_Some_iff split: if_splits)

lemma rbind_SomeD [reads_inv]: "rbind m (\<lambda>v. rret (upd v)) r = (Some s', r') \<Longrightarrow>
    \<exists>v. m r = (Some v, r') \<and> s' = upd v"
  by (auto simp: rret_def rbind_Some_iff)

lemma ignore_SomeD [reads_inv]: "ignore s r = (Some s', r') \<Longrightarrow> s' = s \<and> Skip r = (Some (), r')"
  by (auto simp: ignore_def rret_def rbind_Some_iff)

lemma ReadU32_bytes [wire_simps]:
  "ReadU32 (rdr pre (uint_bytes (ucast v) @ ys)) = (Some v, rdr (pre @ uint_bytes (ucast v)) ys)"
proof -
  have v: "unat v < 2 ^ 32" using unsigned_less [of v] by simp
  then have "unat (ucast v :: u64) = unat v" by (simp add: unat_ucast_small)
  then have "\<not> (ucast v :: u64) > 0xFFFFFFFF" using v by (simp add: word_less_nat_alt)
  moreover have "(ucast (ucast v :: u64) :: u32) = v"
    by (rule bit_word_eqI) (auto simp: bit_simps)
  ultimately show ?thesis by (simp add: ReadU32_def rbind_Some ReadUInt_bytes rret_def)
qed

text \<open>Paths are non-empty and at most 1024 bytes in every message that carries one.\<close>

definition kMaxPathBytes :: nat where "kMaxPathBytes = 1024"

definition path_ok :: "string \<Rightarrow> bool" where
  "path_ok p \<longleftrightarrow> p \<noteq> [] \<and> length p \<le> kMaxPathBytes"

definition ReadPath :: "string reading" where
  "ReadPath = checked path_ok ReadText"

lemma ReadPath_bytes [wire_simps]: "path_ok p \<Longrightarrow>
  ReadPath (rdr pre (text_bytes p @ ys)) = (Some p, rdr (pre @ text_bytes p) ys)"
  by (simp add: ReadPath_def wire_simps path_ok_def kMaxPathBytes_def)

lemma ReadPath_SomeD [reads_inv]: "ReadPath r = (Some v, r') \<Longrightarrow> ReadText r = (Some v, r') \<and> path_ok v"
  unfolding ReadPath_def by (rule checked_SomeD)

lemma ReadPath_intros [safe_intros, definite_intros]: "safe ReadPath" "definite ReadPath"
  unfolding ReadPath_def by (intro safe_intros definite_intros)+

end
