(* ===== verification/Frame.thy ===== *)
theory Frame
  imports Prelude
begin

text \<open>
  The frame layer: \<open>src/src/traghetto/wire/Frame.h\<close> (message types and the frame),
  \<open>FrameCodec.h\<close> and \<open>FrameCodec.cpp\<close> (\<open>EncodeFrame\<close> and the incremental
  \<open>FrameParser\<close>). The parser's buffer with its read position is refined to the stream of bytes
  not yet consumed, so that the frames it delivers do not depend on how the bytes arrived.
\<close>

section \<open>Message types and frames\<close>

text \<open>\<open>enum class MessageType : uint8_t\<close>; any other byte is a value of the type as well.\<close>

type_synonym message_type = byte

definition kInvalid :: message_type where "kInvalid = 0x00"
definition kHello :: message_type where "kHello = 0x01"
definition kWelcome :: message_type where "kWelcome = 0x02"
definition kList :: message_type where "kList = 0x10"
definition kStat :: message_type where "kStat = 0x11"
definition kOpen :: message_type where "kOpen = 0x12"
definition kRead :: message_type where "kRead = 0x13"
definition kWrite :: message_type where "kWrite = 0x14"
definition kClose :: message_type where "kClose = 0x15"
definition kMkdir :: message_type where "kMkdir = 0x20"
definition kUnlink :: message_type where "kUnlink = 0x21"
definition kRename :: message_type where "kRename = 0x22"
definition kTruncate :: message_type where "kTruncate = 0x23"
definition kListAttrs :: message_type where "kListAttrs = 0x30"
definition kReadAttrs :: message_type where "kReadAttrs = 0x31"
definition kWriteAttrs :: message_type where "kWriteAttrs = 0x32"
definition kQueryOpen :: message_type where "kQueryOpen = 0x40"
definition kQueryResult :: message_type where "kQueryResult = 0x41"
definition kQueryUpdate :: message_type where "kQueryUpdate = 0x42"
definition kQueryClose :: message_type where "kQueryClose = 0x43"
definition kError :: message_type where "kError = 0xE0"

lemmas message_types = kInvalid_def kHello_def kWelcome_def kList_def kStat_def kOpen_def kRead_def
  kWrite_def kClose_def kMkdir_def kUnlink_def kRename_def kTruncate_def kListAttrs_def
  kReadAttrs_def kWriteAttrs_def kQueryOpen_def kQueryResult_def kQueryUpdate_def
  kQueryClose_def kError_def

definition kMagic0 :: byte where "kMagic0 = 0x43"
definition kMagic1 :: byte where "kMagic1 = 0x4E"
definition kProtocolVersion :: byte where "kProtocolVersion = 0x01"
definition kHeaderSize :: nat where "kHeaderSize = 12"
definition kMaxPayloadLength :: nat where "kMaxPayloadLength = 16 * 1024 * 1024"

record Frame =
  fr_version :: byte
  fr_type :: message_type
  fr_requestId :: u32
  fr_payload :: bytes

definition mkFrame :: "message_type \<Rightarrow> u32 \<Rightarrow> bytes \<Rightarrow> Frame" where
  "mkFrame t rid payload =
     \<lparr>fr_version = kProtocolVersion, fr_type = t, fr_requestId = rid, fr_payload = payload\<rparr>"

section \<open>EncodeFrame\<close>

definition ReadU32BE :: "bytes \<Rightarrow> u32" where
  "ReadU32BE p = push_bit 24 (ucast (p ! 0)) OR push_bit 16 (ucast (p ! 1))
     OR push_bit 8 (ucast (p ! 2)) OR ucast (p ! 3)"

definition WriteU32BE :: "bytes \<Rightarrow> u32 \<Rightarrow> bytes" where
  "WriteU32BE out v = out @ [ucast (drop_bit 24 v AND 0xFF), ucast (drop_bit 16 v AND 0xFF),
     ucast (drop_bit 8 v AND 0xFF), ucast (v AND 0xFF)]"

definition EncodeFrame_into :: "Frame \<Rightarrow> bytes \<Rightarrow> bytes option" where
  "EncodeFrame_into frame out =
    (if length (fr_payload frame) > kMaxPayloadLength then None
     else
       let out = out @ [kMagic0] @ [kMagic1] @ [fr_version frame] @ [fr_type frame];
           out = WriteU32BE out (fr_requestId frame);
           out = WriteU32BE out (word_of_nat (length (fr_payload frame)))
       in Some (out @ fr_payload frame))"

definition EncodeFrame :: "Frame \<Rightarrow> bytes" where
  "EncodeFrame frame = (case EncodeFrame_into frame [] of None \<Rightarrow> [] | Some out \<Rightarrow> out)"

section \<open>FrameParser\<close>

datatype parse_result = kFrame Frame | kNeedMore | kParseError

record frame_parser =
  fp_Buffer :: bytes
  fp_ReadPos :: nat
  fp_Error :: bool
  fp_ErrorMessage :: "string option"

definition FrameParser :: frame_parser where
  "FrameParser = \<lparr>fp_Buffer = [], fp_ReadPos = 0, fp_Error = False, fp_ErrorMessage = None\<rparr>"

definition Feed :: "bytes \<Rightarrow> frame_parser \<Rightarrow> frame_parser" where
  "Feed data p =
    (let p = (if fp_ReadPos p > 0
              then p\<lparr>fp_Buffer := drop (fp_ReadPos p) (fp_Buffer p), fp_ReadPos := 0\<rparr> else p)
     in if length data > 0 then p\<lparr>fp_Buffer := fp_Buffer p @ data\<rparr> else p)"

definition Latch :: "string \<Rightarrow> frame_parser \<Rightarrow> frame_parser" where
  "Latch message p = p\<lparr>fp_Error := True, fp_ErrorMessage := Some message\<rparr>"

definition Next :: "frame_parser \<Rightarrow> parse_result \<times> frame_parser" where
  "Next p =
    (if fp_Error p then (kParseError, p)
     else let available = length (fp_Buffer p) - fp_ReadPos p in
     if available < kHeaderSize then (kNeedMore, p)
     else let h = drop (fp_ReadPos p) (fp_Buffer p) in
     if h ! 0 \<noteq> kMagic0 \<or> h ! 1 \<noteq> kMagic1 then (kParseError, Latch ''bad magic'' p)
     else let version = h ! 2 in
     if version \<noteq> kProtocolVersion then (kParseError, Latch ''unsupported protocol version'' p)
     else let payloadLen = unat (ReadU32BE (drop 8 h)) in
     if payloadLen > kMaxPayloadLength
     then (kParseError, Latch ''payload length exceeds maximum'' p)
     else let frameSize = kHeaderSize + payloadLen in
     if available < frameSize then (kNeedMore, p)
     else (kFrame \<lparr>fr_version = version, fr_type = h ! 3, fr_requestId = ReadU32BE (drop 4 h),
                   fr_payload = take (frameSize - kHeaderSize) (drop kHeaderSize h)\<rparr>,
           p\<lparr>fp_ReadPos := fp_ReadPos p + frameSize\<rparr>))"

definition Parser_HasError :: "frame_parser \<Rightarrow> bool" where
  "Parser_HasError p = fp_Error p"

definition Parser_ErrorMessage :: "frame_parser \<Rightarrow> string option" where
  "Parser_ErrorMessage p = (if fp_Error p then fp_ErrorMessage p else None)"

definition Buffered :: "frame_parser \<Rightarrow> nat" where
  "Buffered p = length (fp_Buffer p) - fp_ReadPos p"

section \<open>The stream of bytes behind the buffer\<close>

text \<open>The abstract state of a parser: the bytes not yet consumed, and the latched reason.\<close>

definition parser_inv :: "frame_parser \<Rightarrow> bool" where
  "parser_inv p \<longleftrightarrow> fp_ReadPos p \<le> length (fp_Buffer p) \<and> (fp_Error p \<longleftrightarrow> fp_ErrorMessage p \<noteq> None)"

definition pending :: "frame_parser \<Rightarrow> bytes" where
  "pending p = drop (fp_ReadPos p) (fp_Buffer p)"

datatype split_result = Whole Frame bytes | Short | Malformed string

definition split_frame :: "bytes \<Rightarrow> split_result" where
  "split_frame h =
    (if length h < 12 then Short
     else if take 2 h \<noteq> [kMagic0, kMagic1] then Malformed ''bad magic''
     else if h ! 2 \<noteq> kProtocolVersion then Malformed ''unsupported protocol version''
     else let n = unat (ReadU32BE (drop 8 h)) in
     if n > kMaxPayloadLength then Malformed ''payload length exceeds maximum''
     else if length h < 12 + n then Short
     else Whole \<lparr>fr_version = h ! 2, fr_type = h ! 3, fr_requestId = ReadU32BE (drop 4 h),
                 fr_payload = take n (drop 12 h)\<rparr> (drop (12 + n) h))"

lemma take2_iff: "2 \<le> length h \<Longrightarrow> take 2 h = [a, b] \<longleftrightarrow> h ! 0 = a \<and> h ! 1 = b"
  by (cases h; cases "tl h") (auto simp: take_Cons')

lemma Feed_pending: "parser_inv p \<Longrightarrow> pending (Feed data p) = pending p @ data \<and> parser_inv (Feed data p)"
  by (auto simp: pending_def Feed_def parser_inv_def)

lemma Feed_error [simp]:
  "fp_Error (Feed data p) = fp_Error p" "fp_ErrorMessage (Feed data p) = fp_ErrorMessage p"
  by (simp_all add: Feed_def Let_def)

lemma Feed_reclaims: "parser_inv p \<Longrightarrow> length (fp_Buffer (Feed data p)) = Buffered p + length data"
  by (simp add: Feed_def Buffered_def parser_inv_def)

lemma Next_split:
  assumes "parser_inv p" and "\<not> fp_Error p"
  shows "case split_frame (pending p) of
     Short \<Rightarrow> Next p = (kNeedMore, p)
   | Malformed m \<Rightarrow> Next p = (kParseError, Latch m p)
   | Whole f rest \<Rightarrow> \<exists>p'. Next p = (kFrame f, p') \<and> parser_inv p' \<and> \<not> fp_Error p' \<and> pending p' = rest"
proof -
  have len: "length (pending p) = length (fp_Buffer p) - fp_ReadPos p" by (simp add: pending_def)
  have pend: "drop (fp_ReadPos p) (fp_Buffer p) = pending p" by (simp add: pending_def)
  have N: "Next p =
    (if length (pending p) < 12 then (kNeedMore, p)
     else if pending p ! 0 \<noteq> kMagic0 \<or> pending p ! 1 \<noteq> kMagic1 then (kParseError, Latch ''bad magic'' p)
     else if pending p ! 2 \<noteq> kProtocolVersion then (kParseError, Latch ''unsupported protocol version'' p)
     else let n = unat (ReadU32BE (drop 8 (pending p))) in
     if n > kMaxPayloadLength then (kParseError, Latch ''payload length exceeds maximum'' p)
     else if length (pending p) < 12 + n then (kNeedMore, p)
     else (kFrame \<lparr>fr_version = pending p ! 2, fr_type = pending p ! 3,
             fr_requestId = ReadU32BE (drop 4 (pending p)), fr_payload = take n (drop 12 (pending p))\<rparr>,
           p\<lparr>fp_ReadPos := fp_ReadPos p + (12 + n)\<rparr>))"
    using assms(2) unfolding Next_def len pend by (simp add: kHeaderSize_def Let_def)
  have adv: "12 + n \<le> length (pending p) \<Longrightarrow>
      parser_inv (p\<lparr>fp_ReadPos := fp_ReadPos p + (12 + n)\<rparr>) \<and>
      pending (p\<lparr>fp_ReadPos := fp_ReadPos p + (12 + n)\<rparr>) = drop (12 + n) (pending p)" for n
    using assms(1) unfolding len by (auto simp: parser_inv_def pending_def add.commute)
  show ?thesis
    using adv assms(2) unfolding N split_frame_def by (auto simp: take2_iff Let_def)
qed

lemma Next_error: "fp_Error p \<Longrightarrow> Next p = (kParseError, p)"
  by (simp add: Next_def)

text \<open>More bytes behind a frame, or behind a malformed header, change nothing of it.\<close>

lemma ReadU32BE_append: "4 \<le> length h \<Longrightarrow> ReadU32BE (h @ ds) = ReadU32BE h"
  by (auto simp: ReadU32BE_def nth_append)

lemma split_frame_append:
  "case split_frame h of
     Short \<Rightarrow> True
   | Malformed m \<Rightarrow> split_frame (h @ ds) = Malformed m
   | Whole f rest \<Rightarrow> split_frame (h @ ds) = Whole f (rest @ ds)"
  using ReadU32BE_append [of "drop 8 h" ds] ReadU32BE_append [of "drop 4 h" ds]
  by (auto simp: split_frame_def nth_append Let_def)

lemma split_frame_shorter: "split_frame h = Whole f rest \<Longrightarrow> length rest < length h"
  by (auto simp: split_frame_def Let_def split: if_splits)

section \<open>Draining the parser\<close>

text \<open>The loop \<open>while (parser.Next(f) == ParseResult::kFrame)\<close> of \<open>FrameCodec.h\<close>.\<close>

lemma Next_consumes: "Next p = (kFrame f, p') \<Longrightarrow> Buffered p' < Buffered p"
  by (auto simp: Next_def Buffered_def kHeaderSize_def Let_def split: if_splits)

function drain :: "frame_parser \<Rightarrow> Frame list \<times> frame_parser" where
  "drain p = (case Next p of
     (kFrame f, p') \<Rightarrow> (let (fs, q) = drain p' in (f # fs, q))
   | (_, p') \<Rightarrow> ([], p'))"
  by pat_completeness auto
termination by (relation "measure Buffered") (auto dest: Next_consumes [OF sym])

declare drain.simps [simp del]

fun feed_all :: "bytes list \<Rightarrow> frame_parser \<Rightarrow> Frame list \<times> frame_parser" where
  "feed_all [] p = ([], p)"
| "feed_all (c # cs) p =
    (let (fs, p1) = drain (Feed c p); (gs, p2) = feed_all cs p1 in (fs @ gs, p2))"

text \<open>The same on the stream: the frames, the bytes left, the reason if it is malformed.\<close>

function split_all :: "bytes \<Rightarrow> Frame list \<times> bytes \<times> string option" where
  "split_all h = (case split_frame h of
     Short \<Rightarrow> ([], h, None)
   | Malformed m \<Rightarrow> ([], h, Some m)
   | Whole f rest \<Rightarrow> (let (fs, r, e) = split_all rest in (f # fs, r, e)))"
  by pat_completeness auto
termination by (relation "measure length") (auto dest: split_frame_shorter)

declare split_all.simps [simp del]

lemma split_all_append:
  "split_all h = (fs, r, e) \<Longrightarrow> split_all (h @ ds) =
     (case e of
        None \<Rightarrow> (let (gs, r', e') = split_all (r @ ds) in (fs @ gs, r', e'))
      | Some m \<Rightarrow> (fs, r @ ds, Some m))"
proof (induction h arbitrary: fs r e rule: split_all.induct)
  case (1 h)
  show ?case
  proof (cases "split_frame h")
    case (Whole f rest)
    obtain fs' r' e' where rest: "split_all rest = (fs', r', e')" by (metis prod.collapse)
    have "fs = f # fs'" "r = r'" "e = e'"
      using "1.prems" Whole rest by (simp_all add: split_all.simps [of h])
    then show ?thesis using "1.IH" [OF Whole rest] split_frame_append [of h ds] Whole
      by (auto simp: split_all.simps [of "h @ ds"] split: option.split prod.split)
  next
    case Short
    then show ?thesis using "1.prems" by (auto simp: split_all.simps [of h])
  next
    case (Malformed m)
    then have "fs = []" "r = h" "e = Some m" using "1.prems" by (simp_all add: split_all.simps [of h])
    then show ?thesis using split_frame_append [of h ds] Malformed
      by (simp add: split_all.simps [of "h @ ds"])
  qed
qed

lemma drain_split:
  "parser_inv p \<Longrightarrow> \<not> fp_Error p \<Longrightarrow> split_all (pending p) = (fs, r, e) \<Longrightarrow>
   \<exists>q. drain p = (fs, q) \<and> parser_inv q \<and> pending q = r \<and> fp_ErrorMessage q = e"
proof (induction p arbitrary: fs r e rule: drain.induct)
  case (1 p)
  show ?case
  proof (cases "split_frame (pending p)")
    case (Whole f rest)
    obtain p' where p': "Next p = (kFrame f, p')" "parser_inv p'" "\<not> fp_Error p'" "pending p' = rest"
      using Next_split [OF "1.prems"(1,2)] Whole by auto
    obtain fs' r' e' where rest: "split_all rest = (fs', r', e')" by (metis prod.collapse)
    have fs: "fs = f # fs'" "r = r'" "e = e'"
      using "1.prems"(3) Whole rest by (simp_all add: split_all.simps [of "pending p"])
    obtain q where "drain p' = (fs', q)" "parser_inv q" "pending q = r'" "fp_ErrorMessage q = e'"
      using "1.IH" [OF p'(1) [symmetric] refl p'(2,3)] rest p'(4) by blast
    then show ?thesis using p'(1) fs by (simp add: drain.simps [of p])
  next
    case Short
    then have "Next p = (kNeedMore, p)" using Next_split [OF "1.prems"(1,2)] by simp
    then show ?thesis using "1.prems" Short
      by (auto simp: drain.simps [of p] split_all.simps [of "pending p"] parser_inv_def)
  next
    case (Malformed m)
    then have "Next p = (kParseError, Latch m p)" using Next_split [OF "1.prems"(1,2)] by simp
    moreover have "fs = []" "r = pending p" "e = Some m"
      using "1.prems"(3) Malformed by (simp_all add: split_all.simps [of "pending p"])
    ultimately show ?thesis using "1.prems"(1)
      by (auto simp: drain.simps [of p] parser_inv_def Latch_def pending_def)
  qed
qed

lemma feed_all_latched:
  "parser_inv p \<Longrightarrow> fp_Error p \<Longrightarrow>
   \<exists>q. feed_all cs p = ([], q) \<and> parser_inv q \<and> fp_ErrorMessage q = fp_ErrorMessage p"
proof (induction cs arbitrary: p)
  case (Cons c cs)
  have "drain (Feed c p) = ([], Feed c p)" using Cons.prems by (simp add: drain.simps Next_error)
  then show ?case using Cons.IH [of "Feed c p"] Cons.prems Feed_pending [of p c] by auto
qed simp

text \<open>However the bytes are cut into chunks, the parser delivers the frames of the stream.\<close>

lemma feed_all_split:
  "parser_inv p \<Longrightarrow> \<not> fp_Error p \<Longrightarrow> split_all (pending p) = ([], pending p, None) \<Longrightarrow>
   split_all (pending p @ concat cs) = (fs, r, e) \<Longrightarrow>
   \<exists>q. feed_all cs p = (fs, q) \<and> parser_inv q \<and> fp_ErrorMessage q = e \<and> (e = None \<longrightarrow> pending q = r)"
proof (induction cs arbitrary: p fs)
  case (Cons c cs)
  let ?p = "Feed c p"
  have fed: "pending ?p = pending p @ c" "parser_inv ?p" "\<not> fp_Error ?p"
    using Feed_pending [OF Cons.prems(1)] Cons.prems(2) by simp_all
  obtain fs1 r1 e1 where s1: "split_all (pending ?p) = (fs1, r1, e1)" by (metis prod.collapse)
  obtain p1 where p1: "drain ?p = (fs1, p1)" "parser_inv p1" "pending p1 = r1" "fp_ErrorMessage p1 = e1"
    using drain_split [OF fed(2,3) s1] by blast
  have app: "split_all (pending p @ concat (c # cs)) = (case e1 of
        None \<Rightarrow> (let (gs, r', e') = split_all (r1 @ concat cs) in (fs1 @ gs, r', e'))
      | Some m \<Rightarrow> (fs1, r1 @ concat cs, Some m))"
    using split_all_append [OF s1, of "concat cs"] fed(1) by simp
  show ?case
  proof (cases e1)
    case None
    obtain gs r' e' where g: "split_all (r1 @ concat cs) = (gs, r', e')" by (metis prod.collapse)
    have r1: "split_all r1 = ([], r1, None)"
      using s1 split_all_append [OF s1, of "[]"] None by (auto split: prod.splits)
    have "\<not> fp_Error p1" using p1(2,4) None by (simp add: parser_inv_def)
    then obtain q where "feed_all cs p1 = (gs, q)" "parser_inv q" "fp_ErrorMessage q = e'"
        "e' = None \<longrightarrow> pending q = r'"
      using Cons.IH [of p1 gs] p1 r1 g Cons.prems(4) app None by (auto simp: r1)
    then show ?thesis using p1(1) Cons.prems(4) app None g by auto
  next
    case (Some m)
    then have "fp_Error p1" using p1(2,4) by (simp add: parser_inv_def)
    then show ?thesis using feed_all_latched [OF p1(2), of cs] p1 Cons.prems(4) app Some by auto
  qed
qed (auto simp: parser_inv_def)

section \<open>Round trip\<close>

lemma ReadU32BE_bytes:
  "ReadU32BE (ucast (drop_bit 24 v AND 0xFF) # ucast (drop_bit 16 v AND 0xFF) #
     ucast (drop_bit 8 v AND 0xFF) # ucast (v AND 0xFF) # ys) = v"
proof -
  have m: "(0xFF :: u32) = mask 8" by (simp add: mask_eq_exp_minus_1)
  have 1: "(ucast (ucast (x AND mask 8) :: byte) :: u32) = x AND mask 8" for x :: u32
    by (rule bit_word_eqI) (auto simp: bit_simps)
  show ?thesis unfolding m
  proof (rule bit_word_eqI)
    fix n :: nat
    consider "n < 8" | "8 \<le> n" "n < 16" | "16 \<le> n" "n < 24" | "24 \<le> n" by linarith
    then show "bit (ReadU32BE (ucast (drop_bit 24 v AND mask 8) # ucast (drop_bit 16 v AND mask 8) #
        ucast (drop_bit 8 v AND mask 8) # ucast (v AND mask 8) # ys)) n \<longleftrightarrow> bit v n"
      by cases (auto simp: ReadU32BE_def 1 bit_simps dest: bit_imp_le_length)
  qed
qed

definition frame_ok :: "Frame \<Rightarrow> bool" where
  "frame_ok f \<longleftrightarrow> fr_version f = kProtocolVersion \<and> length (fr_payload f) \<le> kMaxPayloadLength"

lemma EncodeFrame_bytes:
  "length (fr_payload f) \<le> kMaxPayloadLength \<Longrightarrow> EncodeFrame f =
     [kMagic0, kMagic1, fr_version f, fr_type f] @ WriteU32BE [] (fr_requestId f) @
     WriteU32BE [] (word_of_nat (length (fr_payload f))) @ fr_payload f"
  by (simp add: EncodeFrame_def EncodeFrame_into_def WriteU32BE_def Let_def)

lemma split_EncodeFrame:
  assumes "frame_ok f"
  shows "split_frame (EncodeFrame f @ ds) = Whole f ds"
proof -
  have n: "unat (word_of_nat (length (fr_payload f)) :: u32) = length (fr_payload f)"
    using assms by (simp add: frame_ok_def unat_of_nat kMaxPayloadLength_def)
  have d: "drop (12 + k) (a # b # c # d # e # f # g # h # i # j # l # m # xs) = drop k xs" 
    for k a b c d e f g h i j l m and xs :: bytes by (simp add: numeral_eq_Suc)
  show ?thesis using assms
    by (simp add: EncodeFrame_bytes frame_ok_def split_frame_def WriteU32BE_def ReadU32BE_bytes n d)
qed

lemma split_encoded_stream:
  assumes "\<forall>f \<in> set fs. frame_ok f" and "split_frame tail = Short"
  shows "split_all (concat (map EncodeFrame fs) @ tail) = (fs, tail, None)"
  using assms
  by (induction fs) (simp_all add: split_all.simps split_EncodeFrame)

lemma FrameParser_init: "parser_inv FrameParser" "\<not> fp_Error FrameParser" "pending FrameParser = []"
  by (simp_all add: FrameParser_def parser_inv_def pending_def)

end
