(* ===== verification/Handshake.thy ===== *)
theory Handshake
  imports Messages Frame
begin

text \<open>
  ERROR replies (\<open>src/src/traghetto/wire/Error.cpp\<close>) and the node identity of HELLO and WELCOME
  (\<open>Handshake.cpp\<close>). Both have optional fields: the message text of an error, and the
  capabilities of a node.
\<close>

section \<open>Error.cpp\<close>

definition kMaxErrorMessageBytes :: nat where "kMaxErrorMessageBytes = 256"

text \<open>\<open>enum class ErrorCode : uint32_t\<close>.\<close>

definition kInternal :: u32 where "kInternal = 1"
definition kNotFound :: u32 where "kNotFound = 2"
definition kAccessDenied :: u32 where "kAccessDenied = 3"
definition kNotADirectory :: u32 where "kNotADirectory = 4"
definition kIsADirectory :: u32 where "kIsADirectory = 5"
definition kInvalidRequest :: u32 where "kInvalidRequest = 6"
definition kUnsupported :: u32 where "kUnsupported = 7"
definition kIOError :: u32 where "kIOError = 8"
definition kNoSpace :: u32 where "kNoSpace = 9"
definition kBadHandle :: u32 where "kBadHandle = 10"
definition kTooManyOpen :: u32 where "kTooManyOpen = 11"

record ErrorReply =
  er_code :: u32
  er_message :: string

record error_slots =
  el_code :: "u32 option"
  el_message :: "string option"

definition EncodeError :: "u32 \<Rightarrow> string \<Rightarrow> bytes" where
  "EncodeError code message =
    (if message = [] then writes [wMapHeader 1, wText ''code'', wUInt (ucast code)] []
     else writes [wMapHeader 2, wText ''msg'', wText message, wText ''code'', wUInt (ucast code)] [])"

definition error_field :: "string \<Rightarrow> error_slots \<Rightarrow> error_slots reading" where
  "error_field key s =
    (if key = ''code'' then once (el_code s) ReadU32 (\<lambda>v. s\<lparr>el_code := Some v\<rparr>)
     else if key = ''msg''
     then once (el_message s) (checked (\<lambda>m. length m \<le> kMaxErrorMessageBytes) ReadText)
       (\<lambda>v. s\<lparr>el_message := Some v\<rparr>)
     else ignore s)"

definition finish_error :: "error_slots \<Rightarrow> ErrorReply option" where
  "finish_error s = (case el_code s of
     None \<Rightarrow> None
   | Some c \<Rightarrow> Some \<lparr>er_code = c, er_message = (case el_message s of None \<Rightarrow> [] | Some m \<Rightarrow> m)\<rparr>)"

definition DecodeError :: "bytes \<Rightarrow> ErrorReply option" where
  "DecodeError = decode_message
     (read_map error_field \<lparr>el_code = None, el_message = None\<rparr> finish_error)"

definition MakeError :: "u32 \<Rightarrow> string \<Rightarrow> u32 \<Rightarrow> Frame" where
  "MakeError code message rid = mkFrame kError rid (EncodeError code message)"

definition error_ok :: "ErrorReply \<Rightarrow> bool" where
  "error_ok x \<longleftrightarrow> length (er_message x) \<le> kMaxErrorMessageBytes"

interpretation error_msg: message_codec error_field "\<lparr>el_code = None, el_message = None\<rparr>" finish_error
  "[''msg'', ''code'']" "\<lambda>x. {''code''} \<union> (if er_message x = [] then {} else {''msg''})" error_ok
  "\<lambda>k x. if k = ''code'' then uint_bytes (ucast (er_code x)) else text_bytes (er_message x)"
  "\<lambda>K x. \<lparr>el_code = (if ''code'' \<in> K then Some (er_code x) else None),
     el_message = (if ''msg'' \<in> K then Some (er_message x) else None)\<rparr>"
  "{''code''}" "\<lambda>s. \<forall>m. el_message s = Some m \<longrightarrow> length m \<le> kMaxErrorMessageBytes"
  by unfold_locales
    (auto simp: error_field_def finish_error_def error_ok_def kMaxErrorMessageBytes_def wire_simps
      dest!: reads_inv intro!: safe_intros definite_intros split: if_splits option.splits)

lemma error_back:
  assumes "length msg \<le> kMaxErrorMessageBytes"
  shows "DecodeError (EncodeError code msg) = Some \<lparr>er_code = code, er_message = msg\<rparr>"
proof -
  let ?x = "\<lparr>er_code = code, er_message = msg\<rparr>"
  let ?val = "\<lambda>k x. if k = ''code'' then uint_bytes (ucast (er_code x)) else text_bytes (er_message x)"
  have enc: "EncodeError code msg = map_message (map (\<lambda>k. (k, ?val k ?x))
      (if msg = [] then [''code''] else [''msg'', ''code'']))"
    by (simp add: EncodeError_def map_message_def wire_simps eval_nat_numeral)
  have "length (EncodeError code msg) < 2 ^ 64"
    using assms item_lengths(7) [of 1] item_lengths(7) [of 2] item_lengths(4) [of msg]
      item_lengths(1) [of "ucast code"]
    by (simp add: EncodeError_def wire_simps kMaxErrorMessageBytes_def)
  then show ?thesis
    using error_msg.decode_selected [of ?x "if msg = [] then [''code''] else [''msg'', ''code'']"] assms
    unfolding enc DecodeError_def by (auto simp: error_ok_def split: if_splits)
qed

lemma error_decoded: "DecodeError p = Some x \<Longrightarrow> error_ok x"
  unfolding DecodeError_def by (rule error_msg.decode_ok)

section \<open>Handshake.cpp\<close>

definition kFingerprintBytes :: nat where "kFingerprintBytes = 32"
definition kMaxNodeNameBytes :: nat where "kMaxNodeNameBytes = 128"
definition kMaxCaps :: nat where "kMaxCaps = 32"
definition kMaxCapBytes :: nat where "kMaxCapBytes = 32"

definition kCapBfs :: string where "kCapBfs = ''bfs''"

record NodeIdentity =
  ni_version :: u32
  ni_fingerprint :: bytes
  ni_caps :: "string list"
  ni_node :: string

definition HasCap :: "NodeIdentity \<Rightarrow> string \<Rightarrow> bool" where
  "HasCap ni cap = list_ex (\<lambda>c. c = cap) (ni_caps ni)"

definition EncodeNodeIdentity :: "NodeIdentity \<Rightarrow> bytes" where
  "EncodeNodeIdentity ni = writes
    ([wMapHeader 4, wText ''v'', wUInt (ucast (ni_version ni)), wText ''fp'', wBytes (ni_fingerprint ni),
      wText ''caps'', wArrayHeader (length (ni_caps ni))] @ map wText (ni_caps ni) @
     [wText ''node'', wText (ni_node ni)]) []"

text \<open>\<open>caps\<close> has no flag of its own: a second one is refused when the first was not empty.\<close>

record node_slots =
  ns_version :: "u32 option"
  ns_fingerprint :: "bytes option"
  ns_caps :: "string list"
  ns_node :: "string option"

definition read_caps :: "string list reading" where
  "read_caps = read_array kMaxCaps (checked (\<lambda>c. length c \<le> kMaxCapBytes) ReadText)"

definition node_field :: "string \<Rightarrow> node_slots \<Rightarrow> node_slots reading" where
  "node_field key s =
    (if key = ''v'' then once (ns_version s) (checked (\<lambda>v. v \<noteq> 0) ReadU32) (\<lambda>v. s\<lparr>ns_version := Some v\<rparr>)
     else if key = ''fp'' then once (ns_fingerprint s) (checked (\<lambda>b. length b = kFingerprintBytes) ReadBytes)
       (\<lambda>v. s\<lparr>ns_fingerprint := Some v\<rparr>)
     else if key = ''node'' then once (ns_node s) (checked (\<lambda>n. length n \<le> kMaxNodeNameBytes) ReadText)
       (\<lambda>v. s\<lparr>ns_node := Some v\<rparr>)
     else if key = ''caps'' then
       (if ns_caps s \<noteq> [] then rfail else rbind read_caps (\<lambda>v. rret (s\<lparr>ns_caps := v\<rparr>)))
     else ignore s)"

definition finish_node :: "node_slots \<Rightarrow> NodeIdentity option" where
  "finish_node s = (case (ns_version s, ns_fingerprint s, ns_node s) of
     (Some v, Some fp, Some n) \<Rightarrow>
       Some \<lparr>ni_version = v, ni_fingerprint = fp, ni_caps = ns_caps s, ni_node = n\<rparr>
   | _ \<Rightarrow> None)"

definition DecodeNodeIdentity :: "bytes \<Rightarrow> NodeIdentity option" where
  "DecodeNodeIdentity = decode_message (read_map node_field
     \<lparr>ns_version = None, ns_fingerprint = None, ns_caps = [], ns_node = None\<rparr> finish_node)"

definition MakeHello :: "NodeIdentity \<Rightarrow> u32 \<Rightarrow> Frame" where
  "MakeHello ni rid = mkFrame kHello rid (EncodeNodeIdentity ni)"

definition MakeWelcome :: "NodeIdentity \<Rightarrow> u32 \<Rightarrow> Frame" where
  "MakeWelcome ni rid = mkFrame kWelcome rid (EncodeNodeIdentity ni)"

definition cap_ok :: "string \<Rightarrow> bool" where
  "cap_ok c \<longleftrightarrow> length c \<le> kMaxCapBytes"

definition caps_ok :: "string list \<Rightarrow> bool" where
  "caps_ok cs \<longleftrightarrow> length cs \<le> kMaxCaps \<and> (\<forall>c \<in> set cs. cap_ok c)"

definition node_ok :: "NodeIdentity \<Rightarrow> bool" where
  "node_ok x \<longleftrightarrow> ni_version x \<noteq> 0 \<and> length (ni_fingerprint x) = kFingerprintBytes \<and>
     length (ni_node x) \<le> kMaxNodeNameBytes \<and> caps_ok (ni_caps x)"

interpretation cap_item: item_codec "checked (\<lambda>c. length c \<le> kMaxCapBytes) ReadText" text_bytes cap_ok
  by unfold_locales (auto simp: cap_ok_def kMaxCapBytes_def wire_simps)

definition caps_bytes :: "string list \<Rightarrow> bytes" where
  "caps_bytes cs = array_bytes (length cs) @ concat (map text_bytes cs)"

lemma read_caps_bytes [wire_simps]:
  "caps_ok cs \<Longrightarrow> length (caps_bytes cs) + length ys < 18446744073709551616 \<Longrightarrow>
   read_caps (rdr pre (caps_bytes cs @ ys)) = (Some cs, rdr (pre @ caps_bytes cs) ys)"
  using cap_item.read_array_back [of cs kMaxCaps ys pre]
  by (simp add: read_caps_def caps_bytes_def caps_ok_def)

lemma read_caps_SomeD [reads_inv]: "read_caps r = (Some v, r') \<Longrightarrow> caps_ok v"
  using read_array_all [of "checked (\<lambda>c. length c \<le> kMaxCapBytes) ReadText" cap_ok kMaxCaps r v r']
  by (auto simp: read_caps_def caps_ok_def cap_ok_def dest: checked_SomeD)

lemma read_caps_intros [safe_intros, definite_intros]: "safe read_caps" "definite read_caps"
  unfolding read_caps_def by (intro safe_intros definite_intros)+

interpretation node_msg: wire_message node_field
  "\<lparr>ns_version = None, ns_fingerprint = None, ns_caps = [], ns_node = None\<rparr>" finish_node
  "[''v'', ''fp'', ''caps'', ''node'']"
  "\<lambda>x. {''v'', ''fp'', ''node''} \<union> (if ni_caps x = [] then {} else {''caps''})" node_ok
  "\<lambda>k x. if k = ''v'' then uint_bytes (ucast (ni_version x)) else if k = ''fp'' then blob_bytes (ni_fingerprint x)
     else if k = ''caps'' then caps_bytes (ni_caps x) else text_bytes (ni_node x)"
  "\<lambda>K x. \<lparr>ns_version = (if ''v'' \<in> K then Some (ni_version x) else None),
     ns_fingerprint = (if ''fp'' \<in> K then Some (ni_fingerprint x) else None),
     ns_caps = (if ''caps'' \<in> K then ni_caps x else []),
     ns_node = (if ''node'' \<in> K then Some (ni_node x) else None)\<rparr>"
  by unfold_locales
    (auto simp: node_field_def finish_node_def node_ok_def kFingerprintBytes_def kMaxNodeNameBytes_def wire_simps
      split: if_splits option.splits)

interpretation node_bounds: message_bounds node_field
  "\<lparr>ns_version = None, ns_fingerprint = None, ns_caps = [], ns_node = None\<rparr>" finish_node
  "\<lambda>s. (\<forall>v. ns_version s = Some v \<longrightarrow> v \<noteq> 0) \<and>
     (\<forall>v. ns_fingerprint s = Some v \<longrightarrow> length v = kFingerprintBytes) \<and>
     (\<forall>v. ns_node s = Some v \<longrightarrow> length v \<le> kMaxNodeNameBytes) \<and> caps_ok (ns_caps s)" node_ok
  by unfold_locales
    (auto simp: node_field_def finish_node_def node_ok_def caps_ok_def rfail_def
      dest!: reads_inv intro!: safe_intros definite_intros split: if_splits option.splits)

lemma writes_append: "writes (fs @ gs) w = writes gs (writes fs w)"
  by (induction fs arbitrary: w) simp_all

lemma writes_texts: "writes (map wText cs) w = w @ concat (map text_bytes cs)"
  by (induction cs arbitrary: w) (simp_all add: wire_simps)

lemma EncodeNodeIdentity_canon: "EncodeNodeIdentity x = map_message (node_msg.canon x)"
  by (simp add: EncodeNodeIdentity_def node_msg.canon_def map_message_def wire_simps writes_append
    writes_texts caps_bytes_def eval_nat_numeral)

lemma length_caps: "\<forall>c \<in> set cs. cap_ok c \<Longrightarrow> length (concat (map text_bytes cs)) \<le> 41 * length cs"
proof (induction cs)
  case (Cons c cs)
  then show ?case using item_lengths(4) [of c] by (simp add: cap_ok_def kMaxCapBytes_def)
qed simp

lemma EncodeNodeIdentity_size: "node_ok x \<Longrightarrow> length (EncodeNodeIdentity x) \<le> 2000"
  using length_caps [of "ni_caps x"] item_lengths(7) [of 4] item_lengths(6) [of "length (ni_caps x)"]
    item_lengths(4) [of "ni_node x"] item_lengths(3) [of "ni_fingerprint x"] item_lengths(1) [of "ucast (ni_version x)"]
  by (simp add: EncodeNodeIdentity_def writes_append writes_texts wire_simps node_ok_def
    kFingerprintBytes_def kMaxNodeNameBytes_def caps_ok_def kMaxCaps_def)

lemma node_back: "node_ok x \<Longrightarrow> DecodeNodeIdentity (EncodeNodeIdentity x) = Some x"
  using node_msg.decode_canon [of x] EncodeNodeIdentity_size [of x]
  unfolding DecodeNodeIdentity_def EncodeNodeIdentity_canon by simp

lemma node_decoded: "DecodeNodeIdentity p = Some x \<Longrightarrow> node_ok x"
  unfolding DecodeNodeIdentity_def by (rule node_bounds.decode_ok)

end
