(* ===== verification/Listing.thy ===== *)
theory Listing
  imports Messages Frame
begin

text \<open>
  Attribute sets, file status and directory entries: \<open>src/src/traghetto/wire/Attributes.cpp\<close> and
  \<open>Listing.cpp\<close>. \<open>Read\<dots>\<close> and \<open>Write\<dots>\<close> compose inside a larger payload;
  \<open>Decode\<dots>\<close> and \<open>Encode\<dots>\<close> are whole payloads.
\<close>

section \<open>Attributes.cpp\<close>

definition kMaxAttrNameBytes :: nat where "kMaxAttrNameBytes = 255"
definition kMaxAttrs :: nat where "kMaxAttrs = 4096"

record Attr =
  at_name :: string
  at_type :: u32
  at_value :: bytes

type_synonym AttrSet = "Attr list"

definition WriteAttr :: "Attr \<Rightarrow> cbor_writer \<Rightarrow> cbor_writer" where
  "WriteAttr a = writes
     [wMapHeader 3, wText ''n'', wText (at_name a), wText ''t'', wUInt (ucast (at_type a)),
      wText ''v'', wBytes (at_value a)]"

definition WriteAttrSet :: "AttrSet \<Rightarrow> cbor_writer \<Rightarrow> cbor_writer" where
  "WriteAttrSet attrs w = writes (map WriteAttr attrs) (wArrayHeader (length attrs) w)"

definition attr_name_ok :: "string \<Rightarrow> bool" where
  "attr_name_ok n \<longleftrightarrow> n \<noteq> [] \<and> length n \<le> kMaxAttrNameBytes"

definition ReadAttrName :: "string reading" where
  "ReadAttrName = checked attr_name_ok ReadText"

lemma ReadAttrName_bytes [wire_simps]: "attr_name_ok p \<Longrightarrow>
  ReadAttrName (rdr pre (text_bytes p @ ys)) = (Some p, rdr (pre @ text_bytes p) ys)"
  by (simp add: ReadAttrName_def wire_simps attr_name_ok_def kMaxAttrNameBytes_def)

lemma ReadAttrName_SomeD [reads_inv]: "ReadAttrName r = (Some v, r') \<Longrightarrow> ReadText r = (Some v, r') \<and> attr_name_ok v"
  unfolding ReadAttrName_def by (rule checked_SomeD)

lemma ReadAttrName_intros [safe_intros, definite_intros]: "safe ReadAttrName" "definite ReadAttrName"
  unfolding ReadAttrName_def by (intro safe_intros definite_intros)+

lemma blob_short: "length (blob_bytes b) + n < 2 ^ 64 \<Longrightarrow> length b < 2 ^ 64"
  by (simp add: blob_bytes_def wBytes_def)

lemma ReadBytes_fits [wire_simps]:
  "length (blob_bytes b) + length ys < 18446744073709551616 \<Longrightarrow>
   ReadBytes (rdr pre (blob_bytes b @ ys)) = (Some b, rdr (pre @ blob_bytes b) ys)"
  using blob_short [of b "length ys"] by (simp add: ReadBytes_bytes)

record attr_slots =
  as_name :: "string option"
  as_type :: "u32 option"
  as_value :: "bytes option"

definition attr_field :: "string \<Rightarrow> attr_slots \<Rightarrow> attr_slots reading" where
  "attr_field key s =
    (if key = ''n'' then once (as_name s) ReadAttrName (\<lambda>v. s\<lparr>as_name := Some v\<rparr>)
     else if key = ''t'' then once (as_type s) ReadU32 (\<lambda>v. s\<lparr>as_type := Some v\<rparr>)
     else if key = ''v'' then once (as_value s) ReadBytes (\<lambda>v. s\<lparr>as_value := Some v\<rparr>)
     else ignore s)"

definition ReadAttr :: "Attr reading" where
  "ReadAttr = read_map attr_field \<lparr>as_name = None, as_type = None, as_value = None\<rparr>
     (\<lambda>s. case (as_name s, as_type s, as_value s) of
       (Some nm, Some ty, Some v) \<Rightarrow> Some \<lparr>at_name = nm, at_type = ty, at_value = v\<rparr> | _ \<Rightarrow> None)"

interpretation attr_msg: message_codec attr_field
  "\<lparr>as_name = None, as_type = None, as_value = None\<rparr>"
  "\<lambda>s. case (as_name s, as_type s, as_value s) of
       (Some nm, Some ty, Some v) \<Rightarrow> Some \<lparr>at_name = nm, at_type = ty, at_value = v\<rparr> | _ \<Rightarrow> None"
  "[''n'', ''t'', ''v'']" "\<lambda>_. {''n'', ''t'', ''v''}"
  "\<lambda>x. attr_name_ok (at_name x)"
  "\<lambda>k x. if k = ''n'' then text_bytes (at_name x) else if k = ''t'' then uint_bytes (ucast (at_type x)) else blob_bytes (at_value x)"
  "\<lambda>K x. \<lparr>as_name = (if ''n'' \<in> K then Some (at_name x) else None),
     as_type = (if ''t'' \<in> K then Some (at_type x) else None),
     as_value = (if ''v'' \<in> K then Some (at_value x) else None)\<rparr>"
  "{''n'', ''t'', ''v''}" "\<lambda>s. (\<forall>v. as_name s = Some v \<longrightarrow> attr_name_ok v)"
  by unfold_locales
    (auto simp: attr_field_def wire_simps dest!: reads_inv intro!: safe_intros definite_intros
      split: if_splits option.splits)

definition ReadAttrSet :: "AttrSet reading" where
  "ReadAttrSet = read_array kMaxAttrs ReadAttr"

definition attr_ok :: "Attr \<Rightarrow> bool" where
  "attr_ok a \<longleftrightarrow> attr_name_ok (at_name a)"

definition attrs_ok :: "AttrSet \<Rightarrow> bool" where
  "attrs_ok s \<longleftrightarrow> length s \<le> kMaxAttrs \<and> (\<forall>a \<in> set s. attr_ok a)"

definition attrs_bytes :: "AttrSet \<Rightarrow> bytes" where
  "attrs_bytes s = WriteAttrSet s []"

lemma WriteAttr_append: "WriteAttr a w = w @ map_message (attr_msg.canon a)"
  by (simp add: WriteAttr_def attr_msg.canon_def map_message_def wire_simps eval_nat_numeral)

lemma writes_items:
  assumes "\<And>a w. f a w = w @ g a"
  shows "writes (map f xs) w = w @ concat (map g xs)"
  using assms by (induction xs arbitrary: w) simp_all

lemma WriteAttrSet_append [wire_simps]: "WriteAttrSet s w = w @ attrs_bytes s"
  by (simp add: WriteAttrSet_def attrs_bytes_def writes_items [OF WriteAttr_append] wire_simps)

lemma attrs_bytes_items:
  "attrs_bytes s = array_bytes (length s) @ concat (map (\<lambda>a. map_message (attr_msg.canon a)) s)"
  by (simp add: WriteAttrSet_def attrs_bytes_def writes_items [OF WriteAttr_append] wire_simps)

lemma ReadAttrSet_bytes [wire_simps]:
  assumes "attrs_ok s" and "length (attrs_bytes s) + length ys < 18446744073709551616"
  shows "ReadAttrSet (rdr pre (attrs_bytes s @ ys)) = (Some s, rdr (pre @ attrs_bytes s) ys)"
  using assms attr_msg.as_item.read_array_back [of s kMaxAttrs ys pre]
  by (simp add: ReadAttrSet_def ReadAttr_def attrs_bytes_items attrs_ok_def attr_ok_def)

lemma ReadAttrSet_SomeD [reads_inv]: "ReadAttrSet r = (Some v, r') \<Longrightarrow> attrs_ok v"
  using read_array_all [of ReadAttr attr_ok kMaxAttrs r v r'] attr_msg.read_ok
  by (auto simp: ReadAttrSet_def attrs_ok_def ReadAttr_def attr_ok_def)

lemma ReadAttrSet_intros [safe_intros, definite_intros]: "safe ReadAttrSet" "definite ReadAttrSet"
  unfolding ReadAttrSet_def ReadAttr_def
  by (intro safe_array attr_msg.safe_read definite_array attr_msg.definite_read)+

section \<open>Listing.cpp\<close>

definition kMaxEntryNameBytes :: nat where "kMaxEntryNameBytes = 255"
definition kMaxEntriesPerReply :: nat where "kMaxEntriesPerReply = 65536"

record Stat =
  st_mode :: u32
  st_size :: u64
  st_mtime :: s64
  st_crtime :: s64
  st_inode :: u64

definition WriteStat :: "Stat \<Rightarrow> cbor_writer \<Rightarrow> cbor_writer" where
  "WriteStat s = writes
     [wMapHeader 5, wText ''m'', wUInt (ucast (st_mode s)), wText ''ct'', wInt (st_crtime s),
      wText ''mt'', wInt (st_mtime s), wText ''sz'', wUInt (st_size s), wText ''ino'', wUInt (st_inode s)]"

record stat_slots =
  ss_mode :: "u32 option"
  ss_size :: "u64 option"
  ss_mtime :: "s64 option"
  ss_crtime :: "s64 option"
  ss_inode :: "u64 option"

definition stat_field :: "string \<Rightarrow> stat_slots \<Rightarrow> stat_slots reading" where
  "stat_field key s =
    (if key = ''m'' then once (ss_mode s) ReadU32 (\<lambda>v. s\<lparr>ss_mode := Some v\<rparr>)
     else if key = ''sz'' then once (ss_size s) ReadUInt (\<lambda>v. s\<lparr>ss_size := Some v\<rparr>)
     else if key = ''mt'' then once (ss_mtime s) ReadInt (\<lambda>v. s\<lparr>ss_mtime := Some v\<rparr>)
     else if key = ''ct'' then once (ss_crtime s) ReadInt (\<lambda>v. s\<lparr>ss_crtime := Some v\<rparr>)
     else if key = ''ino'' then once (ss_inode s) ReadUInt (\<lambda>v. s\<lparr>ss_inode := Some v\<rparr>)
     else ignore s)"

definition ReadStat :: "Stat reading" where
  "ReadStat = read_map stat_field \<lparr>ss_mode = None, ss_size = None, ss_mtime = None, ss_crtime = None, ss_inode = None\<rparr>
     (\<lambda>s. case (ss_mode s, ss_size s, ss_mtime s, ss_crtime s, ss_inode s) of
       (Some m, Some sz, Some mt, Some ct, Some ino) \<Rightarrow> Some \<lparr>st_mode = m, st_size = sz, st_mtime = mt, st_crtime = ct, st_inode = ino\<rparr> | _ \<Rightarrow> None)"

interpretation stat_msg: message_codec stat_field
  "\<lparr>ss_mode = None, ss_size = None, ss_mtime = None, ss_crtime = None, ss_inode = None\<rparr>"
  "\<lambda>s. case (ss_mode s, ss_size s, ss_mtime s, ss_crtime s, ss_inode s) of
       (Some m, Some sz, Some mt, Some ct, Some ino) \<Rightarrow> Some \<lparr>st_mode = m, st_size = sz, st_mtime = mt, st_crtime = ct, st_inode = ino\<rparr> | _ \<Rightarrow> None"
  "[''m'', ''ct'', ''mt'', ''sz'', ''ino'']" "\<lambda>_. {''m'', ''ct'', ''mt'', ''sz'', ''ino''}"
  "\<lambda>x. True"
  "\<lambda>k x. if k = ''m'' then uint_bytes (ucast (st_mode x)) else if k = ''ct'' then int_bytes (st_crtime x) else if k = ''mt'' then int_bytes (st_mtime x) else if k = ''sz'' then uint_bytes (st_size x) else uint_bytes (st_inode x)"
  "\<lambda>K x. \<lparr>ss_mode = (if ''m'' \<in> K then Some (st_mode x) else None),
     ss_size = (if ''sz'' \<in> K then Some (st_size x) else None),
     ss_mtime = (if ''mt'' \<in> K then Some (st_mtime x) else None),
     ss_crtime = (if ''ct'' \<in> K then Some (st_crtime x) else None),
     ss_inode = (if ''ino'' \<in> K then Some (st_inode x) else None)\<rparr>"
  "{''m'', ''ct'', ''mt'', ''sz'', ''ino''}" "\<lambda>s. True"
  by unfold_locales
    (auto simp: stat_field_def wire_simps dest!: reads_inv intro!: safe_intros definite_intros
      split: if_splits option.splits)

definition stat_bytes :: "Stat \<Rightarrow> bytes" where
  "stat_bytes s = WriteStat s []"

lemma stat_bytes_canon: "stat_bytes s = map_message (stat_msg.canon s)"
  by (simp add: stat_bytes_def WriteStat_def stat_msg.canon_def map_message_def wire_simps eval_nat_numeral)

lemma WriteStat_append [wire_simps]: "WriteStat s w = w @ stat_bytes s"
  by (simp add: stat_bytes_def WriteStat_def wire_simps)

lemma ReadStat_bytes [wire_simps]:
  "length (stat_bytes s) + length ys < 18446744073709551616 \<Longrightarrow>
   ReadStat (rdr pre (stat_bytes s @ ys)) = (Some s, rdr (pre @ stat_bytes s) ys)"
  using stat_msg.read_canon [of s ys pre] by (simp add: stat_bytes_canon ReadStat_def)

lemma ReadStat_intros [safe_intros, definite_intros]: "safe ReadStat" "definite ReadStat"
  unfolding ReadStat_def by (intro stat_msg.safe_read stat_msg.definite_read)+

record Entry =
  en_name :: string
  en_stat :: Stat
  en_attrs :: AttrSet

definition WriteEntry :: "Entry \<Rightarrow> cbor_writer \<Rightarrow> cbor_writer" where
  "WriteEntry e = writes
     [wMapHeader 3, wText ''name'', wText (en_name e), wText ''stat'', WriteStat (en_stat e),
      wText ''attrs'', WriteAttrSet (en_attrs e)]"

definition entry_name_ok :: "string \<Rightarrow> bool" where
  "entry_name_ok n \<longleftrightarrow> n \<noteq> [] \<and> length n \<le> kMaxEntryNameBytes"

definition ReadEntryName :: "string reading" where
  "ReadEntryName = checked entry_name_ok ReadText"

lemma ReadEntryName_bytes [wire_simps]: "entry_name_ok p \<Longrightarrow>
  ReadEntryName (rdr pre (text_bytes p @ ys)) = (Some p, rdr (pre @ text_bytes p) ys)"
  by (simp add: ReadEntryName_def wire_simps entry_name_ok_def kMaxEntryNameBytes_def)

lemma ReadEntryName_SomeD [reads_inv]: "ReadEntryName r = (Some v, r') \<Longrightarrow> ReadText r = (Some v, r') \<and> entry_name_ok v"
  unfolding ReadEntryName_def by (rule checked_SomeD)

lemma ReadEntryName_intros [safe_intros, definite_intros]: "safe ReadEntryName" "definite ReadEntryName"
  unfolding ReadEntryName_def by (intro safe_intros definite_intros)+

record entry_slots =
  es_name :: "string option"
  es_stat :: "Stat option"
  es_attrs :: "AttrSet option"

definition entry_field :: "string \<Rightarrow> entry_slots \<Rightarrow> entry_slots reading" where
  "entry_field key s =
    (if key = ''name'' then once (es_name s) ReadEntryName (\<lambda>v. s\<lparr>es_name := Some v\<rparr>)
     else if key = ''stat'' then once (es_stat s) ReadStat (\<lambda>v. s\<lparr>es_stat := Some v\<rparr>)
     else if key = ''attrs'' then once (es_attrs s) ReadAttrSet (\<lambda>v. s\<lparr>es_attrs := Some v\<rparr>)
     else ignore s)"

definition ReadEntry :: "Entry reading" where
  "ReadEntry = read_map entry_field \<lparr>es_name = None, es_stat = None, es_attrs = None\<rparr>
     (\<lambda>s. case (es_name s, es_stat s, es_attrs s) of
       (Some nm, Some st, Some at) \<Rightarrow> Some \<lparr>en_name = nm, en_stat = st, en_attrs = at\<rparr> | _ \<Rightarrow> None)"

interpretation entry_msg: message_codec entry_field
  "\<lparr>es_name = None, es_stat = None, es_attrs = None\<rparr>"
  "\<lambda>s. case (es_name s, es_stat s, es_attrs s) of
       (Some nm, Some st, Some at) \<Rightarrow> Some \<lparr>en_name = nm, en_stat = st, en_attrs = at\<rparr> | _ \<Rightarrow> None"
  "[''name'', ''stat'', ''attrs'']" "\<lambda>_. {''name'', ''stat'', ''attrs''}"
  "\<lambda>x. entry_name_ok (en_name x) \<and> attrs_ok (en_attrs x)"
  "\<lambda>k x. if k = ''name'' then text_bytes (en_name x) else if k = ''stat'' then stat_bytes (en_stat x) else attrs_bytes (en_attrs x)"
  "\<lambda>K x. \<lparr>es_name = (if ''name'' \<in> K then Some (en_name x) else None),
     es_stat = (if ''stat'' \<in> K then Some (en_stat x) else None),
     es_attrs = (if ''attrs'' \<in> K then Some (en_attrs x) else None)\<rparr>"
  "{''name'', ''stat'', ''attrs''}" "\<lambda>s. (\<forall>v. es_name s = Some v \<longrightarrow> entry_name_ok v) \<and> (\<forall>v. es_attrs s = Some v \<longrightarrow> attrs_ok v)"
  by unfold_locales
    (auto simp: entry_field_def wire_simps dest!: reads_inv intro!: safe_intros definite_intros
      split: if_splits option.splits)

definition entry_ok :: "Entry \<Rightarrow> bool" where
  "entry_ok e \<longleftrightarrow> entry_name_ok (en_name e) \<and> attrs_ok (en_attrs e)"

definition entry_bytes :: "Entry \<Rightarrow> bytes" where
  "entry_bytes e = WriteEntry e []"

lemma entry_bytes_canon: "entry_bytes e = map_message (entry_msg.canon e)"
  by (simp add: entry_bytes_def WriteEntry_def entry_msg.canon_def map_message_def wire_simps eval_nat_numeral)

lemma WriteEntry_append [wire_simps]: "WriteEntry e w = w @ entry_bytes e"
  by (simp add: entry_bytes_def WriteEntry_def wire_simps)

lemma ReadEntry_bytes [wire_simps]:
  "entry_ok e \<Longrightarrow> length (entry_bytes e) + length ys < 18446744073709551616 \<Longrightarrow>
   ReadEntry (rdr pre (entry_bytes e @ ys)) = (Some e, rdr (pre @ entry_bytes e) ys)"
  using entry_msg.read_canon [of e ys pre] by (simp add: entry_bytes_canon ReadEntry_def entry_ok_def)

lemma ReadEntry_SomeD [reads_inv]: "ReadEntry r = (Some v, r') \<Longrightarrow> entry_ok v"
  using entry_msg.read_ok by (auto simp: ReadEntry_def entry_ok_def)

lemma ReadEntry_intros [safe_intros, definite_intros]: "safe ReadEntry" "definite ReadEntry"
  unfolding ReadEntry_def by (intro entry_msg.safe_read entry_msg.definite_read)+

text \<open>An array of entries: the \<open>entries\<close> field of LIST and QUERY\_RESULT.\<close>

definition WriteEntries :: "Entry list \<Rightarrow> cbor_writer \<Rightarrow> cbor_writer" where
  "WriteEntries es w = writes (map WriteEntry es) (wArrayHeader (length es) w)"

definition ReadEntries :: "Entry list reading" where
  "ReadEntries = read_array kMaxEntriesPerReply ReadEntry"

definition entries_ok :: "Entry list \<Rightarrow> bool" where
  "entries_ok es \<longleftrightarrow> length es \<le> kMaxEntriesPerReply \<and> (\<forall>e \<in> set es. entry_ok e)"

definition entries_bytes :: "Entry list \<Rightarrow> bytes" where
  "entries_bytes es = WriteEntries es []"

lemma WriteEntries_append [wire_simps]: "WriteEntries es w = w @ entries_bytes es"
  by (simp add: WriteEntries_def entries_bytes_def writes_items [OF WriteEntry_append] wire_simps)

lemma entries_bytes_items: "entries_bytes es = array_bytes (length es) @ concat (map entry_bytes es)"
  by (simp add: WriteEntries_def entries_bytes_def writes_items [OF WriteEntry_append] wire_simps)

lemma ReadEntries_bytes [wire_simps]:
  assumes "entries_ok es" and "length (entries_bytes es) + length ys < 18446744073709551616"
  shows "ReadEntries (rdr pre (entries_bytes es @ ys)) = (Some es, rdr (pre @ entries_bytes es) ys)"
proof -
  have "entry_bytes = (\<lambda>e. map_message (entry_msg.canon e))"
    by (simp add: fun_eq_iff entry_bytes_canon)
  then show ?thesis
    using assms entry_msg.as_item.read_array_back [of es kMaxEntriesPerReply ys pre]
    by (simp add: ReadEntries_def ReadEntry_def entries_bytes_items entries_ok_def entry_ok_def)
qed

lemma ReadEntries_SomeD [reads_inv]: "ReadEntries r = (Some v, r') \<Longrightarrow> entries_ok v"
  using read_array_all [of ReadEntry entry_ok kMaxEntriesPerReply r v r'] ReadEntry_SomeD
  by (auto simp: ReadEntries_def entries_ok_def)

lemma ReadEntries_intros [safe_intros, definite_intros]: "safe ReadEntries" "definite ReadEntries"
  unfolding ReadEntries_def by (intro safe_array ReadEntry_intros definite_array)+

subsection \<open>STAT and LIST payloads\<close>

record path_request =
  pr_path :: "string option"

definition EncodePathRequest :: "string \<Rightarrow> bytes" where
  "EncodePathRequest path = writes
     [wMapHeader 1, wText ''path'', wText path] []"

definition path_request_field :: "string \<Rightarrow> path_request \<Rightarrow> path_request reading" where
  "path_request_field key s =
    (if key = ''path'' then once (pr_path s) ReadPath (\<lambda>v. s\<lparr>pr_path := Some v\<rparr>)
     else ignore s)"

definition DecodePathRequest :: "bytes \<Rightarrow> string option" where
  "DecodePathRequest = decode_message (read_map path_request_field
     \<lparr>pr_path = None\<rparr>
     (\<lambda>s. pr_path s))"

interpretation path_request_msg: message_codec path_request_field
  "\<lparr>pr_path = None\<rparr>"
  "\<lambda>s. pr_path s"
  "[''path'']" "\<lambda>_. {''path''}"
  "\<lambda>path. path_ok path"
  "\<lambda>k path. text_bytes path"
  "\<lambda>K path. \<lparr>pr_path = (if ''path'' \<in> K then Some path else None)\<rparr>"
  "{''path''}" "\<lambda>s. (\<forall>v. pr_path s = Some v \<longrightarrow> path_ok v)"
  by unfold_locales
    (auto simp: path_request_field_def wire_simps dest!: reads_inv intro!: safe_intros definite_intros
      split: if_splits option.splits)

lemma EncodePathRequest_canon: "EncodePathRequest path = map_message (path_request_msg.canon path)"
  by (simp add: EncodePathRequest_def path_request_msg.canon_def map_message_def wire_simps eval_nat_numeral)

lemma EncodePathRequest_size: "path_ok path \<Longrightarrow> length (EncodePathRequest path) < 2 ^ 64"
  using item_lengths(7) [of 1]
    item_lengths(4) [of "path"]
  by (simp add: EncodePathRequest_def wire_simps path_ok_def kMaxPathBytes_def)

lemma path_request_msg_back: "path_ok path \<Longrightarrow> DecodePathRequest (EncodePathRequest path) = Some path"
  using path_request_msg.decode_canon [of "path"] EncodePathRequest_size [of path]
  unfolding EncodePathRequest_canon DecodePathRequest_def by simp

lemmas path_request_msg_ok = path_request_msg.decode_ok [folded DecodePathRequest_def, simplified]

definition EncodeStatReply :: "Entry \<Rightarrow> bytes" where
  "EncodeStatReply entry = WriteEntry entry []"

definition DecodeStatReply :: "bytes \<Rightarrow> Entry option" where
  "DecodeStatReply = decode_message ReadEntry"

lemma stat_reply_back: "entry_ok e \<Longrightarrow> length (EncodeStatReply e) < 2 ^ 64 \<Longrightarrow>
    DecodeStatReply (EncodeStatReply e) = Some e"
  using entry_msg.decode_canon [of e]
  by (simp add: EncodeStatReply_def DecodeStatReply_def ReadEntry_def entry_ok_def
    entry_bytes_def [symmetric] entry_bytes_canon)

lemma stat_reply_ok: "DecodeStatReply p = Some e \<Longrightarrow> entry_ok e"
  using entry_msg.decode_ok [of p e] by (simp add: DecodeStatReply_def ReadEntry_def entry_ok_def)

record listing_slots =
  ls_entries :: "(Entry list) option"

definition EncodeListing :: "(Entry list) \<Rightarrow> bytes" where
  "EncodeListing es = writes
     [wMapHeader 1, wText ''entries'', WriteEntries es] []"

definition listing_field :: "string \<Rightarrow> listing_slots \<Rightarrow> listing_slots reading" where
  "listing_field key s =
    (if key = ''entries'' then once (ls_entries s) ReadEntries (\<lambda>v. s\<lparr>ls_entries := Some v\<rparr>)
     else ignore s)"

definition DecodeListing :: "bytes \<Rightarrow> (Entry list) option" where
  "DecodeListing = decode_message (read_map listing_field
     \<lparr>ls_entries = None\<rparr>
     (\<lambda>s. ls_entries s))"

interpretation listing_msg: message_codec listing_field
  "\<lparr>ls_entries = None\<rparr>"
  "\<lambda>s. ls_entries s"
  "[''entries'']" "\<lambda>_. {''entries''}"
  "\<lambda>es. entries_ok es"
  "\<lambda>k es. entries_bytes es"
  "\<lambda>K es. \<lparr>ls_entries = (if ''entries'' \<in> K then Some es else None)\<rparr>"
  "{''entries''}" "\<lambda>s. (\<forall>v. ls_entries s = Some v \<longrightarrow> entries_ok v)"
  by unfold_locales
    (auto simp: listing_field_def wire_simps dest!: reads_inv intro!: safe_intros definite_intros
      split: if_splits option.splits)

lemma EncodeListing_canon: "EncodeListing es = map_message (listing_msg.canon es)"
  by (simp add: EncodeListing_def listing_msg.canon_def map_message_def wire_simps eval_nat_numeral)

lemma listing_msg_back: "entries_ok es \<Longrightarrow> length (EncodeListing es) < 2 ^ 64 \<Longrightarrow>
    DecodeListing (EncodeListing es) = Some es"
  using listing_msg.decode_canon [of "es"]
  unfolding EncodeListing_canon DecodeListing_def by simp

lemmas listing_msg_ok = listing_msg.decode_ok [folded DecodeListing_def, simplified]

definition MakeStatRequest :: "string \<Rightarrow> u32 \<Rightarrow> Frame" where
  "MakeStatRequest path rid = mkFrame kStat rid (EncodePathRequest path)"

definition MakeStatReply :: "Entry \<Rightarrow> u32 \<Rightarrow> Frame" where
  "MakeStatReply entry rid = mkFrame kStat rid (EncodeStatReply entry)"

definition MakeListRequest :: "string \<Rightarrow> u32 \<Rightarrow> Frame" where
  "MakeListRequest path rid = mkFrame kList rid (EncodePathRequest path)"

definition MakeListReply :: "Entry list \<Rightarrow> u32 \<Rightarrow> Frame" where
  "MakeListReply entries rid = mkFrame kList rid (EncodeListing entries)"

end
