(* ===== verification/FileOps.thy ===== *)
theory FileOps
  imports Listing
begin

text \<open>
  The payloads of OPEN, READ, WRITE, CLOSE and of the Ok reply: \<open>src/src/traghetto/wire/FileOps.cpp\<close>.
\<close>

definition kOpenRead :: u32 where "kOpenRead = 0x1"
definition kOpenWrite :: u32 where "kOpenWrite = 0x2"
definition kMaxReadLength :: nat where "kMaxReadLength = 1024 * 1024"
definition kMaxWriteLength :: nat where "kMaxWriteLength = 1024 * 1024"

definition read_length_ok :: "u32 \<Rightarrow> bool" where
  "read_length_ok n \<longleftrightarrow> unat n \<le> kMaxReadLength"

definition ReadLength :: "u32 reading" where
  "ReadLength = rbind ReadUInt (\<lambda>v. if unat v > kMaxReadLength then rfail else rret (ucast v))"

definition read_data_ok :: "bytes \<Rightarrow> bool" where
  "read_data_ok d \<longleftrightarrow> length d \<le> kMaxReadLength"

definition write_data_ok :: "bytes \<Rightarrow> bool" where
  "write_data_ok d \<longleftrightarrow> length d \<le> kMaxWriteLength"

definition ReadReadData :: "bytes reading" where
  "ReadReadData = checked read_data_ok ReadBytes"

definition ReadWriteData :: "bytes reading" where
  "ReadWriteData = checked write_data_ok ReadBytes"

lemma ReadLength_bytes [wire_simps]: "read_length_ok v \<Longrightarrow>
  ReadLength (rdr pre (uint_bytes (ucast v) @ ys)) = (Some v, rdr (pre @ uint_bytes (ucast v)) ys)"
proof -
  assume "read_length_ok v"
  moreover have "unat (ucast v :: u64) = unat v" 
  proof -
    have "unat v < 2 ^ 32" using unsigned_less [of v] by simp
    then show ?thesis by (simp add: unat_ucast_small)
  qed
  moreover have "(ucast (ucast v :: u64) :: u32) = v" by (rule bit_word_eqI) (auto simp: bit_simps)
  ultimately show ?thesis by (simp add: ReadLength_def rbind_Some ReadUInt_bytes rret_def read_length_ok_def)
qed

lemma ReadLength_SomeD [reads_inv]: "ReadLength r = (Some v, r') \<Longrightarrow> read_length_ok v"
proof -
  have u: "unat (ucast a :: u32) \<le> kMaxReadLength" if "unat (a :: u64) \<le> kMaxReadLength" for a
    using that unat_ucast_small [of a, where ?'b = 32] by (simp add: kMaxReadLength_def)
  assume "ReadLength r = (Some v, r')"
  then show ?thesis
    by (auto simp: ReadLength_def rbind_Some_iff rret_def rfail_def read_length_ok_def u split: if_splits)
qed

lemma ReadData_bytes [wire_simps]:
  "read_data_ok d \<Longrightarrow> ReadReadData (rdr pre (blob_bytes d @ ys)) = (Some d, rdr (pre @ blob_bytes d) ys)"
  "write_data_ok d \<Longrightarrow> ReadWriteData (rdr pre (blob_bytes d @ ys)) = (Some d, rdr (pre @ blob_bytes d) ys)"
  by (simp_all add: ReadReadData_def ReadWriteData_def wire_simps read_data_ok_def write_data_ok_def
    kMaxReadLength_def kMaxWriteLength_def)

lemma ReadData_SomeD [reads_inv]:
  "ReadReadData r = (Some v, r') \<Longrightarrow> read_data_ok v"
  "ReadWriteData r = (Some v, r') \<Longrightarrow> write_data_ok v"
  by (auto simp: ReadReadData_def ReadWriteData_def dest: checked_SomeD)

lemma FileOps_intros [safe_intros, definite_intros]:
  "safe ReadLength" "definite ReadLength" "safe ReadReadData" "definite ReadReadData"
  "safe ReadWriteData" "definite ReadWriteData"
  unfolding ReadLength_def ReadReadData_def ReadWriteData_def by (intro safe_intros definite_intros)+

lemmas payload_bounds = path_ok_def kMaxPathBytes_def read_length_ok_def read_data_ok_def write_data_ok_def
  kMaxReadLength_def kMaxWriteLength_def

section \<open>OPEN\<close>

record open_request =
  or_mode :: "u32 option"
  or_path :: "string option"

definition EncodeOpenRequest :: "string \<Rightarrow> u32 \<Rightarrow> bytes" where
  "EncodeOpenRequest path mode = writes
     [wMapHeader 2, wText ''mode'', wUInt (ucast mode), wText ''path'', wText path] []"

definition open_request_field :: "string \<Rightarrow> open_request \<Rightarrow> open_request reading" where
  "open_request_field key s =
    (if key = ''mode'' then once (or_mode s) ReadU32 (\<lambda>v. s\<lparr>or_mode := Some v\<rparr>)
     else if key = ''path'' then once (or_path s) ReadPath (\<lambda>v. s\<lparr>or_path := Some v\<rparr>)
     else ignore s)"

definition DecodeOpenRequest :: "bytes \<Rightarrow> (string \<times> u32) option" where
  "DecodeOpenRequest = decode_message (read_map open_request_field
     \<lparr>or_mode = None, or_path = None\<rparr>
     (\<lambda>s. case (or_path s, or_mode s) of
       (Some path, Some mode) \<Rightarrow> Some (path, mode) | _ \<Rightarrow> None))"

interpretation open_request_msg: message_codec open_request_field
  "\<lparr>or_mode = None, or_path = None\<rparr>"
  "\<lambda>s. case (or_path s, or_mode s) of
       (Some path, Some mode) \<Rightarrow> Some (path, mode) | _ \<Rightarrow> None"
  "[''mode'', ''path'']" "\<lambda>_. {''mode'', ''path''}"
  "\<lambda>(path, mode). path_ok path"
  "\<lambda>k (path, mode). if k = ''mode'' then uint_bytes (ucast mode) else text_bytes path"
  "\<lambda>K (path, mode). \<lparr>or_mode = (if ''mode'' \<in> K then Some mode else None),
     or_path = (if ''path'' \<in> K then Some path else None)\<rparr>"
  "{''mode'', ''path''}" "\<lambda>s. (\<forall>v. or_path s = Some v \<longrightarrow> path_ok v)"
  by unfold_locales
    (auto simp: open_request_field_def wire_simps dest!: reads_inv intro!: safe_intros definite_intros
      split: if_splits option.splits)

lemma EncodeOpenRequest_canon: "EncodeOpenRequest path mode = map_message (open_request_msg.canon (path, mode))"
  by (simp add: EncodeOpenRequest_def open_request_msg.canon_def map_message_def wire_simps eval_nat_numeral)

lemma EncodeOpenRequest_size: "path_ok path \<Longrightarrow> length (EncodeOpenRequest path mode) < 2 ^ 64"
  using item_lengths(7) [of 2]
    item_lengths(1) [of "ucast mode"]
    item_lengths(4) [of "path"]
  by (simp add: EncodeOpenRequest_def wire_simps payload_bounds)

lemma open_request_msg_back: "path_ok path \<Longrightarrow> DecodeOpenRequest (EncodeOpenRequest path mode) = Some (path, mode)"
  using open_request_msg.decode_canon [of "(path, mode)"] EncodeOpenRequest_size [where path = path and mode = mode]
  unfolding EncodeOpenRequest_canon DecodeOpenRequest_def by simp

lemmas open_request_msg_ok = open_request_msg.decode_ok [folded DecodeOpenRequest_def, simplified]

record open_reply =
  op_handle :: "u64 option"
  op_size :: "u64 option"

definition EncodeOpenReply :: "u64 \<Rightarrow> u64 \<Rightarrow> bytes" where
  "EncodeOpenReply handle sz = writes
     [wMapHeader 2, wText ''size'', wUInt sz, wText ''handle'', wUInt handle] []"

definition open_reply_field :: "string \<Rightarrow> open_reply \<Rightarrow> open_reply reading" where
  "open_reply_field key s =
    (if key = ''handle'' then once (op_handle s) ReadUInt (\<lambda>v. s\<lparr>op_handle := Some v\<rparr>)
     else if key = ''size'' then once (op_size s) ReadUInt (\<lambda>v. s\<lparr>op_size := Some v\<rparr>)
     else ignore s)"

definition DecodeOpenReply :: "bytes \<Rightarrow> (u64 \<times> u64) option" where
  "DecodeOpenReply = decode_message (read_map open_reply_field
     \<lparr>op_handle = None, op_size = None\<rparr>
     (\<lambda>s. case (op_handle s, op_size s) of
       (Some handle, Some sz) \<Rightarrow> Some (handle, sz) | _ \<Rightarrow> None))"

interpretation open_reply_msg: message_codec open_reply_field
  "\<lparr>op_handle = None, op_size = None\<rparr>"
  "\<lambda>s. case (op_handle s, op_size s) of
       (Some handle, Some sz) \<Rightarrow> Some (handle, sz) | _ \<Rightarrow> None"
  "[''size'', ''handle'']" "\<lambda>_. {''size'', ''handle''}"
  "\<lambda>(handle, sz). True"
  "\<lambda>k (handle, sz). if k = ''size'' then uint_bytes sz else uint_bytes handle"
  "\<lambda>K (handle, sz). \<lparr>op_handle = (if ''handle'' \<in> K then Some handle else None),
     op_size = (if ''size'' \<in> K then Some sz else None)\<rparr>"
  "{''size'', ''handle''}" "\<lambda>s. True"
  by unfold_locales
    (auto simp: open_reply_field_def wire_simps dest!: reads_inv intro!: safe_intros definite_intros
      split: if_splits option.splits)

lemma EncodeOpenReply_canon: "EncodeOpenReply handle sz = map_message (open_reply_msg.canon (handle, sz))"
  by (simp add: EncodeOpenReply_def open_reply_msg.canon_def map_message_def wire_simps eval_nat_numeral)

lemma EncodeOpenReply_size: "length (EncodeOpenReply handle sz) < 2 ^ 64"
  using item_lengths(7) [of 2]
    item_lengths(1) [of "handle"]
    item_lengths(1) [of "sz"]
  by (simp add: EncodeOpenReply_def wire_simps payload_bounds)

lemma open_reply_msg_back: "DecodeOpenReply (EncodeOpenReply handle sz) = Some (handle, sz)"
  using open_reply_msg.decode_canon [of "(handle, sz)"] EncodeOpenReply_size [where handle = handle and sz = sz]
  unfolding EncodeOpenReply_canon DecodeOpenReply_def by simp

section \<open>READ\<close>

record read_request =
  rq_handle :: "u64 option"
  rq_offset :: "u64 option"
  rq_length :: "u32 option"

definition EncodeReadRequest :: "u64 \<Rightarrow> u64 \<Rightarrow> u32 \<Rightarrow> bytes" where
  "EncodeReadRequest handle off len = writes
     [wMapHeader 3, wText ''handle'', wUInt handle, wText ''length'', wUInt (ucast len), wText ''offset'', wUInt off] []"

definition read_request_field :: "string \<Rightarrow> read_request \<Rightarrow> read_request reading" where
  "read_request_field key s =
    (if key = ''handle'' then once (rq_handle s) ReadUInt (\<lambda>v. s\<lparr>rq_handle := Some v\<rparr>)
     else if key = ''offset'' then once (rq_offset s) ReadUInt (\<lambda>v. s\<lparr>rq_offset := Some v\<rparr>)
     else if key = ''length'' then once (rq_length s) ReadLength (\<lambda>v. s\<lparr>rq_length := Some v\<rparr>)
     else ignore s)"

definition DecodeReadRequest :: "bytes \<Rightarrow> (u64 \<times> u64 \<times> u32) option" where
  "DecodeReadRequest = decode_message (read_map read_request_field
     \<lparr>rq_handle = None, rq_offset = None, rq_length = None\<rparr>
     (\<lambda>s. case (rq_handle s, rq_offset s, rq_length s) of
       (Some handle, Some off, Some len) \<Rightarrow> Some (handle, off, len) | _ \<Rightarrow> None))"

interpretation read_request_msg: message_codec read_request_field
  "\<lparr>rq_handle = None, rq_offset = None, rq_length = None\<rparr>"
  "\<lambda>s. case (rq_handle s, rq_offset s, rq_length s) of
       (Some handle, Some off, Some len) \<Rightarrow> Some (handle, off, len) | _ \<Rightarrow> None"
  "[''handle'', ''length'', ''offset'']" "\<lambda>_. {''handle'', ''length'', ''offset''}"
  "\<lambda>(handle, off, len). read_length_ok len"
  "\<lambda>k (handle, off, len). if k = ''handle'' then uint_bytes handle else if k = ''length'' then uint_bytes (ucast len) else uint_bytes off"
  "\<lambda>K (handle, off, len). \<lparr>rq_handle = (if ''handle'' \<in> K then Some handle else None),
     rq_offset = (if ''offset'' \<in> K then Some off else None),
     rq_length = (if ''length'' \<in> K then Some len else None)\<rparr>"
  "{''handle'', ''length'', ''offset''}" "\<lambda>s. (\<forall>v. rq_length s = Some v \<longrightarrow> read_length_ok v)"
  by unfold_locales
    (auto simp: read_request_field_def wire_simps dest!: reads_inv intro!: safe_intros definite_intros
      split: if_splits option.splits)

lemma EncodeReadRequest_canon: "EncodeReadRequest handle off len = map_message (read_request_msg.canon (handle, off, len))"
  by (simp add: EncodeReadRequest_def read_request_msg.canon_def map_message_def wire_simps eval_nat_numeral)

lemma EncodeReadRequest_size: "read_length_ok len \<Longrightarrow> length (EncodeReadRequest handle off len) < 2 ^ 64"
  using item_lengths(7) [of 3]
    item_lengths(1) [of "handle"]
    item_lengths(1) [of "off"]
    item_lengths(1) [of "ucast len"]
  by (simp add: EncodeReadRequest_def wire_simps payload_bounds)

lemma read_request_msg_back: "read_length_ok len \<Longrightarrow> DecodeReadRequest (EncodeReadRequest handle off len) = Some (handle, off, len)"
  using read_request_msg.decode_canon [of "(handle, off, len)"] EncodeReadRequest_size [where handle = handle and off = off and len = len]
  unfolding EncodeReadRequest_canon DecodeReadRequest_def by simp

lemmas read_request_msg_ok = read_request_msg.decode_ok [folded DecodeReadRequest_def, simplified]

record read_reply =
  rp_data :: "bytes option"

definition EncodeReadReply :: "bytes \<Rightarrow> bytes" where
  "EncodeReadReply dat = writes
     [wMapHeader 1, wText ''data'', wBytes dat] []"

definition read_reply_field :: "string \<Rightarrow> read_reply \<Rightarrow> read_reply reading" where
  "read_reply_field key s =
    (if key = ''data'' then once (rp_data s) ReadReadData (\<lambda>v. s\<lparr>rp_data := Some v\<rparr>)
     else ignore s)"

definition DecodeReadReply :: "bytes \<Rightarrow> bytes option" where
  "DecodeReadReply = decode_message (read_map read_reply_field
     \<lparr>rp_data = None\<rparr>
     (\<lambda>s. rp_data s))"

interpretation read_reply_msg: message_codec read_reply_field
  "\<lparr>rp_data = None\<rparr>"
  "\<lambda>s. rp_data s"
  "[''data'']" "\<lambda>_. {''data''}"
  "\<lambda>dat. read_data_ok dat"
  "\<lambda>k dat. blob_bytes dat"
  "\<lambda>K dat. \<lparr>rp_data = (if ''data'' \<in> K then Some dat else None)\<rparr>"
  "{''data''}" "\<lambda>s. (\<forall>v. rp_data s = Some v \<longrightarrow> read_data_ok v)"
  by unfold_locales
    (auto simp: read_reply_field_def wire_simps dest!: reads_inv intro!: safe_intros definite_intros
      split: if_splits option.splits)

lemma EncodeReadReply_canon: "EncodeReadReply dat = map_message (read_reply_msg.canon dat)"
  by (simp add: EncodeReadReply_def read_reply_msg.canon_def map_message_def wire_simps eval_nat_numeral)

lemma EncodeReadReply_size: "read_data_ok dat \<Longrightarrow> length (EncodeReadReply dat) < 2 ^ 64"
  using item_lengths(7) [of 1]
    item_lengths(3) [of "dat"]
  by (simp add: EncodeReadReply_def wire_simps payload_bounds)

lemma read_reply_msg_back: "read_data_ok dat \<Longrightarrow> DecodeReadReply (EncodeReadReply dat) = Some dat"
  using read_reply_msg.decode_canon [of "dat"] EncodeReadReply_size [where dat = dat]
  unfolding EncodeReadReply_canon DecodeReadReply_def by simp

lemmas read_reply_msg_ok = read_reply_msg.decode_ok [folded DecodeReadReply_def, simplified]

section \<open>WRITE\<close>

record write_request =
  wq_handle :: "u64 option"
  wq_offset :: "u64 option"
  wq_data :: "bytes option"

definition EncodeWriteRequest :: "u64 \<Rightarrow> u64 \<Rightarrow> bytes \<Rightarrow> bytes" where
  "EncodeWriteRequest handle off dat = writes
     [wMapHeader 3, wText ''data'', wBytes dat, wText ''handle'', wUInt handle, wText ''offset'', wUInt off] []"

definition write_request_field :: "string \<Rightarrow> write_request \<Rightarrow> write_request reading" where
  "write_request_field key s =
    (if key = ''handle'' then once (wq_handle s) ReadUInt (\<lambda>v. s\<lparr>wq_handle := Some v\<rparr>)
     else if key = ''offset'' then once (wq_offset s) ReadUInt (\<lambda>v. s\<lparr>wq_offset := Some v\<rparr>)
     else if key = ''data'' then once (wq_data s) ReadWriteData (\<lambda>v. s\<lparr>wq_data := Some v\<rparr>)
     else ignore s)"

definition DecodeWriteRequest :: "bytes \<Rightarrow> (u64 \<times> u64 \<times> bytes) option" where
  "DecodeWriteRequest = decode_message (read_map write_request_field
     \<lparr>wq_handle = None, wq_offset = None, wq_data = None\<rparr>
     (\<lambda>s. case (wq_handle s, wq_offset s, wq_data s) of
       (Some handle, Some off, Some dat) \<Rightarrow> Some (handle, off, dat) | _ \<Rightarrow> None))"

interpretation write_request_msg: message_codec write_request_field
  "\<lparr>wq_handle = None, wq_offset = None, wq_data = None\<rparr>"
  "\<lambda>s. case (wq_handle s, wq_offset s, wq_data s) of
       (Some handle, Some off, Some dat) \<Rightarrow> Some (handle, off, dat) | _ \<Rightarrow> None"
  "[''data'', ''handle'', ''offset'']" "\<lambda>_. {''data'', ''handle'', ''offset''}"
  "\<lambda>(handle, off, dat). write_data_ok dat"
  "\<lambda>k (handle, off, dat). if k = ''data'' then blob_bytes dat else if k = ''handle'' then uint_bytes handle else uint_bytes off"
  "\<lambda>K (handle, off, dat). \<lparr>wq_handle = (if ''handle'' \<in> K then Some handle else None),
     wq_offset = (if ''offset'' \<in> K then Some off else None),
     wq_data = (if ''data'' \<in> K then Some dat else None)\<rparr>"
  "{''data'', ''handle'', ''offset''}" "\<lambda>s. (\<forall>v. wq_data s = Some v \<longrightarrow> write_data_ok v)"
  by unfold_locales
    (auto simp: write_request_field_def wire_simps dest!: reads_inv intro!: safe_intros definite_intros
      split: if_splits option.splits)

lemma EncodeWriteRequest_canon: "EncodeWriteRequest handle off dat = map_message (write_request_msg.canon (handle, off, dat))"
  by (simp add: EncodeWriteRequest_def write_request_msg.canon_def map_message_def wire_simps eval_nat_numeral)

lemma EncodeWriteRequest_size: "write_data_ok dat \<Longrightarrow> length (EncodeWriteRequest handle off dat) < 2 ^ 64"
  using item_lengths(7) [of 3]
    item_lengths(1) [of "handle"]
    item_lengths(1) [of "off"]
    item_lengths(3) [of "dat"]
  by (simp add: EncodeWriteRequest_def wire_simps payload_bounds)

lemma write_request_msg_back: "write_data_ok dat \<Longrightarrow> DecodeWriteRequest (EncodeWriteRequest handle off dat) = Some (handle, off, dat)"
  using write_request_msg.decode_canon [of "(handle, off, dat)"] EncodeWriteRequest_size [where handle = handle and off = off and dat = dat]
  unfolding EncodeWriteRequest_canon DecodeWriteRequest_def by simp

lemmas write_request_msg_ok = write_request_msg.decode_ok [folded DecodeWriteRequest_def, simplified]

record write_reply =
  wp_written :: "u64 option"

definition EncodeWriteReply :: "u64 \<Rightarrow> bytes" where
  "EncodeWriteReply written = writes
     [wMapHeader 1, wText ''written'', wUInt written] []"

definition write_reply_field :: "string \<Rightarrow> write_reply \<Rightarrow> write_reply reading" where
  "write_reply_field key s =
    (if key = ''written'' then once (wp_written s) ReadUInt (\<lambda>v. s\<lparr>wp_written := Some v\<rparr>)
     else ignore s)"

definition DecodeWriteReply :: "bytes \<Rightarrow> u64 option" where
  "DecodeWriteReply = decode_message (read_map write_reply_field
     \<lparr>wp_written = None\<rparr>
     (\<lambda>s. wp_written s))"

interpretation write_reply_msg: message_codec write_reply_field
  "\<lparr>wp_written = None\<rparr>"
  "\<lambda>s. wp_written s"
  "[''written'']" "\<lambda>_. {''written''}"
  "\<lambda>written. True"
  "\<lambda>k written. uint_bytes written"
  "\<lambda>K written. \<lparr>wp_written = (if ''written'' \<in> K then Some written else None)\<rparr>"
  "{''written''}" "\<lambda>s. True"
  by unfold_locales
    (auto simp: write_reply_field_def wire_simps dest!: reads_inv intro!: safe_intros definite_intros
      split: if_splits option.splits)

lemma EncodeWriteReply_canon: "EncodeWriteReply written = map_message (write_reply_msg.canon written)"
  by (simp add: EncodeWriteReply_def write_reply_msg.canon_def map_message_def wire_simps eval_nat_numeral)

lemma EncodeWriteReply_size: "length (EncodeWriteReply written) < 2 ^ 64"
  using item_lengths(7) [of 1]
    item_lengths(1) [of "written"]
  by (simp add: EncodeWriteReply_def wire_simps payload_bounds)

lemma write_reply_msg_back: "DecodeWriteReply (EncodeWriteReply written) = Some written"
  using write_reply_msg.decode_canon [of "written"] EncodeWriteReply_size [where written = written]
  unfolding EncodeWriteReply_canon DecodeWriteReply_def by simp

section \<open>CLOSE and Ok\<close>

record close_request =
  cq_handle :: "u64 option"

definition EncodeCloseRequest :: "u64 \<Rightarrow> bytes" where
  "EncodeCloseRequest handle = writes
     [wMapHeader 1, wText ''handle'', wUInt handle] []"

definition close_request_field :: "string \<Rightarrow> close_request \<Rightarrow> close_request reading" where
  "close_request_field key s =
    (if key = ''handle'' then once (cq_handle s) ReadUInt (\<lambda>v. s\<lparr>cq_handle := Some v\<rparr>)
     else ignore s)"

definition DecodeCloseRequest :: "bytes \<Rightarrow> u64 option" where
  "DecodeCloseRequest = decode_message (read_map close_request_field
     \<lparr>cq_handle = None\<rparr>
     (\<lambda>s. cq_handle s))"

interpretation close_request_msg: message_codec close_request_field
  "\<lparr>cq_handle = None\<rparr>"
  "\<lambda>s. cq_handle s"
  "[''handle'']" "\<lambda>_. {''handle''}"
  "\<lambda>handle. True"
  "\<lambda>k handle. uint_bytes handle"
  "\<lambda>K handle. \<lparr>cq_handle = (if ''handle'' \<in> K then Some handle else None)\<rparr>"
  "{''handle''}" "\<lambda>s. True"
  by unfold_locales
    (auto simp: close_request_field_def wire_simps dest!: reads_inv intro!: safe_intros definite_intros
      split: if_splits option.splits)

lemma EncodeCloseRequest_canon: "EncodeCloseRequest handle = map_message (close_request_msg.canon handle)"
  by (simp add: EncodeCloseRequest_def close_request_msg.canon_def map_message_def wire_simps eval_nat_numeral)

lemma EncodeCloseRequest_size: "length (EncodeCloseRequest handle) < 2 ^ 64"
  using item_lengths(7) [of 1]
    item_lengths(1) [of "handle"]
  by (simp add: EncodeCloseRequest_def wire_simps payload_bounds)

lemma close_request_msg_back: "DecodeCloseRequest (EncodeCloseRequest handle) = Some handle"
  using close_request_msg.decode_canon [of "handle"] EncodeCloseRequest_size [where handle = handle]
  unfolding EncodeCloseRequest_canon DecodeCloseRequest_def by simp

definition EncodeOk :: bytes where
  "EncodeOk = wMapHeader 0 []"

definition ok_field :: "string \<Rightarrow> unit \<Rightarrow> unit reading" where
  "ok_field key s = ignore s"

definition DecodeOk :: "bytes \<Rightarrow> bool" where
  "DecodeOk payload = (decode_message (read_map ok_field () Some) payload \<noteq> None)"

interpretation ok_msg: message_codec ok_field "()" Some "[]" "\<lambda>_. {}" "\<lambda>_. True"
  "\<lambda>_ _. []" "\<lambda>_ _. ()" "{}" "\<lambda>_. True"
  by unfold_locales (auto simp: ok_field_def intro!: safe_intros definite_intros)

text \<open>An Ok reply with any fields of a later protocol is an Ok reply.\<close>

lemma DecodeOk_future:
  assumes "\<forall>(k, b) \<in> set fs. cbor_item b" and "length (map_message fs) < 2 ^ 64"
  shows "DecodeOk (map_message fs)"
  using ok_msg.decode_any_order [of "()" fs] assms
  by (simp add: DecodeOk_def ok_msg.carries_def ok_msg.known_def)

lemma DecodeOk_EncodeOk: "DecodeOk EncodeOk"
  using DecodeOk_future [of "[]"] item_lengths(7) [of 0]
  by (simp add: EncodeOk_def map_message_def wire_simps)

section \<open>Frames\<close>

definition MakeOpenRequest :: "string \<Rightarrow> u32 \<Rightarrow> u32 \<Rightarrow> Frame" where
  "MakeOpenRequest path mode rid = mkFrame kOpen rid (EncodeOpenRequest path mode)"

definition MakeOpenReply :: "u64 \<Rightarrow> u64 \<Rightarrow> u32 \<Rightarrow> Frame" where
  "MakeOpenReply handle sz rid = mkFrame kOpen rid (EncodeOpenReply handle sz)"

definition MakeReadRequest :: "u64 \<Rightarrow> u64 \<Rightarrow> u32 \<Rightarrow> u32 \<Rightarrow> Frame" where
  "MakeReadRequest handle off len rid = mkFrame kRead rid (EncodeReadRequest handle off len)"

definition MakeReadReply :: "bytes \<Rightarrow> u32 \<Rightarrow> Frame" where
  "MakeReadReply dat rid = mkFrame kRead rid (EncodeReadReply dat)"

definition MakeWriteRequest :: "u64 \<Rightarrow> u64 \<Rightarrow> bytes \<Rightarrow> u32 \<Rightarrow> Frame" where
  "MakeWriteRequest handle off dat rid = mkFrame kWrite rid (EncodeWriteRequest handle off dat)"

definition MakeWriteReply :: "u64 \<Rightarrow> u32 \<Rightarrow> Frame" where
  "MakeWriteReply written rid = mkFrame kWrite rid (EncodeWriteReply written)"

definition MakeCloseRequest :: "u64 \<Rightarrow> u32 \<Rightarrow> Frame" where
  "MakeCloseRequest handle rid = mkFrame kClose rid (EncodeCloseRequest handle)"

definition MakeCloseReply :: "u32 \<Rightarrow> Frame" where
  "MakeCloseReply rid = mkFrame kClose rid EncodeOk"

end
