(* ===== verification/Namespace.thy ===== *)
theory Namespace
  imports FileOps
begin

text \<open>
  The payloads of MKDIR, UNLINK, RENAME and TRUNCATE (\<open>src/src/traghetto/wire/Namespace.cpp\<close>) and of
  READ\_ATTRS and WRITE\_ATTRS (\<open>AttrOps.cpp\<close>).
\<close>

section \<open>Namespace.cpp\<close>

record mkdir_request =
  mk_mode :: "u32 option"
  mk_path :: "string option"

definition EncodeMkdirRequest :: "string \<Rightarrow> u32 \<Rightarrow> bytes" where
  "EncodeMkdirRequest path mode = writes
     [wMapHeader 2, wText ''mode'', wUInt (ucast mode), wText ''path'', wText path] []"

definition mkdir_request_field :: "string \<Rightarrow> mkdir_request \<Rightarrow> mkdir_request reading" where
  "mkdir_request_field key s =
    (if key = ''mode'' then once (mk_mode s) ReadU32 (\<lambda>v. s\<lparr>mk_mode := Some v\<rparr>)
     else if key = ''path'' then once (mk_path s) ReadPath (\<lambda>v. s\<lparr>mk_path := Some v\<rparr>)
     else ignore s)"

definition DecodeMkdirRequest :: "bytes \<Rightarrow> (string \<times> u32) option" where
  "DecodeMkdirRequest = decode_message (read_map mkdir_request_field
     \<lparr>mk_mode = None, mk_path = None\<rparr>
     (\<lambda>s. case (mk_path s, mk_mode s) of
       (Some path, Some mode) \<Rightarrow> Some (path, mode) | _ \<Rightarrow> None))"

interpretation mkdir_request_msg: message_codec mkdir_request_field
  "\<lparr>mk_mode = None, mk_path = None\<rparr>"
  "\<lambda>s. case (mk_path s, mk_mode s) of
       (Some path, Some mode) \<Rightarrow> Some (path, mode) | _ \<Rightarrow> None"
  "[''mode'', ''path'']" "\<lambda>_. {''mode'', ''path''}"
  "\<lambda>(path, mode). path_ok path"
  "\<lambda>k (path, mode). if k = ''mode'' then uint_bytes (ucast mode) else text_bytes path"
  "\<lambda>K (path, mode). \<lparr>mk_mode = (if ''mode'' \<in> K then Some mode else None),
     mk_path = (if ''path'' \<in> K then Some path else None)\<rparr>"
  "{''mode'', ''path''}" "\<lambda>s. (\<forall>v. mk_path s = Some v \<longrightarrow> path_ok v)"
  by unfold_locales
    (auto simp: mkdir_request_field_def wire_simps dest!: reads_inv intro!: safe_intros definite_intros
      split: if_splits option.splits)

lemma EncodeMkdirRequest_canon: "EncodeMkdirRequest path mode = map_message (mkdir_request_msg.canon (path, mode))"
  by (simp add: EncodeMkdirRequest_def mkdir_request_msg.canon_def map_message_def wire_simps eval_nat_numeral)

lemma EncodeMkdirRequest_size: "path_ok path \<Longrightarrow> length (EncodeMkdirRequest path mode) < 2 ^ 64"
  using item_lengths(7) [of 2]
    item_lengths(1) [of "ucast mode"]
    item_lengths(4) [of "path"]
  by (simp add: EncodeMkdirRequest_def wire_simps payload_bounds)

lemma mkdir_request_msg_back: "path_ok path \<Longrightarrow> DecodeMkdirRequest (EncodeMkdirRequest path mode) = Some (path, mode)"
  using mkdir_request_msg.decode_canon [of "(path, mode)"] EncodeMkdirRequest_size [where path = path and mode = mode]
  unfolding EncodeMkdirRequest_canon DecodeMkdirRequest_def by simp

lemmas mkdir_request_msg_ok = mkdir_request_msg.decode_ok [folded DecodeMkdirRequest_def, simplified]

record rename_request =
  rn_from :: "string option"
  rn_to :: "string option"

definition EncodeRenameRequest :: "string \<Rightarrow> string \<Rightarrow> bytes" where
  "EncodeRenameRequest src dst = writes
     [wMapHeader 2, wText ''to'', wText dst, wText ''from'', wText src] []"

definition rename_request_field :: "string \<Rightarrow> rename_request \<Rightarrow> rename_request reading" where
  "rename_request_field key s =
    (if key = ''from'' then once (rn_from s) ReadPath (\<lambda>v. s\<lparr>rn_from := Some v\<rparr>)
     else if key = ''to'' then once (rn_to s) ReadPath (\<lambda>v. s\<lparr>rn_to := Some v\<rparr>)
     else ignore s)"

definition DecodeRenameRequest :: "bytes \<Rightarrow> (string \<times> string) option" where
  "DecodeRenameRequest = decode_message (read_map rename_request_field
     \<lparr>rn_from = None, rn_to = None\<rparr>
     (\<lambda>s. case (rn_from s, rn_to s) of
       (Some src, Some dst) \<Rightarrow> Some (src, dst) | _ \<Rightarrow> None))"

interpretation rename_request_msg: message_codec rename_request_field
  "\<lparr>rn_from = None, rn_to = None\<rparr>"
  "\<lambda>s. case (rn_from s, rn_to s) of
       (Some src, Some dst) \<Rightarrow> Some (src, dst) | _ \<Rightarrow> None"
  "[''to'', ''from'']" "\<lambda>_. {''to'', ''from''}"
  "\<lambda>(src, dst). path_ok src \<and> path_ok dst"
  "\<lambda>k (src, dst). if k = ''to'' then text_bytes dst else text_bytes src"
  "\<lambda>K (src, dst). \<lparr>rn_from = (if ''from'' \<in> K then Some src else None),
     rn_to = (if ''to'' \<in> K then Some dst else None)\<rparr>"
  "{''to'', ''from''}" "\<lambda>s. (\<forall>v. rn_from s = Some v \<longrightarrow> path_ok v) \<and> (\<forall>v. rn_to s = Some v \<longrightarrow> path_ok v)"
  by unfold_locales
    (auto simp: rename_request_field_def wire_simps dest!: reads_inv intro!: safe_intros definite_intros
      split: if_splits option.splits)

lemma EncodeRenameRequest_canon: "EncodeRenameRequest src dst = map_message (rename_request_msg.canon (src, dst))"
  by (simp add: EncodeRenameRequest_def rename_request_msg.canon_def map_message_def wire_simps eval_nat_numeral)

lemma EncodeRenameRequest_size: "path_ok src \<and> path_ok dst \<Longrightarrow> length (EncodeRenameRequest src dst) < 2 ^ 64"
  using item_lengths(7) [of 2]
    item_lengths(4) [of "src"]
    item_lengths(4) [of "dst"]
  by (simp add: EncodeRenameRequest_def wire_simps payload_bounds)

lemma rename_request_msg_back: "path_ok src \<and> path_ok dst \<Longrightarrow> DecodeRenameRequest (EncodeRenameRequest src dst) = Some (src, dst)"
  using rename_request_msg.decode_canon [of "(src, dst)"] EncodeRenameRequest_size [where src = src and dst = dst]
  unfolding EncodeRenameRequest_canon DecodeRenameRequest_def by simp

lemmas rename_request_msg_ok = rename_request_msg.decode_ok [folded DecodeRenameRequest_def, simplified]

record truncate_request =
  tr_path :: "string option"
  tr_size :: "u64 option"

definition EncodeTruncateRequest :: "string \<Rightarrow> u64 \<Rightarrow> bytes" where
  "EncodeTruncateRequest path sz = writes
     [wMapHeader 2, wText ''path'', wText path, wText ''size'', wUInt sz] []"

definition truncate_request_field :: "string \<Rightarrow> truncate_request \<Rightarrow> truncate_request reading" where
  "truncate_request_field key s =
    (if key = ''path'' then once (tr_path s) ReadPath (\<lambda>v. s\<lparr>tr_path := Some v\<rparr>)
     else if key = ''size'' then once (tr_size s) ReadUInt (\<lambda>v. s\<lparr>tr_size := Some v\<rparr>)
     else ignore s)"

definition DecodeTruncateRequest :: "bytes \<Rightarrow> (string \<times> u64) option" where
  "DecodeTruncateRequest = decode_message (read_map truncate_request_field
     \<lparr>tr_path = None, tr_size = None\<rparr>
     (\<lambda>s. case (tr_path s, tr_size s) of
       (Some path, Some sz) \<Rightarrow> Some (path, sz) | _ \<Rightarrow> None))"

interpretation truncate_request_msg: message_codec truncate_request_field
  "\<lparr>tr_path = None, tr_size = None\<rparr>"
  "\<lambda>s. case (tr_path s, tr_size s) of
       (Some path, Some sz) \<Rightarrow> Some (path, sz) | _ \<Rightarrow> None"
  "[''path'', ''size'']" "\<lambda>_. {''path'', ''size''}"
  "\<lambda>(path, sz). path_ok path"
  "\<lambda>k (path, sz). if k = ''path'' then text_bytes path else uint_bytes sz"
  "\<lambda>K (path, sz). \<lparr>tr_path = (if ''path'' \<in> K then Some path else None),
     tr_size = (if ''size'' \<in> K then Some sz else None)\<rparr>"
  "{''path'', ''size''}" "\<lambda>s. (\<forall>v. tr_path s = Some v \<longrightarrow> path_ok v)"
  by unfold_locales
    (auto simp: truncate_request_field_def wire_simps dest!: reads_inv intro!: safe_intros definite_intros
      split: if_splits option.splits)

lemma EncodeTruncateRequest_canon: "EncodeTruncateRequest path sz = map_message (truncate_request_msg.canon (path, sz))"
  by (simp add: EncodeTruncateRequest_def truncate_request_msg.canon_def map_message_def wire_simps eval_nat_numeral)

lemma EncodeTruncateRequest_size: "path_ok path \<Longrightarrow> length (EncodeTruncateRequest path sz) < 2 ^ 64"
  using item_lengths(7) [of 2]
    item_lengths(4) [of "path"]
    item_lengths(1) [of "sz"]
  by (simp add: EncodeTruncateRequest_def wire_simps payload_bounds)

lemma truncate_request_msg_back: "path_ok path \<Longrightarrow> DecodeTruncateRequest (EncodeTruncateRequest path sz) = Some (path, sz)"
  using truncate_request_msg.decode_canon [of "(path, sz)"] EncodeTruncateRequest_size [where path = path and sz = sz]
  unfolding EncodeTruncateRequest_canon DecodeTruncateRequest_def by simp

lemmas truncate_request_msg_ok = truncate_request_msg.decode_ok [folded DecodeTruncateRequest_def, simplified]

definition MakeMkdirRequest :: "string \<Rightarrow> u32 \<Rightarrow> u32 \<Rightarrow> Frame" where
  "MakeMkdirRequest path mode rid = mkFrame kMkdir rid (EncodeMkdirRequest path mode)"

definition MakeUnlinkRequest :: "string \<Rightarrow> u32 \<Rightarrow> Frame" where
  "MakeUnlinkRequest path rid = mkFrame kUnlink rid (EncodePathRequest path)"

definition MakeRenameRequest :: "string \<Rightarrow> string \<Rightarrow> u32 \<Rightarrow> Frame" where
  "MakeRenameRequest src dst rid = mkFrame kRename rid (EncodeRenameRequest src dst)"

definition MakeTruncateRequest :: "string \<Rightarrow> u64 \<Rightarrow> u32 \<Rightarrow> Frame" where
  "MakeTruncateRequest path sz rid = mkFrame kTruncate rid (EncodeTruncateRequest path sz)"

definition MakeMkdirReply :: "u32 \<Rightarrow> Frame" where
  "MakeMkdirReply rid = mkFrame kMkdir rid EncodeOk"

definition MakeUnlinkReply :: "u32 \<Rightarrow> Frame" where
  "MakeUnlinkReply rid = mkFrame kUnlink rid EncodeOk"

definition MakeRenameReply :: "u32 \<Rightarrow> Frame" where
  "MakeRenameReply rid = mkFrame kRename rid EncodeOk"

definition MakeTruncateReply :: "u32 \<Rightarrow> Frame" where
  "MakeTruncateReply rid = mkFrame kTruncate rid EncodeOk"

section \<open>AttrOps.cpp\<close>

record read_attrs_reply =
  ra_attrs :: "AttrSet option"

definition EncodeReadAttrsReply :: "AttrSet \<Rightarrow> bytes" where
  "EncodeReadAttrsReply attrs = writes
     [wMapHeader 1, wText ''attrs'', WriteAttrSet attrs] []"

definition read_attrs_field :: "string \<Rightarrow> read_attrs_reply \<Rightarrow> read_attrs_reply reading" where
  "read_attrs_field key s =
    (if key = ''attrs'' then once (ra_attrs s) ReadAttrSet (\<lambda>v. s\<lparr>ra_attrs := Some v\<rparr>)
     else ignore s)"

definition DecodeReadAttrsReply :: "bytes \<Rightarrow> AttrSet option" where
  "DecodeReadAttrsReply = decode_message (read_map read_attrs_field
     \<lparr>ra_attrs = None\<rparr>
     (\<lambda>s. ra_attrs s))"

interpretation read_attrs_msg: message_codec read_attrs_field
  "\<lparr>ra_attrs = None\<rparr>"
  "\<lambda>s. ra_attrs s"
  "[''attrs'']" "\<lambda>_. {''attrs''}"
  "\<lambda>attrs. attrs_ok attrs"
  "\<lambda>k attrs. attrs_bytes attrs"
  "\<lambda>K attrs. \<lparr>ra_attrs = (if ''attrs'' \<in> K then Some attrs else None)\<rparr>"
  "{''attrs''}" "\<lambda>s. (\<forall>v. ra_attrs s = Some v \<longrightarrow> attrs_ok v)"
  by unfold_locales
    (auto simp: read_attrs_field_def wire_simps dest!: reads_inv intro!: safe_intros definite_intros
      split: if_splits option.splits)

lemma EncodeReadAttrsReply_canon: "EncodeReadAttrsReply attrs = map_message (read_attrs_msg.canon attrs)"
  by (simp add: EncodeReadAttrsReply_def read_attrs_msg.canon_def map_message_def wire_simps eval_nat_numeral)

lemma read_attrs_msg_back: "attrs_ok attrs \<Longrightarrow> length (EncodeReadAttrsReply attrs) < 2 ^ 64 \<Longrightarrow>
    DecodeReadAttrsReply (EncodeReadAttrsReply attrs) = Some attrs"
  using read_attrs_msg.decode_canon [of "attrs"]
  unfolding EncodeReadAttrsReply_canon DecodeReadAttrsReply_def by simp

lemmas read_attrs_msg_ok = read_attrs_msg.decode_ok [folded DecodeReadAttrsReply_def, simplified]

record write_attrs_request =
  wa_path :: "string option"
  wa_attrs :: "AttrSet option"

definition EncodeWriteAttrsRequest :: "string \<Rightarrow> AttrSet \<Rightarrow> bytes" where
  "EncodeWriteAttrsRequest path attrs = writes
     [wMapHeader 2, wText ''path'', wText path, wText ''attrs'', WriteAttrSet attrs] []"

definition write_attrs_field :: "string \<Rightarrow> write_attrs_request \<Rightarrow> write_attrs_request reading" where
  "write_attrs_field key s =
    (if key = ''path'' then once (wa_path s) ReadPath (\<lambda>v. s\<lparr>wa_path := Some v\<rparr>)
     else if key = ''attrs'' then once (wa_attrs s) ReadAttrSet (\<lambda>v. s\<lparr>wa_attrs := Some v\<rparr>)
     else ignore s)"

definition DecodeWriteAttrsRequest :: "bytes \<Rightarrow> (string \<times> AttrSet) option" where
  "DecodeWriteAttrsRequest = decode_message (read_map write_attrs_field
     \<lparr>wa_path = None, wa_attrs = None\<rparr>
     (\<lambda>s. case (wa_path s, wa_attrs s) of
       (Some path, Some attrs) \<Rightarrow> Some (path, attrs) | _ \<Rightarrow> None))"

interpretation write_attrs_msg: message_codec write_attrs_field
  "\<lparr>wa_path = None, wa_attrs = None\<rparr>"
  "\<lambda>s. case (wa_path s, wa_attrs s) of
       (Some path, Some attrs) \<Rightarrow> Some (path, attrs) | _ \<Rightarrow> None"
  "[''path'', ''attrs'']" "\<lambda>_. {''path'', ''attrs''}"
  "\<lambda>(path, attrs). path_ok path \<and> attrs_ok attrs"
  "\<lambda>k (path, attrs). if k = ''path'' then text_bytes path else attrs_bytes attrs"
  "\<lambda>K (path, attrs). \<lparr>wa_path = (if ''path'' \<in> K then Some path else None),
     wa_attrs = (if ''attrs'' \<in> K then Some attrs else None)\<rparr>"
  "{''path'', ''attrs''}" "\<lambda>s. (\<forall>v. wa_path s = Some v \<longrightarrow> path_ok v) \<and> (\<forall>v. wa_attrs s = Some v \<longrightarrow> attrs_ok v)"
  by unfold_locales
    (auto simp: write_attrs_field_def wire_simps dest!: reads_inv intro!: safe_intros definite_intros
      split: if_splits option.splits)

lemma EncodeWriteAttrsRequest_canon: "EncodeWriteAttrsRequest path attrs = map_message (write_attrs_msg.canon (path, attrs))"
  by (simp add: EncodeWriteAttrsRequest_def write_attrs_msg.canon_def map_message_def wire_simps eval_nat_numeral)

lemma write_attrs_msg_back: "path_ok path \<and> attrs_ok attrs \<Longrightarrow> length (EncodeWriteAttrsRequest path attrs) < 2 ^ 64 \<Longrightarrow>
    DecodeWriteAttrsRequest (EncodeWriteAttrsRequest path attrs) = Some (path, attrs)"
  using write_attrs_msg.decode_canon [of "(path, attrs)"]
  unfolding EncodeWriteAttrsRequest_canon DecodeWriteAttrsRequest_def by simp

lemmas write_attrs_msg_ok = write_attrs_msg.decode_ok [folded DecodeWriteAttrsRequest_def, simplified]

definition MakeReadAttrsRequest :: "string \<Rightarrow> u32 \<Rightarrow> Frame" where
  "MakeReadAttrsRequest path rid = mkFrame kReadAttrs rid (EncodePathRequest path)"

definition MakeReadAttrsReply :: "AttrSet \<Rightarrow> u32 \<Rightarrow> Frame" where
  "MakeReadAttrsReply attrs rid = mkFrame kReadAttrs rid (EncodeReadAttrsReply attrs)"

definition MakeWriteAttrsRequest :: "string \<Rightarrow> AttrSet \<Rightarrow> u32 \<Rightarrow> Frame" where
  "MakeWriteAttrsRequest path attrs rid = mkFrame kWriteAttrs rid (EncodeWriteAttrsRequest path attrs)"

definition MakeWriteAttrsReply :: "u32 \<Rightarrow> Frame" where
  "MakeWriteAttrsReply rid = mkFrame kWriteAttrs rid EncodeOk"

end
