(* ===== verification/Query.thy ===== *)
theory Query
  imports FileOps
begin

text \<open>The payloads of the live queries: \<open>src/src/traghetto/wire/Query.cpp\<close>.\<close>

definition kMaxQueryBytes :: nat where "kMaxQueryBytes = 4096"

definition query_ok :: "string \<Rightarrow> bool" where
  "query_ok q \<longleftrightarrow> length q \<le> kMaxQueryBytes"

definition ReadQuery :: "string reading" where
  "ReadQuery = checked query_ok ReadText"

lemma ReadQuery_bytes [wire_simps]: "query_ok p \<Longrightarrow>
  ReadQuery (rdr pre (text_bytes p @ ys)) = (Some p, rdr (pre @ text_bytes p) ys)"
  by (simp add: ReadQuery_def wire_simps query_ok_def kMaxQueryBytes_def)

lemma ReadQuery_SomeD [reads_inv]: "ReadQuery r = (Some v, r') \<Longrightarrow> ReadText r = (Some v, r') \<and> query_ok v"
  unfolding ReadQuery_def by (rule checked_SomeD)

lemma ReadQuery_intros [safe_intros, definite_intros]: "safe ReadQuery" "definite ReadQuery"
  unfolding ReadQuery_def by (intro safe_intros definite_intros)+

record query_open =
  qo_query :: "string option"
  qo_id :: "u64 option"

definition EncodeQueryOpenRequest :: "u64 \<Rightarrow> string \<Rightarrow> bytes" where
  "EncodeQueryOpenRequest qid query = writes
     [wMapHeader 2, wText ''query'', wText query, wText ''queryId'', wUInt qid] []"

definition query_open_field :: "string \<Rightarrow> query_open \<Rightarrow> query_open reading" where
  "query_open_field key s =
    (if key = ''query'' then once (qo_query s) ReadQuery (\<lambda>v. s\<lparr>qo_query := Some v\<rparr>)
     else if key = ''queryId'' then once (qo_id s) ReadUInt (\<lambda>v. s\<lparr>qo_id := Some v\<rparr>)
     else ignore s)"

definition DecodeQueryOpenRequest :: "bytes \<Rightarrow> (u64 \<times> string) option" where
  "DecodeQueryOpenRequest = decode_message (read_map query_open_field
     \<lparr>qo_query = None, qo_id = None\<rparr>
     (\<lambda>s. case (qo_id s, qo_query s) of
       (Some qid, Some query) \<Rightarrow> Some (qid, query) | _ \<Rightarrow> None))"

interpretation query_open_msg: message_codec query_open_field
  "\<lparr>qo_query = None, qo_id = None\<rparr>"
  "\<lambda>s. case (qo_id s, qo_query s) of
       (Some qid, Some query) \<Rightarrow> Some (qid, query) | _ \<Rightarrow> None"
  "[''query'', ''queryId'']" "\<lambda>_. {''query'', ''queryId''}"
  "\<lambda>(qid, query). query_ok query"
  "\<lambda>k (qid, query). if k = ''query'' then text_bytes query else uint_bytes qid"
  "\<lambda>K (qid, query). \<lparr>qo_query = (if ''query'' \<in> K then Some query else None),
     qo_id = (if ''queryId'' \<in> K then Some qid else None)\<rparr>"
  "{''query'', ''queryId''}" "\<lambda>s. (\<forall>v. qo_query s = Some v \<longrightarrow> query_ok v)"
  by unfold_locales
    (auto simp: query_open_field_def wire_simps dest!: reads_inv intro!: safe_intros definite_intros
      split: if_splits option.splits)

lemma EncodeQueryOpenRequest_canon: "EncodeQueryOpenRequest qid query = map_message (query_open_msg.canon (qid, query))"
  by (simp add: EncodeQueryOpenRequest_def query_open_msg.canon_def map_message_def wire_simps eval_nat_numeral)

lemma EncodeQueryOpenRequest_size: "query_ok query \<Longrightarrow> length (EncodeQueryOpenRequest qid query) < 2 ^ 64"
  using item_lengths(7) [of 2]
    item_lengths(4) [of "query"]
    item_lengths(1) [of "qid"]
  by (simp add: EncodeQueryOpenRequest_def wire_simps query_ok_def kMaxQueryBytes_def)

lemma query_open_msg_back: "query_ok query \<Longrightarrow> DecodeQueryOpenRequest (EncodeQueryOpenRequest qid query) = Some (qid, query)"
  using query_open_msg.decode_canon [of "(qid, query)"] EncodeQueryOpenRequest_size [where qid = qid and query = query]
  unfolding EncodeQueryOpenRequest_canon DecodeQueryOpenRequest_def by simp

lemmas query_open_msg_ok = query_open_msg.decode_ok [folded DecodeQueryOpenRequest_def, simplified]

record query_result =
  qr_done :: "bool option"
  qr_entries :: "(Entry list) option"
  qr_id :: "u64 option"

definition EncodeQueryResultReply :: "u64 \<Rightarrow> (Entry list) \<Rightarrow> bool \<Rightarrow> bytes" where
  "EncodeQueryResultReply qid es fin = writes
     [wMapHeader 3, wText ''done'', wBool fin, wText ''entries'', WriteEntries es, wText ''queryId'', wUInt qid] []"

definition query_result_field :: "string \<Rightarrow> query_result \<Rightarrow> query_result reading" where
  "query_result_field key s =
    (if key = ''done'' then once (qr_done s) ReadBool (\<lambda>v. s\<lparr>qr_done := Some v\<rparr>)
     else if key = ''entries'' then once (qr_entries s) ReadEntries (\<lambda>v. s\<lparr>qr_entries := Some v\<rparr>)
     else if key = ''queryId'' then once (qr_id s) ReadUInt (\<lambda>v. s\<lparr>qr_id := Some v\<rparr>)
     else ignore s)"

definition DecodeQueryResultReply :: "bytes \<Rightarrow> (u64 \<times> Entry list \<times> bool) option" where
  "DecodeQueryResultReply = decode_message (read_map query_result_field
     \<lparr>qr_done = None, qr_entries = None, qr_id = None\<rparr>
     (\<lambda>s. case (qr_id s, qr_entries s, qr_done s) of
       (Some qid, Some es, Some fin) \<Rightarrow> Some (qid, es, fin) | _ \<Rightarrow> None))"

interpretation query_result_msg: message_codec query_result_field
  "\<lparr>qr_done = None, qr_entries = None, qr_id = None\<rparr>"
  "\<lambda>s. case (qr_id s, qr_entries s, qr_done s) of
       (Some qid, Some es, Some fin) \<Rightarrow> Some (qid, es, fin) | _ \<Rightarrow> None"
  "[''done'', ''entries'', ''queryId'']" "\<lambda>_. {''done'', ''entries'', ''queryId''}"
  "\<lambda>(qid, es, fin). entries_ok es"
  "\<lambda>k (qid, es, fin). if k = ''done'' then bool_bytes fin else if k = ''entries'' then entries_bytes es else uint_bytes qid"
  "\<lambda>K (qid, es, fin). \<lparr>qr_done = (if ''done'' \<in> K then Some fin else None),
     qr_entries = (if ''entries'' \<in> K then Some es else None),
     qr_id = (if ''queryId'' \<in> K then Some qid else None)\<rparr>"
  "{''done'', ''entries'', ''queryId''}" "\<lambda>s. (\<forall>v. qr_entries s = Some v \<longrightarrow> entries_ok v)"
  by unfold_locales
    (auto simp: query_result_field_def wire_simps dest!: reads_inv intro!: safe_intros definite_intros
      split: if_splits option.splits)

lemma EncodeQueryResultReply_canon: "EncodeQueryResultReply qid es fin = map_message (query_result_msg.canon (qid, es, fin))"
  by (simp add: EncodeQueryResultReply_def query_result_msg.canon_def map_message_def wire_simps eval_nat_numeral)

lemma query_result_msg_back: "entries_ok es \<Longrightarrow> length (EncodeQueryResultReply qid es fin) < 2 ^ 64 \<Longrightarrow>
    DecodeQueryResultReply (EncodeQueryResultReply qid es fin) = Some (qid, es, fin)"
  using query_result_msg.decode_canon [of "(qid, es, fin)"]
  unfolding EncodeQueryResultReply_canon DecodeQueryResultReply_def by simp

lemmas query_result_msg_ok = query_result_msg.decode_ok [folded DecodeQueryResultReply_def, simplified]

record query_update =
  qu_added :: "bool option"
  qu_entry :: "Entry option"
  qu_id :: "u64 option"

definition EncodeQueryUpdate :: "u64 \<Rightarrow> bool \<Rightarrow> Entry \<Rightarrow> bytes" where
  "EncodeQueryUpdate qid added entry = writes
     [wMapHeader 3, wText ''added'', wBool added, wText ''entry'', WriteEntry entry, wText ''queryId'', wUInt qid] []"

definition query_update_field :: "string \<Rightarrow> query_update \<Rightarrow> query_update reading" where
  "query_update_field key s =
    (if key = ''added'' then once (qu_added s) ReadBool (\<lambda>v. s\<lparr>qu_added := Some v\<rparr>)
     else if key = ''entry'' then once (qu_entry s) ReadEntry (\<lambda>v. s\<lparr>qu_entry := Some v\<rparr>)
     else if key = ''queryId'' then once (qu_id s) ReadUInt (\<lambda>v. s\<lparr>qu_id := Some v\<rparr>)
     else ignore s)"

definition DecodeQueryUpdate :: "bytes \<Rightarrow> (u64 \<times> bool \<times> Entry) option" where
  "DecodeQueryUpdate = decode_message (read_map query_update_field
     \<lparr>qu_added = None, qu_entry = None, qu_id = None\<rparr>
     (\<lambda>s. case (qu_id s, qu_added s, qu_entry s) of
       (Some qid, Some added, Some entry) \<Rightarrow> Some (qid, added, entry) | _ \<Rightarrow> None))"

interpretation query_update_msg: message_codec query_update_field
  "\<lparr>qu_added = None, qu_entry = None, qu_id = None\<rparr>"
  "\<lambda>s. case (qu_id s, qu_added s, qu_entry s) of
       (Some qid, Some added, Some entry) \<Rightarrow> Some (qid, added, entry) | _ \<Rightarrow> None"
  "[''added'', ''entry'', ''queryId'']" "\<lambda>_. {''added'', ''entry'', ''queryId''}"
  "\<lambda>(qid, added, entry). entry_ok entry"
  "\<lambda>k (qid, added, entry). if k = ''added'' then bool_bytes added else if k = ''entry'' then entry_bytes entry else uint_bytes qid"
  "\<lambda>K (qid, added, entry). \<lparr>qu_added = (if ''added'' \<in> K then Some added else None),
     qu_entry = (if ''entry'' \<in> K then Some entry else None),
     qu_id = (if ''queryId'' \<in> K then Some qid else None)\<rparr>"
  "{''added'', ''entry'', ''queryId''}" "\<lambda>s. (\<forall>v. qu_entry s = Some v \<longrightarrow> entry_ok v)"
  by unfold_locales
    (auto simp: query_update_field_def wire_simps dest!: reads_inv intro!: safe_intros definite_intros
      split: if_splits option.splits)

lemma EncodeQueryUpdate_canon: "EncodeQueryUpdate qid added entry = map_message (query_update_msg.canon (qid, added, entry))"
  by (simp add: EncodeQueryUpdate_def query_update_msg.canon_def map_message_def wire_simps eval_nat_numeral)

lemma query_update_msg_back: "entry_ok entry \<Longrightarrow> length (EncodeQueryUpdate qid added entry) < 2 ^ 64 \<Longrightarrow>
    DecodeQueryUpdate (EncodeQueryUpdate qid added entry) = Some (qid, added, entry)"
  using query_update_msg.decode_canon [of "(qid, added, entry)"]
  unfolding EncodeQueryUpdate_canon DecodeQueryUpdate_def by simp

lemmas query_update_msg_ok = query_update_msg.decode_ok [folded DecodeQueryUpdate_def, simplified]

record query_close =
  qc_id :: "u64 option"

definition EncodeQueryCloseRequest :: "u64 \<Rightarrow> bytes" where
  "EncodeQueryCloseRequest qid = writes
     [wMapHeader 1, wText ''queryId'', wUInt qid] []"

definition query_close_field :: "string \<Rightarrow> query_close \<Rightarrow> query_close reading" where
  "query_close_field key s =
    (if key = ''queryId'' then once (qc_id s) ReadUInt (\<lambda>v. s\<lparr>qc_id := Some v\<rparr>)
     else ignore s)"

definition DecodeQueryCloseRequest :: "bytes \<Rightarrow> u64 option" where
  "DecodeQueryCloseRequest = decode_message (read_map query_close_field
     \<lparr>qc_id = None\<rparr>
     (\<lambda>s. qc_id s))"

interpretation query_close_msg: message_codec query_close_field
  "\<lparr>qc_id = None\<rparr>"
  "\<lambda>s. qc_id s"
  "[''queryId'']" "\<lambda>_. {''queryId''}"
  "\<lambda>qid. True"
  "\<lambda>k qid. uint_bytes qid"
  "\<lambda>K qid. \<lparr>qc_id = (if ''queryId'' \<in> K then Some qid else None)\<rparr>"
  "{''queryId''}" "\<lambda>s. True"
  by unfold_locales
    (auto simp: query_close_field_def wire_simps dest!: reads_inv intro!: safe_intros definite_intros
      split: if_splits option.splits)

lemma EncodeQueryCloseRequest_canon: "EncodeQueryCloseRequest qid = map_message (query_close_msg.canon qid)"
  by (simp add: EncodeQueryCloseRequest_def query_close_msg.canon_def map_message_def wire_simps eval_nat_numeral)

lemma EncodeQueryCloseRequest_size: "length (EncodeQueryCloseRequest qid) < 2 ^ 64"
  using item_lengths(7) [of 1]
    item_lengths(1) [of "qid"]
  by (simp add: EncodeQueryCloseRequest_def wire_simps query_ok_def kMaxQueryBytes_def)

lemma query_close_msg_back: "DecodeQueryCloseRequest (EncodeQueryCloseRequest qid) = Some qid"
  using query_close_msg.decode_canon [of "qid"] EncodeQueryCloseRequest_size [where qid = qid]
  unfolding EncodeQueryCloseRequest_canon DecodeQueryCloseRequest_def by simp

definition MakeQueryOpenRequest :: "u64 \<Rightarrow> string \<Rightarrow> u32 \<Rightarrow> Frame" where
  "MakeQueryOpenRequest qid query rid = mkFrame kQueryOpen rid (EncodeQueryOpenRequest qid query)"

definition MakeQueryResultReply :: "u64 \<Rightarrow> Entry list \<Rightarrow> bool \<Rightarrow> u32 \<Rightarrow> Frame" where
  "MakeQueryResultReply qid entries fin rid = mkFrame kQueryResult rid (EncodeQueryResultReply qid entries fin)"

definition MakeQueryUpdate :: "u64 \<Rightarrow> bool \<Rightarrow> Entry \<Rightarrow> u32 \<Rightarrow> Frame" where
  "MakeQueryUpdate qid added entry rid = mkFrame kQueryUpdate rid (EncodeQueryUpdate qid added entry)"

definition MakeQueryCloseRequest :: "u64 \<Rightarrow> u32 \<Rightarrow> Frame" where
  "MakeQueryCloseRequest qid rid = mkFrame kQueryClose rid (EncodeQueryCloseRequest qid)"

definition MakeQueryCloseReply :: "u32 \<Rightarrow> Frame" where
  "MakeQueryCloseReply rid = mkFrame kQueryClose rid (wMapHeader 0 [])"

end
