(* ===== verification/FileServer.thy ===== *)
theory FileServer
  imports Host Handshake Listing FileOps Namespace Query "HOL-Library.AList"
begin

text \<open>
  The server side of the protocol: \<open>src/src/traghetto/server/FileServer.cpp\<close>. One handler per
  message type, each a tree of host calls that ends in the reply frame and the next state. The
  invariants are about the table of open files; the confinement lemmas say which paths the
  handlers hand to the system, whatever the system answers.
\<close>

section \<open>State\<close>

definition kMaxOpenHandles :: nat where "kMaxOpenHandles = 256"
definition kMaxServedAttrValue :: nat where "kMaxServedAttrValue = 1024 * 1024"
definition kQueryResultQuota :: nat where "kQueryResultQuota = 4096"

record OpenFile =
  of_fd :: fd
  of_writable :: bool

text \<open>
  \<open>std::map\<close> is an association list with one entry per key. \<open>fs_haiku\<close> is the build's
  \<open>__HAIKU__\<close>; \<open>fs_sink\<close> whether the connection's push channel is installed; \<open>fs_queries\<close>
  maps a query id to the \<open>BQuery\<close> of its session.
\<close>

record server =
  fRoot :: string
  fNodeId :: NodeIdentity
  fWritable :: bool
  fOpen :: "(u64 \<times> OpenFile) list"
  fNextHandle :: u64
  fs_sink :: bool
  fs_queries :: "(u64 \<times> nat) list"
  fs_haiku :: bool

definition FileServer :: "bool \<Rightarrow> string \<Rightarrow> NodeIdentity \<Rightarrow> bool \<Rightarrow> server" where
  "FileServer haiku canonicalRoot nodeId writable =
     \<lparr>fRoot = canonicalRoot, fNodeId = nodeId, fWritable = writable, fOpen = [], fNextHandle = 1,
      fs_sink = False, fs_queries = [], fs_haiku = haiku\<rparr>"

type_synonym 'a serving = "('a \<times> server) prog"

section \<open>Helpers\<close>

definition Error :: "u32 \<Rightarrow> Frame" where
  "Error code = mkFrame kError 0 (EncodeError code [])"

fun ErrnoToCode :: "errno \<Rightarrow> u32" where
  "ErrnoToCode ENOENT = kNotFound"
| "ErrnoToCode EACCES = kAccessDenied"
| "ErrnoToCode EPERM = kAccessDenied"
| "ErrnoToCode EROFS = kAccessDenied"
| "ErrnoToCode ELOOP = kAccessDenied"
| "ErrnoToCode ENOTDIR = kNotADirectory"
| "ErrnoToCode EISDIR = kIsADirectory"
| "ErrnoToCode ENOSPC = kNoSpace"
| "ErrnoToCode EDQUOT = kNoSpace"
| "ErrnoToCode (EOTHER _) = kIOError"

text \<open>\<open>while (path.size() > 1 && path.back() == '/') path.pop_back()\<close>, on the reversed path.\<close>

fun pop_slashes :: "string \<Rightarrow> string" where
  "pop_slashes (c # d # cs) = (if c = CHR ''/'' then pop_slashes (d # cs) else c # d # cs)"
| "pop_slashes cs = cs"

definition trim_slashes :: "string \<Rightarrow> string" where
  "trim_slashes path = rev (pop_slashes (rev path))"

text \<open>\<open>path.substr(slash + 1)\<close> and \<open>path.substr(0, slash)\<close> for \<open>slash = path.find_last_of('/')\<close>.\<close>

definition after_slash :: "string \<Rightarrow> string" where
  "after_slash path = rev (takeWhile (\<lambda>c. c \<noteq> CHR ''/'') (rev path))"

definition before_slash :: "string \<Rightarrow> string" where
  "before_slash path = rev (tl (dropWhile (\<lambda>c. c \<noteq> CHR ''/'') (rev path)))"

definition LeafName :: "string \<Rightarrow> string" where
  "LeafName path = (let path = trim_slashes path in
     if path = ''/'' then ''.'' else after_slash path)"

definition ValidAttrName :: "string \<Rightarrow> bool" where
  "ValidAttrName name = (name \<noteq> [] \<and> length name \<le> kMaxAttrNameBytes \<and>
     list_all (\<lambda>c. \<not> (byte_of_char c < 0x20 \<or> byte_of_char c = 0x7F)) name)"

definition bad_request_path :: "string \<Rightarrow> bool" where
  "bad_request_path p = (p = [] \<or> hd p \<noteq> CHR ''/'' \<or> List.member p (CHR 0x00))"

definition root_prefix :: "string \<Rightarrow> string" where
  "root_prefix root = (if root = ''/'' then ''/'' else root @ ''/'')"

definition starts_with :: "string \<Rightarrow> string \<Rightarrow> bool" where
  "starts_with p s = (length p \<le> length s \<and> take (length p) s = p)"

definition Resolve :: "server \<Rightarrow> string \<Rightarrow> (u32 + string) prog" where
  "Resolve sv reqPath =
    (if bad_request_path reqPath then Ret (Inl kInvalidRequest)
     else pbind (sys_path (Realpath (fRoot sv @ reqPath))) (\<lambda>resolved. case resolved of
       None \<Rightarrow> Ret (Inl kNotFound)
     | Some real \<Rightarrow>
         if real = fRoot sv \<or> starts_with (root_prefix (fRoot sv)) real then Ret (Inr real)
         else Ret (Inl kAccessDenied)))"

definition ResolveForCreate :: "server \<Rightarrow> string \<Rightarrow> (u32 + string) prog" where
  "ResolveForCreate sv reqPath =
    (if bad_request_path reqPath then Ret (Inl kInvalidRequest)
     else let trimmed = trim_slashes reqPath;
              parentReq = (if before_slash trimmed = [] then ''/'' else before_slash trimmed);
              leaf = after_slash trimmed
          in if leaf = [] \<or> leaf = ''.'' \<or> leaf = ''..'' \<or> List.member leaf (CHR ''/'')
             then Ret (Inl kInvalidRequest)
             else pbind (Resolve sv parentReq) (\<lambda>r. case r of
               Inl err \<Rightarrow> Ret (Inl err)
             | Inr parentReal \<Rightarrow>
                 Ret (Inr (if parentReal = ''/'' then ''/'' @ leaf else parentReal @ ''/'' @ leaf))))"

section \<open>Attributes and entries\<close>

primrec write_attr_list :: "fd \<Rightarrow> AttrSet \<Rightarrow> u32 option prog" where
  "write_attr_list fd [] = Ret None"
| "write_attr_list fd (a # as) =
     pbind (sys_written (FsWriteAttr fd (at_name a) (at_type a) (at_value a))) (\<lambda>(n, e).
       if n \<noteq> Some (length (at_value a)) then Ret (Some (ErrnoToCode e)) else write_attr_list fd as)"

definition WriteAttrs :: "server \<Rightarrow> string \<Rightarrow> AttrSet \<Rightarrow> u32 option prog" where
  "WriteAttrs sv realPath attrs =
    (if fs_haiku sv then
       pbind (sys_fd (Open realPath [O_RDONLY])) (\<lambda>r. case r of
         Inl e \<Rightarrow> Ret (Some (ErrnoToCode e))
       | Inr fd \<Rightarrow> pbind (write_attr_list fd attrs) (\<lambda>err.
           pbind (sys_unit (Close fd)) (\<lambda>_. Ret err)))
     else Ret None)"

text \<open>The \<open>fs_read_attr_dir\<close> loop; \<open>out\<close> is the set built so far.\<close>

fun read_attr_list :: "fd \<Rightarrow> string list \<Rightarrow> AttrSet \<Rightarrow> AttrSet prog" where
  "read_attr_list fd [] out = Ret out"
| "read_attr_list fd (name # names) out =
    (if length out \<ge> kMaxAttrs then Ret out
     else pbind (sys_attr (FsStatAttr fd name)) (\<lambda>info. case info of
       None \<Rightarrow> read_attr_list fd names out
     | Some (ty, sz) \<Rightarrow>
         if sint sz < 0 \<or> unat sz > kMaxServedAttrValue then read_attr_list fd names out
         else if unat sz > 0 then
           pbind (sys_bytes (FsReadAttr fd name ty (unat sz))) (\<lambda>r. case r of
             None \<Rightarrow> read_attr_list fd names out
           | Some value \<Rightarrow>
               read_attr_list fd names (out @ [\<lparr>at_name = name, at_type = ty, at_value = value\<rparr>]))
         else read_attr_list fd names (out @ [\<lparr>at_name = name, at_type = ty, at_value = []\<rparr>])))"

definition ReadAttrs :: "server \<Rightarrow> string \<Rightarrow> AttrSet prog" where
  "ReadAttrs sv realPath =
    (if fs_haiku sv then
       pbind (sys_names (AttrDir realPath)) (\<lambda>dir. case dir of
         None \<Rightarrow> Ret []
       | Some names \<Rightarrow>
           pbind (sys_fd (Open realPath [O_RDONLY])) (\<lambda>r. case r of
             Inl _ \<Rightarrow> Ret []
           | Inr fd \<Rightarrow> pbind (read_attr_list fd names []) (\<lambda>out.
               pbind (sys_unit (Close fd)) (\<lambda>_. Ret out))))
     else Ret [])"

definition BuildEntry :: "server \<Rightarrow> string \<Rightarrow> string \<Rightarrow> Entry option prog" where
  "BuildEntry sv realPath leafName =
     pbind (sys_stat (Lstat realPath)) (\<lambda>r. case r of
       None \<Rightarrow> Ret None
     | Some st \<Rightarrow> pbind (ReadAttrs sv realPath) (\<lambda>attrs.
         Ret (Some \<lparr>en_name = leafName,
           en_stat = \<lparr>st_mode = s_mode st, st_size = s_size st, st_mtime = s_mtime st,
             st_crtime = (if fs_haiku sv then s_crtime st else 0), st_inode = s_ino st\<rparr>,
           en_attrs = attrs\<rparr>)))"

definition S_ISDIR :: "u32 \<Rightarrow> bool" where
  "S_ISDIR m = (m AND 0xF000 = 0x4000)"

section \<open>Handlers\<close>

definition HandleStat :: "server \<Rightarrow> bytes \<Rightarrow> Frame serving" where
  "HandleStat sv payload = (case DecodePathRequest payload of
     None \<Rightarrow> Ret (Error kInvalidRequest, sv)
   | Some path \<Rightarrow> pbind (Resolve sv path) (\<lambda>r. case r of
       Inl err \<Rightarrow> Ret (Error err, sv)
     | Inr real \<Rightarrow> pbind (BuildEntry sv real (LeafName path)) (\<lambda>e. case e of
         None \<Rightarrow> Ret (Error kIOError, sv)
       | Some entry \<Rightarrow> Ret (mkFrame kStat 0 (EncodeStatReply entry), sv))))"

fun list_entries :: "server \<Rightarrow> string \<Rightarrow> string list \<Rightarrow> Entry list \<Rightarrow> Entry list prog" where
  "list_entries sv real [] entries = Ret entries"
| "list_entries sv real (n # ns) entries =
    (if n = ''.'' \<or> n = ''..'' then list_entries sv real ns entries
     else if length entries \<ge> kMaxEntriesPerReply then Ret entries
     else pbind (BuildEntry sv (real @ ''/'' @ n) n) (\<lambda>e. case e of
       None \<Rightarrow> list_entries sv real ns entries
     | Some entry \<Rightarrow> list_entries sv real ns (entries @ [entry])))"

definition HandleList :: "server \<Rightarrow> bytes \<Rightarrow> Frame serving" where
  "HandleList sv payload = (case DecodePathRequest payload of
     None \<Rightarrow> Ret (Error kInvalidRequest, sv)
   | Some path \<Rightarrow> pbind (Resolve sv path) (\<lambda>r. case r of
       Inl err \<Rightarrow> Ret (Error err, sv)
     | Inr real \<Rightarrow> pbind (sys_stat (Lstat real)) (\<lambda>st. case st of
         None \<Rightarrow> Ret (Error kIOError, sv)
       | Some st \<Rightarrow>
           if \<not> S_ISDIR (s_mode st) then Ret (Error kNotADirectory, sv)
           else pbind (sys_names (Readdir real)) (\<lambda>dir. case dir of
             None \<Rightarrow> Ret (Error kIOError, sv)
           | Some names \<Rightarrow> pbind (list_entries sv real names []) (\<lambda>entries.
               Ret (mkFrame kList 0 (EncodeListing entries), sv))))))"

text \<open>\<open>fOpen[handle] = OpenFile{fd, wantWrite}\<close> with \<open>handle = fNextHandle++\<close>, and the reply.\<close>

definition store_handle :: "server \<Rightarrow> fd \<Rightarrow> bool \<Rightarrow> u64 \<Rightarrow> Frame \<times> server" where
  "store_handle sv fd wantWrite sz =
    (let handle = fNextHandle sv in
     (mkFrame kOpen 0 (EncodeOpenReply handle sz),
      sv\<lparr>fNextHandle := handle + 1,
         fOpen := AList.update handle \<lparr>of_fd = fd, of_writable = wantWrite\<rparr> (fOpen sv)\<rparr>))"

definition HandleOpen :: "server \<Rightarrow> bytes \<Rightarrow> Frame serving" where
  "HandleOpen sv payload = (case DecodeOpenRequest payload of
     None \<Rightarrow> Ret (Error kInvalidRequest, sv)
   | Some (path, mode) \<Rightarrow>
       let wantWrite = (mode AND kOpenWrite \<noteq> 0) in
       if wantWrite \<and> \<not> fWritable sv then Ret (Error kAccessDenied, sv)
       else if length (fOpen sv) \<ge> kMaxOpenHandles then Ret (Error kTooManyOpen, sv)
       else if wantWrite then
         pbind (ResolveForCreate sv path) (\<lambda>r. case r of
           Inl err \<Rightarrow> Ret (Error err, sv)
         | Inr real \<Rightarrow>
             pbind (sys_fd (Open real
                 [O_CREAT, O_TRUNC, O_NOFOLLOW, if mode AND kOpenRead \<noteq> 0 then O_RDWR else O_WRONLY]))
               (\<lambda>fd. case fd of
                 Inl e \<Rightarrow> Ret (Error (ErrnoToCode e), sv)
               | Inr fd \<Rightarrow> Ret (store_handle sv fd True 0)))
       else
         pbind (Resolve sv path) (\<lambda>r. case r of
           Inl err \<Rightarrow> Ret (Error err, sv)
         | Inr real \<Rightarrow> pbind (sys_stat (Lstat real)) (\<lambda>st. case st of
             None \<Rightarrow> Ret (Error kIOError, sv)
           | Some st \<Rightarrow>
               if S_ISDIR (s_mode st) then Ret (Error kIsADirectory, sv)
               else pbind (sys_fd (Open real [O_RDONLY])) (\<lambda>fd. case fd of
                 Inl e \<Rightarrow> Ret (Error kIOError, sv)
               | Inr fd \<Rightarrow> Ret (store_handle sv fd False (s_size st))))))"

definition HandleRead :: "server \<Rightarrow> bytes \<Rightarrow> Frame serving" where
  "HandleRead sv payload = (case DecodeReadRequest payload of
     None \<Rightarrow> Ret (Error kInvalidRequest, sv)
   | Some (handle, off, len) \<Rightarrow> (case map_of (fOpen sv) handle of
       None \<Rightarrow> Ret (Error kBadHandle, sv)
     | Some it \<Rightarrow> pbind (sys_bytes (Pread (of_fd it) (unat len) off)) (\<lambda>r. case r of
         None \<Rightarrow> Ret (Error kIOError, sv)
       | Some buffer \<Rightarrow> Ret (mkFrame kRead 0 (EncodeReadReply buffer), sv))))"

definition HandleWrite :: "server \<Rightarrow> bytes \<Rightarrow> Frame serving" where
  "HandleWrite sv payload = (case DecodeWriteRequest payload of
     None \<Rightarrow> Ret (Error kInvalidRequest, sv)
   | Some (handle, off, dat) \<Rightarrow> (case map_of (fOpen sv) handle of
       None \<Rightarrow> Ret (Error kBadHandle, sv)
     | Some it \<Rightarrow>
         if \<not> of_writable it then Ret (Error kAccessDenied, sv)
         else pbind (sys_count (Pwrite (of_fd it) dat off)) (\<lambda>r. case r of
           Inl e \<Rightarrow> Ret (Error (ErrnoToCode e), sv)
         | Inr n \<Rightarrow> Ret (mkFrame kWrite 0 (EncodeWriteReply (word_of_nat n)), sv))))"

definition HandleClose :: "server \<Rightarrow> bytes \<Rightarrow> Frame serving" where
  "HandleClose sv payload = (case DecodeCloseRequest payload of
     None \<Rightarrow> Ret (Error kInvalidRequest, sv)
   | Some handle \<Rightarrow> (case map_of (fOpen sv) handle of
       None \<Rightarrow> Ret (Error kBadHandle, sv)
     | Some it \<Rightarrow> pbind (sys_unit (Close (of_fd it))) (\<lambda>_.
         Ret (mkFrame kClose 0 EncodeOk, sv\<lparr>fOpen := AList.delete handle (fOpen sv)\<rparr>))))"

text \<open>The last step of a mutation: the errno of its call, or the reply.\<close>

definition mutated :: "server \<Rightarrow> Frame \<Rightarrow> errno option \<Rightarrow> Frame serving" where
  "mutated sv reply rc = (case rc of
     Some e \<Rightarrow> Ret (Error (ErrnoToCode e), sv)
   | None \<Rightarrow> Ret (reply, sv))"

definition HandleMkdir :: "server \<Rightarrow> bytes \<Rightarrow> Frame serving" where
  "HandleMkdir sv payload =
    (if \<not> fWritable sv then Ret (Error kAccessDenied, sv)
     else case DecodeMkdirRequest payload of
       None \<Rightarrow> Ret (Error kInvalidRequest, sv)
     | Some (path, mode) \<Rightarrow> pbind (ResolveForCreate sv path) (\<lambda>r. case r of
         Inl err \<Rightarrow> Ret (Error err, sv)
       | Inr real \<Rightarrow> pbind (sys_status (Mkdir real (mode AND 0x1FF))) (mutated sv (MakeMkdirReply 0))))"

definition HandleUnlink :: "server \<Rightarrow> bytes \<Rightarrow> Frame serving" where
  "HandleUnlink sv payload =
    (if \<not> fWritable sv then Ret (Error kAccessDenied, sv)
     else case DecodePathRequest payload of
       None \<Rightarrow> Ret (Error kInvalidRequest, sv)
     | Some path \<Rightarrow> pbind (ResolveForCreate sv path) (\<lambda>r. case r of
         Inl err \<Rightarrow> Ret (Error err, sv)
       | Inr real \<Rightarrow> pbind (sys_stat (Lstat real)) (\<lambda>st. case st of
           None \<Rightarrow> Ret (Error kNotFound, sv)
         | Some st \<Rightarrow>
             pbind (sys_status (if S_ISDIR (s_mode st) then Rmdir real else Unlink real))
               (mutated sv (MakeUnlinkReply 0)))))"

definition HandleRename :: "server \<Rightarrow> bytes \<Rightarrow> Frame serving" where
  "HandleRename sv payload =
    (if \<not> fWritable sv then Ret (Error kAccessDenied, sv)
     else case DecodeRenameRequest payload of
       None \<Rightarrow> Ret (Error kInvalidRequest, sv)
     | Some (src, dst) \<Rightarrow> pbind (ResolveForCreate sv src) (\<lambda>r. case r of
         Inl err \<Rightarrow> Ret (Error err, sv)
       | Inr fromReal \<Rightarrow> pbind (ResolveForCreate sv dst) (\<lambda>r. case r of
           Inl err \<Rightarrow> Ret (Error err, sv)
         | Inr toReal \<Rightarrow> pbind (sys_status (Rename fromReal toReal)) (mutated sv (MakeRenameReply 0)))))"

definition HandleTruncate :: "server \<Rightarrow> bytes \<Rightarrow> Frame serving" where
  "HandleTruncate sv payload =
    (if \<not> fWritable sv then Ret (Error kAccessDenied, sv)
     else case DecodeTruncateRequest payload of
       None \<Rightarrow> Ret (Error kInvalidRequest, sv)
     | Some (path, sz) \<Rightarrow> pbind (Resolve sv path) (\<lambda>r. case r of
         Inl err \<Rightarrow> Ret (Error err, sv)
       | Inr real \<Rightarrow> pbind (sys_status (Truncate real sz)) (mutated sv (MakeTruncateReply 0))))"

definition HandleReadAttrs :: "server \<Rightarrow> bytes \<Rightarrow> Frame serving" where
  "HandleReadAttrs sv payload = (case DecodePathRequest payload of
     None \<Rightarrow> Ret (Error kInvalidRequest, sv)
   | Some path \<Rightarrow> pbind (Resolve sv path) (\<lambda>r. case r of
       Inl err \<Rightarrow> Ret (Error err, sv)
     | Inr real \<Rightarrow> pbind (ReadAttrs sv real) (\<lambda>attrs. Ret (MakeReadAttrsReply attrs 0, sv))))"

definition HandleWriteAttrs :: "server \<Rightarrow> bytes \<Rightarrow> Frame serving" where
  "HandleWriteAttrs sv payload =
    (if \<not> fWritable sv then Ret (Error kAccessDenied, sv)
     else case DecodeWriteAttrsRequest payload of
       None \<Rightarrow> Ret (Error kInvalidRequest, sv)
     | Some (path, attrs) \<Rightarrow>
         if \<not> list_all (\<lambda>a. ValidAttrName (at_name a)) attrs then Ret (Error kInvalidRequest, sv)
         else pbind (Resolve sv path) (\<lambda>r. case r of
           Inl err \<Rightarrow> Ret (Error err, sv)
         | Inr real \<Rightarrow> pbind (WriteAttrs sv real attrs) (\<lambda>e. case e of
             Some err \<Rightarrow> Ret (Error err, sv)
           | None \<Rightarrow> Ret (MakeWriteAttrsReply 0, sv))))"

section \<open>Live queries\<close>

definition CloseQuerySession :: "server \<Rightarrow> u64 \<Rightarrow> server prog" where
  "CloseQuerySession sv queryId = (case map_of (fs_queries sv) queryId of
     None \<Rightarrow> Ret sv
   | Some q \<Rightarrow> pbind (sys_unit (QDelete q)) (\<lambda>_.
       Ret (sv\<lparr>fs_queries := AList.delete queryId (fs_queries sv)\<rparr>)))"

fun query_entries :: "server \<Rightarrow> string option list \<Rightarrow> Entry list \<Rightarrow> Entry list prog" where
  "query_entries sv [] entries = Ret entries"
| "query_entries sv (p # ps) entries =
    (if length entries \<ge> kQueryResultQuota then Ret entries
     else case p of
       None \<Rightarrow> query_entries sv ps entries
     | Some real \<Rightarrow>
         if \<not> starts_with (fRoot sv @ ''/'') real then query_entries sv ps entries
         else pbind (BuildEntry sv real (drop (length (fRoot sv @ ''/'')) real)) (\<lambda>e. case e of
           None \<Rightarrow> query_entries sv ps entries
         | Some entry \<Rightarrow> query_entries sv ps (entries @ [entry])))"

text \<open>The current match set, and the session of a live query (from \<open>GetNextRef\<close> on).\<close>

definition QueryReply :: "server \<Rightarrow> u64 \<Rightarrow> nat \<Rightarrow> bool \<Rightarrow> Frame serving" where
  "QueryReply sv queryId q live =
     pbind (sys_paths (QResults q)) (\<lambda>refs.
       pbind (query_entries sv refs []) (\<lambda>entries.
         pbind (if live
                then pbind (CloseQuerySession sv queryId) (\<lambda>sv.
                  Ret (sv\<lparr>fs_queries := AList.update queryId q (fs_queries sv)\<rparr>))
                else pbind (sys_unit (QDelete q)) (\<lambda>_. Ret sv)) (\<lambda>sv.
           Ret (MakeQueryResultReply queryId entries True 0, sv))))"

definition HandleQueryOpen :: "server \<Rightarrow> bytes \<Rightarrow> Frame serving" where
  "HandleQueryOpen sv payload = (case DecodeQueryOpenRequest payload of
     None \<Rightarrow> Ret (Error kInvalidRequest, sv)
   | Some (queryId, predicate) \<Rightarrow>
       if \<not> fs_haiku sv then Ret (Error kUnsupported, sv)
       else pbind (sys_volume (QVolume (fRoot sv))) (\<lambda>volume. case volume of
         NoVolume \<Rightarrow> Ret (Error kInternal, sv)
       | NoQueries \<Rightarrow> Ret (Error kUnsupported, sv)
       | Queries \<Rightarrow> let live = fs_sink sv in
           pbind (sys_query (QNew predicate)) (\<lambda>query. case query of
             None \<Rightarrow> Ret (Error kInvalidRequest, sv)
           | Some q \<Rightarrow> pbind (sys_bool (QFetch q live)) (\<lambda>fetched.
               if \<not> fetched then pbind (sys_unit (QDelete q)) (\<lambda>_. Ret (Error kInvalidRequest, sv))
               else QueryReply sv queryId q live))))"

definition HandleQueryClose :: "server \<Rightarrow> bytes \<Rightarrow> Frame serving" where
  "HandleQueryClose sv payload = (case DecodeQueryCloseRequest payload of
     None \<Rightarrow> Ret (Error kInvalidRequest, sv)
   | Some queryId \<Rightarrow>
       pbind (if fs_haiku sv then CloseQuerySession sv queryId else Ret sv) (\<lambda>sv.
         Ret (MakeQueryCloseReply 0, sv)))"

text \<open>
  A notification of a live query; \<open>created\<close> is \<open>opcode == B_ENTRY_CREATED\<close>. The result is the
  frame handed to the sink, if there is one.
\<close>

definition PushFrame :: "server \<Rightarrow> Frame \<Rightarrow> Frame option" where
  "PushFrame sv frame = (if fs_sink sv then Some frame else None)"

definition no_stat :: Stat where
  "no_stat = \<lparr>st_mode = 0, st_size = 0, st_mtime = 0, st_crtime = 0, st_inode = 0\<rparr>"

definition PushQueryUpdate :: "server \<Rightarrow> u64 \<Rightarrow> bool \<Rightarrow> u64 \<Rightarrow> u64 \<Rightarrow> string \<Rightarrow> Frame option prog" where
  "PushQueryUpdate sv queryId created device directory name =
    (if name = [] then Ret None
     else pbind (sys_path (QResolve device directory name)) (\<lambda>path. case path of
       None \<Rightarrow> Ret None
     | Some real \<Rightarrow>
         if \<not> starts_with (fRoot sv @ ''/'') real then Ret None
         else let rel = drop (length (fRoot sv @ ''/'')) real;
                  bare = \<lparr>en_name = rel, en_stat = no_stat, en_attrs = []\<rparr> in
           pbind (if created then BuildEntry sv real rel else Ret None) (\<lambda>e.
             Ret (PushFrame sv (MakeQueryUpdate queryId created
               (case e of None \<Rightarrow> bare | Some entry \<Rightarrow> entry) 0)))))"

section \<open>Handle, and the end of the server\<close>

definition Handle :: "server \<Rightarrow> Frame \<Rightarrow> Frame serving" where
  "Handle sv request =
    (let t = fr_type request; payload = fr_payload request in
     if t = kHello then Ret (MakeWelcome (fNodeId sv) 0, sv)
     else if t = kStat then HandleStat sv payload
     else if t = kList then HandleList sv payload
     else if t = kOpen then HandleOpen sv payload
     else if t = kRead then HandleRead sv payload
     else if t = kWrite then HandleWrite sv payload
     else if t = kClose then HandleClose sv payload
     else if t = kMkdir then HandleMkdir sv payload
     else if t = kUnlink then HandleUnlink sv payload
     else if t = kRename then HandleRename sv payload
     else if t = kTruncate then HandleTruncate sv payload
     else if t = kReadAttrs then HandleReadAttrs sv payload
     else if t = kWriteAttrs then HandleWriteAttrs sv payload
     else if t = kQueryOpen then HandleQueryOpen sv payload
     else if t = kQueryClose then HandleQueryClose sv payload
     else Ret (Error kUnsupported, sv))"

definition SetFrameSink :: "bool \<Rightarrow> server \<Rightarrow> server" where
  "SetFrameSink installed sv = sv\<lparr>fs_sink := installed\<rparr>"

primrec close_each :: "syscall list \<Rightarrow> unit prog" where
  "close_each [] = Ret ()"
| "close_each (c # cs) = pbind (sys_unit c) (\<lambda>_. close_each cs)"

definition CloseAllQuerySessions :: "server \<Rightarrow> server prog" where
  "CloseAllQuerySessions sv = pbind (close_each (map (\<lambda>(k, q). QDelete q) (fs_queries sv))) (\<lambda>_.
     Ret (sv\<lparr>fs_queries := []\<rparr>))"

definition FileServer_destroy :: "server \<Rightarrow> unit prog" where
  "FileServer_destroy sv =
     pbind (if fs_haiku sv then CloseAllQuerySessions sv else Ret sv) (\<lambda>sv.
       close_each (map (\<lambda>(h, f). Close (of_fd f)) (fOpen sv)))"

record server_factory =
  ff_root :: string
  ff_nodeId :: NodeIdentity
  ff_writable :: bool

definition FileServerFactory :: "string \<Rightarrow> NodeIdentity \<Rightarrow> bool \<Rightarrow> server_factory prog" where
  "FileServerFactory root nodeId writable = pbind (sys_path (Realpath root)) (\<lambda>resolved.
     Ret \<lparr>ff_root = (case resolved of None \<Rightarrow> [] | Some r \<Rightarrow> r), ff_nodeId = nodeId, ff_writable = writable\<rparr>)"

definition FileServerFactory_IsValid :: "server_factory \<Rightarrow> bool" where
  "FileServerFactory_IsValid f = (ff_root f \<noteq> [])"

definition FileServerFactory_Create :: "bool \<Rightarrow> server_factory \<Rightarrow> server option" where
  "FileServerFactory_Create haiku f =
    (if ff_root f = [] then None else Some (FileServer haiku (ff_root f) (ff_nodeId f) (ff_writable f)))"

end
