(* ===== verification/ServerPolicy.thy ===== *)
theory ServerPolicy
  imports FileServer
begin

text \<open>
  Statements about every call the file server makes. The interface \<open>call_policy\<close> lists what must be
  known of the calls; inside it every handler of \<open>FileServer.cpp\<close> is followed once. Its
  interpretations are the policies: confinement to the shared root, no writes on a read-only
  server, no call that follows an unresolved link, file descriptors of the server's own only,
  and a bounded table of open files.
\<close>

section \<open>Policies on the calls of the server\<close>

definition within :: "string \<Rightarrow> string \<Rightarrow> bool" where
  "within root p \<longleftrightarrow> p = root \<or> starts_with (root_prefix root) p"

definition plain_name :: "string \<Rightarrow> bool" where
  "plain_name n \<longleftrightarrow> n \<noteq> [] \<and> n \<noteq> ''.'' \<and> n \<noteq> ''..'' \<and> CHR ''/'' \<notin> set n"

definition join_path :: "string \<Rightarrow> string \<Rightarrow> string" where
  "join_path d l = (if d = ''/'' then ''/'' @ l else d @ ''/'' @ l)"

definition stored :: "server \<Rightarrow> fd \<Rightarrow> bool \<Rightarrow> server" where
  "stored sv fd w = sv\<lparr>fNextHandle := fNextHandle sv + 1,
     fOpen := AList.update (fNextHandle sv) \<lparr>of_fd = fd, of_writable = w\<rparr> (fOpen sv)\<rparr>"

text \<open>The requests of one connection, one after the other.\<close>

primrec serve :: "server \<Rightarrow> Frame list \<Rightarrow> Frame list serving" where
  "serve sv [] = Ret ([], sv)"
| "serve sv (f # fs) = pbind (Handle sv f) (\<lambda>(reply, sv').
     pbind (serve sv' fs) (\<lambda>(replies, sv''). Ret (reply # replies, sv'')))"

text \<open>A reply is an ERROR or has the type that answers the request.\<close>

definition reply_for :: "message_type \<Rightarrow> Frame \<Rightarrow> bool" where
  "reply_for t reply \<longleftrightarrow> fr_version reply = kProtocolVersion \<and> (fr_type reply = kError \<or> fr_type reply = t)"

lemma reply_for_simps [simp]:
  "reply_for t (Error c)" "reply_for t (mkFrame t rid p)"
  "reply_for kMkdir (MakeMkdirReply rid)" "reply_for kUnlink (MakeUnlinkReply rid)"
  "reply_for kRename (MakeRenameReply rid)" "reply_for kTruncate (MakeTruncateReply rid)"
  "reply_for kReadAttrs (MakeReadAttrsReply as rid)" "reply_for kWriteAttrs (MakeWriteAttrsReply rid)"
  "reply_for kQueryResult (MakeQueryResultReply qid es d rid)" "reply_for kQueryClose (MakeQueryCloseReply rid)"
  "reply_for kWelcome (MakeWelcome ni rid)"
  by (simp_all add: reply_for_def Error_def mkFrame_def MakeMkdirReply_def MakeUnlinkReply_def
    MakeRenameReply_def MakeTruncateReply_def MakeReadAttrsReply_def MakeWriteAttrsReply_def
    MakeQueryResultReply_def MakeQueryCloseReply_def MakeWelcome_def)

definition answer_type :: "message_type \<Rightarrow> message_type" where
  "answer_type t = (if t = kHello then kWelcome else if t = kQueryOpen then kQueryResult else t)"

lemma answer_type_simps [simp]:
  "answer_type kHello = kWelcome" "answer_type kQueryOpen = kQueryResult" "answer_type kStat = kStat"
  "answer_type kList = kList" "answer_type kOpen = kOpen" "answer_type kRead = kRead"
  "answer_type kWrite = kWrite" "answer_type kClose = kClose" "answer_type kMkdir = kMkdir"
  "answer_type kUnlink = kUnlink" "answer_type kRename = kRename" "answer_type kTruncate = kTruncate"
  "answer_type kReadAttrs = kReadAttrs" "answer_type kWriteAttrs = kWriteAttrs"
  "answer_type kQueryClose = kQueryClose"
  by (simp_all add: answer_type_def message_types)

text \<open>
  What must be known of the calls for one statement about all of them to hold of every handler.
  \<open>resolved\<close> are the paths \<open>Resolve\<close> returns, \<open>created\<close> those of \<open>ResolveForCreate\<close>, \<open>listed\<close> the
  entries of a directory or of a query.
\<close>

locale call_policy =
  fixes allowed :: "syscall \<Rightarrow> bool" and answers :: "syscall \<Rightarrow> reply \<Rightarrow> bool" and sv_ok :: "server \<Rightarrow> bool"
    and resolved :: "server \<Rightarrow> string \<Rightarrow> bool" and created :: "server \<Rightarrow> string \<Rightarrow> bool"
    and listed :: "server \<Rightarrow> string \<Rightarrow> bool"
  assumes realpath: "allowed (Realpath q)"
    and resolve: "sv_ok sv \<Longrightarrow> answers (Realpath q) (RPath (Some x)) \<Longrightarrow> within (fRoot sv) x \<Longrightarrow> resolved sv x"
    and create: "sv_ok sv \<Longrightarrow> resolved sv d \<Longrightarrow> plain_name l \<Longrightarrow> created sv (join_path d l)"
    and list_name: "sv_ok sv \<Longrightarrow> resolved sv d \<Longrightarrow> answers (Readdir d) (RNames (Some ns)) \<Longrightarrow> n \<in> set ns \<Longrightarrow>
        n \<noteq> ''.'' \<Longrightarrow> n \<noteq> ''..'' \<Longrightarrow> listed sv (d @ ''/'' @ n)"
    and list_query: "sv_ok sv \<Longrightarrow> answers (QResults qid) (RPaths ps) \<Longrightarrow> Some x \<in> set ps \<Longrightarrow>
        starts_with (fRoot sv @ ''/'') x \<Longrightarrow> listed sv x"
    and look: "sv_ok sv \<Longrightarrow> resolved sv x \<or> listed sv x \<Longrightarrow> allowed (Lstat x)"
    and read_dir: "sv_ok sv \<Longrightarrow> resolved sv x \<Longrightarrow> allowed (Readdir x)"
    and read_open: "sv_ok sv \<Longrightarrow> resolved sv x \<Longrightarrow> allowed (Open x [O_RDONLY])"
    and read_attrs: "sv_ok sv \<Longrightarrow> fs_haiku sv \<Longrightarrow> resolved sv x \<or> listed sv x \<Longrightarrow>
        allowed (AttrDir x) \<and> allowed (Open x [O_RDONLY])"
    and attr_fd: "answers (Open x fl) (RFd (Inr fd)) \<Longrightarrow>
        allowed (FsStatAttr fd n) \<and> allowed (FsReadAttr fd n ty k) \<and> allowed (Close fd)"
    and write_attr: "sv_ok sv \<Longrightarrow> fWritable sv \<Longrightarrow> answers (Open x fl) (RFd (Inr fd)) \<Longrightarrow> allowed (FsWriteAttr fd n ty v)"
    and write_open: "sv_ok sv \<Longrightarrow> fWritable sv \<Longrightarrow> created sv x \<Longrightarrow> acc = O_RDWR \<or> acc = O_WRONLY \<Longrightarrow>
        allowed (Open x [O_CREAT, O_TRUNC, O_NOFOLLOW, acc])"
    and mutate: "sv_ok sv \<Longrightarrow> fWritable sv \<Longrightarrow> created sv x \<Longrightarrow>
        allowed (Mkdir x m) \<and> allowed (Rmdir x) \<and> allowed (Unlink x) \<and> allowed (Lstat x)"
    and rename: "sv_ok sv \<Longrightarrow> fWritable sv \<Longrightarrow> created sv x \<Longrightarrow> created sv y \<Longrightarrow> allowed (Rename x y)"
    and truncate: "sv_ok sv \<Longrightarrow> fWritable sv \<Longrightarrow> resolved sv x \<Longrightarrow> allowed (Truncate x sz)"
    and handle_fd: "sv_ok sv \<Longrightarrow> (h, f) \<in> set (fOpen sv) \<Longrightarrow>
        allowed (Pread (of_fd f) k off) \<and> allowed (Close (of_fd f)) \<and>
        (of_writable f \<longrightarrow> allowed (Pwrite (of_fd f) b off))"
    and queries: "sv_ok sv \<Longrightarrow> allowed (QVolume (fRoot sv)) \<and> allowed (QNew p) \<and> allowed (QFetch qid (fs_sink sv)) \<and>
        allowed (QResults qid) \<and> allowed (QDelete qid)"
    and keep_store: "sv_ok sv \<Longrightarrow> answers (Open x fl) (RFd (Inr fd)) \<Longrightarrow> (w \<longrightarrow> fWritable sv) \<Longrightarrow>
        length (fOpen sv) < kMaxOpenHandles \<Longrightarrow> sv_ok (stored sv fd w)"
    and keep_close: "sv_ok sv \<Longrightarrow> sv_ok (sv\<lparr>fOpen := AList.delete h (fOpen sv)\<rparr>)"
    and keep_queries: "sv_ok sv \<Longrightarrow> sv_ok (sv\<lparr>fs_queries := qs\<rparr>)"
begin

abbreviation holds :: "'a prog \<Rightarrow> ('a \<Rightarrow> bool) \<Rightarrow> bool" where
  "holds \<equiv> wp allowed answers"

lemma holds_Resolve:
  assumes "sv_ok sv" "\<And>e. post (Inl e)" "\<And>x. resolved sv x \<Longrightarrow> post (Inr x)"
  shows "holds (Resolve sv p) post"
  using assms realpath resolve
  by (auto simp: Resolve_def wp_simps within_def split: reply.splits option.splits)

lemma after_slash_plain: "CHR ''/'' \<notin> set (after_slash p)"
  by (auto simp: after_slash_def dest: set_takeWhileD)

lemma holds_ResolveForCreate:
  assumes sv: "sv_ok sv" and l: "\<And>e. post (Inl e)" and r: "\<And>x. created sv x \<Longrightarrow> post (Inr x)"
  shows "holds (ResolveForCreate sv p) post"
proof -
  let ?leaf = "after_slash (trim_slashes p)"
  have "holds (Resolve sv q) (\<lambda>r. holds (case r of
      Inl err \<Rightarrow> Ret (Inl err) | Inr d \<Rightarrow> Ret (Inr (if d = ''/'' then ''/'' @ ?leaf else d @ ''/'' @ ?leaf))) post)"
    if "plain_name ?leaf" for q
    using create [OF sv _ that] l r by (intro holds_Resolve [OF sv]) (auto simp: join_path_def)
  then show ?thesis using l after_slash_plain [of "trim_slashes p"]
    by (auto simp: ResolveForCreate_def wp_pbind plain_name_def Let_def)
qed

lemma holds_write_attr_list:
  assumes "sv_ok sv" "fWritable sv" "answers (Open x fl) (RFd (Inr fd))" "\<And>e. post e"
  shows "holds (write_attr_list fd as) post"
  using assms write_attr
  by (induction as) (auto simp: wp_simps split: reply.splits)

lemma holds_WriteAttrs:
  assumes "sv_ok sv" "fWritable sv" "resolved sv x" "\<And>e. post e"
  shows "holds (WriteAttrs sv x as) post"
  using assms read_open attr_fd holds_write_attr_list [OF assms(1,2)]
  by (auto simp: WriteAttrs_def wp_simps split: reply.splits sum.splits)

lemma holds_read_attr_list:
  assumes "answers (Open x fl) (RFd (Inr fd))" "\<And>e. post e"
  shows "holds (read_attr_list fd ns out) post"
  using assms attr_fd
  by (induction fd ns out rule: read_attr_list.induct)
    (auto simp: wp_simps split: reply.splits option.splits prod.splits)

lemma holds_ReadAttrs:
  assumes "sv_ok sv" "resolved sv x \<or> listed sv x" "\<And>e. post e"
  shows "holds (ReadAttrs sv x) post"
  using assms read_attrs attr_fd holds_read_attr_list
  by (auto simp: ReadAttrs_def wp_simps split: reply.splits sum.splits option.splits)

lemma holds_BuildEntry:
  assumes "sv_ok sv" "resolved sv x \<or> listed sv x" "\<And>e. post e"
  shows "holds (BuildEntry sv x n) post"
  using assms look
  by (auto simp: BuildEntry_def wp_simps intro!: holds_ReadAttrs split: reply.splits option.splits)

lemma holds_list_entries:
  assumes "sv_ok sv" "\<And>n. n \<in> set ns \<Longrightarrow> n \<noteq> ''.'' \<Longrightarrow> n \<noteq> ''..'' \<Longrightarrow> listed sv (real @ ''/'' @ n)" "\<And>e. post e"
  shows "holds (list_entries sv real ns es) post"
  using assms(2)
proof (induction ns arbitrary: es)
  case (Cons n ns)
  then show ?case using assms(1,3)
    by (auto simp: wp_pbind intro!: holds_BuildEntry split: option.splits)
qed (simp add: assms(3))

lemma holds_query_entries:
  assumes "sv_ok sv" "\<And>x. Some x \<in> set ps \<Longrightarrow> starts_with (fRoot sv @ ''/'') x \<Longrightarrow> listed sv x" "\<And>e. post e"
  shows "holds (query_entries sv ps es) post"
  using assms(2)
proof (induction ps arbitrary: es)
  case (Cons p ps)
  then show ?case using assms(1,3)
    by (auto simp: wp_pbind intro!: holds_BuildEntry split: option.splits)
qed (simp add: assms(3))

abbreviation serves :: "message_type \<Rightarrow> Frame serving \<Rightarrow> bool" where
  "serves t m \<equiv> holds m (\<lambda>(reply, sv'). sv_ok sv' \<and> reply_for t reply)"

lemma serves_mutated: "sv_ok sv \<Longrightarrow> reply_for t reply \<Longrightarrow> serves t (mutated sv reply rc)"
  by (simp add: mutated_def split: option.split)

lemma holds_status:
  "allowed c \<Longrightarrow> (\<And>e. holds (f e) post) \<Longrightarrow> holds (pbind (sys_status c) f) post"
  by (auto simp: wp_simps split: reply.split)

lemma serves_Stat: "sv_ok sv \<Longrightarrow> serves kStat (HandleStat sv p)"
  by (auto simp: HandleStat_def wp_pbind intro!: holds_Resolve holds_BuildEntry split: option.splits)

lemma serves_List:
  assumes sv: "sv_ok sv"
  shows "serves kList (HandleList sv p)"
proof -
  have "serves kList (pbind (sys_stat (Lstat real)) (\<lambda>st. case st of
         None \<Rightarrow> Ret (Error kIOError, sv)
       | Some st \<Rightarrow>
           if \<not> S_ISDIR (s_mode st) then Ret (Error kNotADirectory, sv)
           else pbind (sys_names (Readdir real)) (\<lambda>dir. case dir of
             None \<Rightarrow> Ret (Error kIOError, sv)
           | Some names \<Rightarrow> pbind (list_entries sv real names []) (\<lambda>entries.
               Ret (mkFrame kList 0 (EncodeListing entries), sv)))))" if "resolved sv real" for real
    using sv that look read_dir list_name
    by (auto simp: wp_simps intro!: holds_list_entries split: reply.splits option.splits)
  then show ?thesis using sv
    by (auto simp: HandleList_def wp_pbind intro!: holds_Resolve split: option.splits)
qed

lemma store_handle_alt: "store_handle sv fd w sz = (mkFrame kOpen 0 (EncodeOpenReply (fNextHandle sv) sz), stored sv fd w)"
  by (simp add: store_handle_def stored_def Let_def)

lemma serves_Open:
  assumes sv: "sv_ok sv"
  shows "serves kOpen (HandleOpen sv p)"
proof -
  have w: "serves kOpen (pbind (sys_fd (Open real [O_CREAT, O_TRUNC, O_NOFOLLOW, if b then O_RDWR else O_WRONLY]))
               (\<lambda>fd. case fd of
                 Inl e \<Rightarrow> Ret (Error (ErrnoToCode e), sv)
               | Inr fd \<Rightarrow> Ret (store_handle sv fd True 0)))"
    if "created sv real" "fWritable sv" "length (fOpen sv) < kMaxOpenHandles" for real b
    using sv that write_open [OF sv that(2,1), of O_RDWR] write_open [OF sv that(2,1), of O_WRONLY] keep_store
    by (auto simp: wp_simps store_handle_alt split: reply.splits sum.splits)
  have r: "serves kOpen (pbind (sys_stat (Lstat real)) (\<lambda>st. case st of
             None \<Rightarrow> Ret (Error kIOError, sv)
           | Some st \<Rightarrow>
               if S_ISDIR (s_mode st) then Ret (Error kIsADirectory, sv)
               else pbind (sys_fd (Open real [O_RDONLY])) (\<lambda>fd. case fd of
                 Inl e \<Rightarrow> Ret (Error kIOError, sv)
               | Inr fd \<Rightarrow> Ret (store_handle sv fd False (s_size st)))))"
    if "resolved sv real" "length (fOpen sv) < kMaxOpenHandles" for real
    using sv that look read_open keep_store
    by (auto simp: wp_simps store_handle_alt split: reply.splits sum.splits option.splits)
  show ?thesis
    using sv w [of _ True, simplified] w [of _ False, simplified] r
    by (auto simp: HandleOpen_def Let_def wp_pbind not_le intro!: holds_Resolve holds_ResolveForCreate
      split: option.splits)
qed

lemma serves_Read: "sv_ok sv \<Longrightarrow> serves kRead (HandleRead sv p)"
  using handle_fd by (auto simp: HandleRead_def wp_simps dest!: map_of_SomeD split: option.splits reply.splits)

lemma serves_Write: "sv_ok sv \<Longrightarrow> serves kWrite (HandleWrite sv p)"
  using handle_fd
  by (auto simp: HandleWrite_def wp_simps dest!: map_of_SomeD split: option.splits reply.splits sum.splits)

lemma serves_Close: "sv_ok sv \<Longrightarrow> serves kClose (HandleClose sv p)"
  using handle_fd keep_close
  by (auto simp: HandleClose_def wp_simps dest!: map_of_SomeD split: option.splits)

lemma serves_Mkdir: "sv_ok sv \<Longrightarrow> serves kMkdir (HandleMkdir sv p)"
  using mutate by (auto simp: HandleMkdir_def wp_pbind [of _ _ "ResolveForCreate _ _"]
    intro!: holds_ResolveForCreate holds_status serves_mutated split: option.splits)

lemma serves_Unlink:
  assumes sv: "sv_ok sv"
  shows "serves kUnlink (HandleUnlink sv p)"
proof -
  have "serves kUnlink (pbind (sys_stat (Lstat real)) (\<lambda>st. case st of
           None \<Rightarrow> Ret (Error kNotFound, sv)
         | Some st \<Rightarrow>
             pbind (sys_status (if S_ISDIR (s_mode st) then Rmdir real else Unlink real))
               (mutated sv (MakeUnlinkReply 0))))" if "fWritable sv" "created sv real" for real
    using mutate [OF sv that] sv
    by (auto simp: sys_stat_def intro!: holds_status serves_mutated split: reply.splits option.splits)
  then show ?thesis using sv
    by (auto simp: HandleUnlink_def wp_pbind [of _ _ "ResolveForCreate _ _"]
      intro!: holds_ResolveForCreate split: option.splits)
qed

lemma serves_Rename: "sv_ok sv \<Longrightarrow> serves kRename (HandleRename sv p)"
  using rename by (auto simp: HandleRename_def wp_pbind [of _ _ "ResolveForCreate _ _"]
    intro!: holds_ResolveForCreate holds_status serves_mutated split: option.splits)

lemma serves_Truncate: "sv_ok sv \<Longrightarrow> serves kTruncate (HandleTruncate sv p)"
  using truncate by (auto simp: HandleTruncate_def wp_pbind [of _ _ "Resolve _ _"]
    intro!: holds_Resolve holds_status serves_mutated split: option.splits)

lemma serves_ReadAttrs: "sv_ok sv \<Longrightarrow> serves kReadAttrs (HandleReadAttrs sv p)"
  by (auto simp: HandleReadAttrs_def wp_pbind intro!: holds_Resolve holds_ReadAttrs split: option.splits)

lemma serves_WriteAttrs: "sv_ok sv \<Longrightarrow> serves kWriteAttrs (HandleWriteAttrs sv p)"
  by (auto simp: HandleWriteAttrs_def wp_pbind intro!: holds_Resolve holds_WriteAttrs split: option.splits)

lemma holds_CloseQuerySession:
  "sv_ok sv \<Longrightarrow> (\<And>qs. sv_ok (sv\<lparr>fs_queries := qs\<rparr>) \<Longrightarrow> post (sv\<lparr>fs_queries := qs\<rparr>)) \<Longrightarrow> post sv \<Longrightarrow>
   holds (CloseQuerySession sv qid) post"
  using queries keep_queries by (auto simp: CloseQuerySession_def wp_simps split: option.splits)

lemma serves_QueryClose: "sv_ok sv \<Longrightarrow> serves kQueryClose (HandleQueryClose sv p)"
  by (auto simp: HandleQueryClose_def wp_pbind intro!: holds_CloseQuerySession split: option.splits)

lemma serves_QueryReply:
  assumes sv: "sv_ok sv"
  shows "serves kQueryResult (QueryReply sv qid q live)"
proof -
  have fin: "serves t (pbind (if live then pbind (CloseQuerySession sv qid) (\<lambda>sv.
                            Ret (sv\<lparr>fs_queries := AList.update qid q (fs_queries sv)\<rparr>))
                          else pbind (sys_unit (QDelete q)) (\<lambda>_. Ret sv)) (\<lambda>sv.
                     Ret (reply, sv)))" if "reply_for t reply" for t reply
    using sv that queries keep_queries
    by (auto simp: wp_pbind sys_unit_def intro!: holds_CloseQuerySession)
  show ?thesis
    unfolding QueryReply_def wp_pbind [of _ _ "query_entries _ _ _"] wp_pbind [of _ _ "sys_paths _"]
    using sv queries list_query fin by (auto simp: sys_paths_def intro!: holds_query_entries split: reply.splits)
qed

lemma serves_QueryOpen: "sv_ok sv \<Longrightarrow> serves kQueryResult (HandleQueryOpen sv p)"
  using queries
  by (auto simp: HandleQueryOpen_def sys_volume_def sys_query_def sys_bool_def sys_unit_def Let_def
    intro!: serves_QueryReply split: option.splits reply.splits volume.splits)

text \<open>Every handler makes allowed calls only, and keeps the invariant.\<close>

lemma serves_Handle: "sv_ok sv \<Longrightarrow> serves (answer_type (fr_type request)) (Handle sv request)"
  unfolding Handle_def Let_def
  by (intro wp_if) (simp_all add: serves_Stat serves_List serves_Open serves_Read serves_Write
    serves_Close serves_Mkdir serves_Unlink serves_Rename serves_Truncate serves_ReadAttrs
    serves_WriteAttrs serves_QueryOpen serves_QueryClose)

lemma serves_all:
  "sv_ok sv \<Longrightarrow> holds (serve sv reqs) (\<lambda>(replies, sv'). sv_ok sv' \<and>
     list_all2 (\<lambda>req reply. reply_for (answer_type (fr_type req)) reply) reqs replies)"
proof (induction reqs arbitrary: sv)
  case (Cons f fs)
  have "holds (serve sv (f # fs)) (\<lambda>(replies, sv'). sv_ok sv' \<and>
     list_all2 (\<lambda>req reply. reply_for (answer_type (fr_type req)) reply) (f # fs) replies)"
    unfolding serve.simps
  proof (rule wp_bind [OF serves_Handle [OF Cons.prems]])
    fix a assume "case a of (reply, sv') \<Rightarrow> sv_ok sv' \<and> reply_for (answer_type (fr_type f)) reply"
    then obtain reply sv' where a: "a = (reply, sv')" "sv_ok sv'" "reply_for (answer_type (fr_type f)) reply"
      by (cases a) auto
    show "holds (case a of (reply, sv') \<Rightarrow> pbind (serve sv' fs) (\<lambda>(replies, sv''). Ret (reply # replies, sv'')))
      (\<lambda>(replies, sv'). sv_ok sv' \<and>
     list_all2 (\<lambda>req reply. reply_for (answer_type (fr_type req)) reply) (f # fs) replies)"
      using wp_mono [OF Cons.IH [OF a(2)]] a by (auto simp: wp_pbind elim!: wp_mono)
  qed
  then show ?case .
qed simp

lemma holds_close_each: "(\<And>c. c \<in> set cs \<Longrightarrow> allowed c) \<Longrightarrow> (\<And>u. post u) \<Longrightarrow> holds (close_each cs) post"
  by (induction cs) (auto simp: sys_unit_def)

lemma holds_destroy: "sv_ok sv \<Longrightarrow> holds (FileServer_destroy sv) (\<lambda>_. True)"
  using queries [of sv] handle_fd [of sv] keep_queries [of sv]
  by (auto simp: FileServer_destroy_def CloseAllQuerySessions_def wp_pbind intro!: holds_close_each)

end

text \<open>
  The interface the dispatcher and the pairing gate use: a handler whose calls are allowed and that
  answers every request. The file server provides it under every policy.
\<close>

locale handler_policy =
  fixes allowed :: "syscall \<Rightarrow> bool" and answers :: "syscall \<Rightarrow> reply \<Rightarrow> bool" and ok :: "'h \<Rightarrow> bool"
    and handle :: "'h \<Rightarrow> Frame \<Rightarrow> (Frame \<times> 'h) prog"
  assumes handles: "ok h \<Longrightarrow> wp allowed answers (handle h request)
      (\<lambda>(reply, h'). ok h' \<and> reply_for (answer_type (fr_type request)) reply)"

sublocale call_policy \<subseteq> serving: handler_policy allowed answers sv_ok Handle
  by unfold_locales (rule serves_Handle)

end
