(* ===== verification/ServerSafety.thy ===== *)
theory ServerSafety
  imports ServerPolicy
begin

text \<open>
  The policies of the file server, each an interpretation of \<open>call_policy\<close> on the handlers of
  \<open>FileServer.cpp\<close>, and what they give for all the requests of a connection.
\<close>

section \<open>Confinement to the shared root\<close>

text \<open>The components of a path, and paths without \<open>.\<close> and \<open>..\<close>.\<close>

fun split_path :: "string \<Rightarrow> string list" where
  "split_path [] = [[]]"
| "split_path (c # cs) = (if c = CHR ''/'' then [] # split_path cs
     else (c # hd (split_path cs)) # tl (split_path cs))"

definition no_dots :: "string \<Rightarrow> bool" where
  "no_dots p \<longleftrightarrow> list_all (\<lambda>x. x \<noteq> ''.'' \<and> x \<noteq> ''..'') (split_path p)"

definition inside :: "string \<Rightarrow> string \<Rightarrow> bool" where
  "inside root p \<longleftrightarrow> within root p \<and> no_dots p"

lemma split_path_nonempty [simp]: "split_path p \<noteq> []"
  by (induction p) auto

lemma split_path_join: "split_path (a @ CHR ''/'' # b) = split_path a @ split_path b"
  by (induction a) (auto simp: neq_Nil_conv)

lemma split_path_name: "CHR ''/'' \<notin> set n \<Longrightarrow> split_path n = [n]"
  by (induction n) auto

lemma no_dots_join:
  "no_dots d \<Longrightarrow> CHR ''/'' \<notin> set n \<Longrightarrow> n \<noteq> ''.'' \<Longrightarrow> n \<noteq> ''..'' \<Longrightarrow> no_dots (d @ CHR ''/'' # n)"
  by (simp add: no_dots_def split_path_join split_path_name)

lemma starts_with_iff: "starts_with p s \<longleftrightarrow> (\<exists>t. s = p @ t)"
  by (auto simp: starts_with_def) (metis append_take_drop_id)

lemma within_join: "within root d \<Longrightarrow> within root (d @ CHR ''/'' # n)"
  by (auto simp: within_def starts_with_iff root_prefix_def split: if_splits)

lemma within_slash: "within root ''/'' \<Longrightarrow> within root (CHR ''/'' # n)"
  by (cases root) (auto simp: within_def starts_with_iff root_prefix_def split: if_splits)

lemma within_query: "starts_with (root @ ''/'') x \<Longrightarrow> within root x"
  by (auto simp: within_def starts_with_iff root_prefix_def)

lemma inside_join:
  "inside root d \<Longrightarrow> CHR ''/'' \<notin> set n \<Longrightarrow> n \<noteq> ''.'' \<Longrightarrow> n \<noteq> ''..'' \<Longrightarrow> inside root (d @ CHR ''/'' # n)"
  by (simp add: inside_def within_join no_dots_join)

lemma inside_create: "inside root d \<Longrightarrow> plain_name l \<Longrightarrow> inside root (join_path d l)"
  using no_dots_join [of "[]" l] inside_join [of root d l] within_slash [of root l]
  by (auto simp: join_path_def plain_name_def inside_def no_dots_def)

lemma inside_query: "starts_with (root @ ''/'') x \<Longrightarrow> no_dots x \<Longrightarrow> inside root x"
  by (simp add: inside_def within_query)

lemma resolved_inside: "no_dots x \<Longrightarrow> within root x \<Longrightarrow> inside root x"
  by (simp add: inside_def)

text \<open>The paths a call reads or changes; \<open>Realpath\<close> only looks a path up.\<close>

fun touched :: "syscall \<Rightarrow> string list" where
  "touched (Lstat p) = [p]"
| "touched (Readdir p) = [p]"
| "touched (Open p _) = [p]"
| "touched (Mkdir p _) = [p]"
| "touched (Rmdir p) = [p]"
| "touched (Unlink p) = [p]"
| "touched (Rename p q) = [p, q]"
| "touched (Truncate p _) = [p]"
| "touched (AttrDir p) = [p]"
| "touched (ReadFile p) = [p]"
| "touched (WriteFile p _) = [p]"
| "touched (Chmod p _) = [p]"
| "touched _ = []"

text \<open>
  What the host documents of its replies: \<open>realpath\<close> and \<open>BPath\<close> return paths without \<open>.\<close> and
  \<open>..\<close>, and a directory entry's name has no slash.
\<close>

fun canonical_reply :: "syscall \<Rightarrow> reply \<Rightarrow> bool" where
  "canonical_reply (Realpath _) (RPath (Some x)) = no_dots x"
| "canonical_reply (QResults _) (RPaths ps) = list_all (\<lambda>p. case p of None \<Rightarrow> True | Some x \<Rightarrow> no_dots x) ps"
| "canonical_reply (QResolve _ _ _) (RPath (Some x)) = no_dots x"
| "canonical_reply (Readdir _) (RNames (Some ns)) = list_all (\<lambda>n. CHR ''/'' \<notin> set n) ns"
| "canonical_reply _ _ = True"

interpretation confined: call_policy "\<lambda>c. \<forall>p \<in> set (touched c). inside root p" canonical_reply
  "\<lambda>sv. fRoot sv = root" "\<lambda>sv. inside (fRoot sv)" "\<lambda>sv. inside (fRoot sv)" "\<lambda>sv. inside (fRoot sv)" for root
  by unfold_locales
    (auto simp: stored_def list_all_iff inside_create inside_join inside_query [unfolded append_Cons append_Nil]
      resolved_inside dest: bspec)

section \<open>No writes on a read-only server\<close>

fun mutating :: "syscall \<Rightarrow> bool" where
  "mutating (Open _ fl) = list_ex (\<lambda>x. x \<in> {O_WRONLY, O_RDWR, O_CREAT, O_TRUNC}) fl"
| "mutating (Pwrite _ _ _) = True"
| "mutating (Mkdir _ _) = True"
| "mutating (Rmdir _) = True"
| "mutating (Unlink _) = True"
| "mutating (Rename _ _) = True"
| "mutating (Truncate _ _) = True"
| "mutating (FsWriteAttr _ _ _ _) = True"
| "mutating (WriteFile _ _) = True"
| "mutating (Chmod _ _) = True"
| "mutating _ = False"

definition read_only :: "server \<Rightarrow> bool" where
  "read_only sv \<longleftrightarrow> \<not> fWritable sv \<and> (\<forall>(h, f) \<in> set (fOpen sv). \<not> of_writable f)"

lemma set_AList_update: "set (AList.update k v al) \<subseteq> insert (k, v) (set al)"
  by (induction al) auto

lemma set_AList_delete: "set (AList.delete k al) \<subseteq> set al"
  by (auto simp: AList.delete_eq)

interpretation untouched: call_policy "\<lambda>c. \<not> mutating c" "\<lambda>_ _. True" read_only
  "\<lambda>_ _. True" "\<lambda>_ _. True" "\<lambda>_ _. True"
  by unfold_locales
    (auto simp: read_only_def stored_def dest!: subsetD [OF set_AList_update] subsetD [OF set_AList_delete])

section \<open>Links are followed on resolved paths only\<close>

fun follows :: "syscall \<Rightarrow> string list" where
  "follows (Open p fl) = (if O_NOFOLLOW \<in> set fl then [] else [p])"
| "follows (Readdir p) = [p]"
| "follows (Truncate p _) = [p]"
| "follows (AttrDir p) = [p]"
| "follows (ReadFile p) = [p]"
| "follows (WriteFile p _) = [p]"
| "follows (Chmod p _) = [p]"
| "follows _ = []"

fun resolves_to :: "(string \<Rightarrow> bool) \<Rightarrow> syscall \<Rightarrow> reply \<Rightarrow> bool" where
  "resolves_to R (Realpath _) (RPath (Some x)) = R x"
| "resolves_to R _ _ = True"

interpretation unlinked: call_policy "\<lambda>c. \<forall>p \<in> set (follows c). R p" "resolves_to R"
  "\<lambda>sv. \<not> fs_haiku sv" "\<lambda>_. R" "\<lambda>_ _. True" "\<lambda>_ _. True" for R
  by unfold_locales (auto simp: stored_def)

section \<open>Only descriptors the system gave\<close>

fun used_fds :: "syscall \<Rightarrow> fd list" where
  "used_fds (Pread d _ _) = [d]"
| "used_fds (Pwrite d _ _) = [d]"
| "used_fds (Close d) = [d]"
| "used_fds (FsStatAttr d _) = [d]"
| "used_fds (FsReadAttr d _ _ _) = [d]"
| "used_fds (FsWriteAttr d _ _ _) = [d]"
| "used_fds _ = []"

fun opens_to :: "(fd \<Rightarrow> bool) \<Rightarrow> syscall \<Rightarrow> reply \<Rightarrow> bool" where
  "opens_to F (Open _ _) (RFd (Inr d)) = F d"
| "opens_to F _ _ = True"

interpretation descriptors: call_policy "\<lambda>c. \<forall>d \<in> set (used_fds c). F d" "opens_to F"
  "\<lambda>sv. \<forall>(h, f) \<in> set (fOpen sv). F (of_fd f)" "\<lambda>_ _. True" "\<lambda>_ _. True" "\<lambda>_ _. True" for F
  by unfold_locales
    (auto simp: stored_def dest!: subsetD [OF set_AList_update] subsetD [OF set_AList_delete])

section \<open>The table of open files\<close>

definition table_ok :: "server \<Rightarrow> bool" where
  "table_ok sv \<longleftrightarrow> distinct (map fst (fOpen sv)) \<and> length (fOpen sv) \<le> kMaxOpenHandles \<and>
     (\<forall>(h, f) \<in> set (fOpen sv). of_writable f \<longrightarrow> fWritable sv)"

lemma length_AList_update: "length (AList.update k v al) \<le> Suc (length al)"
  by (induction al) auto

interpretation tabled: call_policy "\<lambda>_. True" "\<lambda>_ _. True" table_ok
  "\<lambda>_ _. True" "\<lambda>_ _. True" "\<lambda>_ _. True"
  by unfold_locales
    (auto simp: table_ok_def stored_def distinct_update distinct_delete
      intro: order_trans [OF length_AList_update] order_trans [OF length_delete_le]
      dest!: subsetD [OF set_AList_update] subsetD [OF set_AList_delete])

section \<open>No live query without a sink\<close>

interpretation quiet: call_policy "\<lambda>c. \<forall>q. c \<noteq> QFetch q True" "\<lambda>_ _. True" "\<lambda>sv. \<not> fs_sink sv"
  "\<lambda>_ _. True" "\<lambda>_ _. True" "\<lambda>_ _. True"
  by unfold_locales (auto simp: stored_def)

end
