(* ===== verification/ServerConnection.thy ===== *)
theory ServerConnection
  imports ServerSafety
begin

text \<open>
  What the policies give for all the requests of a connection, the life of a handle from OPEN to
  CLOSE, and two ways in which the Haiku build answers less or more than it means to.
\<close>

section \<open>The policies over a whole connection\<close>

lemma honest_all: "honest (\<lambda>_ _. True) sys"
  by (simp add: honest_def)

text \<open>
  C1: A peer stays inside the shared root. Whatever requests it sends and whatever the system
  answers (with canonical paths from realpath and slash-free directory entries), every path the
  server looks at, opens, lists, creates, renames, truncates or removes lies under the shared
  root and has no dot components.
\<close>

theorem server_confined:
  assumes "honest canonical_reply sys"
  shows "list_all (\<lambda>c. list_all (inside root) (touched c))
    (calls sys (serve (FileServer haiku root ni w) reqs) s)"
  using wp_run [OF assms confined.serves_all [of "FileServer haiku root ni w" root reqs]]
  by (simp add: FileServer_def list_all_iff)

text \<open>
  C2: A server started read-only changes nothing: over any sequence of requests it makes no call
  that writes, creates, removes, renames or truncates, and opens no file for writing.
\<close>

theorem read_only_server:
  "list_all (\<lambda>c. \<not> mutating c) (calls sys (serve (FileServer haiku root ni False) reqs) s)"
  using wp_run [OF honest_all untouched.serves_all [of "FileServer haiku root ni False" reqs], of sys s]
  by (simp add: FileServer_def list_all_iff read_only_def)

text \<open>
  On the portable build a link cannot redirect the server: every call that would follow a
  link in its last component is made on a path that \<open>realpath\<close> returned; the file that OPEN
  creates, whose last component was never resolved, is opened with \<open>O_NOFOLLOW\<close>.
\<close>

theorem links_resolved:
  "list_all (\<lambda>c. list_all (\<lambda>p. \<exists>q t. fst (sys (Realpath q) t) = RPath (Some p)) (follows c))
    (calls sys (serve (FileServer False root ni w) reqs) s)"
proof -
  let ?R = "\<lambda>p. \<exists>q t. fst (sys (Realpath q) t) = RPath (Some p)"
  have "honest (resolves_to ?R) sys"
    unfolding honest_def
  proof (intro allI)
    fix c t show "resolves_to ?R c (fst (sys c t))"
      by (cases "(?R, c, fst (sys c t))" rule: resolves_to.cases) (auto, blast)
  qed
  then show ?thesis
    using wp_run [OF _ unlinked.serves_all [of "FileServer False root ni w" ?R reqs], of sys s]
    by (simp add: FileServer_def list_all_iff)
qed

text \<open>
  The server reads, writes and closes only descriptors that the system gave it for a file it
  opened itself.
\<close>

theorem own_descriptors:
  "list_all (\<lambda>c. list_all (\<lambda>d. \<exists>p fl t. fst (sys (Open p fl) t) = RFd (Inr d)) (used_fds c))
    (calls sys (serve (FileServer haiku root ni w) reqs) s)"
proof -
  let ?F = "\<lambda>d. \<exists>p fl t. fst (sys (Open p fl) t) = RFd (Inr d)"
  have "honest (opens_to ?F) sys"
    unfolding honest_def
  proof (intro allI)
    fix c t show "opens_to ?F c (fst (sys c t))"
      by (cases "(?F, c, fst (sys c t))" rule: opens_to.cases) (auto, blast)
  qed
  then show ?thesis
    using wp_run [OF _ descriptors.serves_all [of "FileServer haiku root ni w" ?F reqs], of sys s]
    by (simp add: FileServer_def list_all_iff)
qed

text \<open>
  C3: After any requests the table of open files has one entry per handle, at most 256 entries,
  and a writable entry only on a writable server; and every request got exactly one reply, an
  ERROR or a frame of the type that answers it.
\<close>

theorem table_bounded:
  "(case result sys (serve (FileServer haiku root ni w) reqs) s of (replies, sv) \<Rightarrow>
     table_ok sv \<and> list_all2 (\<lambda>req reply. reply_for (answer_type (fr_type req)) reply) reqs replies)"
  using wp_run [OF honest_all tabled.serves_all [of "FileServer haiku root ni w" reqs], of sys s]
  by (simp add: FileServer_def table_ok_def)

section \<open>Handles\<close>

lemma run_sys [simp]:
  "run sys (pbind (sys_bytes c) f) s = (case sys c s of (r, s1) \<Rightarrow>
     (case run sys (f (case r of RBytes x \<Rightarrow> x | _ \<Rightarrow> None)) s1 of (a, s2, l) \<Rightarrow> (a, s2, c # l)))"
  "run sys (pbind (sys_unit c) g) s = (case sys c s of (r, s1) \<Rightarrow>
     (case run sys (g ()) s1 of (a, s2, l) \<Rightarrow> (a, s2, c # l)))"
  by (simp_all add: sys_bytes_def sys_unit_def)

lemma run_count [simp]:
  "run sys (pbind (sys_count c) g) s = (case sys c s of (r, s1) \<Rightarrow>
     (case run sys (g (case r of RCount x \<Rightarrow> x | _ \<Rightarrow> Inl (EOTHER 0))) s1 of (a, s2, l) \<Rightarrow> (a, s2, c # l)))"
  by (simp add: sys_count_def)

lemma Handle_Read: "Handle sv (MakeReadRequest h off len rid) = HandleRead sv (EncodeReadRequest h off len)"
  by (simp add: Handle_def MakeReadRequest_def mkFrame_def message_types)

lemma Handle_Write: "Handle sv (MakeWriteRequest h off dat rid) = HandleWrite sv (EncodeWriteRequest h off dat)"
  by (simp add: Handle_def MakeWriteRequest_def mkFrame_def message_types)

lemma Handle_Close: "Handle sv (MakeCloseRequest h rid) = HandleClose sv (EncodeCloseRequest h)"
  by (simp add: Handle_def MakeCloseRequest_def mkFrame_def message_types)

lemma unknown_handle:
  assumes "map_of (fOpen sv) h = None"
  shows "read_length_ok len \<Longrightarrow> Handle sv (MakeReadRequest h off len rid) = Ret (Error kBadHandle, sv)"
    and "write_data_ok dat \<Longrightarrow> Handle sv (MakeWriteRequest h off dat rid) = Ret (Error kBadHandle, sv)"
    and "Handle sv (MakeCloseRequest h rid) = Ret (Error kBadHandle, sv)"
  using assms
  by (simp_all add: Handle_Read Handle_Write Handle_Close HandleRead_def HandleWrite_def HandleClose_def
    read_request_msg_back write_request_msg_back close_request_msg_back)

text \<open>
  CLOSE closes the descriptor of its handle, once, and the handle is dead afterwards: a read,
  a write or a second close on it is answered with kBadHandle without any call to the system.
\<close>

theorem closed_handle_dead:
  assumes "map_of (fOpen sv) h = Some f" and "read_length_ok len" and "write_data_ok dat"
  shows "let sv' = sv\<lparr>fOpen := AList.delete h (fOpen sv)\<rparr> in
    run sys (Handle sv (MakeCloseRequest h rid)) s =
      ((mkFrame kClose 0 EncodeOk, sv'), snd (sys (Close (of_fd f)) s), [Close (of_fd f)]) \<and>
    Handle sv' (MakeReadRequest h off len rid) = Ret (Error kBadHandle, sv') \<and>
    Handle sv' (MakeWriteRequest h off dat rid) = Ret (Error kBadHandle, sv') \<and>
    Handle sv' (MakeCloseRequest h rid) = Ret (Error kBadHandle, sv')"
  using assms unknown_handle [of "sv\<lparr>fOpen := AList.delete h (fOpen sv)\<rparr>" h]
  by (auto simp: Let_def Handle_Close HandleClose_def close_request_msg_back delete_conv split: prod.split)

text \<open>
  READ on an open handle is one \<open>pread\<close> on that handle's descriptor, with the offset and length of
  the request, and the reply decodes to exactly the bytes the system returned.
\<close>

theorem read_returns_pread:
  assumes "map_of (fOpen sv) h = Some f" and "read_length_ok len"
    and "sys (Pread (of_fd f) (unat len) off) s = (RBytes (Some b), s')" and "length b \<le> unat len"
  shows "\<exists>reply. run sys (Handle sv (MakeReadRequest h off len rid)) s =
      ((reply, sv), s', [Pread (of_fd f) (unat len) off]) \<and>
    fr_type reply = kRead \<and> DecodeReadReply (fr_payload reply) = Some b"
proof -
  have "read_data_ok b" using assms(2,4) by (simp add: read_length_ok_def read_data_ok_def)
  then show ?thesis using assms
    by (simp add: Handle_Read HandleRead_def read_request_msg_back read_reply_msg_back mkFrame_def)
qed

text \<open>
  WRITE on a handle opened read-only is refused without a call to the system; on a writable
  handle it is one \<open>pwrite\<close> of exactly the bytes of the request, and the reply carries its count.
\<close>

theorem write_needs_writable_handle:
  assumes "map_of (fOpen sv) h = Some f" and "write_data_ok dat"
    and "sys (Pwrite (of_fd f) dat off) s = (RCount (Inr n), s')" and "n \<le> length dat"
  shows "if of_writable f
     then \<exists>reply. run sys (Handle sv (MakeWriteRequest h off dat rid)) s =
         ((reply, sv), s', [Pwrite (of_fd f) dat off]) \<and>
       fr_type reply = kWrite \<and> DecodeWriteReply (fr_payload reply) = Some (word_of_nat n)
     else Handle sv (MakeWriteRequest h off dat rid) = Ret (Error kAccessDenied, sv)"
  using assms
  by (simp add: Handle_Write HandleWrite_def write_request_msg_back write_reply_msg_back mkFrame_def)

text \<open>Handles are given out in order and are not reused.\<close>

definition fresh_handles :: "server \<Rightarrow> bool" where
  "fresh_handles sv \<longleftrightarrow> list_all (\<lambda>(h, f). h < fNextHandle sv) (fOpen sv)"

lemma wp_any: "(\<And>a. post a) \<Longrightarrow> wp (\<lambda>_. True) Q m post"
  by (induction m) simp_all

definition opened :: "server \<Rightarrow> u32 \<Rightarrow> Frame \<times> server \<Rightarrow> bool" where
  "opened sv mode = (\<lambda>(reply, sv'). fr_type reply = kError \<and> sv' = sv \<or>
     (\<exists>fd sz. reply = mkFrame kOpen 0 (EncodeOpenReply (fNextHandle sv) sz) \<and>
        sv' = stored sv fd (mode AND kOpenWrite \<noteq> 0)))"

lemma opened_simps [simp]: "opened sv mode (Error c, sv)"
  by (simp add: opened_def Error_def mkFrame_def)

lemma opened_store: "w = (mode AND kOpenWrite \<noteq> 0) \<Longrightarrow> opened sv mode (store_handle sv fd w sz)"
  by (auto simp: opened_def store_handle_def stored_def Let_def)

lemma HandleOpen_opened:
  assumes "DecodeOpenRequest p = Some (path, mode)"
  shows "wp (\<lambda>_. True) (\<lambda>_ _. True) (HandleOpen sv p) (opened sv mode)"
  using assms
  by (auto simp: HandleOpen_def Let_def wp_pbind opened_store intro!: wp_any
    split: option.splits sum.splits)

lemma stored_fresh:
  assumes "fresh_handles sv" and "fNextHandle sv < - 1"
  shows "map_of (fOpen sv) (fNextHandle sv) = None" and "fresh_handles (stored sv fd w)"
proof -
  have "unat (fNextHandle sv) < 2 ^ 64 - 1"
    using assms(2) by (simp add: word_less_nat_alt unsigned_minus_1_eq_mask mask_eq_exp_minus_1)
  then have "unat (fNextHandle sv + 1) = unat (fNextHandle sv) + 1"
    by (simp add: unat_word_ariths)
  then have step: "fNextHandle sv < fNextHandle sv + 1" by (simp add: word_less_nat_alt)
  show "map_of (fOpen sv) (fNextHandle sv) = None"
    using assms(1) by (auto simp: fresh_handles_def list_all_iff map_of_eq_None_iff)
  show "fresh_handles (stored sv fd w)"
    using assms(1) step
    by (auto simp: fresh_handles_def stored_def list_all_iff dest!: subsetD [OF set_AList_update] dest: order_less_trans)
qed

text \<open>
  A successful OPEN hands out the next handle, which no open file has, and adds exactly that
  file to the table, writable if and only if the request asked for it; the handles already given
  out keep their files. A refused OPEN leaves the server as it was.
\<close>

theorem open_gives_fresh_handle:
  assumes "fresh_handles sv" and "fNextHandle sv < - 1" and "path_ok path"
    and "result sys (Handle sv (MakeOpenRequest path mode rid)) s = (reply, sv')"
  shows "fr_type reply = kError \<and> sv' = sv \<or>
    (\<exists>fd sz. DecodeOpenReply (fr_payload reply) = Some (fNextHandle sv, sz) \<and>
       map_of (fOpen sv) (fNextHandle sv) = None \<and>
       map_of (fOpen sv') = (map_of (fOpen sv))
         (fNextHandle sv \<mapsto> \<lparr>of_fd = fd, of_writable = (mode AND kOpenWrite \<noteq> 0)\<rparr>) \<and>
       fresh_handles sv')"
proof -
  have "Handle sv (MakeOpenRequest path mode rid) = HandleOpen sv (EncodeOpenRequest path mode)"
    by (simp add: Handle_def MakeOpenRequest_def mkFrame_def message_types)
  then have "opened sv mode (reply, sv')"
    using wp_run [OF honest_all HandleOpen_opened [OF open_request_msg_back [OF assms(3)]]] assms(4) by metis
  then show ?thesis
    using stored_fresh [OF assms(1,2)]
    by (auto simp: opened_def open_reply_msg_back mkFrame_def stored_def update_conv')
qed

section \<open>Attributes of listed entries\<close>

lemma run_stat_names_fd [simp]:
  "run sys (pbind (sys_stat c) f1) s = (case sys c s of (r, s1) \<Rightarrow>
     (case run sys (f1 (case r of RStat x \<Rightarrow> x | _ \<Rightarrow> None)) s1 of (a, s2, l) \<Rightarrow> (a, s2, c # l)))"
  "run sys (pbind (sys_names c) f2) s = (case sys c s of (r, s1) \<Rightarrow>
     (case run sys (f2 (case r of RNames x \<Rightarrow> x | _ \<Rightarrow> None)) s1 of (a, s2, l) \<Rightarrow> (a, s2, c # l)))"
  "run sys (pbind (sys_fd c) f3) s = (case sys c s of (r, s1) \<Rightarrow>
     (case run sys (f3 (case r of RFd x \<Rightarrow> x | _ \<Rightarrow> Inl (EOTHER 0))) s1 of (a, s2, l) \<Rightarrow> (a, s2, c # l)))"
  by (simp_all add: sys_stat_def sys_names_def sys_fd_def)

lemma read_attr_list_looks_up_nothing:
  "wp (\<lambda>c. \<forall>q. c \<noteq> Realpath q) (\<lambda>_ _. True) (read_attr_list fd ns out) (\<lambda>_. True)"
  by (induction fd ns out rule: read_attr_list.induct)
    (auto simp: wp_simps split: option.splits prod.splits)

text \<open>
  On Haiku, LIST reads the attributes of a directory entry through its name as it stands, without
  resolving it and without \<open>O_NOFOLLOW\<close>: for an entry that is a link out of the shared root, the
  attributes sent are those of the file outside, which STAT of the same name refuses.
\<close>

theorem listed_link_followed:
  assumes "fs_haiku sv" and "n \<noteq> ''.''" and "n \<noteq> ''..''"
    and "sys (Lstat (real @ ''/'' @ n)) s = (RStat (Some st), s1)"
    and "sys (AttrDir (real @ ''/'' @ n)) s1 = (RNames (Some names), s2)"
  shows "let log = calls sys (list_entries sv real [n] []) s in
    AttrDir (real @ ''/'' @ n) \<in> set log \<and> Open (real @ ''/'' @ n) [O_RDONLY] \<in> set log \<and>
    list_all (\<lambda>c. \<forall>q. c \<noteq> Realpath q) log"
proof -
  let ?p = "real @ ''/'' @ n"
  have "wp (\<lambda>c. \<forall>q. c \<noteq> Realpath q) (\<lambda>_ _. True) (list_entries sv real [n] []) (\<lambda>_. True)"
    using read_attr_list_looks_up_nothing
    by (auto simp: BuildEntry_def ReadAttrs_def wp_simps split: option.splits sum.splits reply.splits
      intro: wp_mono)
  then have "list_all (\<lambda>c. \<forall>q. c \<noteq> Realpath q) (calls sys (list_entries sv real [n] []) s)"
    unfolding list_all_iff by (rule conjunct2 [OF wp_run [OF honest_all]])
  moreover have "{AttrDir ?p, Open ?p [O_RDONLY]} \<subseteq> set (calls sys (list_entries sv real [n] []) s)"
    using assms
    by (auto simp: calls_def kMaxEntriesPerReply_def BuildEntry_def ReadAttrs_def pbind_assoc
      split: prod.splits option.splits sum.splits)
  ultimately show ?thesis by (simp add: Let_def)
qed

text \<open>
  A live query on a server that shares the whole volume, with root \<open>/\<close>, finds nothing: the
  results are filtered by the prefix \<open>fRoot + "/"\<close>, which is \<open>//\<close> there.
\<close>

theorem query_on_volume_root_empty:
  assumes "fRoot sv = ''/''" and "list_all (\<lambda>p. case p of None \<Rightarrow> True | Some x \<Rightarrow> \<not> starts_with ''//'' x) refs"
  shows "query_entries sv refs [] = Ret []"
  using assms by (induction refs) (auto simp: kQueryResultQuota_def split: option.splits)

section \<open>The statements at work\<close>

text \<open>A host with a shared directory \<open>/srv\<close> that holds one file \<open>f\<close>.\<close>

definition sample_host :: "unit system" where
  "sample_host c s = ((case c of
     Realpath p \<Rightarrow> RPath (if p = ''/srv/'' then Some ''/srv'' else if p = ''/srv/f'' then Some ''/srv/f''
       else if p = ''/srv/../etc'' then Some ''/etc'' else None)
   | Lstat p \<Rightarrow> RStat (Some \<lparr>s_mode = (if p = ''/srv'' then 0x41ED else 0x81A4), s_size = 5, s_mtime = 0,
       s_crtime = 0, s_ino = 1\<rparr>)
   | Readdir _ \<Rightarrow> RNames (Some [''.'', ''..'', ''f''])
   | AttrDir _ \<Rightarrow> RNames (Some [])
   | Open _ _ \<Rightarrow> RFd (Inr 7)
   | Pread _ k _ \<Rightarrow> RBytes (Some (take k (bytes_of_string ''hello'')))
   | Pwrite _ b _ \<Rightarrow> RCount (Inr (length b))
   | _ \<Rightarrow> RStatus None), s)"

definition sample_node :: NodeIdentity where
  "sample_node = \<lparr>ni_version = 1, ni_fingerprint = replicate 32 0, ni_caps = [''bfs''], ni_node = ''beebox''\<rparr>"

definition sample_server :: server where
  "sample_server = (FileServer False ''/srv'' sample_node True)
     \<lparr>fNextHandle := 2, fOpen := [(1, \<lparr>of_fd = 7, of_writable = True\<rparr>)]\<rparr>"

lemma sample_host_canonical: "honest canonical_reply sample_host"
  unfolding honest_def
proof (intro allI)
  fix c s show "canonical_reply c (fst (sample_host c s))"
    by (cases c) (auto simp: sample_host_def no_dots_def split: if_splits)
qed

lemma server_confined_witness:
  "list_all (\<lambda>c. list_all (inside ''/srv'') (touched c))
    (calls sample_host (serve (FileServer False ''/srv'' sample_node True)
       [MakeListRequest ''/'' 1, MakeStatRequest ''/../etc'' 2]) ())"
  by (rule server_confined [OF sample_host_canonical])

end
