(* ===== verification/WireProps.thy ===== *)
theory WireProps
  imports Handshake Namespace Query
begin

text \<open>
  What the wire layer promises: the codec reads back what it wrote and nothing outside its buffer,
  the frame parser does not depend on how bytes arrive, and the messages survive the trip within
  the protocol's bounds.
\<close>

section \<open>The CBOR codec\<close>



text \<open>
  C6: The reader returns what the writer wrote, and stops right behind it, for every kind of item,
  at the full width of the integers and for texts and byte strings of any length.
\<close>

theorem reads_written:
  assumes "length b < 2 ^ 64" and "length s < 2 ^ 64" and "n \<le> length ys" and "n < 2 ^ 64"
  shows "ReadUInt (rdr pre (wUInt v [] @ ys)) = (Some v, rdr (pre @ wUInt v []) ys)
    \<and> ReadInt (rdr pre (wInt i [] @ ys)) = (Some i, rdr (pre @ wInt i []) ys)
    \<and> ReadBytes (rdr pre (wBytes b [] @ ys)) = (Some b, rdr (pre @ wBytes b []) ys)
    \<and> ReadText (rdr pre (wText s [] @ ys)) = (Some s, rdr (pre @ wText s []) ys)
    \<and> ReadBool (rdr pre (wBool t [] @ ys)) = (Some t, rdr (pre @ wBool t []) ys)
    \<and> ReadNull (rdr pre (wNull [] @ ys)) = (Some (), rdr (pre @ wNull []) ys)
    \<and> ReadArrayHeader (rdr pre (wArrayHeader n [] @ ys)) = (Some (word_of_nat n), rdr (pre @ wArrayHeader n []) ys)
    \<and> ReadMapHeader (rdr pre (wMapHeader n [] @ ys)) = (Some (word_of_nat n), rdr (pre @ wMapHeader n []) ys)"
  using assms by (simp add: wire_simps)

lemma be_value_bound: "length bs \<le> 8 \<Longrightarrow> unat (be_value bs) < 256 ^ length bs"
proof (induction bs rule: rev_induct)
  case (snoc b bs)
  have b: "unat b < 256" using unsigned_less [of b] by simp
  have IH: "unat (be_value bs) < 256 ^ length bs" using snoc by simp
  have "(256 :: nat) ^ Suc (length bs) \<le> 256 ^ 8" using snoc.prems by (intro power_increasing) auto
  then have lt: "unat (be_value bs) * 256 + unat b < 2 ^ 64" using IH b
    by (simp add: algebra_simps)
  have u: "unat (ucast b :: u64) = unat b" using b by (simp add: unat_ucast_small)
  have "push_bit 8 (be_value bs) = be_value bs * 256" by (simp add: push_bit_eq_mult)
  moreover have "be_value bs * 256 OR ucast b = be_value bs * 256 + (ucast b :: u64)"
  proof -
    have "be_value bs * 256 AND (ucast b :: u64) = 0"
      unfolding \<open>push_bit 8 (be_value bs) = be_value bs * 256\<close> [symmetric]
      by (rule bit_word_eqI) (auto simp: bit_simps dest: bit_imp_le_length)
    then show ?thesis by (simp add: disjunctive_add_eq_or)
  qed
  ultimately have "be_value (bs @ [b]) = be_value bs * 256 + ucast b"
    by (simp add: be_value_def)
  then have "unat (be_value (bs @ [b])) = unat (be_value bs) * 256 + unat b"
    using lt u by (simp add: unat_word_ariths)
  then show ?case using IH b by simp
qed (simp add: be_value_def)


text \<open>The writer uses the shortest head there is for a major type and argument.\<close>

theorem shortest_head:
  assumes "cbor_head m a h"
  shows "length (head_bytes m a) \<le> length h"
proof -
  obtain ib bs where h: "h = ib # bs" using assms by (cases h) auto
  show ?thesis
  proof (cases "a < 24")
    case True
    then show ?thesis by (simp add: head_bytes_def WriteTypeAndArg_def h)
  next
    case False
    have "\<not> ib AND 0x1F < 24"
    proof
      assume small: "ib AND 0x1F < 24"
      then have "a = ucast (ib AND 0x1F)" using assms h by simp
      moreover have "unat (ib AND 0x1F) < 24" using small by (simp add: word_less_nat_alt)
      ultimately have "unat a < 24" by (simp add: unat_ucast_small)
      then show False using False by (simp add: word_less_nat_alt)
    qed
    then have w: "arg_width (ib AND 0x1F) = Some (length bs)" "a = be_value bs"
      using assms h by (auto split: if_splits)
    then have n: "length bs \<in> {1, 2, 4, 8}" by (auto simp: arg_width_def split: if_splits)
    then have "unat a < 256 ^ length bs" using be_value_bound [of bs] w by auto
    then show ?thesis using n False
      by (auto simp: head_bytes_def WriteTypeAndArg_def h word_le_nat_alt Let_def)
  qed
qed


section \<open>Frames\<close>

lemma prefix_Short:
  assumes "frame_ok f" and "k < length (EncodeFrame f)"
  shows "split_frame (take k (EncodeFrame f)) = Short"
proof -
  let ?h = "take k (EncodeFrame f)" and ?d = "drop k (EncodeFrame f)"
  have whole: "split_frame (?h @ ?d) = Whole f []" using split_EncodeFrame [OF assms(1), of "[]"] by simp
  have "?d \<noteq> []" using assms(2) by simp
  then show ?thesis using split_frame_append [of ?h ?d] whole by (auto split: split_result.splits)
qed

text \<open>
  C7: However the bytes of a connection are cut into chunks, the parser delivers exactly the frames
  that were encoded, in order, and is left with the beginning of the next frame, without an error.
\<close>

theorem frames_any_chunking:
  assumes "list_all frame_ok fs" and "frame_ok f" and "k < length (EncodeFrame f)"
    and "concat cs = concat (map EncodeFrame fs) @ take k (EncodeFrame f)"
  shows "\<exists>q. feed_all cs FrameParser = (fs, q) \<and> \<not> Parser_HasError q \<and> Buffered q = k"
proof -
  have "split_all (pending FrameParser @ concat cs) = (fs, take k (EncodeFrame f), None)"
    using split_encoded_stream [of fs "take k (EncodeFrame f)"] prefix_Short [OF assms(2,3)] assms(1,4)
    by (simp add: FrameParser_init list_all_iff)
  then obtain q where q: "feed_all cs FrameParser = (fs, q)" "parser_inv q" "fp_ErrorMessage q = None"
      "pending q = take k (EncodeFrame f)"
    using feed_all_split [OF FrameParser_init(1,2)] by (force simp: FrameParser_init split_all.simps split_frame_def)
  moreover have "Buffered q = length (pending q)" by (simp add: Buffered_def pending_def)
  ultimately show ?thesis using assms(3) by (auto simp: Parser_HasError_def parser_inv_def)
qed

text \<open>
  What the parser makes of a stream, hostile or not, does not depend on how it arrived: two
  ways of cutting the same bytes give the same frames and the same latched error.
\<close>

theorem chunking_irrelevant:
  assumes "concat cs = concat ds"
  shows "fst (feed_all cs FrameParser) = fst (feed_all ds FrameParser) \<and>
    Parser_ErrorMessage (snd (feed_all cs FrameParser)) = Parser_ErrorMessage (snd (feed_all ds FrameParser))"
proof -
  obtain fs r e where "split_all (pending FrameParser @ concat cs) = (fs, r, e)" by (metis prod.collapse)
  then have "\<exists>q. feed_all xs FrameParser = (fs, q) \<and> parser_inv q \<and> fp_ErrorMessage q = e"
    if "concat xs = concat cs" for xs
    using feed_all_split [OF FrameParser_init(1,2), of xs fs r e] that
    by (force simp: FrameParser_init split_all.simps split_frame_def)
  from this [of cs] this [of ds] show ?thesis
    using assms by (auto simp: Parser_ErrorMessage_def parser_inv_def)
qed

section \<open>Messages\<close>

text \<open>
  A node identity is read back by the peer if and only if it is within the protocol's bounds: a
  version other than 0, a 32-byte fingerprint, a name of at most 128 bytes, at most 32 capabilities
  of at most 32 bytes.
\<close>

theorem node_identity_roundtrip:
  "DecodeNodeIdentity (EncodeNodeIdentity x) = Some x \<longleftrightarrow> node_ok x"
  using node_back node_decoded by blast

text \<open>
  A directory listing is read back by the client, entry for entry with its status and
  attributes, if and only if its entries are within the protocol's bounds.
\<close>

theorem listing_roundtrip:
  assumes "length (EncodeListing es) < 2 ^ 64"
  shows "DecodeListing (EncodeListing es) = Some es \<longleftrightarrow> entries_ok es"
  using listing_msg_back listing_msg_ok assms by blast

text \<open>
  The request and reply payloads of the file operations are read back as they were built.
\<close>

theorem file_ops_roundtrip:
  assumes "path_ok path" and "path_ok path2" and "read_length_ok len" and "read_data_ok d" and "write_data_ok e"
    and "length msg \<le> kMaxErrorMessageBytes"
  shows "DecodeOpenRequest (EncodeOpenRequest path mode) = Some (path, mode)
    \<and> DecodeOpenReply (EncodeOpenReply h sz) = Some (h, sz)
    \<and> DecodeReadRequest (EncodeReadRequest h off len) = Some (h, off, len)
    \<and> DecodeReadReply (EncodeReadReply d) = Some d
    \<and> DecodeWriteRequest (EncodeWriteRequest h off e) = Some (h, off, e)
    \<and> DecodeWriteReply (EncodeWriteReply n) = Some n
    \<and> DecodeCloseRequest (EncodeCloseRequest h) = Some h
    \<and> DecodeMkdirRequest (EncodeMkdirRequest path mode) = Some (path, mode)
    \<and> DecodeRenameRequest (EncodeRenameRequest path path2) = Some (path, path2)
    \<and> DecodeTruncateRequest (EncodeTruncateRequest path sz) = Some (path, sz)
    \<and> DecodePathRequest (EncodePathRequest path) = Some path
    \<and> DecodeError (EncodeError c msg) = Some \<lparr>er_code = c, er_message = msg\<rparr>
    \<and> DecodeOk EncodeOk"
  using assms
  by (simp add: open_request_msg_back open_reply_msg_back read_request_msg_back read_reply_msg_back
    write_request_msg_back write_reply_msg_back close_request_msg_back mkdir_request_msg_back
    rename_request_msg_back truncate_request_msg_back path_request_msg_back error_back DecodeOk_EncodeOk)

lemma distinct_count: "distinct xs \<longleftrightarrow> (\<forall>k. count_list xs k = (if k \<in> set xs then 1 else 0))"
proof (induction xs)
  case (Cons x xs)
  show ?case
  proof (cases "x \<in> set xs")
    case True
    then have "count_list xs x \<noteq> 0" by (simp add: count_list_0_iff)
    with True show ?thesis by auto
  next
    case False
    then show ?thesis using Cons by (auto simp: count_list_0_iff)
  qed
qed simp

text \<open>
  An OPEN request may carry its fields in any order, with any other well-formed fields between
  them; it is refused when \<open>mode\<close> or \<open>path\<close> is missing or repeated.
\<close>

theorem open_request_any_order:
  assumes "path_ok path" and "length (map_message fs) < 2 ^ 64"
    and "list_all (\<lambda>(k, b). if k = ''mode'' then b = wUInt (ucast mode) [] else if k = ''path'' then b = wText path []
      else cbor_item b) fs"
  shows "DecodeOpenRequest (map_message fs) =
    (if length (filter (\<lambda>k. k = ''mode'') (map fst fs)) = 1 \<and> length (filter (\<lambda>k. k = ''path'') (map fst fs)) = 1
     then Some (path, mode) else None)"
proof -
  let ?ks = "open_request_msg.known fs"
  have carries: "open_request_msg.carries (path, mode) fs"
    using assms(3) by (auto simp: open_request_msg.carries_def list_all_iff uint_bytes_def text_bytes_def split: if_splits)
  have count: "length (filter (\<lambda>x. x = k) (map fst fs)) = count_list ?ks k" if "k = ''mode'' \<or> k = ''path''" for k
    using that by (induction fs) (auto simp: open_request_msg.known_def)
  note cm = count [OF disjI1 [OF refl]] and cp = count [OF disjI2 [OF refl]]
  have sub: "set ?ks \<subseteq> {''mode'', ''path''}" by (auto simp: open_request_msg.known_def)
  show ?thesis unfolding cm cp
  proof (cases "distinct ?ks")
    case False
    then obtain k where "k \<in> set ?ks" "count_list ?ks k \<noteq> 1"
      by (metis count_list_0_iff distinct_count)
    then have n: "\<not> (count_list ?ks ''mode'' = 1 \<and> count_list ?ks ''path'' = 1)" using sub by auto
    have "DecodeOpenRequest (map_message fs) = None"
      using open_request_msg.decode_repeated [OF _ carries False] assms(1,2) unfolding DecodeOpenRequest_def by blast
    then show "DecodeOpenRequest (map_message fs) =
      (if count_list ?ks ''mode'' = 1 \<and> count_list ?ks ''path'' = 1 then Some (path, mode) else None)"
      using n by simp
  next
    case True
    have one: "count_list ?ks k = (if k \<in> set ?ks then 1 else 0)" for k
      using True unfolding distinct_count by (rule spec)
    show "DecodeOpenRequest (map_message fs) =
      (if count_list ?ks ''mode'' = 1 \<and> count_list ?ks ''path'' = 1 then Some (path, mode) else None)"
    proof (cases "{''mode'', ''path''} \<subseteq> set ?ks")
      case all: True
      then have "DecodeOpenRequest (map_message fs) = Some (path, mode)"
        using open_request_msg.decode_any_order [OF _ carries True] assms(1,2) unfolding DecodeOpenRequest_def by auto
      then show ?thesis using all by (simp add: one)
    next
      case missing: False
      then have "DecodeOpenRequest (map_message fs) = None"
        using open_request_msg.decode_missing [OF _ carries] assms(1,2) unfolding DecodeOpenRequest_def by blast
      moreover have "\<not> (count_list ?ks ''mode'' = 1 \<and> count_list ?ks ''path'' = 1)"
        using missing unfolding one by auto
      ultimately show ?thesis by simp
    qed
  qed
qed

section \<open>Hostile payloads\<close>

text \<open>
  A payload that a decoder accepts is a whole message: with any bytes appended it is refused.
  In particular no accepted message is the beginning of another.
\<close>

theorem trailing_bytes_rejected:
  assumes "zs \<noteq> []" and "length (p @ zs) < 2 ^ 64"
  shows "(DecodeOpenRequest p \<noteq> None \<longrightarrow> DecodeOpenRequest (p @ zs) = None)
    \<and> (DecodeReadRequest p \<noteq> None \<longrightarrow> DecodeReadRequest (p @ zs) = None)
    \<and> (DecodeWriteRequest p \<noteq> None \<longrightarrow> DecodeWriteRequest (p @ zs) = None)
    \<and> (DecodeCloseRequest p \<noteq> None \<longrightarrow> DecodeCloseRequest (p @ zs) = None)
    \<and> (DecodePathRequest p \<noteq> None \<longrightarrow> DecodePathRequest (p @ zs) = None)
    \<and> (DecodeMkdirRequest p \<noteq> None \<longrightarrow> DecodeMkdirRequest (p @ zs) = None)
    \<and> (DecodeRenameRequest p \<noteq> None \<longrightarrow> DecodeRenameRequest (p @ zs) = None)
    \<and> (DecodeTruncateRequest p \<noteq> None \<longrightarrow> DecodeTruncateRequest (p @ zs) = None)
    \<and> (DecodeWriteAttrsRequest p \<noteq> None \<longrightarrow> DecodeWriteAttrsRequest (p @ zs) = None)
    \<and> (DecodeNodeIdentity p \<noteq> None \<longrightarrow> DecodeNodeIdentity (p @ zs) = None)
    \<and> (DecodeError p \<noteq> None \<longrightarrow> DecodeError (p @ zs) = None)
    \<and> (DecodeListing p \<noteq> None \<longrightarrow> DecodeListing (p @ zs) = None)
    \<and> (DecodeQueryOpenRequest p \<noteq> None \<longrightarrow> DecodeQueryOpenRequest (p @ zs) = None)
    \<and> (DecodeQueryResultReply p \<noteq> None \<longrightarrow> DecodeQueryResultReply (p @ zs) = None)"
  unfolding DecodeOpenRequest_def DecodeReadRequest_def DecodeWriteRequest_def DecodeCloseRequest_def
    DecodePathRequest_def DecodeMkdirRequest_def DecodeRenameRequest_def DecodeTruncateRequest_def
    DecodeWriteAttrsRequest_def DecodeNodeIdentity_def DecodeError_def DecodeListing_def
    DecodeQueryOpenRequest_def DecodeQueryResultReply_def
  using open_request_msg.decode_whole [OF _ assms] read_request_msg.decode_whole [OF _ assms]
    write_request_msg.decode_whole [OF _ assms] close_request_msg.decode_whole [OF _ assms]
    path_request_msg.decode_whole [OF _ assms] mkdir_request_msg.decode_whole [OF _ assms]
    rename_request_msg.decode_whole [OF _ assms] truncate_request_msg.decode_whole [OF _ assms]
    write_attrs_msg.decode_whole [OF _ assms] node_bounds.decode_whole [OF _ assms]
    error_msg.decode_whole [OF _ assms] listing_msg.decode_whole [OF _ assms]
    query_open_msg.decode_whole [OF _ assms] query_result_msg.decode_whole [OF _ assms]
  by (intro conjI impI) (erule not_None_eq [THEN iffD1, THEN exE], blast)+


section \<open>Where the messages fall short\<close>

lemma rbind_fail: "fst (m r) = None \<Longrightarrow> fst (rbind m f r) = None"
  by (cases "m r") (simp add: rbind_def)

lemma rbind_fail_later: "m r = (Some a, r') \<Longrightarrow> fst (f a r') = None \<Longrightarrow> fst (rbind m f r) = None"
  by (simp add: rbind_def)

lemma decode_message_None: "fst (m (rdr [] p)) = None \<Longrightarrow> decode_message m p = None"
  by (cases "m (rdr [] p)") (simp add: decode_message_def CborReader_rdr)

lemma bad_entry_name:
  assumes "\<not> entry_name_ok (en_name e)" and "length (entry_bytes e @ ys) < 2 ^ 64"
  shows "fst (ReadEntry (rdr pre (entry_bytes e @ ys))) = None"
proof -
  have len: "length (en_name e) < 2 ^ 64"
    using assms(2) length_text_bytes [of "en_name e"]
    by (simp add: entry_bytes_canon entry_msg.canon_def map_message_def)
  let ?rest = "text_bytes (en_name e) @ text_bytes ''stat'' @ stat_bytes (en_stat e) @ text_bytes ''attrs'' @
      attrs_bytes (en_attrs e) @ ys"
  let ?init = "\<lparr>es_name = None, es_stat = None, es_attrs = None\<rparr>"
  have e: "entry_bytes e @ ys = map_bytes 3 @ text_bytes ''name'' @ ?rest"
    by (simp add: entry_bytes_def WriteEntry_def wire_simps)
  have head: "ReadMapHeader (rdr pre (entry_bytes e @ ys)) =
      (Some 3, rdr (pre @ map_bytes 3) (text_bytes ''name'' @ ?rest))"
    using ReadMapHeader_bytes [of 3 "text_bytes ''name'' @ ?rest" pre]
    by (simp only: e) (simp add: length_text_bytes_short)
  have key: "ReadText (rdr (pre @ map_bytes 3) (text_bytes ''name'' @ ?rest)) =
      (Some ''name'', rdr ((pre @ map_bytes 3) @ text_bytes ''name'') ?rest)"
    by (rule ReadText_bytes) simp
  have "ReadText (rdr q ?rest) = (Some (en_name e), rdr (q @ text_bytes (en_name e)) (text_bytes ''stat'' @
      stat_bytes (en_stat e) @ text_bytes ''attrs'' @ attrs_bytes (en_attrs e) @ ys))" for q
    by (rule ReadText_bytes [OF len])
  then have val: "fst (entry_field ''name'' ?init (rdr q ?rest)) = None" for q
    using assms(1) by (simp add: entry_field_def ReadEntryName_def checked_def rbind_def rfail_def)
  have "unat (3 :: u64) = Suc 2" by simp
  moreover have "fst (read_fields entry_field (Suc 2) ?init
      (rdr (pre @ map_bytes 3) (text_bytes ''name'' @ ?rest))) = None"
    unfolding read_fields.simps
    by (rule rbind_fail_later, rule key, rule rbind_fail, rule val)
  ultimately have "fst (read_fields entry_field (unat (3 :: u64)) ?init
      (rdr (pre @ map_bytes 3) (text_bytes ''name'' @ ?rest))) = None" by simp
  then show ?thesis
    unfolding ReadEntry_def read_map_def
    by - (rule rbind_fail_later, rule head, rule rbind_fail)
qed

lemma bad_item_fails:
  assumes "\<And>ys pre. length (enc b @ ys) < 2 ^ 64 \<Longrightarrow> fst (m (rdr pre (enc b @ ys))) = None"
    and "\<And>x ys pre. x \<in> set xs \<Longrightarrow> length (enc x @ ys) < 2 ^ 64 \<Longrightarrow>
        m (rdr pre (enc x @ ys)) = (Some x, rdr (pre @ enc x) ys)"
    and "length (concat (map enc xs) @ enc b @ ys) < 2 ^ 64"
  shows "fst (read_items m (length xs + Suc n) (rdr pre (concat (map enc xs) @ enc b @ ys))) = None"
  using assms(2,3)
proof (induction xs arbitrary: pre)
  case Nil
  have "fst (m (rdr pre (enc b @ ys))) = None" by (rule assms(1)) (use Nil in simp)
  then show ?case by (simp add: rbind_fail)
next
  case (Cons x xs)
  have x: "m (rdr pre (enc x @ concat (map enc xs) @ enc b @ ys)) =
      (Some x, rdr (pre @ enc x) (concat (map enc xs) @ enc b @ ys))"
    by (rule Cons.prems(1)) (use Cons.prems(2) in auto)
  have "fst (read_items m (length xs + Suc n) (rdr (pre @ enc x) (concat (map enc xs) @ enc b @ ys))) = None"
    by (rule Cons.IH) (use Cons.prems in auto)
  then show ?case using x by (simp add: rbind_fail_later rbind_fail)
qed

text \<open>
  QUERY\_RESULT names a match by its path relative to the root, but the client reads it as an entry
  name of at most 255 bytes: one match deeper than that, and the client rejects the whole reply,
  with all its other entries.
\<close>

theorem deep_match_loses_reply:
  assumes "list_all entry_ok es" and "kMaxEntryNameBytes < length (en_name e)"
    and "length (EncodeQueryResultReply qid (es @ e # es') fin) < 2 ^ 64"
  shows "DecodeQueryResultReply (EncodeQueryResultReply qid (es @ e # es') fin) = None"
proof -
  let ?all = "es @ e # es'"
  let ?init = "\<lparr>qr_done = None, qr_entries = None, qr_id = None\<rparr>"
  let ?tail = "text_bytes ''queryId'' @ uint_bytes qid"
  let ?items = "concat (map entry_bytes es) @ entry_bytes e @ concat (map entry_bytes es') @ ?tail"
  let ?rest = "array_bytes (length ?all) @ ?items"
  have enc: "EncodeQueryResultReply qid ?all fin = map_bytes 3 @ text_bytes ''done'' @ bool_bytes fin @
      text_bytes ''entries'' @ ?rest"
    by (simp add: EncodeQueryResultReply_def wire_simps entries_bytes_items)
  have len: "length ?rest < 2 ^ 64" using assms(3) unfolding enc by simp
  have bad: "\<not> entry_name_ok (en_name e)" using assms(2) by (simp add: entry_name_ok_def)
  have count: "length ?all \<le> length ?items"
  proof -
    have eb: "entry_bytes = (\<lambda>e. map_message (entry_msg.canon e))" by (simp add: fun_eq_iff entry_bytes_canon)
    show ?thesis using entry_msg.as_item.length_items [of ?all] unfolding eb by simp
  qed
  have items: "fst (read_items ReadEntry (length ?all) (rdr q ?items)) = None" for q
    using bad_item_fails [of entry_bytes e ReadEntry es "concat (map entry_bytes es') @ ?tail" "length es'" q]
      bad_entry_name [OF bad] ReadEntry_bytes assms(1) len by (simp add: list_all_iff)
  have small: "length ?all < 2 ^ 64" using count len by simp
  note size = size_of_length [OF small] small
  have "ReadArrayHeader (rdr q ?rest) = (Some (word_of_nat (length ?all)), rdr (q @ array_bytes (length ?all)) ?items)" for q
    by (rule ReadArrayHeader_bytes [OF count size(2)])
  then have array: "fst (ReadEntries (rdr q ?rest)) = None" for q
    using items [of "q @ array_bytes (length ?all)"] size(1)
    unfolding ReadEntries_def read_array_def
    by - (rule rbind_fail_later, assumption, simp add: rfail_def)
  have key2: "ReadText (rdr q (text_bytes ''entries'' @ ?rest)) = (Some ''entries'', rdr (q @ text_bytes ''entries'') ?rest)" for q
    by (rule ReadText_bytes) simp
  have field2: "query_result_field ''entries'' (?init\<lparr>qr_done := Some fin\<rparr>) =
      rbind ReadEntries (\<lambda>v. rret (?init\<lparr>qr_done := Some fin, qr_entries := Some v\<rparr>))"
    by (simp add: query_result_field_def)
  have fields1: "fst (read_fields query_result_field (Suc (Suc 0)) (?init\<lparr>qr_done := Some fin\<rparr>)
      (rdr q (text_bytes ''entries'' @ ?rest))) = None" for q
    unfolding read_fields.simps
    by (rule rbind_fail_later, rule key2, rule rbind_fail) (simp only: field2, rule rbind_fail, rule array)
  have key1: "ReadText (rdr q (text_bytes ''done'' @ bool_bytes fin @ text_bytes ''entries'' @ ?rest)) =
      (Some ''done'', rdr (q @ text_bytes ''done'') (bool_bytes fin @ text_bytes ''entries'' @ ?rest))" for q
    by (rule ReadText_bytes) simp
  have done1: "query_result_field ''done'' ?init (rdr q (bool_bytes fin @ text_bytes ''entries'' @ ?rest)) =
      (Some (?init\<lparr>qr_done := Some fin\<rparr>), rdr (q @ bool_bytes fin) (text_bytes ''entries'' @ ?rest))" for q
    by (simp add: query_result_field_def wire_simps)
  have fields: "fst (read_fields query_result_field (Suc (Suc (Suc 0))) ?init
      (rdr q (text_bytes ''done'' @ bool_bytes fin @ text_bytes ''entries'' @ ?rest))) = None" for q
    unfolding read_fields.simps(2) [of _ "Suc (Suc 0)"]
    by (rule rbind_fail_later, rule key1, rule rbind_fail_later, rule done1, rule fields1)
  have head: "ReadMapHeader (rdr [] (EncodeQueryResultReply qid ?all fin)) = (Some 3,
      rdr (map_bytes 3) (text_bytes ''done'' @ bool_bytes fin @ text_bytes ''entries'' @ ?rest))"
    using ReadMapHeader_bytes [of 3 "text_bytes ''done'' @ bool_bytes fin @ text_bytes ''entries'' @ ?rest" "[]"]
    by (simp only: enc) (simp add: length_text_bytes_short)
  have three: "unat (3 :: u64) = Suc (Suc (Suc 0))" by simp
  have "fst (read_map query_result_field ?init f (rdr [] (EncodeQueryResultReply qid ?all fin))) = None" for f
    unfolding read_map_def
    by (rule rbind_fail_later, rule head, rule rbind_fail, simp only: three, rule fields)
  then show ?thesis
    unfolding DecodeQueryResultReply_def by (rule decode_message_None)
qed

lemma read_fields_append:
  "read_fields f (m + n) s r = rbind (read_fields f m s) (read_fields f n) r"
proof (induction m arbitrary: s r)
  case 0
  then show ?case by (simp add: rbind_def rret_def)
next
  case (Suc m)
  then show ?case by (auto simp: rbind_def split: prod.splits option.splits)
qed

text \<open>
  A node identity may name its capabilities twice if the first list is empty: the check for the
  repeated key looks at the list and not at a flag, and the second list wins.
\<close>

theorem empty_caps_repeatable:
  assumes "node_ok x"
  shows "DecodeNodeIdentity (map_message
    [(''v'', wUInt (ucast (ni_version x)) []), (''fp'', wBytes (ni_fingerprint x) []),
     (''caps'', wArrayHeader 0 []), (''caps'', caps_bytes (ni_caps x)), (''node'', wText (ni_node x) [])]) = Some x"
proof -
  let ?x0 = "x\<lparr>ni_caps := []\<rparr>"
  let ?init = "\<lparr>ns_version = None, ns_fingerprint = None, ns_caps = [], ns_node = None\<rparr>"
  let ?f1 = "[(''v'', uint_bytes (ucast (ni_version x))), (''fp'', blob_bytes (ni_fingerprint x)), (''caps'', caps_bytes [])]"
  let ?f2 = "[(''caps'', caps_bytes (ni_caps x)), (''node'', text_bytes (ni_node x))]"
  let ?mid = "\<lparr>ns_version = Some (ni_version x), ns_fingerprint = Some (ni_fingerprint x), ns_caps = [],
     ns_node = None\<rparr>"
  have ok0: "node_ok ?x0" using assms by (simp add: node_ok_def caps_ok_def)
  have caps: "caps_ok (ni_caps x)" using assms by (simp add: node_ok_def)
  have "length (caps_bytes (ni_caps x)) \<le> 9 + 41 * 32"
    using length_caps [of "ni_caps x"] caps item_lengths(6) [of "length (ni_caps x)"]
    by (simp add: caps_bytes_def caps_ok_def kMaxCaps_def)
  moreover have "length (map_message (?f1 @ ?f2)) = length (map_bytes 5) + length (field_bytes ?f1) + length (field_bytes ?f2)"
    by (simp add: map_message_def eval_nat_numeral)
  ultimately have len: "length (map_message (?f1 @ ?f2)) < 2 ^ 64" "length (field_bytes ?f1 @ field_bytes ?f2) < 2 ^ 64"
      "length (field_bytes ?f2) < 2 ^ 64"
    using assms item_lengths(4) [of "ni_node x"] item_lengths(3) [of "ni_fingerprint x"]
      item_lengths(1) [of "ucast (ni_version x)"] item_lengths(6) [of 0] item_lengths(7) [of 5]
    by (simp_all add: wire_simps node_ok_def kFingerprintBytes_def kMaxNodeNameBytes_def caps_bytes_def)
  have r1: "read_fields node_field 3 ?init (rdr q (field_bytes ?f1 @ field_bytes ?f2)) =
      (Some ?mid,
       rdr (q @ field_bytes ?f1) (field_bytes ?f2))" for q
    using node_msg.fields_read [OF ok0, of ?f1 "{}" "field_bytes ?f2" q] len(2)
    by (simp add: node_msg.carries_def node_msg.known_def numeral_3_eq_3)
  have r2: "read_fields node_field 2 ?mid
      (rdr q (field_bytes ?f2)) =
      (Some \<lparr>ns_version = Some (ni_version x), ns_fingerprint = Some (ni_fingerprint x), ns_caps = ni_caps x,
         ns_node = Some (ni_node x)\<rparr>, rdr (q @ field_bytes ?f2) [])" for q
    using node_msg.fields_read [OF assms, of ?f2 "{''v'', ''fp''}" "[]" q] len(3)
    by (simp add: node_msg.carries_def node_msg.known_def numeral_2_eq_2)
  have "read_fields node_field (3 + 2) ?init (rdr q (field_bytes ?f1 @ field_bytes ?f2)) =
      (Some \<lparr>ns_version = Some (ni_version x), ns_fingerprint = Some (ni_fingerprint x), ns_caps = ni_caps x,
         ns_node = Some (ni_node x)\<rparr>, rdr (q @ field_bytes ?f1 @ field_bytes ?f2) [])" for q
    unfolding read_fields_append rbind_def r1 by (simp add: r2 del: field_bytes_simps)
  then have "read_map node_field ?init finish_node (rdr [] (map_message (?f1 @ ?f2))) =
      (Some x, rdr (map_message (?f1 @ ?f2)) [])"
    using node_msg.map_header_read(1) [of "?f1 @ ?f2" "[]" "[]"] len(1)
    by (simp add: read_map_def rbind_def finish_node_def rret_def map_message_def)
  then have "DecodeNodeIdentity (map_message (?f1 @ ?f2)) = Some x"
    unfolding DecodeNodeIdentity_def by (rule decode_message_exact)
  then show ?thesis by (simp add: uint_bytes_def blob_bytes_def text_bytes_def caps_bytes_def array_bytes_def)
qed

section \<open>The statements at work\<close>


lemma reads_written_witness:
  "ReadInt (rdr [] (wInt (- 5) [] @ [0, 1])) = (Some (- 5), rdr (wInt (- 5) []) [0, 1])"
  using reads_written [where b = "[]" and s = "''''" and n = 1 and ys = "[0, 1]" and pre = "[]" and i = "- 5"]
  by simp

lemma frames_any_chunking_witness:
  "\<exists>q. feed_all [[0x43, 0x4E, 1, 0x15, 0], [0, 0, 7, 0, 0, 0, 1, 0xA0, 0x43]] FrameParser =
      ([mkFrame kClose 7 [0xA0]], q) \<and> \<not> Parser_HasError q \<and> Buffered q = 1"
  by (rule frames_any_chunking [where f = "mkFrame kClose 0 []"])
    (simp_all add: frame_ok_def mkFrame_def kMaxPayloadLength_def EncodeFrame_def EncodeFrame_into_def
      WriteU32BE_def kMagic0_def kMagic1_def kProtocolVersion_def kClose_def Let_def)


end
