(* ===== verification/Trust.thy ===== *)
theory Trust
  imports Host
begin

text \<open>
  Identities and the store of paired peers: \<open>tls/Fingerprint.cpp\<close> and \<open>trust/TrustStore.cpp\<close>. A
  fingerprint is the byte list of the \<open>std::array<uint8_t, 32>\<close>; the store is the vector of pinned
  peers in order, and its file is the text that \<open>SaveToFile\<close> writes and \<open>LoadFromFile\<close> reads.
\<close>

section \<open>Fingerprints\<close>

type_synonym Fingerprint = bytes

definition fp_ok :: "Fingerprint \<Rightarrow> bool" where
  "fp_ok fp \<longleftrightarrow> length fp = 32"

definition kHex :: string where "kHex = ''0123456789abcdef''"

definition ToHex :: "Fingerprint \<Rightarrow> string" where
  "ToHex fp = concat (map (\<lambda>b. [kHex ! unat (drop_bit 4 b), kHex ! unat (b AND 0x0F)]) fp)"

definition nibble :: "char \<Rightarrow> int" where
  "nibble c = (let n = of_char c in
     if of_char CHR ''0'' \<le> n \<and> n \<le> of_char CHR ''9'' then n - of_char CHR ''0''
     else if of_char CHR ''a'' \<le> n \<and> n \<le> of_char CHR ''f'' then n - of_char CHR ''a'' + 10
     else if of_char CHR ''A'' \<le> n \<and> n \<le> of_char CHR ''F'' then n - of_char CHR ''A'' + 10
     else - 1)"

fun hex_pairs :: "string \<Rightarrow> Fingerprint option" where
  "hex_pairs (h # l # s) = (let hi = nibble h; lo = nibble l in
     if hi < 0 \<or> lo < 0 then None
     else map_option ((#) (word_of_int (push_bit 4 hi OR lo))) (hex_pairs s))"
| "hex_pairs s = Some []"

definition FromHex :: "string \<Rightarrow> Fingerprint option" where
  "FromHex hex = (if length hex \<noteq> 32 * 2 then None else hex_pairs hex)"

definition Equals :: "bytes \<Rightarrow> Fingerprint \<Rightarrow> bool" where
  "Equals bs fp = (if length bs \<noteq> length fp then False
     else list_all (\<lambda>i. bs ! i = fp ! i) [0..<length fp])"

lemma Equals_iff: "Equals bs fp \<longleftrightarrow> bs = fp"
  by (auto simp: Equals_def list_all_iff intro: nth_equalityI)

lemma length_ToHex [simp]: "length (ToHex fp) = 2 * length fp"
  by (induction fp) (simp_all add: ToHex_def)


lemma nibble_kHex: "n < 16 \<Longrightarrow> nibble (kHex ! n) = int n"
proof -
  have "list_all (\<lambda>n. nibble (kHex ! n) = int n) [0..<16]" by code_simp
  then show "n < 16 \<Longrightarrow> ?thesis" by (simp add: list_all_iff)
qed

lemma unat_high_nibble: "unat (drop_bit 4 (b :: byte)) < 16"
proof -
  have "unat b < 2 ^ 8" using unsigned_less [of b] by simp
  moreover have "unat (drop_bit 4 b) = unat b div 2 ^ 4" by (metis unat_drop_bit_eq drop_bit_eq_div)
  ultimately show ?thesis by simp
qed

lemma unat_low_nibble: "unat (b AND 0x0F :: byte) < 16"
proof -
  have "b AND 0x0F = take_bit 4 b" by (simp add: take_bit_eq_mask mask_eq_exp_minus_1)
  moreover have "unat (take_bit 4 b) = unat b mod 2 ^ 4" by (metis unsigned_take_bit_eq take_bit_eq_mod)
  ultimately show ?thesis by simp
qed

lemma nibbles_byte: "word_of_int (push_bit 4 (uint (drop_bit 4 b)) OR uint (b AND 0x0F)) = (b :: byte)"
proof (rule bit_word_eqI)
  fix n assume n: "n < LENGTH(8)"
  have m: "(0x0F :: byte) = mask 4" by (simp add: mask_eq_exp_minus_1)
  show "bit (word_of_int (push_bit 4 (uint (drop_bit 4 b)) OR uint (b AND 0x0F)) :: byte) n = bit b n"
    unfolding m using n by (cases "n < 4") (auto simp: bit_simps)
qed

lemma hex_pairs_ToHex: "hex_pairs (ToHex fp) = Some fp"
  by (induction fp) (simp_all add: ToHex_def nibble_kHex unat_high_nibble unat_low_nibble nibbles_byte)

lemma FromHex_ToHex: "fp_ok fp \<Longrightarrow> FromHex (ToHex fp) = Some fp"
  by (simp add: FromHex_def fp_ok_def hex_pairs_ToHex)

lemma length_hex_pairs: "hex_pairs s = Some fp \<Longrightarrow> length fp = length s div 2"
  by (induction s arbitrary: fp rule: hex_pairs.induct) (auto simp: Let_def split: if_splits)

lemma FromHex_fp_ok: "FromHex s = Some fp \<Longrightarrow> fp_ok fp"
  by (auto simp: FromHex_def fp_ok_def dest: length_hex_pairs split: if_splits)

definition lower_hex :: "char \<Rightarrow> char" where
  "lower_hex c = (if c \<in> set ''ABCDEF'' then kHex ! (of_char c - 55) else c)"

lemma hex_digit_cases:
  assumes "0 \<le> nibble c"
  shows "c \<in> set ''ABCDEFabcdef0123456789''"
proof -
  have "(of_char c :: int) \<in> {48..57} \<union> {97..102} \<union> {65..70}"
    using assms by (auto simp: nibble_def Let_def split: if_splits)
  then have "int (of_char c) \<in> {48..57} \<union> {97..102} \<union> {65..70}"
    by (simp only: of_nat_of_char)
  then have "(of_char c :: nat) \<in> set ([65..<71] @ [97..<103] @ [48..<58])"
    by (simp only: Un_iff atLeastAtMost_iff atLeastLessThan_iff set_append set_upt) linarith
  also have "[65..<71] @ [97..<103] @ [48..<58] = map of_char ''ABCDEFabcdef0123456789''" by simp
  finally have "(of_char c :: nat) \<in> of_char ` set ''ABCDEFabcdef0123456789''" by (simp only: set_map)
  then show ?thesis using inj_image_mem_iff [OF inj_of_char] by metis
qed

lemma nibble_char:
  assumes "0 \<le> nibble c"
  shows "nat (nibble c) < 16 \<and> kHex ! nat (nibble c) = lower_hex c"
proof -
  have "list_all (\<lambda>c. nat (nibble c) < 16 \<and> kHex ! nat (nibble c) = lower_hex c) ''ABCDEFabcdef0123456789''"
    by (simp add: nibble_def lower_hex_def kHex_def)
  then show ?thesis using hex_digit_cases [OF assms] unfolding list_all_iff by blast
qed

lemma join_nibbles:
  assumes "m < 16" "n < 16"
  shows "unat (drop_bit 4 (word_of_int (push_bit 4 (int m) OR int n) :: byte)) = m \<and>
    unat ((word_of_int (push_bit 4 (int m) OR int n) :: byte) AND 0x0F) = n"
proof -
  have "list_all (\<lambda>m. list_all (\<lambda>n. unat (drop_bit 4 (word_of_int (push_bit 4 (int m) OR int n) :: byte)) = m \<and>
    unat ((word_of_int (push_bit 4 (int m) OR int n) :: byte) AND 0x0F) = n) [0..<16]) [0..<16]" by code_simp
  with assms show ?thesis by (simp add: list_all_iff)
qed

lemma ToHex_hex_pairs: "hex_pairs s = Some fp \<Longrightarrow> even (length s) \<Longrightarrow> ToHex fp = map lower_hex s"
proof (induction s arbitrary: fp rule: hex_pairs.induct)
  case (1 h l s)
  then obtain fp' where n: "0 \<le> nibble h" "0 \<le> nibble l" and fp': "hex_pairs s = Some fp'"
    "fp = word_of_int (push_bit 4 (nibble h) OR nibble l) # fp'"
    by (auto simp: Let_def not_less split: if_splits)
  then have "ToHex fp' = map lower_hex s" using 1 by (simp add: Let_def)
  then show ?case
    using fp' nibble_char [OF n(1)] nibble_char [OF n(2)] n
      join_nibbles [of "nat (nibble h)" "nat (nibble l)"]
    by (simp add: ToHex_def)
qed (auto simp: ToHex_def)

lemma ToHex_FromHex: "FromHex s = Some fp \<Longrightarrow> ToHex fp = map lower_hex s"
  by (auto simp: FromHex_def intro!: ToHex_hex_pairs split: if_splits)

section \<open>The store of paired peers\<close>

record PinnedPeer =
  pp_fingerprint :: Fingerprint
  pp_name :: string

type_synonym TrustStore = "PinnedPeer list"

fun Pin :: "Fingerprint \<Rightarrow> string \<Rightarrow> TrustStore \<Rightarrow> TrustStore" where
  "Pin fp name [] = [\<lparr>pp_fingerprint = fp, pp_name = name\<rparr>]"
| "Pin fp name (peer # peers) =
    (if pp_fingerprint peer = fp then peer\<lparr>pp_name := name\<rparr> # peers else peer # Pin fp name peers)"

fun Forget :: "Fingerprint \<Rightarrow> TrustStore \<Rightarrow> bool \<times> TrustStore" where
  "Forget fp [] = (False, [])"
| "Forget fp (peer # peers) =
    (if pp_fingerprint peer = fp then (True, peers)
     else case Forget fp peers of (found, rest) \<Rightarrow> (found, peer # rest))"

fun FindPeer :: "Fingerprint \<Rightarrow> TrustStore \<Rightarrow> PinnedPeer option" where
  "FindPeer fp [] = None"
| "FindPeer fp (peer # peers) = (if pp_fingerprint peer = fp then Some peer else FindPeer fp peers)"

definition IsTrusted :: "Fingerprint \<Rightarrow> TrustStore \<Rightarrow> bool" where
  "IsTrusted fp store = (FindPeer fp store \<noteq> None)"

fun name_pinned :: "string \<Rightarrow> TrustStore \<Rightarrow> bool" where
  "name_pinned name [] = False"
| "name_pinned name (peer # peers) = (if pp_name peer = name then True else name_pinned name peers)"

definition Evaluate :: "Fingerprint \<Rightarrow> string \<Rightarrow> TrustStore \<Rightarrow> TrustDecision" where
  "Evaluate fp claimedName store =
    (if FindPeer fp store \<noteq> None then kTrusted
     else if name_pinned claimedName store then kKeyChanged
     else kUnknown)"

section \<open>Its file\<close>

definition single_line :: "string \<Rightarrow> string" where
  "single_line name = map (\<lambda>c. if c = CHR 0x0A \<or> c = CHR 0x0D then CHR '' '' else c) name"

definition store_line :: "PinnedPeer \<Rightarrow> string" where
  "store_line peer = ToHex (pp_fingerprint peer) @ '' '' @ single_line (pp_name peer) @ [CHR 0x0A]"

definition store_text :: "TrustStore \<Rightarrow> string" where
  "store_text store = concat (map store_line store)"

definition SaveToFile :: "TrustStore \<Rightarrow> string \<Rightarrow> bool prog" where
  "SaveToFile store path = (let tmp = path @ ''.tmp'' in
     pbind (sys_bool (WriteFile tmp (store_text store))) (\<lambda>good.
       if \<not> good then Ret False
       else pbind (sys_unit (Chmod tmp 0x180)) (\<lambda>_.
         pbind (sys_status (Rename tmp path)) (\<lambda>rc. Ret (rc = None)))))"

text \<open>The lines \<open>std::getline\<close> yields: a last line without its newline counts, an empty rest does not.\<close>

function getlines :: "string \<Rightarrow> string list" where
  "getlines [] = []"
| "getlines (c # s) = takeWhile (\<lambda>x. x \<noteq> CHR 0x0A) (c # s) #
     getlines (tl (dropWhile (\<lambda>x. x \<noteq> CHR 0x0A) (c # s)))"
  by pat_completeness auto
termination
proof (relation "measure length")
  fix c :: char and s
  have "length (dropWhile (\<lambda>x. x \<noteq> CHR 0x0A) s) \<le> length s" by (rule length_dropWhile_le)
  then have "length (tl (dropWhile (\<lambda>x. x \<noteq> CHR 0x0A) (c # s))) < length (c # s)" by auto
  then show "(tl (dropWhile (\<lambda>x. x \<noteq> CHR 0x0A) (c # s)), c # s) \<in> measure length" by simp
qed simp

definition parse_line :: "string \<Rightarrow> PinnedPeer option" where
  "parse_line read_line =
    (let line = (if read_line \<noteq> [] \<and> last read_line = CHR 0x0D then butlast read_line else read_line) in
     if length line < 64 then None
     else case FromHex (take 64 line) of
       None \<Rightarrow> None
     | Some fp \<Rightarrow> Some \<lparr>pp_fingerprint = fp,
         pp_name = (if length line > 65 \<and> line ! 64 = CHR '' '' then drop 65 line else [])\<rparr>)"

definition load_text :: "string \<Rightarrow> TrustStore" where
  "load_text text = List.map_filter parse_line (getlines text)"

text \<open>\<open>LoadFromFile\<close> replaces the store when the file opens and leaves it as it was otherwise.\<close>

definition LoadFromFile :: "TrustStore \<Rightarrow> string \<Rightarrow> (bool \<times> TrustStore) prog" where
  "LoadFromFile store path = pbind (sys_text (ReadFile path)) (\<lambda>text. case text of
     None \<Rightarrow> Ret (False, store)
   | Some text \<Rightarrow> Ret (True, load_text text))"

section \<open>What the store promises\<close>

text \<open>The store as a map from fingerprints to names; no fingerprint is pinned twice.\<close>

definition pinned :: "TrustStore \<Rightarrow> Fingerprint \<Rightarrow> string option" where
  "pinned store = map_of (map (\<lambda>p. (pp_fingerprint p, pp_name p)) store)"

definition store_ok :: "TrustStore \<Rightarrow> bool" where
  "store_ok store \<longleftrightarrow> distinct (map pp_fingerprint store) \<and> list_all (\<lambda>p. fp_ok (pp_fingerprint p)) store"

lemma pinned_simps [simp]:
  "pinned [] = Map.empty"
  "pinned (p # ps) = (pinned ps)(pp_fingerprint p \<mapsto> pp_name p)"
  by (simp_all add: pinned_def)

lemma pinned_None: "pinned ps fp = None \<longleftrightarrow> fp \<notin> pp_fingerprint ` set ps"
  by (induction ps) auto

lemma pinned_Pin: "pinned (Pin fp name st) = (pinned st)(fp \<mapsto> name)"
  by (induction st) (auto simp: fun_eq_iff)

lemma fingerprints_Pin:
  "map pp_fingerprint (Pin fp name st) =
    (if fp \<in> pp_fingerprint ` set st then map pp_fingerprint st else map pp_fingerprint st @ [fp])"
  by (induction st) auto

lemma store_ok_alt: "store_ok st \<longleftrightarrow> distinct (map pp_fingerprint st) \<and> list_all fp_ok (map pp_fingerprint st)"
  by (simp add: store_ok_def list_all_iff)

lemma store_ok_Pin: "store_ok st \<Longrightarrow> fp_ok fp \<Longrightarrow> store_ok (Pin fp name st)"
  by (auto simp: store_ok_alt fingerprints_Pin list_all_iff)

lemma FindPeer_pinned: "map_option pp_name (FindPeer fp st) = pinned st fp"
  by (induction st) auto

lemma IsTrusted_pinned: "IsTrusted fp st \<longleftrightarrow> pinned st fp \<noteq> None"
  by (simp add: IsTrusted_def flip: FindPeer_pinned)

lemma name_pinned_iff: "name_pinned n st \<longleftrightarrow> n \<in> pp_name ` set st"
  by (induction st) auto

lemma Forget_fst: "fst (Forget fp st) \<longleftrightarrow> fp \<in> pp_fingerprint ` set st"
  by (induction st) (auto split: prod.splits)

lemma Forget_filter:
  "distinct (map pp_fingerprint st) \<Longrightarrow> snd (Forget fp st) = filter (\<lambda>p. pp_fingerprint p \<noteq> fp) st"
proof (induction st)
  case (Cons p st)
  then show ?case by (auto split: prod.splits intro!: filter_True [symmetric]) (metis image_eqI)
qed simp

lemma pinned_filter: "pinned (filter (\<lambda>p. pp_fingerprint p \<noteq> fp) st) = (pinned st)(fp := None)"
  by (induction st) (auto simp: fun_eq_iff)

lemma ran_pinned: "distinct (map pp_fingerprint st) \<Longrightarrow> ran (pinned st) = pp_name ` set st"
  unfolding pinned_def by (subst ran_distinct) (auto simp: o_def image_image)

text \<open>\<open>Evaluate\<close> in terms of the map.\<close>

lemma Evaluate_spec:
  "store_ok st \<Longrightarrow> Evaluate fp n st =
    (if fp \<in> dom (pinned st) then kTrusted else if n \<in> ran (pinned st) then kKeyChanged else kUnknown)"
  using FindPeer_pinned [of fp st, symmetric]
  by (simp add: Evaluate_def name_pinned_iff ran_pinned store_ok_def domIff)

lemma Evaluate_trusted: "Evaluate fp n st = kTrusted \<longleftrightarrow> IsTrusted fp st"
  by (simp add: Evaluate_def IsTrusted_def)

text \<open>The text of a store reads back, with names on one line.\<close>

lemma getlines_line: "CHR 0x0A \<notin> set l \<Longrightarrow> getlines (l @ CHR 0x0A # s) = l # getlines s"
proof -
  assume l: "CHR 0x0A \<notin> set l"
  then have t: "takeWhile (\<lambda>x. x \<noteq> CHR 0x0A) (l @ CHR 0x0A # s) = l"
    "dropWhile (\<lambda>x. x \<noteq> CHR 0x0A) (l @ CHR 0x0A # s) = CHR 0x0A # s"
    by (auto simp: takeWhile_append dropWhile_append)
  obtain c u where cu: "l @ CHR 0x0A # s = c # u" by (cases l) auto
  show ?thesis using t unfolding cu by simp
qed

lemma kHex_plain: "n < 16 \<Longrightarrow> kHex ! n \<noteq> CHR 0x0A \<and> kHex ! n \<noteq> CHR 0x0D"
proof -
  have "list_all (\<lambda>n. kHex ! n \<noteq> CHR 0x0A \<and> kHex ! n \<noteq> CHR 0x0D) [0..<16]" by code_simp
  then show "n < 16 \<Longrightarrow> ?thesis" by (simp add: list_all_iff)
qed

lemma ToHex_plain: "CHR 0x0A \<notin> set (ToHex fp) \<and> CHR 0x0D \<notin> set (ToHex fp)"
  using kHex_plain unat_high_nibble unat_low_nibble
  by (induction fp) (auto simp: ToHex_def, metis+)

lemma single_line_plain: "CHR 0x0A \<notin> set (single_line n)" "CHR 0x0D \<notin> set (single_line n)"
  by (auto simp: single_line_def split: if_splits)

definition one_line :: "PinnedPeer \<Rightarrow> PinnedPeer" where
  "one_line p = p\<lparr>pp_name := single_line (pp_name p)\<rparr>"

lemma parse_store_line:
  assumes "fp_ok (pp_fingerprint p)"
  shows "parse_line (ToHex (pp_fingerprint p) @ '' '' @ single_line (pp_name p)) = Some (one_line p)"
proof -
  let ?l = "ToHex (pp_fingerprint p) @ CHR '' '' # single_line (pp_name p)"
  have len: "length (ToHex (pp_fingerprint p)) = 64" using assms by (simp add: fp_ok_def)
  have "last ?l \<noteq> CHR 0x0D"
  proof (cases "single_line (pp_name p) = []")
    case False
    then have "last (single_line (pp_name p)) \<noteq> CHR 0x0D"
      by (metis single_line_plain(2) last_in_set)
    with False show ?thesis by simp
  qed simp
  moreover have "take 64 ?l = ToHex (pp_fingerprint p)" "drop 65 ?l = single_line (pp_name p)"
    "?l ! 64 = CHR '' ''" using len by (simp_all add: nth_append)
  ultimately show ?thesis using assms len
    by (auto simp: parse_line_def Let_def FromHex_ToHex one_line_def)
qed

lemma load_store_text: "store_ok st \<Longrightarrow> load_text (store_text st) = map one_line st"
proof (induction st)
  case Nil
  then show ?case by (simp add: load_text_def store_text_def map_filter_def)
next
  case (Cons p st)
  let ?l = "ToHex (pp_fingerprint p) @ '' '' @ single_line (pp_name p)"
  have "getlines (store_text (p # st)) = ?l # getlines (store_text st)"
    using getlines_line [of ?l "store_text st"] ToHex_plain [of "pp_fingerprint p"]
      single_line_plain(1) [of "pp_name p"]
    by (simp add: store_text_def store_line_def)
  then show ?case using Cons parse_store_line [of p]
    by (simp add: load_text_def store_ok_def map_filter_simps)
qed

lemma pinned_one_line: "pinned (map one_line st) = map_option single_line \<circ> pinned st"
  by (induction st) (auto simp: one_line_def fun_eq_iff)

end
