(* ===== verification/Double.thy ===== *)
theory Double
  imports Prelude "HOL-Library.Log_Nat"
begin

text \<open>
  The \<open>double\<close> of the C++ sources, for the values the token bucket computes with: rationals
  rounded to 53 significant bits, to the nearest and to the even one of two. The values stay
  between 0 and \<open>2 ^ 64\<close>, far from the limits of the exponent, which is left unbounded here.
\<close>

definition ilog2 :: "rat \<Rightarrow> int" where
  "ilog2 x = (case quotient_of x of (n, d) \<Rightarrow>
     let k = bitlen n - bitlen d in if 2 powi k \<le> x then k else k - 1)"

definition round_even :: "rat \<Rightarrow> int" where
  "round_even x = (let f = \<lfloor>x\<rfloor>; rest = x - of_int f in
     if rest < 1 / 2 \<or> (rest = 1 / 2 \<and> even f) then f else f + 1)"

definition to_double :: "rat \<Rightarrow> rat" where
  "to_double x = (if x \<le> 0 then 0
     else let e = ilog2 x - 52 in of_int (round_even (x / 2 powi e)) * 2 powi e)"

lemma bitlen_pos_aux: "n > 0 \<Longrightarrow> bitlen n > 0"
  using bitlen_eq_zero_iff [of n] bitlen_nonneg [of n] by linarith

lemma bitlen_pos_bounds:
  assumes "n > 0"
  shows "(2::rat) powi (bitlen n - 1) \<le> of_int n" and "of_int n < (2::rat) powi (bitlen n)"
proof -
  have b: "2 ^ nat (bitlen n - 1) \<le> n" "n < 2 ^ nat (bitlen n)" and p: "bitlen n > 0"
    using bitlen_bounds [OF assms] assms bitlen_bounds [of n] by (auto intro!: bitlen_pos_aux)
  have "of_int (2 ^ nat (bitlen n - 1)) \<le> (of_int n :: rat)" "(of_int n :: rat) < of_int (2 ^ nat (bitlen n))"
    using b by (simp_all only: of_int_le_iff of_int_less_iff)
  then show "(2::rat) powi (bitlen n - 1) \<le> of_int n" "of_int n < (2::rat) powi (bitlen n)"
    using p by (simp_all add: power_int_def)
qed

lemma ilog2_bounds:
  assumes "x > 0"
  shows "2 powi ilog2 x \<le> x" and "x < 2 powi (ilog2 x + 1)"
proof -
  obtain n d where q: "quotient_of x = (n, d)" by (cases "quotient_of x")
  then have x: "x = of_int n / of_int d" and d: "d > 0"
    using quotient_of_div quotient_of_denom_pos by auto
  then have n: "n > 0" using assms by (simp add: zero_less_divide_iff)
  note bn = bitlen_pos_bounds [OF n] and bd = bitlen_pos_bounds [OF d]
  let ?k = "bitlen n - bitlen d"
  have "2 powi (?k - 1) = (2::rat) powi (bitlen n - 1) / 2 powi (bitlen d)"
    by (simp flip: power_int_diff) (simp add: algebra_simps)
  also have "\<dots> < of_int n / of_int d"
    using bn bd d n by (intro frac_less2) auto
  finally have lo: "2 powi (?k - 1) < x" using x by simp
  have "of_int n / of_int d < (2::rat) powi bitlen n / 2 powi (bitlen d - 1)"
    using bn bd d n by (intro frac_less) auto
  also have "\<dots> = 2 powi (?k + 1)"
    by (simp flip: power_int_diff) (simp add: algebra_simps)
  finally have hi: "x < 2 powi (?k + 1)" using x by simp
  show "2 powi ilog2 x \<le> x" "x < 2 powi (ilog2 x + 1)"
    using lo hi by (auto simp: ilog2_def q Let_def)
qed

lemma round_even_near: "of_int (round_even x) \<le> x + 1 / 2"
proof (cases "round_even x = \<lfloor>x\<rfloor>")
  case True
  then show ?thesis using of_int_floor_le [of x] by linarith
next
  case False
  then have "1 / 2 \<le> x - of_int \<lfloor>x\<rfloor>" by (auto simp: round_even_def Let_def split: if_splits)
  with False show ?thesis by (simp add: round_even_def Let_def split: if_splits)
qed

lemma round_even_floor: "\<lfloor>x\<rfloor> \<le> round_even x" "round_even x \<le> \<lfloor>x\<rfloor> + 1"
  by (simp_all add: round_even_def Let_def)

lemma round_even_ge: "of_int m \<le> x \<Longrightarrow> m \<le> round_even x"
  using round_even_floor(1) [of x] by (simp add: le_floor_iff [symmetric])

lemma round_even_le: "x \<le> of_int m \<Longrightarrow> round_even x \<le> m"
proof -
  assume x: "x \<le> of_int m"
  show ?thesis
  proof (cases "x = of_int m")
    case False
    then have "\<lfloor>x\<rfloor> < m" using x by (simp add: floor_less_iff)
    then show ?thesis by (simp add: round_even_def Let_def)
  qed (simp add: round_even_def)
qed

lemma round_even_of_int [simp]: "round_even (of_int m) = m"
  by (simp add: round_even_def)

lemma round_even_mono:
  assumes "x \<le> y"
  shows "round_even x \<le> round_even y"
proof (cases "\<lfloor>x\<rfloor> = \<lfloor>y\<rfloor>")
  case True
  then show ?thesis using assms by (auto simp: round_even_def Let_def)
next
  case False
  then have "\<lfloor>x\<rfloor> + 1 \<le> \<lfloor>y\<rfloor>" using floor_mono [OF assms] by linarith
  then show ?thesis using round_even_floor [of x] round_even_floor [of y] by linarith
qed

lemma to_double_between:
  assumes "x > 0"
  shows "2 powi ilog2 x \<le> to_double x" and "to_double x \<le> 2 powi (ilog2 x + 1)"
proof -
  let ?e = "ilog2 x - 52"
  have p: "(2::rat) powi ?e > 0" by simp
  have split: "2 powi ilog2 x = of_int (2 ^ 52) * (2::rat) powi ?e"
    "2 powi (ilog2 x + 1) = of_int (2 ^ 53) * (2::rat) powi ?e"
    by (simp_all add: power_int_diff power_int_add)
  have "of_int (2 ^ 52) \<le> x / 2 powi ?e" "x / 2 powi ?e \<le> of_int (2 ^ 53)"
    using ilog2_bounds [OF assms] p unfolding split by (simp_all add: field_simps)
  then have "2 ^ 52 \<le> round_even (x / 2 powi ?e)" "round_even (x / 2 powi ?e) \<le> 2 ^ 53"
    by (blast intro: round_even_ge round_even_le)+
  then have "(of_int (2 ^ 52) :: rat) \<le> of_int (round_even (x / 2 powi ?e))"
    "(of_int (round_even (x / 2 powi ?e)) :: rat) \<le> of_int (2 ^ 53)"
    by (simp_all only: of_int_le_iff)
  then show "2 powi ilog2 x \<le> to_double x" "to_double x \<le> 2 powi (ilog2 x + 1)"
    using assms p unfolding to_double_def Let_def split by (simp_all add: mult_right_mono)
qed

lemma to_double_0 [simp]: "to_double 0 = 0" by (simp add: to_double_def)

lemma to_double_nonneg: "0 \<le> to_double x"
proof (cases "x > 0")
  case True
  have "(0::rat) \<le> 2 powi ilog2 x" by simp
  then show ?thesis using to_double_between(1) [OF True] by linarith
qed (simp add: to_double_def)

lemma to_double_mono:
  assumes "x \<le> y"
  shows "to_double x \<le> to_double y"
proof (cases "x > 0")
  case True
  then have y: "y > 0" using assms by simp
  have le: "ilog2 x \<le> ilog2 y"
  proof (rule ccontr)
    assume "\<not> ilog2 x \<le> ilog2 y"
    then have "(2::rat) powi (ilog2 y + 1) \<le> 2 powi ilog2 x" by (intro power_int_increasing) auto
    then show False using ilog2_bounds [OF True] ilog2_bounds [OF y] assms by linarith
  qed
  show ?thesis
  proof (cases "ilog2 x = ilog2 y")
    case True
    then show ?thesis using \<open>x > 0\<close> y assms
      by (auto simp: to_double_def Let_def intro!: mult_right_mono round_even_mono divide_right_mono)
  next
    case False
    then have "(2::rat) powi (ilog2 x + 1) \<le> 2 powi ilog2 y" using le by (intro power_int_increasing) auto
    then show ?thesis using to_double_between [OF True] to_double_between [OF y] by linarith
  qed
qed (simp add: to_double_def [of x] to_double_nonneg)

lemma to_double_error:
  assumes "0 \<le> x"
  shows "to_double x \<le> x + x / 2 ^ 53"
proof (cases "x > 0")
  case True
  let ?e = "ilog2 x - 52"
  have p: "(2::rat) powi ?e > 0" by simp
  have "of_int (round_even (x / 2 powi ?e)) \<le> x / 2 powi ?e + 1 / 2"
    by (rule round_even_near)
  then have "to_double x \<le> (x / 2 powi ?e + 1 / 2) * 2 powi ?e"
    using True p by (simp add: to_double_def Let_def mult_right_mono)
  also have "\<dots> = x + 2 powi ilog2 x / 2 ^ 53" using p
    by (simp add: field_simps power_int_diff)
  finally show ?thesis using ilog2_bounds(1) [OF True] by (simp add: field_simps)
qed (use assms in simp)

lemma to_double_exact:
  assumes "0 \<le> n" and "n < 2 ^ 53"
  shows "to_double (of_int n) = of_int n"
proof (cases "n = 0")
  case False
  let ?x = "of_int n :: rat"
  let ?e = "ilog2 ?x - 52"
  have x: "?x > 0" using False assms(1) by simp
  have "?x < of_int (2 ^ 53)" using assms(2) by (simp only: of_int_less_iff)
  then have "(2::rat) powi ilog2 ?x < 2 powi 53" using ilog2_bounds(1) [OF x] by simp
  then have "ilog2 ?x < 53" by (metis not_less power_int_increasing one_le_numeral)
  then obtain j where j: "52 - ilog2 ?x = int j" using nonneg_int_cases [of "52 - ilog2 ?x"] by auto
  then have j: "?e = - int j" by simp
  have "?x / 2 powi ?e = of_int (n * 2 ^ j)" by (simp add: j power_int_minus divide_inverse)
  then have "round_even (?x / 2 powi ?e) = n * 2 ^ j" by (simp only: round_even_of_int)
  then show ?thesis using x by (simp add: to_double_def Let_def j power_int_minus)
qed simp

lemma to_double_1 [simp]: "to_double 1 = 1"
  using to_double_exact [of 1] by simp

end
