(* ===== verification/Pairing.thy ===== *)
theory Pairing
  imports Trust Double
begin

text \<open>
  The pairing policy: \<open>trust/TokenBucket.cpp\<close> and \<open>trust/Pairing.cpp\<close>. The clock, the user's prompt
  and the store's file are calls to the host; \<open>fTokens\<close>, a \<open>double\<close>, is a rational that every
  operation rounds with \<open>to_double\<close>.
\<close>

section \<open>The token bucket\<close>

record TokenBucket =
  fCapacity :: int
  fRefillMs :: int
  fTokens :: rat
  fLast :: s64

definition TokenBucket :: "int \<Rightarrow> int \<Rightarrow> TokenBucket prog" where
  "TokenBucket capacity refillMs =
    (let cap = (if capacity < 1 then 1 else capacity) in
     pbind (sys_clock ClockMs) (\<lambda>now. Ret
       \<lparr>fCapacity = cap, fRefillMs = (if refillMs < 1 then 1 else refillMs),
        fTokens = to_double (of_int cap), fLast = now\<rparr>))"

definition refilled :: "TokenBucket \<Rightarrow> s64 \<Rightarrow> TokenBucket" where
  "refilled b now = (let elapsed = now - fLast b in
     if sint elapsed > 0 then
       let refilled = to_double (fTokens b +
             to_double (to_double (of_int (sint elapsed)) / to_double (of_int (fRefillMs b))));
           cap = to_double (of_int (fCapacity b))
       in b\<lparr>fTokens := (if refilled > cap then cap else refilled), fLast := now\<rparr>
     else b)"

definition take_token :: "TokenBucket \<Rightarrow> bool \<times> TokenBucket" where
  "take_token b = (if fTokens b \<ge> 1 then (True, b\<lparr>fTokens := to_double (fTokens b - 1)\<rparr>) else (False, b))"

definition TryTake :: "TokenBucket \<Rightarrow> (bool \<times> TokenBucket) prog" where
  "TryTake b = pbind (sys_clock ClockMs) (\<lambda>now. Ret (take_token (refilled b now)))"

section \<open>Pairing\<close>

definition default_burst :: int where "default_burst = 5"
definition default_refillMs :: int where "default_refillMs = 15000"

record Pairing =
  fStore :: TrustStore
  fStorePath :: string
  fPromptBucket :: TokenBucket

definition Pairing :: "TrustStore \<Rightarrow> string \<Rightarrow> int \<Rightarrow> int \<Rightarrow> Pairing prog" where
  "Pairing store storePath burst refillMs = pbind (TokenBucket burst refillMs) (\<lambda>bucket. Ret
     \<lparr>fStore = store, fStorePath = storePath, fPromptBucket = bucket\<rparr>)"

definition kNone :: Fingerprint where "kNone = replicate 32 0"

definition Admit :: "Pairing \<Rightarrow> Fingerprint \<Rightarrow> string \<Rightarrow> (bool \<times> Pairing) prog" where
  "Admit pg fp name =
    (if fp = kNone then Ret (False, pg)
     else let decision = Evaluate fp name (fStore pg) in
       if decision = kTrusted then Ret (True, pg)
       else pbind (TryTake (fPromptBucket pg)) (\<lambda>(taken, bucket). let pg = pg\<lparr>fPromptBucket := bucket\<rparr> in
         if \<not> taken then Ret (False, pg)
         else pbind (sys_bool (Ask name fp decision)) (\<lambda>allowed.
           if \<not> allowed then Ret (False, pg)
           else let pg = pg\<lparr>fStore := Pin fp name (fStore pg)\<rparr> in
             pbind (if fStorePath pg \<noteq> [] then SaveToFile (fStore pg) (fStorePath pg) else Ret True) (\<lambda>_.
               Ret (True, pg)))))"

section \<open>What a bucket lets through\<close>

definition bucket_ok :: "TokenBucket \<Rightarrow> bool" where
  "bucket_ok b \<longleftrightarrow> 1 \<le> fCapacity b \<and> fCapacity b < 2 ^ 31 \<and> 1 \<le> fRefillMs b \<and> fRefillMs b < 2 ^ 53 \<and>
     0 \<le> fTokens b \<and> fTokens b \<le> of_int (fCapacity b)"

lemma capacity_exact [simp]: "bucket_ok b \<Longrightarrow> to_double (of_int (fCapacity b)) = of_int (fCapacity b)"
  and refill_exact [simp]: "bucket_ok b \<Longrightarrow> to_double (of_int (fRefillMs b)) = of_int (fRefillMs b)"
  by (auto simp: bucket_ok_def intro!: to_double_exact)

lemma bucket_ok_refilled: "bucket_ok b \<Longrightarrow> bucket_ok (refilled b now)"
  by (auto simp: refilled_def Let_def bucket_ok_def to_double_nonneg to_double_exact)

lemma to_double_le_int: "x \<le> of_int n \<Longrightarrow> 0 \<le> n \<Longrightarrow> n < 2 ^ 53 \<Longrightarrow> to_double x \<le> of_int n"
  using to_double_mono [of x "of_int n"] to_double_exact [of n] by simp

lemma bucket_ok_take: "bucket_ok b \<Longrightarrow> bucket_ok (snd (take_token b))"
  by (auto simp: take_token_def bucket_ok_def to_double_nonneg intro!: to_double_le_int)

text \<open>One refill adds at most what the elapsed time earns, and a rounding error.\<close>

lemma capped_sum:
  fixes t q c :: rat
  assumes "0 \<le> t" "0 \<le> q" "0 \<le> c" "c < 2 ^ 31"
  shows "min c (to_double (t + to_double q)) \<le> t + q + c / 2 ^ 52"
proof (cases "q \<ge> c \<or> t + to_double q \<ge> c")
  case True
  have "c \<le> t + q + c / 2 ^ 52"
  proof (cases "q \<ge> c")
    case False
    then have "to_double q \<le> q + c / 2 ^ 53" using to_double_error [OF assms(2)] by (simp add: field_simps)
    with True False have "c \<le> t + q + c / 2 ^ 53" by linarith
    then show ?thesis using assms by (simp add: field_simps)
  qed (use assms in \<open>simp add: add_increasing add_increasing2\<close>)
  then show ?thesis by linarith
next
  case False
  have "to_double q \<le> q + c / 2 ^ 53" using False to_double_error [OF assms(2)] by (simp add: field_simps)
  moreover have "to_double (t + to_double q) \<le> t + to_double q + c / 2 ^ 53"
    using False to_double_error [of "t + to_double q"] to_double_nonneg [of q] assms(1) by (simp add: field_simps)
  moreover have "c / 2 ^ 53 + c / 2 ^ 53 = c / 2 ^ 52" by (simp add: field_simps)
  ultimately show ?thesis by linarith
qed

lemma refilled_earns:
  assumes b: "bucket_ok b" and t: "sint (fLast b) \<le> hi" "sint now \<le> hi" "0 \<le> sint (fLast b)" "0 \<le> sint now" "hi < 2 ^ 53"
  shows "fTokens (refilled b now) \<le> fTokens b +
      of_int (sint (fLast (refilled b now)) - sint (fLast b)) / of_int (fRefillMs b) + of_int (fCapacity b) / 2 ^ 52"
    and "0 \<le> sint (fLast (refilled b now)) \<and> sint (fLast (refilled b now)) \<le> hi"
    and "fRefillMs (refilled b now) = fRefillMs b" "fCapacity (refilled b now) = fCapacity b"
proof -
  have el: "sint (now - fLast b) = sint now - sint (fLast b)"
    using t by (simp add: sint_word_ariths(2) signed_take_bit_int_eq_self)
  have ex: "to_double (of_int (sint now - sint (fLast b))) = of_int (sint now - sint (fLast b))"
    if "sint now - sint (fLast b) > 0"
    using that t by (intro to_double_exact) linarith+
  have "min (of_int (fCapacity b)) (to_double (fTokens b + to_double (of_int (sint now - sint (fLast b)) / of_int (fRefillMs b))))
    \<le> fTokens b + of_int (sint now - sint (fLast b)) / of_int (fRefillMs b) + of_int (fCapacity b) / 2 ^ 52"
    if "sint now - sint (fLast b) > 0"
  proof (rule capped_sum)
    have "(0 :: rat) \<le> of_int (sint now - sint (fLast b))" using that by (simp only: of_int_0_le_iff)
    then show "(0 :: rat) \<le> of_int (sint now - sint (fLast b)) / of_int (fRefillMs b)"
      using b by (intro divide_nonneg_nonneg) (simp_all add: bucket_ok_def)
  qed (use b in \<open>auto simp: bucket_ok_def\<close>)
  then show "fTokens (refilled b now) \<le> fTokens b +
      of_int (sint (fLast (refilled b now)) - sint (fLast b)) / of_int (fRefillMs b) + of_int (fCapacity b) / 2 ^ 52"
    using b ex by (auto simp: refilled_def Let_def el bucket_ok_def min_def split: if_splits)
qed (use t in \<open>auto simp: refilled_def Let_def\<close>)

lemma take_spends:
  assumes "bucket_ok b"
  shows "(if fst (take_token b) then 1 else 0) + fTokens (snd (take_token b)) \<le>
    fTokens b + of_int (fCapacity b) / 2 ^ 53"
proof (cases "fTokens b \<ge> 1")
  case True
  have "to_double (fTokens b - 1) \<le> fTokens b - 1 + (fTokens b - 1) / 2 ^ 53"
    using True by (intro to_double_error) simp
  moreover have "(fTokens b - 1) / 2 ^ 53 \<le> of_int (fCapacity b) / 2 ^ 53"
    using assms by (intro divide_right_mono) (auto simp: bucket_ok_def)
  ultimately have "1 + to_double (fTokens b - 1) \<le> fTokens b + of_int (fCapacity b) / 2 ^ 53" by linarith
  then have "1 + fTokens (b\<lparr>fTokens := to_double (fTokens b - 1)\<rparr>) \<le> fTokens b + of_int (fCapacity b) / 2 ^ 53"
    by (cases b) simp
  with True show ?thesis by (simp only: take_token_def if_True fst_conv snd_conv)
qed (use assms in \<open>auto simp: take_token_def bucket_ok_def\<close>)

lemma take_token_same [simp]:
  "fLast (snd (take_token b)) = fLast b" "fCapacity (snd (take_token b)) = fCapacity b"
  "fRefillMs (snd (take_token b)) = fRefillMs b"
  by (simp_all add: take_token_def)

text \<open>A token is back after the refill time.\<close>

lemma token_back:
  assumes b: "bucket_ok b" and t: "0 \<le> sint (fLast b)" "sint (fLast b) + fRefillMs b \<le> sint now" "sint now < 2 ^ 53"
  shows "fst (take_token (refilled b now))"
proof -
  have r: "1 \<le> fRefillMs b" "0 \<le> fTokens b" "1 \<le> fCapacity b" using b by (auto simp: bucket_ok_def)
  have el: "sint (now - fLast b) = sint now - sint (fLast b)"
    using t r by (simp add: sint_word_ariths(2) signed_take_bit_int_eq_self)
  let ?e = "sint now - sint (fLast b)"
  have ex: "to_double (of_int ?e) = of_int ?e" using t r by (intro to_double_exact) linarith+
  have "(of_int (fRefillMs b) :: rat) \<le> of_int ?e" using t by (simp only: of_int_le_iff)
  then have "(1 :: rat) \<le> of_int ?e / of_int (fRefillMs b)" using r by (simp add: le_divide_eq)
  then have "1 \<le> to_double (of_int ?e / of_int (fRefillMs b))" using to_double_mono [of 1] by simp
  then have "1 \<le> to_double (fTokens b + to_double (of_int ?e / of_int (fRefillMs b)))"
    using to_double_mono [of 1] r by simp
  moreover have "(1 :: rat) \<le> of_int (fCapacity b)" using r by simp
  moreover have "?e > 0" using t r by linarith
  ultimately show ?thesis using b ex by (simp add: refilled_def take_token_def el Let_def del: of_int_diff)
qed

section \<open>How often the prompt is raised\<close>

primrec admits :: "Pairing \<Rightarrow> (Fingerprint \<times> string) list \<Rightarrow> (bool list \<times> Pairing) prog" where
  "admits pg [] = Ret ([], pg)"
| "admits pg (peer # peers) = pbind (Admit pg (fst peer) (snd peer)) (\<lambda>(ok, pg).
     pbind (admits pg peers) (\<lambda>(oks, pg). Ret (ok # oks, pg)))"

fun is_ask :: "syscall \<Rightarrow> bool" where
  "is_ask (Ask _ _ _) = True"
| "is_ask _ = False"

definition asks :: "syscall list \<Rightarrow> nat" where
  "asks lg = length (filter is_ask lg)"

lemma asks_simps [simp]: "asks [] = 0" "asks (c # lg) = (if is_ask c then 1 else 0) + asks lg"
  "asks (l1 @ l2) = asks l1 + asks l2"
  by (simp_all add: asks_def)

definition clock_between :: "int \<Rightarrow> int \<Rightarrow> syscall \<Rightarrow> reply \<Rightarrow> bool" where
  "clock_between lo hi c r \<longleftrightarrow> c = ClockMs \<longrightarrow> (\<exists>t. r = RClock t \<and> lo \<le> sint t \<and> sint t \<le> hi)"

lemma run_calls:
  "run sys (sys_clock c) s = (case sys c s of (r, s1) \<Rightarrow> (case r of RClock x \<Rightarrow> x | _ \<Rightarrow> 0, s1, [c]))"
  "run sys (sys_bool c) s = (case sys c s of (r, s1) \<Rightarrow> (case r of RBool x \<Rightarrow> x | _ \<Rightarrow> False, s1, [c]))"
  by (simp_all add: sys_clock_def sys_bool_def split: prod.split)

lemma asks_Save: "asks (calls sys (SaveToFile st p) s) = 0"
proof -
  have "wp (\<lambda>c. \<not> is_ask c) (\<lambda>_ _. True) (SaveToFile st p) (\<lambda>_. True)"
    by (auto simp: SaveToFile_def Let_def wp_simps split: reply.split)
  from wp_run [OF _ this, of sys s] show ?thesis
    by (auto simp: honest_def asks_def filter_empty_conv)
qed

lemma asks_Save_run: "run sys (SaveToFile st p) s = (a, s', lg) \<Longrightarrow> asks lg = 0"
  using asks_Save [of sys st p s] by (simp add: calls_def)

lemma Admit_run:
  assumes clock: "honest (clock_between lo hi) sys" and run: "run sys (Admit pg fp n) s = ((ok, pg'), s', lg)"
  shows "fPromptBucket pg' = fPromptBucket pg \<and> asks lg = 0 \<or>
    (\<exists>now. lo \<le> sint now \<and> sint now \<le> hi \<and>
      (let (taken, b) = take_token (refilled (fPromptBucket pg) now) in
        fPromptBucket pg' = b \<and> asks lg \<le> (if taken then 1 else 0)))"
proof -
  obtain now s1 where c: "sys ClockMs s = (RClock now, s1)" "lo \<le> sint now" "sint now \<le> hi"
    using clock unfolding honest_def clock_between_def by (metis fst_conv surj_pair)
  show ?thesis using run c
    by (auto simp: Admit_def Let_def run_pbind run_calls TryTake_def asks_Save_run split: if_splits prod.splits
      intro!: exI [of _ now])
qed

lemma Admit_potential:
  fixes hi :: int
  assumes clock: "honest (clock_between 0 hi) sys" and hi: "hi < 2 ^ 53"
    and run: "run sys (Admit pg fp n) s = ((ok, pg'), s', lg)"
    and b: "bucket_ok (fPromptBucket pg)" "0 \<le> sint (fLast (fPromptBucket pg))" "sint (fLast (fPromptBucket pg)) \<le> hi"
  shows "bucket_ok (fPromptBucket pg') \<and> 0 \<le> sint (fLast (fPromptBucket pg')) \<and> sint (fLast (fPromptBucket pg')) \<le> hi \<and>
    fRefillMs (fPromptBucket pg') = fRefillMs (fPromptBucket pg) \<and>
    fCapacity (fPromptBucket pg') = fCapacity (fPromptBucket pg) \<and>
    of_nat (asks lg) + fTokens (fPromptBucket pg') \<le> fTokens (fPromptBucket pg) +
      of_int (sint (fLast (fPromptBucket pg')) - sint (fLast (fPromptBucket pg))) / of_int (fRefillMs (fPromptBucket pg))
      + 3 * of_int (fCapacity (fPromptBucket pg)) / 2 ^ 53"
  using Admit_run [OF clock run]
proof (elim disjE exE conjE)
  assume "fPromptBucket pg' = fPromptBucket pg" "asks lg = 0"
  then show ?thesis using b by (simp add: bucket_ok_def)
next
  fix now assume now: "0 \<le> sint now" "sint now \<le> hi" and
    t: "let (taken, b) = take_token (refilled (fPromptBucket pg) now) in
        fPromptBucket pg' = b \<and> asks lg \<le> (if taken then 1 else 0)"
  let ?b = "fPromptBucket pg" and ?r = "refilled (fPromptBucket pg) now"
  have b': "fPromptBucket pg' = snd (take_token ?r)" and k: "asks lg \<le> (if fst (take_token ?r) then 1 else 0)"
    using t by (auto simp: Let_def split: prod.splits)
  note e = refilled_earns [OF b(1) b(3) now(2) b(2) now(1) hi]
  have sp: "(if fst (take_token ?r) then 1 else 0) + fTokens (snd (take_token ?r)) \<le> fTokens ?r + of_int (fCapacity ?b) / 2 ^ 53"
    using take_spends [OF bucket_ok_refilled [OF b(1), of now]] e by simp
  have "of_nat (asks lg) \<le> (if fst (take_token ?r) then 1 else (0 :: rat))" using k by (auto split: if_splits)
  moreover have "of_int (fCapacity ?b) / 2 ^ 52 + of_int (fCapacity ?b) / 2 ^ 53 = 3 * of_int (fCapacity ?b) / (2 ^ 53 :: rat)"
    by (simp add: field_simps)
  ultimately have "of_nat (asks lg) + fTokens (snd (take_token ?r)) \<le> fTokens ?b +
      of_int (sint (fLast ?r) - sint (fLast ?b)) / of_int (fRefillMs ?b) + 3 * of_int (fCapacity ?b) / 2 ^ 53"
    using e(1) sp by linarith
  then show ?thesis using b' e bucket_ok_take [OF bucket_ok_refilled [OF b(1), of now]] by simp
qed

lemma clock_weaken: "honest (clock_between lo hi) sys \<Longrightarrow> 0 \<le> lo \<Longrightarrow> honest (clock_between 0 hi) sys"
  unfolding honest_def clock_between_def by (meson order_trans)

lemma admits_potential:
  fixes hi :: int
  assumes clock: "honest (clock_between 0 hi) sys" and hi: "hi < 2 ^ 53"
  shows "run sys (admits pg peers) s = ((oks, pg'), s', lg) \<Longrightarrow> bucket_ok (fPromptBucket pg) \<Longrightarrow>
    0 \<le> sint (fLast (fPromptBucket pg)) \<Longrightarrow> sint (fLast (fPromptBucket pg)) \<le> hi \<Longrightarrow>
    fTokens (fPromptBucket pg') \<ge> 0 \<and> sint (fLast (fPromptBucket pg')) \<le> hi \<and>
    of_nat (asks lg) + fTokens (fPromptBucket pg') \<le> fTokens (fPromptBucket pg) +
      of_int (sint (fLast (fPromptBucket pg')) - sint (fLast (fPromptBucket pg))) / of_int (fRefillMs (fPromptBucket pg))
      + of_nat (length peers) * (3 * of_int (fCapacity (fPromptBucket pg)) / 2 ^ 53)"
proof (induction peers arbitrary: pg s oks lg)
  case Nil
  then show ?case by (auto simp: bucket_ok_def)
next
  case (Cons peer peers)
  obtain ok pg1 s1 l1 where one: "run sys (Admit pg (fst peer) (snd peer)) s = ((ok, pg1), s1, l1)"
    by (metis prod.exhaust)
  obtain oks2 l2 where two: "run sys (admits pg1 peers) s1 = ((oks2, pg'), s', l2)" and lg: "lg = l1 @ l2"
    using Cons.prems(1) one by (auto simp: run_pbind split: prod.splits)
  note p = Admit_potential [OF clock hi one Cons.prems(2-4)]
  then have q: "fTokens (fPromptBucket pg') \<ge> 0 \<and> sint (fLast (fPromptBucket pg')) \<le> hi \<and>
    of_nat (asks l2) + fTokens (fPromptBucket pg') \<le> fTokens (fPromptBucket pg1) +
      of_int (sint (fLast (fPromptBucket pg')) - sint (fLast (fPromptBucket pg1))) / of_int (fRefillMs (fPromptBucket pg))
      + of_nat (length peers) * (3 * of_int (fCapacity (fPromptBucket pg)) / 2 ^ 53)"
    using Cons.IH [OF two] by auto
  have "of_int (sint (fLast (fPromptBucket pg')) - sint (fLast (fPromptBucket pg))) =
      of_int (sint (fLast (fPromptBucket pg1)) - sint (fLast (fPromptBucket pg))) +
      (of_int (sint (fLast (fPromptBucket pg')) - sint (fLast (fPromptBucket pg1))) :: rat)"
    by (simp only: of_int_add [symmetric])
  then show ?case using p q unfolding lg
    by (simp only: simp_thms mult_1 asks_simps of_nat_add add_divide_distrib length_Cons of_nat_Suc distrib_right) linarith
qed

lemma Pairing_run:
  assumes "honest (clock_between lo hi) sys" and "0 \<le> lo"
    and "1 \<le> burst" "burst < 2 ^ 31" "1 \<le> refillMs" "refillMs < 2 ^ 53"
    and "run sys (Pairing store path burst refillMs) s = (pg, s', lg)"
  shows "asks lg = 0 \<and> bucket_ok (fPromptBucket pg) \<and> fTokens (fPromptBucket pg) = of_int burst \<and>
    fCapacity (fPromptBucket pg) = burst \<and> fRefillMs (fPromptBucket pg) = refillMs \<and>
    lo \<le> sint (fLast (fPromptBucket pg)) \<and> sint (fLast (fPromptBucket pg)) \<le> hi"
proof -
  obtain now s1 where c: "sys ClockMs s = (RClock now, s1)" "lo \<le> sint now" "sint now \<le> hi"
    using assms(1) unfolding honest_def clock_between_def by (metis fst_conv surj_pair)
  have "to_double (of_int burst) = of_int burst" using assms by (intro to_double_exact) auto
  then show ?thesis using assms c
    by (auto simp: Pairing_def TokenBucket_def run_pbind run_calls bucket_ok_def)
qed

lemma admits_asks:
  assumes clock: "honest (clock_between lo hi) sys" "0 \<le> lo" "hi < 2 ^ 53"
    and limits: "1 \<le> burst" "burst < 2 ^ 31" "1 \<le> refillMs" "refillMs < 2 ^ 53"
    and few: "int (length peers) * (3 * burst) < 2 ^ 53"
  shows "int (asks (calls sys (pbind (Pairing store path burst refillMs) (\<lambda>pg. admits pg peers)) s)) \<le>
    burst + (hi - lo) div refillMs + 1"
proof -
  obtain pg s1 l1 where one: "run sys (Pairing store path burst refillMs) s = (pg, s1, l1)" by (metis prod.exhaust)
  obtain oks pg' s2 l2 where two: "run sys (admits pg peers) s1 = ((oks, pg'), s2, l2)" by (metis prod.exhaust)
  note a = Pairing_run [OF clock(1,2) limits one]
  have lo: "0 \<le> sint (fLast (fPromptBucket pg))" using a clock(2) by linarith
  note b = admits_potential [OF clock_weaken [OF clock(1,2)] clock(3) two]
  have b': "of_nat (asks l2) \<le> of_int burst +
      of_int (sint (fLast (fPromptBucket pg')) - sint (fLast (fPromptBucket pg))) / of_int refillMs
      + of_nat (length peers) * (3 * of_int burst / (2 ^ 53 :: rat))"
    and e: "sint (fLast (fPromptBucket pg')) \<le> hi"
    using b a lo by auto
  have "(of_int (int (length peers) * (3 * burst)) :: rat) < of_int (2 ^ 53)"
    using few by (simp only: of_int_less_iff)
  then have err: "of_nat (length peers) * (3 * of_int burst / (2 ^ 53 :: rat)) < 1" by simp
  have "(of_int (sint (fLast (fPromptBucket pg')) - sint (fLast (fPromptBucket pg))) :: rat) \<le> of_int (hi - lo)"
    using a e by (intro of_int_le_iff [THEN iffD2]) linarith
  then have "of_int (sint (fLast (fPromptBucket pg')) - sint (fLast (fPromptBucket pg))) / of_int refillMs \<le>
      (of_int (hi - lo) / of_int refillMs :: rat)"
    using limits by (intro divide_right_mono) simp_all
  with b' err have "of_int (int (asks l2) - burst - 1) < (of_int (hi - lo) / of_int refillMs :: rat)"
    unfolding of_int_diff of_int_of_nat_eq of_int_1 by linarith
  then have "int (asks l2) - burst - 1 \<le> \<lfloor>of_int (hi - lo) / (of_int refillMs :: rat)\<rfloor>"
    by (simp only: le_floor_iff)
  then have "int (asks l2) - burst - 1 \<le> (hi - lo) div refillMs" by (simp only: floor_divide_of_int_eq)
  moreover have "asks (calls sys (pbind (Pairing store path burst refillMs) (\<lambda>pg. admits pg peers)) s) = asks l2"
    using one two a by (simp add: calls_def run_pbind)
  ultimately show ?thesis by linarith
qed

section \<open>Whom it admits\<close>

text \<open>What is known of the user: \<open>A\<close> holds of every fingerprint the prompt was ever allowed for.\<close>

definition user_allows :: "(Fingerprint \<Rightarrow> bool) \<Rightarrow> syscall \<Rightarrow> reply \<Rightarrow> bool" where
  "user_allows A c r \<longleftrightarrow> (\<forall>n fp d. c = Ask n fp d \<longrightarrow> r = RBool True \<longrightarrow> A fp)"

text \<open>The calls of the pairing policy and its store.\<close>

fun pairing_call :: "syscall \<Rightarrow> bool" where
  "pairing_call ClockMs = True"
| "pairing_call (Ask _ _ _) = True"
| "pairing_call (WriteFile _ _) = True"
| "pairing_call (Chmod _ _) = True"
| "pairing_call (Rename _ _) = True"
| "pairing_call _ = False"

text \<open>Every pinned peer was pinned at the start or allowed by the user.\<close>

definition vouched :: "(Fingerprint \<Rightarrow> bool) \<Rightarrow> TrustStore \<Rightarrow> bool" where
  "vouched A st \<longleftrightarrow> (\<forall>fp. IsTrusted fp st \<longrightarrow> A fp)"

lemma vouched_Pin: "vouched A st \<Longrightarrow> A fp \<Longrightarrow> vouched A (Pin fp n st)"
  by (auto simp: vouched_def IsTrusted_pinned pinned_Pin split: if_splits)

lemma IsTrusted_Pin: "IsTrusted fp (Pin fp' n st) \<longleftrightarrow> fp = fp' \<or> IsTrusted fp st"
  by (auto simp: IsTrusted_pinned pinned_Pin)

lemma wp_Save: "wp pairing_call Q (SaveToFile st p) (\<lambda>_. True)"
  by (auto simp: SaveToFile_def Let_def wp_simps split: reply.split)

lemma wp_Admit:
  assumes "vouched A (fStore pg)"
  shows "wp pairing_call (user_allows A) (Admit pg fp n) (\<lambda>(ok, pg').
    vouched A (fStore pg') \<and> (ok \<longrightarrow> fp \<noteq> kNone \<and> A fp \<and> IsTrusted fp (fStore pg')) \<and>
    (\<not> ok \<longrightarrow> fStore pg' = fStore pg) \<and> (\<forall>fp'. IsTrusted fp' (fStore pg) \<longrightarrow> IsTrusted fp' (fStore pg')))"
proof -
  have trusted: "A fp" if "Evaluate fp n (fStore pg) = kTrusted"
    using that assms by (simp add: Evaluate_trusted vouched_def)
  show ?thesis using assms trusted
    by (auto simp: Admit_def Let_def TryTake_def wp_simps Evaluate_trusted user_allows_def vouched_Pin IsTrusted_Pin
      intro!: wp_mono [OF wp_Save] split: reply.split prod.splits)
qed

lemma Admit_trusted: "fp \<noteq> kNone \<Longrightarrow> IsTrusted fp (fStore pg) \<Longrightarrow> Admit pg fp n = Ret (True, pg)"
  by (simp add: Admit_def Evaluate_trusted)

end
