(* ===== verification/Gate.thy ===== *)
theory Gate
  imports Pairing ServerConnection
begin

text \<open>
  The pairing gate in front of a handler (\<open>server/GatedHandler.cpp\<close>) and the node that puts it in
  front of the file server for every peer that connects (\<open>server/Daemon.cpp\<close>,
  \<open>server/ServerNode.cpp\<close>). What holds of any handler the dispatcher calls is proved in the interface
  \<open>request_handler\<close>.
\<close>

section \<open>The gate\<close>

record 'h gate =
  fPeer :: Fingerprint
  fInner :: 'h
  fAdmitted :: bool

type_synonym 'h handler = "'h \<Rightarrow> Frame \<Rightarrow> (Frame \<times> 'h) prog"

definition GatedHandler :: "Fingerprint \<Rightarrow> 'h \<Rightarrow> 'h gate" where
  "GatedHandler peer inner = \<lparr>fPeer = peer, fInner = inner, fAdmitted = False\<rparr>"

definition GatedHandle :: "'h handler \<Rightarrow> 'h gate \<Rightarrow> Pairing \<Rightarrow> Frame \<Rightarrow> (Frame \<times> 'h gate \<times> Pairing) prog" where
  "GatedHandle inner_Handle g pg request =
    (let forward = (\<lambda>g pg. pbind (inner_Handle (fInner g) request) (\<lambda>(reply, h).
           Ret (reply, g\<lparr>fInner := h\<rparr>, pg))) in
     if \<not> fAdmitted g then
       if fr_type request \<noteq> kHello then Ret (MakeError kAccessDenied [] 0, g, pg)
       else case DecodeNodeIdentity (fr_payload request) of
         None \<Rightarrow> Ret (MakeError kInvalidRequest [] 0, g, pg)
       | Some nid \<Rightarrow>
           if \<not> Equals (ni_fingerprint nid) (fPeer g) then Ret (MakeError kAccessDenied [] 0, g, pg)
           else pbind (Admit pg (fPeer g) (ni_node nid)) (\<lambda>(admitted, pg).
             if \<not> admitted then Ret (MakeError kAccessDenied [] 0, g, pg)
             else forward (g\<lparr>fAdmitted := True\<rparr>) pg)
     else forward g pg)"

text \<open>\<open>SetFrameSink\<close> of \<open>RequestHandler\<close>, which the gate does not override.\<close>

definition Gated_SetFrameSink :: "bool \<Rightarrow> 'h gate \<Rightarrow> 'h gate" where
  "Gated_SetFrameSink installed g = g"

definition GatedHandlerFactory_Create :: "'h option \<Rightarrow> Fingerprint \<Rightarrow> 'h gate option" where
  "GatedHandlerFactory_Create inner peer = (case inner of
     None \<Rightarrow> None
   | Some h \<Rightarrow> Some (GatedHandler peer h))"

section \<open>The node\<close>

text \<open>
  \<open>nd_conns\<close> are the peer threads with their handlers, under the number of the connection. The
  steps of a node: a peer's channel is up (accepted, its TLS handshake done), a request was
  received on a connection, a connection ended.
\<close>

record node =
  nd_haiku :: bool
  nd_factory :: server_factory
  nd_pairing :: Pairing
  nd_conns :: "(nat \<times> server gate) list"
  nd_next :: nat

datatype event = Accept Fingerprint | Request nat Frame | Closed nat

definition node_accept :: "node \<Rightarrow> Fingerprint \<Rightarrow> node" where
  "node_accept nd peer =
    (case GatedHandlerFactory_Create (FileServerFactory_Create (nd_haiku nd) (nd_factory nd)) peer of
       None \<Rightarrow> nd
     | Some g \<Rightarrow> nd\<lparr>nd_conns := (nd_next nd, Gated_SetFrameSink True g) # nd_conns nd, nd_next := nd_next nd + 1\<rparr>)"

definition node_request :: "node \<Rightarrow> nat \<Rightarrow> Frame \<Rightarrow> (Frame option \<times> node) prog" where
  "node_request nd i request = (case map_of (nd_conns nd) i of
     None \<Rightarrow> Ret (None, nd)
   | Some g \<Rightarrow> pbind (GatedHandle Handle g (nd_pairing nd) request) (\<lambda>(reply, g, pg).
       Ret (Some (reply\<lparr>fr_requestId := fr_requestId request\<rparr>),
            nd\<lparr>nd_conns := AList.update i g (nd_conns nd), nd_pairing := pg\<rparr>)))"

definition node_closed :: "node \<Rightarrow> nat \<Rightarrow> node prog" where
  "node_closed nd i = (case map_of (nd_conns nd) i of
     None \<Rightarrow> Ret nd
   | Some g \<Rightarrow> pbind (FileServer_destroy (fInner (Gated_SetFrameSink False g))) (\<lambda>_.
       Ret (nd\<lparr>nd_conns := AList.delete i (nd_conns nd)\<rparr>)))"

fun node_step :: "node \<Rightarrow> event \<Rightarrow> (Frame option \<times> node) prog" where
  "node_step nd (Accept peer) = Ret (None, node_accept nd peer)"
| "node_step nd (Request i request) = node_request nd i request"
| "node_step nd (Closed i) = pbind (node_closed nd i) (\<lambda>nd. Ret (None, nd))"

primrec node_run :: "'os system \<Rightarrow> node \<Rightarrow> event list \<Rightarrow> 'os \<Rightarrow> (node \<times> event \<times> Frame option \<times> syscall list) list \<times> node \<times> 'os" where
  "node_run sys nd [] s = ([], nd, s)"
| "node_run sys nd (e # es) s =
    (case run sys (node_step nd e) s of ((reply, nd1), s1, l) \<Rightarrow>
      case node_run sys nd1 es s1 of (tr, nd2, s2) \<Rightarrow> ((nd, e, reply, l) # tr, nd2, s2))"

text \<open>
  \<open>ServerNode::Start\<close>. The identity (\<open>None\<close> if it cannot be loaded or made), the TLS context, the
  listener and the accept thread are not in this model: their outcomes are arguments.
\<close>

record ServerConfig =
  identityPath :: string
  trustStorePath :: string
  sharedRoot :: string
  nodeName :: string
  bindHost :: string
  port :: u16
  cfg_writable :: bool

definition ServerNode_Start :: "bool \<Rightarrow> Fingerprint option \<Rightarrow> bool \<Rightarrow> bool \<Rightarrow> bool \<Rightarrow> ServerConfig \<Rightarrow> (string + node) prog" where
  "ServerNode_Start haiku identity tls_ok listen_ok daemon_ok config = (case identity of
     None \<Rightarrow> Ret (Inl ''identity load or generate failed'')
   | Some fp \<Rightarrow> pbind (LoadFromFile [] (trustStorePath config)) (\<lambda>(_, store).
       if \<not> tls_ok then Ret (Inl ''TLS context init failed'')
       else if \<not> listen_ok then Ret (Inl ''listen failed'')
       else let nodeId = \<lparr>ni_version = ucast kProtocolVersion, ni_fingerprint = fp, ni_caps = [kCapBfs], ni_node = nodeName config\<rparr> in
         pbind (FileServerFactory (sharedRoot config) nodeId (cfg_writable config)) (\<lambda>factory.
           if \<not> FileServerFactory_IsValid factory then Ret (Inl ''shared root did not resolve'')
           else pbind (Pairing store (trustStorePath config) default_burst default_refillMs) (\<lambda>pg.
             if \<not> daemon_ok then Ret (Inl ''daemon start failed'')
             else Ret (Inr \<lparr>nd_haiku = haiku, nd_factory = factory, nd_pairing = pg, nd_conns = [], nd_next = 0\<rparr>)))))"

section \<open>A gate in front of any handler\<close>

text \<open>A refusal of the gate.\<close>

definition refusal :: "Frame \<Rightarrow> bool" where
  "refusal reply \<longleftrightarrow> (\<exists>code \<in> {kAccessDenied, kInvalidRequest}. reply = MakeError code [] 0)"

lemma reply_for_MakeError [simp]: "reply_for t (MakeError code msg rid)"
  by (simp add: reply_for_def MakeError_def mkFrame_def)

text \<open>What the gate may do on its own behalf: read the clock, ask the user, save its store.\<close>

fun gate_call :: "string \<Rightarrow> syscall \<Rightarrow> bool" where
  "gate_call path ClockMs = True"
| "gate_call path (Ask _ _ _) = True"
| "gate_call path (WriteFile p _) = (path \<noteq> [] \<and> p = path @ ''.tmp'')"
| "gate_call path (Chmod p _) = (path \<noteq> [] \<and> p = path @ ''.tmp'')"
| "gate_call path (Rename p q) = (path \<noteq> [] \<and> p = path @ ''.tmp'' \<and> q = path)"
| "gate_call path _ = False"

lemma wp_Admit_calls:
  "wp (gate_call (fStorePath pg)) Q (Admit pg fp n) (\<lambda>(ok, pg'). fStorePath pg' = fStorePath pg)"
  by (auto simp: Admit_def Let_def TryTake_def SaveToFile_def wp_simps split: reply.split prod.splits)

context handler_policy
begin

lemma gated:
  assumes "ok (fInner g)"
  shows "wp (\<lambda>c. gate_call (fStorePath pg) c \<or> allowed c) answers (GatedHandle handle g pg request)
    (\<lambda>(reply, g', pg'). ok (fInner g') \<and> fPeer g' = fPeer g \<and> (fAdmitted g \<longrightarrow> fAdmitted g') \<and>
       fStorePath pg' = fStorePath pg \<and> reply_for (answer_type (fr_type request)) reply)"
proof -
  have inner: "wp (\<lambda>c. gate_call (fStorePath pg) c \<or> allowed c) answers (handle (fInner g) request)
      (\<lambda>(reply, h'). ok h' \<and> reply_for (answer_type (fr_type request)) reply)"
    by (rule wp_calls_mono [OF handles [OF assms]]) simp
  have adm: "wp (\<lambda>c. gate_call (fStorePath pg) c \<or> allowed c) answers (Admit pg (fPeer g) n)
      (\<lambda>(ok, pg'). fStorePath pg' = fStorePath pg)" for n
    by (rule wp_calls_mono [OF wp_Admit_calls]) simp
  show ?thesis using assms
    by (auto simp: GatedHandle_def Let_def wp_pbind intro!: wp_mono [OF inner] wp_mono [OF adm] split: option.split)
qed

end

text \<open>What the gate itself promises, whatever is behind it.\<close>

definition gate_ok :: "(Fingerprint \<Rightarrow> bool) \<Rightarrow> 'h gate \<Rightarrow> bool" where
  "gate_ok A g \<longleftrightarrow> (fAdmitted g \<longrightarrow> A (fPeer g) \<and> fPeer g \<noteq> kNone)"

lemma gate_keeps:
  assumes "vouched A (fStore pg)" and "gate_ok A g"
    and inner: "\<And>h. wp (\<lambda>_. True) (user_allows A) (handle h request) (\<lambda>_. True)"
  shows "wp (\<lambda>_. True) (user_allows A) (GatedHandle handle g pg request)
    (\<lambda>(reply, g', pg'). vouched A (fStore pg') \<and> gate_ok A g' \<and> fPeer g' = fPeer g)"
proof -
  have adm: "wp (\<lambda>_. True) (user_allows A) (Admit pg (fPeer g) n) (\<lambda>(ok, pg').
      vouched A (fStore pg') \<and> (ok \<longrightarrow> fPeer g \<noteq> kNone \<and> A (fPeer g)))" for n
    by (rule wp_mono [OF wp_calls_mono [OF wp_Admit [OF assms(1)]]]) auto
  show ?thesis using assms(1,2)
    by (auto simp: GatedHandle_def Let_def wp_pbind gate_ok_def intro!: wp_mono [OF inner] wp_mono [OF adm]
      split: option.split)
qed

text \<open>A peer the user never allowed reaches the gate only.\<close>

definition stranger_call :: "syscall \<Rightarrow> bool" where
  "stranger_call c \<longleftrightarrow> c = ClockMs \<or> (\<exists>n fp d. c = Ask n fp d)"

lemma stranger_Admit:
  assumes "vouched A (fStore pg)" and "\<not> A fp"
  shows "wp stranger_call (user_allows A) (Admit pg fp n) (\<lambda>(ok, pg'). \<not> ok \<and> fStore pg' = fStore pg)"
proof -
  have "Evaluate fp n (fStore pg) \<noteq> kTrusted" using assms by (auto simp: Evaluate_trusted vouched_def)
  with assms(2) show ?thesis
    by (auto simp: Admit_def Let_def TryTake_def wp_simps stranger_call_def user_allows_def split: reply.split prod.splits)
qed

lemma stranger_refused:
  assumes "vouched A (fStore pg)" and "\<not> A (fPeer g)" and "\<not> fAdmitted g"
  shows "wp stranger_call (user_allows A) (GatedHandle handle g pg request)
    (\<lambda>(reply, g', pg'). refusal reply \<and> g' = g \<and> fStore pg' = fStore pg)"
  using assms stranger_Admit [OF assms(1,2)]
  by (auto simp: GatedHandle_def Let_def wp_pbind refusal_def intro!: wp_mono [OF stranger_Admit [OF assms(1,2)]]
    split: option.split)

section \<open>All the peers of a node\<close>

definition fresh_node :: "bool \<Rightarrow> server_factory \<Rightarrow> Pairing \<Rightarrow> node" where
  "fresh_node haiku factory pg = \<lparr>nd_haiku = haiku, nd_factory = factory, nd_pairing = pg, nd_conns = [], nd_next = 0\<rparr>"

text \<open>Induction along a run: what every step keeps, and what every step shows.\<close>

lemma node_run_induct:
  assumes "\<And>nd e. I nd \<Longrightarrow> wp (S nd e) Q (node_step nd e) (\<lambda>(reply, nd'). I nd' \<and> T nd e reply)"
    and "honest Q sys" and "I nd" and "node_run sys nd es s = (tr, nd', s')"
  shows "I nd' \<and> list_all (\<lambda>(nd, e, reply, lg). I nd \<and> T nd e reply \<and> list_all (S nd e) lg) tr"
  using assms(3,4)
proof (induction es arbitrary: nd s tr)
  case (Cons e es)
  obtain reply nd1 s1 l where one: "run sys (node_step nd e) s = ((reply, nd1), s1, l)" by (metis prod.exhaust)
  obtain tr2 where two: "node_run sys nd1 es s1 = (tr2, nd', s')" and tr: "tr = (nd, e, reply, l) # tr2"
    using Cons.prems(2) one by (auto split: prod.splits)
  have "I nd1 \<and> T nd e reply \<and> list_all (S nd e) l"
    using wp_run [OF assms(2) assms(1) [OF Cons.prems(1), of e], of s] one by (simp add: result_def calls_def list_all_iff)
  then show ?case using Cons.IH [OF _ two] Cons.prems(1) tr by simp
qed simp

lemma node_run_all:
  assumes "\<And>nd e. I nd \<Longrightarrow> wp (S nd e) Q (node_step nd e) (\<lambda>(reply, nd'). I nd' \<and> T nd e reply)"
    and "honest Q sys" and "I nd" and "node_run sys nd es s = (tr, nd', s')"
    and "\<And>nd e reply lg. I nd \<Longrightarrow> T nd e reply \<Longrightarrow> list_all (S nd e) lg \<Longrightarrow> R nd e reply lg"
  shows "list_all (\<lambda>(nd, e, reply, lg). R nd e reply lg) tr"
  using node_run_induct [of I S Q T, OF assms(1-4)] assms(5) by (auto elim!: list.pred_mono_strong)

text \<open>One step, from what holds of the handlers of the connections.\<close>

lemma node_step_keeps:
  assumes conns: "\<forall>(i, g) \<in> set (nd_conns nd). G g" and pg: "P (nd_pairing nd)"
    and fresh: "\<And>peer sv. FileServerFactory_Create (nd_haiku nd) (nd_factory nd) = Some sv \<Longrightarrow> G (GatedHandler peer sv)"
    and handle: "\<And>g request i. map_of (nd_conns nd) i = Some g \<Longrightarrow> e = Request i request \<Longrightarrow> G g \<Longrightarrow>
      wp C Q (GatedHandle Handle g (nd_pairing nd) request)
        (\<lambda>(reply, g', pg'). G g' \<and> P pg' \<and> T g request reply)"
    and destroy: "\<And>g i. e = Closed i \<Longrightarrow> G g \<Longrightarrow> wp C Q (FileServer_destroy (fInner g)) (\<lambda>_. True)"
  shows "wp C Q (node_step nd e) (\<lambda>(reply, nd').
    ((\<forall>(i, g) \<in> set (nd_conns nd'). G g) \<and> P (nd_pairing nd') \<and>
      nd_haiku nd' = nd_haiku nd \<and> nd_factory nd' = nd_factory nd) \<and>
    (\<forall>i request g. e = Request i request \<longrightarrow> map_of (nd_conns nd) i = Some g \<longrightarrow>
      (\<exists>r. reply = Some (r\<lparr>fr_requestId := fr_requestId request\<rparr>) \<and> T g request r)))"
proof (cases e)
  case (Accept peer)
  then show ?thesis using conns pg fresh
    by (auto simp: node_accept_def GatedHandlerFactory_Create_def Gated_SetFrameSink_def split: option.splits)
next
  case (Request i request)
  show ?thesis
  proof (cases "map_of (nd_conns nd) i")
    case (Some g)
    then have "G g" using conns by (auto dest: map_of_SomeD)
    then show ?thesis using Request Some conns
      by (auto simp: node_request_def wp_pbind intro!: wp_mono [OF handle [OF Some Request]]
        dest!: subsetD [OF set_AList_update])
  qed (use Request conns pg in \<open>auto simp: node_request_def\<close>)
next
  case (Closed i)
  show ?thesis
  proof (cases "map_of (nd_conns nd) i")
    case (Some g)
    then have "G g" using conns by (auto dest: map_of_SomeD)
    then show ?thesis using Closed Some conns pg
      by (auto simp: node_closed_def wp_pbind Gated_SetFrameSink_def intro!: wp_mono [OF destroy [OF Closed]]
        dest!: subsetD [OF set_AList_delete])
  qed (use Closed conns pg in \<open>auto simp: node_closed_def\<close>)
qed

lemma strangers_step:
  assumes "vouched A (fStore (nd_pairing nd))" and "\<forall>(i, g) \<in> set (nd_conns nd). gate_ok A g"
  shows "wp (\<lambda>c. \<forall>i request g. e = Request i request \<longrightarrow> map_of (nd_conns nd) i = Some g \<longrightarrow> \<not> A (fPeer g) \<longrightarrow>
      stranger_call c) (user_allows A) (node_step nd e) (\<lambda>(reply, nd').
    ((\<forall>(i, g) \<in> set (nd_conns nd'). gate_ok A g) \<and> vouched A (fStore (nd_pairing nd')) \<and>
      nd_haiku nd' = nd_haiku nd \<and> nd_factory nd' = nd_factory nd) \<and>
    (\<forall>i request g. e = Request i request \<longrightarrow> map_of (nd_conns nd) i = Some g \<longrightarrow>
      (\<exists>r. reply = Some (r\<lparr>fr_requestId := fr_requestId request\<rparr>) \<and> (\<not> A (fPeer g) \<longrightarrow> refusal r))))"
proof (rule node_step_keeps [where G = "gate_ok A" and P = "\<lambda>pg. vouched A (fStore pg)"
      and T = "\<lambda>g request r. \<not> A (fPeer g) \<longrightarrow> refusal r", OF assms(2,1)])
  fix g request i assume g: "map_of (nd_conns nd) i = Some g" and e: "e = Request i request" and ok: "gate_ok A g"
  let ?S = "\<lambda>c. \<forall>i request g. e = Request i request \<longrightarrow> map_of (nd_conns nd) i = Some g \<longrightarrow> \<not> A (fPeer g) \<longrightarrow> stranger_call c"
  show "wp ?S (user_allows A) (GatedHandle Handle g (nd_pairing nd) request)
     (\<lambda>(reply, g', pg'). gate_ok A g' \<and> vouched A (fStore pg') \<and> (\<not> A (fPeer g) \<longrightarrow> refusal reply))"
  proof (cases "A (fPeer g)")
    case True
    have "wp (\<lambda>_. True) (user_allows A) (GatedHandle Handle g (nd_pairing nd) request)
       (\<lambda>(reply, g', pg'). vouched A (fStore pg') \<and> gate_ok A g' \<and> fPeer g' = fPeer g)"
      by (rule gate_keeps [OF assms(1) ok]) (simp add: wp_any)
    then show ?thesis using True g e by (auto elim!: wp_mono [OF wp_calls_mono])
  next
    case False
    then have "\<not> fAdmitted g" using ok by (simp add: gate_ok_def)
    from stranger_refused [OF assms(1) False this]
    have "wp stranger_call (user_allows A) (GatedHandle Handle g (nd_pairing nd) request)
       (\<lambda>(reply, g', pg'). refusal reply \<and> g' = g \<and> fStore pg' = fStore (nd_pairing nd))" .
    then show ?thesis using ok assms(1) by (auto elim!: wp_mono [OF wp_calls_mono])
  qed
next
  show "gate_ok A (GatedHandler peer sv)" for peer sv by (simp add: gate_ok_def GatedHandler_def)
next
  fix g i assume "e = Closed i"
  then show "wp (\<lambda>c. \<forall>i request g. e = Request i request \<longrightarrow> map_of (nd_conns nd) i = Some g \<longrightarrow> \<not> A (fPeer g) \<longrightarrow>
      stranger_call c) (user_allows A) (FileServer_destroy (fInner g)) (\<lambda>_. True)"
    by (intro wp_calls_mono [OF wp_any]) auto
qed

text \<open>The policies of the file server, for all the connections of a node.\<close>

context call_policy
begin

lemma node_holds:
  assumes fresh: "\<And>sv. FileServerFactory_Create haiku factory = Some sv \<Longrightarrow> sv_ok sv"
    and "honest answers sys" and "node_run sys (fresh_node haiku factory pg) es s = (tr, nd', s')"
  shows "list_all (\<lambda>(nd, e, reply, lg).
     list_all (\<lambda>c. gate_call (fStorePath pg) c \<or> allowed c) lg \<and>
     (\<forall>i request g. e = Request i request \<longrightarrow> map_of (nd_conns nd) i = Some g \<longrightarrow>
       (\<exists>r. reply = Some (r\<lparr>fr_requestId := fr_requestId request\<rparr>) \<and> reply_for (answer_type (fr_type request)) r))) tr"
proof -
  let ?I = "\<lambda>nd. (\<forall>(i, g) \<in> set (nd_conns nd). sv_ok (fInner g)) \<and> fStorePath (nd_pairing nd) = fStorePath pg \<and>
      nd_haiku nd = haiku \<and> nd_factory nd = factory"
  have step: "wp (\<lambda>c. gate_call (fStorePath pg) c \<or> allowed c) answers (node_step nd e) (\<lambda>(reply, nd'). ?I nd' \<and>
    (\<forall>i request g. e = Request i request \<longrightarrow> map_of (nd_conns nd) i = Some g \<longrightarrow>
      (\<exists>r. reply = Some (r\<lparr>fr_requestId := fr_requestId request\<rparr>) \<and> reply_for (answer_type (fr_type request)) r)))"
    if I: "?I nd" for nd e
  proof (rule wp_mono [OF node_step_keeps [where G = "\<lambda>g. sv_ok (fInner g)" and P = "\<lambda>q. fStorePath q = fStorePath pg"
      and T = "\<lambda>g request r. reply_for (answer_type (fr_type request)) r"]])
    fix g :: "server gate" and request i assume "sv_ok (fInner g)"
    from serving.gated [OF this, of "nd_pairing nd" request] I
    show "wp (\<lambda>c. gate_call (fStorePath pg) c \<or> allowed c) answers (GatedHandle Handle g (nd_pairing nd) request)
       (\<lambda>(reply, g', pg'). sv_ok (fInner g') \<and> fStorePath pg' = fStorePath pg \<and> reply_for (answer_type (fr_type request)) reply)"
      by (auto elim!: wp_mono)
  next
    fix g :: "server gate" assume "sv_ok (fInner g)"
    from holds_destroy [OF this]
    show "wp (\<lambda>c. gate_call (fStorePath pg) c \<or> allowed c) answers (FileServer_destroy (fInner g)) (\<lambda>_. True)"
      by (rule wp_calls_mono) simp
  qed (use I fresh in \<open>auto simp: GatedHandler_def\<close>)
  have init: "?I (fresh_node haiku factory pg)" by (simp add: fresh_node_def)
  show ?thesis by (rule node_run_all [where I = ?I, OF step assms(2) init assms(3)]) auto
qed

end

end
