(* ===== verification/Dispatch.thy ===== *)
theory Dispatch
  imports Frame "HOL-Library.AList" "HOL-Library.Sublist"
begin

text \<open>
  One connection, from both ends: the writer thread (\<open>dispatch/FrameWriter.cpp\<close>), the serve loop
  that shares it with the handler's pushes, and the client that matches replies to its requests
  (\<open>dispatch/Dispatch.cpp\<close>). The threads of the serve loop are a step relation; a step is what one
  thread does under the writer's lock, or one call on the channel.
\<close>

section \<open>The writer\<close>

datatype writer_thread = NotStarted | Waiting | Sending Frame | Exited

text \<open>\<open>fw_sent\<close> are the frames the channel took.\<close>

record FrameWriter =
  fMaxQueued :: nat
  fQueue :: "Frame list"
  fStop :: bool
  fStarted :: bool
  fFailed :: bool
  fThread :: writer_thread
  fw_sent :: "Frame list"

definition FrameWriter :: "nat \<Rightarrow> FrameWriter" where
  "FrameWriter maxQueued = \<lparr>fMaxQueued = maxQueued, fQueue = [], fStop = False, fStarted = False,
     fFailed = False, fThread = NotStarted, fw_sent = []\<rparr>"

definition Start :: "FrameWriter \<Rightarrow> FrameWriter" where
  "Start w = (if fStarted w then w else w\<lparr>fStarted := True, fThread := Waiting\<rparr>)"

definition Enqueue :: "Frame \<Rightarrow> FrameWriter \<Rightarrow> FrameWriter" where
  "Enqueue frame w =
    (if fStop w \<or> fFailed w then w
     else if length (fQueue w) \<ge> fMaxQueued w then w\<lparr>fFailed := True\<rparr>
     else w\<lparr>fQueue := fQueue w @ [frame]\<rparr>)"

text \<open>\<open>Stop\<close> up to the join, which waits for the thread to exit.\<close>

definition Stop :: "FrameWriter \<Rightarrow> FrameWriter" where
  "Stop w = w\<lparr>fStop := True\<rparr>"

text \<open>\<open>Run\<close>: the condition it waits for, what it does when woken, and what it does with a send's result.\<close>

definition Run_woken :: "FrameWriter \<Rightarrow> bool" where
  "Run_woken w \<longleftrightarrow> fQueue w \<noteq> [] \<or> fStop w \<or> fFailed w"

definition Run_next :: "FrameWriter \<Rightarrow> FrameWriter" where
  "Run_next w =
    (if fFailed w then w\<lparr>fThread := Exited\<rparr>
     else case fQueue w of
       [] \<Rightarrow> if fStop w then w\<lparr>fThread := Exited\<rparr> else w
     | frame # queue \<Rightarrow> w\<lparr>fQueue := queue, fThread := Sending frame\<rparr>)"

definition Run_sent :: "Frame \<Rightarrow> bool \<Rightarrow> FrameWriter \<Rightarrow> FrameWriter" where
  "Run_sent frame good w =
    (if \<not> good then w\<lparr>fFailed := True, fThread := Exited\<rparr>
     else w\<lparr>fThread := Waiting, fw_sent := fw_sent w @ [frame]\<rparr>)"

section \<open>ServeConnection\<close>

text \<open>
  Where the reader thread is: blocked in \<open>Receive\<close>, about to test \<open>writer.Failed()\<close>, out of the
  loop, past \<open>SetFrameSink(nullptr)\<close>, joining the writer, returned. The last four fields record the
  requests received, the replies, the frames pushed by the handler, and those the queue accepted.
\<close>

datatype reader_thread = Reading | Checking | Leaving | Unhooked | Joining | Returned

record 'h connection_state =
  cs_handler :: 'h
  cs_reader :: reader_thread
  cs_sink :: bool
  cs_writer :: FrameWriter
  cs_requests :: "Frame list"
  cs_replies :: "Frame list"
  cs_pushes :: "Frame list"
  cs_accepted :: "Frame list"

definition ServeConnection_start :: "'h \<Rightarrow> 'h connection_state" where
  "ServeConnection_start h = \<lparr>cs_handler = h, cs_reader = Reading, cs_sink = True,
     cs_writer = Start (FrameWriter 4096), cs_requests = [], cs_replies = [], cs_pushes = [], cs_accepted = []\<rparr>"

definition accepts :: "FrameWriter \<Rightarrow> bool" where
  "accepts w \<longleftrightarrow> \<not> fStop w \<and> \<not> fFailed w \<and> length (fQueue w) < fMaxQueued w"

definition enqueued :: "Frame \<Rightarrow> 'h connection_state \<Rightarrow> 'h connection_state" where
  "enqueued frame c = c\<lparr>cs_writer := Enqueue frame (cs_writer c),
     cs_accepted := cs_accepted c @ (if accepts (cs_writer c) then [frame] else [])\<rparr>"

definition answered :: "Frame \<Rightarrow> Frame \<Rightarrow> 'h \<Rightarrow> 'h connection_state \<Rightarrow> 'h connection_state" where
  "answered request reply h c = (let reply = reply\<lparr>fr_requestId := fr_requestId request\<rparr> in
     (enqueued reply c)\<lparr>cs_handler := h, cs_reader := Checking,
        cs_requests := cs_requests c @ [request], cs_replies := cs_replies c @ [reply]\<rparr>)"

text \<open>
  The steps, for a handler that may answer \<open>request\<close> in state \<open>h\<close> with \<open>reply\<close> and go to \<open>h'\<close>.
\<close>

inductive serve_step :: "('h \<Rightarrow> Frame \<Rightarrow> Frame \<Rightarrow> 'h \<Rightarrow> bool) \<Rightarrow> 'h connection_state \<Rightarrow> 'h connection_state \<Rightarrow> bool"
  for handles where
    receive: "cs_reader c = Reading \<Longrightarrow> handles (cs_handler c) request reply h' \<Longrightarrow>
      serve_step handles c (answered request reply h' c)"
  | check: "cs_reader c = Checking \<Longrightarrow>
      serve_step handles c (c\<lparr>cs_reader := if fFailed (cs_writer c) then Leaving else Reading\<rparr>)"
  | disconnect: "cs_reader c = Reading \<Longrightarrow> serve_step handles c (c\<lparr>cs_reader := Leaving\<rparr>)"
  | unhook: "cs_reader c = Leaving \<Longrightarrow> serve_step handles c (c\<lparr>cs_sink := False, cs_reader := Unhooked\<rparr>)"
  | stop: "cs_reader c = Unhooked \<Longrightarrow> serve_step handles c (c\<lparr>cs_writer := Stop (cs_writer c), cs_reader := Joining\<rparr>)"
  | join: "cs_reader c = Joining \<Longrightarrow> fThread (cs_writer c) = Exited \<Longrightarrow> serve_step handles c (c\<lparr>cs_reader := Returned\<rparr>)"
  | push: "cs_sink c \<Longrightarrow> serve_step handles c ((enqueued frame c)\<lparr>cs_pushes := cs_pushes c @ [frame]\<rparr>)"
  | wake: "fThread (cs_writer c) = Waiting \<Longrightarrow> Run_woken (cs_writer c) \<Longrightarrow>
      serve_step handles c (c\<lparr>cs_writer := Run_next (cs_writer c)\<rparr>)"
  | send: "fThread (cs_writer c) = Sending frame \<Longrightarrow>
      serve_step handles c (c\<lparr>cs_writer := Run_sent frame good (cs_writer c)\<rparr>)"

inductive serving :: "('h \<Rightarrow> Frame \<Rightarrow> Frame \<Rightarrow> 'h \<Rightarrow> bool) \<Rightarrow> 'h \<Rightarrow> 'h connection_state \<Rightarrow> bool" for handles h where
    start: "serving handles h (ServeConnection_start h)"
  | step: "serving handles h c \<Longrightarrow> serve_step handles c c' \<Longrightarrow> serving handles h c'"

text \<open>The writer's queue is what it has accepted and not yet sent.\<close>

definition in_flight :: "FrameWriter \<Rightarrow> Frame list" where
  "in_flight w = (case fThread w of Sending frame \<Rightarrow> [frame] | _ \<Rightarrow> [])"

definition writer_ok :: "Frame list \<Rightarrow> FrameWriter \<Rightarrow> bool" where
  "writer_ok accepted w \<longleftrightarrow> fMaxQueued w = 4096 \<and> length (fQueue w) \<le> 4096 \<and> fThread w \<noteq> NotStarted \<and>
     prefix (fw_sent w @ in_flight w) accepted \<and>
     (\<not> fFailed w \<longrightarrow> accepted = fw_sent w @ in_flight w @ fQueue w) \<and>
     (fThread w = Exited \<longrightarrow> fFailed w \<or> fStop w \<and> fQueue w = [])"

lemma writer_ok_Enqueue:
  "writer_ok acc w \<Longrightarrow> writer_ok (acc @ (if accepts w then [f] else [])) (Enqueue f w)"
  by (auto simp: writer_ok_def Enqueue_def accepts_def in_flight_def split: writer_thread.splits)

lemma writer_ok_Stop: "writer_ok acc w \<Longrightarrow> writer_ok acc (Stop w)"
  by (auto simp: writer_ok_def Stop_def in_flight_def split: writer_thread.splits)

lemma writer_ok_next: "writer_ok acc w \<Longrightarrow> fThread w = Waiting \<Longrightarrow> writer_ok acc (Run_next w)"
  by (auto simp: writer_ok_def Run_next_def in_flight_def split: list.splits)

lemma writer_ok_sent: "writer_ok acc w \<Longrightarrow> fThread w = Sending f \<Longrightarrow> writer_ok acc (Run_sent f good w)"
  by (auto simp: writer_ok_def Run_sent_def in_flight_def intro: append_prefixD)

text \<open>What the serve loop keeps.\<close>

definition serve_ok :: "'h connection_state \<Rightarrow> bool" where
  "serve_ok c \<longleftrightarrow> writer_ok (cs_accepted c) (cs_writer c) \<and>
     (fStop (cs_writer c) \<longleftrightarrow> cs_reader c \<in> {Joining, Returned}) \<and>
     (cs_sink c \<longleftrightarrow> cs_reader c \<in> {Reading, Checking, Leaving}) \<and>
     (cs_reader c = Returned \<longrightarrow> fThread (cs_writer c) = Exited) \<and>
     list_all2 (\<lambda>request reply. fr_requestId reply = fr_requestId request) (cs_requests c) (cs_replies c) \<and>
     (\<not> fFailed (cs_writer c) \<longrightarrow> cs_accepted c \<in> shuffles (cs_replies c) (cs_pushes c))"

lemma shuffles_snocl: "zs \<in> shuffles xs ys \<Longrightarrow> zs @ [x] \<in> shuffles (xs @ [x]) ys"
proof (induction xs ys arbitrary: zs rule: shuffles.induct)
  case (1 ys)
  have "ys @ [x] \<in> shuffles [x] ys" by (induction ys) (auto simp: Cons_in_shuffles_iff)
  with 1 show ?case by simp
qed (auto simp: Cons_in_shuffles_iff)

lemma shuffles_snocr: "zs \<in> shuffles xs ys \<Longrightarrow> zs @ [y] \<in> shuffles xs (ys @ [y])"
  using shuffles_snocl [of zs ys xs y] by (simp add: shuffles_commutes)

lemma accepts_Enqueue: "\<not> fStop w \<Longrightarrow> \<not> fFailed (Enqueue f w) \<Longrightarrow> accepts w \<and> \<not> fFailed w"
  by (auto simp: Enqueue_def accepts_def split: if_splits)

lemma Enqueue_same [simp]: "fStop (Enqueue f w) = fStop w" "fThread (Enqueue f w) = fThread w"
  by (simp_all add: Enqueue_def)

lemma serve_ok_step: "serve_step handles c c' \<Longrightarrow> serve_ok c \<Longrightarrow> serve_ok c'"
proof (induction rule: serve_step.induct)
  case (receive c request reply h')
  let ?r = "reply\<lparr>fr_requestId := fr_requestId request\<rparr>"
  show ?case
    using receive writer_ok_Enqueue [of "cs_accepted c" "cs_writer c" ?r] accepts_Enqueue [of "cs_writer c" ?r]
      shuffles_snocl [of "cs_accepted c" "cs_replies c" "cs_pushes c" ?r]
    by (auto simp: serve_ok_def answered_def enqueued_def Let_def intro!: list_all2_appendI)
next
  case (push c frame)
  then show ?case
    using writer_ok_Enqueue [of "cs_accepted c" "cs_writer c" frame] accepts_Enqueue [of "cs_writer c" frame]
      shuffles_snocr [of "cs_accepted c" "cs_replies c" "cs_pushes c" frame]
    by (auto simp: serve_ok_def enqueued_def)
next
  case (wake c)
  have "fStop (Run_next w) = fStop w" "fFailed (Run_next w) = fFailed w" for w
    by (auto simp: Run_next_def split: list.splits)
  with wake show ?case by (auto simp: serve_ok_def writer_ok_next)
next
  case (send c frame good)
  have "fStop (Run_sent frame good w) = fStop w" "fFailed (Run_sent frame good w) \<longleftrightarrow> fFailed w \<or> \<not> good" for w
    by (auto simp: Run_sent_def)
  with send show ?case by (auto simp: serve_ok_def writer_ok_sent)
qed (auto simp: serve_ok_def writer_ok_Stop, auto simp: Stop_def)

lemma serving_ok: "serving handles h c \<Longrightarrow> serve_ok c"
proof (induction rule: serving.induct)
  case start
  show ?case
    by (simp add: serve_ok_def ServeConnection_start_def writer_ok_def Start_def FrameWriter_def in_flight_def)
qed (rule serve_ok_step)

text \<open>A connection that ended without a failed send has delivered everything, each reply in its turn.\<close>

lemma served_all:
  assumes "serving handles h c" and "cs_reader c = Returned" and "\<not> fFailed (cs_writer c)"
  shows "fw_sent (cs_writer c) \<in> shuffles (cs_replies c) (cs_pushes c) \<and>
    list_all2 (\<lambda>request reply. fr_requestId reply = fr_requestId request) (cs_requests c) (cs_replies c)"
  using serving_ok [OF assms(1)] assms(2,3) by (auto simp: serve_ok_def writer_ok_def in_flight_def)

text \<open>\<open>Stop\<close> returns: once the reader joins, steps go on until the writer has exited, and each uses up work.\<close>

definition writer_work :: "FrameWriter \<Rightarrow> nat" where
  "writer_work w = 2 * length (fQueue w) + (case fThread w of Sending _ \<Rightarrow> 2 | Exited \<Rightarrow> 0 | _ \<Rightarrow> 1)"

definition shutdown_work :: "'h connection_state \<Rightarrow> nat" where
  "shutdown_work c = writer_work (cs_writer c) + (if cs_reader c = Returned then 0 else 1)"

lemma joining_moves:
  assumes "serving handles h c" and "cs_reader c = Joining"
  shows "\<exists>c'. serve_step handles c c'"
proof (cases "fThread (cs_writer c)")
  case NotStarted
  then show ?thesis using serving_ok [OF assms(1)] by (simp add: serve_ok_def writer_ok_def)
next
  case Waiting
  have "Run_woken (cs_writer c)" using serving_ok [OF assms(1)] assms(2) by (simp add: serve_ok_def Run_woken_def)
  then show ?thesis using serve_step.wake [OF Waiting] by blast
next
  case (Sending f)
  then show ?thesis using serve_step.send by blast
next
  case Exited
  then show ?thesis using serve_step.join [OF assms(2)] by blast
qed

lemma joining_ends:
  assumes "serving handles h c" and "cs_reader c \<in> {Joining, Returned}" and "serve_step handles c c'"
  shows "cs_reader c' \<in> {Joining, Returned} \<and> shutdown_work c' < shutdown_work c"
  using assms(3)
proof (cases rule: serve_step.cases)
  case (push frame)
  then show ?thesis using serving_ok [OF assms(1)] assms(2) by (auto simp: serve_ok_def)
next
  case wake
  moreover have "fStop (cs_writer c)" using serving_ok [OF assms(1)] assms(2) by (auto simp: serve_ok_def)
  ultimately show ?thesis using assms(2)
    by (cases "fQueue (cs_writer c)") (auto simp: shutdown_work_def writer_work_def Run_next_def)
next
  case (send frame good)
  then show ?thesis using assms(2) by (auto simp: shutdown_work_def writer_work_def Run_sent_def)
qed (use assms(2) in \<open>auto simp: shutdown_work_def\<close>)

section \<open>The client\<close>

record Client =
  cl_fNextId :: u32
  cl_fLastId :: u32
  cl_fPending :: "(u32 \<times> Frame) list"

definition Client :: Client where
  "Client = \<lparr>cl_fNextId = 1, cl_fLastId = 0, cl_fPending = []\<rparr>"

text \<open>
  The channel is the list of frames \<open>Receive\<close> yields before it fails. \<open>await\<close> is the receive loop.
\<close>

primrec await :: "u32 \<Rightarrow> (u32 \<times> Frame) list \<Rightarrow> Frame list \<Rightarrow> Frame option \<times> (u32 \<times> Frame) list \<times> Frame list" where
  "await rid stash [] = (None, stash, [])"
| "await rid stash (frame # channel) =
    (if fr_requestId frame = rid then (Some frame, stash, channel)
     else await rid (AList.update (fr_requestId frame) frame stash) channel)"

definition Client_Request :: "Client \<Rightarrow> Frame \<Rightarrow> bool \<Rightarrow> Frame list \<Rightarrow> Frame \<times> Frame option \<times> Client \<times> Frame list" where
  "Client_Request c request sent channel =
    (let rid = cl_fNextId c;
         request = request\<lparr>fr_requestId := rid\<rparr>;
         c = c\<lparr>cl_fNextId := rid + 1, cl_fLastId := rid\<rparr> in
     if \<not> sent then (request, None, c, channel)
     else case map_of (cl_fPending c) rid of
       Some reply \<Rightarrow> (request, Some reply, c\<lparr>cl_fPending := AList.delete rid (cl_fPending c)\<rparr>, channel)
     | None \<Rightarrow> (case await rid (cl_fPending c) channel of (reply, stash, channel) \<Rightarrow>
         (request, reply, c\<lparr>cl_fPending := stash\<rparr>, channel)))"

definition LastRequestId :: "Client \<Rightarrow> u32" where
  "LastRequestId c = cl_fLastId c"

text \<open>Requests one after the other: the frames sent and the replies.\<close>

primrec Client_Requests :: "Client \<Rightarrow> Frame list \<Rightarrow> Frame list \<Rightarrow> Frame list \<times> Frame option list" where
  "Client_Requests c [] channel = ([], [])"
| "Client_Requests c (request # requests) channel =
    (case Client_Request c request True channel of (sent, reply, c, channel) \<Rightarrow>
      case Client_Requests c requests channel of (sents, replies) \<Rightarrow> (sent # sents, reply # replies))"

lemma shuffles_next:
  "zs \<in> shuffles (r # rs) ps \<Longrightarrow>
    \<exists>ps1 ps2 rest. zs = ps1 @ r # rest \<and> ps = ps1 @ ps2 \<and> rest \<in> shuffles rs ps2"
proof (induction zs arbitrary: ps)
  case (Cons z zs)
  then consider "z = r" "zs \<in> shuffles rs ps" | ps' where "ps = z # ps'" "zs \<in> shuffles (r # rs) ps'"
    by (cases ps) (auto simp: Cons_in_shuffles_iff)
  then show ?case
  proof cases
    case 1
    then show ?thesis by (intro exI [of _ "[]"] exI [of _ ps] exI [of _ zs]) simp
  next
    case 2
    then obtain ps1 ps2 rest where "zs = ps1 @ r # rest" "ps' = ps1 @ ps2" "rest \<in> shuffles rs ps2"
      using Cons.IH by blast
    then show ?thesis using 2 by (intro exI [of _ "z # ps1"] exI [of _ ps2] exI [of _ rest]) simp
  qed
qed auto

lemma await_pushes:
  assumes "list_all (\<lambda>p. fr_requestId p = 0) ps" and "rid \<noteq> 0" and "fr_requestId r = rid"
    and "set (map fst stash) \<subseteq> {0}"
  shows "\<exists>stash'. await rid stash (ps @ r # rest) = (Some r, stash', rest) \<and> set (map fst stash') \<subseteq> {0}"
  using assms
proof (induction ps arbitrary: stash)
  case (Cons p ps)
  have "set (map fst (AList.update 0 p stash)) \<subseteq> {0}" using Cons.prems by (auto simp: dom_update)
  then show ?case using Cons by simp
qed simp

primrec numbered :: "u32 \<Rightarrow> Frame list \<Rightarrow> Frame list" where
  "numbered rid [] = []"
| "numbered rid (request # requests) = request\<lparr>fr_requestId := rid\<rparr> # numbered (rid + 1) requests"

text \<open>Frames pushed with request id 0 never disturb the replies, wherever they come in.\<close>

lemma requests_matched:
  assumes "channel \<in> shuffles replies pushes" and "list_all (\<lambda>p. fr_requestId p = 0) pushes"
    and "map fr_requestId replies = map fr_requestId (numbered (cl_fNextId c) requests)"
    and "0 < unat (cl_fNextId c)" and "unat (cl_fNextId c) + length requests < 2 ^ 32"
    and "set (map fst (cl_fPending c)) \<subseteq> {0}"
  shows "Client_Requests c requests channel = (numbered (cl_fNextId c) requests, map Some replies)"
  using assms
proof (induction requests arbitrary: c replies pushes channel)
  case Nil
  then show ?case by simp
next
  case (Cons q requests)
  then obtain r rs where r: "replies = r # rs" by (cases replies) auto
  let ?id = "cl_fNextId c"
  have ids: "fr_requestId r = ?id" "map fr_requestId rs = map fr_requestId (numbered (?id + 1) requests)"
    using Cons.prems(3) unfolding r by simp_all
  obtain ps1 ps2 rest where split: "channel = ps1 @ r # rest" "pushes = ps1 @ ps2" "rest \<in> shuffles rs ps2"
    using shuffles_next [OF Cons.prems(1) [unfolded r]] by metis
  have id0: "?id \<noteq> 0" using Cons.prems(4) by (metis unat_0 less_irrefl)
  obtain stash' where aw: "await ?id (cl_fPending c) channel = (Some r, stash', rest)" and st: "set (map fst stash') \<subseteq> {0}"
    using await_pushes [OF _ id0 ids(1) Cons.prems(6), of ps1 rest] Cons.prems(2) split by auto
  have none: "map_of (cl_fPending c) ?id = None"
    using Cons.prems(6) id0 by (auto simp: map_of_eq_None_iff)
  let ?c = "c\<lparr>cl_fNextId := ?id + 1, cl_fLastId := ?id, cl_fPending := stash'\<rparr>"
  have un: "unat (?id + 1) = unat ?id + 1" using Cons.prems(5) by (simp add: unat_word_ariths)
  have "Client_Requests ?c requests rest = (numbered (?id + 1) requests, map Some rs)"
    using Cons.IH [of rest rs ps2 ?c] Cons.prems split ids un st by simp
  then show ?case by (simp add: Client_Request_def Let_def none aw r)
qed

end
