(* ===== verification/Connection.thy ===== *)
theory Connection
  imports Frame "HOL-Library.Sublist"
begin

text \<open>
  The framed connection over a stream socket, \<open>transport/Connection.cpp\<close>. What the socket does is a
  list of outcomes, one per \<open>send\<close> or \<open>recv\<close> call; a call beyond the end of the list blocks, and the
  operation that made it has the result \<open>None\<close>.
\<close>

section \<open>Sending\<close>

datatype send_outcome = Sent nat | SendEINTR | SendError

text \<open>The result, the bytes the socket took, and the outcomes left.\<close>

fun WriteAll :: "bytes \<Rightarrow> send_outcome list \<Rightarrow> (bool \<times> bytes \<times> send_outcome list) option" where
  "WriteAll [] outcomes = Some (True, [], outcomes)"
| "WriteAll data [] = None"
| "WriteAll data (SendEINTR # outcomes) = WriteAll data outcomes"
| "WriteAll data (SendError # outcomes) = Some (False, [], outcomes)"
| "WriteAll data (Sent n # outcomes) =
    (if n = 0 then Some (False, [], outcomes)
     else case WriteAll (drop n data) outcomes of
       None \<Rightarrow> None
     | Some (good, taken, outcomes) \<Rightarrow> Some (good, take n data @ taken, outcomes))"

record Connection =
  cn_fFd :: int
  cn_fParser :: frame_parser
  cn_fError :: "string option"

definition Connection :: "int \<Rightarrow> Connection" where
  "Connection fd = \<lparr>cn_fFd = fd, cn_fParser = FrameParser, cn_fError = None\<rparr>"

definition IsOpen :: "Connection \<Rightarrow> bool" where
  "IsOpen c \<longleftrightarrow> cn_fFd c \<ge> 0"

text \<open>\<open>Close\<close>, with the descriptor it closes.\<close>

definition Connection_Close :: "Connection \<Rightarrow> int option \<times> Connection" where
  "Connection_Close c = (if cn_fFd c \<ge> 0 then (Some (cn_fFd c), c\<lparr>cn_fFd := - 1\<rparr>) else (None, c))"

definition Connection_Send :: "Frame \<Rightarrow> Connection \<Rightarrow> send_outcome list \<Rightarrow> (bool \<times> bytes \<times> Connection \<times> send_outcome list) option" where
  "Connection_Send frame c outcomes =
    (if cn_fFd c < 0 then Some (False, [], c\<lparr>cn_fError := Some ''connection closed''\<rparr>, outcomes)
     else case EncodeFrame_into frame [] of
       None \<Rightarrow> Some (False, [], c\<lparr>cn_fError := Some ''frame payload too large to encode''\<rparr>, outcomes)
     | Some bs \<Rightarrow> (case WriteAll bs outcomes of
         None \<Rightarrow> None
       | Some (good, taken, outcomes) \<Rightarrow>
           if \<not> good then Some (False, taken, c\<lparr>cn_fError := Some ''write error''\<rparr>, outcomes)
           else Some (True, taken, c, outcomes)))"

section \<open>Receiving\<close>

text \<open>\<open>Received []\<close> is the end of the stream, a \<open>recv\<close> that returns 0.\<close>

datatype recv_outcome = Received bytes | RecvEINTR | RecvError

fun ReadMore :: "Connection \<Rightarrow> recv_outcome list \<Rightarrow> (bool \<times> Connection \<times> recv_outcome list) option" where
  "ReadMore c [] = None"
| "ReadMore c (RecvEINTR # outcomes) = ReadMore c outcomes"
| "ReadMore c (RecvError # outcomes) = Some (False, c\<lparr>cn_fError := Some ''read error''\<rparr>, outcomes)"
| "ReadMore c (Received data # outcomes) =
    (if data = [] then Some (False, c\<lparr>cn_fError := Some ''connection closed by peer''\<rparr>, outcomes)
     else Some (True, c\<lparr>cn_fParser := Feed data (cn_fParser c)\<rparr>, outcomes))"

lemma ReadMore_shorter: "ReadMore c outcomes = Some (good, c', rest) \<Longrightarrow> length rest < length outcomes"
  by (induction c outcomes rule: ReadMore.induct) (auto split: if_splits)

function Receive :: "Connection \<Rightarrow> recv_outcome list \<Rightarrow> (Frame option \<times> Connection \<times> recv_outcome list) option" where
  "Receive c outcomes =
    (if cn_fFd c < 0 then Some (None, c\<lparr>cn_fError := Some ''connection closed''\<rparr>, outcomes)
     else case Next (cn_fParser c) of
       (kFrame frame, p) \<Rightarrow> Some (Some frame, c\<lparr>cn_fParser := p\<rparr>, outcomes)
     | (kParseError, p) \<Rightarrow> Some (None, c\<lparr>cn_fParser := p, cn_fError := Parser_ErrorMessage p\<rparr>, outcomes)
     | (kNeedMore, p) \<Rightarrow> (case ReadMore (c\<lparr>cn_fParser := p\<rparr>) outcomes of
         None \<Rightarrow> None
       | Some (good, c, rest) \<Rightarrow> if good then Receive c rest else Some (None, c, rest)))"
  by pat_completeness auto
termination by (relation "measure (\<lambda>(c, outcomes). length outcomes)") (auto dest: ReadMore_shorter)

declare Receive.simps [simp del]

section \<open>Short writes and short reads do not show\<close>

lemma WriteAll_takes:
  "WriteAll data outcomes = Some (good, taken, rest) \<Longrightarrow> prefix taken data \<and> (good \<longleftrightarrow> taken = data)"
proof (induction data outcomes arbitrary: taken rule: WriteAll.induct)
  case (5 b bs n outcomes)
  show ?case
  proof (cases "n = 0")
    case False
    then obtain t where "WriteAll (drop n (b # bs)) outcomes = Some (good, t, rest)" "taken = take n (b # bs) @ t"
      using "5.prems" by (auto split: option.splits prod.splits)
    then have "prefix t (drop n (b # bs)) \<and> (good \<longleftrightarrow> t = drop n (b # bs))" "taken = take n (b # bs) @ t"
      using "5.IH" False by auto
    then show ?thesis
      by (metis append_take_drop_id same_append_eq same_prefix_prefix)
  qed (use 5 in auto)
qed auto

text \<open>A socket that takes at least one byte at a time sends everything.\<close>

definition sends :: "send_outcome \<Rightarrow> bool" where
  "sends x \<longleftrightarrow> (\<exists>n > 0. x = Sent n)"

lemma WriteAll_sends:
  "list_all (\<lambda>x. sends x \<or> x = SendEINTR) outcomes \<Longrightarrow> length data \<le> length (filter (\<lambda>x. x \<noteq> SendEINTR) outcomes) \<Longrightarrow>
    \<exists>rest. WriteAll data outcomes = Some (True, data, rest)"
proof (induction data outcomes rule: WriteAll.induct)
  case (5 b bs n outcomes)
  then have "0 < n" by (auto simp: sends_def)
  then have "\<exists>rest. WriteAll (drop n (b # bs)) outcomes = Some (True, drop n (b # bs), rest)"
    using 5 by (intro "5.IH") auto
  then show ?case using \<open>0 < n\<close> by auto
qed (auto simp: sends_def)

text \<open>The bytes a list of outcomes delivers, when there is no error and no end among them.\<close>

definition delivered :: "recv_outcome list \<Rightarrow> bytes" where
  "delivered outcomes = concat (map (\<lambda>x. case x of Received d \<Rightarrow> d | _ \<Rightarrow> []) outcomes)"

definition flowing :: "recv_outcome list \<Rightarrow> bool" where
  "flowing outcomes \<longleftrightarrow> list_all (\<lambda>x. x \<noteq> RecvError \<and> x \<noteq> Received []) outcomes"

lemma delivered_simps [simp]:
  "delivered [] = []" "delivered (RecvEINTR # xs) = delivered xs" "delivered (RecvError # xs) = delivered xs"
  "delivered (Received d # xs) = d @ delivered xs"
  by (simp_all add: delivered_def)

lemma flowing_simps [simp]:
  "flowing []" "flowing (RecvEINTR # xs) = flowing xs" "\<not> flowing (RecvError # xs)"
  "flowing (Received d # xs) \<longleftrightarrow> d \<noteq> [] \<and> flowing xs"
  by (auto simp: flowing_def)

definition connection_ok :: "Connection \<Rightarrow> bool" where
  "connection_ok c \<longleftrightarrow> cn_fFd c \<ge> 0 \<and> parser_inv (cn_fParser c) \<and> \<not> fp_Error (cn_fParser c)"

definition unread :: "Connection \<Rightarrow> bytes" where
  "unread c = pending (cn_fParser c)"

lemma connection_ok_init: "fd \<ge> 0 \<Longrightarrow> connection_ok (Connection fd)" "unread (Connection fd) = []"
  by (simp_all add: connection_ok_def Connection_def unread_def FrameParser_init)

lemma ReadMore_flows:
  "connection_ok c \<Longrightarrow> flowing outcomes \<Longrightarrow>
    (\<exists>c' rest. ReadMore c (outcomes @ tail) = Some (True, c', rest @ tail) \<and> connection_ok c' \<and> flowing rest \<and>
      unread c' @ delivered rest = unread c @ delivered outcomes \<and> length rest < length outcomes) \<or>
    delivered outcomes = [] \<and> ReadMore c (outcomes @ tail) = ReadMore c tail"
  using Feed_pending [of "cn_fParser c"]
  by (induction c outcomes rule: ReadMore.induct) (fastforce simp: connection_ok_def unread_def)+

text \<open>One frame off the stream, however it is cut.\<close>

lemma Receive_whole:
  "connection_ok c \<Longrightarrow> flowing outcomes \<Longrightarrow> split_frame (unread c @ delivered outcomes) = Whole f rest \<Longrightarrow>
    \<exists>c' os. Receive c (outcomes @ tail) = Some (Some f, c', os @ tail) \<and> connection_ok c' \<and> flowing os \<and>
      unread c' @ delivered os = rest"
proof (induction "length outcomes" arbitrary: c outcomes rule: less_induct)
  case less
  note ok = less.prems(1) and fl = less.prems(2) and whole = less.prems(3)
  have inv: "parser_inv (cn_fParser c)" "\<not> fp_Error (cn_fParser c)" "\<not> cn_fFd c < 0"
    using ok by (auto simp: connection_ok_def)
  note nx = Next_split [OF inv(1,2)]
  show ?case
  proof (cases "split_frame (unread c)")
    case (Whole g r)
    then have "g = f" "rest = r @ delivered outcomes"
      using split_frame_append [of "unread c" "delivered outcomes"] whole by auto
    moreover obtain p where "Next (cn_fParser c) = (kFrame g, p)" "parser_inv p" "\<not> fp_Error p" "pending p = r"
      using nx Whole by (auto simp: unread_def)
    ultimately show ?thesis using inv fl
      by (intro exI [of _ "c\<lparr>cn_fParser := p\<rparr>"] exI [of _ outcomes])
        (simp add: Receive.simps [of c] connection_ok_def unread_def)
  next
    case (Malformed m)
    then show ?thesis using split_frame_append [of "unread c" "delivered outcomes"] whole by auto
  next
    case Short
    then have n: "Next (cn_fParser c) = (kNeedMore, cn_fParser c)" using nx by (simp add: unread_def)
    have "delivered outcomes \<noteq> []" using Short whole by auto
    then obtain c' os where more: "ReadMore c outcomes = Some (True, c', os)" "connection_ok c'" "flowing os"
        "unread c' @ delivered os = unread c @ delivered outcomes" "length os < length outcomes"
      using ReadMore_flows [OF ok fl, of "[]"] by auto
    have app: "ReadMore c (outcomes @ tail) = Some (True, c', os @ tail)"
      using more(1) by (induction c outcomes rule: ReadMore.induct) (auto split: if_splits)
    have "\<exists>c'' os'. Receive c' (os @ tail) = Some (Some f, c'', os' @ tail) \<and> connection_ok c'' \<and> flowing os' \<and>
      unread c'' @ delivered os' = rest"
      using less.hyps [OF more(5,2,3)] whole more(4) by simp
    then show ?thesis using app n inv by (simp add: Receive.simps [of c])
  qed
qed

text \<open>Several frames; the receiver of the last one is left with what follows it.\<close>

primrec Receives :: "nat \<Rightarrow> Connection \<Rightarrow> recv_outcome list \<Rightarrow> (Frame list \<times> Connection \<times> recv_outcome list) option" where
  "Receives 0 c outcomes = Some ([], c, outcomes)"
| "Receives (Suc n) c outcomes = (case Receive c outcomes of
     Some (Some frame, c, outcomes) \<Rightarrow> (case Receives n c outcomes of
       Some (frames, c, outcomes) \<Rightarrow> Some (frame # frames, c, outcomes)
     | None \<Rightarrow> None)
   | _ \<Rightarrow> None)"

primrec Sends :: "Frame list \<Rightarrow> Connection \<Rightarrow> send_outcome list \<Rightarrow> (bool \<times> bytes) option" where
  "Sends [] c outcomes = Some (True, [])"
| "Sends (frame # frames) c outcomes = (case Connection_Send frame c outcomes of
     None \<Rightarrow> None
   | Some (good, taken, c, outcomes) \<Rightarrow>
       if \<not> good then Some (False, taken)
       else map_option (\<lambda>(good, later). (good, taken @ later)) (Sends frames c outcomes))"

lemma Sends_bytes:
  "Sends frames c outcomes = Some (True, taken) \<Longrightarrow>
    taken = concat (map EncodeFrame frames) \<and> list_all (\<lambda>f. length (fr_payload f) \<le> kMaxPayloadLength) frames"
proof (induction frames arbitrary: c outcomes taken)
  case (Cons f fs)
  then obtain t c' os later where one: "Connection_Send f c outcomes = Some (True, t, c', os)"
      and rest: "Sends fs c' os = Some (True, later)" and taken: "taken = t @ later"
    by (auto split: option.splits if_splits)
  have "t = EncodeFrame f \<and> length (fr_payload f) \<le> kMaxPayloadLength"
    using one WriteAll_takes
    by (auto simp: Connection_Send_def EncodeFrame_def EncodeFrame_into_def split: if_splits option.splits)
  then show ?case using Cons.IH [OF rest] taken by simp
qed simp

lemma Receives_stream:
  "connection_ok c \<Longrightarrow> flowing outcomes \<Longrightarrow> list_all frame_ok fs \<Longrightarrow>
    unread c @ delivered outcomes = concat (map EncodeFrame fs) @ later \<Longrightarrow>
    \<exists>c' os. Receives (length fs) c (outcomes @ tail) = Some (fs, c', os @ tail) \<and> connection_ok c' \<and> flowing os \<and>
      unread c' @ delivered os = later"
proof (induction fs arbitrary: c outcomes)
  case (Cons f fs)
  then obtain c' os where one: "Receive c (outcomes @ tail) = Some (Some f, c', os @ tail)" "connection_ok c'" "flowing os"
      "unread c' @ delivered os = concat (map EncodeFrame fs) @ later"
    using Receive_whole [of c outcomes f "concat (map EncodeFrame fs) @ later" tail] split_EncodeFrame [of f]
    by auto
  then show ?case using Cons.IH [OF one(2,3)] Cons.prems(3) by fastforce
qed auto

text \<open>At the end of the stream \<open>Receive\<close> fails; inside a frame as well.\<close>

lemma Receive_end:
  "connection_ok c \<Longrightarrow> flowing outcomes \<Longrightarrow> split_frame (unread c @ delivered outcomes) = Short \<Longrightarrow>
    \<exists>c'. Receive c (outcomes @ Received [] # tail) = Some (None, c', tail) \<and>
      cn_fError c' = Some ''connection closed by peer''"
proof (induction "length outcomes" arbitrary: c outcomes rule: less_induct)
  case less
  note ok = less.prems(1) and fl = less.prems(2) and short = less.prems(3)
  have inv: "parser_inv (cn_fParser c)" "\<not> fp_Error (cn_fParser c)" "\<not> cn_fFd c < 0"
    using ok by (auto simp: connection_ok_def)
  have "split_frame (unread c) = Short"
    using split_frame_append [of "unread c" "delivered outcomes"] short by (auto split: split_result.splits)
  then have n: "Next (cn_fParser c) = (kNeedMore, cn_fParser c)" using Next_split [OF inv(1,2)] by (simp add: unread_def)
  show ?case
    using ReadMore_flows [OF ok fl, of "Received [] # tail"]
  proof (elim disjE exE conjE)
    fix c' rest assume later: "ReadMore c (outcomes @ Received [] # tail) = Some (True, c', rest @ Received [] # tail)"
      "connection_ok c'" "flowing rest" "unread c' @ delivered rest = unread c @ delivered outcomes" "length rest < length outcomes"
    then show ?thesis using less.hyps [OF later(5,2,3)] short n inv by (simp add: Receive.simps [of c])
  next
    assume "ReadMore c (outcomes @ Received [] # tail) = ReadMore c (Received [] # tail)"
    then show ?thesis using n inv by (simp add: Receive.simps [of c])
  qed
qed

end
