(* ===== verification/NodeProps.thy ===== *)
theory NodeProps
  imports Gate Dispatch Connection
begin

text \<open>
  What holds of identities, pairing, the gate, a connection from end to end, and the node with all
  its peers.
\<close>

section \<open>The gate and the node\<close>

text \<open>
  C9: A peer the user never allowed gets nothing. Over any interleaving of connections and requests
  on a node whose pinned peers \<open>A\<close> vouches for, every request of a peer outside \<open>A\<close> is answered with
  a refusal under its own id, and serving it calls nothing but the clock and the pairing prompt: no
  file of the host is touched and nothing is pinned.
\<close>

theorem strangers_refused:
  assumes "honest (user_allows A) sys" and "vouched A (fStore pg)"
    and "node_run sys (fresh_node haiku factory pg) es s = (tr, nd', s')"
  shows "list_all (\<lambda>(nd, e, reply, lg). \<forall>i request g.
      e = Request i request \<longrightarrow> map_of (nd_conns nd) i = Some g \<longrightarrow> \<not> A (fPeer g) \<longrightarrow>
      (\<exists>r. reply = Some (r\<lparr>fr_requestId := fr_requestId request\<rparr>) \<and> refusal r) \<and> list_all stranger_call lg) tr"
proof -
  let ?I = "\<lambda>nd. (\<forall>(i, g) \<in> set (nd_conns nd). gate_ok A g) \<and> vouched A (fStore (nd_pairing nd))"
  have step: "wp (\<lambda>c. \<forall>i request g. e = Request i request \<longrightarrow> map_of (nd_conns nd) i = Some g \<longrightarrow> \<not> A (fPeer g) \<longrightarrow>
      stranger_call c) (user_allows A) (node_step nd e) (\<lambda>(reply, nd'). ?I nd' \<and>
    (\<forall>i request g. e = Request i request \<longrightarrow> map_of (nd_conns nd) i = Some g \<longrightarrow>
      (\<exists>r. reply = Some (r\<lparr>fr_requestId := fr_requestId request\<rparr>) \<and> (\<not> A (fPeer g) \<longrightarrow> refusal r))))"
    if "?I nd" for nd e
    using strangers_step [of A nd e] that by (auto elim!: wp_mono)
  have init: "?I (fresh_node haiku factory pg)" using assms(2) by (simp add: fresh_node_def)
  show ?thesis
    by (rule node_run_all [where I = ?I, OF step assms(1) init assms(3)]) (auto simp: list_all_iff)
qed

text \<open>
  C16: Everything every peer can make the node do stays inside the shared root: over any interleaving
  of connections and requests, every call is one of the gate's own (clock, prompt, the trust store's
  file) or touches paths under the shared root only; and every request on an open connection gets one
  reply, with its id and of a type that answers it.
\<close>

theorem node_confined:
  assumes "honest canonical_reply sys"
    and "node_run sys (fresh_node haiku factory pg) es s = (tr, nd', s')"
  shows "list_all (\<lambda>(nd, e, reply, lg).
     list_all (\<lambda>c. gate_call (fStorePath pg) c \<or> (\<forall>p \<in> set (touched c). inside (ff_root factory) p)) lg \<and>
     (\<forall>i request g. e = Request i request \<longrightarrow> map_of (nd_conns nd) i = Some g \<longrightarrow>
       (\<exists>r. reply = Some (r\<lparr>fr_requestId := fr_requestId request\<rparr>) \<and> reply_for (answer_type (fr_type request)) r))) tr"
  by (rule confined.node_holds [OF _ assms])
    (auto simp: FileServerFactory_Create_def FileServer_def split: if_splits)

text \<open>
  No query of a node ever goes live. The gate inherits the \<open>SetFrameSink\<close> that ignores the sink,
  so the file server behind it never has one, and every query it makes is a plain one.
\<close>

theorem gated_queries_never_live:
  "list_all (\<lambda>(nd, e, reply, lg). list_all (\<lambda>c. \<forall>q. c \<noteq> QFetch q True) lg)
    (fst (node_run sys (fresh_node haiku factory pg) es s))"
proof -
  obtain tr nd' s' where run: "node_run sys (fresh_node haiku factory pg) es s = (tr, nd', s')" by (metis prod.exhaust)
  have gate: "gate_call p c \<Longrightarrow> c \<noteq> QFetch q True" for p c q by auto
  have "list_all (\<lambda>(nd, e, reply, lg). list_all (\<lambda>c. gate_call (fStorePath pg) c \<or> (\<forall>q. c \<noteq> QFetch q True)) lg) tr"
    by (rule list.pred_mono_strong [OF quiet.node_holds [OF _ honest_all run]])
      (auto simp: FileServerFactory_Create_def FileServer_def split: if_splits)
  then show ?thesis unfolding run fst_conv
    by (rule list.pred_mono_strong) (use gate in \<open>auto simp: list_all_iff\<close>)
qed

section \<open>Pairing\<close>

text \<open>
  C14: However often peers connect, the user is not asked more than \<open>burst\<close> times and once more for
  every refill time that passes (one prompt more covers the rounding of the \<open>double\<close> arithmetic,
  for as many attempts as the 53 bits of precision allow).
\<close>

theorem prompts_limited:
  assumes "honest (clock_between lo hi) sys" and "0 \<le> lo" "hi < 2 ^ 53"
    and "1 \<le> burst" "burst < 2 ^ 31" "1 \<le> refillMs" "refillMs < 2 ^ 53"
    and "int (length peers) * (3 * burst) < 2 ^ 53"
  shows "int (asks (calls sys (pbind (Pairing store path burst refillMs) (\<lambda>pg. admits pg peers)) s)) \<le>
    burst + (hi - lo) div refillMs + 1"
  by (rule admits_asks [OF assms])

text \<open>
  The limit gives way again: when the refill time has passed since the bucket was last filled, an
  unknown peer raises the prompt, and the answer alone decides whether it is admitted and pinned.
\<close>

theorem prompt_returns:
  assumes "bucket_ok (fPromptBucket pg)" and "0 \<le> sint (fLast (fPromptBucket pg))"
    and "sint (fLast (fPromptBucket pg)) + fRefillMs (fPromptBucket pg) \<le> sint now" and "sint now < 2 ^ 53"
    and "fp \<noteq> kNone" and "\<not> IsTrusted fp (fStore pg)" and "fStorePath pg = []"
    and "sys ClockMs s = (RClock now, s1)" and "sys (Ask name fp (Evaluate fp name (fStore pg))) s1 = (RBool yes, s2)"
  shows "\<exists>pg'. run sys (Admit pg fp name) s =
      ((yes, pg'), s2, [ClockMs, Ask name fp (Evaluate fp name (fStore pg))]) \<and>
    fStore pg' = (if yes then Pin fp name (fStore pg) else fStore pg)"
proof -
  have "fst (take_token (refilled (fPromptBucket pg) now))" by (rule token_back [OF assms(1-4)])
  then obtain b where "take_token (refilled (fPromptBucket pg) now) = (True, b)" by (metis prod.collapse)
  then show ?thesis using assms(5-9)
    by (auto simp: Admit_def Let_def run_pbind run_calls TryTake_def Evaluate_trusted)
qed

section \<open>Identities and the trust store\<close>

text \<open>
  The hexadecimal form of a fingerprint and the fingerprint determine each other, up to the case
  of the digits: parsing what \<open>ToHex\<close> prints gives the fingerprint back, and printing what \<open>FromHex\<close>
  parsed gives the text in lower case.
\<close>

theorem fingerprint_hex:
  "(fp_ok fp \<longrightarrow> FromHex (ToHex fp) = Some fp) \<and> (FromHex s = Some fp' \<longrightarrow> fp_ok fp' \<and> ToHex fp' = map lower_hex s)"
  by (simp add: FromHex_ToHex FromHex_fp_ok ToHex_FromHex)

text \<open>
  The store is a map from fingerprints to names: \<open>Pin\<close> updates it and \<open>Forget\<close> deletes from it
  (telling whether there was anything to delete), both keep a fingerprint from being pinned twice,
  and \<open>Evaluate\<close> trusts by the key, warns when another key has the claimed name, and knows nothing
  else.
\<close>

theorem store_refines_map:
  assumes "store_ok st" and "fp_ok fp"
  shows "pinned (Pin fp name st) = (pinned st)(fp \<mapsto> name) \<and> store_ok (Pin fp name st) \<and>
    pinned (snd (Forget fp st)) = (pinned st)(fp := None) \<and> store_ok (snd (Forget fp st)) \<and>
    (fst (Forget fp st) \<longleftrightarrow> fp \<in> dom (pinned st)) \<and>
    Evaluate fp name st = (if fp \<in> dom (pinned st) then kTrusted
      else if name \<in> ran (pinned st) then kKeyChanged else kUnknown)"
proof -
  have d: "distinct (map pp_fingerprint st)" using assms(1) by (simp add: store_ok_def)
  have "store_ok (filter (\<lambda>p. pp_fingerprint p \<noteq> fp) st)"
    using assms(1) by (auto simp: store_ok_def list_all_iff distinct_map_filter)
  then show ?thesis using assms
    by (simp add: pinned_Pin store_ok_Pin Forget_filter [OF d] pinned_filter Evaluate_spec Forget_fst domIff pinned_None)
qed


text \<open>
  The warning that a known name has a new key does not survive a restart for every name: after the
  store was saved and loaded, a peer that claims such a name with another key is merely unknown.
\<close>

theorem key_change_forgotten:
  assumes "fp_ok fp" and "fp' \<noteq> fp" and "single_line name \<noteq> name"
  shows "Evaluate fp' name (Pin fp name []) = kKeyChanged \<and>
    Evaluate fp' name (load_text (store_text (Pin fp name []))) = kUnknown"
  using assms load_store_text [of "Pin fp name []"]
  by (simp add: Evaluate_def store_ok_def one_line_def)

section \<open>A connection\<close>

text \<open>
  C11: When the serve loop returns without a failed send or an overflow, the peer has been sent every
  reply and every push, each exactly once, the replies in the order of the requests and each with its
  request's id; and at no time are more than 4096 frames queued.
\<close>

theorem served_completely:
  assumes "serving handles h c"
  shows "length (fQueue (cs_writer c)) \<le> 4096 \<and>
    (cs_reader c = Returned \<and> \<not> fFailed (cs_writer c) \<longrightarrow>
      fw_sent (cs_writer c) \<in> shuffles (cs_replies c) (cs_pushes c) \<and>
      map fr_requestId (cs_replies c) = map fr_requestId (cs_requests c))"
  using serving_ok [OF assms] served_all [OF assms]
  by (auto simp: serve_ok_def writer_ok_def list_all2_conv_all_nth intro!: nth_equalityI)


text \<open>
  C10: Client and server agree: if the server served the requests of a client and its pushes carry
  request id 0, the client gets for each of its requests the reply to that request, however the
  pushes are mixed in.
\<close>

theorem client_gets_its_replies:
  assumes "serving handles h c" and "cs_reader c = Returned" and "\<not> fFailed (cs_writer c)"
    and "list_all (\<lambda>p. fr_requestId p = 0) (cs_pushes c)"
    and "cs_requests c = numbered 1 requests" and "length requests + 1 < 2 ^ 32"
  shows "Client_Requests Client requests (fw_sent (cs_writer c)) = (cs_requests c, map Some (cs_replies c))"
proof -
  have "fw_sent (cs_writer c) \<in> shuffles (cs_replies c) (cs_pushes c)"
    and "map fr_requestId (cs_replies c) = map fr_requestId (cs_requests c)"
    using served_all [OF assms(1-3)] by (auto simp: list_all2_conv_all_nth intro!: nth_equalityI)
  then show ?thesis
    using requests_matched [of _ "cs_replies c" "cs_pushes c" Client requests] assms(4-6) by (simp add: Client_def)
qed

text \<open>
  C13: What one end sends the other receives: whatever short writes and interruptions the sending
  socket has, and however the receiving socket cuts the bytes, the frames arrive whole and in order,
  and the end of the stream is then reported as such.
\<close>

theorem connection_delivers:
  assumes "Sends fs c outcomes = Some (True, taken)" and "list_all (\<lambda>f. fr_version f = kProtocolVersion) fs"
    and "0 \<le> fd" and "flowing ins" and "delivered ins = taken"
  shows "\<exists>c' os c''. Receives (length fs) (Connection fd) (ins @ [Received []]) = Some (fs, c', os) \<and>
    Receive c' os = Some (None, c'', []) \<and> cn_fError c'' = Some ''connection closed by peer''"
proof -
  have ok: "list_all frame_ok fs" and b: "taken = concat (map EncodeFrame fs)"
    using Sends_bytes [OF assms(1)] assms(2) by (auto simp: list_all_iff frame_ok_def)
  obtain c' os where "Receives (length fs) (Connection fd) (ins @ [Received []]) = Some (fs, c', os @ [Received []])"
      "connection_ok c'" "flowing os" "unread c' @ delivered os = []"
    using Receives_stream [OF connection_ok_init(1) [OF assms(3)] assms(4) ok, where later = "[]" and tail = "[Received []]"]
      connection_ok_init(2) [of fd] assms(3,5) b by auto
  moreover from Receive_end [OF this(2,3), of "[]"] this(4)
  obtain c'' where "Receive c' (os @ [Received []]) = Some (None, c'', [])" "cn_fError c'' = Some ''connection closed by peer''"
    by (auto simp: split_frame_def)
  ultimately show ?thesis by blast
qed

section \<open>Witnesses\<close>

text \<open>A host whose user always refuses, whose clock stands still, and where every other call fails.\<close>

definition refusing_host :: "unit system" where
  "refusing_host c s = (case c of Ask _ _ _ \<Rightarrow> RBool False | ClockMs \<Rightarrow> RClock 0 | _ \<Rightarrow> RUnit, s)"

lemma refusing_host_honest:
  "honest (user_allows (\<lambda>_. False)) refusing_host" "honest (clock_between 0 0) refusing_host"
  "honest canonical_reply refusing_host"
proof -
  show "honest (user_allows (\<lambda>_. False)) refusing_host" "honest (clock_between 0 0) refusing_host"
    by (auto simp: honest_def refusing_host_def user_allows_def clock_between_def)
  show "honest canonical_reply refusing_host"
    unfolding honest_def
  proof (intro allI)
    fix c :: syscall and s show "canonical_reply c (fst (refusing_host c s))"
      by (cases c) (simp_all add: refusing_host_def)
  qed
qed

definition sample_pairing :: Pairing where
  "sample_pairing = \<lparr>fStore = [], fStorePath = [],
     fPromptBucket = \<lparr>fCapacity = 5, fRefillMs = 15000, fTokens = 0, fLast = 0\<rparr>\<rparr>"

definition sample_events :: "event list" where
  "sample_events = [Accept (replicate 32 1), Request 0 (mkFrame kStat 7 []), Closed 0]"

definition sample_factory :: server_factory where
  "sample_factory = \<lparr>ff_root = ''/home'', ff_nodeId = sample_node, ff_writable = False\<rparr>"

lemma vouched_empty: "vouched A (fStore sample_pairing)"
  by (simp add: vouched_def sample_pairing_def IsTrusted_def)

lemma strangers_refused_witness:
  "list_all (\<lambda>(nd, e, reply, lg). \<forall>i request g.
      e = Request i request \<longrightarrow> map_of (nd_conns nd) i = Some g \<longrightarrow> \<not> False \<longrightarrow>
      (\<exists>r. reply = Some (r\<lparr>fr_requestId := fr_requestId request\<rparr>) \<and> refusal r) \<and> list_all stranger_call lg)
    (fst (node_run refusing_host (fresh_node False sample_factory sample_pairing) sample_events ()))"
  by (rule strangers_refused [OF refusing_host_honest(1) vouched_empty]) (simp add: prod_eq_iff)

lemma node_confined_witness:
  "list_all (\<lambda>(nd, e, reply, lg).
     list_all (\<lambda>c. gate_call (fStorePath sample_pairing) c \<or> (\<forall>p \<in> set (touched c). inside (ff_root sample_factory) p)) lg \<and>
     (\<forall>i request g. e = Request i request \<longrightarrow> map_of (nd_conns nd) i = Some g \<longrightarrow>
       (\<exists>r. reply = Some (r\<lparr>fr_requestId := fr_requestId request\<rparr>) \<and> reply_for (answer_type (fr_type request)) r)))
    (fst (node_run refusing_host (fresh_node False sample_factory sample_pairing) sample_events ()))"
  by (rule node_confined [OF refusing_host_honest(3)]) (simp add: prod_eq_iff)

lemma prompts_limited_witness:
  "int (asks (calls refusing_host (pbind (Pairing [] [] 5 15000) (\<lambda>pg. admits pg [(replicate 32 1, ''x'')])) ())) \<le>
    5 + (0 - 0) div 15000 + 1"
  by (rule prompts_limited [OF refusing_host_honest(2)]) simp_all


text \<open>A run of the serve loop with an echoing handler: one request, its reply sent, the end of the stream.\<close>

definition echo :: "unit \<Rightarrow> Frame \<Rightarrow> Frame \<Rightarrow> unit \<Rightarrow> bool" where
  "echo h request reply h' \<longleftrightarrow> reply = request"

definition echo_end :: "reader_thread \<Rightarrow> writer_thread \<Rightarrow> unit connection_state" where
  "echo_end r t = \<lparr>cs_handler = (), cs_reader = r, cs_sink = False,
     cs_writer = \<lparr>fMaxQueued = 4096, fQueue = [], fStop = True, fStarted = True, fFailed = False, fThread = t,
       fw_sent = [mkFrame kStat 1 []]\<rparr>,
     cs_requests = [mkFrame kStat 1 []], cs_replies = [mkFrame kStat 1 []], cs_pushes = [], cs_accepted = [mkFrame kStat 1 []]\<rparr>"

lemmas serve_run = ServeConnection_start_def answered_def enqueued_def Enqueue_def Start_def FrameWriter_def Run_next_def
    Run_sent_def Let_def mkFrame_def accepts_def Stop_def Run_woken_def

lemma echo_joining: "serving echo () (echo_end Joining Waiting)"
proof -
  let ?q = "mkFrame kStat 1 []"
  let ?c0 = "ServeConnection_start () :: unit connection_state"
  have 0: "serving echo () ?c0" by (rule serving.start)
  have 1: "serving echo () (answered ?q ?q () ?c0)" (is "serving _ _ ?c1")
    by (rule serving.step [OF 0 serve_step.receive]) (simp_all add: ServeConnection_start_def echo_def)
  have 2: "serving echo () (?c1\<lparr>cs_writer := Run_next (cs_writer ?c1)\<rparr>)" (is "serving _ _ ?c2")
    by (rule serving.step [OF 1 serve_step.wake]) (simp_all add: serve_run)
  have 3: "serving echo () (?c2\<lparr>cs_writer := Run_sent ?q True (cs_writer ?c2)\<rparr>)" (is "serving _ _ ?c3")
    by (rule serving.step [OF 2 serve_step.send]) (simp add: serve_run)
  have 4: "serving echo () (?c3\<lparr>cs_reader := if fFailed (cs_writer ?c3) then Leaving else Reading\<rparr>)" (is "serving _ _ ?c4")
    by (rule serving.step [OF 3 serve_step.check]) (simp add: serve_run)
  have 5: "serving echo () (?c4\<lparr>cs_reader := Leaving\<rparr>)" (is "serving _ _ ?c5")
    by (rule serving.step [OF 4 serve_step.disconnect]) (simp add: serve_run)
  have 6: "serving echo () (?c5\<lparr>cs_sink := False, cs_reader := Unhooked\<rparr>)" (is "serving _ _ ?c6")
    by (rule serving.step [OF 5 serve_step.unhook]) simp
  have 7: "serving echo () (?c6\<lparr>cs_writer := Stop (cs_writer ?c6), cs_reader := Joining\<rparr>)"
    by (rule serving.step [OF 6 serve_step.stop]) simp
  then show ?thesis by (simp add: serve_run echo_end_def)
qed

lemma echo_returned: "serving echo () (echo_end Returned Exited)"
proof -
  have 1: "serving echo () ((echo_end Joining Waiting)\<lparr>cs_writer := Run_next (cs_writer (echo_end Joining Waiting))\<rparr>)"
    by (rule serving.step [OF echo_joining serve_step.wake]) (simp_all add: echo_end_def Run_woken_def)
  have 2: "serving echo () (echo_end Joining Exited)" using 1 by (simp add: echo_end_def Run_next_def)
  have "serving echo () ((echo_end Joining Exited)\<lparr>cs_reader := Returned\<rparr>)"
    by (rule serving.step [OF 2 serve_step.join]) (simp_all add: echo_end_def)
  then show ?thesis by (simp add: echo_end_def)
qed

lemma served_completely_witness: "[mkFrame kStat 1 []] \<in> shuffles [mkFrame kStat 1 []] []"
  using served_completely [OF echo_returned] by (simp add: echo_end_def)


lemma client_gets_its_replies_witness:
  "Client_Requests Client [mkFrame kStat 0 []] [mkFrame kStat 1 []] = ([mkFrame kStat 1 []], [Some (mkFrame kStat 1 [])])"
  using client_gets_its_replies [OF echo_returned, of "[mkFrame kStat 0 []]"] by (simp add: echo_end_def mkFrame_def)

lemma connection_delivers_witness:
  "\<exists>c' os c''. Receives (length [mkFrame kClose 7 []]) (Connection 3)
      ([Received (take 5 (EncodeFrame (mkFrame kClose 7 []))), RecvEINTR, Received (drop 5 (EncodeFrame (mkFrame kClose 7 [])))] @
        [Received []]) = Some ([mkFrame kClose 7 []], c', os) \<and>
    Receive c' os = Some (None, c'', []) \<and> cn_fError c'' = Some ''connection closed by peer''"
proof (rule connection_delivers [where c = "Connection 4" and outcomes = "[Sent 5, SendEINTR, Sent 7]"])
  show "Sends [mkFrame kClose 7 []] (Connection 4) [Sent 5, SendEINTR, Sent 7] = Some (True, EncodeFrame (mkFrame kClose 7 []))"
    by (simp add: Connection_Send_def Connection_def EncodeFrame_def EncodeFrame_into_def mkFrame_def WriteU32BE_def
      kMaxPayloadLength_def Let_def)
qed (simp_all add: mkFrame_def EncodeFrame_bytes WriteU32BE_def)

end
