(* ===== verification/Tls.thy ===== *)
theory Tls
  imports Connection Trust
begin

text \<open>
  The TLS connection, \<open>tls/TlsConnection.cpp\<close>. OpenSSL is not under \<open>src/\<close>: what its calls do is a
  parameter, one outcome per call for \<open>SSL_write\<close> and \<open>SSL_read\<close>, the record \<open>openssl\<close> for a handshake.
  What the code itself decides is modelled: when a peer is accepted, which objects are freed and
  which descriptors closed on every path, and the framing, which is that of \<open>transport/Connection.cpp\<close>.
\<close>

section \<open>The handshake\<close>

text \<open>\<open>SSL_new\<close>, \<open>SSL_accept\<close> or \<open>SSL_connect\<close> by role, the peer's certificate, and the fingerprint of a
  certificate's key; \<open>'cert\<close> is the library's type of certificates.\<close>

record 'cert openssl =
  ssl_new :: bool
  ssl_handshake :: "bool \<Rightarrow> bool"
  ssl_peer :: "'cert option"
  ssl_fingerprint :: "'cert \<Rightarrow> Fingerprint option"

text \<open>
  \<open>TlsContext::Init\<close>: the result, and whether \<open>fCtx\<close> is set afterwards. It is also set when the
  certificate or the key was refused; the destructor frees it.
\<close>

definition TlsContext_Init :: "bool \<Rightarrow> bool \<Rightarrow> bool \<Rightarrow> bool \<Rightarrow> bool \<times> bool" where
  "TlsContext_Init identityValid ctx_new use_certificate use_key =
    (if \<not> identityValid then (False, False)
     else if \<not> ctx_new then (False, False)
     else if \<not> use_certificate then (False, True)
     else if \<not> use_key then (False, True)
     else (True, True))"

text \<open>What the code gives back to the system, in order.\<close>

datatype release = SslShutdown | FreeSsl | FreeCert | CloseFd int

record TlsConnection =
  tc_fSsl :: bool
  tc_fFd :: int
  tc_fPeer :: Fingerprint
  tc_fParser :: frame_parser
  tc_fError :: "string option"

definition TlsConnection :: "bool \<Rightarrow> int \<Rightarrow> TlsConnection" where
  "TlsConnection ssl fd = \<lparr>tc_fSsl = ssl, tc_fFd = fd, tc_fPeer = replicate 32 0, tc_fParser = FrameParser, tc_fError = None\<rparr>"

text \<open>The connection handed out is a closed one in every caller, so assigning to it releases nothing.\<close>

definition Handshake :: "bool \<Rightarrow> 'cert openssl \<Rightarrow> int \<Rightarrow> bool \<Rightarrow> Fingerprint option \<Rightarrow> TlsConnection option \<times> release list" where
  "Handshake ctxValid lib fd isServer expectedPeer =
    (if \<not> ctxValid then (None, [CloseFd fd])
     else if \<not> ssl_new lib then (None, [CloseFd fd])
     else if \<not> ssl_handshake lib isServer then (None, [FreeSsl, CloseFd fd])
     else case ssl_peer lib of
       None \<Rightarrow> (None, [FreeSsl, CloseFd fd])
     | Some peer \<Rightarrow> (case ssl_fingerprint lib peer of
         None \<Rightarrow> (None, [FreeCert, FreeSsl, CloseFd fd])
       | Some peerFp \<Rightarrow>
           if expectedPeer \<noteq> None \<and> \<not> peerFp = the expectedPeer then (None, [FreeCert, FreeSsl, CloseFd fd])
           else (Some ((TlsConnection True fd)\<lparr>tc_fPeer := peerFp\<rparr>), [FreeCert])))"

text \<open>\<open>TcpConnect\<close> gives a descriptor, or a negative number.\<close>

definition Tls_Connect :: "bool \<Rightarrow> 'cert openssl \<Rightarrow> int \<Rightarrow> Fingerprint option \<Rightarrow> TlsConnection option \<times> release list" where
  "Tls_Connect ctxValid lib fd expectedPeer = (if fd < 0 then (None, []) else Handshake ctxValid lib fd False expectedPeer)"

definition Tls_Accept :: "bool \<Rightarrow> 'cert openssl \<Rightarrow> int \<Rightarrow> Fingerprint option \<Rightarrow> TlsConnection option \<times> release list" where
  "Tls_Accept ctxValid lib fd expectedPeer = (if fd < 0 then (None, []) else Handshake ctxValid lib fd True expectedPeer)"

section \<open>The connection\<close>

definition Tls_Close :: "TlsConnection \<Rightarrow> TlsConnection \<times> release list" where
  "Tls_Close c =
    (c\<lparr>tc_fSsl := False, tc_fFd := (if tc_fFd c \<ge> 0 then - 1 else tc_fFd c)\<rparr>,
     (if tc_fSsl c then [SslShutdown, FreeSsl] else []) @ (if tc_fFd c \<ge> 0 then [CloseFd (tc_fFd c)] else []))"

text \<open>The move assignment: what the target becomes, what is left of the source, and what is released.\<close>

definition Tls_assign :: "TlsConnection \<Rightarrow> TlsConnection \<Rightarrow> TlsConnection \<times> TlsConnection \<times> release list" where
  "Tls_assign target source = (case Tls_Close target of (closed, released) \<Rightarrow>
    (source, source\<lparr>tc_fSsl := False, tc_fFd := - 1\<rparr>, released))"

text \<open>\<open>SslWrote n\<close> and \<open>SslRead data\<close> for a positive result of the call, \<open>SslFail\<close> for any other.\<close>

datatype write_outcome = SslWrote nat | SslWriteFail

fun Tls_WriteAll :: "bytes \<Rightarrow> write_outcome list \<Rightarrow> (bool \<times> bytes \<times> write_outcome list) option" where
  "Tls_WriteAll [] outcomes = Some (True, [], outcomes)"
| "Tls_WriteAll data [] = None"
| "Tls_WriteAll data (SslWriteFail # outcomes) = Some (False, [], outcomes)"
| "Tls_WriteAll data (SslWrote n # outcomes) =
    (if n = 0 then Some (False, [], outcomes)
     else case Tls_WriteAll (drop n data) outcomes of
       None \<Rightarrow> None
     | Some (good, taken, outcomes) \<Rightarrow> Some (good, take n data @ taken, outcomes))"

definition Tls_Send :: "Frame \<Rightarrow> TlsConnection \<Rightarrow> write_outcome list \<Rightarrow> (bool \<times> bytes \<times> TlsConnection \<times> write_outcome list) option" where
  "Tls_Send frame c outcomes =
    (if \<not> tc_fSsl c then Some (False, [], c\<lparr>tc_fError := Some ''connection closed''\<rparr>, outcomes)
     else case EncodeFrame_into frame [] of
       None \<Rightarrow> Some (False, [], c\<lparr>tc_fError := Some ''frame payload too large to encode''\<rparr>, outcomes)
     | Some bs \<Rightarrow> (case Tls_WriteAll bs outcomes of
         None \<Rightarrow> None
       | Some (good, taken, outcomes) \<Rightarrow>
           if \<not> good then Some (False, taken, c\<lparr>tc_fError := Some ''TLS write error''\<rparr>, outcomes)
           else Some (True, taken, c, outcomes)))"

datatype read_outcome = SslRead bytes | SslReadFail

fun Tls_ReadMore :: "TlsConnection \<Rightarrow> read_outcome list \<Rightarrow> (bool \<times> TlsConnection \<times> read_outcome list) option" where
  "Tls_ReadMore c [] = None"
| "Tls_ReadMore c (SslReadFail # outcomes) =
    Some (False, c\<lparr>tc_fError := Some ''TLS read error or connection closed''\<rparr>, outcomes)"
| "Tls_ReadMore c (SslRead data # outcomes) =
    (if data = [] then Some (False, c\<lparr>tc_fError := Some ''TLS read error or connection closed''\<rparr>, outcomes)
     else Some (True, c\<lparr>tc_fParser := Feed data (tc_fParser c)\<rparr>, outcomes))"

lemma Tls_ReadMore_shorter: "Tls_ReadMore c outcomes = Some (good, c', rest) \<Longrightarrow> length rest < length outcomes"
  by (induction c outcomes rule: Tls_ReadMore.induct) (auto split: if_splits)

function Tls_Receive :: "TlsConnection \<Rightarrow> read_outcome list \<Rightarrow> (Frame option \<times> TlsConnection \<times> read_outcome list) option" where
  "Tls_Receive c outcomes =
    (if \<not> tc_fSsl c then Some (None, c\<lparr>tc_fError := Some ''connection closed''\<rparr>, outcomes)
     else case Next (tc_fParser c) of
       (kFrame frame, p) \<Rightarrow> Some (Some frame, c\<lparr>tc_fParser := p\<rparr>, outcomes)
     | (kParseError, p) \<Rightarrow> Some (None, c\<lparr>tc_fParser := p, tc_fError := Parser_ErrorMessage p\<rparr>, outcomes)
     | (kNeedMore, p) \<Rightarrow> (case Tls_ReadMore (c\<lparr>tc_fParser := p\<rparr>) outcomes of
         None \<Rightarrow> None
       | Some (good, c, rest) \<Rightarrow> if good then Tls_Receive c rest else Some (None, c, rest)))"
  by pat_completeness auto
termination by (relation "measure (\<lambda>(c, outcomes). length outcomes)") (auto dest: Tls_ReadMore_shorter)

declare Tls_Receive.simps [simp del]

section \<open>The framing is that of a plain connection\<close>

definition plain_write :: "write_outcome \<Rightarrow> send_outcome" where
  "plain_write x = (case x of SslWrote n \<Rightarrow> Sent n | SslWriteFail \<Rightarrow> SendError)"

definition plain_read :: "read_outcome \<Rightarrow> recv_outcome" where
  "plain_read x = (case x of SslRead data \<Rightarrow> Received data | SslReadFail \<Rightarrow> RecvError)"

text \<open>An open TLS connection and an open plain one that agree on the parser.\<close>

definition same_stream :: "TlsConnection \<Rightarrow> Connection \<Rightarrow> bool" where
  "same_stream t c \<longleftrightarrow> (tc_fSsl t \<longleftrightarrow> cn_fFd c \<ge> 0) \<and> tc_fParser t = cn_fParser c"

lemma Tls_WriteAll_plain:
  "WriteAll data (map plain_write outcomes) =
    map_option (\<lambda>(good, taken, rest). (good, taken, map plain_write rest)) (Tls_WriteAll data outcomes)"
  by (induction data outcomes rule: Tls_WriteAll.induct) (auto simp: plain_write_def split: option.split)

lemma Tls_Send_plain:
  assumes "same_stream t c"
  shows "map_option (\<lambda>(good, taken, c', rest). (good, taken, rest)) (Connection_Send frame c (map plain_write outcomes)) =
    map_option (\<lambda>(good, taken, t', rest). (good, taken, map plain_write rest)) (Tls_Send frame t outcomes)"
  using assms by (auto simp: Tls_Send_def Connection_Send_def same_stream_def Tls_WriteAll_plain split: option.split)

lemma Tls_Receive_plain:
  assumes "same_stream t c"
  shows "case Tls_Receive t outcomes of
      None \<Rightarrow> Receive c (map plain_read outcomes) = None
    | Some (frame, t', rest) \<Rightarrow> \<exists>c'. Receive c (map plain_read outcomes) = Some (frame, c', map plain_read rest) \<and> same_stream t' c'"
  using assms
proof (induction outcomes arbitrary: t c)
  case Nil
  then show ?case
    by (auto simp: Tls_Receive.simps [of t] Receive.simps [of c] same_stream_def split: parse_result.split prod.split)
next
  case (Cons x rest)
  note round = Tls_Receive.simps [of t "x # rest"] Receive.simps [of c "plain_read x # map plain_read rest"]
  obtain r p where n: "Next (cn_fParser c) = (r, p)" by (cases "Next (cn_fParser c)")
  show ?case
  proof (cases "tc_fSsl t \<and> r = kNeedMore")
    case False
    then show ?thesis using Cons.prems n by (cases r) (auto simp: round same_stream_def)
  next
    case more: True
    then have fd: "\<not> cn_fFd c < 0" "tc_fParser t = cn_fParser c" using Cons.prems by (simp_all add: same_stream_def)
    show ?thesis
    proof (cases "\<exists>data. x = SslRead data \<and> data \<noteq> []")
      case True
      then obtain data where x: "x = SslRead data" "data \<noteq> []" by blast
      have same: "same_stream (t\<lparr>tc_fParser := Feed data p\<rparr>) (c\<lparr>cn_fParser := Feed data p\<rparr>)"
        using more fd by (simp add: same_stream_def)
      have t: "Tls_Receive t (x # rest) = Tls_Receive (t\<lparr>tc_fParser := Feed data p\<rparr>) rest"
        using more fd n x by (simp add: Tls_Receive.simps [of t])
      have c: "Receive c (map plain_read (x # rest)) = Receive (c\<lparr>cn_fParser := Feed data p\<rparr>) (map plain_read rest)"
        using more fd n x by (simp add: Receive.simps [of c] plain_read_def)
      show ?thesis using Cons.IH [OF same] by (simp only: t c)
    next
      case False
      then show ?thesis using more fd n Cons.prems by (cases x) (auto simp: Tls_Receive.simps [of t] Receive.simps [of c] plain_read_def same_stream_def)
    qed
  qed
qed

section \<open>Properties\<close>

text \<open>
  C28: A connection comes about only with a peer that finished the handshake and whose certificate's
  key has the fingerprint the connection reports, the expected one when one is given. Whatever fails,
  the descriptor is closed once and the TLS object freed once if there was one; a connection that came
  about owns both, \<open>Close\<close> releases them, and a second \<open>Close\<close> releases nothing.
\<close>

theorem tls_accepts_the_expected:
  "case (if isServer then Tls_Accept else Tls_Connect) ctxValid lib fd expectedPeer of
      (None, released) \<Rightarrow> count_list released (CloseFd fd) = (if fd < 0 then 0 else 1) \<and>
        count_list released FreeSsl = (if fd \<ge> 0 \<and> ctxValid \<and> ssl_new lib then 1 else 0)
    | (Some c, released) \<Rightarrow> ctxValid \<and> ssl_handshake lib isServer \<and>
        (\<exists>peer. ssl_peer lib = Some peer \<and> ssl_fingerprint lib peer = Some (tc_fPeer c)) \<and>
        expectedPeer \<in> {None, Some (tc_fPeer c)} \<and> released = [FreeCert] \<and>
        snd (Tls_Close c) = [SslShutdown, FreeSsl, CloseFd fd] \<and> snd (Tls_Close (fst (Tls_Close c))) = []"
  by (cases isServer; cases expectedPeer)
    (auto simp: Tls_Accept_def Tls_Connect_def Handshake_def TlsConnection_def Tls_Close_def split: option.splits)

text \<open>
  C29: On the same behaviour of the transport below, a TLS connection sends the same bytes and receives
  the same frames as the plain connection of the loopback, at every step, so what is proved of one
  stream holds of the other.
\<close>

theorem tls_stream_is_the_plain_one:
  assumes "same_stream t c"
  shows "map_option (\<lambda>(good, taken, c', rest). (good, taken, rest)) (Connection_Send frame c (map plain_write sent)) =
      map_option (\<lambda>(good, taken, t', rest). (good, taken, map plain_write rest)) (Tls_Send frame t sent) \<and>
    (case Tls_Receive t outcomes of
      None \<Rightarrow> Receive c (map plain_read outcomes) = None
    | Some (out, t', rest) \<Rightarrow>
        \<exists>c'. Receive c (map plain_read outcomes) = Some (out, c', map plain_read rest) \<and> same_stream t' c')"
  using Tls_Send_plain [OF assms] Tls_Receive_plain [OF assms] by blast

lemma tls_stream_is_the_plain_one_witness:
  "map_option fst (Connection_Send (mkFrame kStat 7 [1, 2]) (Connection 4) [Sent 3, SendError]) =
      map_option fst (Tls_Send (mkFrame kStat 7 [1, 2]) (TlsConnection True 4) [SslWrote 3, SslWriteFail])"
proof -
  have "same_stream (TlsConnection True 4) (Connection 4)"
    by (simp add: same_stream_def TlsConnection_def Connection_def)
  from tls_stream_is_the_plain_one [OF this, of "mkFrame kStat 7 [1, 2]" "[SslWrote 3, SslWriteFail]" "[]", THEN conjunct1]
  have "map_option fst (map_option (\<lambda>(good, taken, c', rest). (good, taken, rest))
      (Connection_Send (mkFrame kStat 7 [1, 2]) (Connection 4) [Sent 3, SendError])) =
    map_option fst (map_option (\<lambda>(good, taken, t', rest). (good, taken, map plain_write rest))
      (Tls_Send (mkFrame kStat 7 [1, 2]) (TlsConnection True 4) [SslWrote 3, SslWriteFail]))"
    by (simp add: plain_write_def)
  then show ?thesis by (simp add: option.map_comp o_def case_prod_beta)
qed

end
