(* ===== verification/Containers.thy ===== *)
theory Containers
  imports Prelude "HOL-Library.AList" "HOL-Library.Char_ord" "HOL-Library.List_Lexorder"
begin

text \<open>
  The ordered containers of the C++ library: a \<open>std::map\<close> is its list of pairs by ascending key, a
  \<open>std::set\<close> its ascending list of elements, so that a loop over one visits it in the order of the
  program. Strings are ordered as \<open>std::string\<close> orders them, by unsigned characters from the left.
\<close>

section \<open>Ordered maps\<close>

type_synonym ('k, 'v) std_map = "('k \<times> 'v) list"

text \<open>\<open>m[k] = v\<close>: the place of a key that is new is before the first larger one.\<close>

fun map_put :: "'k::linorder \<Rightarrow> 'v \<Rightarrow> ('k, 'v) std_map \<Rightarrow> ('k, 'v) std_map" where
  "map_put k v [] = [(k, v)]"
| "map_put k v ((k', v') # m) =
     (if k < k' then (k, v) # (k', v') # m else if k = k' then (k, v) # m else (k', v') # map_put k v m)"

text \<open>\<open>m.erase(k)\<close> is \<open>AList.delete\<close>, \<open>m.find(k)\<close> is \<open>map_of\<close>.\<close>

definition map_ok :: "('k::linorder, 'v) std_map \<Rightarrow> bool" where
  "map_ok m \<longleftrightarrow> sorted (map fst m) \<and> distinct (map fst m)"

lemma map_of_put [simp]: "map_of (map_put k v m) = (map_of m)(k \<mapsto> v)"
  by (induction m) (auto simp: fun_eq_iff)

lemma dom_map_put [simp]: "fst ` set (map_put k v m) = insert k (fst ` set m)"
  by (simp flip: dom_map_of_conv_image_fst)

lemma map_put_entries: "(k', v') \<in> set (map_put k v m) \<Longrightarrow> (k', v') = (k, v) \<or> (k', v') \<in> set m"
  by (induction k v m rule: map_put.induct) (auto split: if_splits)

lemma map_ok_Nil [simp]: "map_ok []"
  by (simp add: map_ok_def)

lemma map_ok_Cons: "map_ok ((k, v) # m) \<longleftrightarrow> (\<forall>k' \<in> fst ` set m. k < k') \<and> map_ok m"
  by (auto simp: map_ok_def less_le)

lemma map_ok_put [simp]: "map_ok m \<Longrightarrow> map_ok (map_put k v m)"
  by (induction m) (auto simp: map_ok_Cons not_less_iff_gr_or_eq dest!: bspec dest: less_trans)

lemma map_ok_filter [simp]: "map_ok m \<Longrightarrow> map_ok (filter P m)"
  by (auto simp: map_ok_def sorted_wrt_filter sorted_filter distinct_map inj_on_def)

lemma map_ok_delete [simp]: "map_ok m \<Longrightarrow> map_ok (AList.delete k m)"
  by (simp add: AList.delete_eq)

lemma map_ok_in: "map_ok m \<Longrightarrow> (k, v) \<in> set m \<longleftrightarrow> map_of m k = Some v"
  by (auto simp: map_ok_def intro: map_of_is_SomeI dest: map_of_SomeD)

section \<open>Ordered sets\<close>

type_synonym 'k std_set = "'k list"

definition set_put :: "'k::linorder \<Rightarrow> 'k std_set \<Rightarrow> 'k std_set" where
  "set_put k s = insort_insert k s"

definition set_ok :: "'k::linorder std_set \<Rightarrow> bool" where
  "set_ok s \<longleftrightarrow> sorted s \<and> distinct s"

lemma set_set_put [simp]: "set (set_put k s) = insert k (set s)"
  by (simp add: set_put_def set_insort_insert)

lemma set_ok_Nil [simp]: "set_ok []"
  by (simp add: set_ok_def)

lemma set_ok_put [simp]: "set_ok s \<Longrightarrow> set_ok (set_put k s)"
  by (simp add: set_ok_def set_put_def sorted_insort_insert distinct_insort_insert)

end
