(* ===== verification/MdnsWire.thy ===== *)
theory MdnsWire
  imports Containers
begin

text \<open>
  The mDNS / DNS-SD codec, \<open>bricola/mdns/MdnsWire.cpp\<close>. A packet is a buffer and its length, names
  are strings, RDATA is bytes. A decoder that returns 0 or false has the result \<open>None\<close>.
\<close>

section \<open>Record types and integers\<close>

type_synonym rr_type = u16

definition kTypeA :: rr_type where "kTypeA = 1"
definition kTypePTR :: rr_type where "kTypePTR = 12"
definition kTypeTXT :: rr_type where "kTypeTXT = 16"
definition kTypeSRV :: rr_type where "kTypeSRV = 33"
definition kClassIN :: u16 where "kClassIN = 1"
definition kClassFlushBit :: u16 where "kClassFlushBit = 0x8000"
definition kFlagsQuery :: u16 where "kFlagsQuery = 0x0000"
definition kFlagsResponse :: u16 where "kFlagsResponse = 0x8400"
definition kMaxNameDepth :: nat where "kMaxNameDepth = 20"

lemmas rr_types = kTypeA_def kTypePTR_def kTypeTXT_def kTypeSRV_def

record Question =
  q_name :: string
  q_qtype :: u16
  q_qclass :: u16

record Record =
  r_name :: string
  r_type :: u16
  r_rrclass :: u16
  r_ttl :: u32
  r_rdataOffset :: nat
  r_rdata :: bytes

record Message =
  m_id :: u16
  m_flags :: u16
  m_questions :: "Question list"
  m_answers :: "Record list"
  m_authorities :: "Record list"
  m_additionals :: "Record list"

definition IsResponse :: "u16 \<Rightarrow> bool" where
  "IsResponse flags = (flags AND 0x8000 \<noteq> 0)"

definition ReadBE16 :: "bytes \<Rightarrow> nat \<Rightarrow> u16" where
  "ReadBE16 p i = push_bit 8 (ucast (p ! i)) OR ucast (p ! (i + 1))"

definition ReadBE32 :: "bytes \<Rightarrow> nat \<Rightarrow> u32" where
  "ReadBE32 p i = push_bit 24 (ucast (p ! i)) OR push_bit 16 (ucast (p ! (i + 1)))
     OR push_bit 8 (ucast (p ! (i + 2))) OR ucast (p ! (i + 3))"

definition AppendBE16 :: "u16 \<Rightarrow> bytes" where
  "AppendBE16 v = [ucast (drop_bit 8 v AND 0xFF), ucast (v AND 0xFF)]"

definition AppendBE32 :: "u32 \<Rightarrow> bytes" where
  "AppendBE32 v = [ucast (drop_bit 24 v AND 0xFF), ucast (drop_bit 16 v AND 0xFF),
     ucast (drop_bit 8 v AND 0xFF), ucast (v AND 0xFF)]"

section \<open>Names\<close>

function EncodeName :: "string \<Rightarrow> bytes" where
  "EncodeName name = (if name = [] then [0]
     else let label = takeWhile (\<lambda>c. c \<noteq> CHR ''.'') name in
       (if 0 < length label \<and> length label < 64
        then word_of_nat (length label) # bytes_of_string label else []) @
       EncodeName (drop (length label + 1) name))"
  by pat_completeness auto
termination by (relation "measure length") (auto simp: Let_def)

declare EncodeName.simps [simp del]

text \<open>
  The recursive worker: \<open>start\<close> is where this name began, \<open>offset\<close> where the loop is, \<open>out\<close> what has
  been read. The result is the number of bytes consumed at \<open>start\<close>, with the name.
\<close>

function DecodeNameInto :: "bytes \<Rightarrow> nat \<Rightarrow> nat \<Rightarrow> nat \<Rightarrow> string \<Rightarrow> nat \<Rightarrow> (nat \<times> string) option" where
  "DecodeNameInto buf len start offset out depth =
    (if offset \<ge> len then None
     else let labelLen = buf ! offset in
       if labelLen = 0 then Some (offset + 1 - start, out)
       else if labelLen AND 0xC0 = 0xC0 then
         if offset + 1 \<ge> len then None
         else let ptr = unat (push_bit 8 (ucast (labelLen AND 0x3F)) OR ucast (buf ! (offset + 1)) :: u16) in
           if depth + 1 > kMaxNameDepth \<or> ptr \<ge> len then None
           else map_option (\<lambda>(_, out). (offset + 2 - start, out)) (DecodeNameInto buf len ptr ptr out (depth + 1))
       else if labelLen AND 0xC0 \<noteq> 0 then None
       else if offset + 1 + unat labelLen > len then None
       else DecodeNameInto buf len start (offset + 1 + unat labelLen)
         ((if out \<noteq> [] then out @ ''.'' else out) @ string_of_bytes (take (unat labelLen) (drop (offset + 1) buf))) depth)"
  by pat_completeness auto
termination
  by (relation "measures [\<lambda>(buf, len, start, offset, out, depth). kMaxNameDepth + 1 - depth,
      \<lambda>(buf, len, start, offset, out, depth). len - offset]") auto

declare DecodeNameInto.simps [simp del]

definition DecodeName :: "bytes \<Rightarrow> nat \<Rightarrow> nat \<Rightarrow> (nat \<times> string) option" where
  "DecodeName buf len offset = (if offset \<ge> len then None else DecodeNameInto buf len offset offset [] 0)"

section \<open>Messages\<close>

fun ParseQuestions :: "bytes \<Rightarrow> nat \<Rightarrow> nat \<Rightarrow> nat \<Rightarrow> (Question list \<times> nat) option" where
  "ParseQuestions buf len offset 0 = Some ([], offset)"
| "ParseQuestions buf len offset (Suc n) = (case DecodeName buf len offset of
     None \<Rightarrow> None
   | Some (c, name) \<Rightarrow> let offset = offset + c in
       if offset + 4 > len then None
       else let q = \<lparr>q_name = name, q_qtype = ReadBE16 buf offset, q_qclass = ReadBE16 buf (offset + 2)\<rparr> in
         map_option (\<lambda>(qs, offset). (q # qs, offset)) (ParseQuestions buf len (offset + 4) n))"

fun ParseRecords :: "bytes \<Rightarrow> nat \<Rightarrow> nat \<Rightarrow> nat \<Rightarrow> (Record list \<times> nat) option" where
  "ParseRecords buf len offset 0 = Some ([], offset)"
| "ParseRecords buf len offset (Suc n) = (case DecodeName buf len offset of
     None \<Rightarrow> None
   | Some (c, name) \<Rightarrow> let offset = offset + c in
       if offset + 10 > len then None
       else let rdlen = unat (ReadBE16 buf (offset + 8)) in
         if offset + 10 + rdlen > len then None
         else let rec = \<lparr>r_name = name, r_type = ReadBE16 buf offset, r_rrclass = ReadBE16 buf (offset + 2),
                r_ttl = ReadBE32 buf (offset + 4), r_rdataOffset = offset + 10,
                r_rdata = take rdlen (drop (offset + 10) buf)\<rparr> in
           map_option (\<lambda>(rs, offset). (rec # rs, offset)) (ParseRecords buf len (offset + 10 + rdlen) n))"

definition Parse :: "bytes \<Rightarrow> nat \<Rightarrow> Message option" where
  "Parse buf len = (if len < 12 then None
     else case ParseQuestions buf len 12 (unat (ReadBE16 buf 4)) of
       None \<Rightarrow> None
     | Some (qs, offset) \<Rightarrow> (case ParseRecords buf len offset (unat (ReadBE16 buf 6)) of
         None \<Rightarrow> None
       | Some (an, offset) \<Rightarrow> (case ParseRecords buf len offset (unat (ReadBE16 buf 8)) of
           None \<Rightarrow> None
         | Some (ns, offset) \<Rightarrow> (case ParseRecords buf len offset (unat (ReadBE16 buf 10)) of
             None \<Rightarrow> None
           | Some (ar, offset) \<Rightarrow> Some \<lparr>m_id = ReadBE16 buf 0, m_flags = ReadBE16 buf 2, m_questions = qs,
               m_answers = an, m_authorities = ns, m_additionals = ar\<rparr>))))"

section \<open>Decimal numbers\<close>

text \<open>\<open>std::to_string\<close> and \<open>%u\<close> on a number.\<close>

fun decimal :: "nat \<Rightarrow> string" where
  "decimal n = (if n < 10 then [char_of (48 + n)] else decimal (n div 10) @ [char_of (48 + n mod 10)])"

declare decimal.simps [simp del]

definition is_digit :: "char \<Rightarrow> bool" where
  "is_digit c \<longleftrightarrow> 48 \<le> (of_char c :: nat) \<and> (of_char c :: nat) \<le> 57"

definition is_space :: "char \<Rightarrow> bool" where
  "is_space c \<longleftrightarrow> c = CHR '' '' \<or> 9 \<le> (of_char c :: nat) \<and> (of_char c :: nat) \<le> 13"

definition digits_value :: "string \<Rightarrow> nat" where
  "digits_value = foldl (\<lambda>v c. v * 10 + (of_char c - 48)) 0"

text \<open>
  \<open>strtoul\<close> in base 10, which \<open>sscanf\<close> with \<open>%u\<close> runs as well: white space, a sign, digits. The
  result is the value, saturated at 64 bits and negated for a minus sign, and what follows.
\<close>

definition strtoul :: "string \<Rightarrow> (u64 \<times> string) option" where
  "strtoul s = (let s = dropWhile is_space s;
     neg = (s \<noteq> [] \<and> hd s = CHR ''-'');
     s = (if s \<noteq> [] \<and> (hd s = CHR ''-'' \<or> hd s = CHR ''+'') then tl s else s);
     ds = takeWhile is_digit s in
     if ds = [] then None
     else let v = digits_value ds in
       Some (if v \<ge> 2 ^ 64 then - 1 else if neg then - of_nat v else of_nat v, dropWhile is_digit s))"

section \<open>Typed views of records\<close>

definition DecodeA :: "Record \<Rightarrow> string option" where
  "DecodeA rec = (if r_type rec \<noteq> kTypeA \<or> length (r_rdata rec) \<noteq> 4 then None
     else let p = r_rdata rec in
       Some (decimal (unat (p ! 0)) @ ''.'' @ decimal (unat (p ! 1)) @ ''.'' @ decimal (unat (p ! 2)) @ ''.'' @
         decimal (unat (p ! 3))))"

definition DecodePtr :: "bytes \<Rightarrow> nat \<Rightarrow> Record \<Rightarrow> string option" where
  "DecodePtr buf len rec = (if r_type rec \<noteq> kTypePTR then None
     else map_option snd (DecodeName buf len (r_rdataOffset rec)))"

definition DecodeSrv :: "bytes \<Rightarrow> nat \<Rightarrow> Record \<Rightarrow> (u16 \<times> u16 \<times> u16 \<times> string) option" where
  "DecodeSrv buf len rec = (if r_type rec \<noteq> kTypeSRV \<or> length (r_rdata rec) < 7 then None
     else let p = r_rdata rec in
       map_option (\<lambda>(_, target). (ReadBE16 p 0, ReadBE16 p 2, ReadBE16 p 4, target))
         (DecodeName buf len (r_rdataOffset rec + 6)))"

definition split_entry :: "string \<Rightarrow> string \<times> string" where
  "split_entry entry = (if CHR ''='' \<notin> set entry then (entry, [])
     else (takeWhile (\<lambda>c. c \<noteq> CHR ''='') entry, tl (dropWhile (\<lambda>c. c \<noteq> CHR ''='') entry)))"

fun txt_entries :: "bytes \<Rightarrow> (string \<times> string) list option" where
  "txt_entries [] = Some []"
| "txt_entries (slen # r) = (if unat slen > length r then None
     else let entry = string_of_bytes (take (unat slen) r) in
       map_option (\<lambda>kv. if entry = [] then kv else split_entry entry # kv) (txt_entries (drop (unat slen) r)))"

definition DecodeTxt :: "Record \<Rightarrow> (string \<times> string) list option" where
  "DecodeTxt rec = (if r_type rec \<noteq> kTypeTXT then None else txt_entries (r_rdata rec))"

section \<open>Encoding\<close>

record OutRecord =
  o_name :: string
  o_type :: u16
  o_ttl :: u32
  o_cacheFlush :: bool
  o_rdata :: bytes

text \<open>\<open>%u\<close> stores the low 32 bits; the three dots must match, and \<open>%c\<close> must find nothing behind.\<close>

definition scan_dotted :: "string \<Rightarrow> (u32 \<times> u32 \<times> u32 \<times> u32) option" where
  "scan_dotted s = (case strtoul s of None \<Rightarrow> None | Some (a, s) \<Rightarrow>
     (if s = [] \<or> hd s \<noteq> CHR ''.'' then None else case strtoul (tl s) of None \<Rightarrow> None | Some (b, s) \<Rightarrow>
     (if s = [] \<or> hd s \<noteq> CHR ''.'' then None else case strtoul (tl s) of None \<Rightarrow> None | Some (c, s) \<Rightarrow>
     (if s = [] \<or> hd s \<noteq> CHR ''.'' then None else case strtoul (tl s) of None \<Rightarrow> None | Some (d, s) \<Rightarrow>
     (if s \<noteq> [] then None else Some (ucast a, ucast b, ucast c, ucast d))))))"

text \<open>\<open>c_str\<close> ends at the first NUL.\<close>

definition c_str :: "string \<Rightarrow> string" where
  "c_str s = takeWhile (\<lambda>c. c \<noteq> CHR 0x00) s"

definition MakeA :: "string \<Rightarrow> bytes" where
  "MakeA ipv4 = (case scan_dotted (c_str ipv4) of
     None \<Rightarrow> []
   | Some (a, b, c, d) \<Rightarrow> if a > 255 \<or> b > 255 \<or> c > 255 \<or> d > 255 then []
       else [ucast a, ucast b, ucast c, ucast d])"

definition MakeSrv :: "u16 \<Rightarrow> u16 \<Rightarrow> u16 \<Rightarrow> string \<Rightarrow> bytes" where
  "MakeSrv priority weight port target =
     AppendBE16 priority @ AppendBE16 weight @ AppendBE16 port @ EncodeName target"

definition MakePtr :: "string \<Rightarrow> bytes" where
  "MakePtr target = EncodeName target"

definition txt_entry :: "string \<times> string \<Rightarrow> bytes" where
  "txt_entry kv = (let entry = fst kv @ (if snd kv \<noteq> [] then ''='' @ snd kv else []);
     entry = (if length entry > 255 then take 255 entry else entry) in
     word_of_nat (length entry) # bytes_of_string entry)"

definition MakeTxt :: "(string \<times> string) list \<Rightarrow> bytes" where
  "MakeTxt kv = (let out = concat (map txt_entry kv) in if out = [] then [0] else out)"

definition BuildQuery :: "string \<Rightarrow> bytes" where
  "BuildQuery serviceName = AppendBE16 0 @ AppendBE16 kFlagsQuery @ AppendBE16 1 @ AppendBE16 0 @ AppendBE16 0 @
     AppendBE16 0 @ EncodeName serviceName @ AppendBE16 kTypePTR @ AppendBE16 kClassIN"

definition AppendRecord :: "OutRecord \<Rightarrow> bytes" where
  "AppendRecord rec = EncodeName (o_name rec) @ AppendBE16 (o_type rec) @
     AppendBE16 (if o_cacheFlush rec then kClassIN OR kClassFlushBit else kClassIN) @
     AppendBE32 (o_ttl rec) @ AppendBE16 (word_of_nat (length (o_rdata rec))) @ o_rdata rec"

definition BuildResponse :: "OutRecord list \<Rightarrow> OutRecord list \<Rightarrow> bytes" where
  "BuildResponse answers additionals = AppendBE16 0 @ AppendBE16 kFlagsResponse @ AppendBE16 0 @
     AppendBE16 (word_of_nat (length answers)) @ AppendBE16 0 @ AppendBE16 (word_of_nat (length additionals)) @
     concat (map AppendRecord answers) @ concat (map AppendRecord additionals)"

section \<open>Integers on the wire\<close>

lemma be16_back: "push_bit 8 (ucast (ucast (drop_bit 8 v AND 0xFF) :: byte)) OR ucast (ucast (v AND 0xFF) :: byte) = (v :: u16)"
  unfolding low_byte_mask by (rule bit_word_eqI) (auto simp: bit_simps)

lemma be32_back:
  "push_bit 24 (ucast (ucast (drop_bit 24 v AND 0xFF) :: byte)) OR push_bit 16 (ucast (ucast (drop_bit 16 v AND 0xFF) :: byte))
     OR push_bit 8 (ucast (ucast (drop_bit 8 v AND 0xFF) :: byte)) OR ucast (ucast (v AND 0xFF) :: byte) = (v :: u32)"
  (is "?w = v")
proof (rule bit_word_eqI)
  fix n :: nat
  consider "n < 8" | "8 \<le> n" "n < 16" | "16 \<le> n" "n < 24" | "24 \<le> n" by linarith
  then show "bit ?w n = bit v n"
    unfolding low_byte_mask by cases (auto simp: bit_simps dest: bit_imp_le_length)
qed

text \<open>The buffer \<open>buf\<close> holds the bytes \<open>xs\<close> at \<open>i\<close>, with \<open>r\<close> behind.\<close>

lemma nth_at: "drop i buf = x # r \<Longrightarrow> buf ! i = x"
  by (metis drop_all hd_drop_conv_nth leI list.distinct(1) list.sel(1))

lemma drop_at: "drop i buf = xs @ r \<Longrightarrow> drop (i + length xs) buf = r"
  by (metis add.commute append_eq_conv_conj drop_drop)

lemma length_at: "drop i buf = xs @ r \<Longrightarrow> xs \<noteq> [] \<Longrightarrow> i + length xs + length r = length buf"
  by (metis append_is_Nil_conv drop_all length_append length_drop le_add_diff_inverse linorder_le_cases add.assoc)

lemma take_at: "drop i buf = xs @ r \<Longrightarrow> take (length xs) (drop i buf) = xs"
  by simp

lemma nth_within: "drop i buf = xs \<Longrightarrow> k < length xs \<Longrightarrow> buf ! (i + k) = xs ! k"
  by (metis drop_all length_greater_0_conv linorder_le_cases list.size(3) not_less_zero nth_drop)

lemma ReadBE16_at: "drop i buf = AppendBE16 v @ r \<Longrightarrow> ReadBE16 buf i = v"
  using nth_within [of i buf _ 0] nth_within [of i buf _ 1]
  by (simp add: ReadBE16_def AppendBE16_def be16_back)

lemma ReadBE32_at: "drop i buf = AppendBE32 v @ r \<Longrightarrow> ReadBE32 buf i = v"
  using nth_within [of i buf _ 0] nth_within [of i buf _ 1] nth_within [of i buf _ 2] nth_within [of i buf _ 3]
  by (simp add: ReadBE32_def AppendBE32_def be32_back)

lemma length_BE [simp]: "length (AppendBE16 v) = 2" "length (AppendBE32 w) = 4"
  by (simp_all add: AppendBE16_def AppendBE32_def)

section \<open>Names\<close>

text \<open>A name the encoder carries whole: labels of 1 to 63 bytes between single dots.\<close>

fun good_name :: "string \<Rightarrow> bool" where
  "good_name name \<longleftrightarrow> (let label = takeWhile (\<lambda>c. c \<noteq> CHR ''.'') name in
     0 < length label \<and> length label < 64 \<and>
     (length label < length name \<longrightarrow> good_name (drop (length label + 1) name)))"

declare good_name.simps [simp del]

definition dotted :: "string \<Rightarrow> string \<Rightarrow> string" where
  "dotted out name = (if out \<noteq> [] then out @ ''.'' else out) @ name"

lemma EncodeName_Nil: "EncodeName [] = [0]"
  by (simp add: EncodeName.simps)

lemma EncodeName_nonempty [simp]: "EncodeName name \<noteq> []"
  by (induction name rule: EncodeName.induct) (subst EncodeName.simps, auto simp: Let_def)

lemma byte_label:
  assumes "0 < n" "n < 64"
  shows "unat (word_of_nat n :: byte) = n" "(word_of_nat n :: byte) AND 0xC0 = 0" "(word_of_nat n :: byte) \<noteq> 0"
proof -
  show u: "unat (word_of_nat n :: byte) = n" using assms by (simp add: unat_of_nat)
  show "(word_of_nat n :: byte) \<noteq> 0" using u assms by auto
  have "drop_bit 6 (word_of_nat n :: byte) = 0" by (rule drop_bit_small) (use u assms in simp)
  moreover have "x AND 0xC0 = push_bit 6 (drop_bit 6 x)" for x :: byte
  proof -
    have c: "(0xC0 :: byte) = NOT (mask 6)" by (simp add: mask_eq_exp_minus_1)
    show ?thesis unfolding c by (rule bit_word_eqI) (auto simp: bit_simps)
  qed
  ultimately show "(word_of_nat n :: byte) AND 0xC0 = 0" by simp
qed

lemma EncodeName_label:
  assumes "good_name name"
  defines "label \<equiv> takeWhile (\<lambda>c. c \<noteq> CHR ''.'') name"
  shows "EncodeName name = word_of_nat (length label) # bytes_of_string label @
     (if label = name then [0] else EncodeName (drop (length label + 1) name))"
    "0 < length label" "length label < 64"
    "label \<noteq> name \<Longrightarrow> good_name (drop (length label + 1) name) \<and> name = label @ ''.'' @ drop (length label + 1) name"
proof -
  have l: "0 < length label" "length label < 64"
    using assms by (auto simp: good_name.simps [of name] Let_def)
  show "0 < length label" "length label < 64" by fact+
  have ne: "name \<noteq> []" using l by (auto simp: label_def)
  have split: "name = label @ dropWhile (\<lambda>c. c \<noteq> CHR ''.'') name"
    by (simp add: label_def)
  have rest: "dropWhile (\<lambda>c. c \<noteq> CHR ''.'') name = CHR ''.'' # drop (length label + 1) name"
    if "label \<noteq> name"
  proof -
    have "dropWhile (\<lambda>c. c \<noteq> CHR ''.'') name \<noteq> []" using split that by (metis append_Nil2)
    then obtain c t where ct: "dropWhile (\<lambda>c. c \<noteq> CHR ''.'') name = c # t" by (cases "dropWhile (\<lambda>c. c \<noteq> CHR ''.'') name") auto
    then have "c = CHR ''.''" using hd_dropWhile [of "\<lambda>c. c \<noteq> CHR ''.''" name] by simp
    moreover have "drop (length label + 1) (label @ c # t) = t" by simp
    then have "drop (length label + 1) name = t" using split by (simp only: ct)
    ultimately show ?thesis using ct by simp
  qed
  show "label \<noteq> name \<Longrightarrow> good_name (drop (length label + 1) name) \<and> name = label @ ''.'' @ drop (length label + 1) name"
  proof
    assume n: "label \<noteq> name"
    show "name = label @ ''.'' @ drop (length label + 1) name" using split rest [OF n] by simp
    then have "length label < length name" by (metis length_append length_Cons less_add_same_cancel1 append_Cons zero_less_Suc)
    then show "good_name (drop (length label + 1) name)"
      using assms by (auto simp: good_name.simps [of name] Let_def)
  qed
  show "EncodeName name = word_of_nat (length label) # bytes_of_string label @
     (if label = name then [0] else EncodeName (drop (length label + 1) name))"
    unfolding EncodeName.simps [of name] Let_def label_def [symmetric]
    using l ne by (auto simp: EncodeName_Nil)
qed

lemma DecodeNameInto_good:
  assumes "good_name name" "drop i buf = EncodeName name @ r"
  shows "DecodeNameInto buf (length buf) start i out depth =
     Some (i + length (EncodeName name) - start, dotted out name)"
  using assms
proof (induction name arbitrary: i out rule: good_name.induct)
  case (1 name)
  define label where "label = takeWhile (\<lambda>c. c \<noteq> CHR ''.'') name"
  define rest where "rest = drop (length label + 1) name"
  note enc = EncodeName_label [OF 1(2), folded label_def, folded rest_def]
  have at: "drop i buf = word_of_nat (length label) # bytes_of_string label @ (if label = name then [0] else EncodeName rest) @ r"
    using 1(3) enc(1) by simp
  have len: "i + 1 + length label < length buf"
    using length_at [of i buf "word_of_nat (length label) # bytes_of_string label @ (if label = name then [0] else EncodeName rest)" r] at
    by (cases "EncodeName rest") (auto split: if_splits)
  have after: "drop (i + 1 + length label) buf = (if label = name then [0] else EncodeName rest) @ r"
    using drop_at [of i buf "word_of_nat (length label) # bytes_of_string label"] at by simp
  have lab: "take (length label) (drop (i + 1) buf) = bytes_of_string label"
    using drop_at [of i buf "[word_of_nat (length label)]"] at by simp
  have step: "DecodeNameInto buf (length buf) start i out depth =
      DecodeNameInto buf (length buf) start (i + 1 + length label) (dotted out label) depth"
    using len lab nth_at [OF at] byte_label [OF enc(2,3)]
    by (subst DecodeNameInto.simps) (simp add: Let_def dotted_def)
  show ?case
  proof (cases "label = name")
    case True
    have "buf ! (i + 1 + length label) = 0" using nth_at after True by simp
    then show ?thesis using True len enc(1)
      by (simp add: step) (subst DecodeNameInto.simps, simp add: True)
  next
    case False
    have g: "good_name rest" "name = label @ ''.'' @ rest" using enc(4) False by auto
    have "DecodeNameInto buf (length buf) start (i + 1 + length label) (dotted out label) depth =
        Some (i + 1 + length label + length (EncodeName rest) - start, dotted (dotted out label) rest)"
    proof (rule 1(1) [OF label_def, folded rest_def])
      show "drop (i + 1 + length label) buf = EncodeName rest @ r" using after False by simp
      show "length label < length name" by (subst g(2)) simp
    qed (use enc(2,3) g(1) in simp_all)
    moreover have "dotted (dotted out label) rest = dotted out name"
      using enc(2) by (subst g(2)) (auto simp: dotted_def)
    ultimately show ?thesis using enc(1) False by (simp add: step)
  qed
qed

lemma DecodeName_good:
  assumes "good_name name" "drop i buf = EncodeName name @ r"
  shows "DecodeName buf (length buf) i = Some (length (EncodeName name), name)"
  using DecodeNameInto_good [OF assms, of i "[]" 0] length_at [OF assms(2)]
  by (cases "EncodeName name") (auto simp: DecodeName_def dotted_def)

lemma length_EncodeName: "length (EncodeName name) \<le> length name + 2"
proof (induction name rule: EncodeName.induct)
  case (1 name)
  show ?case
  proof (cases "name = []")
    case False
    define label where "label = takeWhile (\<lambda>c. c \<noteq> CHR ''.'') name"
    have "length (EncodeName (drop (length label + 1) name)) \<le> length name - (length label + 1) + 2"
      using 1 [OF False label_def] by simp
    moreover have "length label \<le> length name"
      by (simp add: label_def length_takeWhile_le)
    ultimately show ?thesis using False
      unfolding EncodeName.simps [of name] Let_def label_def [symmetric]
      by (cases "length label = length name") (auto simp: EncodeName_Nil)
  qed (simp add: EncodeName_Nil)
qed

section \<open>What a built packet parses to\<close>

definition record_class :: "OutRecord \<Rightarrow> u16" where
  "record_class rec = (if o_cacheFlush rec then kClassIN OR kClassFlushBit else kClassIN)"

definition record_at :: "nat \<Rightarrow> OutRecord \<Rightarrow> Record" where
  "record_at offset rec = \<lparr>r_name = o_name rec, r_type = o_type rec, r_rrclass = record_class rec,
     r_ttl = o_ttl rec, r_rdataOffset = offset + length (EncodeName (o_name rec)) + 10, r_rdata = o_rdata rec\<rparr>"

fun records_at :: "nat \<Rightarrow> OutRecord list \<Rightarrow> Record list" where
  "records_at offset [] = []"
| "records_at offset (rec # recs) = record_at offset rec # records_at (offset + length (AppendRecord rec)) recs"

definition good_record :: "OutRecord \<Rightarrow> bool" where
  "good_record rec \<longleftrightarrow> good_name (o_name rec) \<and> length (o_rdata rec) < 2 ^ 16"

lemma unat_of_small16: "n < 2 ^ 16 \<Longrightarrow> unat (word_of_nat n :: u16) = n"
  by (simp add: unat_of_nat)

lemma ParseRecords_AppendRecord:
  assumes "\<forall>rec \<in> set recs. good_record rec" "drop i buf = concat (map AppendRecord recs) @ r"
  shows "ParseRecords buf (length buf) i (length recs) =
     Some (records_at i recs, i + length (concat (map AppendRecord recs)))"
  using assms
proof (induction recs arbitrary: i)
  case (Cons rec recs)
  define j where "j = i + length (EncodeName (o_name rec))"
  define tail where "tail = concat (map AppendRecord recs) @ r"
  have at: "drop i buf = EncodeName (o_name rec) @ AppendBE16 (o_type rec) @ AppendBE16 (record_class rec) @
      AppendBE32 (o_ttl rec) @ AppendBE16 (word_of_nat (length (o_rdata rec))) @ o_rdata rec @ tail"
    using Cons(3) by (simp add: AppendRecord_def [of rec] record_class_def tail_def)
  note j = drop_at [OF at, folded j_def]
  note j2 = drop_at [OF j] and j4 = drop_at [OF drop_at [OF j]]
  note j8 = drop_at [OF j4] and j10 = drop_at [OF drop_at [OF j4]]
  have len: "j + 10 + length (o_rdata rec) + length tail = length buf"
    using length_at [OF at] by (simp add: j_def)
  have name: "DecodeName buf (length buf) i = Some (length (EncodeName (o_name rec)), o_name rec)"
    using Cons(2) at by (intro DecodeName_good) (auto simp: good_record_def)
  have rd: "unat (ReadBE16 buf (j + 8)) = length (o_rdata rec)"
    using ReadBE16_at [OF j8] Cons(2) by (simp add: unat_of_small16 good_record_def add.commute)
  have rec: "ReadBE16 buf j = o_type rec" "ReadBE16 buf (j + 2) = record_class rec" "ReadBE32 buf (j + 4) = o_ttl rec"
    using ReadBE16_at [OF j] ReadBE16_at [OF j2] ReadBE32_at [OF j4]
    by (simp_all add: add.commute del: add_2_eq_Suc add_2_eq_Suc')
  have rest: "drop (i + length (AppendRecord rec)) buf = tail"
    using drop_at [OF j10] by (simp add: AppendRecord_def j_def ac_simps)
  show ?case
    using name rd rec len j10 Cons(1) [OF _ rest [unfolded tail_def]] Cons(2)
    by (simp add: Let_def record_at_def j_def AppendRecord_def [of rec] ac_simps)
qed simp

lemma Parse_BuildResponse:
  assumes "\<forall>rec \<in> set (answers @ additionals). good_record rec"
    and "length answers < 2 ^ 16" "length additionals < 2 ^ 16"
  defines "buf \<equiv> BuildResponse answers additionals"
  shows "Parse buf (length buf) = Some \<lparr>m_id = 0, m_flags = kFlagsResponse, m_questions = [],
     m_answers = records_at 12 answers, m_authorities = [],
     m_additionals = records_at (12 + length (concat (map AppendRecord answers))) additionals\<rparr>"
proof -
  define an ar where "an = concat (map AppendRecord answers)" and "ar = concat (map AppendRecord additionals)"
  have b0: "drop 0 buf = AppendBE16 0 @ AppendBE16 kFlagsResponse @ AppendBE16 0 @
      AppendBE16 (word_of_nat (length answers)) @ AppendBE16 0 @ AppendBE16 (word_of_nat (length additionals)) @ an @ ar"
    by (simp add: buf_def BuildResponse_def an_def ar_def)
  note b2 = drop_at [OF b0] note b4 = drop_at [OF b2] note b6 = drop_at [OF b4]
  note b8 = drop_at [OF b6] note b10 = drop_at [OF b8] note b12 = drop_at [OF b10]
  have nums: "ReadBE16 buf 0 = 0" "ReadBE16 buf 2 = kFlagsResponse" "ReadBE16 buf 4 = 0"
    "unat (ReadBE16 buf 6) = length answers" "ReadBE16 buf 8 = 0" "unat (ReadBE16 buf 10) = length additionals"
    using ReadBE16_at [OF b0] ReadBE16_at [OF b2] ReadBE16_at [OF b4] ReadBE16_at [OF b6]
      ReadBE16_at [OF b8] ReadBE16_at [OF b10] assms(2,3)
    by (simp_all add: unat_of_small16 del: add_2_eq_Suc add_2_eq_Suc')
  have an: "ParseRecords buf (length buf) 12 (length answers) = Some (records_at 12 answers, 12 + length an)"
    unfolding an_def by (rule ParseRecords_AppendRecord) (use b12 assms(1) in \<open>auto simp: an_def simp del: add_2_eq_Suc add_2_eq_Suc'\<close>)
  have ar: "ParseRecords buf (length buf) (12 + length an) (length additionals) =
      Some (records_at (12 + length an) additionals, 12 + length an + length ar)"
    unfolding ar_def by (rule ParseRecords_AppendRecord [where r = "[]"])
      (use drop_at [of 12 buf an ar] b12 assms(1) in \<open>auto simp: ar_def simp del: add_2_eq_Suc add_2_eq_Suc'\<close>)
  have "12 \<le> length buf" by (simp add: buf_def BuildResponse_def)
  then show ?thesis using nums an ar by (simp add: Parse_def Let_def an_def)
qed

section \<open>Numbers and addresses as text\<close>

lemma digits_value_snoc: "digits_value (s @ [c]) = digits_value s * 10 + (of_char c - 48)"
  by (simp add: digits_value_def)

lemma digits_value_one: "digits_value [c] = of_char c - 48"
  by (simp add: digits_value_def)

lemma decimal_facts:
  "decimal n \<noteq> []" "\<forall>c \<in> set (decimal n). is_digit c" "digits_value (decimal n) = n"
proof (induction n rule: decimal.induct)
  case (1 n)
  have d: "is_digit (char_of (48 + m))" "of_char (char_of (48 + m) :: char) - 48 = m" if "m < 10" for m :: nat
    using that by (auto simp: is_digit_def)
  { case 1 show ?case by (subst decimal.simps) auto }
  { case 2 show ?case using "1.IH"(2) d(1) [of n] d(1) [of "n mod 10"] by (subst decimal.simps) (cases "n < 10"; simp) }
  { case 3 show ?case using "1.IH"(3) d(2) [of n] d(2) [of "n mod 10"]
      by (subst decimal.simps) (cases "n < 10"; simp add: digits_value_snoc digits_value_one) }
qed

lemma is_digit_not: "is_digit c \<Longrightarrow> \<not> is_space c" "is_digit c \<Longrightarrow> c \<noteq> CHR ''-'' \<and> c \<noteq> CHR ''+''"
  "is_digit c \<Longrightarrow> c \<noteq> CHR 0x00"
  by (auto simp: is_digit_def is_space_def)

lemma strtoul_decimal:
  assumes "n < 2 ^ 64" "r = [] \<or> \<not> is_digit (hd r)"
  shows "strtoul (decimal n @ r) = Some (of_nat n, r)"
proof -
  obtain c t where ct: "decimal n = c # t" using decimal_facts(1) [of n] by (cases "decimal n") auto
  have dig: "\<forall>c \<in> set (decimal n). is_digit c" by (rule decimal_facts)
  then have c: "\<not> is_space c" "c \<noteq> CHR ''-''" "c \<noteq> CHR ''+''" using is_digit_not ct by auto
  have "takeWhile is_digit (decimal n @ r) = decimal n" "dropWhile is_digit (decimal n @ r) = r"
    using dig assms(2) by (cases r; simp add: takeWhile_append dropWhile_append)+
  moreover have "dropWhile is_space (decimal n @ r) = decimal n @ r" using c ct by simp
  ultimately show ?thesis
    using c assms(1) decimal_facts(1,3) [of n] by (simp add: strtoul_def Let_def ct)
qed

lemma byte_bound: "unat (x :: byte) < 256"
proof -
  have "unat x < 2 ^ 8" using unsigned_less [of x] by simp
  then show ?thesis by simp
qed

definition quad :: "byte \<Rightarrow> byte \<Rightarrow> byte \<Rightarrow> byte \<Rightarrow> string" where
  "quad a b c d = decimal (unat a) @ ''.'' @ decimal (unat b) @ ''.'' @ decimal (unat c) @ ''.'' @ decimal (unat d)"

lemma scan_quad: "scan_dotted (quad a b c d) = Some (ucast a, ucast b, ucast c, ucast d)"
proof -
  have dot: "\<not> is_digit CHR ''.''" by (simp add: is_digit_def)
  have n: "unat x < 2 ^ 64" for x :: byte using byte_bound [of x] by simp
  have u: "(ucast (ucast x :: u64) :: u32) = ucast x" for x :: byte
    by (rule bit_word_eqI) (auto simp: bit_simps)
  show ?thesis using dot n strtoul_decimal [OF n, of "[]" d]
    by (simp add: scan_dotted_def quad_def strtoul_decimal u)
qed

lemma MakeA_quad: "MakeA (quad a b c d) = [a, b, c, d]"
proof -
  have "\<forall>x \<in> set (quad a b c d). x \<noteq> CHR 0x00"
    using decimal_facts(2) is_digit_not(3) by (auto simp: quad_def)
  then have "c_str (quad a b c d) = quad a b c d" by (simp add: c_str_def)
  moreover have "\<not> (ucast x :: u32) > 255" "(ucast (ucast x :: u32) :: byte) = x" for x :: byte
    using byte_bound [of x] by (simp add: word_less_nat_alt unat_ucast_small)
      (rule bit_word_eqI, auto simp: bit_simps)
  ultimately show ?thesis by (simp add: MakeA_def scan_quad)
qed

section \<open>Attributes of a TXT record\<close>

definition good_attribute :: "string \<times> string \<Rightarrow> bool" where
  "good_attribute kv \<longleftrightarrow> fst kv \<noteq> [] \<and> CHR ''='' \<notin> set (fst kv) \<and> length (fst kv) + length (snd kv) < 255"

lemma split_entry_back:
  assumes "CHR ''='' \<notin> set k"
  shows "split_entry (k @ (if v \<noteq> [] then ''='' @ v else [])) = (k, v)"
proof -
  have "takeWhile (\<lambda>c. c \<noteq> CHR ''='') (k @ CHR ''='' # v) = k" "dropWhile (\<lambda>c. c \<noteq> CHR ''='') (k @ CHR ''='' # v) = CHR ''='' # v"
    using assms by (auto simp: takeWhile_append dropWhile_append)
  then show ?thesis using assms by (auto simp: split_entry_def)
qed

lemma txt_entries_back:
  assumes "\<forall>p \<in> set kv. good_attribute p"
  shows "txt_entries (concat (map txt_entry kv)) = Some kv"
  using assms
proof (induction kv)
  case (Cons p kv)
  define e where "e = fst p @ (if snd p \<noteq> [] then ''='' @ snd p else [])"
  have e: "length e < 256" "e \<noteq> []" "split_entry e = p"
    using Cons(2) split_entry_back [of "fst p" "snd p"] by (auto simp: e_def good_attribute_def)
  have "txt_entry p = word_of_nat (length e) # bytes_of_string e"
    using e(1) by (simp add: txt_entry_def e_def [symmetric] Let_def)
  moreover have "unat (word_of_nat (length e) :: byte) = length e" using e(1) by (simp add: unat_of_nat)
  ultimately show ?case using Cons e by (simp add: Let_def)
qed simp

lemma MakeTxt_back:
  assumes "\<forall>p \<in> set kv. good_attribute p"
  shows "txt_entries (MakeTxt kv) = Some kv"
proof (cases "concat (map txt_entry kv) = []")
  case True
  then have "kv = []" by (cases kv) (auto simp: txt_entry_def Let_def)
  then show ?thesis by (simp add: MakeTxt_def Let_def string_of_bytes_def)
next
  case False
  then show ?thesis using txt_entries_back [OF assms] by (simp only: MakeTxt_def Let_def if_False)
qed

section \<open>Records behind a built packet\<close>

text \<open>The target of a PTR or SRV record, whose RDATA begins at \<open>j\<close>.\<close>

lemma DecodePtr_back:
  assumes "good_name target" "r_type rec = kTypePTR" "drop (r_rdataOffset rec) buf = MakePtr target @ r"
  shows "DecodePtr buf (length buf) rec = Some target"
  using DecodeName_good [OF assms(1), of "r_rdataOffset rec" buf r] assms by (simp add: DecodePtr_def MakePtr_def)

lemma DecodeSrv_back:
  assumes "good_name target" "r_type rec = kTypeSRV" "r_rdata rec = MakeSrv prio weight port target"
    and "drop (r_rdataOffset rec) buf = MakeSrv prio weight port target @ r"
  shows "DecodeSrv buf (length buf) rec = Some (prio, weight, port, target)"
proof -
  let ?p = "MakeSrv prio weight port target"
  have p0: "drop 0 ?p = AppendBE16 prio @ AppendBE16 weight @ AppendBE16 port @ EncodeName target"
    by (simp add: MakeSrv_def)
  note p2 = drop_at [OF p0] note p4 = drop_at [OF p2]
  have nums: "ReadBE16 ?p 0 = prio" "ReadBE16 ?p 2 = weight" "ReadBE16 ?p 4 = port"
    using ReadBE16_at [OF p0] ReadBE16_at [OF p2] ReadBE16_at [OF p4]
    by (simp_all del: add_2_eq_Suc add_2_eq_Suc')
  have "drop (r_rdataOffset rec + 6) buf = EncodeName target @ r"
    using drop_at [of "r_rdataOffset rec" buf "AppendBE16 prio @ AppendBE16 weight @ AppendBE16 port"] assms(4)
    by (simp add: MakeSrv_def)
  then have "DecodeName buf (length buf) (r_rdataOffset rec + 6) = Some (length (EncodeName target), target)"
    by (rule DecodeName_good [OF assms(1)])
  moreover have "\<not> length ?p < 7"
    by (cases "EncodeName target") (auto simp: MakeSrv_def)
  ultimately show ?thesis
    unfolding DecodeSrv_def Let_def assms(2,3) nums by (simp add: rr_types)
qed

section \<open>No byte past the packet is read\<close>

lemma ReadBE_agree:
  assumes "take len d = take len d'"
  shows "i + 2 \<le> len \<Longrightarrow> ReadBE16 d i = ReadBE16 d' i" "i + 4 \<le> len \<Longrightarrow> ReadBE32 d i = ReadBE32 d' i"
  by (simp_all add: ReadBE16_def ReadBE32_def nth_agree [OF assms])

lemma DecodeNameInto_agree:
  assumes "take len d = take len d'"
  shows "DecodeNameInto d len start offset out depth = DecodeNameInto d' len start offset out depth"
  using assms
proof (induction d len start offset out depth rule: DecodeNameInto.induct)
  case (1 d len start offset out depth)
  have b: "d ! offset = d' ! offset" if "offset < len"
    using nth_agree [OF 1(3)] that by simp
  have c: "d ! Suc offset = d' ! Suc offset" if "Suc offset < len"
    using nth_agree [OF 1(3)] that by simp
  have t: "take k (drop (Suc offset) d) = take k (drop (Suc offset) d')" if "Suc offset + k \<le> len" for k
    by (rule drop_take_agree [OF 1(3)]) (use that in simp)
  note unf = DecodeNameInto.simps [of d len start offset out depth] DecodeNameInto.simps [of d' len start offset out depth]
  consider "len \<le> offset" | "offset < len" "d ! offset = 0" | "offset < len" "d ! offset \<noteq> 0" by linarith
  then show ?case
  proof cases
    case 3
    consider (ptr) "d ! offset AND 0xC0 = 0xC0" | (bad) "d ! offset AND 0xC0 \<noteq> 0xC0" "d ! offset AND 0xC0 \<noteq> 0"
      | (label) "d ! offset AND 0xC0 = 0" by force
    then show ?thesis
    proof cases
      case ptr
      show ?thesis
      proof (cases "len \<le> offset + 1")
        case False
        then show ?thesis
          using 1(1) [OF _ refl 3(2) ptr _ refl _ 1(3)] 3(1)
          unfolding unf Let_def b [OF 3(1), symmetric] c [of, unfolded Suc_eq_plus1, symmetric, OF False [unfolded not_le]]
          by (auto simp: 3(2) ptr)
      qed (simp add: unf Let_def 3 b [symmetric] ptr)
    next
      case bad
      then show ?thesis unfolding unf Let_def b [OF 3(1), symmetric] by simp
    next
      case label
      then have l: "d ! offset AND 0xC0 \<noteq> 0xC0" by auto
      show ?thesis
      proof (cases "len < offset + 1 + unat (d ! offset)")
        case True
        then show ?thesis unfolding unf Let_def b [OF 3(1), symmetric] using l label by simp
      next
        case False
        then have "take (unat (d ! offset)) (drop (offset + 1) d) = take (unat (d ! offset)) (drop (offset + 1) d')"
          using t by simp
        then show ?thesis
          using 1(2) [OF _ refl 3(2) l _ False 1(3)] label 3
          unfolding unf Let_def b [OF 3(1), symmetric] by simp
      qed
    qed
  qed (simp_all add: unf Let_def b [symmetric])
qed

lemma DecodeName_agree:
  "take len d = take len d' \<Longrightarrow> DecodeName d len offset = DecodeName d' len offset"
  by (simp add: DecodeName_def DecodeNameInto_agree [of len d d'])

lemma ParseQuestions_agree:
  "take len d = take len d' \<Longrightarrow> ParseQuestions d len offset n = ParseQuestions d' len offset n"
proof (induction n arbitrary: offset)
  case (Suc n)
  show ?case
    using Suc(1) [OF Suc(2)] ReadBE_agree [OF Suc(2)]
    by (auto simp: DecodeName_agree [OF Suc(2)] Let_def split: option.split)
qed simp

lemma ParseRecords_agree:
  "take len d = take len d' \<Longrightarrow> ParseRecords d len offset n = ParseRecords d' len offset n"
proof (induction n arbitrary: offset)
  case (Suc n)
  show ?case
    using Suc(1) [OF Suc(2)] ReadBE_agree [OF Suc(2)] drop_take_agree [OF Suc(2)]
    by (auto simp: DecodeName_agree [OF Suc(2)] Let_def not_less split: option.split)
qed simp

lemma Parse_agree:
  assumes "take len d = take len d'"
  shows "Parse d len = Parse d' len"
proof (cases "len < 12")
  case False
  have h: "ReadBE16 d i = ReadBE16 d' i" if "i \<le> 10" for i
    using ReadBE_agree(1) [OF assms] that False by simp
  show ?thesis
    by (auto simp: h Parse_def ParseQuestions_agree [OF assms] ParseRecords_agree [OF assms] split: option.split)
qed (simp add: Parse_def)

lemma Decode_agree:
  assumes "take len d = take len d'"
  shows "DecodePtr d len rec = DecodePtr d' len rec" "DecodeSrv d len rec = DecodeSrv d' len rec"
  by (simp_all add: DecodePtr_def DecodeSrv_def DecodeName_agree [OF assms])

end
