(* ===== verification/PeerTable.thy ===== *)
theory PeerTable
  imports MdnsWire
begin

text \<open>
  The table of peers behind the mDNS browser (\<open>bricola/mdns/PeerTable.cpp\<close>, \<open>Peer.h\<close>): records of
  received packets are folded into one entry per service instance, and appearances, changes and
  departures go to an observer. The callbacks a call makes are its result, in order; a table
  without an observer drops them. Times are monotonic milliseconds, as integers: a clock reading
  plus a 32-bit number of seconds stays far below the range of the code's \<open>int64_t\<close>.
\<close>

section \<open>Peers\<close>

record Peer =
  p_key :: string
  p_instance :: string
  p_hostname :: string
  p_addresses :: "string list"
  p_port :: u16
  p_protocolVersion :: u8
  p_bfsAttrs :: bool
  p_caps :: string
  p_fingerprintHex :: string
  p_expiresAtMs :: int

datatype PeerEvent = PeerFound Peer | PeerUpdated Peer | PeerLost Peer

record PeerEntry =
  e_peer :: Peer
  e_announced :: bool

record PeerTable =
  t_Service :: string
  t_Peers :: "(string, PeerEntry) std_map"
  t_HostAddrs :: "(string, string std_set) std_map"

definition PeerTable :: "string \<Rightarrow> PeerTable" where
  "PeerTable serviceName = \<lparr>t_Service = serviceName, t_Peers = [], t_HostAddrs = []\<rparr>"

section \<open>Helpers\<close>

definition to_lower :: "char \<Rightarrow> char" where
  "to_lower c = (if 65 \<le> (of_char c :: nat) \<and> (of_char c :: nat) \<le> 90 then char_of (of_char c + 32 :: nat) else c)"

definition Lower :: "string \<Rightarrow> string" where
  "Lower s = map to_lower s"

definition EndsWith :: "string \<Rightarrow> string \<Rightarrow> bool" where
  "EndsWith s sfx \<longleftrightarrow> length s \<ge> length sfx \<and> drop (length s - length sfx) s = sfx"

definition ParseUint :: "string \<Rightarrow> u64 option" where
  "ParseUint s = (if s = [] then None else case strtoul (c_str s) of
     None \<Rightarrow> None
   | Some (v, rest) \<Rightarrow> if rest \<noteq> [] then None else Some v)"

definition ContentEqual :: "Peer \<Rightarrow> Peer \<Rightarrow> bool" where
  "ContentEqual a b \<longleftrightarrow> p_instance a = p_instance b \<and> p_hostname a = p_hostname b \<and>
     p_addresses a = p_addresses b \<and> p_port a = p_port b \<and>
     p_protocolVersion a = p_protocolVersion b \<and> p_bfsAttrs a = p_bfsAttrs b \<and>
     p_caps a = p_caps b \<and> p_fingerprintHex a = p_fingerprintHex b"

definition ExpiryFrom :: "int \<Rightarrow> u32 \<Rightarrow> int" where
  "ExpiryFrom nowMs ttlSeconds = nowMs + uint ttlSeconds * 1000"

definition FriendlyLabel :: "string \<Rightarrow> string \<Rightarrow> string" where
  "FriendlyLabel service instanceFqdn = (let sfx = CHR ''.'' # service in
     if EndsWith instanceFqdn sfx then take (length instanceFqdn - length sfx) instanceFqdn else instanceFqdn)"

fun attach :: "string list \<Rightarrow> string list \<times> bool \<Rightarrow> string list \<times> bool" where
  "attach [] (addresses, changed) = (addresses, changed)"
| "attach (ip # ips) (addresses, changed) =
     attach ips (if ip \<in> set addresses then (addresses, changed) else (addresses @ [ip], True))"

definition AttachAddresses :: "(string, string std_set) std_map \<Rightarrow> Peer \<Rightarrow> Peer \<times> bool" where
  "AttachAddresses hosts peer = (if p_hostname peer = [] then (peer, False)
     else case map_of hosts (Lower (p_hostname peer)) of
       None \<Rightarrow> (peer, False)
     | Some ips \<Rightarrow> let (addresses, changed) = attach ips (p_addresses peer, False) in
         (peer\<lparr>p_addresses := addresses\<rparr>, changed))"

definition connectable :: "Peer \<Rightarrow> bool" where
  "connectable peer \<longleftrightarrow> p_port peer \<noteq> 0 \<and> p_addresses peer \<noteq> []"

definition Publish :: "PeerEntry \<Rightarrow> PeerEntry \<times> PeerEvent list" where
  "Publish entry = (if \<not> e_announced entry then
       if connectable (e_peer entry) then (entry\<lparr>e_announced := True\<rparr>, [PeerFound (e_peer entry)])
       else (entry, [])
     else (entry, [PeerUpdated (e_peer entry)]))"

section \<open>Folding a packet in\<close>

text \<open>The first pass collects addresses, whatever the order of the records.\<close>

definition harvest :: "Record \<Rightarrow> (string, string std_set) std_map \<Rightarrow> (string, string std_set) std_map" where
  "harvest r hosts = (if r_type r \<noteq> kTypeA then hosts
     else case DecodeA r of None \<Rightarrow> hosts
     | Some ip \<Rightarrow> let host = Lower (r_name r) in
         map_put host (set_put ip (case map_of hosts host of None \<Rightarrow> [] | Some ips \<Rightarrow> ips)) hosts)"

text \<open>The second pass keeps, beside the entries, what it touched, removed and found before.\<close>

record Pass =
  s_peers :: "(string, PeerEntry) std_map"
  s_touched :: "string std_set"
  s_removed :: "string std_set"
  s_before :: "(string, Peer) std_map"

definition new_peer :: "string \<Rightarrow> string \<Rightarrow> Peer" where
  "new_peer service key = \<lparr>p_key = key, p_instance = FriendlyLabel service key, p_hostname = [],
     p_addresses = [], p_port = 0, p_protocolVersion = 0, p_bfsAttrs = False, p_caps = [],
     p_fingerprintHex = [], p_expiresAtMs = 0\<rparr>"

text \<open>\<open>touch\<close> returns a reference to the entry; the change made through it is the argument \<open>f\<close>.\<close>

definition touch :: "string \<Rightarrow> string \<Rightarrow> (Peer \<Rightarrow> Peer) \<Rightarrow> Pass \<Rightarrow> Pass" where
  "touch service key f s =
    (let e = (case map_of (s_peers s) key of
         None \<Rightarrow> \<lparr>e_peer = new_peer service key, e_announced = False\<rparr> | Some e \<Rightarrow> e);
       s = (if key \<in> set (s_touched s) then s
         else s\<lparr>s_touched := set_put key (s_touched s), s_before := map_put key (e_peer e) (s_before s)\<rparr>)
     in s\<lparr>s_peers := map_put key (e\<lparr>e_peer := f (e_peer e)\<rparr>) (s_peers s)\<rparr>)"

definition remove :: "string \<Rightarrow> Pass \<Rightarrow> Pass" where
  "remove key s = s\<lparr>s_removed := set_put key (s_removed s)\<rparr>"

definition refresh :: "int \<Rightarrow> Record \<Rightarrow> Peer \<Rightarrow> Peer" where
  "refresh nowMs r p = p\<lparr>p_expiresAtMs := max (p_expiresAtMs p) (ExpiryFrom nowMs (r_ttl r))\<rparr>"

definition txt_attribute :: "string \<times> string \<Rightarrow> Peer \<Rightarrow> Peer" where
  "txt_attribute kv p = (let k = fst kv; v = snd kv in
     if k = ''v'' then
       (case ParseUint v of Some n \<Rightarrow> if n \<le> 255 then p\<lparr>p_protocolVersion := ucast n\<rparr> else p | None \<Rightarrow> p)
     else if k = ''node'' then (if v \<noteq> [] then p\<lparr>p_instance := v\<rparr> else p)
     else if k = ''bfs'' then p\<lparr>p_bfsAttrs := (v = ''1'')\<rparr>
     else if k = ''caps'' then p\<lparr>p_caps := v\<rparr>
     else if k = ''fp'' then p\<lparr>p_fingerprintHex := v\<rparr>
     else if k = ''port'' then
       (case ParseUint v of
         Some n \<Rightarrow> if p_port p = 0 \<and> n \<le> 0xFFFF then p\<lparr>p_port := ucast n\<rparr> else p | None \<Rightarrow> p)
     else p)"

definition ingest_record :: "string \<Rightarrow> bytes \<Rightarrow> nat \<Rightarrow> int \<Rightarrow> Record \<Rightarrow> Pass \<Rightarrow> Pass" where
  "ingest_record service buf len nowMs r s =
    (let instanceSuffix = CHR ''.'' # service in
     if r_type r = kTypePTR then
       if r_name r \<noteq> service then s
       else case DecodePtr buf len r of None \<Rightarrow> s
       | Some target \<Rightarrow> if r_ttl r = 0 then remove target s else touch service target (refresh nowMs r) s
     else if r_type r = kTypeSRV then
       if \<not> EndsWith (r_name r) instanceSuffix then s
       else if r_ttl r = 0 then remove (r_name r) s
       else case DecodeSrv buf len r of None \<Rightarrow> s
       | Some (prio, weight, port, host) \<Rightarrow>
           touch service (r_name r) (\<lambda>p. refresh nowMs r (p\<lparr>p_port := port, p_hostname := host\<rparr>)) s
     else if r_type r = kTypeTXT then
       if \<not> EndsWith (r_name r) instanceSuffix then s
       else if r_ttl r = 0 then remove (r_name r) s
       else case DecodeTxt r of None \<Rightarrow> s
       | Some kv \<Rightarrow> touch service (r_name r) (\<lambda>p. refresh nowMs r (fold txt_attribute kv p)) s
     else s)"

text \<open>Goodbyes win over touches in the same packet.\<close>

definition lost_events :: "PeerEntry \<Rightarrow> PeerEvent list" where
  "lost_events e = (if e_announced e then [PeerLost (e_peer e)] else [])"

fun remove_all :: "string list \<Rightarrow> (string, PeerEntry) std_map \<Rightarrow> string list \<Rightarrow>
    (string, PeerEntry) std_map \<times> string list \<times> PeerEvent list" where
  "remove_all [] peers touched = (peers, touched, [])"
| "remove_all (key # keys) peers touched = (case map_of peers key of
     None \<Rightarrow> remove_all keys peers touched
   | Some e \<Rightarrow> let (peers, touched, events) = remove_all keys (AList.delete key peers) (removeAll key touched) in
       (peers, touched, lost_events e @ events))"

definition settle :: "(string, string std_set) std_map \<Rightarrow> string \<Rightarrow> Peer \<Rightarrow> Peer" where
  "settle hosts srcIp peer = (let peer = fst (AttachAddresses hosts peer) in
     if p_addresses peer = [] \<and> p_port peer \<noteq> 0 \<and> srcIp \<noteq> [] then peer\<lparr>p_addresses := [srcIp]\<rparr> else peer)"

definition publish_one :: "(string, string std_set) std_map \<Rightarrow> string \<Rightarrow> Peer option \<Rightarrow> PeerEntry \<Rightarrow>
    PeerEntry \<times> PeerEvent list" where
  "publish_one hosts srcIp before e = (let e = e\<lparr>e_peer := settle hosts srcIp (e_peer e)\<rparr>;
     changed = (case before of None \<Rightarrow> True | Some b \<Rightarrow> \<not> ContentEqual b (e_peer e)) in
     if changed \<or> \<not> e_announced e then Publish e else (e, []))"

fun publish_all :: "(string, string std_set) std_map \<Rightarrow> string \<Rightarrow> (string, Peer) std_map \<Rightarrow> string list \<Rightarrow>
    (string, PeerEntry) std_map \<Rightarrow> (string, PeerEntry) std_map \<times> PeerEvent list" where
  "publish_all hosts srcIp before [] peers = (peers, [])"
| "publish_all hosts srcIp before (key # keys) peers = (case map_of peers key of
     None \<Rightarrow> publish_all hosts srcIp before keys peers
   | Some e \<Rightarrow> let (e, now) = publish_one hosts srcIp (map_of before key) e;
       (peers, later) = publish_all hosts srcIp before keys (map_put key e peers) in
       (peers, now @ later))"

definition Ingest :: "PeerTable \<Rightarrow> bytes \<Rightarrow> nat \<Rightarrow> string \<Rightarrow> int \<Rightarrow> PeerTable \<times> PeerEvent list" where
  "Ingest t buf len srcIp nowMs = (case Parse buf len of
     None \<Rightarrow> (t, [])
   | Some msg \<Rightarrow> let records = m_answers msg @ m_additionals msg;
       hosts = fold harvest records (t_HostAddrs t);
       s = fold (ingest_record (t_Service t) buf len nowMs) records
         \<lparr>s_peers = t_Peers t, s_touched = [], s_removed = [], s_before = []\<rparr>;
       (peers, touched, lost) = remove_all (s_removed s) (s_peers s) (s_touched s);
       (peers, told) = publish_all hosts srcIp (s_before s) touched peers in
       (t\<lparr>t_Peers := peers, t_HostAddrs := hosts\<rparr>, lost @ told))"

section \<open>Time and snapshots\<close>

fun expire :: "int \<Rightarrow> (string, PeerEntry) std_map \<Rightarrow> (string, PeerEntry) std_map \<times> PeerEvent list" where
  "expire nowMs [] = ([], [])"
| "expire nowMs ((key, e) # m) = (let (peers, events) = expire nowMs m in
     if p_expiresAtMs (e_peer e) \<le> nowMs then (peers, lost_events e @ events) else ((key, e) # peers, events))"

definition Expire :: "PeerTable \<Rightarrow> int \<Rightarrow> PeerTable \<times> PeerEvent list" where
  "Expire t nowMs = (let (peers, events) = expire nowMs (t_Peers t) in (t\<lparr>t_Peers := peers\<rparr>, events))"

definition Peers :: "PeerTable \<Rightarrow> Peer list" where
  "Peers t = map (e_peer \<circ> snd) (filter (e_announced \<circ> snd) (t_Peers t))"

definition Size :: "PeerTable \<Rightarrow> nat" where
  "Size t = length (t_Peers t)"

end
