(* ===== verification/Responder.thy ===== *)
theory Responder
  imports PeerTable
begin

text \<open>
  The advertising half and the facade of discovery: \<open>bricola/mdns/Responder.cpp\<close>, \<open>Browser.cpp\<close> and
  \<open>Bricola.cpp\<close>. The worker thread's loop is a function of what the socket delivers and the clock
  shows; the packets it sends and the calls the user's observer gets are its results.
\<close>

section \<open>What a node says about itself\<close>

definition kCampielloService :: string where "kCampielloService = ''_campiello._tcp.local''"

definition kPtrTtl :: u32 where "kPtrTtl = 4500"
definition kTxtTtl :: u32 where "kTxtTtl = 4500"
definition kSrvTtl :: u32 where "kSrvTtl = 120"
definition kHostTtl :: u32 where "kHostTtl = 120"
definition kTypeAny :: u16 where "kTypeAny = 255"

record ServiceInfo =
  i_instance :: string
  i_hostname :: string
  i_address :: string
  i_port :: u16
  i_protocolVersion :: u8
  i_bfsAttrs :: bool
  i_caps :: string
  i_fingerprintHex :: string

record Responder =
  rs_Info :: ServiceInfo
  rs_Service :: string

definition Responder_SetPort :: "u16 \<Rightarrow> Responder \<Rightarrow> Responder" where
  "Responder_SetPort port r = r\<lparr>rs_Info := (rs_Info r)\<lparr>i_port := port\<rparr>\<rparr>"

definition Responder_SetAddress :: "string \<Rightarrow> Responder \<Rightarrow> Responder" where
  "Responder_SetAddress ipv4 r = r\<lparr>rs_Info := (rs_Info r)\<lparr>i_address := ipv4\<rparr>\<rparr>"

definition InstanceFqdn :: "Responder \<Rightarrow> string" where
  "InstanceFqdn r = i_instance (rs_Info r) @ CHR ''.'' # rs_Service r"

definition announced_attributes :: "ServiceInfo \<Rightarrow> (string \<times> string) list" where
  "announced_attributes info =
     [(''v'', decimal (unat (i_protocolVersion info))), (''node'', i_instance info),
      (''port'', decimal (unat (i_port info))), (''bfs'', if i_bfsAttrs info then ''1'' else ''0'')] @
     (if i_caps info \<noteq> [] then [(''caps'', i_caps info)] else []) @
     (if i_fingerprintHex info \<noteq> [] then [(''fp'', i_fingerprintHex info)] else [])"

definition announced_ptr :: "Responder \<Rightarrow> OutRecord" where
  "announced_ptr r = \<lparr>o_name = rs_Service r, o_type = kTypePTR, o_ttl = kPtrTtl, o_cacheFlush = False,
     o_rdata = MakePtr (InstanceFqdn r)\<rparr>"

definition announced_srv :: "Responder \<Rightarrow> OutRecord" where
  "announced_srv r = \<lparr>o_name = InstanceFqdn r, o_type = kTypeSRV, o_ttl = kSrvTtl, o_cacheFlush = True,
     o_rdata = MakeSrv 0 0 (i_port (rs_Info r)) (i_hostname (rs_Info r))\<rparr>"

definition announced_txt :: "Responder \<Rightarrow> OutRecord" where
  "announced_txt r = \<lparr>o_name = InstanceFqdn r, o_type = kTypeTXT, o_ttl = kTxtTtl, o_cacheFlush = True,
     o_rdata = MakeTxt (announced_attributes (rs_Info r))\<rparr>"

definition announced_a :: "Responder \<Rightarrow> OutRecord list" where
  "announced_a r = (let info = rs_Info r in
     if i_address info = [] then []
     else let a = \<lparr>o_name = i_hostname info, o_type = kTypeA, o_ttl = kHostTtl, o_cacheFlush = True,
         o_rdata = MakeA (i_address info)\<rparr> in
       if o_rdata a = [] then [] else [a])"

definition AnnouncePacket :: "Responder \<Rightarrow> bytes" where
  "AnnouncePacket r = BuildResponse [announced_ptr r] ([announced_srv r, announced_txt r] @ announced_a r)"

definition goodbye_ptr :: "Responder \<Rightarrow> OutRecord" where
  "goodbye_ptr r = \<lparr>o_name = rs_Service r, o_type = kTypePTR, o_ttl = 0, o_cacheFlush = False,
     o_rdata = MakePtr (InstanceFqdn r)\<rparr>"

definition GoodbyePacket :: "Responder \<Rightarrow> bytes" where
  "GoodbyePacket r = BuildResponse [goodbye_ptr r] []"

definition asks_for :: "string \<Rightarrow> Question \<Rightarrow> bool" where
  "asks_for service q \<longleftrightarrow> q_name q = service \<and> (q_qtype q = kTypePTR \<or> q_qtype q = kTypeAny) \<and>
     q_qclass q AND 0x7FFF = kClassIN"

definition ResponseTo :: "Responder \<Rightarrow> bytes \<Rightarrow> nat \<Rightarrow> bytes" where
  "ResponseTo r buf len = (if i_port (rs_Info r) = 0 then []
     else case Parse buf len of None \<Rightarrow> []
     | Some msg \<Rightarrow> if IsResponse (m_flags msg) then []
         else if \<exists>q \<in> set (m_questions msg). asks_for (rs_Service r) q then AnnouncePacket r else [])"

section \<open>The browser\<close>

record Browser =
  w_Service :: string
  w_Table :: PeerTable

definition Browser :: "string \<Rightarrow> Browser" where
  "Browser serviceName = \<lparr>w_Service = serviceName, w_Table = PeerTable serviceName\<rparr>"

definition QueryPacket :: "Browser \<Rightarrow> bytes" where
  "QueryPacket w = BuildQuery (w_Service w)"

definition OnPacket :: "Browser \<Rightarrow> bytes \<Rightarrow> nat \<Rightarrow> string \<Rightarrow> int \<Rightarrow> Browser \<times> PeerEvent list" where
  "OnPacket w buf len srcIp nowMs = (let (t, events) = Ingest (w_Table w) buf len srcIp nowMs in
     (w\<lparr>w_Table := t\<rparr>, events))"

definition Tick :: "Browser \<Rightarrow> int \<Rightarrow> Browser \<times> PeerEvent list" where
  "Tick w nowMs = (let (t, events) = Expire (w_Table w) nowMs in (w\<lparr>w_Table := t\<rparr>, events))"

section \<open>The facade\<close>

definition kAdvertiseIntervalMs :: int where "kAdvertiseIntervalMs = 30000"

text \<open>The observer the browser reports to: the snapshot other threads read.\<close>

type_synonym snapshot = "(string, Peer) std_map"

fun Bricola_observe :: "PeerEvent \<Rightarrow> snapshot \<Rightarrow> snapshot" where
  "Bricola_observe (PeerFound peer) snap = map_put (p_key peer) peer snap"
| "Bricola_observe (PeerUpdated peer) snap = map_put (p_key peer) peer snap"
| "Bricola_observe (PeerLost peer) snap = AList.delete (p_key peer) snap"

record Bricola =
  b_Responder :: "Responder option"
  b_Browser :: Browser
  b_Snapshot :: snapshot
  b_lastAdvertise :: int

definition Advertise :: "Bricola \<Rightarrow> bytes list" where
  "Advertise b = (case b_Responder b of None \<Rightarrow> [] | Some r \<Rightarrow> [AnnouncePacket r]) @ [QueryPacket (b_Browser b)]"

text \<open>
  \<open>StartInternal\<close> and the first lines of \<open>Run\<close>, on a socket that opened: the state the loop begins
  with and the packets sent before it.
\<close>

definition Bricola_Start :: "ServiceInfo option \<Rightarrow> int \<Rightarrow> Bricola \<times> bytes list" where
  "Bricola_Start self nowMs =
    (let b = \<lparr>b_Responder = map_option (\<lambda>info. \<lparr>rs_Info = info, rs_Service = kCampielloService\<rparr>) self,
       b_Browser = Browser kCampielloService, b_Snapshot = [], b_lastAdvertise = nowMs\<rparr>
     in (b, Advertise b))"

text \<open>What one turn of the loop gets: a datagram with its sender and the time it is folded in at, if
  one arrived in time, and the time of the tick.\<close>

record Turn =
  u_packet :: "(bytes \<times> string \<times> int) option"
  u_now :: int

definition Bricola_turn :: "Bricola \<Rightarrow> Turn \<Rightarrow> Bricola \<times> bytes list \<times> PeerEvent list" where
  "Bricola_turn b u =
    (let (answers, (w, heard)) = (case u_packet u of
         Some (buf, srcIp, nowMs) \<Rightarrow> if length buf > 0
           then ((case b_Responder b of None \<Rightarrow> []
              | Some r \<Rightarrow> (let answer = ResponseTo r buf (length buf) in if answer \<noteq> [] then [answer] else [])),
             OnPacket (b_Browser b) buf (length buf) srcIp nowMs)
           else ([], (b_Browser b, []))
       | None \<Rightarrow> ([], (b_Browser b, [])));
       (w, aged) = Tick w (u_now u);
       b = b\<lparr>b_Browser := w, b_Snapshot := fold Bricola_observe (heard @ aged) (b_Snapshot b)\<rparr>
     in if u_now u - b_lastAdvertise b \<ge> kAdvertiseIntervalMs
        then (b\<lparr>b_lastAdvertise := u_now u\<rparr>, answers @ Advertise b, heard @ aged)
        else (b, answers, heard @ aged))"

fun Bricola_loop :: "Bricola \<Rightarrow> Turn list \<Rightarrow> Bricola \<times> bytes list \<times> PeerEvent list" where
  "Bricola_loop b [] = (b, [], [])"
| "Bricola_loop b (u # us) = (let (b, sent, events) = Bricola_turn b u;
     (b, sent', events') = Bricola_loop b us in (b, sent @ sent', events @ events'))"

text \<open>\<open>Start\<close>, the turns until \<open>Stop\<close>, and the goodbye behind the loop.\<close>

definition Bricola_Run :: "ServiceInfo option \<Rightarrow> int \<Rightarrow> Turn list \<Rightarrow> Bricola \<times> bytes list \<times> PeerEvent list" where
  "Bricola_Run self nowMs us = (let (b, first) = Bricola_Start self nowMs; (b, sent, events) = Bricola_loop b us in
     (b, first @ sent @ (case b_Responder b of None \<Rightarrow> [] | Some r \<Rightarrow> [GoodbyePacket r]), events))"

definition Bricola_Peers :: "Bricola \<Rightarrow> Peer list" where
  "Bricola_Peers b = map snd (b_Snapshot b)"

end
