(* ===== verification/PeerWatch.thy ===== *)
theory PeerWatch
  imports Responder
begin

text \<open>
  What the observer of the peer table is told. The locale \<open>peer_source\<close> is the contract between a
  source of peer events and whoever keeps a snapshot from them; the browser's table satisfies it,
  and the facade's snapshot rests on it.
\<close>

section \<open>The contract\<close>

definition same_peer :: "Peer \<Rightarrow> Peer \<Rightarrow> bool" where
  "same_peer a b \<longleftrightarrow> p_key a = p_key b \<and> ContentEqual a b"

text \<open>A snapshot mirrors what is known if it has the same keys and the same peers up to their expiry.\<close>

definition mirrors :: "snapshot \<Rightarrow> (string \<Rightarrow> Peer option) \<Rightarrow> bool" where
  "mirrors snap known \<longleftrightarrow> (\<forall>k. rel_option same_peer (map_of snap k) (known k))"

text \<open>The order of callbacks: found before anything else, found again only after lost, and found only
  with a port and an address to connect to.\<close>

fun fits :: "PeerEvent \<Rightarrow> snapshot \<Rightarrow> bool" where
  "fits (PeerFound p) snap \<longleftrightarrow> map_of snap (p_key p) = None \<and> connectable p"
| "fits (PeerUpdated p) snap \<longleftrightarrow> map_of snap (p_key p) \<noteq> None"
| "fits (PeerLost p) snap \<longleftrightarrow> map_of snap (p_key p) \<noteq> None"

fun in_order :: "snapshot \<Rightarrow> PeerEvent list \<Rightarrow> bool" where
  "in_order snap [] \<longleftrightarrow> True"
| "in_order snap (ev # evs) \<longleftrightarrow> fits ev snap \<and> in_order (Bricola_observe ev snap) evs"

lemma in_order_append [simp]:
  "in_order snap (xs @ ys) \<longleftrightarrow> in_order snap xs \<and> in_order (fold Bricola_observe xs snap) ys"
  by (induction xs arbitrary: snap) auto

locale peer_source =
  fixes step :: "'s \<Rightarrow> 'i \<Rightarrow> 's \<times> PeerEvent list"
    and known :: "'s \<Rightarrow> string \<Rightarrow> Peer option"
    and sound :: "'s \<Rightarrow> bool"
  assumes step_tells: "sound s \<Longrightarrow> mirrors snap (known s) \<Longrightarrow> sound (fst (step s i)) \<and>
      in_order snap (snd (step s i)) \<and> mirrors (fold Bricola_observe (snd (step s i)) snap) (known (fst (step s i)))"
begin

fun steps :: "'s \<Rightarrow> 'i list \<Rightarrow> 's \<times> PeerEvent list" where
  "steps s [] = (s, [])"
| "steps s (i # is) = (let (s, evs) = step s i; (s', evs') = steps s is in (s', evs @ evs'))"

lemma steps_tell:
  assumes "sound s" "mirrors snap (known s)" "steps s is = (s', evs)"
  shows "sound s' \<and> in_order snap evs \<and> mirrors (fold Bricola_observe evs snap) (known s')"
  using assms
proof (induction "is" arbitrary: s s' snap evs)
  case (Cons i "is")
  obtain s1 e1 where 1: "step s i = (s1, e1)" by fastforce
  obtain s2 e2 where 2: "steps s1 is = (s2, e2)" by fastforce
  show ?case
    using Cons.IH [OF _ _ 2, of "fold Bricola_observe e1 snap"]
      step_tells [OF Cons(2,3), of i] Cons(4) by (auto simp: 1 2)
qed simp

end

section \<open>The entries\<close>

definition announced :: "(string, PeerEntry) std_map \<Rightarrow> string \<Rightarrow> Peer option" where
  "announced m k = (case map_of m k of None \<Rightarrow> None | Some e \<Rightarrow> if e_announced e then Some (e_peer e) else None)"

definition keyed :: "(string, PeerEntry) std_map \<Rightarrow> bool" where
  "keyed m \<longleftrightarrow> map_ok m \<and> (\<forall>k e. map_of m k = Some e \<longrightarrow> p_key (e_peer e) = k)"

lemma same_peer_refl [simp]: "same_peer p p"
  by (simp add: same_peer_def ContentEqual_def)

lemma same_peer_trans: "same_peer a b \<Longrightarrow> same_peer b c \<Longrightarrow> same_peer a c"
  by (simp add: same_peer_def ContentEqual_def)

lemma same_peer_key: "same_peer a b \<Longrightarrow> p_key a = p_key b"
  by (simp add: same_peer_def)

lemma keyed_put: "keyed m \<Longrightarrow> p_key (e_peer e) = k \<Longrightarrow> keyed (map_put k e m)"
  by (auto simp: keyed_def)

lemma keyed_delete: "keyed m \<Longrightarrow> keyed (AList.delete k m)"
  by (auto simp: keyed_def AList.delete_conv split: if_splits)

lemma keyed_Cons:
  assumes "keyed ((k, e) # m)"
  shows "keyed m" "p_key (e_peer e) = k" "k \<notin> fst ` set m"
proof -
  have ok: "map_ok ((k, e) # m)" and key: "map_of ((k, e) # m) k' = Some e' \<Longrightarrow> p_key (e_peer e') = k'" for k' e'
    using assms by (simp_all add: keyed_def)
  show "p_key (e_peer e) = k" using key [of k e] by simp
  show k: "k \<notin> fst ` set m" using ok by (auto simp: map_ok_Cons)
  have "p_key (e_peer e') = k'" if "map_of m k' = Some e'" for k' e'
  proof -
    have "k' \<noteq> k" using that k by (metis map_of_eq_None_iff option.distinct(1))
    then show ?thesis using key [of k' e'] that by simp
  qed
  then show "keyed m" using ok by (simp add: keyed_def map_ok_Cons)
qed

section \<open>The second pass\<close>

definition pass_ok :: "(string, PeerEntry) std_map \<Rightarrow> Pass \<Rightarrow> bool" where
  "pass_ok m s \<longleftrightarrow> keyed (s_peers s) \<and> distinct (s_touched s) \<and>
     (\<forall>k \<in> set (s_touched s). \<exists>e b. map_of (s_peers s) k = Some e \<and> map_of (s_before s) k = Some b \<and>
         (case map_of m k of None \<Rightarrow> \<not> e_announced e
          | Some e0 \<Rightarrow> e_announced e = e_announced e0 \<and> b = e_peer e0)) \<and>
     (\<forall>k. k \<notin> set (s_touched s) \<longrightarrow> map_of (s_peers s) k = map_of m k)"

lemma pass_okD:
  assumes "pass_ok m s" "k \<in> set (s_touched s)"
  shows "\<exists>e b. map_of (s_peers s) k = Some e \<and> map_of (s_before s) k = Some b \<and>
    (case map_of m k of None \<Rightarrow> \<not> e_announced e | Some e0 \<Rightarrow> e_announced e = e_announced e0 \<and> b = e_peer e0)"
  using assms by (simp add: pass_ok_def)

lemma pass_ok_touch:
  assumes "pass_ok m s" and f: "\<And>p. p_key (f p) = p_key p"
  shows "pass_ok m (touch service key f s)"
proof -
  have k: "keyed (s_peers s)" and d: "distinct (s_touched s)" using assms(1) by (simp_all add: pass_ok_def)
  have new: "keyed (s_peers (touch service key f s))"
    using k f by (auto simp: touch_def Let_def new_peer_def keyed_def split: option.split)
  have dist: "distinct (s_touched (touch service key f s))"
    using d by (auto simp: touch_def Let_def set_put_def distinct_insort_insert)
  show ?thesis
    unfolding pass_ok_def
  proof (intro conjI ballI allI impI new dist)
    fix k assume t: "k \<in> set (s_touched (touch service key f s))"
    show "\<exists>e b. map_of (s_peers (touch service key f s)) k = Some e \<and>
       map_of (s_before (touch service key f s)) k = Some b \<and>
       (case map_of m k of None \<Rightarrow> \<not> e_announced e | Some e0 \<Rightarrow> e_announced e = e_announced e0 \<and> b = e_peer e0)"
    proof (cases "k \<in> set (s_touched s)")
      case True
      with pass_okD [OF assms(1) True] show ?thesis by (auto simp: touch_def Let_def split: option.splits)
    next
      case False
      then have "k = key" using t by (auto simp: touch_def Let_def split: if_splits)
      moreover have "map_of (s_peers s) k = map_of m k" using assms(1) False by (simp add: pass_ok_def)
      ultimately show ?thesis using False by (auto simp: touch_def Let_def split: option.split)
    qed
  next
    fix k assume "k \<notin> set (s_touched (touch service key f s))"
    then show "map_of (s_peers (touch service key f s)) k = map_of m k"
      using assms(1) by (auto simp: touch_def Let_def pass_ok_def split: if_splits)
  qed
qed

lemma pass_ok_remove: "pass_ok m s \<Longrightarrow> pass_ok m (remove key s)"
  by (simp add: pass_ok_def remove_def)

lemma p_key_txt: "p_key (fold txt_attribute kv p) = p_key p"
  by (induction kv arbitrary: p) (auto simp: txt_attribute_def Let_def split: option.splits)

lemma pass_ok_record: "pass_ok m s \<Longrightarrow> pass_ok m (ingest_record service buf len nowMs r s)"
  by (auto simp: ingest_record_def Let_def refresh_def p_key_txt intro!: pass_ok_touch pass_ok_remove split: option.split)

lemma pass_ok_records: "pass_ok m s \<Longrightarrow> pass_ok m (fold (ingest_record service buf len nowMs) rs s)"
  by (induction rs arbitrary: s) (auto intro: pass_ok_record)

section \<open>What is still to be told\<close>

text \<open>Between the passes the observer is behind on the touched keys only.\<close>

definition behind :: "Peer option \<Rightarrow> Peer option \<Rightarrow> string \<Rightarrow> PeerEntry \<Rightarrow> bool" where
  "behind told before k e \<longleftrightarrow> (case told of None \<Rightarrow> \<not> e_announced e
     | Some p \<Rightarrow> e_announced e \<and> p_key p = k \<and> (\<exists>b. before = Some b \<and> ContentEqual p b))"

definition waiting :: "string set \<Rightarrow> (string, Peer) std_map \<Rightarrow> snapshot \<Rightarrow> (string, PeerEntry) std_map \<Rightarrow> bool" where
  "waiting T before snap m \<longleftrightarrow>
     (\<forall>k \<in> T. \<exists>e. map_of m k = Some e \<and> behind (map_of snap k) (map_of before k) k e) \<and>
     (\<forall>k. k \<notin> T \<longrightarrow> rel_option same_peer (map_of snap k) (announced m k))"

lemma waiting_start:
  assumes "pass_ok m s" "mirrors snap (announced m)" "keyed m"
  shows "waiting (set (s_touched s)) (s_before s) snap (s_peers s)"
  unfolding waiting_def
proof (intro conjI ballI allI impI)
  fix k assume t: "k \<in> set (s_touched s)"
  have r: "rel_option same_peer (map_of snap k) (announced m k)"
    using assms(2) by (simp add: mirrors_def)
  from pass_okD [OF assms(1) t] obtain e b
    where e: "map_of (s_peers s) k = Some e" "map_of (s_before s) k = Some b"
    and old: "case map_of m k of None \<Rightarrow> \<not> e_announced e | Some e0 \<Rightarrow> e_announced e = e_announced e0 \<and> b = e_peer e0"
    by auto
  show "\<exists>e. map_of (s_peers s) k = Some e \<and> behind (map_of snap k) (map_of (s_before s) k) k e"
  proof (cases "announced m k")
    case None
    then have "map_of snap k = None" "\<not> e_announced e"
      using r old by (auto simp: announced_def split: option.splits if_splits)
    then show ?thesis using e by (simp add: behind_def)
  next
    case (Some q)
    then obtain p where p: "map_of snap k = Some p" "same_peer p q" using r by (auto simp: option_rel_Some2)
    have "e_announced e" "b = q" "p_key q = k"
      using Some old assms(3) by (auto simp: announced_def keyed_def split: option.splits if_splits)
    then show ?thesis using e p by (simp add: behind_def same_peer_def)
  qed
next
  fix k assume "k \<notin> set (s_touched s)"
  then have "map_of (s_peers s) k = map_of m k" using assms(1) by (simp add: pass_ok_def)
  then show "rel_option same_peer (map_of snap k) (announced (s_peers s) k)"
    using assms(2) by (simp add: announced_def mirrors_def)
qed

lemma remove_all_tells:
  assumes "keyed m" "waiting (set T) before snap m" "remove_all ks m T = (m', T', evs)"
  shows "keyed m' \<and> waiting (set T') before (fold Bricola_observe evs snap) m' \<and> in_order snap evs \<and>
    (distinct T \<longrightarrow> distinct T')"
  using assms
proof (induction ks arbitrary: m m' T T' snap evs)
  case (Cons k ks)
  show ?case
  proof (cases "map_of m k")
    case None
    then show ?thesis using Cons by simp
  next
    case (Some e)
    obtain m1 T1 e1 where rest: "remove_all ks (AList.delete k m) (removeAll k T) = (m1, T1, e1)"
      by (cases "remove_all ks (AList.delete k m) (removeAll k T)") auto
    have key: "p_key (e_peer e) = k" using Cons(2) Some by (simp add: keyed_def)
    have snap: "map_of snap k \<noteq> None \<longleftrightarrow> e_announced e"
    proof (cases "k \<in> set T")
      case True
      then show ?thesis using Cons(3) Some by (fastforce simp: waiting_def behind_def split: option.splits)
    next
      case False
      then have "rel_option same_peer (map_of snap k) (announced m k)" using Cons(3) by (simp add: waiting_def)
      then show ?thesis by (auto simp: announced_def Some option_rel_Some2 split: if_splits)
    qed
    have told: "map_of (fold Bricola_observe (lost_events e) snap) = (map_of snap)(k := None)"
      using snap key by (auto simp: lost_events_def AList.delete_conv fun_upd_idem)
    have "waiting (set (removeAll k T)) before (fold Bricola_observe (lost_events e) snap) (AList.delete k m)"
      using Cons(3) unfolding waiting_def announced_def told AList.delete_conv by auto
    from Cons.IH [OF keyed_delete [OF Cons(2)] this rest] show ?thesis
      using Cons(4) snap key by (auto simp: Some rest lost_events_def distinct_removeAll)
  qed
qed simp

text \<open>One entry published: the observer is even with it.\<close>

lemma p_key_settle [simp]: "p_key (settle hosts srcIp p) = p_key p"
  by (auto simp: settle_def AttachAddresses_def Let_def split: option.split prod.split)

lemma publish_one_tells:
  assumes "behind (map_of snap k) before k e" "p_key (e_peer e) = k" "publish_one hosts srcIp before e = (e2, evs)"
  shows "in_order snap evs \<and> p_key (e_peer e2) = k \<and>
     rel_option same_peer (map_of (fold Bricola_observe evs snap) k) (if e_announced e2 then Some (e_peer e2) else None) \<and>
     (\<forall>k'. k' \<noteq> k \<longrightarrow> map_of (fold Bricola_observe evs snap) k' = map_of snap k')"
proof -
  define q where "q = settle hosts srcIp (e_peer e)"
  have q: "p_key q = k" using assms(2) by (simp add: q_def)
  have one: "publish_one hosts srcIp before e = (if (case before of None \<Rightarrow> True | Some b \<Rightarrow> \<not> ContentEqual b q) \<or> \<not> e_announced e
      then Publish (e\<lparr>e_peer := q\<rparr>) else (e\<lparr>e_peer := q\<rparr>, []))"
    by (cases before) (simp_all add: publish_one_def q_def Let_def)
  show ?thesis
  proof (cases "map_of snap k")
    case None
    then show ?thesis
      using assms(1,3) q unfolding one by (auto simp: behind_def Publish_def split: if_splits)
  next
    case (Some p)
    then obtain b where "e_announced e" "p_key p = k" "before = Some b" "ContentEqual p b"
      using assms(1) by (auto simp: behind_def)
    then show ?thesis
      using assms(3) q Some same_peer_trans [of p "b\<lparr>p_key := k\<rparr>" q] unfolding one
      by (auto simp: Publish_def same_peer_def ContentEqual_def split: if_splits)
  qed
qed

lemma publish_all_tells:
  assumes "keyed m" "distinct ks" "waiting (set ks) before snap m" "publish_all hosts srcIp before ks m = (m', evs)"
  shows "keyed m' \<and> in_order snap evs \<and> mirrors (fold Bricola_observe evs snap) (announced m')"
  using assms
proof (induction ks arbitrary: m m' snap evs)
  case Nil
  then show ?case by (simp add: waiting_def mirrors_def)
next
  case (Cons k ks)
  obtain e where e: "map_of m k = Some e" "behind (map_of snap k) (map_of before k) k e"
    using Cons(4) by (auto simp: waiting_def)
  have key: "p_key (e_peer e) = k" using Cons(2) e(1) by (simp add: keyed_def)
  obtain e2 now where pub: "publish_one hosts srcIp (map_of before k) e = (e2, now)" by fastforce
  obtain m1 later where rest: "publish_all hosts srcIp before ks (map_put k e2 m) = (m1, later)" by fastforce
  note told = publish_one_tells [OF e(2) key pub]
  have "waiting (set ks) before (fold Bricola_observe now snap) (map_put k e2 m)"
    using Cons(3,4) told unfolding waiting_def announced_def
    by (auto split: option.splits)
  from Cons.IH [OF keyed_put [OF Cons(2)] _ this rest] show ?case
    using told Cons(3,5) by (auto simp: e pub rest)
qed

lemma Ingest_tells:
  assumes "keyed (t_Peers t)" "mirrors snap (announced (t_Peers t))" "Ingest t buf len srcIp nowMs = (t', evs)"
  shows "keyed (t_Peers t') \<and> in_order snap evs \<and> mirrors (fold Bricola_observe evs snap) (announced (t_Peers t'))"
proof (cases "Parse buf len")
  case None
  then show ?thesis using assms by (auto simp: Ingest_def)
next
  case (Some msg)
  define rs where "rs = m_answers msg @ m_additionals msg"
  define s where "s = fold (ingest_record (t_Service t) buf len nowMs) rs
      \<lparr>s_peers = t_Peers t, s_touched = [], s_removed = [], s_before = []\<rparr>"
  have ok: "pass_ok (t_Peers t) s"
    unfolding s_def by (rule pass_ok_records) (use assms(1) in \<open>simp add: pass_ok_def\<close>)
  obtain m1 T1 lost where r: "remove_all (s_removed s) (s_peers s) (s_touched s) = (m1, T1, lost)"
    by (cases "remove_all (s_removed s) (s_peers s) (s_touched s)") auto
  obtain m2 told where p: "publish_all (fold harvest rs (t_HostAddrs t)) srcIp (s_before s) T1 m1 = (m2, told)"
    by fastforce
  have res: "t_Peers t' = m2" "evs = lost @ told"
    using assms(3) r p by (auto simp: Ingest_def Some rs_def s_def Let_def)
  note w = waiting_start [OF ok assms(2,1)]
  have "keyed (s_peers s)" "distinct (s_touched s)" using ok by (simp_all add: pass_ok_def)
  with remove_all_tells [OF _ w r]
  have 1: "keyed m1" "waiting (set T1) (s_before s) (fold Bricola_observe lost snap) m1" "in_order snap lost" "distinct T1"
    by simp_all
  show ?thesis using publish_all_tells [OF 1(1,4,2) p] 1(3) by (simp add: res)
qed

section \<open>Expiry\<close>

lemma expire_map: "fst (expire nowMs m) = filter (\<lambda>(k, e). nowMs < p_expiresAtMs (e_peer e)) m"
  by (induction nowMs m rule: expire.induct) (auto simp: Let_def split: prod.splits)

lemma expire_tells:
  assumes "keyed m" "\<forall>k \<in> fst ` set m. rel_option same_peer (map_of snap k) (announced m k)" "expire nowMs m = (m', evs)"
  shows "in_order snap evs \<and>
     (\<forall>k \<in> fst ` set m. rel_option same_peer (map_of (fold Bricola_observe evs snap) k) (announced m' k)) \<and>
     (\<forall>k. k \<notin> fst ` set m \<longrightarrow> map_of (fold Bricola_observe evs snap) k = map_of snap k \<and> announced m' k = None)"
  using assms
proof (induction nowMs m arbitrary: snap m' evs rule: expire.induct)
  case (2 nowMs k e m)
  obtain m1 e1 where rest: "expire nowMs m = (m1, e1)" by fastforce
  have ok: "keyed m" "p_key (e_peer e) = k" "k \<notin> fst ` set m"
    using keyed_Cons [OF 2(2)] by simp_all
  define now where "now = (if p_expiresAtMs (e_peer e) \<le> nowMs then lost_events e else [])"
  define snap1 where "snap1 = fold Bricola_observe now snap"
  have res: "evs = now @ e1" "m' = (if p_expiresAtMs (e_peer e) \<le> nowMs then m1 else (k, e) # m1)"
    using 2(4) rest by (auto simp: now_def split: if_splits)
  have k: "rel_option same_peer (map_of snap k) (if e_announced e then Some (e_peer e) else None)"
    using 2(3) by (simp add: announced_def)
  then have told: "map_of snap1 = (if p_expiresAtMs (e_peer e) \<le> nowMs then (map_of snap)(k := None) else map_of snap)"
    and fit: "in_order snap now"
    using ok(2) by (auto simp: snap1_def now_def lost_events_def AList.delete_conv fun_upd_idem option_rel_Some2)
  have IH: "\<forall>k \<in> fst ` set m. rel_option same_peer (map_of snap1 k) (announced m k)"
    using 2(3) ok(3) by (auto simp: told announced_def split: if_splits)
  note told1 = "2.IH" [OF ok(1) IH rest]
  show ?case
    using told1 fit k ok(3) by (auto simp: res snap1_def [symmetric] told announced_def)
qed (simp add: announced_def)

lemma Expire_tells:
  assumes "keyed (t_Peers t)" "mirrors snap (announced (t_Peers t))" "Expire t nowMs = (t', evs)"
  shows "keyed (t_Peers t') \<and> in_order snap evs \<and> mirrors (fold Bricola_observe evs snap) (announced (t_Peers t'))"
proof -
  obtain m' where e: "expire nowMs (t_Peers t) = (m', evs)" "t' = t\<lparr>t_Peers := m'\<rparr>"
    using assms(3) by (auto simp: Expire_def split: prod.splits)
  have m': "m' = filter (\<lambda>(k, e). nowMs < p_expiresAtMs (e_peer e)) (t_Peers t)"
    using expire_map [of nowMs "t_Peers t"] e(1) by simp
  have "keyed m'" using assms(1) by (auto simp: keyed_def m' map_ok_in [symmetric])
  moreover have r: "rel_option same_peer (map_of snap k) (announced (t_Peers t) k)" for k
    using assms(2) by (simp add: mirrors_def)
  moreover have "map_of snap k = None" if "k \<notin> fst ` set (t_Peers t)" for k
    using r [of k] map_of_eq_None_iff [of "t_Peers t" k] that by (simp add: announced_def)
  ultimately show ?thesis
    using expire_tells [OF assms(1) _ e(1), of snap] by (fastforce simp: e(2) mirrors_def)
qed

section \<open>The browser keeps the contract\<close>

definition Browser_step :: "Browser \<Rightarrow> (bytes \<times> string \<times> int) + int \<Rightarrow> Browser \<times> PeerEvent list" where
  "Browser_step w i = (case i of Inl (buf, srcIp, nowMs) \<Rightarrow> OnPacket w buf (length buf) srcIp nowMs | Inr nowMs \<Rightarrow> Tick w nowMs)"

definition Browser_known :: "Browser \<Rightarrow> string \<Rightarrow> Peer option" where
  "Browser_known w = announced (t_Peers (w_Table w))"

definition Browser_sound :: "Browser \<Rightarrow> bool" where
  "Browser_sound w \<longleftrightarrow> keyed (t_Peers (w_Table w))"

lemma Browser_step_tells:
  assumes "Browser_sound w" "mirrors snap (Browser_known w)" "Browser_step w i = (w', evs)"
  shows "Browser_sound w' \<and> in_order snap evs \<and> mirrors (fold Bricola_observe evs snap) (Browser_known w')"
proof (cases i)
  case (Inl p)
  then show ?thesis
    using assms Ingest_tells [of "w_Table w" snap]
    by (cases p) (auto simp: Browser_step_def OnPacket_def Browser_sound_def Browser_known_def split: prod.splits)
next
  case (Inr nowMs)
  then show ?thesis
    using assms Expire_tells [of "w_Table w" snap]
    by (auto simp: Browser_step_def Tick_def Browser_sound_def Browser_known_def split: prod.splits)
qed

interpretation browser: peer_source Browser_step Browser_known Browser_sound
proof
  fix w i snap
  obtain w' evs where s: "Browser_step w i = (w', evs)" by fastforce
  show "Browser_sound w \<Longrightarrow> mirrors snap (Browser_known w) \<Longrightarrow> Browser_sound (fst (Browser_step w i)) \<and> in_order snap (snd (Browser_step w i)) \<and>
      mirrors (fold Bricola_observe (snd (Browser_step w i)) snap) (Browser_known (fst (Browser_step w i)))"
    using Browser_step_tells [of w snap i] s by simp
qed

end
