(* ===== verification/PeerLife.thy ===== *)
theory PeerLife
  imports PeerWatch
begin

text \<open>
  A peer's life in the table: what the facade's loop does with the browser's contract, how a peer
  leaves, and how one node's announcement becomes another node's peer.
\<close>

section \<open>The facade\<close>

definition Bricola_ok :: "Bricola \<Rightarrow> bool" where
  "Bricola_ok b \<longleftrightarrow> Browser_sound (b_Browser b) \<and> mirrors (b_Snapshot b) (Browser_known (b_Browser b))"

text \<open>A turn is a step of the browser for the datagram, if there is one, and a step for the tick.\<close>

definition turn_inputs :: "Turn \<Rightarrow> ((bytes \<times> string \<times> int) + int) list" where
  "turn_inputs u = (case u_packet u of Some p \<Rightarrow> if length (fst p) > 0 then [Inl p] else [] | None \<Rightarrow> []) @ [Inr (u_now u)]"

lemma Bricola_turn_steps:
  "browser.steps (b_Browser b) (turn_inputs u) = (b_Browser (fst (Bricola_turn b u)), snd (snd (Bricola_turn b u)))"
  "b_Snapshot (fst (Bricola_turn b u)) = fold Bricola_observe (snd (snd (Bricola_turn b u))) (b_Snapshot b)"
  "b_Responder (fst (Bricola_turn b u)) = b_Responder b"
  by (auto simp: Bricola_turn_def turn_inputs_def Browser_step_def Let_def split: option.splits prod.splits)

lemma Bricola_turn_ok:
  assumes "Bricola_ok b" "Bricola_turn b u = (b', sent, evs)"
  shows "Bricola_ok b' \<and> in_order (b_Snapshot b) evs \<and> b_Snapshot b' = fold Bricola_observe evs (b_Snapshot b)"
  using browser.steps_tell [OF _ _ Bricola_turn_steps(1) [of b u], of "b_Snapshot b"] Bricola_turn_steps(2) [of b u] assms
  by (simp add: Bricola_ok_def)

lemma Bricola_loop_ok:
  assumes "Bricola_ok b" "Bricola_loop b us = (b', sent, evs)"
  shows "Bricola_ok b' \<and> in_order (b_Snapshot b) evs \<and> b_Snapshot b' = fold Bricola_observe evs (b_Snapshot b)"
  using assms
proof (induction us arbitrary: b b' sent evs)
  case (Cons u us)
  obtain b1 s1 e1 where 1: "Bricola_turn b u = (b1, s1, e1)" by (cases "Bricola_turn b u") auto
  obtain b2 s2 e2 where 2: "Bricola_loop b1 us = (b2, s2, e2)" by (cases "Bricola_loop b1 us") auto
  show ?case
    using Bricola_turn_ok [OF Cons(2) 1] Cons.IH [OF _ 2] Cons(3) by (auto simp: 1 2)
qed simp

lemma Bricola_Start_ok: "Bricola_ok (fst (Bricola_Start self nowMs))" "b_Snapshot (fst (Bricola_Start self nowMs)) = []"
  by (simp_all add: Bricola_Start_def Bricola_ok_def Browser_sound_def Browser_known_def Browser_def PeerTable_def
      keyed_def mirrors_def announced_def Let_def)

section \<open>Goodbyes\<close>

definition goodbye_for :: "string \<Rightarrow> bytes \<Rightarrow> nat \<Rightarrow> Record \<Rightarrow> string \<Rightarrow> bool" where
  "goodbye_for service buf len r k \<longleftrightarrow> r_ttl r = 0 \<and>
     (if r_type r = kTypePTR then r_name r = service \<and> DecodePtr buf len r = Some k
      else (r_type r = kTypeSRV \<or> r_type r = kTypeTXT) \<and> EndsWith (r_name r) (CHR ''.'' # service) \<and> r_name r = k)"

lemma touch_removed [simp]: "s_removed (touch service key f s) = s_removed s"
  by (simp add: touch_def Let_def)

lemma removed_record:
  "set (s_removed (ingest_record service buf len nowMs r s)) =
     set (s_removed s) \<union> {k. goodbye_for service buf len r k}"
  by (auto simp: ingest_record_def goodbye_for_def remove_def Let_def rr_types split: option.split)

lemma removed_records:
  "set (s_removed (fold (ingest_record service buf len nowMs) rs s)) =
     set (s_removed s) \<union> {k. \<exists>r \<in> set rs. goodbye_for service buf len r k}"
  by (induction rs arbitrary: s) (auto simp: removed_record)

lemma remove_all_result:
  assumes "keyed m" "remove_all ks m T = (m', T', evs)"
  shows "map_of m' = (\<lambda>k. if k \<in> set ks then None else map_of m k) \<and>
    (\<forall>p. PeerLost p \<in> set evs \<longrightarrow> p_key p \<in> set ks) \<and> (\<forall>p. PeerFound p \<notin> set evs) \<and>
    set T' \<subseteq> set T \<and> set T - set ks \<subseteq> set T'"
  using assms
proof (induction ks arbitrary: m m' T T' evs)
  case (Cons k ks)
  show ?case
  proof (cases "map_of m k")
    case None
    then show ?thesis using Cons.IH [OF Cons(2), of T m' T' evs] Cons(3) by auto
  next
    case (Some e)
    obtain m1 T1 e1 where rest: "remove_all ks (AList.delete k m) (removeAll k T) = (m1, T1, e1)"
      by (cases "remove_all ks (AList.delete k m) (removeAll k T)") auto
    have "p_key (e_peer e) = k" using Cons(2) Some by (simp add: keyed_def)
    then show ?thesis
      using Cons.IH [OF keyed_delete [OF Cons(2), of k] rest] Cons(3) Some
      by (auto simp: rest lost_events_def AList.delete_conv fun_eq_iff split: if_splits)
  qed
qed auto

lemma publish_one_result: "publish_one hosts srcIp before e = (e2, evs) \<Longrightarrow> PeerLost p \<notin> set evs"
  by (auto simp: publish_one_def Publish_def Let_def split: if_splits)

lemma publish_all_result:
  assumes "publish_all hosts srcIp before ks m = (m', evs)"
  shows "(map_of m' k = None \<longleftrightarrow> map_of m k = None) \<and> PeerLost p \<notin> set evs \<and>
    (k \<notin> set ks \<longrightarrow> map_of m' k = map_of m k)"
  using assms
proof (induction ks arbitrary: m m' evs)
  case (Cons key keys)
  show ?case
  proof (cases "map_of m key")
    case None
    then show ?thesis using Cons by simp
  next
    case (Some e)
    obtain e2 now where pub: "publish_one hosts srcIp (map_of before key) e = (e2, now)" by fastforce
    obtain m1 later where rest: "publish_all hosts srcIp before keys (map_put key e2 m) = (m1, later)" by fastforce
    show ?thesis
      using Cons.IH [OF rest] Cons(2) Some publish_one_result [OF pub] by (auto simp: pub rest)
  qed
qed simp

lemma Expire_result:
  assumes "Expire t nowMs = (t', evs)"
  shows "map_of (t_Peers t') k = Some e \<Longrightarrow> nowMs < p_expiresAtMs (e_peer e)"
    "PeerLost p \<in> set evs \<Longrightarrow> p_expiresAtMs p \<le> nowMs"
proof -
  obtain m' where e: "expire nowMs (t_Peers t) = (m', evs)" "t_Peers t' = m'"
    using assms by (auto simp: Expire_def split: prod.splits)
  show "map_of (t_Peers t') k = Some e \<Longrightarrow> nowMs < p_expiresAtMs (e_peer e)"
    using expire_map [of nowMs "t_Peers t"] e by (auto dest!: map_of_SomeD)
  have "expire now m = (m1, evs1) \<Longrightarrow> PeerLost p \<in> set evs1 \<Longrightarrow> p_expiresAtMs p \<le> now" for now m m1 evs1
    by (induction now m arbitrary: m1 evs1 rule: expire.induct)
      (auto simp: lost_events_def split: prod.splits if_splits)
  then show "PeerLost p \<in> set evs \<Longrightarrow> p_expiresAtMs p \<le> nowMs" using e by blast
qed

text \<open>What a packet that parses does, in one equation per part.\<close>

lemma Ingest_parts:
  assumes "Ingest t buf len srcIp nowMs = (t', evs)" "Parse buf len = Some msg" "keyed (t_Peers t)"
  defines "rs \<equiv> m_answers msg @ m_additionals msg"
  defines "s \<equiv> fold (ingest_record (t_Service t) buf len nowMs) rs
      \<lparr>s_peers = t_Peers t, s_touched = [], s_removed = [], s_before = []\<rparr>"
  obtains m1 T lost told
  where "remove_all (s_removed s) (s_peers s) (s_touched s) = (m1, T, lost)"
    "publish_all (fold harvest rs (t_HostAddrs t)) srcIp (s_before s) T m1 = (t_Peers t', told)"
    "evs = lost @ told" "pass_ok (t_Peers t) s" "t_HostAddrs t' = fold harvest rs (t_HostAddrs t)" "t_Service t' = t_Service t"
proof -
  have ok: "pass_ok (t_Peers t) s"
    unfolding s_def by (rule pass_ok_records) (use assms(3) in \<open>simp add: pass_ok_def\<close>)
  show ?thesis
    using assms(1,2) that ok by (auto simp: Ingest_def rs_def s_def Let_def split: prod.splits)
qed

lemma Ingest_goodbyes:
  assumes "keyed (t_Peers t)" "Ingest t buf len srcIp nowMs = (t', evs)" "Parse buf len = Some msg"
  defines "goodbyes \<equiv> {k. \<exists>r \<in> set (m_answers msg @ m_additionals msg). goodbye_for (t_Service t) buf len r k}"
  shows "k \<in> goodbyes \<Longrightarrow> map_of (t_Peers t') k = None" "PeerLost p \<in> set evs \<Longrightarrow> p_key p \<in> goodbyes"
proof -
  define s where "s = fold (ingest_record (t_Service t) buf len nowMs) (m_answers msg @ m_additionals msg)
      \<lparr>s_peers = t_Peers t, s_touched = [], s_removed = [], s_before = []\<rparr>"
  obtain m1 T lost told where i: "remove_all (s_removed s) (s_peers s) (s_touched s) = (m1, T, lost)"
    "publish_all (fold harvest (m_answers msg @ m_additionals msg) (t_HostAddrs t)) srcIp (s_before s) T m1 = (t_Peers t', told)"
    "evs = lost @ told" "pass_ok (t_Peers t) s"
    using Ingest_parts [OF assms(2,3,1)] unfolding s_def by metis
  have removed: "set (s_removed s) = goodbyes" by (auto simp: s_def removed_records goodbyes_def)
  have "keyed (s_peers s)" using i(4) by (simp add: pass_ok_def)
  note gone = remove_all_result [OF this i(1), unfolded removed] and told = publish_all_result [OF i(2)]
  show "k \<in> goodbyes \<Longrightarrow> map_of (t_Peers t') k = None" using gone told by auto
  show "PeerLost p \<in> set evs \<Longrightarrow> p_key p \<in> goodbyes" using gone told i(3) by auto
qed

section \<open>From an announcement to a peer\<close>

text \<open>What a node may say of itself and be understood: names of labels the encoder keeps, attributes
  that fit a character string, a port, and a dotted address or, as the daemon does, none.\<close>

definition announceable :: "Responder \<Rightarrow> (byte \<times> byte \<times> byte \<times> byte) option \<Rightarrow> bool" where
  "announceable r ip \<longleftrightarrow> good_name (rs_Service r) \<and> good_name (InstanceFqdn r) \<and> good_name (i_hostname (rs_Info r)) \<and>
     length (i_hostname (rs_Info r)) \<le> 255 \<and> length (InstanceFqdn r) \<le> 255 \<and>
     length (i_instance (rs_Info r)) \<le> 250 \<and> length (i_caps (rs_Info r)) \<le> 250 \<and>
     length (i_fingerprintHex (rs_Info r)) \<le> 250 \<and> i_port (rs_Info r) \<noteq> 0 \<and>
     i_address (rs_Info r) = (case ip of None \<Rightarrow> [] | Some (a, b, c, d) \<Rightarrow> quad a b c d)"

lemma good_name_nonempty: "\<not> good_name []"
  by (subst good_name.simps) simp

lemma length_decimal: "n < 10 ^ Suc k \<Longrightarrow> length (decimal n) \<le> Suc k"
proof (induction k arbitrary: n)
  case (Suc k)
  have "length (decimal n) = (if n < 10 then 1 else Suc (length (decimal (n div 10))))"
    by (subst decimal.simps) simp
  then show ?case using Suc.IH [of "n div 10"] Suc.prems by (auto simp: less_mult_imp_div_less)
qed (subst decimal.simps, simp)

lemma length_decimal16: "length (decimal (unat (n :: u16))) \<le> 5"
proof -
  have "unat n < 2 ^ 16" using unsigned_less [of n] by simp
  then show ?thesis using length_decimal [of "unat n" 4] by simp
qed

lemma ParseUint_decimal: "n < 2 ^ 64 \<Longrightarrow> ParseUint (decimal n) = Some (of_nat n)"
proof -
  assume n: "n < 2 ^ 64"
  have "c_str (decimal n) = decimal n"
    using decimal_facts(2) [of n] is_digit_not(3) by (auto simp: c_str_def)
  then show ?thesis using strtoul_decimal [OF n, of "[]"] decimal_facts(1) [of n] by (simp add: ParseUint_def)
qed

lemma good_attributes:
  assumes "announceable r ip"
  shows "\<forall>kv \<in> set (announced_attributes (rs_Info r)). good_attribute kv"
proof -
  have "length (decimal (unat (i_protocolVersion (rs_Info r)))) \<le> 5"
    using length_decimal [of "unat (i_protocolVersion (rs_Info r))" 2] byte_bound [of "i_protocolVersion (rs_Info r)"]
    by simp
  then show ?thesis
    using assms length_decimal16 [of "i_port (rs_Info r)"]
    by (auto simp: announced_attributes_def good_attribute_def announceable_def)
qed

text \<open>The peer the attributes describe, on top of what was known.\<close>

lemma txt_attributes:
  assumes "announceable r ip" "p_port p = i_port (rs_Info r)"
  defines "info \<equiv> rs_Info r"
  shows "fold txt_attribute (announced_attributes info) p =
     p\<lparr>p_protocolVersion := i_protocolVersion info, p_instance := i_instance info, p_bfsAttrs := i_bfsAttrs info,
       p_caps := if i_caps info \<noteq> [] then i_caps info else p_caps p,
       p_fingerprintHex := if i_fingerprintHex info \<noteq> [] then i_fingerprintHex info else p_fingerprintHex p\<rparr>"
proof -
  have i: "i_instance info \<noteq> []"
    using assms(1) by (auto simp: announceable_def InstanceFqdn_def info_def good_name.simps [of "CHR ''.'' # _"])
  have v: "unat (i_protocolVersion info) < 256" by (rule byte_bound)
  have n: "ParseUint (decimal (unat (i_protocolVersion info))) = Some (ucast (i_protocolVersion info))"
    using ParseUint_decimal [of "unat (i_protocolVersion info)"] v by simp
  have le: "(ucast (i_protocolVersion info) :: u64) \<le> 255"
    using v by (simp add: word_le_nat_alt unat_ucast_small)
  have again: "(ucast (ucast (i_protocolVersion info) :: u64) :: u8) = i_protocolVersion info"
    by (rule bit_word_eqI) (auto simp: bit_simps)
  have port: "p_port p \<noteq> 0" using assms by (simp add: announceable_def)
  show ?thesis
    using i port by (auto simp: announced_attributes_def txt_attribute_def n le again split: option.split)
qed

text \<open>A parsed record carries what the record it was built from says.\<close>

definition carries :: "bytes \<Rightarrow> OutRecord \<Rightarrow> Record \<Rightarrow> bool" where
  "carries buf rec r \<longleftrightarrow> r_name r = o_name rec \<and> r_type r = o_type rec \<and> r_ttl r = o_ttl rec \<and>
     r_rdata r = o_rdata rec \<and> (\<exists>rest. drop (r_rdataOffset r) buf = o_rdata rec @ rest)"

lemma records_carry:
  "drop i buf = concat (map AppendRecord recs) @ rest \<Longrightarrow> list_all2 (carries buf) recs (records_at i recs)"
proof (induction recs arbitrary: i)
  case (Cons rec recs)
  have 1: "drop i buf = AppendRecord rec @ concat (map AppendRecord recs) @ rest" using Cons(2) by simp
  have "drop (i + (length (EncodeName (o_name rec)) + 10)) buf = o_rdata rec @ concat (map AppendRecord recs) @ rest"
    using drop_at [of i buf "EncodeName (o_name rec) @ AppendBE16 (o_type rec) @
      AppendBE16 (if o_cacheFlush rec then kClassIN OR kClassFlushBit else kClassIN) @
      AppendBE32 (o_ttl rec) @ AppendBE16 (word_of_nat (length (o_rdata rec)))"] 1
    by (simp add: AppendRecord_def [of rec] add.assoc)
  then show ?case
    using Cons.IH [OF drop_at [OF 1]] by (auto simp: carries_def record_at_def add.assoc)
qed simp

lemma packet_carries:
  assumes "\<forall>rec \<in> set (answers @ additionals). good_record rec"
    and "length answers < 2 ^ 16" "length additionals < 2 ^ 16"
  defines "buf \<equiv> BuildResponse answers additionals"
  obtains msg where "Parse buf (length buf) = Some msg"
    "list_all2 (carries buf) (answers @ additionals) (m_answers msg @ m_additionals msg)"
proof -
  have b: "drop 12 buf = concat (map AppendRecord answers) @ concat (map AppendRecord additionals)"
    using drop_at [of 0 buf "AppendBE16 0 @ AppendBE16 kFlagsResponse @ AppendBE16 0 @
      AppendBE16 (word_of_nat (length answers)) @ AppendBE16 0 @ AppendBE16 (word_of_nat (length additionals))"]
    by (simp add: buf_def BuildResponse_def)
  have "list_all2 (carries buf) additionals
      (records_at (12 + length (concat (map AppendRecord answers))) additionals)"
    by (rule records_carry [where rest = "[]"]) (use drop_at [OF b] in simp)
  with records_carry [OF b] show ?thesis
    using that Parse_BuildResponse [OF assms(1-3), folded buf_def] by (auto intro: list_all2_appendI)
qed

lemma length_MakeTxt: "length (MakeTxt kv) \<le> 256 * length kv + 1"
proof -
  have "length (concat (map txt_entry kv)) \<le> 256 * length kv"
  proof (induction kv)
    case (Cons p kv)
    have "length (txt_entry p) \<le> 256" by (auto simp: txt_entry_def Let_def min_def)
    then show ?case using Cons by simp
  qed simp
  then show ?thesis by (simp add: MakeTxt_def Let_def)
qed

lemma announced_a_record:
  assumes "announceable r ip"
  shows "announced_a r = (case ip of None \<Rightarrow> [] | Some (a, b, c, d) \<Rightarrow>
    [\<lparr>o_name = i_hostname (rs_Info r), o_type = kTypeA, o_ttl = kHostTtl, o_cacheFlush = True, o_rdata = [a, b, c, d]\<rparr>])"
proof -
  have "quad a b c d \<noteq> []" for a b c d by (simp add: quad_def)
  then show ?thesis
    using assms by (auto simp: announced_a_def announceable_def Let_def MakeA_quad split: option.splits prod.splits)
qed

lemma announced_records:
  assumes "announceable r ip"
  shows "\<forall>rec \<in> set ([announced_ptr r] @ [announced_srv r, announced_txt r] @ announced_a r). good_record rec"
proof -
  have "length (announced_attributes (rs_Info r)) \<le> 6" by (simp add: announced_attributes_def)
  then have "length (MakeTxt (announced_attributes (rs_Info r))) < 65536"
    using length_MakeTxt [of "announced_attributes (rs_Info r)"] by linarith
  moreover have "length (MakePtr (InstanceFqdn r)) < 65536"
    using length_EncodeName [of "InstanceFqdn r"] assms by (simp add: MakePtr_def announceable_def)
  moreover have "length (MakeSrv 0 0 (i_port (rs_Info r)) (i_hostname (rs_Info r))) < 65536"
    using length_EncodeName [of "i_hostname (rs_Info r)"] assms by (simp add: MakeSrv_def announceable_def)
  ultimately show ?thesis
    using assms by (auto simp: announced_a_record [OF assms] good_record_def announced_ptr_def announced_srv_def
        announced_txt_def announceable_def split: option.splits)
qed

text \<open>The entry \<open>touch\<close> refers to, and its touches in a row.\<close>

definition entry_at :: "string \<Rightarrow> (string, PeerEntry) std_map \<Rightarrow> string \<Rightarrow> PeerEntry" where
  "entry_at service m k = (case map_of m k of
     None \<Rightarrow> \<lparr>e_peer = new_peer service k, e_announced = False\<rparr> | Some e \<Rightarrow> e)"

lemma touch_peers:
  "map_of (s_peers (touch service k f s)) =
     (map_of (s_peers s))(k \<mapsto> (entry_at service (s_peers s) k)\<lparr>e_peer := f (e_peer (entry_at service (s_peers s) k))\<rparr>)"
  by (simp add: touch_def entry_at_def Let_def)

lemma touch_touched: "set (s_touched s) \<subseteq> {k} \<Longrightarrow> length (s_touched s) \<le> 1 \<Longrightarrow> s_touched (touch service k f s) = [k]"
  by (cases "s_touched s") (auto simp: touch_def Let_def set_put_def insort_insert_key_def)

lemma attach_all: "set (fst (attach ips (xs, changed))) = set xs \<union> set ips"
  by (induction ips "(xs, changed)" arbitrary: xs changed rule: attach.induct) auto

lemma attach_grows: "\<exists>zs. fst (attach ips (xs, changed)) = xs @ zs"
proof (induction ips arbitrary: xs changed)
  case (Cons ip ips)
  show ?case using Cons [of xs changed] Cons [of "xs @ [ip]" True] by auto
qed simp

lemma AttachAddresses_grows: "\<exists>zs. fst (AttachAddresses hosts p) = p\<lparr>p_addresses := p_addresses p @ zs\<rparr>"
proof (cases "p_hostname p = [] \<or> map_of hosts (Lower (p_hostname p)) = None")
  case True
  then have "fst (AttachAddresses hosts p) = p\<lparr>p_addresses := p_addresses p @ []\<rparr>"
    by (auto simp: AttachAddresses_def)
  then show ?thesis by blast
next
  case False
  then obtain ips where ips: "p_hostname p \<noteq> []" "map_of hosts (Lower (p_hostname p)) = Some ips" by auto
  obtain xs c where at: "attach ips (p_addresses p, False) = (xs, c)" by fastforce
  then obtain zs where "xs = p_addresses p @ zs" using attach_grows [of ips "p_addresses p" False] by auto
  then have "fst (AttachAddresses hosts p) = p\<lparr>p_addresses := p_addresses p @ zs\<rparr>"
    using ips at by (simp add: AttachAddresses_def)
  then show ?thesis by blast
qed

lemma settle_peer:
  "settle hosts srcIp p = p\<lparr>p_addresses := p_addresses (settle hosts srcIp p)\<rparr>"
  "\<exists>zs. p_addresses (settle hosts srcIp p) = p_addresses p @ zs"
  "p_port p \<noteq> 0 \<Longrightarrow> srcIp \<noteq> [] \<Longrightarrow> p_addresses (settle hosts srcIp p) \<noteq> []"
proof -
  obtain zs where "fst (AttachAddresses hosts p) = p\<lparr>p_addresses := p_addresses p @ zs\<rparr>"
    using AttachAddresses_grows by blast
  then show "settle hosts srcIp p = p\<lparr>p_addresses := p_addresses (settle hosts srcIp p)\<rparr>"
    "\<exists>zs. p_addresses (settle hosts srcIp p) = p_addresses p @ zs"
    "p_port p \<noteq> 0 \<Longrightarrow> srcIp \<noteq> [] \<Longrightarrow> p_addresses (settle hosts srcIp p) \<noteq> []"
    by (auto simp: settle_def Let_def)
qed

lemma settle_known:
  assumes "p_hostname p \<noteq> []" "map_of hosts (Lower (p_hostname p)) = Some ips" "ip \<in> set ips"
  shows "ip \<in> set (p_addresses (settle hosts srcIp p))"
proof -
  obtain xs c where at: "attach ips (p_addresses p, False) = (xs, c)" by fastforce
  have "set xs = set (p_addresses p) \<union> set ips" using attach_all [of ips "p_addresses p" False] at by simp
  then have "ip \<in> set xs" using assms(3) by simp
  moreover from this have "xs \<noteq> []" by auto
  ultimately show ?thesis using assms(1,2) at by (simp add: settle_def AttachAddresses_def)
qed

lemma settle_unknown:
  assumes "map_of hosts (Lower (p_hostname p)) = None" "p_addresses p = []" "p_port p \<noteq> 0" "srcIp \<noteq> []"
  shows "p_addresses (settle hosts srcIp p) = [srcIp]"
  using assms by (simp add: settle_def AttachAddresses_def)

lemma EndsWith_append [simp]: "EndsWith (s @ sfx) sfx"
  by (simp add: EndsWith_def)

text \<open>The announced peer, on top of what the table had under its key.\<close>

definition described :: "Responder \<Rightarrow> int \<Rightarrow> Peer \<Rightarrow> Peer" where
  "described r nowMs p = (let info = rs_Info r in
     p\<lparr>p_port := i_port info, p_hostname := i_hostname info,
       p_protocolVersion := i_protocolVersion info, p_instance := i_instance info, p_bfsAttrs := i_bfsAttrs info,
       p_caps := if i_caps info \<noteq> [] then i_caps info else p_caps p,
       p_fingerprintHex := if i_fingerprintHex info \<noteq> [] then i_fingerprintHex info else p_fingerprintHex p,
       p_expiresAtMs := max (p_expiresAtMs p) (nowMs + 4500000)\<rparr>)"

text \<open>The four records of an announcement, read by a table that tracks the same service.\<close>

lemma announcement_pass:
  assumes ann: "announceable r ip" and rs: "list_all2 (carries buf) ([announced_ptr r] @ [announced_srv r, announced_txt r] @ announced_a r) rs"
  defines "info \<equiv> rs_Info r" and "k \<equiv> InstanceFqdn r"
  obtains f1 f2 f3
  where "fold (ingest_record (rs_Service r) buf (length buf) nowMs) rs s =
      touch (rs_Service r) k f3 (touch (rs_Service r) k f2 (touch (rs_Service r) k f1 s))"
    "\<And>p. f3 (f2 (f1 p)) = described r nowMs p"
    "map_of (fold harvest rs hosts) (Lower (i_hostname info)) = (if i_address info = []
       then map_of hosts (Lower (i_hostname info)) else Some (set_put (i_address info)
       (case map_of hosts (Lower (i_hostname info)) of None \<Rightarrow> [] | Some ips \<Rightarrow> ips)))"
proof -
  obtain r1 r2 r3 r4 where split: "rs = [r1, r2, r3] @ r4" and c1: "carries buf (announced_ptr r) r1"
    and c2: "carries buf (announced_srv r) r2" and c3: "carries buf (announced_txt r) r3"
    and c4: "list_all2 (carries buf) (announced_a r) r4"
    using rs by (auto simp: list_all2_Cons1)
  have n: "good_name k" "good_name (i_hostname info)" using ann by (simp_all add: announceable_def k_def info_def)
  have ptr: "DecodePtr buf (length buf) r1 = Some k"
    using c1 DecodePtr_back [OF n(1), of r1 buf] by (auto simp: carries_def announced_ptr_def k_def)
  have srv: "DecodeSrv buf (length buf) r2 = Some (0, 0, i_port info, i_hostname info)"
    using c2 DecodeSrv_back [OF n(2), of r2 0 0 "i_port info" buf] by (auto simp: carries_def announced_srv_def info_def)
  have attrs: "DecodeTxt r3 = Some (announced_attributes info)"
    using c3 MakeTxt_back [OF good_attributes [OF ann]] by (simp add: carries_def announced_txt_def DecodeTxt_def info_def)
  have a4: "fold (ingest_record (rs_Service r) buf (length buf) nowMs) r4 = id"
    using c4 announced_a_record [OF ann]
    by (auto simp: list_all2_Cons1 carries_def ingest_record_def rr_types fun_eq_iff Let_def split: option.splits)
  define f1 f2 f3 where "f1 = refresh nowMs r1"
    and "f2 = (\<lambda>p. refresh nowMs r2 (p\<lparr>p_port := i_port info, p_hostname := i_hostname info\<rparr>))"
    and "f3 = (\<lambda>p. refresh nowMs r3 (fold txt_attribute (announced_attributes info) p))"
  have "fold (ingest_record (rs_Service r) buf (length buf) nowMs) rs s =
      touch (rs_Service r) k f3 (touch (rs_Service r) k f2 (touch (rs_Service r) k f1 s))"
    using c1 c2 c3 ptr srv attrs
    by (simp add: split a4 ingest_record_def carries_def announced_ptr_def announced_srv_def announced_txt_def rr_types
        kPtrTtl_def kSrvTtl_def kTxtTtl_def kHostTtl_def f1_def f2_def f3_def k_def InstanceFqdn_def Let_def)
  moreover have "f3 (f2 (f1 p)) = described r nowMs p" for p
    using c1 c2 c3 txt_attributes [OF ann]
    by (simp add: described_def Let_def f1_def f2_def f3_def refresh_def info_def carries_def announced_ptr_def announced_srv_def
        announced_txt_def kPtrTtl_def kSrvTtl_def kTxtTtl_def ExpiryFrom_def)
  moreover have "fold harvest rs hosts = fold harvest r4 hosts"
    using c1 c2 c3 by (simp add: split harvest_def carries_def announced_ptr_def announced_srv_def announced_txt_def rr_types)
  moreover have "map_of (fold harvest r4 hosts) (Lower (i_hostname info)) = (if i_address info = []
       then map_of hosts (Lower (i_hostname info)) else Some (set_put (i_address info)
       (case map_of hosts (Lower (i_hostname info)) of None \<Rightarrow> [] | Some ips \<Rightarrow> ips)))"
  proof (cases ip)
    case None
    then show ?thesis using c4 announced_a_record [OF ann] ann by (simp add: announceable_def info_def)
  next
    case (Some q)
    obtain a b c d where q: "q = (a, b, c, d)" by (cases q)
    have addr: "i_address info = quad a b c d" using ann by (simp add: announceable_def Some q info_def)
    then have "i_address info \<noteq> []" by (simp add: quad_def)
    then show ?thesis
      using c4 addr announced_a_record [OF ann]
      by (auto simp: Some q list_all2_Cons1 carries_def harvest_def DecodeA_def Let_def quad_def info_def)
  qed
  ultimately show ?thesis using that by simp
qed

lemma publish_one_connectable:
  assumes "connectable (settle hosts srcIp (e_peer e))" "publish_one hosts srcIp before e = (e2, now)"
  shows "e2 = e\<lparr>e_peer := settle hosts srcIp (e_peer e), e_announced := True\<rparr> \<and>
    (\<not> e_announced e \<longrightarrow> now = [PeerFound (settle hosts srcIp (e_peer e))])"
  using assms by (cases e) (auto simp: publish_one_def Publish_def Let_def split: if_splits)

lemma announcement_ingested:
  assumes ann: "announceable r ip" and keyed: "keyed (t_Peers t)" and service: "t_Service t = rs_Service r"
    and ing: "Ingest t (AnnouncePacket r) (length (AnnouncePacket r)) srcIp nowMs = (t', evs)" and src: "srcIp \<noteq> []"
  defines "k \<equiv> InstanceFqdn r"
  defines "e \<equiv> entry_at (rs_Service r) (t_Peers t) k"
  obtains p where "announced (t_Peers t') k = Some p" "p = (described r nowMs (e_peer e))\<lparr>p_addresses := p_addresses p\<rparr>"
    "i_address (rs_Info r) \<noteq> [] \<Longrightarrow> i_address (rs_Info r) \<in> set (p_addresses p)"
    "i_address (rs_Info r) = [] \<Longrightarrow> map_of (t_HostAddrs t) (Lower (i_hostname (rs_Info r))) = None \<Longrightarrow>
      p_addresses (e_peer e) = [] \<Longrightarrow> p_addresses p = [srcIp]"
    "\<exists>zs. p_addresses p = p_addresses (e_peer e) @ zs"
    "\<not> e_announced e \<Longrightarrow> evs = [PeerFound p]"
proof -
  define buf where "buf = AnnouncePacket r"
  obtain msg where msg: "Parse buf (length buf) = Some msg"
    "list_all2 (carries buf) ([announced_ptr r] @ [announced_srv r, announced_txt r] @ announced_a r)
       (m_answers msg @ m_additionals msg)"
  proof (rule packet_carries [OF announced_records [OF ann]])
    show "length ([announced_srv r, announced_txt r] @ announced_a r) < 2 ^ 16" "length [announced_ptr r] < 2 ^ 16"
      using announced_a_record [OF ann] by (auto split: option.split)
  qed (auto simp: buf_def AnnouncePacket_def)
  define rs where "rs = m_answers msg @ m_additionals msg"
  define s0 where "s0 = \<lparr>s_peers = t_Peers t, s_touched = [], s_removed = [], s_before = []\<rparr>"
  define s where "s = fold (ingest_record (rs_Service r) buf (length buf) nowMs) rs s0"
  obtain f1 f2 f3 where pass: "s = touch (rs_Service r) k f3 (touch (rs_Service r) k f2 (touch (rs_Service r) k f1 s0))"
    and f: "\<And>p. f3 (f2 (f1 p)) = described r nowMs p"
    and hosts: "map_of (fold harvest rs (t_HostAddrs t)) (Lower (i_hostname (rs_Info r))) =
       (if i_address (rs_Info r) = [] then map_of (t_HostAddrs t) (Lower (i_hostname (rs_Info r)))
        else Some (set_put (i_address (rs_Info r))
         (case map_of (t_HostAddrs t) (Lower (i_hostname (rs_Info r))) of None \<Rightarrow> [] | Some ips \<Rightarrow> ips)))"
    by (rule announcement_pass [OF ann msg(2), of nowMs s0 "t_HostAddrs t", folded rs_def k_def, folded s_def])
      (rule that)
  have s: "s_removed s = []" "s_touched s = [k]"
    by (simp_all add: pass s0_def touch_touched)
  have peer: "map_of (s_peers s) = (map_of (t_Peers t))(k \<mapsto> e\<lparr>e_peer := described r nowMs (e_peer e)\<rparr>)"
    by (simp add: pass touch_peers entry_at_def f s0_def e_def fun_upd_def fun_eq_iff)
  obtain told where told: "publish_all (fold harvest rs (t_HostAddrs t)) srcIp (s_before s) [k] (s_peers s) = (t_Peers t', told)"
    "evs = told"
    using Ingest_parts [OF ing [folded buf_def] msg(1) keyed] s
    by (auto simp: service rs_def [symmetric] s0_def [symmetric] s_def [symmetric])
  define q where "q = settle (fold harvest rs (t_HostAddrs t)) srcIp (described r nowMs (e_peer e))"
  have host: "p_hostname (described r nowMs (e_peer e)) = i_hostname (rs_Info r)" "i_hostname (rs_Info r) \<noteq> []"
    using ann by (auto simp: described_def Let_def announceable_def good_name_nonempty)
  have desc: "p_port (described r nowMs (e_peer e)) = i_port (rs_Info r)"
    "p_addresses (described r nowMs (e_peer e)) = p_addresses (e_peer e)" "i_port (rs_Info r) \<noteq> 0"
    using ann by (simp_all add: described_def Let_def announceable_def)
  note q = settle_peer [where hosts = "fold harvest rs (t_HostAddrs t)" and srcIp = srcIp
      and p = "described r nowMs (e_peer e)", folded q_def]
  have con: "connectable q"
    using q(3) src desc by (subst q(1)) (simp add: connectable_def)
  obtain e2 now where one: "publish_one (fold harvest rs (t_HostAddrs t)) srcIp (map_of (s_before s) k)
      (e\<lparr>e_peer := described r nowMs (e_peer e)\<rparr>) = (e2, now)" by fastforce
  have res: "t_Peers t' = map_put k e2 (s_peers s)" "evs = now"
    using told by (auto simp: peer one)
  have ann': "announced (t_Peers t') k = Some q" "\<not> e_announced e \<Longrightarrow> evs = [PeerFound q]"
    using publish_one_connectable [OF _ one] con by (simp_all add: res announced_def q_def)
  show ?thesis
  proof (rule that [OF ann'(1) _ _ _ _ ann'(2)])
    show "q = (described r nowMs (e_peer e))\<lparr>p_addresses := p_addresses q\<rparr>" by (rule q(1))
    show "i_address (rs_Info r) \<noteq> [] \<Longrightarrow> i_address (rs_Info r) \<in> set (p_addresses q)"
      unfolding q_def by (rule settle_known [where ips = "set_put (i_address (rs_Info r))
        (case map_of (t_HostAddrs t) (Lower (i_hostname (rs_Info r))) of None \<Rightarrow> [] | Some ips \<Rightarrow> ips)"])
        (use host hosts in simp_all)
    show "\<exists>zs. p_addresses q = p_addresses (e_peer e) @ zs" using q(2) desc(2) by simp
    show "i_address (rs_Info r) = [] \<Longrightarrow> map_of (t_HostAddrs t) (Lower (i_hostname (rs_Info r))) = None \<Longrightarrow>
        p_addresses (e_peer e) = [] \<Longrightarrow> p_addresses q = [srcIp]"
      unfolding q_def by (rule settle_unknown) (use host hosts desc src in simp_all)
  qed
qed

end
