(* ===== verification/PeerProps.thy ===== *)
theory PeerProps
  imports PeerLife
begin

text \<open>
  What discovery promises: the packet codec stays in its buffer and reads back what it built, the
  observer hears of peers in order, peers leave for a reason, and an announced node is found; and
  the two cases in which it is not found, or not where it is.
\<close>

lemma Parse_BuildQuery:
  assumes "good_name service"
  defines "buf \<equiv> BuildQuery service"
  shows "Parse buf (length buf) = Some \<lparr>m_id = 0, m_flags = kFlagsQuery,
     m_questions = [\<lparr>q_name = service, q_qtype = kTypePTR, q_qclass = kClassIN\<rparr>],
     m_answers = [], m_authorities = [], m_additionals = []\<rparr>"
proof -
  have b0: "drop 0 buf = AppendBE16 0 @ AppendBE16 kFlagsQuery @ AppendBE16 1 @ AppendBE16 0 @ AppendBE16 0 @
      AppendBE16 0 @ EncodeName service @ AppendBE16 kTypePTR @ AppendBE16 kClassIN @ []"
    by (simp add: buf_def BuildQuery_def)
  note b2 = drop_at [OF b0] note b4 = drop_at [OF b2] note b6 = drop_at [OF b4]
  note b8 = drop_at [OF b6] note b10 = drop_at [OF b8] note b12 = drop_at [OF b10]
  note q0 = drop_at [OF b12] note q2 = drop_at [OF q0]
  have nums: "ReadBE16 buf 0 = 0" "ReadBE16 buf 2 = kFlagsQuery" "ReadBE16 buf 4 = 1"
    "ReadBE16 buf 6 = 0" "ReadBE16 buf 8 = 0" "ReadBE16 buf 10 = 0"
    "ReadBE16 buf (12 + length (EncodeName service)) = kTypePTR"
    "ReadBE16 buf (14 + length (EncodeName service)) = kClassIN"
    using ReadBE16_at [OF b0] ReadBE16_at [OF b2] ReadBE16_at [OF b4] ReadBE16_at [OF b6]
      ReadBE16_at [OF b8] ReadBE16_at [OF b10] ReadBE16_at [OF q0] ReadBE16_at [OF q2]
    by (simp_all del: add_2_eq_Suc add_2_eq_Suc')
  have name: "DecodeName buf (length buf) 12 = Some (length (EncodeName service), service)"
    by (rule DecodeName_good [OF assms(1)]) (use b12 in \<open>simp del: add_2_eq_Suc add_2_eq_Suc'\<close>)
  have len: "length buf = 12 + length (EncodeName service) + 4" by (simp add: buf_def BuildQuery_def)
  have "\<not> length buf < 12 + length (EncodeName service) + 4" using len by simp
  then have q: "ParseQuestions buf (length buf) 12 (Suc 0) =
      Some ([\<lparr>q_name = service, q_qtype = kTypePTR, q_qclass = kClassIN\<rparr>], 12 + length (EncodeName service) + 4)"
    by (subst ParseQuestions.simps, subst name) (simp add: nums Let_def del: add_2_eq_Suc add_2_eq_Suc')
  have "\<not> length buf < 12" using len by simp
  then show ?thesis unfolding Parse_def nums by (simp add: q del: ParseQuestions.simps)
qed

lemma ParseRecords_within:
  "ParseRecords d len offset n = Some (rs, offset') \<Longrightarrow> len \<le> length d \<Longrightarrow>
    \<forall>r \<in> set rs. r_rdataOffset r + length (r_rdata r) \<le> len \<and>
      r_rdata r = take (length (r_rdata r)) (drop (r_rdataOffset r) d)"
proof (induction n arbitrary: offset rs)
  case (Suc n)
  then show ?case
    by (fastforce simp: Let_def min_def split: option.splits prod.splits if_splits)
qed simp

lemma Parse_within:
  assumes "Parse d len = Some msg" "len \<le> length d" "r \<in> set (m_answers msg @ m_authorities msg @ m_additionals msg)"
  shows "r_rdataOffset r + length (r_rdata r) \<le> len \<and> r_rdata r = take (length (r_rdata r)) (drop (r_rdataOffset r) d)"
  using assms by (auto simp: Parse_def dest!: ParseRecords_within split: option.splits prod.splits if_splits)

text \<open>A label of 64 bytes or more leaves no trace in the encoded name.\<close>

lemma EncodeName_drops:
  assumes "CHR ''.'' \<notin> set label" "64 \<le> length label"
  shows "EncodeName (label @ CHR ''.'' # rest) = EncodeName rest"
proof -
  have "takeWhile (\<lambda>c. c \<noteq> CHR ''.'') (label @ CHR ''.'' # rest) = label"
    using assms(1) by (auto simp: takeWhile_append)
  then show ?thesis using assms(2) by (subst EncodeName.simps) (simp add: Let_def)
qed

lemma AppendRecord_rename: "EncodeName (o_name rec) = EncodeName n \<Longrightarrow> AppendRecord rec = AppendRecord (rec\<lparr>o_name := n\<rparr>)"
  by (simp add: AppendRecord_def)

lemma dropped_label_packet:
  assumes "CHR ''.'' \<notin> set name" "64 \<le> length name" "length name \<le> 250" "good_name service"
    and "i_instance (rs_Info r) = name" "i_hostname (rs_Info r) = name @ ''.local''" "i_address (rs_Info r) = []"
    and "rs_Service r = service" "length service \<le> 255"
  shows "\<exists>msg. Parse (AnnouncePacket r) (length (AnnouncePacket r)) = Some msg \<and>
    list_all2 (carries (AnnouncePacket r)) [announced_ptr r, (announced_srv r)\<lparr>o_name := service\<rparr>,
      (announced_txt r)\<lparr>o_name := service\<rparr>] (m_answers msg @ m_additionals msg)"
proof -
  let ?more = "[(announced_srv r)\<lparr>o_name := service\<rparr>, (announced_txt r)\<lparr>o_name := service\<rparr>]"
  have k: "EncodeName (InstanceFqdn r) = EncodeName service"
    using EncodeName_drops [OF assms(1,2)] assms(5,8) by (simp add: InstanceFqdn_def)
  have "AnnouncePacket r = BuildResponse [announced_ptr r] ?more"
    using AppendRecord_rename [of "announced_srv r" service] AppendRecord_rename [of "announced_txt r" service] k assms(7)
    by (simp add: AnnouncePacket_def BuildResponse_def announced_a_def announced_srv_def announced_txt_def)
  moreover have "length (announced_attributes (rs_Info r)) \<le> 6" by (simp add: announced_attributes_def)
  then have "length (MakeTxt (announced_attributes (rs_Info r))) < 65536"
    using length_MakeTxt [of "announced_attributes (rs_Info r)"] by linarith
  moreover have "length (MakePtr (InstanceFqdn r)) < 65536"
    using length_EncodeName [of service] assms(9) by (simp add: MakePtr_def k)
  moreover have "length (MakeSrv 0 0 (i_port (rs_Info r)) (i_hostname (rs_Info r))) < 65536"
    using length_EncodeName [of "i_hostname (rs_Info r)"] assms(3,6) by (simp add: MakeSrv_def)
  ultimately show ?thesis
    using packet_carries [of "[announced_ptr r]" ?more] assms(4,8)
    by (auto simp: good_record_def announced_ptr_def announced_srv_def announced_txt_def)
qed

lemma dropped_label_pass:
  assumes rs: "list_all2 (carries buf) [announced_ptr r, (announced_srv r)\<lparr>o_name := service\<rparr>,
      (announced_txt r)\<lparr>o_name := service\<rparr>] rs"
    and "EncodeName (InstanceFqdn r) = EncodeName service" "good_name service" "rs_Service r = service"
  shows "\<exists>f. fold (ingest_record service buf (length buf) nowMs) rs s = touch service service f s \<and>
    (\<forall>p. p_port (f p) = p_port p \<and> p_hostname (f p) = p_hostname p \<and> p_addresses (f p) = p_addresses p)"
proof -
  obtain r1 r2 r3 where split: "rs = [r1, r2, r3]" and c1: "carries buf (announced_ptr r) r1"
    and c2: "carries buf ((announced_srv r)\<lparr>o_name := service\<rparr>) r2" and c3: "carries buf ((announced_txt r)\<lparr>o_name := service\<rparr>) r3"
    using rs by (auto simp: list_all2_Cons1)
  have ptr: "DecodePtr buf (length buf) r1 = Some service"
    using c1 DecodePtr_back [OF assms(3), of r1 buf] assms(2) by (auto simp: carries_def announced_ptr_def MakePtr_def)
  have "\<not> EndsWith service (CHR ''.'' # service)" by (simp add: EndsWith_def)
  then have "fold (ingest_record service buf (length buf) nowMs) rs s = touch service service (refresh nowMs r1) s"
    using c1 c2 c3 ptr assms(4)
    by (simp add: split ingest_record_def carries_def announced_ptr_def announced_srv_def announced_txt_def rr_types
        kPtrTtl_def Let_def)
  then show ?thesis by (intro exI [of _ "refresh nowMs r1"]) (simp add: refresh_def)
qed

section \<open>The properties\<close>

text \<open>
  C17: No byte past a received packet is read: what the parser and the decoders of names and targets
  return depends on the first \<open>len\<close> bytes only, whatever lies behind them, through any chain of
  compression pointers.
\<close>

theorem mdns_reads_in_packet:
  "(take len d = take len d' \<longrightarrow> Parse d len = Parse d' len \<and> DecodeName d len offset = DecodeName d' len offset \<and>
     DecodePtr d len rec = DecodePtr d' len rec \<and> DecodeSrv d len rec = DecodeSrv d' len rec) \<and>
   (Parse d len = Some msg \<and> len \<le> length d \<longrightarrow>
     (\<forall>r \<in> set (m_answers msg @ m_authorities msg @ m_additionals msg).
        r_rdataOffset r + length (r_rdata r) \<le> len \<and> r_rdata r = take (length (r_rdata r)) (drop (r_rdataOffset r) d)))"
  using Parse_agree [of len d d'] DecodeName_agree [of len d d'] Decode_agree [of len d d'] Parse_within [of d len msg]
  by blast

text \<open>
  A built packet parses back: a responder's answer gives a response whose records carry the
  names, types, lifetimes and data they were built with, in order, and a browser's query gives the
  one question it asks.
\<close>

theorem mdns_packet_roundtrip:
  assumes "\<forall>rec \<in> set (answers @ additionals). good_record rec" "good_name service"
    and "length answers < 2 ^ 16" "length additionals < 2 ^ 16"
  defines "buf \<equiv> BuildResponse answers additionals" and "query \<equiv> BuildQuery service"
  shows "(\<exists>msg. Parse buf (length buf) = Some msg \<and> IsResponse (m_flags msg) \<and> m_questions msg = [] \<and>
      list_all2 (carries buf) (answers @ additionals) (m_answers msg @ m_additionals msg)) \<and>
    map_option m_questions (Parse query (length query)) =
      Some [\<lparr>q_name = service, q_qtype = kTypePTR, q_qclass = kClassIN\<rparr>]"
proof -
  obtain msg where msg: "Parse buf (length buf) = Some msg"
    "list_all2 (carries buf) (answers @ additionals) (m_answers msg @ m_additionals msg)"
    using packet_carries [OF assms(1,3,4)] unfolding buf_def by blast
  have "m_flags msg = kFlagsResponse" "m_questions msg = []"
    using trans [OF msg(1) [symmetric] Parse_BuildResponse [OF assms(1,3,4), folded buf_def]] by simp_all
  then show ?thesis
    using msg Parse_BuildQuery [OF assms(2)] by (simp add: query_def IsResponse_def kFlagsResponse_def)
qed

text \<open>
  C18: The observer is never lied to. Whatever datagrams arrive and however the clock moves, for each
  peer the calls are found, then any number of updates, then lost, and found only with a port and
  an address; and the snapshot other threads read has at every moment exactly the announced peers
  of the browser's table, up to their expiry.
\<close>

theorem observer_in_order:
  "case Bricola_Run self start us of (b, sent, events) \<Rightarrow>
     in_order [] events \<and> mirrors (b_Snapshot b) (announced (t_Peers (w_Table (b_Browser b))))"
proof -
  obtain b0 first where start: "Bricola_Start self start = (b0, first)" by fastforce
  obtain b sent events where loop: "Bricola_loop b0 us = (b, sent, events)" by (cases "Bricola_loop b0 us") auto
  have "Bricola_ok b" "in_order [] events"
    using Bricola_loop_ok [OF _ loop] Bricola_Start_ok [of self start] by (simp_all add: start)
  then show ?thesis by (simp add: Bricola_Run_def start loop Bricola_ok_def Browser_known_def)
qed

text \<open>
  Peers leave for a reason, and then they do. A goodbye record removes its peer, a tick removes
  every peer past its time, and no peer is reported lost that did neither say goodbye in the packet
  nor outlive its records.
\<close>

theorem peers_leave_for_a_reason:
  assumes "keyed (t_Peers t)" "Parse buf len = Some msg"
    and "Ingest t buf len srcIp nowMs = (t1, evs1)" "Expire t nowMs = (t2, evs2)"
  defines "goodbye \<equiv> \<lambda>k. \<exists>r \<in> set (m_answers msg @ m_additionals msg). goodbye_for (t_Service t) buf len r k"
  shows "(\<forall>k. goodbye k \<longrightarrow> map_of (t_Peers t1) k = None) \<and> (\<forall>p. PeerLost p \<in> set evs1 \<longrightarrow> goodbye (p_key p)) \<and>
    (\<forall>k e. map_of (t_Peers t2) k = Some e \<longrightarrow> nowMs < p_expiresAtMs (e_peer e)) \<and>
    (\<forall>p. PeerLost p \<in> set evs2 \<longrightarrow> p_expiresAtMs p \<le> nowMs)"
  using Ingest_goodbyes [OF assms(1,3,2)] Expire_result [OF assms(4)] by (auto simp: goodbye_def)

text \<open>
  Two nodes find each other. A node that has a port answers a browser's query with its
  announcement; and a table that tracks the service and takes the announcement in has the node as
  an announced peer with its port, host, label and attributes, for as long as the announcement
  says, reported found if it was not known; at the announced address, or at the sender's if the
  announcement has none and nothing else was known of the host.
\<close>

theorem announced_node_found:
  assumes "announceable r ip" "keyed (t_Peers t)" "t_Service t = rs_Service r" "srcIp \<noteq> []"
    and "Ingest t (AnnouncePacket r) (length (AnnouncePacket r)) srcIp nowMs = (t', evs)"
  defines "query \<equiv> BuildQuery (rs_Service r)" and "info \<equiv> rs_Info r" and "k \<equiv> InstanceFqdn r"
  shows "ResponseTo r query (length query) = AnnouncePacket r \<and>
    (\<exists>p. announced (t_Peers t') k = Some p \<and> p_port p = i_port info \<and> p_hostname p = i_hostname info \<and>
      p_instance p = i_instance info \<and> p_protocolVersion p = i_protocolVersion info \<and> p_bfsAttrs p = i_bfsAttrs info \<and>
      (i_caps info \<noteq> [] \<longrightarrow> p_caps p = i_caps info) \<and>
      (i_fingerprintHex info \<noteq> [] \<longrightarrow> p_fingerprintHex p = i_fingerprintHex info) \<and>
      nowMs + 4500000 \<le> p_expiresAtMs p \<and> (i_address info \<noteq> [] \<longrightarrow> i_address info \<in> set (p_addresses p)) \<and>
      (map_of (t_Peers t) k = None \<longrightarrow> evs = [PeerFound p] \<and>
        (i_address info = [] \<and> map_of (t_HostAddrs t) (Lower (i_hostname info)) = None \<longrightarrow> p_addresses p = [srcIp])))"
proof -
  obtain p where p: "announced (t_Peers t') k = Some p"
    "p = (described r nowMs (e_peer (entry_at (rs_Service r) (t_Peers t) k)))\<lparr>p_addresses := p_addresses p\<rparr>"
    "i_address info \<noteq> [] \<Longrightarrow> i_address info \<in> set (p_addresses p)"
    "i_address info = [] \<Longrightarrow> map_of (t_HostAddrs t) (Lower (i_hostname info)) = None \<Longrightarrow>
      p_addresses (e_peer (entry_at (rs_Service r) (t_Peers t) k)) = [] \<Longrightarrow> p_addresses p = [srcIp]"
    "\<not> e_announced (entry_at (rs_Service r) (t_Peers t) k) \<Longrightarrow> evs = [PeerFound p]"
    using announcement_ingested [OF assms(1-3,5,4)] unfolding k_def info_def by metis
  have new: "e_peer (entry_at (rs_Service r) (t_Peers t) k) = new_peer (rs_Service r) k"
    "\<not> e_announced (entry_at (rs_Service r) (t_Peers t) k)" if "map_of (t_Peers t) k = None"
    using that by (simp_all add: entry_at_def)
  have "ResponseTo r query (length query) = AnnouncePacket r"
    using assms(1) Parse_BuildQuery [of "rs_Service r"]
    by (simp add: ResponseTo_def query_def announceable_def IsResponse_def kFlagsQuery_def asks_for_def kClassIN_def)
  moreover have "p_port p = i_port info \<and> p_hostname p = i_hostname info \<and>
      p_instance p = i_instance info \<and> p_protocolVersion p = i_protocolVersion info \<and> p_bfsAttrs p = i_bfsAttrs info \<and>
      (i_caps info \<noteq> [] \<longrightarrow> p_caps p = i_caps info) \<and>
      (i_fingerprintHex info \<noteq> [] \<longrightarrow> p_fingerprintHex p = i_fingerprintHex info) \<and> nowMs + 4500000 \<le> p_expiresAtMs p"
    by (subst (1 2 3 4 5 6 7 8) p(2)) (simp add: described_def Let_def info_def)
  ultimately show ?thesis using p(1,3-5) new by (auto simp: new_peer_def)
qed

text \<open>
  A peer that moves keeps its old address in front. However a node announces its new address, in
  an address record with the cache-flush bit or by the sender of its packets, the addresses the
  table had for it stay before any new one, and clients take the first.
\<close>

theorem moved_node_keeps_old_address:
  assumes "announceable r ip" "keyed (t_Peers t)" "t_Service t = rs_Service r" "srcIp \<noteq> []"
    and "Ingest t (AnnouncePacket r) (length (AnnouncePacket r)) srcIp nowMs = (t', evs)"
    and "announced (t_Peers t) (InstanceFqdn r) = Some old" "p_addresses old \<noteq> []"
  shows "\<exists>new. announced (t_Peers t') (InstanceFqdn r) = Some new \<and> hd (p_addresses new) = hd (p_addresses old)"
proof -
  have "e_peer (entry_at (rs_Service r) (t_Peers t) (InstanceFqdn r)) = old"
    using assms(6) by (auto simp: entry_at_def announced_def split: option.splits if_splits)
  then obtain new zs where "announced (t_Peers t') (InstanceFqdn r) = Some new" "p_addresses new = p_addresses old @ zs"
    using announcement_ingested [OF assms(1-3,5,4)] by metis
  then show ?thesis using assms(7) by simp
qed

text \<open>
  A node whose name is one label of 64 bytes or more is never discovered. The encoder drops the
  label without an error; the announcement then names the service itself, and a table that hears
  it knows no more of the node than before, a fresh one nothing at all.
\<close>

theorem long_name_never_discovered:
  assumes "CHR ''.'' \<notin> set name" "64 \<le> length name" "length name \<le> 250" "good_name service"
    and "i_instance (rs_Info r) = name" "i_hostname (rs_Info r) = name @ ''.local''" "i_address (rs_Info r) = []"
    and "rs_Service r = service" "length service \<le> 255"
    and "keyed (t_Peers t)" "t_Service t = service"
    and "Ingest t (AnnouncePacket r) (length (AnnouncePacket r)) srcIp nowMs = (t', evs)"
  shows "map_of (t_Peers t') (InstanceFqdn r) = map_of (t_Peers t) (InstanceFqdn r) \<and>
    (t_Peers t = [] \<longrightarrow> evs = [] \<and> Peers t' = [])"
proof -
  define k where "k = InstanceFqdn r"
  have k: "k = name @ CHR ''.'' # service" using assms by (simp add: k_def InstanceFqdn_def)
  obtain msg where msg: "Parse (AnnouncePacket r) (length (AnnouncePacket r)) = Some msg"
    and rs: "list_all2 (carries (AnnouncePacket r)) [announced_ptr r, (announced_srv r)\<lparr>o_name := service\<rparr>,
      (announced_txt r)\<lparr>o_name := service\<rparr>] (m_answers msg @ m_additionals msg)"
    using dropped_label_packet [OF assms(1-9)] by blast
  define rs where "rs = m_answers msg @ m_additionals msg"
  define s where "s = fold (ingest_record service (AnnouncePacket r) (length (AnnouncePacket r)) nowMs) rs
      \<lparr>s_peers = t_Peers t, s_touched = [], s_removed = [], s_before = []\<rparr>"
  obtain f where f: "s = touch service service f \<lparr>s_peers = t_Peers t, s_touched = [], s_removed = [], s_before = []\<rparr>"
    and port: "\<And>p. p_port (f p) = p_port p \<and> p_hostname (f p) = p_hostname p \<and> p_addresses (f p) = p_addresses p"
    using dropped_label_pass [OF rs [folded rs_def], of nowMs] EncodeName_drops [OF assms(1,2), of service] assms(4,8) k
    by (auto simp: s_def k_def)
  have s: "s_removed s = []" "s_touched s = [service]" by (simp_all add: f touch_touched)
  obtain told where told: "publish_all (fold harvest rs (t_HostAddrs t)) srcIp (s_before s) [service] (s_peers s) = (t_Peers t', told)"
    "evs = told"
    using Ingest_parts [OF assms(12) msg assms(10)] s
    by (auto simp: assms(11) rs_def [symmetric] s_def [symmetric])
  have "k \<noteq> service" using k by (metis length_append length_Cons not_add_less2 lessI add_Suc_right)
  then have "map_of (t_Peers t') k = map_of (t_Peers t) k"
    using publish_all_result [OF told(1), of k] by (simp add: f touch_peers)
  moreover have "evs = [] \<and> Peers t' = []" if "t_Peers t = []"
  proof -
    have "\<exists>e. [(service, e)] = t_Peers t' \<and> \<not> e_announced e \<and> told = []"
      using told(1) that port by (auto simp: f touch_def new_peer_def publish_one_def Publish_def settle_def
        AttachAddresses_def connectable_def Let_def)
    then obtain e where e: "[(service, e)] = t_Peers t'" "\<not> e_announced e" "told = []" by blast
    then show ?thesis using told(2) by (simp add: Peers_def e(1) [symmetric])
  qed
  ultimately show ?thesis by (simp add: k_def)
qed

section \<open>Witnesses\<close>

text \<open>A node as the daemon announces it, without an address of its own.\<close>

definition studio :: Responder where
  "studio = \<lparr>rs_Info = \<lparr>i_instance = ''Studio'', i_hostname = ''Studio.local'', i_address = [], i_port = 4242,
       i_protocolVersion = 1, i_bfsAttrs = True, i_caps = [], i_fingerprintHex = ''ab''\<rparr>,
     rs_Service = kCampielloService\<rparr>"

definition studio_key :: string where
  "studio_key = ''Studio._campiello._tcp.local''"

definition studio_known :: PeerTable where
  "studio_known = \<lparr>t_Service = kCampielloService,
     t_Peers = [(studio_key, \<lparr>e_peer = (new_peer kCampielloService studio_key)\<lparr>p_port := 4242, p_addresses := [''10.0.0.7'']\<rparr>,
       e_announced = True\<rparr>)], t_HostAddrs = []\<rparr>"

lemma studio_names:
  "good_name kCampielloService" "good_name studio_key" "good_name ''Studio.local''" "good_name ''local''"
  by code_simp+

lemma studio_fqdn: "InstanceFqdn studio = studio_key"
  by (simp add: InstanceFqdn_def studio_def studio_key_def kCampielloService_def)

lemma studio_announceable: "announceable studio None"
  using studio_names
  by (simp add: announceable_def studio_fqdn) (simp add: studio_def studio_key_def)

theorem mdns_reads_in_packet_witness:
  "Parse (replicate 12 0 @ [1]) 12 = Parse (replicate 12 0) 12 \<and> Parse (replicate 12 0) 12 \<noteq> None"
proof -
  have "Parse (replicate 12 0) 12 \<noteq> None" by code_simp
  then show ?thesis
    using mdns_reads_in_packet [of 12 "replicate 12 0 @ [1]" "replicate 12 0"] by simp
qed

end
