(* ===== verification/Backend.thy ===== *)
theory Backend
  imports ServerConnection Dispatch
begin

text \<open>
  The client half of native mode: \<open>fondamenta/backend/CnpBackend.cpp\<close>, which turns each file
  operation into a request and its reply into a result, and \<open>LiveQueryClient.cpp\<close>. The operations
  take \<open>fClient.Request\<close> as a parameter, a function of a frame and the channel's state.
\<close>

section \<open>Results\<close>

datatype BackendStatus = S_Ok | S_NotFound | S_AccessDenied | S_NotADirectory | S_IsADirectory | S_Unsupported
  | S_IoError | S_BadHandle | S_InvalidRequest | S_TransportError | S_ProtocolError

text \<open>A status other than \<open>S_Ok\<close>, or what the output parameters get with \<open>S_Ok\<close>.\<close>

type_synonym 'a outcome = "BackendStatus + 'a"

type_synonym 'c requesting = "Frame \<Rightarrow> 'c \<Rightarrow> Frame option \<times> 'c"

definition FromErrorCode :: "u32 \<Rightarrow> BackendStatus" where
  "FromErrorCode code =
    (if code = kNotFound then S_NotFound
     else if code = kAccessDenied then S_AccessDenied
     else if code = kNotADirectory then S_NotADirectory
     else if code = kIsADirectory then S_IsADirectory
     else if code = kUnsupported then S_Unsupported
     else if code = kIOError then S_IoError
     else if code = kBadHandle then S_BadHandle
     else if code = kInvalidRequest then S_InvalidRequest
     else S_IoError)"

definition FromErrorFrame :: "Frame \<Rightarrow> BackendStatus" where
  "FromErrorFrame frame = (case DecodeError (fr_payload frame) of
     None \<Rightarrow> S_ProtocolError
   | Some reply \<Rightarrow> FromErrorCode (er_code reply))"

text \<open>The steps every operation takes: ask, and look at the reply's type and payload.\<close>

definition Exchange :: "'c requesting \<Rightarrow> Frame \<Rightarrow> message_type \<Rightarrow> (bytes \<Rightarrow> 'a option) \<Rightarrow> 'c \<Rightarrow> 'a outcome \<times> 'c" where
  "Exchange Request request expected decode c = (case Request request c of
     (None, c) \<Rightarrow> (Inl S_TransportError, c)
   | (Some reply, c) \<Rightarrow>
       (if fr_type reply = kError then Inl (FromErrorFrame reply)
        else if fr_type reply \<noteq> expected then Inl S_ProtocolError
        else case decode (fr_payload reply) of None \<Rightarrow> Inl S_ProtocolError | Some a \<Rightarrow> Inr a, c))"

section \<open>CnpBackend\<close>

definition Backend_Hello :: "'c requesting \<Rightarrow> NodeIdentity \<Rightarrow> 'c \<Rightarrow> NodeIdentity outcome \<times> 'c" where
  "Backend_Hello Request self = Exchange Request (MakeHello self 0) kWelcome DecodeNodeIdentity"

definition Backend_Stat :: "'c requesting \<Rightarrow> string \<Rightarrow> 'c \<Rightarrow> Entry outcome \<times> 'c" where
  "Backend_Stat Request path = Exchange Request (MakeStatRequest path 0) kStat DecodeStatReply"

definition Backend_ReadDir :: "'c requesting \<Rightarrow> string \<Rightarrow> 'c \<Rightarrow> Entry list outcome \<times> 'c" where
  "Backend_ReadDir Request path = Exchange Request (MakeListRequest path 0) kList DecodeListing"

definition Backend_Open :: "'c requesting \<Rightarrow> string \<Rightarrow> 'c \<Rightarrow> (u64 \<times> u64) outcome \<times> 'c" where
  "Backend_Open Request path = Exchange Request (MakeOpenRequest path kOpenRead 0) kOpen DecodeOpenReply"

definition Backend_Read :: "'c requesting \<Rightarrow> u64 \<Rightarrow> u64 \<Rightarrow> u32 \<Rightarrow> 'c \<Rightarrow> bytes outcome \<times> 'c" where
  "Backend_Read Request handle off len = Exchange Request (MakeReadRequest handle off len 0) kRead DecodeReadReply"

definition Ack :: "'c requesting \<Rightarrow> Frame \<Rightarrow> message_type \<Rightarrow> 'c \<Rightarrow> unit outcome \<times> 'c" where
  "Ack Request request expected = Exchange Request request expected (\<lambda>payload. if DecodeOk payload then Some () else None)"

definition Backend_Close :: "'c requesting \<Rightarrow> u64 \<Rightarrow> 'c \<Rightarrow> unit outcome \<times> 'c" where
  "Backend_Close Request handle = Ack Request (MakeCloseRequest handle 0) kClose"

definition Backend_OpenWrite :: "'c requesting \<Rightarrow> string \<Rightarrow> 'c \<Rightarrow> u64 outcome \<times> 'c" where
  "Backend_OpenWrite Request path =
     Exchange Request (MakeOpenRequest path kOpenWrite 0) kOpen (\<lambda>payload. map_option fst (DecodeOpenReply payload))"

definition Backend_Write :: "'c requesting \<Rightarrow> u64 \<Rightarrow> u64 \<Rightarrow> bytes \<Rightarrow> 'c \<Rightarrow> u64 outcome \<times> 'c" where
  "Backend_Write Request handle off dat = Exchange Request (MakeWriteRequest handle off dat 0) kWrite DecodeWriteReply"

definition Backend_Mkdir :: "'c requesting \<Rightarrow> string \<Rightarrow> u32 \<Rightarrow> 'c \<Rightarrow> unit outcome \<times> 'c" where
  "Backend_Mkdir Request path mode = Ack Request (MakeMkdirRequest path mode 0) kMkdir"

definition Backend_Unlink :: "'c requesting \<Rightarrow> string \<Rightarrow> 'c \<Rightarrow> unit outcome \<times> 'c" where
  "Backend_Unlink Request path = Ack Request (MakeUnlinkRequest path 0) kUnlink"

definition Backend_Rename :: "'c requesting \<Rightarrow> string \<Rightarrow> string \<Rightarrow> 'c \<Rightarrow> unit outcome \<times> 'c" where
  "Backend_Rename Request src dst = Ack Request (MakeRenameRequest src dst 0) kRename"

definition Backend_Truncate :: "'c requesting \<Rightarrow> string \<Rightarrow> u64 \<Rightarrow> 'c \<Rightarrow> unit outcome \<times> 'c" where
  "Backend_Truncate Request path sz = Ack Request (MakeTruncateRequest path sz 0) kTruncate"

definition Backend_ReadAttrs :: "'c requesting \<Rightarrow> string \<Rightarrow> 'c \<Rightarrow> AttrSet outcome \<times> 'c" where
  "Backend_ReadAttrs Request path = Exchange Request (MakeReadAttrsRequest path 0) kReadAttrs DecodeReadAttrsReply"

definition Backend_WriteAttrs :: "'c requesting \<Rightarrow> string \<Rightarrow> AttrSet \<Rightarrow> 'c \<Rightarrow> unit outcome \<times> 'c" where
  "Backend_WriteAttrs Request path attrs = Ack Request (MakeWriteAttrsRequest path attrs 0) kWriteAttrs"

text \<open>\<open>Query\<close> numbers its queries; its close is sent whatever the peer answers to it.\<close>

record CnpBackend =
  fNextQueryId :: u64

definition CnpBackend :: CnpBackend where
  "CnpBackend = \<lparr>fNextQueryId = 1\<rparr>"

definition Backend_Query :: "'c requesting \<Rightarrow> string \<Rightarrow> CnpBackend \<Rightarrow> 'c \<Rightarrow> Entry list outcome \<times> CnpBackend \<times> 'c" where
  "Backend_Query Request predicate b c =
    (let queryId = fNextQueryId b; b = b\<lparr>fNextQueryId := queryId + 1\<rparr> in
     case Exchange Request (MakeQueryOpenRequest queryId predicate 0) kQueryResult
       (\<lambda>payload. case DecodeQueryResultReply payload of
          None \<Rightarrow> None | Some (replyId, out, fin) \<Rightarrow> if replyId \<noteq> queryId then None else Some out) c of
       (Inl status, c) \<Rightarrow> (Inl status, b, c)
     | (Inr out, c) \<Rightarrow> (Inr out, b, snd (Request (MakeQueryCloseRequest queryId 0) c)))"

section \<open>LiveQueryClient\<close>

text \<open>
  The channel is the list of frames \<open>Receive\<close> yields before it fails. \<open>lq_fOpen\<close> is set while the
  receive thread runs.
\<close>

record LiveQueryClient =
  lq_fQueryId :: u64
  lq_fOpen :: bool

definition LiveQueryClient :: "u64 \<Rightarrow> LiveQueryClient" where
  "LiveQueryClient queryId = \<lparr>lq_fQueryId = queryId, lq_fOpen = False\<rparr>"

text \<open>The loop that collects the initial results; \<open>None\<close> for each \<open>return false\<close>.\<close>

fun collect :: "u64 \<Rightarrow> Entry list \<Rightarrow> Frame list \<Rightarrow> (Entry list \<times> Frame list) option" where
  "collect queryId initial [] = None"
| "collect queryId initial (frame # channel) =
    (if fr_type frame = kError then None
     else if fr_type frame \<noteq> kQueryResult then collect queryId initial channel
     else case DecodeQueryResultReply (fr_payload frame) of
       None \<Rightarrow> None
     | Some (replyId, batch, fin) \<Rightarrow>
         if replyId \<noteq> queryId then None
         else if fin then Some (initial @ batch, channel)
         else collect queryId (initial @ batch) channel)"

definition Live_Open :: "LiveQueryClient \<Rightarrow> string \<Rightarrow> bool \<Rightarrow> Frame list \<Rightarrow>
    Frame list \<times> (Entry list \<times> Frame list) option \<times> LiveQueryClient" where
  "Live_Open q predicate sent channel =
    (if lq_fOpen q then ([], None, q)
     else let request = MakeQueryOpenRequest (lq_fQueryId q) predicate 0 in
       if \<not> sent then ([request], None, q)
       else case collect (lq_fQueryId q) [] channel of
         None \<Rightarrow> ([request], None, q)
       | Some (initial, channel) \<Rightarrow> ([request], Some (initial, channel), q\<lparr>lq_fOpen := True\<rparr>))"

text \<open>The receive thread: the updates its callback gets from the frames that arrive before the close.\<close>

fun ReceiveLoop :: "u64 \<Rightarrow> Frame list \<Rightarrow> (bool \<times> Entry) list" where
  "ReceiveLoop queryId [] = []"
| "ReceiveLoop queryId (frame # channel) =
    (if fr_type frame \<noteq> kQueryUpdate then ReceiveLoop queryId channel
     else case DecodeQueryUpdate (fr_payload frame) of
       None \<Rightarrow> ReceiveLoop queryId channel
     | Some (replyId, added, entry) \<Rightarrow>
         if replyId \<noteq> queryId then ReceiveLoop queryId channel
         else (added, entry) # ReceiveLoop queryId channel)"

definition Live_Close :: "LiveQueryClient \<Rightarrow> Frame list \<times> LiveQueryClient" where
  "Live_Close q = (if \<not> lq_fOpen q then ([], q)
     else ([MakeQueryCloseRequest (lq_fQueryId q) 0], q\<lparr>lq_fOpen := False\<rparr>))"

section \<open>What the backend relies on\<close>

text \<open>The payloads a client decodes, by the type of the reply.\<close>

definition decodable :: "message_type \<Rightarrow> bytes \<Rightarrow> bool" where
  "decodable t payload \<longleftrightarrow>
    (t = kError \<longrightarrow> DecodeError payload \<noteq> None) \<and> (t = kOpen \<longrightarrow> DecodeOpenReply payload \<noteq> None) \<and>
    (t = kRead \<longrightarrow> DecodeReadReply payload \<noteq> None) \<and> (t = kWrite \<longrightarrow> DecodeWriteReply payload \<noteq> None) \<and>
    (t \<in> {kClose, kMkdir, kUnlink, kRename, kTruncate, kWriteAttrs} \<longrightarrow> DecodeOk payload)"

definition good_answer :: "message_type \<Rightarrow> Frame \<Rightarrow> bool" where
  "good_answer t reply \<longleftrightarrow> reply_for (answer_type t) reply \<and> decodable (fr_type reply) (fr_payload reply)"

text \<open>A result, or an error the peer reported.\<close>

definition understood :: "'a outcome \<Rightarrow> bool" where
  "understood r \<longleftrightarrow> r \<noteq> Inl S_TransportError \<and> r \<noteq> Inl S_ProtocolError"

text \<open>A peer that answers every request, with a reply of the right type whose payload decodes.\<close>

locale answering_peer =
  fixes Request :: "'c requesting" and good :: "'c \<Rightarrow> bool"
  assumes answered: "good c \<Longrightarrow> \<exists>reply. fst (Request request c) = Some reply \<and> good_answer (fr_type request) reply"
    and still_good: "good c \<Longrightarrow> good (snd (Request request c))"
begin

lemma Exchange_fine:
  assumes "good c" "expected = answer_type (fr_type request)" "expected \<noteq> kError"
    and "\<And>payload. decodable expected payload \<Longrightarrow> decode payload \<noteq> None"
  shows "understood (fst (Exchange Request request expected decode c)) \<and>
    good (snd (Exchange Request request expected decode c))"
proof -
  obtain reply where r: "fst (Request request c) = Some reply" "good_answer (fr_type request) reply"
    using answered [OF assms(1)] by blast
  obtain c' where c: "Request request c = (Some reply, c')" using r(1) by (cases "Request request c") auto
  have "good c'" using still_good [OF assms(1), of request] c by simp
  have status: "FromErrorCode e \<notin> {S_TransportError, S_ProtocolError}" for e by (simp add: FromErrorCode_def)
  have type: "fr_type reply = kError \<or> fr_type reply = expected" and dec: "decodable (fr_type reply) (fr_payload reply)"
    using r(2) by (simp_all add: good_answer_def reply_for_def assms(2))
  from type show ?thesis
  proof
    assume e: "fr_type reply = kError"
    then obtain er where "DecodeError (fr_payload reply) = Some er" using dec by (auto simp: decodable_def)
    then show ?thesis using \<open>good c'\<close> status by (simp add: understood_def Exchange_def c e FromErrorFrame_def)
  next
    assume t: "fr_type reply = expected"
    then obtain a where "decode (fr_payload reply) = Some a" using dec assms(4) by blast
    then show ?thesis using \<open>good c'\<close> assms(3) by (simp add: understood_def Exchange_def c t)
  qed
qed

lemma file_operations_fine:
  assumes "good c"
  shows "understood (fst (Backend_Open Request path c))"
    "understood (fst (Backend_OpenWrite Request path c))"
    "understood (fst (Backend_Read Request handle off len c))"
    "understood (fst (Backend_Write Request handle off dat c))"
    "understood (fst (Backend_Close Request handle c))"
    "understood (fst (Backend_Mkdir Request path mode c))"
    "understood (fst (Backend_Unlink Request path c))"
    "understood (fst (Backend_Rename Request src dst c))"
    "understood (fst (Backend_Truncate Request path sz c))"
    "understood (fst (Backend_WriteAttrs Request path attrs c))"
  unfolding Backend_Open_def Backend_OpenWrite_def Backend_Read_def Backend_Write_def Backend_Close_def Backend_Mkdir_def Backend_Unlink_def Backend_Rename_def Backend_Truncate_def Backend_WriteAttrs_def Ack_def
  by (rule Exchange_fine [OF assms, THEN conjunct1];
      simp add: decodable_def message_types answer_type_def mkFrame_def MakeOpenRequest_def MakeReadRequest_def MakeWriteRequest_def MakeCloseRequest_def MakeMkdirRequest_def MakeUnlinkRequest_def MakeRenameRequest_def MakeTruncateRequest_def MakeWriteAttrsRequest_def)+

end

end
