(* ===== verification/Sources.thy ===== *)
theory Sources
  imports Backend Responder
begin

text \<open>
  The interfaces of the discovery file system: \<open>fondamenta/backend/PeerBackend.h\<close> and the \<open>PeerSource\<close>
  of \<open>discovery/PathRouter.h\<close>, as records of their virtual operations over a state of the world, and
  \<open>discovery/BricolaDirectory.cpp\<close>, the list of peers as endpoints with names for the file system.
\<close>

section \<open>PeerBackend\<close>

record 'w PeerBackend =
  v_Stat :: "string \<Rightarrow> 'w \<Rightarrow> Entry outcome \<times> 'w"
  v_ReadDir :: "string \<Rightarrow> 'w \<Rightarrow> Entry list outcome \<times> 'w"
  v_Open :: "string \<Rightarrow> 'w \<Rightarrow> (u64 \<times> u64) outcome \<times> 'w"
  v_Read :: "u64 \<Rightarrow> u64 \<Rightarrow> u32 \<Rightarrow> 'w \<Rightarrow> bytes outcome \<times> 'w"
  v_Close :: "u64 \<Rightarrow> 'w \<Rightarrow> unit outcome \<times> 'w"
  v_OpenWrite :: "string \<Rightarrow> 'w \<Rightarrow> u64 outcome \<times> 'w"
  v_Write :: "u64 \<Rightarrow> u64 \<Rightarrow> bytes \<Rightarrow> 'w \<Rightarrow> u64 outcome \<times> 'w"
  v_Mkdir :: "string \<Rightarrow> u32 \<Rightarrow> 'w \<Rightarrow> unit outcome \<times> 'w"
  v_Unlink :: "string \<Rightarrow> 'w \<Rightarrow> unit outcome \<times> 'w"
  v_Rename :: "string \<Rightarrow> string \<Rightarrow> 'w \<Rightarrow> unit outcome \<times> 'w"
  v_Truncate :: "string \<Rightarrow> u64 \<Rightarrow> 'w \<Rightarrow> unit outcome \<times> 'w"
  v_ReadAttrs :: "string \<Rightarrow> 'w \<Rightarrow> AttrSet outcome \<times> 'w"
  v_WriteAttrs :: "string \<Rightarrow> AttrSet \<Rightarrow> 'w \<Rightarrow> unit outcome \<times> 'w"
  v_Query :: "string \<Rightarrow> 'w \<Rightarrow> Entry list outcome \<times> 'w"

text \<open>A backend that overrides the five read operations only: the others keep their defaults.\<close>

definition reading_backend :: "(string \<Rightarrow> 'w \<Rightarrow> Entry outcome \<times> 'w) \<Rightarrow> (string \<Rightarrow> 'w \<Rightarrow> Entry list outcome \<times> 'w) \<Rightarrow>
    (string \<Rightarrow> 'w \<Rightarrow> (u64 \<times> u64) outcome \<times> 'w) \<Rightarrow> (u64 \<Rightarrow> u64 \<Rightarrow> u32 \<Rightarrow> 'w \<Rightarrow> bytes outcome \<times> 'w) \<Rightarrow>
    (u64 \<Rightarrow> 'w \<Rightarrow> unit outcome \<times> 'w) \<Rightarrow> 'w PeerBackend" where
  "reading_backend stat readdir opn read clos =
    \<lparr>v_Stat = stat, v_ReadDir = readdir, v_Open = opn, v_Read = read, v_Close = clos,
     v_OpenWrite = (\<lambda>path w. (Inl S_Unsupported, w)), v_Write = (\<lambda>handle off dat w. (Inl S_Unsupported, w)),
     v_Mkdir = (\<lambda>path mode w. (Inl S_Unsupported, w)), v_Unlink = (\<lambda>path w. (Inl S_Unsupported, w)),
     v_Rename = (\<lambda>src dst w. (Inl S_Unsupported, w)), v_Truncate = (\<lambda>path sz w. (Inl S_Unsupported, w)),
     v_ReadAttrs = (\<lambda>path w. (Inl S_Unsupported, w)), v_WriteAttrs = (\<lambda>path attrs w. (Inl S_Unsupported, w)),
     v_Query = (\<lambda>predicate w. (Inl S_Unsupported, w))\<rparr>"

text \<open>
  A \<open>PeerSource\<close>: its operations, and the object behind a pointer it gives out, as the operations a
  call through that pointer reaches. \<open>None\<close> is \<open>nullptr\<close>.
\<close>

record ('b, 'w) PeerSource =
  o_PeerNames :: "'w \<Rightarrow> string list \<times> 'w"
  o_BackendFor :: "string \<Rightarrow> 'w \<Rightarrow> 'b option \<times> 'w"
  o_deref :: "'b \<Rightarrow> 'w PeerBackend"

section \<open>BricolaDirectory\<close>

record PeerEndpoint =
  ep_name :: string
  ep_address :: string
  ep_port :: u16

definition name_char :: "char \<Rightarrow> bool" where
  "name_char c \<longleftrightarrow> (let u = (of_char c :: nat) in
     (97 \<le> u \<and> u \<le> 122) \<or> (65 \<le> u \<and> u \<le> 90) \<or> (48 \<le> u \<and> u \<le> 57) \<or>
     c = CHR ''-'' \<or> c = CHR ''_'' \<or> c = CHR ''.'' \<or> c = CHR '' '')"

definition SanitizeName :: "string \<Rightarrow> string" where
  "SanitizeName inst =
    (let out = map (\<lambda>c. if name_char c then c else CHR ''-'') inst;
         out = dropWhile (\<lambda>c. c = CHR ''.'') out
     in rev (dropWhile (\<lambda>c. c = CHR '' '') (rev out)))"

definition Endpoint :: "Peer \<Rightarrow> PeerEndpoint option" where
  "Endpoint peer =
    (if p_addresses peer = [] \<or> p_port peer = 0 then None
     else let name = SanitizeName (p_instance peer) in
       if name = [] then None
       else Some \<lparr>ep_name = name, ep_address = p_addresses peer ! 0, ep_port = p_port peer\<rparr>)"

definition Endpoints :: "Bricola \<Rightarrow> PeerEndpoint list" where
  "Endpoints b = List.map_filter Endpoint (Bricola_Peers b)"

text \<open>The names the root directory may show: one component each, and not the query folder.\<close>

definition kQueryDir :: string where "kQueryDir = ''.query''"

definition plain_name :: "string \<Rightarrow> bool" where
  "plain_name name \<longleftrightarrow> name \<noteq> [] \<and> CHR ''/'' \<notin> set name \<and> CHR 0x00 \<notin> set name \<and> hd name \<noteq> CHR ''.''"

lemma name_char_examples: "\<not> name_char CHR ''/''" "\<not> name_char CHR 0x00" "name_char CHR ''-''"
  by code_simp+

lemma name_char_plain: "name_char c \<Longrightarrow> c \<noteq> CHR ''/'' \<and> c \<noteq> CHR 0x00"
  using name_char_examples by metis

lemma dropWhile_rev_prefix: "\<exists>zs. xs = rev (dropWhile P (rev xs)) @ zs"
proof
  show "xs = rev (dropWhile P (rev xs)) @ rev (takeWhile P (rev xs))" by (simp flip: rev_append)
qed

lemma SanitizeName_plain:
  assumes "SanitizeName inst \<noteq> []"
  shows "plain_name (SanitizeName inst)"
proof -
  let ?out = "dropWhile (\<lambda>c. c = CHR ''.'') (map (\<lambda>c. if name_char c then c else CHR ''-'') inst)"
  obtain zs where zs: "?out = SanitizeName inst @ zs"
    using dropWhile_rev_prefix [of ?out "\<lambda>c. c = CHR '' ''"] unfolding SanitizeName_def Let_def by blast
  then have "?out \<noteq> []" using assms by simp
  then have "hd ?out \<noteq> CHR ''.''" by (rule hd_dropWhile)
  then have "hd (SanitizeName inst) \<noteq> CHR ''.''" using assms by (simp add: zs)
  moreover have "name_char c" if "c \<in> set (SanitizeName inst)" for c
  proof -
    have "c \<in> set ?out" using that by (simp only: zs set_append Un_iff simp_thms)
    then have "c \<in> set (map (\<lambda>c. if name_char c then c else CHR ''-'') inst)" by (rule set_dropWhileD)
    then show ?thesis by (auto simp: name_char_examples split: if_splits)
  qed
  ultimately show ?thesis using assms name_char_plain unfolding plain_name_def by blast
qed

lemma Endpoint_plain: "Endpoint peer = Some ep \<Longrightarrow> plain_name (ep_name ep) \<and> ep_address ep \<in> set (p_addresses peer) \<and> ep_port ep \<noteq> 0"
  by (auto simp: Endpoint_def Let_def SanitizeName_plain split: if_splits)

lemma Endpoints_plain: "ep \<in> set (Endpoints b) \<Longrightarrow> plain_name (ep_name ep)"
  by (auto simp: Endpoints_def map_filter_def dest: Endpoint_plain)

end
