(* ===== verification/QueryFolder.thy ===== *)
theory QueryFolder
  imports Sources
begin

text \<open>
  The distributed query of the client: \<open>fondamenta/discovery/QueryAggregator.cpp\<close>, which asks every
  peer and merges the matches, and the names the matches get in the flat query folder.
\<close>

section \<open>AggregateQuery\<close>

record AggregatedEntry =
  ae_peer :: string
  ae_entry :: Entry

definition kDefaultQueryQuota :: nat where "kDefaultQueryQuota = 4096"

definition seen_key :: "string \<Rightarrow> string \<Rightarrow> string" where
  "seen_key peer name = peer @ CHR 0x00 # name"

text \<open>The loop over one peer's matches, and the loop over the peers.\<close>

fun merge_hits :: "nat \<Rightarrow> string \<Rightarrow> Entry list \<Rightarrow> AggregatedEntry list \<times> string std_set \<Rightarrow>
    AggregatedEntry list \<times> string std_set" where
  "merge_hits quota peer [] (out, seen) = (out, seen)"
| "merge_hits quota peer (e # hits) (out, seen) =
    (if length out \<ge> quota then (out, seen)
     else let key = seen_key peer (en_name e) in
       if key \<in> set seen then merge_hits quota peer hits (out, seen)
       else merge_hits quota peer hits (out @ [\<lparr>ae_peer = peer, ae_entry = e\<rparr>], set_put key seen))"

fun merge_peers :: "('b, 'w) PeerSource \<Rightarrow> string \<Rightarrow> nat \<Rightarrow> string list \<Rightarrow>
    AggregatedEntry list \<times> string std_set \<Rightarrow> 'w \<Rightarrow> AggregatedEntry list \<times> 'w" where
  "merge_peers source predicate quota [] (out, seen) w = (out, w)"
| "merge_peers source predicate quota (peer # peers) (out, seen) w =
    (if length out \<ge> quota then (out, w)
     else case o_BackendFor source peer w of
       (None, w) \<Rightarrow> merge_peers source predicate quota peers (out, seen) w
     | (Some backend, w) \<Rightarrow> (case v_Query (o_deref source backend) predicate w of
         (Inl status, w) \<Rightarrow> merge_peers source predicate quota peers (out, seen) w
       | (Inr hits, w) \<Rightarrow> merge_peers source predicate quota peers (merge_hits quota peer hits (out, seen)) w))"

definition AggregateQuery :: "('b, 'w) PeerSource \<Rightarrow> string \<Rightarrow> nat \<Rightarrow> 'w \<Rightarrow> AggregatedEntry list \<times> 'w" where
  "AggregateQuery source predicate quota w =
    (let (names, w) = o_PeerNames source w in merge_peers source predicate quota names ([], []) w)"

section \<open>What it computes\<close>

text \<open>Every match of every peer that answers, in order.\<close>

fun all_hits :: "('b, 'w) PeerSource \<Rightarrow> string \<Rightarrow> string list \<Rightarrow> 'w \<Rightarrow> AggregatedEntry list" where
  "all_hits source predicate [] w = []"
| "all_hits source predicate (peer # peers) w = (case o_BackendFor source peer w of
     (None, w) \<Rightarrow> all_hits source predicate peers w
   | (Some backend, w) \<Rightarrow> (case v_Query (o_deref source backend) predicate w of
       (Inl status, w) \<Rightarrow> all_hits source predicate peers w
     | (Inr hits, w) \<Rightarrow> map (\<lambda>e. \<lparr>ae_peer = peer, ae_entry = e\<rparr>) hits @ all_hits source predicate peers w))"

text \<open>The first of the elements that share a key.\<close>

fun first_by :: "('a \<Rightarrow> 'k) \<Rightarrow> 'k set \<Rightarrow> 'a list \<Rightarrow> 'a list" where
  "first_by key K [] = []"
| "first_by key K (x # xs) = (if key x \<in> K then first_by key K xs else x # first_by key (insert (key x) K) xs)"

lemma first_by_distinct: "distinct (map key (first_by key K xs)) \<and> key ` set (first_by key K xs) \<inter> K = {}"
  by (induction xs arbitrary: K) auto

lemma first_by_complete: "key ` set (first_by key K xs) = key ` set xs - K"
  by (induction xs arbitrary: K) auto

lemma first_by_subset: "set (first_by key K xs) \<subseteq> set xs"
  by (induction xs arbitrary: K) auto

lemma first_by_append: "first_by key K (xs @ ys) = first_by key K xs @ first_by key (K \<union> key ` set xs) ys"
proof (induction xs arbitrary: K)
  case (Cons x xs)
  have "insert (key x) K \<union> key ` set xs = K \<union> insert (key x) (key ` set xs)" by auto
  then show ?case using Cons by (auto simp: insert_absorb)
qed simp

text \<open>Which match it is: the peer it is from and its path there.\<close>

definition hit_key :: "AggregatedEntry \<Rightarrow> string \<times> string" where
  "hit_key a = (ae_peer a, en_name (ae_entry a))"

lemma seen_key_inj:
  "CHR 0x00 \<notin> set p \<Longrightarrow> CHR 0x00 \<notin> set q \<Longrightarrow> seen_key p m = seen_key q n \<longleftrightarrow> p = q \<and> m = n"
proof
  assume p: "CHR 0x00 \<notin> set p" "CHR 0x00 \<notin> set q" and s: "seen_key p m = seen_key q n"
  have t: "takeWhile (\<lambda>c. c \<noteq> CHR 0x00) (seen_key r k) = r" "dropWhile (\<lambda>c. c \<noteq> CHR 0x00) (seen_key r k) = CHR 0x00 # k"
    if "CHR 0x00 \<notin> set r" for r k
    using that by (induction r) (auto simp: seen_key_def)
  show "p = q \<and> m = n" using t [OF p(1), of m] t [OF p(2), of n] s by simp
qed simp

text \<open>The state of the loops: the keys seen are those of a set of matches of peers without NUL.\<close>

definition seen_of :: "string std_set \<Rightarrow> (string \<times> string) set \<Rightarrow> bool" where
  "seen_of seen K \<longleftrightarrow> set seen = (\<lambda>(p, n). seen_key p n) ` K \<and> (\<forall>(p, n) \<in> K. CHR 0x00 \<notin> set p)"

lemma seen_of_in: "seen_of seen K \<Longrightarrow> CHR 0x00 \<notin> set p \<Longrightarrow> seen_key p n \<in> set seen \<longleftrightarrow> (p, n) \<in> K"
  by (force simp: seen_of_def seen_key_inj)

lemma seen_of_put: "seen_of seen K \<Longrightarrow> CHR 0x00 \<notin> set p \<Longrightarrow> seen_of (set_put (seen_key p n) seen) (insert (p, n) K)"
  by (auto simp: seen_of_def)

lemma merge_full: "quota \<le> length out \<Longrightarrow> merge_hits quota peer hits (out, seen) = (out, seen)"
  by (cases hits) simp_all

lemma merge_hits_result:
  assumes "seen_of seen K" "CHR 0x00 \<notin> set peer" "length out \<le> quota"
    and "merge_hits quota peer hits (out, seen) = (out', seen')"
    and "hs = map (\<lambda>e. \<lparr>ae_peer = peer, ae_entry = e\<rparr>) hits"
  shows "out' = take quota (out @ first_by hit_key K hs) \<and>
    (length out' < quota \<longrightarrow> seen_of seen' (K \<union> hit_key ` set hs))"
  using assms
proof (induction hits arbitrary: out seen K hs)
  case (Cons e hits)
  note K = Cons.prems(1) and peer = Cons.prems(2)
  show ?case
  proof (cases "length out \<ge> quota")
    case True
    then show ?thesis using Cons.prems by auto
  next
    case room: False
    let ?a = "\<lparr>ae_peer = peer, ae_entry = e\<rparr>" and ?hs = "map (\<lambda>e. \<lparr>ae_peer = peer, ae_entry = e\<rparr>) hits"
    have a: "hit_key ?a = (peer, en_name e)" by (simp add: hit_key_def)
    show ?thesis
    proof (cases "(peer, en_name e) \<in> K")
      case True
      then have "merge_hits quota peer hits (out, seen) = (out', seen')"
        using Cons.prems(4) room by (simp add: Let_def seen_of_in [OF K peer])
      from Cons.IH [OF K peer Cons.prems(3) this refl] show ?thesis
        using True by (simp add: Cons.prems(5) a insert_absorb)
    next
      case False
      then have "merge_hits quota peer hits (out @ [?a], set_put (seen_key peer (en_name e)) seen) = (out', seen')"
        using Cons.prems(4) room by (simp add: Let_def seen_of_in [OF K peer])
      from Cons.IH [OF seen_of_put [OF K peer] peer _ this refl] show ?thesis
        using False room by (simp add: Cons.prems(5) a)
    qed
  qed
qed simp

text \<open>After one peer the loop either goes on with its matches added or is at its quota.\<close>

lemma merge_one_peer:
  assumes "seen_of seen K" "CHR 0x00 \<notin> set peer" "length out \<le> quota"
    and more: "\<And>out seen K. seen_of seen K \<Longrightarrow> length out \<le> quota \<Longrightarrow>
      fst (merge_peers source predicate quota peers (out, seen) w) = take quota (out @ first_by hit_key K tail)"
    and hs: "hs = map (\<lambda>e. \<lparr>ae_peer = peer, ae_entry = e\<rparr>) hits"
  shows "fst (merge_peers source predicate quota peers (merge_hits quota peer hits (out, seen)) w) =
    take quota (out @ first_by hit_key K (hs @ tail))"
proof -
  obtain out1 seen1 where m: "merge_hits quota peer hits (out, seen) = (out1, seen1)"
    by (cases "merge_hits quota peer hits (out, seen)")
  note one = merge_hits_result [OF assms(1-3) m hs]
  show ?thesis
  proof (cases "length out1 < quota")
    case True
    then have "out1 = out @ first_by hit_key K hs" using one by simp
    then show ?thesis using more [of seen1 "K \<union> hit_key ` set hs" out1] one True by (simp add: m first_by_append)
  next
    case False
    then have "length out1 = quota" "quota \<le> length (out @ first_by hit_key K hs)" using one by simp_all
    moreover have "merge_peers source predicate quota peers (out1, seen1) w = (out1, w)"
      using False by (cases peers) simp_all
    ultimately show ?thesis using one by (simp add: m first_by_append)
  qed
qed

lemma merge_peers_result:
  assumes "seen_of seen K" "\<forall>peer \<in> set peers. CHR 0x00 \<notin> set peer" "length out \<le> quota"
  shows "fst (merge_peers source predicate quota peers (out, seen) w) =
    take quota (out @ first_by hit_key K (all_hits source predicate peers w))"
  using assms
proof (induction peers arbitrary: out seen K w)
  case (Cons peer peers)
  show ?case
  proof (cases "length out \<ge> quota")
    case room: False
    have step: "fst (merge_peers source predicate quota peers (merge_hits quota peer hits (out, seen)) w) =
        take quota (out @ first_by hit_key K (map (\<lambda>e. \<lparr>ae_peer = peer, ae_entry = e\<rparr>) hits @ all_hits source predicate peers w))"
      for hits w
      using Cons.prems by (intro merge_one_peer Cons.IH) auto
    show ?thesis using Cons room by (auto simp: step split: prod.split option.split sum.split)
  qed (use Cons.prems in simp)
qed simp

theorem AggregateQuery_result:
  assumes "o_PeerNames source w = (names, w1)" "\<forall>peer \<in> set names. CHR 0x00 \<notin> set peer"
  shows "fst (AggregateQuery source predicate quota w) = take quota (first_by hit_key {} (all_hits source predicate names w1))"
  using merge_peers_result [of "[]" "{}" names "[]" quota source predicate w1] assms
  by (simp add: AggregateQuery_def seen_of_def)

section \<open>QueryLeafName\<close>

definition suffixed :: "string \<Rightarrow> nat \<Rightarrow> string" where
  "suffixed base k = base @ '' ('' @ decimal k @ '')''"

lemma suffixed_inj [simp]: "suffixed base j = suffixed base k \<longleftrightarrow> j = k"
proof
  assume "suffixed base j = suffixed base k"
  then have "decimal j = decimal k" by (simp add: suffixed_def)
  then show "j = k" using decimal_facts(3) by metis
qed simp

text \<open>The loop that tries suffixes; each turn finds one used name fewer ahead of it.\<close>

lemma finite_suffixed: "finite {k. k \<ge> n \<and> suffixed base k \<in> set used}"
  by (rule finite_subset [of _ "{k. suffixed base k \<in> set used}"])
    (auto intro: finite_vimageI [of "set used" "suffixed base", unfolded vimage_def] simp: inj_on_def)

lemma leaf_name_progress:
  "(if suffixed base n \<in> set used then 1 else 0) + card {k. k \<ge> n + 1 \<and> suffixed base k \<in> set used}
    = card {k. k \<ge> n \<and> suffixed base k \<in> set used}"
proof -
  have "{k. k \<ge> n \<and> suffixed base k \<in> set used} =
      (if suffixed base n \<in> set used then insert n else id) {k. k \<ge> n + 1 \<and> suffixed base k \<in> set used}"
    by (auto simp: Suc_le_eq le_less)
  then show ?thesis using finite_suffixed [of "n + 1" base used] by simp
qed

function leaf_name :: "string list \<Rightarrow> string \<Rightarrow> nat \<Rightarrow> string \<Rightarrow> string" where
  "leaf_name used base sfx name =
    (if \<not> list_ex (\<lambda>u. u = name) used then name else leaf_name used base (sfx + 1) (suffixed base sfx))"
  by pat_completeness auto

termination
proof (relation "measure (\<lambda>(used, base, n, name). (if name \<in> set used then 1 else 0) +
    card {k. k \<ge> n \<and> suffixed base k \<in> set used})")
  fix used :: "string list" and base :: string and n :: nat and name :: string
  assume "\<not> \<not> list_ex (\<lambda>u. u = name) used"
  then have "name \<in> set used" by (auto simp: list_ex_iff)
  then show "((used, base, n + 1, suffixed base n), (used, base, n, name)) \<in> measure (\<lambda>(used, base, n, name).
      (if name \<in> set used then 1 else 0) + card {k. k \<ge> n \<and> suffixed base k \<in> set used})"
    using leaf_name_progress [of base n used] by simp
qed simp

declare leaf_name.simps [simp del]

definition flatten :: "string \<Rightarrow> string" where
  "flatten relPath = map (\<lambda>c. if c = CHR ''/'' then CHR ''-'' else c) relPath"

definition QueryLeafName :: "string \<Rightarrow> string \<Rightarrow> string list \<Rightarrow> string \<times> string list" where
  "QueryLeafName peer relPath used =
    (let base = peer @ '' - '' @ flatten relPath; name = leaf_name used base 2 base in (name, used @ [name]))"

lemma leaf_name_result:
  "leaf_name used base n name \<notin> set used \<and> (leaf_name used base n name = name \<or> (\<exists>k. leaf_name used base n name = suffixed base k))"
proof (induction used base n name rule: leaf_name.induct)
  case (1 used base n name)
  then show ?case by (subst (1 2 3) leaf_name.simps) (auto simp: list_ex_iff)
qed

lemma decimal_plain: "c \<in> set (decimal n) \<Longrightarrow> c \<noteq> CHR ''/''"
  using decimal_facts(2) [of n] by (auto simp: is_digit_def)

lemma QueryLeafName_result:
  assumes "plain_name peer" "QueryLeafName peer relPath used = (name, used')"
  shows "name \<notin> set used \<and> used' = used @ [name] \<and> name \<noteq> [] \<and> CHR ''/'' \<notin> set name"
proof -
  let ?base = "peer @ '' - '' @ flatten relPath"
  have base: "CHR ''/'' \<notin> set ?base" using assms(1) by (auto simp: plain_name_def flatten_def)
  then have sfx: "CHR ''/'' \<notin> set (suffixed ?base k) \<and> suffixed ?base k \<noteq> []" for k
    using decimal_plain by (auto simp: suffixed_def)
  have n: "name = leaf_name used ?base 2 ?base" "used' = used @ [name]"
    using assms(2) by (auto simp: QueryLeafName_def Let_def)
  then have "name \<notin> set used" "name = ?base \<or> (\<exists>k. name = suffixed ?base k)"
    using leaf_name_result [of used ?base 2 ?base] by auto
  then show ?thesis using n(2) base sfx by auto
qed

end
