(* ===== verification/Router.thy ===== *)
theory Router
  imports QueryFolder
begin

text \<open>
  The two-level file system of discovered peers: \<open>fondamenta/discovery/PathRouter.cpp\<close>. The router is
  a \<open>PeerBackend\<close> itself; its state is its table of open files beside the state of its source.
\<close>

section \<open>Paths\<close>

definition FillDirStat :: Stat where
  "FillDirStat = \<lparr>st_mode = 0x4000 OR 0x16D, st_size = 0, st_mtime = 0, st_crtime = 0, st_inode = 0\<rparr>"

definition FillFileStat :: Stat where
  "FillFileStat = \<lparr>st_mode = 0x8000 OR 0x124, st_size = 0, st_mtime = 0, st_crtime = 0, st_inode = 0\<rparr>"

text \<open>\<open>QueryKind\<close> with the output parameters its callers read.\<close>

datatype QueryKind = NotQuery | QueryRoot | QueryPredicate string | QueryResult string string

definition up_to_slash :: "string \<Rightarrow> string" where
  "up_to_slash = takeWhile (\<lambda>c. c \<noteq> CHR ''/'')"

definition from_slash :: "string \<Rightarrow> string" where
  "from_slash = dropWhile (\<lambda>c. c \<noteq> CHR ''/'')"

definition ClassifyQuery :: "string \<Rightarrow> QueryKind" where
  "ClassifyQuery path =
    (let base = CHR ''/'' # kQueryDir; prefix = base @ ''/'' in
     if path = base then QueryRoot
     else if length path \<le> length prefix \<or> take (length prefix) path \<noteq> prefix then NotQuery
     else let rest = drop (length prefix) path in
       if CHR ''/'' \<notin> set rest then (if rest = [] then NotQuery else QueryPredicate rest)
       else let predicate = up_to_slash rest; leaf = drop (length predicate + 1) rest in
         if predicate = [] \<or> leaf = [] \<or> CHR ''/'' \<in> set leaf then NotQuery
         else QueryResult predicate leaf)"

text \<open>The peer and the path below it; \<open>None\<close> is \<open>false\<close>.\<close>

definition SplitPeer :: "string \<Rightarrow> (string \<times> string) option" where
  "SplitPeer path =
    (if path = [] \<or> path = ''/'' then None
     else let start = (if path ! 0 = CHR ''/'' then 1 else 0);
         peer = up_to_slash (drop start path);
         rest = (if CHR ''/'' \<notin> set (drop start path) then ''/'' else from_slash (drop start path))
       in if peer = [] then None else Some (peer, rest))"

section \<open>The operations\<close>

record 'b OpenHandle =
  oh_backend :: 'b
  oh_backendHandle :: u64

record 'b PathRouter =
  r_fOpen :: "(u64, 'b OpenHandle) std_map"
  r_fNextHandle :: u64

definition PathRouter :: "'b PathRouter" where
  "PathRouter = \<lparr>r_fOpen = [], r_fNextHandle = 1\<rparr>"

type_synonym ('b, 'w) routed = "'b PathRouter \<times> 'w"

definition PeerExists :: "('b, 'w) PeerSource \<Rightarrow> string \<Rightarrow> 'w \<Rightarrow> bool \<times> 'w" where
  "PeerExists source peer w = (let (names, w) = o_PeerNames source w in (list_ex (\<lambda>name. name = peer) names, w))"

definition dir_entry :: "string \<Rightarrow> Entry" where
  "dir_entry name = \<lparr>en_name = name, en_stat = FillDirStat, en_attrs = []\<rparr>"

definition Router_Stat :: "('b, 'w) PeerSource \<Rightarrow> string \<Rightarrow> ('b, 'w) routed \<Rightarrow> Entry outcome \<times> ('b, 'w) routed" where
  "Router_Stat source path s = (case s of (r, w) \<Rightarrow>
    if path = [] \<or> path = ''/'' then (Inr (dir_entry ''/''), (r, w))
    else case ClassifyQuery path of
      QueryRoot \<Rightarrow> (Inr (dir_entry kQueryDir), (r, w))
    | QueryPredicate predicate \<Rightarrow> (Inr (dir_entry predicate), (r, w))
    | QueryResult predicate leaf \<Rightarrow> (Inr \<lparr>en_name = leaf, en_stat = FillFileStat, en_attrs = []\<rparr>, (r, w))
    | NotQuery \<Rightarrow> (case SplitPeer path of
        None \<Rightarrow> (Inl S_NotFound, (r, w))
      | Some (peer, rest) \<Rightarrow> (case PeerExists source peer w of
          (False, w) \<Rightarrow> (Inl S_NotFound, (r, w))
        | (True, w) \<Rightarrow>
            if rest = ''/'' then (Inr (dir_entry peer), (r, w))
            else (case o_BackendFor source peer w of
              (None, w) \<Rightarrow> (Inl S_TransportError, (r, w))
            | (Some backend, w) \<Rightarrow>
                (case v_Stat (o_deref source backend) rest w of (res, w) \<Rightarrow> (res, (r, w)))))))"

fun name_hits :: "AggregatedEntry list \<Rightarrow> string list \<Rightarrow> Entry list" where
  "name_hits [] used = []"
| "name_hits (a # hits) used = (let (name, used) = QueryLeafName (ae_peer a) (en_name (ae_entry a)) used in
     (ae_entry a)\<lparr>en_name := name\<rparr> # name_hits hits used)"

definition Router_ReadDir :: "('b, 'w) PeerSource \<Rightarrow> string \<Rightarrow> ('b, 'w) routed \<Rightarrow> Entry list outcome \<times> ('b, 'w) routed" where
  "Router_ReadDir source path s = (case s of (r, w) \<Rightarrow>
    if path = [] \<or> path = ''/'' then
      (let (names, w) = o_PeerNames source w in (Inr (map dir_entry names @ [dir_entry kQueryDir]), (r, w)))
    else case ClassifyQuery path of
      QueryRoot \<Rightarrow> (Inr [], (r, w))
    | QueryPredicate predicate \<Rightarrow> (let (hits, w) = AggregateQuery source predicate kDefaultQueryQuota w in
        (Inr (name_hits hits []), (r, w)))
    | QueryResult predicate leaf \<Rightarrow> (Inl S_NotADirectory, (r, w))
    | NotQuery \<Rightarrow> (case SplitPeer path of
        None \<Rightarrow> (Inl S_NotFound, (r, w))
      | Some (peer, rest) \<Rightarrow> (case PeerExists source peer w of
          (False, w) \<Rightarrow> (Inl S_NotFound, (r, w))
        | (True, w) \<Rightarrow> (case o_BackendFor source peer w of
            (None, w) \<Rightarrow> (Inl S_TransportError, (r, w))
          | (Some backend, w) \<Rightarrow>
              (case v_ReadDir (o_deref source backend) rest w of (res, w) \<Rightarrow> (res, (r, w)))))))"

definition Router_Open :: "('b, 'w) PeerSource \<Rightarrow> string \<Rightarrow> ('b, 'w) routed \<Rightarrow> (u64 \<times> u64) outcome \<times> ('b, 'w) routed" where
  "Router_Open source path s = (case s of (r, w) \<Rightarrow> case ClassifyQuery path of
      QueryRoot \<Rightarrow> (Inl S_IsADirectory, (r, w))
    | QueryPredicate predicate \<Rightarrow> (Inl S_IsADirectory, (r, w))
    | QueryResult predicate leaf \<Rightarrow> (Inl S_Unsupported, (r, w))
    | NotQuery \<Rightarrow> (case SplitPeer path of
        None \<Rightarrow> (Inl S_IsADirectory, (r, w))
      | Some (peer, rest) \<Rightarrow>
          if rest = ''/'' then (Inl S_IsADirectory, (r, w))
          else case PeerExists source peer w of
            (False, w) \<Rightarrow> (Inl S_NotFound, (r, w))
          | (True, w) \<Rightarrow> (case o_BackendFor source peer w of
              (None, w) \<Rightarrow> (Inl S_TransportError, (r, w))
            | (Some backend, w) \<Rightarrow> (case v_Open (o_deref source backend) rest w of
                (Inl status, w) \<Rightarrow> (Inl status, (r, w))
              | (Inr (backendHandle, sz), w) \<Rightarrow>
                  (let handle = r_fNextHandle r in
                   (Inr (handle, sz),
                    (r\<lparr>r_fNextHandle := handle + 1,
                       r_fOpen := map_put handle \<lparr>oh_backend = backend, oh_backendHandle = backendHandle\<rparr> (r_fOpen r)\<rparr>, w)))))))"

definition Router_Read :: "('b, 'w) PeerSource \<Rightarrow> u64 \<Rightarrow> u64 \<Rightarrow> u32 \<Rightarrow> ('b, 'w) routed \<Rightarrow> bytes outcome \<times> ('b, 'w) routed" where
  "Router_Read source handle off len s = (case s of (r, w) \<Rightarrow> case map_of (r_fOpen r) handle of
      None \<Rightarrow> (Inl S_BadHandle, (r, w))
    | Some it \<Rightarrow> (case v_Read (o_deref source (oh_backend it)) (oh_backendHandle it) off len w of
        (res, w) \<Rightarrow> (res, (r, w))))"

definition Router_Close :: "('b, 'w) PeerSource \<Rightarrow> u64 \<Rightarrow> ('b, 'w) routed \<Rightarrow> unit outcome \<times> ('b, 'w) routed" where
  "Router_Close source handle s = (case s of (r, w) \<Rightarrow> case map_of (r_fOpen r) handle of
      None \<Rightarrow> (Inl S_BadHandle, (r, w))
    | Some it \<Rightarrow> (case v_Close (o_deref source (oh_backend it)) (oh_backendHandle it) w of
        (res, w) \<Rightarrow> (res, (r\<lparr>r_fOpen := AList.delete handle (r_fOpen r)\<rparr>, w))))"

definition router :: "('b, 'w) PeerSource \<Rightarrow> ('b, 'w) routed PeerBackend" where
  "router source = reading_backend (Router_Stat source) (Router_ReadDir source) (Router_Open source)
     (Router_Read source) (Router_Close source)"

section \<open>Paths of the two levels\<close>

lemma slash_parts:
  "CHR ''/'' \<notin> set name \<Longrightarrow> up_to_slash (name @ CHR ''/'' # rest) = name \<and> from_slash (name @ CHR ''/'' # rest) = CHR ''/'' # rest"
  "CHR ''/'' \<notin> set name \<Longrightarrow> up_to_slash name = name"
  by (induction name) (auto simp: up_to_slash_def from_slash_def)

lemma SplitPeer_name: "plain_name name \<Longrightarrow> SplitPeer (CHR ''/'' # name) = Some (name, ''/'')"
  by (simp add: SplitPeer_def slash_parts plain_name_def)

lemma SplitPeer_below: "plain_name name \<Longrightarrow> SplitPeer (CHR ''/'' # name @ CHR ''/'' # rest) = Some (name, CHR ''/'' # rest)"
  by (simp add: SplitPeer_def slash_parts plain_name_def)

lemma not_query: "plain_name name \<Longrightarrow> ClassifyQuery (CHR ''/'' # name @ rest) = NotQuery"
  by (cases name) (auto simp: ClassifyQuery_def kQueryDir_def plain_name_def)

lemma query_paths:
  assumes "predicate \<noteq> []" "CHR ''/'' \<notin> set predicate"
  shows "ClassifyQuery (''/.query/'' @ predicate) = QueryPredicate predicate"
    "leaf \<noteq> [] \<Longrightarrow> CHR ''/'' \<notin> set leaf \<Longrightarrow>
      ClassifyQuery (''/.query/'' @ predicate @ CHR ''/'' # leaf) = QueryResult predicate leaf"
  using assms by (auto simp: ClassifyQuery_def kQueryDir_def slash_parts)

lemma name_hits_result:
  assumes "\<forall>a \<in> set hits. plain_name (ae_peer a)"
  shows "distinct (map en_name (name_hits hits used)) \<and>
    (\<forall>e \<in> set (name_hits hits used). en_name e \<notin> set used \<and> en_name e \<noteq> [] \<and> CHR ''/'' \<notin> set (en_name e)) \<and>
    map (\<lambda>e. e\<lparr>en_name := []\<rparr>) (name_hits hits used) = map (\<lambda>a. (ae_entry a)\<lparr>en_name := []\<rparr>) hits"
  using assms
proof (induction hits arbitrary: used)
  case (Cons a hits)
  obtain name used' where q: "QueryLeafName (ae_peer a) (en_name (ae_entry a)) used = (name, used')"
    by (cases "QueryLeafName (ae_peer a) (en_name (ae_entry a)) used")
  have "name \<notin> set used \<and> used' = used @ [name] \<and> name \<noteq> [] \<and> CHR ''/'' \<notin> set name"
    using QueryLeafName_result [OF _ q] Cons.prems by simp
  then show ?case using Cons.IH [of used'] Cons.prems by (auto simp: q)
qed simp

section \<open>Handles\<close>

text \<open>The calls of a mount, as its front end makes them one after the other.\<close>

datatype router_call = RStat string | RReadDir string | ROpen string | RRead u64 u64 u32 | RClose u64

definition router_step :: "('b, 'w) PeerSource \<Rightarrow> router_call \<Rightarrow> ('b, 'w) routed \<Rightarrow> ('b, 'w) routed" where
  "router_step source call s = (case call of
     RStat path \<Rightarrow> snd (Router_Stat source path s)
   | RReadDir path \<Rightarrow> snd (Router_ReadDir source path s)
   | ROpen path \<Rightarrow> snd (Router_Open source path s)
   | RRead handle off len \<Rightarrow> snd (Router_Read source handle off len s)
   | RClose handle \<Rightarrow> snd (Router_Close source handle s))"

definition router_run :: "('b, 'w) PeerSource \<Rightarrow> router_call list \<Rightarrow> ('b, 'w) routed \<Rightarrow> ('b, 'w) routed" where
  "router_run source cs s = fold (router_step source) cs s"

text \<open>Every handle in the table was given out: it lies below the next one.\<close>

definition handles_ok :: "'b PathRouter \<Rightarrow> bool" where
  "handles_ok r \<longleftrightarrow> map_ok (r_fOpen r) \<and> 0 < r_fNextHandle r \<and>
     (\<forall>h \<in> fst ` set (r_fOpen r). 0 < h \<and> h < r_fNextHandle r)"

text \<open>What a call does to the table.\<close>

lemma Router_Stat_table: "fst (snd (Router_Stat source path s)) = fst s"
  by (auto simp: Router_Stat_def split: prod.split QueryKind.split option.split bool.split)

lemma Router_ReadDir_table: "fst (snd (Router_ReadDir source path s)) = fst s"
  by (auto simp: Router_ReadDir_def split: prod.split QueryKind.split option.split bool.split)

lemma Router_Read_table: "fst (snd (Router_Read source handle off len s)) = fst s"
  by (auto simp: Router_Read_def split: prod.split option.split)

lemma Router_Close_table:
  "fst (snd (Router_Close source handle s)) = (fst s)\<lparr>r_fOpen := AList.delete handle (r_fOpen (fst s))\<rparr>"
  by (auto simp: Router_Close_def delete_conv' map_of_eq_None_iff fun_upd_idem intro!: PathRouter.equality
    split: prod.split option.split)

lemma Router_Open_cases:
  obtains (refused) status where "fst (Router_Open source path s) = Inl status" "fst (snd (Router_Open source path s)) = fst s"
  | (opened) peer rest wa b w0 bh sz w1 where
      "SplitPeer path = Some (peer, rest)" "PeerExists source peer (snd s) = (True, wa)"
      "o_BackendFor source peer wa = (Some b, w0)" "v_Open (o_deref source b) rest w0 = (Inr (bh, sz), w1)"
      "Router_Open source path s = (Inr (r_fNextHandle (fst s), sz),
        ((fst s)\<lparr>r_fNextHandle := r_fNextHandle (fst s) + 1,
          r_fOpen := map_put (r_fNextHandle (fst s)) \<lparr>oh_backend = b, oh_backendHandle = bh\<rparr> (r_fOpen (fst s))\<rparr>, w1))"
proof -
  obtain r w where s: "s = (r, w)" by (cases s)
  consider (no) "\<exists>status. fst (Router_Open source path s) = Inl status \<and> fst (snd (Router_Open source path s)) = r"
    | (go) peer rest w1 where "ClassifyQuery path = NotQuery" "SplitPeer path = Some (peer, rest)" "rest \<noteq> ''/''"
      "PeerExists source peer w = (True, w1)"
  proof (cases "ClassifyQuery path = NotQuery \<and> SplitPeer path \<noteq> None")
    case True
    then obtain peer rest where p: "SplitPeer path = Some (peer, rest)" by auto
    obtain ex w1 where x: "PeerExists source peer w = (ex, w1)" by (cases "PeerExists source peer w")
    show thesis
      using no go [OF _ p _] True by (cases ex; cases "rest = ''/''") (auto simp: s Router_Open_def p x)
  next
    case False
    then show thesis using no by (cases "ClassifyQuery path"; cases "SplitPeer path") (auto simp: s Router_Open_def)
  qed
  then show thesis
  proof cases
    case no
    then show thesis using refused by (auto simp: s)
  next
    case go
    obtain b w2 where b: "o_BackendFor source peer w1 = (b, w2)" by (cases "o_BackendFor source peer w1")
    show thesis
    proof (cases b)
      case None
      then show thesis using refused go by (simp add: s Router_Open_def b)
    next
      case (Some backend)
      obtain res w3 where o: "v_Open (o_deref source backend) rest w2 = (res, w3)" by (cases "v_Open (o_deref source backend) rest w2")
      show thesis
        using refused opened [OF go(2), of w1 backend w2] go
        by (cases res) (auto simp: s Router_Open_def Let_def b Some o)
    qed
  qed
qed

lemma next_handle:
  "unat (h :: u64) + 1 < 2 ^ 64 \<Longrightarrow> h < h + 1 \<and> unat (h + 1) = unat h + 1"
  by (simp add: word_less_nat_alt unat_word_ariths)

lemma router_step_table:
  assumes "handles_ok (fst s)" "unat (r_fNextHandle (fst s)) + 1 < 2 ^ 64"
    and t: "t = router_step source c s"
  shows "handles_ok (fst t) \<and> unat (r_fNextHandle (fst t)) \<le> unat (r_fNextHandle (fst s)) + 1 \<and>
    r_fNextHandle (fst s) \<le> r_fNextHandle (fst t) \<and>
    (\<forall>h. h < r_fNextHandle (fst s) \<longrightarrow> c \<noteq> RClose h \<longrightarrow> map_of (r_fOpen (fst t)) h = map_of (r_fOpen (fst s)) h)"
proof (cases c)
  case (ROpen path)
  note n = next_handle [OF assms(2)]
  show ?thesis
  proof (cases rule: Router_Open_cases [of source path s])
    case (refused status)
    then show ?thesis using assms(1) by (simp add: t router_step_def ROpen)
  next
    case (opened peer rest wa b w0 bh sz w1)
    then show ?thesis using assms(1) n
      by (auto simp: t router_step_def ROpen handles_ok_def intro: order_less_trans)
  qed
next
  case (RClose h)
  then show ?thesis using assms(1)
    by (auto simp: t router_step_def Router_Close_table handles_ok_def) (auto simp: AList.delete_eq)
qed (use assms(1) in \<open>simp_all add: t router_step_def Router_Stat_table Router_ReadDir_table Router_Read_table\<close>)

lemma router_run_table:
  assumes "handles_ok (fst s)" "unat (r_fNextHandle (fst s)) + length cs < 2 ^ 64"
    and t: "t = router_run source cs s"
  shows "handles_ok (fst t) \<and> r_fNextHandle (fst s) \<le> r_fNextHandle (fst t) \<and>
    (\<forall>h. h < r_fNextHandle (fst s) \<longrightarrow> RClose h \<notin> set cs \<longrightarrow> map_of (r_fOpen (fst t)) h = map_of (r_fOpen (fst s)) h)"
  using assms(1,2) unfolding t
proof (induction cs arbitrary: s)
  case (Cons c cs)
  let ?s = "router_step source c s"
  have step: "handles_ok (fst ?s) \<and> unat (r_fNextHandle (fst ?s)) \<le> unat (r_fNextHandle (fst s)) + 1 \<and>
    r_fNextHandle (fst s) \<le> r_fNextHandle (fst ?s) \<and>
    (\<forall>h. h < r_fNextHandle (fst s) \<longrightarrow> c \<noteq> RClose h \<longrightarrow> map_of (r_fOpen (fst ?s)) h = map_of (r_fOpen (fst s)) h)"
    using Cons.prems by (intro router_step_table [OF _ _ refl]) auto
  moreover have "unat (r_fNextHandle (fst ?s)) + length cs < 2 ^ 64" using step Cons.prems(2) by simp
  ultimately have "handles_ok (fst (router_run source cs ?s)) \<and> r_fNextHandle (fst ?s) \<le> r_fNextHandle (fst (router_run source cs ?s)) \<and>
    (\<forall>h. h < r_fNextHandle (fst ?s) \<longrightarrow> RClose h \<notin> set cs \<longrightarrow>
      map_of (r_fOpen (fst (router_run source cs ?s))) h = map_of (r_fOpen (fst ?s)) h)"
    by (intro Cons.IH) auto
  then show ?case using step by (auto simp: router_run_def intro: order_trans dest: order_less_le_trans)
qed (simp add: router_run_def)

lemma handles_ok_start [simp]: "handles_ok PathRouter"
  by (simp add: PathRouter_def handles_ok_def)

section \<open>What the source keeps\<close>

text \<open>A property of the world that every operation the router calls keeps.\<close>

locale source_keeps =
  fixes source :: "('b, 'w) PeerSource" and I :: "'w \<Rightarrow> bool"
  assumes names: "I w \<Longrightarrow> I (snd (o_PeerNames source w))"
    and backend_for: "I w \<Longrightarrow> I (snd (o_BackendFor source name w))"
    and stat: "I w \<Longrightarrow> I (snd (v_Stat (o_deref source b) path w))"
    and readdir: "I w \<Longrightarrow> I (snd (v_ReadDir (o_deref source b) path w))"
    and opens: "I w \<Longrightarrow> I (snd (v_Open (o_deref source b) path w))"
    and reads: "I w \<Longrightarrow> I (snd (v_Read (o_deref source b) handle off len w))"
    and closes: "I w \<Longrightarrow> I (snd (v_Close (o_deref source b) handle w))"
    and query: "I w \<Longrightarrow> I (snd (v_Query (o_deref source b) predicate w))"
begin

text \<open>One rule for each construct an operation is written with.\<close>

lemma kept_prod: "I (snd p) \<Longrightarrow> (\<And>a w. I w \<Longrightarrow> I (snd (f a w))) \<Longrightarrow> I (snd (case p of (a, w) \<Rightarrow> f a w))"
  by (cases p) simp

lemma kept_option: "I (snd a) \<Longrightarrow> (\<And>x. I (snd (f x))) \<Longrightarrow> I (snd (case r of None \<Rightarrow> a | Some x \<Rightarrow> f x))"
  by (cases r) simp_all

lemma kept_sum: "(\<And>x. I (snd (f x))) \<Longrightarrow> (\<And>x. I (snd (g x))) \<Longrightarrow> I (snd (case r of Inl x \<Rightarrow> f x | Inr x \<Rightarrow> g x))"
  by (cases r) simp_all

lemma kept_if: "I (snd a) \<Longrightarrow> I (snd b) \<Longrightarrow> I (snd (if c then a else b))"
  by simp

lemma routed_prod: "I (snd p) \<Longrightarrow> (\<And>a w. I w \<Longrightarrow> I (snd (snd (f a w)))) \<Longrightarrow> I (snd (snd (case p of (a, w) \<Rightarrow> f a w)))"
  by (cases p) simp

lemma routed_option: "I (snd (snd a)) \<Longrightarrow> (\<And>x. I (snd (snd (f x)))) \<Longrightarrow> I (snd (snd (case r of None \<Rightarrow> a | Some x \<Rightarrow> f x)))"
  by (cases r) simp_all

lemma routed_pair_option: "I (snd (snd a)) \<Longrightarrow> (\<And>x y. I (snd (snd (f x y)))) \<Longrightarrow>
    I (snd (snd (case r of None \<Rightarrow> a | Some (x, y) \<Rightarrow> f x y)))"
  by (cases r) auto

lemma routed_sum: "(\<And>x. I (snd (snd (f x)))) \<Longrightarrow> (\<And>x y. I (snd (snd (g x y)))) \<Longrightarrow>
    I (snd (snd (case r of Inl x \<Rightarrow> f x | Inr (x, y) \<Rightarrow> g x y)))"
  by (cases r) auto

lemma routed_bool: "I (snd (snd a)) \<Longrightarrow> I (snd (snd b)) \<Longrightarrow> I (snd (snd (if c then a else b)))"
  "I (snd (snd a)) \<Longrightarrow> I (snd (snd b)) \<Longrightarrow> I (snd (snd (case c of True \<Rightarrow> a | False \<Rightarrow> b)))"
  by (cases c; simp)+

lemma routed_kind: "I (snd (snd a)) \<Longrightarrow> I (snd (snd b)) \<Longrightarrow> (\<And>x. I (snd (snd (f x)))) \<Longrightarrow> (\<And>x y. I (snd (snd (g x y)))) \<Longrightarrow>
    I (snd (snd (case k of NotQuery \<Rightarrow> a | QueryRoot \<Rightarrow> b | QueryPredicate x \<Rightarrow> f x | QueryResult x y \<Rightarrow> g x y)))"
  by (cases k) simp_all

lemma routed_pair: "I (snd s) \<Longrightarrow> (\<And>r w. I w \<Longrightarrow> I (snd (snd (f r w)))) \<Longrightarrow> I (snd (snd (case s of (r, w) \<Rightarrow> f r w)))"
  by (cases s) simp

lemma routed_done: "I w \<Longrightarrow> I (snd (snd (x, (r, w))))"
  by simp

lemmas routed = routed_done routed_pair_option routed_prod routed_option routed_sum routed_bool routed_kind

lemma exists_keeps: "I w \<Longrightarrow> I (snd (PeerExists source peer w))"
  unfolding PeerExists_def Let_def by (intro kept_prod names; simp)

lemma merge_keeps: "I w \<Longrightarrow> I (snd (merge_peers source predicate quota peers os w))"
proof (induction peers arbitrary: os w)
  case (Cons peer peers)
  obtain out seen where os: "os = (out, seen)" by (cases os)
  show ?case unfolding os merge_peers.simps
    by (intro kept_if kept_prod kept_option kept_sum backend_for query Cons.IH) (use Cons.prems in simp_all)
next
  case Nil
  then show ?case by (cases os) simp
qed

lemma aggregate_keeps: "I w \<Longrightarrow> I (snd (AggregateQuery source predicate quota w))"
  unfolding AggregateQuery_def Let_def by (intro kept_prod names merge_keeps)

lemma Stat_keeps: "I (snd s) \<Longrightarrow> I (snd (snd (Router_Stat source path s)))"
  unfolding Router_Stat_def by (rule routed_pair, assumption) (intro routed exists_keeps backend_for stat; assumption)

lemma ReadDir_keeps: "I (snd s) \<Longrightarrow> I (snd (snd (Router_ReadDir source path s)))"
  unfolding Router_ReadDir_def Let_def by (rule routed_pair, assumption) (intro routed exists_keeps backend_for names aggregate_keeps readdir; assumption)

lemma Open_keeps: "I (snd s) \<Longrightarrow> I (snd (snd (Router_Open source path s)))"
  unfolding Router_Open_def Let_def by (rule routed_pair, assumption) (intro routed exists_keeps backend_for opens; assumption)

lemma Read_keeps: "I (snd s) \<Longrightarrow> I (snd (snd (Router_Read source handle off len s)))"
  unfolding Router_Read_def by (rule routed_pair, assumption) (intro routed reads; assumption)

lemma Close_keeps: "I (snd s) \<Longrightarrow> I (snd (snd (Router_Close source handle s)))"
  unfolding Router_Close_def by (rule routed_pair, assumption) (intro routed closes; assumption)

lemma run_keeps: "I (snd s) \<Longrightarrow> I (snd (router_run source cs s))"
  unfolding router_run_def
  by (induction cs arbitrary: s)
    (auto simp: router_step_def Stat_keeps ReadDir_keeps Open_keeps Read_keeps Close_keeps split: router_call.split)

end

end
