(* ===== verification/Manager.thy ===== *)
theory Manager
  imports Router Gate
begin

text \<open>
  The connections behind the discovery file system: \<open>fondamenta/discovery/ConnectionManager.cpp\<close>. It is
  the router's \<open>PeerSource\<close>: it connects to a peer when it is first needed, checks the peer's key
  against the client's trust store, says HELLO, and keeps the connection.
\<close>

section \<open>The network\<close>

text \<open>
  What the manager calls that ends in OpenSSL or the host: \<open>Identity::LoadOrGenerate\<close> (the fingerprint of
  the node's key), \<open>TlsContext::Init\<close>, \<open>TlsConnection::Connect\<close> with its handshake, the fingerprint a
  connection authenticated, and the files of the trust store; then the request path over a
  connection and the peer directory, which the code reaches through references. A connection is
  known by the channel \<open>'ch\<close>, which also stands for the pointer to its backend.
\<close>

record ('ch, 'w) network =
  n_LoadOrGenerate :: "string \<Rightarrow> 'w \<Rightarrow> Fingerprint option \<times> 'w"
  n_ContextInit :: "'w \<Rightarrow> bool \<times> 'w"
  n_Connect :: "string \<Rightarrow> u16 \<Rightarrow> 'w \<Rightarrow> 'ch option \<times> 'w"
  n_PeerFingerprint :: "'ch \<Rightarrow> Fingerprint"
  n_Request :: "'ch \<Rightarrow> 'w requesting"
  n_files :: "'w system"
  n_Endpoints :: "'w \<Rightarrow> PeerEndpoint list \<times> 'w"

section \<open>ConnectionManager\<close>

record 'ch Conn =
  cn_tls :: 'ch
  cn_backend :: CnpBackend

record 'ch ConnectionManager =
  m_fIdentityPath :: string
  m_fTrustStorePath :: string
  m_fNodeName :: string
  m_fTrust :: TrustStore
  m_fSelfId :: NodeIdentity
  m_fConns :: "(string, 'ch Conn) std_map"
  m_fError :: "string option"

type_synonym ('ch, 'w) managed = "'ch ConnectionManager \<times> 'w"

definition ConnectionManager :: "string \<Rightarrow> string \<Rightarrow> string \<Rightarrow> 'ch ConnectionManager" where
  "ConnectionManager identity_path store_path node_name =
    \<lparr>m_fIdentityPath = identity_path, m_fTrustStorePath = store_path, m_fNodeName = node_name, m_fTrust = [],
     m_fSelfId = \<lparr>ni_version = ucast kProtocolVersion, ni_fingerprint = [], ni_caps = [], ni_node = []\<rparr>,
     m_fConns = [], m_fError = None\<rparr>"

definition Manager_Init :: "('ch, 'w) network \<Rightarrow> ('ch, 'w) managed \<Rightarrow> bool \<times> ('ch, 'w) managed" where
  "Manager_Init net s = (case s of (m, w) \<Rightarrow> case n_LoadOrGenerate net (m_fIdentityPath m) w of
     (None, w) \<Rightarrow> (False, (m\<lparr>m_fError := Some ''could not load or generate identity''\<rparr>, w))
   | (Some fp, w) \<Rightarrow> (case n_ContextInit net w of
       (False, w) \<Rightarrow> (False, (m\<lparr>m_fError := Some ''could not build client TLS context''\<rparr>, w))
     | (True, w) \<Rightarrow> (case run (n_files net) (LoadFromFile (m_fTrust m) (m_fTrustStorePath m)) w of
         ((loaded, trust), w, made) \<Rightarrow> (True,
           (m\<lparr>m_fTrust := trust,
              m_fSelfId := (m_fSelfId m)\<lparr>ni_fingerprint := fp, ni_caps := [''bfs''], ni_node := m_fNodeName m\<rparr>,
              m_fError := None\<rparr>, w)))))"

definition Manager_PeerNames :: "('ch, 'w) network \<Rightarrow> ('ch, 'w) managed \<Rightarrow> string list \<times> ('ch, 'w) managed" where
  "Manager_PeerNames net s = (case s of (m, w) \<Rightarrow> case n_Endpoints net w of (eps, w) \<Rightarrow> (map ep_name eps, (m, w)))"

definition FindEndpoint :: "('ch, 'w) network \<Rightarrow> string \<Rightarrow> 'w \<Rightarrow> PeerEndpoint option \<times> 'w" where
  "FindEndpoint net name w = (case n_Endpoints net w of (eps, w) \<Rightarrow> (find (\<lambda>ep. ep_name ep = name) eps, w))"

text \<open>The peer's key against the store: whether to go on, and the store then.\<close>

definition pin_first_sight :: "('ch, 'w) network \<Rightarrow> Fingerprint \<Rightarrow> string \<Rightarrow> ('ch, 'w) managed \<Rightarrow> bool \<times> ('ch, 'w) managed" where
  "pin_first_sight net peerFp name s = (case s of (m, w) \<Rightarrow> case Evaluate peerFp name (m_fTrust m) of
     kKeyChanged \<Rightarrow> (False, (m\<lparr>m_fError := Some ''peer key changed (possible impersonation)''\<rparr>, w))
   | kUnknown \<Rightarrow> (let m = m\<lparr>m_fTrust := Pin peerFp name (m_fTrust m)\<rparr> in
       case run (n_files net) (SaveToFile (m_fTrust m) (m_fTrustStorePath m)) w of (saved, w, made) \<Rightarrow> (True, (m, w)))
   | kTrusted \<Rightarrow> (True, (m, w)))"

definition Establish :: "('ch, 'w) network \<Rightarrow> PeerEndpoint \<Rightarrow> ('ch, 'w) managed \<Rightarrow> bool \<times> ('ch, 'w) managed" where
  "Establish net endpoint s = (case s of (m, w) \<Rightarrow>
    if ep_address endpoint = [] \<or> ep_port endpoint = 0
    then (False, (m\<lparr>m_fError := Some ''peer has no address''\<rparr>, w))
    else case n_Connect net (ep_address endpoint) (ep_port endpoint) w of
      (None, w) \<Rightarrow> (False, (m\<lparr>m_fError := Some ''TLS connect failed''\<rparr>, w))
    | (Some tls, w) \<Rightarrow> (case pin_first_sight net (n_PeerFingerprint net tls) (ep_name endpoint) (m, w) of
        (False, (m, w)) \<Rightarrow> (False, (m, w))
      | (True, (m, w)) \<Rightarrow> (case Backend_Hello (n_Request net tls) (m_fSelfId m) w of
          (Inl status, w) \<Rightarrow> (False, (m\<lparr>m_fError := Some ''CNP HELLO failed''\<rparr>, w))
        | (Inr peerOut, w) \<Rightarrow> (True,
            (m\<lparr>m_fConns := map_put (ep_name endpoint) \<lparr>cn_tls = tls, cn_backend = CnpBackend\<rparr> (m_fConns m),
               m_fError := None\<rparr>, w)))))"

definition Manager_BackendFor :: "('ch, 'w) network \<Rightarrow> string \<Rightarrow> ('ch, 'w) managed \<Rightarrow> 'ch option \<times> ('ch, 'w) managed" where
  "Manager_BackendFor net name s = (case s of (m, w) \<Rightarrow> case map_of (m_fConns m) name of
     Some it \<Rightarrow> (Some (cn_tls it), (m, w))
   | None \<Rightarrow> (case FindEndpoint net name w of
       (None, w) \<Rightarrow> (None, (m, w))
     | (Some endpoint, w) \<Rightarrow> (case Establish net endpoint (m, w) of
         (False, (m, w)) \<Rightarrow> (None, (m, w))
       | (True, (m, w)) \<Rightarrow> (map_option cn_tls (map_of (m_fConns m) name), (m, w)))))"

definition Manager_CloseAll :: "'ch ConnectionManager \<Rightarrow> 'ch ConnectionManager" where
  "Manager_CloseAll m = m\<lparr>m_fConns := []\<rparr>"

section \<open>The manager as the router's source\<close>

text \<open>An operation of a connection's \<open>CnpBackend\<close>; only \<open>Query\<close> touches the backend's own state.\<close>

definition on_world :: "('w \<Rightarrow> 'a \<times> 'w) \<Rightarrow> 'm \<times> 'w \<Rightarrow> 'a \<times> ('m \<times> 'w)" where
  "on_world f s = (case s of (m, w) \<Rightarrow> case f w of (a, w) \<Rightarrow> (a, (m, w)))"

definition Conn_Query :: "('ch, 'w) network \<Rightarrow> 'ch \<Rightarrow> string \<Rightarrow> ('ch, 'w) managed \<Rightarrow> Entry list outcome \<times> ('ch, 'w) managed" where
  "Conn_Query net tls predicate s = (case s of (m, w) \<Rightarrow> case find (\<lambda>(name, conn). cn_tls conn = tls) (m_fConns m) of
     None \<Rightarrow> (Inl S_TransportError, (m, w))
   | Some (name, conn) \<Rightarrow> (case Backend_Query (n_Request net tls) predicate (cn_backend conn) w of
       (hits, b, w) \<Rightarrow> (hits, (m\<lparr>m_fConns := map_put name (conn\<lparr>cn_backend := b\<rparr>) (m_fConns m)\<rparr>, w))))"

definition conn_backend :: "('ch, 'w) network \<Rightarrow> 'ch \<Rightarrow> ('ch, 'w) managed PeerBackend" where
  "conn_backend net tls = (let req = n_Request net tls in
    \<lparr>v_Stat = (\<lambda>path. on_world (Backend_Stat req path)), v_ReadDir = (\<lambda>path. on_world (Backend_ReadDir req path)),
     v_Open = (\<lambda>path. on_world (Backend_Open req path)),
     v_Read = (\<lambda>handle off len. on_world (Backend_Read req handle off len)),
     v_Close = (\<lambda>handle. on_world (Backend_Close req handle)),
     v_OpenWrite = (\<lambda>path. on_world (Backend_OpenWrite req path)),
     v_Write = (\<lambda>handle off dat. on_world (Backend_Write req handle off dat)),
     v_Mkdir = (\<lambda>path mode. on_world (Backend_Mkdir req path mode)),
     v_Unlink = (\<lambda>path. on_world (Backend_Unlink req path)),
     v_Rename = (\<lambda>src dst. on_world (Backend_Rename req src dst)),
     v_Truncate = (\<lambda>path sz. on_world (Backend_Truncate req path sz)),
     v_ReadAttrs = (\<lambda>path. on_world (Backend_ReadAttrs req path)),
     v_WriteAttrs = (\<lambda>path attrs. on_world (Backend_WriteAttrs req path attrs)),
     v_Query = Conn_Query net tls\<rparr>)"

definition manager_source :: "('ch, 'w) network \<Rightarrow> ('ch, ('ch, 'w) managed) PeerSource" where
  "manager_source net =
    \<lparr>o_PeerNames = Manager_PeerNames net, o_BackendFor = Manager_BackendFor net, o_deref = conn_backend net\<rparr>"

section \<open>Whom it talks to\<close>

text \<open>Every connection it keeps is to a peer whose key is pinned.\<close>

definition conns_pinned :: "('ch, 'w) network \<Rightarrow> 'ch ConnectionManager \<Rightarrow> bool" where
  "conns_pinned net m \<longleftrightarrow> (\<forall>e \<in> set (m_fConns m). IsTrusted (n_PeerFingerprint net (cn_tls (snd e))) (m_fTrust m))"

lemma conns_pinned_error [simp]: "conns_pinned net (m\<lparr>m_fError := e\<rparr>) = conns_pinned net m"
  by (simp add: conns_pinned_def)

lemma pin_first_sight_result:
  assumes "pin_first_sight net fp name (m, w) = (ok, (m', w'))"
  shows "(ok \<longrightarrow> IsTrusted fp (m_fTrust m')) \<and> m_fConns m' = m_fConns m \<and>
    (\<forall>fp. IsTrusted fp (m_fTrust m) \<longrightarrow> IsTrusted fp (m_fTrust m')) \<and>
    (\<not> ok \<longleftrightarrow> Evaluate fp name (m_fTrust m) = kKeyChanged) \<and> (\<not> ok \<longrightarrow> m_fTrust m' = m_fTrust m \<and> w' = w)"
  using assms Evaluate_trusted [of fp name "m_fTrust m"]
  by (auto simp: pin_first_sight_def Let_def IsTrusted_Pin split: TrustDecision.splits prod.splits)

lemma set_map_put: "set (map_put k v m) \<subseteq> insert (k, v) (set m)"
  by (induction m) (auto split: if_splits)

lemma Establish_keeps:
  assumes "conns_pinned net m" "Establish net endpoint (m, w) = (ok, (m', w'))"
  shows "conns_pinned net m' \<and> (\<forall>fp. IsTrusted fp (m_fTrust m) \<longrightarrow> IsTrusted fp (m_fTrust m'))"
proof (cases "ep_address endpoint = [] \<or> ep_port endpoint = 0")
  case reachable: False
  obtain tls w1 where c: "n_Connect net (ep_address endpoint) (ep_port endpoint) w = (tls, w1)"
    by (cases "n_Connect net (ep_address endpoint) (ep_port endpoint) w")
  show ?thesis
  proof (cases tls)
    case (Some ch)
    obtain pass m1 w2 where p: "pin_first_sight net (n_PeerFingerprint net ch) (ep_name endpoint) (m, w1) = (pass, (m1, w2))"
      by (metis prod.exhaust)
    note q = pin_first_sight_result [OF p]
    have m1: "conns_pinned net m1" using assms(1) q by (auto simp: conns_pinned_def)
    obtain h w3 where h: "Backend_Hello (n_Request net ch) (m_fSelfId m1) w2 = (h, w3)"
      by (cases "Backend_Hello (n_Request net ch) (m_fSelfId m1) w2")
    have put: "conns_pinned net (m1\<lparr>m_fConns := map_put n \<lparr>cn_tls = ch, cn_backend = CnpBackend\<rparr> (m_fConns m1), m_fError := None\<rparr>)"
      if pass for n
      using m1 q that set_map_put [of n "\<lparr>cn_tls = ch, cn_backend = CnpBackend\<rparr>" "m_fConns m1"]
      by (auto simp: conns_pinned_def)
    show ?thesis using assms(2) reachable m1 q put
      by (cases pass; cases h) (auto simp: Establish_def c Some p h)
  qed (use assms reachable in \<open>auto simp: Establish_def c\<close>)
qed (use assms in \<open>auto simp: Establish_def\<close>)

lemma pinned_kept:
  assumes "pin_first_sight net fp name (m, w) = (ok, (m', w'))" "pinned (m_fTrust m) fp' = Some n"
  shows "pinned (m_fTrust m') fp' = Some n"
proof (cases "Evaluate fp name (m_fTrust m)")
  case kUnknown
  then have "fp' \<noteq> fp" using assms(2) Evaluate_trusted [of fp name "m_fTrust m"] IsTrusted_pinned [of fp "m_fTrust m"] by auto
  then show ?thesis using assms kUnknown
    by (auto simp: pin_first_sight_def Let_def pinned_Pin split: prod.splits)
qed (use assms in \<open>auto simp: pin_first_sight_def\<close>)

lemma Establish_pinned_kept:
  assumes "Establish net endpoint (m, w) = (ok, (m', w'))" "pinned (m_fTrust m) fp' = Some n"
  shows "pinned (m_fTrust m') fp' = Some n"
proof (cases "ep_address endpoint = [] \<or> ep_port endpoint = 0")
  case reachable: False
  obtain tls w1 where c: "n_Connect net (ep_address endpoint) (ep_port endpoint) w = (tls, w1)"
    by (cases "n_Connect net (ep_address endpoint) (ep_port endpoint) w")
  show ?thesis
  proof (cases tls)
    case (Some ch)
    obtain pass m1 w2 where p: "pin_first_sight net (n_PeerFingerprint net ch) (ep_name endpoint) (m, w1) = (pass, (m1, w2))"
      by (metis prod.exhaust)
    obtain h w3 where h: "Backend_Hello (n_Request net ch) (m_fSelfId m1) w2 = (h, w3)"
      by (cases "Backend_Hello (n_Request net ch) (m_fSelfId m1) w2")
    show ?thesis using assms reachable pinned_kept [OF p assms(2)]
      by (cases pass; cases h) (auto simp: Establish_def c Some p h)
  qed (use assms reachable in \<open>auto simp: Establish_def c\<close>)
qed (use assms in \<open>auto simp: Establish_def\<close>)

text \<open>The state the manager keeps: connections to pinned peers, and the pins in \<open>F\<close>.\<close>

definition trusting :: "('ch, 'w) network \<Rightarrow> (Fingerprint \<times> string) list \<Rightarrow> ('ch, 'w) managed \<Rightarrow> bool" where
  "trusting net F s \<longleftrightarrow> conns_pinned net (fst s) \<and> (\<forall>(fp, n) \<in> set F. pinned (m_fTrust (fst s)) fp = Some n)"

lemma BackendFor_result:
  assumes "trusting net F s" "Manager_BackendFor net name s = (b, s')"
  shows "trusting net F s' \<and> (\<forall>ch. b = Some ch \<longrightarrow> (\<exists>conn. map_of (m_fConns (fst s')) name = Some conn \<and> cn_tls conn = ch))"
proof -
  obtain m w where s: "s = (m, w)" by (cases s)
  show ?thesis
  proof (cases "map_of (m_fConns m) name")
    case None
    obtain ep w1 where f: "FindEndpoint net name w = (ep, w1)" by (cases "FindEndpoint net name w")
    show ?thesis
    proof (cases ep)
      case (Some endpoint)
      obtain ok m2 w2 where e: "Establish net endpoint (m, w1) = (ok, (m2, w2))" by (metis prod.exhaust)
      have "trusting net F (m2, w2)"
        using assms(1) Establish_keeps [OF _ e] Establish_pinned_kept [OF e] by (auto simp: trusting_def s)
      then show ?thesis using assms(2) by (cases ok) (auto simp: Manager_BackendFor_def s None f Some e)
    qed (use assms in \<open>auto simp: Manager_BackendFor_def s None f trusting_def\<close>)
  qed (use assms in \<open>auto simp: Manager_BackendFor_def s\<close>)
qed

lemma conn_trusted:
  "trusting net F s \<Longrightarrow> map_of (m_fConns (fst s)) name = Some conn \<Longrightarrow> IsTrusted (n_PeerFingerprint net (cn_tls conn)) (m_fTrust (fst s))"
  by (auto simp: trusting_def conns_pinned_def dest!: map_of_SomeD)

lemma fst_on_world [simp]: "fst (snd (on_world f s)) = fst s"
  by (auto simp: on_world_def split: prod.split)

lemma trusting_fst: "trusting net F s \<Longrightarrow> fst s' = fst s \<Longrightarrow> trusting net F s'"
  by (simp add: trusting_def)

lemma Conn_Query_keeps:
  assumes "trusting net F s"
  shows "trusting net F (snd (Conn_Query net tls predicate s))"
proof -
  obtain m w where s: "s = (m, w)" by (cases s)
  show ?thesis
  proof (cases "find (\<lambda>(name, conn). cn_tls conn = tls) (m_fConns m)")
    case None
    then show ?thesis using assms by (simp add: Conn_Query_def s)
  next
    case (Some e)
    obtain name conn where e: "e = (name, conn)" by (cases e)
    then have "(name, conn) \<in> set (m_fConns m)" using Some by (metis find_Some_iff nth_mem)
    obtain hits b w' where q: "Backend_Query (n_Request net tls) predicate (cn_backend conn) w = (hits, b, w')" by (metis prod.exhaust)
    have "IsTrusted (n_PeerFingerprint net (cn_tls conn)) (m_fTrust m)"
      using assms \<open>(name, conn) \<in> set (m_fConns m)\<close> by (auto simp: trusting_def conns_pinned_def s)
    then show ?thesis using assms
      by (auto simp: Conn_Query_def s Some e q trusting_def conns_pinned_def dest!: subsetD [OF set_map_put])
  qed
qed

lemma BackendFor_keeps: "trusting net F s \<Longrightarrow> trusting net F (snd (Manager_BackendFor net name s))"
  using BackendFor_result [of net F s name] by (metis surjective_pairing)

lemma on_world_keeps: "trusting net F s \<Longrightarrow> trusting net F (snd (on_world f s))"
  by (erule trusting_fst) simp

lemma PeerNames_keeps: "trusting net F s \<Longrightarrow> trusting net F (snd (Manager_PeerNames net s))"
  by (erule trusting_fst) (auto simp: Manager_PeerNames_def split: prod.split)

interpretation manager: source_keeps "manager_source net" "trusting net F" for net F
  by unfold_locales
    (simp_all add: manager_source_def conn_backend_def Let_def PeerNames_keeps BackendFor_keeps on_world_keeps Conn_Query_keeps)

end
