(* ===== verification/Fuse.thy ===== *)
theory Fuse
  imports Manager
begin

text \<open>
  The FUSE front end: \<open>fondamenta/fuse/FuseTranslate.cpp\<close> and the callbacks of \<open>CampielloFuse.cpp\<close>, over
  any \<open>PeerBackend\<close>. The lock each callback holds makes it one step. A callback returns \<open>Inl\<close> the error
  whose negated \<open>errno\<close> the code returns or \<open>Inr\<close> what it stores; the bytes it copies to the buffer of
  its caller are part of the result, the buffer's size is not: nothing in C stops a copy at its end.
\<close>

section \<open>FuseTranslate\<close>

record posix_stat =
  sb_mode :: u32
  sb_size :: s64
  sb_ino :: u64
  sb_nlink :: nat
  sb_mtime :: s64
  sb_crtime :: s64
  sb_ctime :: s64

definition S_ISDIR :: "u32 \<Rightarrow> bool" where
  "S_ISDIR mode \<longleftrightarrow> mode AND 0xF000 = 0x4000"

text \<open>On Haiku; elsewhere there is no \<open>st_crtim\<close>.\<close>

definition FillStat :: "Stat \<Rightarrow> posix_stat" where
  "FillStat s = \<lparr>sb_mode = st_mode s, sb_size = ucast (st_size s), sb_ino = st_inode s,
     sb_nlink = (if S_ISDIR (st_mode s) then 2 else 1), sb_mtime = st_mtime s, sb_crtime = st_crtime s,
     sb_ctime = st_crtime s\<rparr>"

datatype posix_error = E_NOENT | E_ACCES | E_NOTDIR | E_ISDIR | E_NOSYS | E_BADF | E_INVAL | E_IO | E_RANGE

fun ErrnoFor :: "BackendStatus \<Rightarrow> posix_error option" where
  "ErrnoFor S_Ok = None"
| "ErrnoFor S_NotFound = Some E_NOENT"
| "ErrnoFor S_AccessDenied = Some E_ACCES"
| "ErrnoFor S_NotADirectory = Some E_NOTDIR"
| "ErrnoFor S_IsADirectory = Some E_ISDIR"
| "ErrnoFor S_Unsupported = Some E_NOSYS"
| "ErrnoFor S_BadHandle = Some E_BADF"
| "ErrnoFor S_InvalidRequest = Some E_INVAL"
| "ErrnoFor S_IoError = Some E_IO"
| "ErrnoFor S_TransportError = Some E_IO"
| "ErrnoFor S_ProtocolError = Some E_IO"

section \<open>Callbacks\<close>

text \<open>What a callback returns for a failed operation, and for one whose only result is its status.\<close>

type_synonym 'a called = "posix_error option + 'a"

definition failed :: "BackendStatus \<Rightarrow> 'a called" where
  "failed status = Inl (ErrnoFor status)"

definition status_of :: "unit outcome \<times> 'w \<Rightarrow> posix_error option \<times> 'w" where
  "status_of r = (case r of (Inl status, w) \<Rightarrow> (ErrnoFor status, w) | (Inr u, w) \<Rightarrow> (ErrnoFor S_Ok, w))"

definition cf_getattr :: "'w PeerBackend \<Rightarrow> string \<Rightarrow> 'w \<Rightarrow> posix_stat called \<times> 'w" where
  "cf_getattr backend path w = (case v_Stat backend path w of
     (Inl status, w) \<Rightarrow> (failed status, w)
   | (Inr entry, w) \<Rightarrow> (Inr (FillStat (en_stat entry)), w))"

text \<open>The caller's \<open>filler\<close> over its buffer; it is true when the buffer is full.\<close>

fun fill_entries :: "(string \<Rightarrow> posix_stat option \<Rightarrow> 'buf \<Rightarrow> bool \<times> 'buf) \<Rightarrow> Entry list \<Rightarrow> 'buf \<Rightarrow> 'buf" where
  "fill_entries filler [] buf = buf"
| "fill_entries filler (e # entries) buf = (case filler (c_str (en_name e)) (Some (FillStat (en_stat e))) buf of
     (full, buf) \<Rightarrow> if full then buf else fill_entries filler entries buf)"

definition cf_readdir :: "'w PeerBackend \<Rightarrow> (string \<Rightarrow> posix_stat option \<Rightarrow> 'buf \<Rightarrow> bool \<times> 'buf) \<Rightarrow> string \<Rightarrow> 'buf \<Rightarrow> 'w \<Rightarrow>
    'buf called \<times> 'w" where
  "cf_readdir backend filler path buf w = (case v_ReadDir backend path w of
     (Inl status, w) \<Rightarrow> (failed status, w)
   | (Inr entries, w) \<Rightarrow>
       (Inr (fill_entries filler entries (snd (filler ''..'' None (snd (filler ''.'' None buf))))), w))"

definition cf_open :: "'w PeerBackend \<Rightarrow> string \<Rightarrow> bool \<Rightarrow> 'w \<Rightarrow> u64 called \<times> 'w" where
  "cf_open backend path rdonly w =
    (if rdonly then (case v_Open backend path w of
       (Inl status, w) \<Rightarrow> (failed status, w) | (Inr (handle, sz), w) \<Rightarrow> (Inr handle, w))
     else (case v_OpenWrite backend path w of
       (Inl status, w) \<Rightarrow> (failed status, w) | (Inr handle, w) \<Rightarrow> (Inr handle, w)))"

definition cf_create :: "'w PeerBackend \<Rightarrow> string \<Rightarrow> 'w \<Rightarrow> u64 called \<times> 'w" where
  "cf_create backend path w = (case v_OpenWrite backend path w of
     (Inl status, w) \<Rightarrow> (failed status, w) | (Inr handle, w) \<Rightarrow> (Inr handle, w))"

text \<open>The count as the \<open>int\<close> the callback returns.\<close>

type_synonym s32 = "32 word"

definition cf_write :: "'w PeerBackend \<Rightarrow> u64 \<Rightarrow> bytes \<Rightarrow> s64 \<Rightarrow> 'w \<Rightarrow> s32 called \<times> 'w" where
  "cf_write backend fh buf off w = (case v_Write backend fh (ucast off) buf w of
     (Inl status, w) \<Rightarrow> (failed status, w) | (Inr written, w) \<Rightarrow> (Inr (ucast written), w))"

definition cf_mkdir :: "'w PeerBackend \<Rightarrow> string \<Rightarrow> u32 \<Rightarrow> 'w \<Rightarrow> posix_error option \<times> 'w" where
  "cf_mkdir backend path mode w = status_of (v_Mkdir backend path mode w)"

definition cf_unlink :: "'w PeerBackend \<Rightarrow> string \<Rightarrow> 'w \<Rightarrow> posix_error option \<times> 'w" where
  "cf_unlink backend path w = status_of (v_Unlink backend path w)"

definition cf_rmdir :: "'w PeerBackend \<Rightarrow> string \<Rightarrow> 'w \<Rightarrow> posix_error option \<times> 'w" where
  "cf_rmdir backend path w = status_of (v_Unlink backend path w)"

definition cf_rename :: "'w PeerBackend \<Rightarrow> string \<Rightarrow> string \<Rightarrow> 'w \<Rightarrow> posix_error option \<times> 'w" where
  "cf_rename backend src dst w = status_of (v_Rename backend src dst w)"

definition cf_truncate :: "'w PeerBackend \<Rightarrow> string \<Rightarrow> s64 \<Rightarrow> 'w \<Rightarrow> posix_error option \<times> 'w" where
  "cf_truncate backend path sz w = status_of (v_Truncate backend path (ucast sz) w)"

definition cf_ftruncate :: "'w PeerBackend \<Rightarrow> string \<Rightarrow> s64 \<Rightarrow> 'w \<Rightarrow> posix_error option \<times> 'w" where
  "cf_ftruncate backend path sz w = status_of (v_Truncate backend path (ucast sz) w)"

text \<open>An \<open>int\<close> result and the bytes copied to the start of the caller's buffer.\<close>

definition cf_getxattr :: "'w PeerBackend \<Rightarrow> string \<Rightarrow> string \<Rightarrow> u64 \<Rightarrow> 'w \<Rightarrow> (s32 \<times> bytes) called \<times> 'w" where
  "cf_getxattr backend path name sz w = (case v_ReadAttrs backend path w of
     (Inl status, w) \<Rightarrow> (failed status, w)
   | (Inr attrs, w) \<Rightarrow> (case find (\<lambda>a. at_name a = name) attrs of
       None \<Rightarrow> (Inl (Some E_NOENT), w)
     | Some a \<Rightarrow>
         if sz = 0 then (Inr (of_nat (length (at_value a)), []), w)
         else if unat sz < length (at_value a) then (Inl (Some E_RANGE), w)
         else (Inr (of_nat (length (at_value a)), at_value a), w)))"

definition cf_setxattr :: "'w PeerBackend \<Rightarrow> string \<Rightarrow> string \<Rightarrow> bytes \<Rightarrow> 'w \<Rightarrow> posix_error option \<times> 'w" where
  "cf_setxattr backend path name val w =
     status_of (v_WriteAttrs backend path [\<lparr>at_name = name, at_type = 0, at_value = val\<rparr>] w)"

definition cf_listxattr :: "'w PeerBackend \<Rightarrow> string \<Rightarrow> u64 \<Rightarrow> 'w \<Rightarrow> (s32 \<times> string) called \<times> 'w" where
  "cf_listxattr backend path sz w = (case v_ReadAttrs backend path w of
     (Inl status, w) \<Rightarrow> (failed status, w)
   | (Inr attrs, w) \<Rightarrow>
       (let total = sum_list (map (\<lambda>a. length (at_name a) + 1) attrs) in
        if sz = 0 then (Inr (of_nat total, []), w)
        else if unat sz < total then (Inl (Some E_RANGE), w)
        else (Inr (of_nat total, concat (map (\<lambda>a. at_name a @ [CHR 0x00]) attrs)), w)))"

definition cf_read :: "'w PeerBackend \<Rightarrow> u64 \<Rightarrow> u64 \<Rightarrow> s64 \<Rightarrow> 'w \<Rightarrow> (s32 \<times> bytes) called \<times> 'w" where
  "cf_read backend fh sz off w = (case v_Read backend fh (ucast off) (ucast sz) w of
     (Inl status, w) \<Rightarrow> (failed status, w)
   | (Inr dat, w) \<Rightarrow> (Inr (of_nat (length dat), dat), w))"

definition cf_release :: "'w PeerBackend \<Rightarrow> u64 \<Rightarrow> 'w \<Rightarrow> 'w" where
  "cf_release backend fh w = snd (v_Close backend fh w)"

text \<open>The one field it sets, \<open>f_namemax\<close>.\<close>

definition cf_statfs :: nat where "cf_statfs = 255"

section \<open>Bounds\<close>

lemma small_size: "unat (ucast (sz :: u64) :: u32) \<le> unat sz"
  by (simp add: unsigned_ucast_eq take_bit_nat_less_eq_self)

text \<open>A result that copies at most the size of the caller's buffer.\<close>

definition fits :: "u64 \<Rightarrow> ('n \<times> 'a list) called \<Rightarrow> bool" where
  "fits sz r \<longleftrightarrow> (\<forall>n copied. r = Inr (n, copied) \<longrightarrow> length copied \<le> unat sz)"

lemma length_names: "length (concat (map (\<lambda>a. at_name a @ [CHR 0x00]) attrs)) = sum_list (map (\<lambda>a. length (at_name a) + 1) attrs)"
  by (induction attrs) simp_all

lemma xattrs_fit: "fits sz (fst (cf_getxattr backend path name sz w))" "fits sz (fst (cf_listxattr backend path sz w))"
  by (auto simp: fits_def cf_getxattr_def cf_listxattr_def failed_def Let_def length_names
    split: prod.splits sum.splits option.splits if_splits)

end
