(* ===== verification/BackendProps.thy ===== *)
theory BackendProps
  imports Backend
begin

text \<open>
  A client backend in front of the file server: every request it sends is handled by
  \<open>FileServer::Handle\<close> over a host, which is the contract of \<open>answering_peer\<close>.
\<close>

text \<open>The state of the channel: the host, the server, and the host's state.\<close>

type_synonym 'os served = "'os system \<times> server \<times> 'os"

definition loopback :: "'os served requesting" where
  "loopback request c = (case c of (sys, sv, s) \<Rightarrow> (case run sys (Handle sv request) s of ((reply, sv), s, lg) \<Rightarrow>
     (Some (reply\<lparr>fr_requestId := fr_requestId request\<rparr>), (sys, sv, s))))"

text \<open>\<open>pread\<close> returns at most what it was asked for.\<close>

fun pread_bounded :: "syscall \<Rightarrow> reply \<Rightarrow> bool" where
  "pread_bounded (Pread fd n off) (RBytes (Some b)) \<longleftrightarrow> length b \<le> n"
| "pread_bounded _ _ \<longleftrightarrow> True"

lemma good_answer_simps [simp]:
  "good_answer t (Error c)"
  "good_answer kOpen (mkFrame kOpen rid (EncodeOpenReply h sz))"
  "read_data_ok b \<Longrightarrow> good_answer kRead (mkFrame kRead rid (EncodeReadReply b))"
  "good_answer kWrite (mkFrame kWrite rid (EncodeWriteReply n))"
  "good_answer kClose (mkFrame kClose rid EncodeOk)"
  "good_answer kMkdir (MakeMkdirReply rid)" "good_answer kUnlink (MakeUnlinkReply rid)"
  "good_answer kRename (MakeRenameReply rid)" "good_answer kTruncate (MakeTruncateReply rid)"
  "good_answer kWriteAttrs (MakeWriteAttrsReply rid)"
  "good_answer kHello (MakeWelcome ni rid)" "good_answer kStat (mkFrame kStat rid p)"
  "good_answer kList (mkFrame kList rid p)" "good_answer kReadAttrs (MakeReadAttrsReply as rid)"
  "good_answer kQueryOpen (MakeQueryResultReply qid es d rid)" "good_answer kQueryClose (MakeQueryCloseReply rid)"
  using error_back [of "[]" c]
  by (simp_all add: good_answer_def reply_for_def decodable_def Error_def mkFrame_def message_types open_reply_msg_back
    read_reply_msg_back write_reply_msg_back DecodeOk_EncodeOk MakeMkdirReply_def MakeUnlinkReply_def
    MakeRenameReply_def MakeTruncateReply_def MakeReadAttrsReply_def MakeWriteAttrsReply_def
    MakeQueryResultReply_def MakeQueryCloseReply_def MakeWelcome_def answer_type_def)

lemma good_answer_mutated:
  "good_answer t reply \<Longrightarrow> wp (\<lambda>_. True) Q (mutated sv reply rc) (\<lambda>(reply, sv'). good_answer t reply)"
  by (simp add: mutated_def split: option.split)

lemma wp_anyQ: "(\<And>a. post a) \<Longrightarrow> wp (\<lambda>_. True) Q m post"
  by (induction m) simp_all

abbreviation (input) answers :: "message_type \<Rightarrow> Frame serving \<Rightarrow> bool" where
  "answers t m \<equiv> wp (\<lambda>_. True) pread_bounded m (\<lambda>(reply, sv'). good_answer t reply)"

lemma answers_Ret: "good_answer t reply \<Longrightarrow> answers t (Ret (reply, sv'))"
  by simp

lemma answers_bind: "(\<And>a. answers t (f a)) \<Longrightarrow> answers t (pbind m f)"
  by (simp add: wp_pbind wp_anyQ)

lemma answers_sum: "(\<And>e. answers t (f e)) \<Longrightarrow> (\<And>a. answers t (g a)) \<Longrightarrow> answers t (case r of Inl e \<Rightarrow> f e | Inr a \<Rightarrow> g a)"
  by (cases r) simp_all

lemma answers_option: "answers t f \<Longrightarrow> (\<And>a. answers t (g a)) \<Longrightarrow> answers t (case r of None \<Rightarrow> f | Some a \<Rightarrow> g a)"
  by (cases r) simp_all

lemma answers_if: "answers t f \<Longrightarrow> answers t g \<Longrightarrow> answers t (if b then f else g)"
  by simp

lemma answers_prod: "(\<And>a b. answers t (f a b)) \<Longrightarrow> answers t (case p of (a, b) \<Rightarrow> f a b)"
  by (cases p) simp

lemma answers_volume:
  "answers t f \<Longrightarrow> answers t g \<Longrightarrow> answers t h \<Longrightarrow>
    answers t (case v of NoVolume \<Rightarrow> f | NoQueries \<Rightarrow> g | Queries \<Rightarrow> h)"
  by (cases v) simp_all

lemmas answering = answers_volume answers_Ret answers_bind answers_sum answers_option answers_if answers_prod good_answer_mutated

lemma Handle_Read_answers: "answers kRead (HandleRead sv p)"
proof (cases "DecodeReadRequest p")
  case None
  then show ?thesis by (simp add: HandleRead_def)
next
  case (Some r)
  then obtain h off len where r: "DecodeReadRequest p = Some (h, off, len)" "read_length_ok len"
    using read_request_msg_ok [of p] by (cases r) auto
  then have "read_data_ok b" if "length b \<le> unat len" for b
    using that by (simp add: read_length_ok_def read_data_ok_def)
  then show ?thesis
    by (auto simp: HandleRead_def r(1) wp_simps split: option.split reply.split)
qed

lemma HandleStat_answers: "answers kStat (HandleStat sv p)"
  unfolding HandleStat_def Let_def
  by (intro answering; simp)

lemma HandleList_answers: "answers kList (HandleList sv p)"
  unfolding HandleList_def Let_def
  by (intro answering; simp)

lemma HandleOpen_answers: "answers kOpen (HandleOpen sv p)"
  unfolding HandleOpen_def store_handle_def Let_def
  by (intro answering; simp)

lemma HandleWrite_answers: "answers kWrite (HandleWrite sv p)"
  unfolding HandleWrite_def Let_def
  by (intro answering; simp)

lemma HandleClose_answers: "answers kClose (HandleClose sv p)"
  unfolding HandleClose_def Let_def
  by (intro answering; simp)

lemma HandleMkdir_answers: "answers kMkdir (HandleMkdir sv p)"
  unfolding HandleMkdir_def Let_def
  by (intro answering; simp)

lemma HandleUnlink_answers: "answers kUnlink (HandleUnlink sv p)"
  unfolding HandleUnlink_def Let_def
  by (intro answering; simp)

lemma HandleRename_answers: "answers kRename (HandleRename sv p)"
  unfolding HandleRename_def Let_def
  by (intro answering; simp)

lemma HandleTruncate_answers: "answers kTruncate (HandleTruncate sv p)"
  unfolding HandleTruncate_def Let_def
  by (intro answering; simp)

lemma HandleReadAttrs_answers: "answers kReadAttrs (HandleReadAttrs sv p)"
  unfolding HandleReadAttrs_def Let_def
  by (intro answering; simp)

lemma HandleWriteAttrs_answers: "answers kWriteAttrs (HandleWriteAttrs sv p)"
  unfolding HandleWriteAttrs_def Let_def
  by (intro answering; simp)

lemma HandleQueryClose_answers: "answers kQueryClose (HandleQueryClose sv p)"
  unfolding HandleQueryClose_def Let_def
  by (intro answering; simp)

lemma HandleQueryOpen_answers: "answers kQueryOpen (HandleQueryOpen sv p)"
  unfolding HandleQueryOpen_def QueryReply_def Let_def
  by (intro answering; simp)

lemma Handle_answers: "answers (fr_type request) (Handle sv request)"
  by (auto simp: Handle_def Let_def HandleStat_answers HandleList_answers HandleOpen_answers Handle_Read_answers
    HandleWrite_answers HandleClose_answers HandleMkdir_answers HandleUnlink_answers HandleRename_answers
    HandleTruncate_answers HandleReadAttrs_answers HandleWriteAttrs_answers HandleQueryClose_answers HandleQueryOpen_answers)

lemma loopback_answers:
  assumes "honest pread_bounded sys" "loopback request (sys, sv, s) = (reply, c)"
  shows "\<exists>frame. reply = Some frame \<and> good_answer (fr_type request) frame \<and> fst c = sys"
proof -
  obtain frame sv' s' lg where r: "run sys (Handle sv request) s = ((frame, sv'), s', lg)"
    by (metis prod.exhaust)
  then have "good_answer (fr_type request) frame"
    using wp_run [OF assms(1) Handle_answers [where request = request and sv = sv], of s] by (simp add: result_def)
  then have "good_answer (fr_type request) (frame\<lparr>fr_requestId := fr_requestId request\<rparr>)"
    by (simp add: good_answer_def reply_for_def)
  then show ?thesis using assms(2) by (auto simp: loopback_def r)
qed

definition sound_host :: "'os served \<Rightarrow> bool" where
  "sound_host c \<longleftrightarrow> honest pread_bounded (fst c)"

lemma loopback_sound:
  assumes "sound_host c"
  shows "\<exists>reply. fst (loopback request c) = Some reply \<and> good_answer (fr_type request) reply"
    "sound_host (snd (loopback request c))"
proof -
  obtain sys sv s where c: "c = (sys, sv, s)" by (cases c)
  have "honest pread_bounded sys" using assms by (simp add: c sound_host_def)
  from loopback_answers [OF this, of request sv s "fst (loopback request c)" "snd (loopback request c)"]
  show "\<exists>reply. fst (loopback request c) = Some reply \<and> good_answer (fr_type request) reply"
    "sound_host (snd (loopback request c))"
    using \<open>honest pread_bounded sys\<close> by (auto simp: c sound_host_def)
qed

interpretation file_server: answering_peer loopback sound_host
  by unfold_locales (auto intro: loopback_sound)

section \<open>Reading and writing through both ends\<close>

lemma loopback_run:
  "run sys (Handle sv request) s = ((reply, sv'), s', lg) \<Longrightarrow>
    loopback request (sys, sv, s) = (Some (reply\<lparr>fr_requestId := fr_requestId request\<rparr>), (sys, sv', s'))"
  by (simp add: loopback_def)

lemma client_read:
  assumes "map_of (fOpen sv) h = Some f" "read_length_ok len"
    and "sys (Pread (of_fd f) (unat len) off) s = (RBytes (Some b), s1)" "length b \<le> unat len"
  shows "Backend_Read loopback h off len (sys, sv, s) = (Inr b, (sys, sv, s1))"
proof -
  have b: "read_data_ok b" using assms(2,4) by (simp add: read_length_ok_def read_data_ok_def)
  have "run sys (Handle sv (MakeReadRequest h off len 0)) s =
      ((mkFrame kRead 0 (EncodeReadReply b), sv), s1, [Pread (of_fd f) (unat len) off])"
    using assms by (simp add: Handle_Read HandleRead_def read_request_msg_back)
  then show ?thesis
    using b by (simp add: loopback_def Backend_Read_def Exchange_def mkFrame_def message_types read_reply_msg_back)
qed

lemma client_write:
  assumes "map_of (fOpen sv) h = Some f" "of_writable f" "write_data_ok dat"
    and "sys (Pwrite (of_fd f) dat at) s = (RCount (Inr n), s1)" "n \<le> length dat"
  shows "Backend_Write loopback h at dat (sys, sv, s) = (Inr (word_of_nat n), (sys, sv, s1))"
proof -
  have "run sys (Handle sv (MakeWriteRequest h at dat 0)) s =
      ((mkFrame kWrite 0 (EncodeWriteReply (word_of_nat n)), sv), s1, [Pwrite (of_fd f) dat at])"
    using assms by (simp add: Handle_Write HandleWrite_def write_request_msg_back)
  then show ?thesis
    by (simp add: loopback_def Backend_Write_def Exchange_def mkFrame_def message_types write_reply_msg_back)
qed

text \<open>
  A file read through the client is the file of the host. What \<open>Read\<close> returns for an open handle
  is exactly what one \<open>pread\<close> on that handle's descriptor returned; what \<open>Write\<close> returns is the
  count of one \<open>pwrite\<close> of exactly the caller's bytes; and both leave the handles as they were.
\<close>

theorem client_reads_the_file:
  assumes "map_of (fOpen sv) h = Some f" "read_length_ok len" "write_data_ok dat" "of_writable f"
    and "sys (Pread (of_fd f) (unat len) off) s = (RBytes (Some b), s1)" "length b \<le> unat len"
    and "sys (Pwrite (of_fd f) dat at) s1 = (RCount (Inr n), s2)" "n \<le> length dat"
  shows "Backend_Read loopback h off len (sys, sv, s) = (Inr b, (sys, sv, s1)) \<and>
    Backend_Write loopback h at dat (sys, sv, s1) = (Inr (word_of_nat n), (sys, sv, s2))"
  using assms by (simp add: client_read client_write)


section \<open>Live queries\<close>

lemma result_decodes:
  assumes "entries_ok es" "length (EncodeQueryResultReply qid es fin) < 2 ^ 64"
  shows "DecodeQueryResultReply (fr_payload (MakeQueryResultReply qid es fin rid)) = Some (qid, es, fin)"
    "fr_type (MakeQueryResultReply qid es fin rid) = kQueryResult"
  using query_result_msg_back [OF assms] by (simp_all add: MakeQueryResultReply_def mkFrame_def)

lemma collect_batches:
  assumes "\<forall>es \<in> set batches. entries_ok es \<and> length (EncodeQueryResultReply qid es False) < 2 ^ 64"
    and "entries_ok final" "length (EncodeQueryResultReply qid final True) < 2 ^ 64"
  shows "collect qid initial (map (\<lambda>es. MakeQueryResultReply qid es False rid) batches @ MakeQueryResultReply qid final True rid # rest)
    = Some (initial @ concat batches @ final, rest)"
  using assms by (induction batches arbitrary: initial) (simp_all add: result_decodes message_types)


section \<open>Witnesses\<close>

lemma sample_host_bounded: "honest pread_bounded sample_host"
  unfolding honest_def
proof (intro allI)
  fix c s show "pread_bounded c (fst (sample_host c s))" by (cases c) (simp_all add: sample_host_def)
qed


definition sample_file :: Entry where
  "sample_file = \<lparr>en_name = ''f'', en_stat = \<lparr>st_mode = 33188, st_size = 1, st_mtime = 0, st_crtime = 0, st_inode = 2\<rparr>, en_attrs = []\<rparr>"


end
