(* ===== verification/Browsing.thy ===== *)
theory Browsing
  imports Fuse BackendProps
begin

text \<open>
  The router over the connection manager: what holds of the whole mount over any sequence of its
  calls, and how a read travels from the FUSE callback to the file server.
\<close>

section \<open>Whom the mount talks to\<close>

text \<open>A router over a manager: every open file is on a connection to a peer whose key is pinned.\<close>

definition handles_trusted :: "('ch, 'w) network \<Rightarrow> ('ch, ('ch, 'w) managed) routed \<Rightarrow> bool" where
  "handles_trusted net s \<longleftrightarrow> (\<forall>e \<in> set (r_fOpen (fst s)).
     IsTrusted (n_PeerFingerprint net (oh_backend (snd e))) (m_fTrust (fst (snd s))))"

lemma trusting_one: "trusting net [] s \<Longrightarrow> pinned (m_fTrust (fst s)) fp = Some n \<longleftrightarrow> trusting net [(fp, n)] s"
  by (simp add: trusting_def)

lemma trusting_step:
  "trusting net F (snd s) \<Longrightarrow> trusting net F (snd (router_step (manager_source net) c s))"
  using manager.run_keeps [where cs = "[c]" and s = s] by (simp add: router_run_def)

lemma step_pins:
  assumes "trusting net [] (snd s)" "pinned (m_fTrust (fst (snd s))) fp = Some n"
  shows "pinned (m_fTrust (fst (snd (router_step (manager_source net) c s)))) fp = Some n"
  using trusting_step [of net "[(fp, n)]" s c] trusting_step [of net "[]" s c] assms by (simp add: trusting_one)

lemma step_trusts:
  "trusting net [] (snd s) \<Longrightarrow> IsTrusted fp (m_fTrust (fst (snd s))) \<Longrightarrow>
    IsTrusted fp (m_fTrust (fst (snd (router_step (manager_source net) c s))))"
  using step_pins by (fastforce simp: IsTrusted_pinned)

lemma opened_on_trusted:
  assumes "trusting net [] w" "PeerExists (manager_source net) peer w = (True, wa)"
    and "o_BackendFor (manager_source net) peer wa = (Some b, w0)"
    and "v_Open (o_deref (manager_source net) b) rest w0 = (res, w1)"
  shows "IsTrusted (n_PeerFingerprint net b) (m_fTrust (fst w1))"
proof -
  have "trusting net [] wa" using manager.exists_keeps [OF assms(1), of peer] assms(2) by simp
  moreover have "Manager_BackendFor net peer wa = (Some b, w0)" using assms(3) by (simp add: manager_source_def)
  ultimately obtain conn where w0: "trusting net [] w0" "map_of (m_fConns (fst w0)) peer = Some conn" "cn_tls conn = b"
    using BackendFor_result by fastforce
  have "fst w1 = fst w0"
    using fst_on_world [of "Backend_Open (n_Request net b) rest" w0] assms(4)
    by (simp add: manager_source_def conn_backend_def Let_def del: fst_on_world)
  then show ?thesis using conn_trusted [OF w0(1,2)] w0(3) by simp
qed

lemma handles_step:
  assumes "trusting net [] (snd s)" "handles_trusted net s"
  shows "handles_trusted net (router_step (manager_source net) c s)"
proof -
  let ?t = "router_step (manager_source net) c s"
  note grows = step_trusts [OF assms(1), of _ c]
  have old: "handles_trusted net ?t" if "set (r_fOpen (fst ?t)) \<subseteq> set (r_fOpen (fst s))"
    using that assms(2) grows by (auto simp: handles_trusted_def)
  show ?thesis
  proof (cases c)
    case (ROpen path)
    show ?thesis
    proof (cases rule: Router_Open_cases [of "manager_source net" path s])
      case (refused status)
      then show ?thesis using old by (simp add: router_step_def ROpen)
    next
      case (opened peer rest wa b w0 bh sz w1)
      note b = opened_on_trusted [OF assms(1) opened(2-4)]
      have t: "?t = ((fst s)\<lparr>r_fNextHandle := r_fNextHandle (fst s) + 1,
          r_fOpen := map_put (r_fNextHandle (fst s)) \<lparr>oh_backend = b, oh_backendHandle = bh\<rparr> (r_fOpen (fst s))\<rparr>, w1)"
        using opened(5) by (simp add: router_step_def ROpen)
      show ?thesis unfolding handles_trusted_def
      proof
        fix e assume "e \<in> set (r_fOpen (fst ?t))"
        then have "e = (r_fNextHandle (fst s), \<lparr>oh_backend = b, oh_backendHandle = bh\<rparr>) \<or> e \<in> set (r_fOpen (fst s))"
          unfolding t using set_map_put by fastforce
        then show "IsTrusted (n_PeerFingerprint net (oh_backend (snd e))) (m_fTrust (fst (snd ?t)))"
          using b assms(2) grows by (auto simp: t handles_trusted_def)
      qed
    qed
  qed (rule old, simp add: router_step_def Router_Stat_table Router_ReadDir_table Router_Read_table Router_Close_table AList.delete_eq)+
qed

lemma run_trusts:
  assumes "trusting net F (snd s)" "handles_trusted net s"
  shows "trusting net F (snd (router_run (manager_source net) cs s)) \<and>
    handles_trusted net (router_run (manager_source net) cs s)"
  using assms
proof (induction cs arbitrary: s)
  case (Cons c cs)
  then have "trusting net [] (snd s)" by (simp add: trusting_def)
  then show ?case using Cons.IH [OF trusting_step [OF Cons.prems(1)] handles_step [OF _ Cons.prems(2)]]
    by (simp add: router_run_def)
qed (simp add: router_run_def)

section \<open>Peer keys\<close>

lemma Establish_unfold:
  assumes "ep_address endpoint \<noteq> []" "ep_port endpoint \<noteq> 0"
    and "n_Connect net (ep_address endpoint) (ep_port endpoint) w = (Some ch, w1)"
  shows "Establish net endpoint (m, w) = (case pin_first_sight net (n_PeerFingerprint net ch) (ep_name endpoint) (m, w1) of
        (False, (m, w)) \<Rightarrow> (False, (m, w))
      | (True, (m, w)) \<Rightarrow> (case Backend_Hello (n_Request net ch) (m_fSelfId m) w of
          (Inl status, w) \<Rightarrow> (False, (m\<lparr>m_fError := Some ''CNP HELLO failed''\<rparr>, w))
        | (Inr peerOut, w) \<Rightarrow> (True,
            (m\<lparr>m_fConns := map_put (ep_name endpoint) \<lparr>cn_tls = ch, cn_backend = CnpBackend\<rparr> (m_fConns m),
               m_fError := None\<rparr>, w))))"
  using assms by (simp add: Establish_def)

text \<open>A peer that is not connected yet answers at one of the directory's endpoints.\<close>

definition answers_at :: "('ch, 'w) network \<Rightarrow> string \<Rightarrow> 'ch \<Rightarrow> ('ch, 'w) managed \<Rightarrow> 'w \<Rightarrow> bool" where
  "answers_at net name ch s w2 \<longleftrightarrow> (case s of (m, w) \<Rightarrow> map_of (m_fConns m) name = None \<and>
     (\<exists>endpoint w1. FindEndpoint net name w = (Some endpoint, w1) \<and> ep_address endpoint \<noteq> [] \<and> ep_port endpoint \<noteq> 0 \<and>
       n_Connect net (ep_address endpoint) (ep_port endpoint) w1 = (Some ch, w2)))"

lemma FindEndpoint_name: "FindEndpoint net name w = (Some endpoint, w1) \<Longrightarrow> ep_name endpoint = name"
  by (auto simp: FindEndpoint_def find_Some_iff split: prod.splits)

lemma changed_key_refused:
  assumes "answers_at net name ch (m, w) w2" "pinned (m_fTrust m) fp = Some name"
    and "\<not> IsTrusted (n_PeerFingerprint net ch) (m_fTrust m)"
  shows "Manager_BackendFor net name (m, w) =
    (None, (m\<lparr>m_fError := Some ''peer key changed (possible impersonation)''\<rparr>, w2))"
proof -
  obtain endpoint w1 where e: "map_of (m_fConns m) name = None" "FindEndpoint net name w = (Some endpoint, w1)"
    "ep_address endpoint \<noteq> []" "ep_port endpoint \<noteq> 0" "n_Connect net (ep_address endpoint) (ep_port endpoint) w1 = (Some ch, w2)"
    using assms(1) by (auto simp: answers_at_def)
  have "name_pinned name (m_fTrust m)"
    using assms(2) by (auto simp: name_pinned_iff pinned_def dest!: map_of_SomeD)
  then have "Evaluate (n_PeerFingerprint net ch) name (m_fTrust m) = kKeyChanged"
    using assms(3) by (simp add: Evaluate_def IsTrusted_def)
  then show ?thesis
    using e by (simp add: Manager_BackendFor_def Establish_unfold [OF e(3-5)] pin_first_sight_def FindEndpoint_name [OF e(2)])
qed

lemma known_key_accepted:
  assumes "answers_at net name ch (m, w) w2" "IsTrusted (n_PeerFingerprint net ch) (m_fTrust m)"
    and "Backend_Hello (n_Request net ch) (m_fSelfId m) w2 = (Inr peerOut, w3)"
  shows "Manager_BackendFor net name (m, w) = (Some ch,
    (m\<lparr>m_fConns := map_put name \<lparr>cn_tls = ch, cn_backend = CnpBackend\<rparr> (m_fConns m), m_fError := None\<rparr>, w3))"
proof -
  obtain endpoint w1 where e: "map_of (m_fConns m) name = None" "FindEndpoint net name w = (Some endpoint, w1)"
    "ep_address endpoint \<noteq> []" "ep_port endpoint \<noteq> 0" "n_Connect net (ep_address endpoint) (ep_port endpoint) w1 = (Some ch, w2)"
    using assms(1) by (auto simp: answers_at_def)
  have "Evaluate (n_PeerFingerprint net ch) name (m_fTrust m) = kTrusted" using assms(2) by (simp add: Evaluate_trusted)
  then show ?thesis
    using e by (simp add: Manager_BackendFor_def Establish_unfold [OF e(3-5)] pin_first_sight_def FindEndpoint_name [OF e(2)] assms(3))
qed

section \<open>A connection that died\<close>

definition dead :: "('ch, 'w) network \<Rightarrow> 'ch \<Rightarrow> bool" where
  "dead net ch \<longleftrightarrow> (\<forall>request w. fst (n_Request net ch request w) = None)"

lemma dead_exchange: "dead net ch \<Longrightarrow> fst (Exchange (n_Request net ch) request expected decode w) = Inl S_TransportError"
  by (auto simp: Exchange_def dead_def split: prod.split option.split) (metis fst_conv option.distinct(1))+

lemma fst_on_world_result: "fst (on_world f s) = fst (f (snd s))"
  by (simp add: on_world_def split: prod.split)

lemma dead_operations:
  assumes "dead net ch"
  shows "fst (v_Stat (conn_backend net ch) path s) = Inl S_TransportError"
    "fst (v_ReadDir (conn_backend net ch) path s) = Inl S_TransportError"
    "fst (v_Open (conn_backend net ch) path s) = Inl S_TransportError"
  by (simp_all add: conn_backend_def Let_def fst_on_world_result Backend_Stat_def Backend_ReadDir_def Backend_Open_def
    dead_exchange [OF assms])

lemma kept_connection: "map_of (m_fConns m) name = Some conn \<Longrightarrow> Manager_BackendFor net name (m, w) = (Some (cn_tls conn), (m, w))"
  by (simp add: Manager_BackendFor_def)

section \<open>Reading through the mount\<close>

lemma mount_read:
  assumes "map_of (r_fOpen r) fh = Some \<lparr>oh_backend = ch, oh_backendHandle = bh\<rparr>"
    and "Backend_Read (n_Request net ch) bh (ucast off) (ucast sz) w = (Inr b, w')"
  shows "cf_read (router (manager_source net)) fh sz off (r, (m, w)) = (Inr (of_nat (length b), b), (r, (m, w')))"
  using assms by (simp add: cf_read_def router_def reading_backend_def Router_Read_def manager_source_def conn_backend_def Let_def on_world_def)

section \<open>What reads and listings hold\<close>

lemma all_hits_peers: "a \<in> set (all_hits source predicate names w) \<Longrightarrow> ae_peer a \<in> set names"
proof (induction names arbitrary: w)
  case (Cons peer names)
  obtain b w1 where b: "o_BackendFor source peer w = (b, w1)" by (cases "o_BackendFor source peer w")
  show ?case
  proof (cases b)
    case (Some backend)
    obtain hits w2 where "v_Query (o_deref source backend) predicate w1 = (hits, w2)"
      by (cases "v_Query (o_deref source backend) predicate w1")
    then show ?thesis using Cons by (cases hits) (auto simp: b Some)
  qed (use Cons in \<open>auto simp: b\<close>)
qed simp

lemma HandleRead_bounded:
  "wp (\<lambda>_. True) pread_bounded (HandleRead sv (EncodeReadRequest h off len)) (\<lambda>(reply, sv').
    \<forall>b. fr_type reply = kRead \<longrightarrow> DecodeReadReply (fr_payload reply) = Some b \<longrightarrow> length b \<le> unat len)"
proof (cases "DecodeReadRequest (EncodeReadRequest h off len)")
  case None
  then show ?thesis by (simp add: HandleRead_def Error_def mkFrame_def message_types)
next
  case (Some q)
  then obtain h' off' len' where q: "DecodeReadRequest (EncodeReadRequest h off len) = Some (h', off', len')" "read_length_ok len'"
    using read_request_msg_ok by (cases q) fastforce
  have "unat len' \<le> unat len"
  proof (cases "read_length_ok len")
    case True
    then show ?thesis using q(1) by (simp add: read_request_msg_back)
  next
    case False
    then show ?thesis using q(2) by (simp add: read_length_ok_def)
  qed
  then have "read_data_ok b \<and> length b \<le> unat len" if "length b \<le> unat len'" for b
    using that q(2) by (simp add: read_length_ok_def read_data_ok_def)
  then show ?thesis
    by (auto simp: HandleRead_def q(1) wp_simps Error_def mkFrame_def message_types read_reply_msg_back split: option.split reply.split)
qed

lemma loopback_read_bounded:
  assumes "honest pread_bounded sys" "Backend_Read loopback h off len (sys, sv, s) = (Inr b, c)"
  shows "length b \<le> unat len"
proof -
  obtain frame sv' s' lg where run: "run sys (Handle sv (MakeReadRequest h off len 0)) s = ((frame, sv'), s', lg)"
    by (metis prod.exhaust)
  have "Handle sv (MakeReadRequest h off len 0) = HandleRead sv (EncodeReadRequest h off len)"
    by (simp add: Handle_Read)
  then have "\<forall>b. fr_type frame = kRead \<longrightarrow> DecodeReadReply (fr_payload frame) = Some b \<longrightarrow> length b \<le> unat len"
    using wp_run [OF assms(1) HandleRead_bounded [of sv h off len], of s] run by (simp add: result_def)
  then show ?thesis using assms(2) loopback_run [OF run]
    by (auto simp: Backend_Read_def Exchange_def split: if_splits option.splits)
qed

end
