(* ===== verification/DiscoveryProps.thy ===== *)
theory DiscoveryProps
  imports Browsing
begin

text \<open>
  The properties of the discovery file system, from the FUSE callbacks through the router and the
  connection manager to the file server.
\<close>

section \<open>Peers and their keys\<close>

text \<open>
  C21: The mount talks to pinned peers only. Over any calls of the mount, every connection kept and
  every open file is on a channel whose key is in the trust store, and no pin is ever lost or renamed.
\<close>

theorem pinned_peers_only:
  assumes "m_fConns m = []" and "router_run (manager_source net) cs (PathRouter, (m, w)) = (r', (m', w'))"
  shows "(\<forall>name conn. map_of (m_fConns m') name = Some conn \<longrightarrow> IsTrusted (n_PeerFingerprint net (cn_tls conn)) (m_fTrust m')) \<and>
    (\<forall>h it. map_of (r_fOpen r') h = Some it \<longrightarrow> IsTrusted (n_PeerFingerprint net (oh_backend it)) (m_fTrust m')) \<and>
    (\<forall>fp n. pinned (m_fTrust m) fp = Some n \<longrightarrow> pinned (m_fTrust m') fp = Some n)"
proof -
  have start: "handles_trusted net (PathRouter, (m, w))" by (simp add: handles_trusted_def PathRouter_def)
  have "trusting net [] (m', w') \<and> handles_trusted net (r', (m', w'))"
    using run_trusts [OF _ start, of "[]" cs] assms by (simp add: trusting_def conns_pinned_def)
  moreover have "pinned (m_fTrust m') fp = Some n" if "pinned (m_fTrust m) fp = Some n" for fp n
    using run_trusts [OF _ start, of "[(fp, n)]" cs] assms that by (simp add: trusting_def conns_pinned_def)
  ultimately show ?thesis
    by (auto simp: handles_trusted_def trusting_def conns_pinned_def dest!: map_of_SomeD)
qed

text \<open>
  A name keeps its key. Once a key is pinned under a peer's name, then after any further calls a
  peer that answers under that name with a key the store does not know gets no connection: it is
  dropped right after the handshake, without one frame sent, and the store stays as it was.
\<close>

theorem name_keeps_key:
  assumes "m_fConns m = []" "pinned (m_fTrust m) fp = Some name"
    and "router_run (manager_source net) cs (PathRouter, (m, w)) = (r', (m', w'))"
    and "answers_at net name ch (m', w') w2" "\<not> IsTrusted (n_PeerFingerprint net ch) (m_fTrust m')"
  shows "Manager_BackendFor net name (m', w') =
    (None, (m'\<lparr>m_fError := Some ''peer key changed (possible impersonation)''\<rparr>, w2))"
proof -
  have "trusting net [(fp, name)] (m', w')"
    using run_trusts [of net "[(fp, name)]" "(PathRouter, (m, w))" cs] assms(1-3)
    by (simp add: trusting_def conns_pinned_def handles_trusted_def PathRouter_def)
  then have "pinned (m_fTrust m') fp = Some name" by (simp add: trusting_def)
  then show ?thesis by (rule changed_key_refused [OF assms(4) _ assms(5)])
qed

text \<open>
  The check is on the key alone, not on the name it was pinned under. A peer whose key is pinned
  under any name is accepted under every other: it can answer as a peer that is pinned with another
  key, without the warning for a changed key, and the connection is kept under that peer's name.
\<close>

theorem any_pinned_key_passes:
  assumes "answers_at net name ch (m, w) w2" "pinned (m_fTrust m) (n_PeerFingerprint net ch) = Some other"
    and "pinned (m_fTrust m) fp = Some name" "other \<noteq> name"
    and "Backend_Hello (n_Request net ch) (m_fSelfId m) w2 = (Inr peerOut, w3)"
  shows "\<exists>m'. Manager_BackendFor net name (m, w) = (Some ch, (m', w3)) \<and> m_fTrust m' = m_fTrust m \<and> m_fError m' = None \<and>
    map_of (m_fConns m') name = Some \<lparr>cn_tls = ch, cn_backend = CnpBackend\<rparr>"
  using known_key_accepted [OF assms(1) _ assms(5)] assms(2) by (simp add: IsTrusted_pinned)

text \<open>
  A connection that died is never replaced. Once every request on a peer's connection fails, each
  look-up, listing and opening below the peer's folder ends in a transport error and leaves the
  manager as it was, although the peer is in the directory and would accept a new connection.
\<close>

theorem dead_connection_stays:
  assumes "map_of (m_fConns m) name = Some conn" "dead net (cn_tls conn)" "plain_name name"
    and "fst (n_Endpoints net w) = eps" "name \<in> ep_name ` set eps" "rest \<noteq> []"
  shows "fst (Router_Stat (manager_source net) (CHR ''/'' # name @ CHR ''/'' # rest) (r, (m, w))) = Inl S_TransportError \<and>
    fst (Router_ReadDir (manager_source net) (CHR ''/'' # name @ CHR ''/'' # rest) (r, (m, w))) = Inl S_TransportError \<and>
    fst (Router_Open (manager_source net) (CHR ''/'' # name @ CHR ''/'' # rest) (r, (m, w))) = Inl S_TransportError \<and>
    fst (snd (snd (Router_Open (manager_source net) (CHR ''/'' # name @ CHR ''/'' # rest) (r, (m, w))))) = m"
proof -
  obtain w1 where "n_Endpoints net w = (eps, w1)" using assms(4) by (cases "n_Endpoints net w") simp
  then have there: "PeerExists (manager_source net) name (m, w) = (True, (m, w1))"
    using assms(5) by (auto simp: PeerExists_def manager_source_def Manager_PeerNames_def list_ex_iff)
  have via: "o_BackendFor (manager_source net) name (m, w1) = (Some (cn_tls conn), (m, w1))"
    "o_deref (manager_source net) (cn_tls conn) = conn_backend net (cn_tls conn)"
    using kept_connection [OF assms(1)] by (simp_all add: manager_source_def)
  obtain w2 w3 w4 where ops:
    "v_Stat (conn_backend net (cn_tls conn)) (CHR ''/'' # rest) (m, w1) = (Inl S_TransportError, w2)"
    "v_ReadDir (conn_backend net (cn_tls conn)) (CHR ''/'' # rest) (m, w1) = (Inl S_TransportError, w3)"
    "v_Open (conn_backend net (cn_tls conn)) (CHR ''/'' # rest) (m, w1) = (Inl S_TransportError, w4)"
    using dead_operations [OF assms(2)] by (metis surjective_pairing)
  have "fst w4 = m"
    using fst_on_world [of "Backend_Open (n_Request net (cn_tls conn)) (CHR ''/'' # rest)" "(m, w1)"] ops(3)
    by (simp add: conn_backend_def Let_def del: fst_on_world)
  then show ?thesis
    using SplitPeer_below [OF assms(3), of rest] not_query [OF assms(3), of "CHR ''/'' # rest"] there via ops assms(3,6)
    by (simp add: Router_Stat_def Router_ReadDir_def Router_Open_def plain_name_def)
qed

section \<open>Handles\<close>

text \<open>
  A handle of the mount is its file until it is closed. What \<open>Open\<close> gives out is new; whatever is
  called in between, a read on it is the read of the backend that opened the file, with that
  backend's own handle; and once closed it is dead.
\<close>

theorem handle_is_its_file:
  assumes "handles_ok (fst s)" "Router_Open source path s = (Inr (h, sz), s1)"
    and "RClose h \<notin> set cs" "unat (r_fNextHandle (fst s)) + length cs + 1 < 2 ^ 64"
    and "router_run source cs s1 = (r, w)"
  shows "map_of (r_fOpen (fst s)) h = None \<and>
    (\<exists>b bh rest w0. v_Open (o_deref source b) rest w0 = (Inr (bh, sz), snd s1) \<and>
      (\<forall>off len. Router_Read source h off len (r, w) =
        (let (res, w') = v_Read (o_deref source b) bh off len w in (res, (r, w')))) \<and>
      fst (Router_Close source h (r, w)) = fst (v_Close (o_deref source b) bh w)) \<and>
    (\<forall>off len. fst (Router_Read source h off len (snd (Router_Close source h (r, w)))) = Inl S_BadHandle)"
proof (cases rule: Router_Open_cases [of source path s])
  case (refused status)
  then show ?thesis using assms(2) by simp
next
  case (opened peer rest wa b w0 bh sz' w1)
  then have h: "h = r_fNextHandle (fst s)" "sz' = sz" "snd s1 = w1" and
    table: "r_fOpen (fst s1) = map_put h \<lparr>oh_backend = b, oh_backendHandle = bh\<rparr> (r_fOpen (fst s))" "r_fNextHandle (fst s1) = h + 1"
    using assms(2) by auto
  have step: "handles_ok (fst s1) \<and> unat (r_fNextHandle (fst s1)) \<le> unat (r_fNextHandle (fst s)) + 1"
    using router_step_table [OF assms(1) _ refl, of source "ROpen path"] assms(2,4) by (simp add: router_step_def)
  have "h < h + 1" using next_handle [of h] assms(4) h(1) by simp
  then have "map_of (r_fOpen r) h = Some \<lparr>oh_backend = b, oh_backendHandle = bh\<rparr>"
    using router_run_table [of s1 cs "(r, w)" source] step assms(3-5) by (simp add: table)
  moreover have "map_of (r_fOpen (fst s)) h = None"
    using assms(1) h(1) by (force simp: handles_ok_def map_of_eq_None_iff)
  moreover have "v_Open (o_deref source b) rest w0 = (Inr (bh, sz), snd s1)" using opened(4) h by simp
  ultimately show ?thesis
    by (auto simp: Router_Read_def Router_Close_def Let_def AList.delete_conv' split: prod.split intro!: exI)
qed

section \<open>Listings\<close>

text \<open>
  What the root shows is there. Its listing is one folder per peer and the query folder, and a
  look-up of each entry, while its peer is known, yields the same entry, without any connection.
\<close>

theorem root_lists_peers:
  assumes "o_PeerNames source w = (names, w1)" "\<forall>name \<in> set names. plain_name name"
    and "o_PeerNames source w1 = (names', w2)" "set names \<subseteq> set names'"
  shows "Router_ReadDir source ''/'' (r, w) = (Inr (map dir_entry names @ [dir_entry kQueryDir]), (r, w1)) \<and>
    (\<forall>name \<in> set names. Router_Stat source (CHR ''/'' # name) (r, w1) = (Inr (dir_entry name), (r, w2))) \<and>
    Router_Stat source (CHR ''/'' # kQueryDir) (r, w1) = (Inr (dir_entry kQueryDir), (r, w1))"
proof -
  have "Router_Stat source (CHR ''/'' # name) (r, w1) = (Inr (dir_entry name), (r, w2))" if "name \<in> set names" for name
  proof -
    have "plain_name name" "list_ex (\<lambda>n. n = name) names'" using that assms(2,4) by (auto simp: list_ex_iff)
    moreover from this have "PeerExists source name w1 = (True, w2)" by (simp add: PeerExists_def assms(3))
    ultimately show ?thesis using SplitPeer_name not_query [of name "[]"]
      by (auto simp: Router_Stat_def plain_name_def)
  qed
  then show ?thesis
    by (simp add: Router_ReadDir_def assms(1) Router_Stat_def ClassifyQuery_def kQueryDir_def)
qed

text \<open>
  C22: A query folder is the query. Its listing has the matches of all reachable peers in order, each
  match of a peer once and at most 4096 of them, with its stat and attributes as the peer sent
  them; under names that are distinct, have no slash, and can each be looked up in the folder.
\<close>

theorem query_folder_is_the_query:
  assumes "o_PeerNames source w = (names, w1)" "\<forall>name \<in> set names. plain_name name"
    and "predicate \<noteq> []" "CHR ''/'' \<notin> set predicate"
  defines "matches \<equiv> take 4096 (first_by hit_key {} (all_hits source predicate names w1))"
  shows "\<exists>es w'. Router_ReadDir source (''/.query/'' @ predicate) (r, w) = (Inr es, (r, w')) \<and>
    map (\<lambda>e. e\<lparr>en_name := []\<rparr>) es = map (\<lambda>a. (ae_entry a)\<lparr>en_name := []\<rparr>) matches \<and>
    length es \<le> 4096 \<and> distinct (map en_name es) \<and>
    (\<forall>e \<in> set es. Router_Stat source (''/.query/'' @ predicate @ CHR ''/'' # en_name e) (r, w') =
       (Inr \<lparr>en_name = en_name e, en_stat = FillFileStat, en_attrs = []\<rparr>, (r, w')))"
proof -
  obtain hits w' where hits: "AggregateQuery source predicate 4096 w = (hits, w')" by (cases "AggregateQuery source predicate 4096 w")
  have m: "hits = matches"
    using AggregateQuery_result [OF assms(1), of predicate 4096] assms(2) hits by (simp add: matches_def plain_name_def)
  have "\<forall>a \<in> set matches. plain_name (ae_peer a)"
    using all_hits_peers first_by_subset assms(2) by (fastforce simp: matches_def dest: in_set_takeD)
  note named = name_hits_result [OF this, of "[]"]
  have len: "length (name_hits matches []) = length matches" using arg_cong [OF named [THEN conjunct2, THEN conjunct2], of length] by simp
  note paths = query_paths [OF assms(3,4)]
  have "Router_ReadDir source (''/.query/'' @ predicate) (r, w) = (Inr (name_hits matches []), (r, w'))"
    using paths(1) hits m by (simp add: Router_ReadDir_def kDefaultQueryQuota_def)
  moreover have "Router_Stat source (''/.query/'' @ predicate @ CHR ''/'' # en_name e) (r, w') =
      (Inr \<lparr>en_name = en_name e, en_stat = FillFileStat, en_attrs = []\<rparr>, (r, w'))" if "e \<in> set (name_hits matches [])" for e
    using paths(2) [of "en_name e"] named that by (simp add: Router_Stat_def)
  ultimately show ?thesis using named len by (auto simp: matches_def)
qed

section \<open>Reading and the caller's buffers\<close>

text \<open>
  C23: Reading a file of the mount is reading it on the other machine. A read callback on an open file
  goes through the router, the connection and the file server to one \<open>pread\<close> of the host on the
  file's descriptor, and copies exactly the bytes it returned, which fit the caller's buffer.
\<close>

theorem mount_reads_the_file:
  assumes "map_of (r_fOpen r) fh = Some \<lparr>oh_backend = ch, oh_backendHandle = h\<rparr>" "n_Request net ch = loopback"
    and "map_of (fOpen sv) h = Some f" "read_length_ok (ucast sz)"
    and "sys (Pread (of_fd f) (unat (ucast sz :: u32)) (ucast off)) s = (RBytes (Some b), s1)" "length b \<le> unat (ucast sz :: u32)"
  shows "cf_read (router (manager_source net)) fh sz off (r, (m, (sys, sv, s))) =
      (Inr (of_nat (length b), b), (r, (m, (sys, sv, s1)))) \<and>
    fits sz (fst (cf_read (router (manager_source net)) fh sz off (r, (m, (sys, sv, s)))))"
proof -
  have "Backend_Read loopback h (ucast off) (ucast sz) (sys, sv, s) = (Inr b, (sys, sv, s1))"
    by (rule client_read) (use assms(3-6) in simp_all)
  then have "cf_read (router (manager_source net)) fh sz off (r, (m, (sys, sv, s))) =
      (Inr (of_nat (length b), b), (r, (m, (sys, sv, s1))))"
    using mount_read [OF assms(1), of net off sz "(sys, sv, s)" b "(sys, sv, s1)"] assms(2) by simp
  then show ?thesis using assms(6) small_size [of sz] by (simp add: fits_def)
qed

text \<open>
  What is copied fits, as far as the code checks it. The attribute callbacks copy at most the
  size they are given, whatever backend answers; a read through the mount does if the peer is a
  file server whose host's \<open>pread\<close> returns at most what it was asked for.
\<close>

theorem copies_fit:
  assumes "honest pread_bounded sys" "n_Request net ch = loopback"
    and "map_of (r_fOpen r) fh = Some \<lparr>oh_backend = ch, oh_backendHandle = h\<rparr>"
  shows "fits sz (fst (cf_getxattr backend path name sz w)) \<and> fits sz (fst (cf_listxattr backend path sz w)) \<and>
    fits sz (fst (cf_read (router (manager_source net)) fh sz off (r, (m, (sys, sv, s)))))"
proof -
  obtain res c where read: "Backend_Read loopback h (ucast off) (ucast sz) (sys, sv, s) = (res, c)"
    by (cases "Backend_Read loopback h (ucast off) (ucast sz) (sys, sv, s)")
  have "fits sz (fst (cf_read (router (manager_source net)) fh sz off (r, (m, (sys, sv, s)))))"
  proof (cases res)
    case (Inl status)
    then show ?thesis using read assms(2,3)
      by (simp add: cf_read_def router_def reading_backend_def Router_Read_def manager_source_def conn_backend_def Let_def
        on_world_def fits_def failed_def)
  next
    case (Inr b)
    then have "length b \<le> unat (ucast sz :: u32)" using loopback_read_bounded [OF assms(1)] read by simp
    then show ?thesis using mount_read [OF assms(3), of net off sz "(sys, sv, s)" b c] read assms(2) small_size [of sz]
      by (simp add: Inr fits_def)
  qed
  then show ?thesis by (simp add: xattrs_fit)
qed

text \<open>
  C24: The read callback trusts the peer for the length of its reply. A reply of up to a mebibyte is
  copied whole to the caller's buffer whatever number of bytes was asked for, so a peer that
  answers with more writes past the buffer's end.
\<close>

theorem long_reply_overruns:
  assumes "map_of (r_fOpen r) fh = Some \<lparr>oh_backend = ch, oh_backendHandle = h\<rparr>"
    and "n_Request net ch (MakeReadRequest h (ucast off) (ucast sz) 0) w = (Some (mkFrame kRead rid (EncodeReadReply b)), w')"
    and "read_data_ok b" "unat sz < length b"
  shows "cf_read (router (manager_source net)) fh sz off (r, (m, w)) = (Inr (of_nat (length b), b), (r, (m, w'))) \<and>
    \<not> fits sz (fst (cf_read (router (manager_source net)) fh sz off (r, (m, w))))"
proof -
  have "Backend_Read (n_Request net ch) h (ucast off) (ucast sz) w = (Inr b, w')"
    using assms(2,3) by (simp add: Backend_Read_def Exchange_def mkFrame_def message_types read_reply_msg_back)
  from mount_read [OF assms(1) this] show ?thesis using assms(4) by (simp add: fits_def)
qed

section \<open>Witnesses\<close>

text \<open>A network with one endpoint, \<open>a\<close>, where channel 1 answers; and a source with one peer.\<close>

definition key_of :: "nat \<Rightarrow> Fingerprint" where
  "key_of ch = replicate 32 (of_nat ch)"

definition net_with :: "(nat \<Rightarrow> 'w requesting) \<Rightarrow> (nat, 'w) network" where
  "net_with req = \<lparr>n_LoadOrGenerate = (\<lambda>path w. (Some (key_of 0), w)), n_ContextInit = (\<lambda>w. (True, w)),
     n_Connect = (\<lambda>address port w. (Some 1, w)), n_PeerFingerprint = key_of, n_Request = req,
     n_files = (\<lambda>c w. (RBool True, w)),
     n_Endpoints = (\<lambda>w. ([\<lparr>ep_name = ''a'', ep_address = ''10.0.0.9'', ep_port = 17\<rparr>], w))\<rparr>"

definition sample_net :: "(nat, unit) network" where
  "sample_net = net_with (\<lambda>ch request w.
     (if ch = 1 \<and> fr_type request = kHello then Some (MakeWelcome sample_node 0) else None, w))"

definition sample_manager :: "TrustStore \<Rightarrow> (string \<times> nat Conn) list \<Rightarrow> nat ConnectionManager" where
  "sample_manager store conns = (ConnectionManager ''id'' ''trusted'' ''here'')\<lparr>m_fTrust := store, m_fConns := conns\<rparr>"

definition pin_of :: "nat \<Rightarrow> string \<Rightarrow> PinnedPeer" where
  "pin_of ch name = \<lparr>pp_fingerprint = key_of ch, pp_name = name\<rparr>"

definition toy_source :: "(nat, unit) PeerSource" where
  "toy_source = \<lparr>o_PeerNames = (\<lambda>w. ([''a''], w)), o_BackendFor = (\<lambda>name w. (Some 0, w)),
     o_deref = (\<lambda>b. (reading_backend (\<lambda>path w. (Inr sample_file, w)) (\<lambda>path w. (Inr [sample_file], w))
       (\<lambda>path w. (Inr (9, 4), w)) (\<lambda>handle off len w. (Inr [65], w)) (\<lambda>handle w. (Inr (), w)))
       \<lparr>v_Query := \<lambda>predicate w. (Inr [sample_file, sample_file], w)\<rparr>)\<rparr>"

definition one_open :: "nat PathRouter" where
  "one_open = \<lparr>r_fOpen = [(1, \<lparr>oh_backend = 1, oh_backendHandle = 1\<rparr>)], r_fNextHandle = 2\<rparr>"

lemma key_of_differ: "key_of 1 \<noteq> key_of 2"
  by (simp add: key_of_def)

lemma sample_answers: "map_of conns ''a'' = None \<Longrightarrow> answers_at sample_net ''a'' 1 (sample_manager store conns, ()) ()"
  by (simp add: answers_at_def sample_manager_def sample_net_def net_with_def FindEndpoint_def)

theorem pinned_peers_only_witness:
  "pinned (m_fTrust (fst (snd (router_run (manager_source sample_net) [RStat ''/a/f'', RReadDir ''/'']
     (PathRouter, (sample_manager [pin_of 2 ''a''] [], ())))))) (key_of 2) = Some ''a''"
proof -
  let ?s = "router_run (manager_source sample_net) [RStat ''/a/f'', RReadDir ''/''] (PathRouter, (sample_manager [pin_of 2 ''a''] [], ()))"
  obtain r' m' w' where s: "?s = (r', (m', w'))" by (metis prod.exhaust)
  have "m_fConns (sample_manager [pin_of 2 ''a''] []) = []" by (simp add: sample_manager_def)
  from pinned_peers_only [OF this s] show ?thesis unfolding s by (simp add: sample_manager_def pin_of_def)
qed

theorem query_folder_is_the_query_witness:
  "\<exists>es w'. Router_ReadDir toy_source ''/.query/name==x'' (PathRouter, ()) = (Inr es, (PathRouter, w')) \<and>
     length es \<le> 4096 \<and> distinct (map en_name es)"
  using query_folder_is_the_query [of toy_source "()" "[''a'']" "()" "''name==x''" PathRouter]
  by (auto simp: toy_source_def plain_name_def)

theorem mount_reads_the_file_witness:
  "fst (cf_read (router (manager_source (net_with (\<lambda>ch. loopback)))) 1 5 0
     (one_open, (sample_manager [] [], (sample_host, sample_server, ())))) = Inr (5, bytes_of_string ''hello'')"
  using mount_reads_the_file [of one_open 1 1 1 "net_with (\<lambda>ch. loopback)" sample_server "\<lparr>of_fd = 7, of_writable = True\<rparr>" 5
      sample_host 0 "()" "bytes_of_string ''hello''" "()" "sample_manager [] []"]
  by (simp add: one_open_def net_with_def sample_server_def read_length_ok_def kMaxReadLength_def sample_host_def)

theorem long_reply_overruns_witness:
  "\<not> fits 2 (fst (cf_read (router (manager_source (net_with
      (\<lambda>ch request w. (Some (mkFrame kRead 0 (EncodeReadReply [1, 2, 3])), w))))) 1 2 0
    (one_open, (sample_manager [] [], ()))))"
proof -
  let ?net = "net_with (\<lambda>ch request w. (Some (mkFrame kRead 0 (EncodeReadReply [1, 2, 3])), w))"
  have n: "n_Request ?net 1 (MakeReadRequest 1 (ucast 0) (ucast 2) 0) () = (Some (mkFrame kRead 0 (EncodeReadReply [1, 2, 3])), ())"
    by (simp add: net_with_def)
  have o: "map_of (r_fOpen one_open) 1 = Some \<lparr>oh_backend = 1, oh_backendHandle = 1\<rparr>" by (simp add: one_open_def)
  have "read_data_ok [1, 2, 3]" "unat (2 :: u64) < length [1 :: byte, 2, 3]" by (simp_all add: read_data_ok_def kMaxReadLength_def)
  from long_reply_overruns [OF o n this, of "sample_manager [] []"] show ?thesis by (rule conjunct2)
qed

end
