(* ===== verification/KnownHosts.thy ===== *)
theory KnownHosts
  imports Trust
begin

text \<open>
  The SFTP host keys pinned on first use, \<open>fondamenta/backend/SftpKnownHosts.cpp\<close>: the vector of known
  hosts in order, and its file, one line per host. Splitting a file into lines and pairs of
  hexadecimal digits into bytes are those of the trust store.
\<close>

record KnownHost =
  kh_host :: string
  kh_key :: bytes

type_synonym KnownHosts = "KnownHost list"

section \<open>The store\<close>

fun Hosts_Pin :: "string \<Rightarrow> bytes \<Rightarrow> KnownHosts \<Rightarrow> KnownHosts" where
  "Hosts_Pin host key [] = [\<lparr>kh_host = host, kh_key = key\<rparr>]"
| "Hosts_Pin host key (h # hs) =
    (if kh_host h = host then h\<lparr>kh_key := key\<rparr> # hs else h # Hosts_Pin host key hs)"

fun Hosts_Forget :: "string \<Rightarrow> KnownHosts \<Rightarrow> bool \<times> KnownHosts" where
  "Hosts_Forget host [] = (False, [])"
| "Hosts_Forget host (h # hs) =
    (if kh_host h = host then (True, hs)
     else case Hosts_Forget host hs of (found, rest) \<Rightarrow> (found, h # rest))"

fun Hosts_Find :: "string \<Rightarrow> KnownHosts \<Rightarrow> KnownHost option" where
  "Hosts_Find host [] = None"
| "Hosts_Find host (h # hs) = (if kh_host h = host then Some h else Hosts_Find host hs)"

definition IsKnown :: "string \<Rightarrow> KnownHosts \<Rightarrow> bool" where
  "IsKnown host hosts = (Hosts_Find host hosts \<noteq> None)"

definition Hosts_Evaluate :: "string \<Rightarrow> bytes \<Rightarrow> KnownHosts \<Rightarrow> HostKeyStatus" where
  "Hosts_Evaluate host key hosts = (case Hosts_Find host hosts of
     None \<Rightarrow> Host_Unknown
   | Some known \<Rightarrow> if kh_key known = key then Host_Trusted else Host_KeyChanged)"

section \<open>Its file\<close>

definition KeyFromHex :: "string \<Rightarrow> bytes option" where
  "KeyFromHex hex = (if hex = [] \<or> length hex mod 2 \<noteq> 0 then None else hex_pairs hex)"

definition ValidHost :: "string \<Rightarrow> bool" where
  "ValidHost host = (if host = [] then False
     else list_all (\<lambda>c. \<not> (c = CHR '' '' \<or> c = CHR 0x09 \<or> c = CHR 0x0A \<or> c = CHR 0x0D)) host)"

definition host_line :: "KnownHost \<Rightarrow> string" where
  "host_line h = (if \<not> ValidHost (kh_host h) \<or> kh_key h = [] then []
     else kh_host h @ '' '' @ ToHex (kh_key h) @ [CHR 0x0A])"

definition hosts_text :: "KnownHosts \<Rightarrow> string" where
  "hosts_text hosts = concat (map host_line hosts)"

definition Hosts_SaveToFile :: "KnownHosts \<Rightarrow> string \<Rightarrow> bool prog" where
  "Hosts_SaveToFile hosts path = (let tmp = path @ ''.tmp'' in
     pbind (sys_bool (WriteFile tmp (hosts_text hosts))) (\<lambda>good.
       if \<not> good then Ret False
       else pbind (sys_unit (Chmod tmp 0x180)) (\<lambda>_.
         pbind (sys_status (Rename tmp path)) (\<lambda>status. Ret (status = None)))))"

definition parse_host :: "string \<Rightarrow> KnownHost option" where
  "parse_host read_line =
    (let line = (if read_line \<noteq> [] \<and> last read_line = CHR 0x0D then butlast read_line else read_line) in
     if CHR '' '' \<notin> set line then None
     else let host = takeWhile (\<lambda>c. c \<noteq> CHR '' '') line; hex = tl (dropWhile (\<lambda>c. c \<noteq> CHR '' '') line) in
       if \<not> ValidHost host then None
       else case KeyFromHex hex of None \<Rightarrow> None | Some key \<Rightarrow> Some \<lparr>kh_host = host, kh_key = key\<rparr>)"

definition load_hosts :: "string \<Rightarrow> KnownHosts" where
  "load_hosts text = List.map_filter parse_host (getlines text)"

definition Hosts_LoadFromFile :: "KnownHosts \<Rightarrow> string \<Rightarrow> (bool \<times> KnownHosts) prog" where
  "Hosts_LoadFromFile hosts path = pbind (sys_text (ReadFile path)) (\<lambda>text. case text of
     None \<Rightarrow> Ret (False, hosts)
   | Some text \<Rightarrow> Ret (True, load_hosts text))"

section \<open>The store as a map\<close>

text \<open>The key of a host, as every lookup finds it; \<open>hosts_ok\<close> when no host is listed twice.\<close>

definition known :: "KnownHosts \<Rightarrow> string \<Rightarrow> bytes option" where
  "known hosts host = map_option kh_key (Hosts_Find host hosts)"

definition hosts_ok :: "KnownHosts \<Rightarrow> bool" where
  "hosts_ok hosts \<longleftrightarrow> distinct (map kh_host hosts)"

lemma known_simps [simp]:
  "known [] = Map.empty"
  "known (h # hs) = (known hs)(kh_host h \<mapsto> kh_key h)"
  by (auto simp: known_def)

lemma known_None: "known hs host = None \<longleftrightarrow> host \<notin> kh_host ` set hs"
  by (induction hs) auto

lemma known_Pin: "known (Hosts_Pin host key hs) = (known hs)(host \<mapsto> key)"
  by (induction hs) (auto simp: fun_eq_iff)

lemma hosts_Pin: "map kh_host (Hosts_Pin host key hs) =
    (if host \<in> kh_host ` set hs then map kh_host hs else map kh_host hs @ [host])"
  by (induction hs) auto

lemma hosts_ok_Pin: "hosts_ok hs \<Longrightarrow> hosts_ok (Hosts_Pin host key hs)"
  by (auto simp: hosts_ok_def hosts_Pin)

lemma Hosts_Forget_found: "fst (Hosts_Forget host hs) \<longleftrightarrow> host \<in> dom (known hs)"
  by (induction hs) (auto split: prod.splits)

lemma Hosts_Forget_filter:
  "hosts_ok hs \<Longrightarrow> snd (Hosts_Forget host hs) = filter (\<lambda>h. kh_host h \<noteq> host) hs"
proof (induction hs)
  case (Cons h hs)
  then show ?case
    by (auto simp: hosts_ok_def split: prod.splits intro!: filter_True [symmetric]) (metis image_eqI)
qed simp

lemma known_filter: "known (filter (\<lambda>h. kh_host h \<noteq> host) hs) = (known hs)(host := None)"
  by (induction hs) (auto simp: fun_eq_iff)

lemma hosts_ok_Forget: "hosts_ok hs \<Longrightarrow> hosts_ok (snd (Hosts_Forget host hs))"
  by (simp add: Hosts_Forget_filter) (simp add: hosts_ok_def distinct_map_filter)

lemma Hosts_Evaluate_known: "Hosts_Evaluate host key hs =
    (case known hs host of None \<Rightarrow> Host_Unknown | Some k \<Rightarrow> if k = key then Host_Trusted else Host_KeyChanged)"
  by (simp add: Hosts_Evaluate_def known_def split: option.split)

section \<open>A saved file reads back\<close>

definition storable :: "KnownHost \<Rightarrow> bool" where
  "storable h \<longleftrightarrow> ValidHost (kh_host h) \<and> kh_key h \<noteq> []"

lemma KeyFromHex_ToHex: "key \<noteq> [] \<Longrightarrow> KeyFromHex (ToHex key) = Some key"
  by (simp add: KeyFromHex_def hex_pairs_ToHex flip: length_greater_0_conv)

lemma parse_host_line:
  assumes "storable h"
  shows "parse_host (kh_host h @ '' '' @ ToHex (kh_key h)) = Some h"
proof -
  have no: "CHR '' '' \<notin> set (kh_host h)" and valid: "ValidHost (kh_host h)" and key: "kh_key h \<noteq> []"
    using assms by (auto simp: storable_def ValidHost_def list_all_iff split: if_splits)
  have "ToHex (kh_key h) \<noteq> []" using key by (simp flip: length_greater_0_conv)
  then have "last (kh_host h @ CHR '' '' # ToHex (kh_key h)) \<noteq> CHR 0x0D"
    using ToHex_plain [of "kh_key h"] by (metis last_ConsR last_appendR last_in_set list.distinct(1))
  moreover have "takeWhile (\<lambda>c. c \<noteq> CHR '' '') (kh_host h @ CHR '' '' # ToHex (kh_key h)) = kh_host h"
    "dropWhile (\<lambda>c. c \<noteq> CHR '' '') (kh_host h @ CHR '' '' # ToHex (kh_key h)) = CHR '' '' # ToHex (kh_key h)"
    using no by (auto simp: takeWhile_append dropWhile_append)
  ultimately show ?thesis using valid key by (simp add: parse_host_def Let_def KeyFromHex_ToHex)
qed

lemma load_hosts_text: "load_hosts (hosts_text hs) = filter storable hs"
proof (induction hs)
  case (Cons h hs)
  show ?case
  proof (cases "storable h")
    case True
    then have "CHR 0x0A \<notin> set (kh_host h @ '' '' @ ToHex (kh_key h))"
      using ToHex_plain [of "kh_key h"] by (auto simp: storable_def ValidHost_def list_all_iff split: if_splits)
    from getlines_line [OF this, of "hosts_text hs"] show ?thesis using Cons True parse_host_line [OF True]
      by (simp add: load_hosts_def hosts_text_def host_line_def storable_def map_filter_simps)
  next
    case False
    then show ?thesis using Cons by (auto simp: hosts_text_def host_line_def storable_def)
  qed
qed (simp add: load_hosts_def hosts_text_def map_filter_def)

end
