(* ===== verification/Sftp.thy ===== *)
theory Sftp
  imports KnownHosts Sources
begin

text \<open>
  The SFTP backend, \<open>fondamenta/backend/SftpBackend.cpp\<close>: a session over libssh2 whose host key is
  checked on every connect, the file operations, and the one reconnect a path operation may try. The
  calls of libssh2 and of the socket API are calls to the host; an operation is a tree of them.
\<close>

section \<open>Calls\<close>

definition ssh_int :: "ssh_call \<Rightarrow> int prog" where
  "ssh_int = sys_ssh (\<lambda>r. case r of SshInt n \<Rightarrow> n | _ \<Rightarrow> - 1)"
definition ssh_ptr :: "ssh_call \<Rightarrow> nat option prog" where
  "ssh_ptr = sys_ssh (\<lambda>r. case r of SshPtr p \<Rightarrow> p | _ \<Rightarrow> None)"
definition ssh_key :: "ssh_call \<Rightarrow> bytes option prog" where
  "ssh_key = sys_ssh (\<lambda>r. case r of SshKey k \<Rightarrow> k | _ \<Rightarrow> None)"
definition ssh_addrs :: "ssh_call \<Rightarrow> nat list option prog" where
  "ssh_addrs = sys_ssh (\<lambda>r. case r of SshAddrs a \<Rightarrow> a | _ \<Rightarrow> None)"
definition ssh_attrs :: "ssh_call \<Rightarrow> sftp_attrs option prog" where
  "ssh_attrs = sys_ssh (\<lambda>r. case r of SshAttrs a \<Rightarrow> a | _ \<Rightarrow> None)"
definition ssh_names :: "ssh_call \<Rightarrow> ((string \<times> sftp_attrs) list \<times> bool) prog" where
  "ssh_names = sys_ssh (\<lambda>r. case r of SshNames ns failed \<Rightarrow> (ns, failed) | _ \<Rightarrow> ([], True))"
definition ssh_bytes :: "ssh_call \<Rightarrow> bytes option prog" where
  "ssh_bytes = sys_ssh (\<lambda>r. case r of SshBytes b \<Rightarrow> b | _ \<Rightarrow> None)"
definition ssh_status :: "ssh_call \<Rightarrow> sftp_status prog" where
  "ssh_status = sys_ssh (\<lambda>r. case r of SshStatus e \<Rightarrow> e | _ \<Rightarrow> FX_OTHER 0)"
definition ssh_errno :: "ssh_call \<Rightarrow> ssh_errno prog" where
  "ssh_errno = sys_ssh (\<lambda>r. case r of SshErrno e \<Rightarrow> e | _ \<Rightarrow> SSH_OTHER 0)"
definition ssh_bool :: "ssh_call \<Rightarrow> bool prog" where
  "ssh_bool = sys_ssh (\<lambda>r. case r of SshBool b \<Rightarrow> b | _ \<Rightarrow> False)"
definition ssh_unit :: "ssh_call \<Rightarrow> unit prog" where
  "ssh_unit = sys_ssh (\<lambda>_. ())"

section \<open>State\<close>

record SftpConfig =
  sc_host :: string
  sc_port :: u16
  sc_user :: string
  sc_password :: string
  sc_privateKeyPath :: string
  sc_publicKeyPath :: string
  sc_keyPassphrase :: string
  sc_basePath :: string

definition SftpConfig :: SftpConfig where
  "SftpConfig = \<lparr>sc_host = [], sc_port = 22, sc_user = [], sc_password = [], sc_privateKeyPath = [],
     sc_publicKeyPath = [], sc_keyPassphrase = [], sc_basePath = []\<rparr>"

record SftpBackend =
  sf_fSocket :: int
  sf_fSession :: "nat option"
  sf_fSftp :: "nat option"
  sf_fOpen :: "(u64 \<times> nat) list"
  sf_fNextHandle :: u64
  sf_fBasePath :: string
  sf_fError :: "string option"
  sf_fConfig :: SftpConfig
  sf_fKnownHostsPath :: string

definition SftpBackend :: SftpBackend where
  "SftpBackend = \<lparr>sf_fSocket = - 1, sf_fSession = None, sf_fSftp = None, sf_fOpen = [], sf_fNextHandle = 1,
     sf_fBasePath = [], sf_fError = None, sf_fConfig = SftpConfig, sf_fKnownHostsPath = []\<rparr>"

definition IsConnected :: "SftpBackend \<Rightarrow> bool" where
  "IsConnected sb = (sf_fSftp sb \<noteq> None)"

section \<open>Connecting\<close>

text \<open>The addresses \<open>getaddrinfo\<close> found, in order, with the descriptor the last attempt left.\<close>

fun connect_first :: "int \<Rightarrow> nat list \<Rightarrow> int prog" where
  "connect_first fd [] = Ret fd"
| "connect_first _ (p # ps) = pbind (ssh_int (NewSocket p)) (\<lambda>fd.
     if fd < 0 then connect_first fd ps
     else pbind (ssh_int (ConnectSocket fd p)) (\<lambda>rc.
       if rc = 0 then Ret fd
       else pbind (ssh_unit (CloseSocket fd)) (\<lambda>_. connect_first (- 1) ps)))"

definition Sftp_TcpConnect :: "string \<Rightarrow> u16 \<Rightarrow> int prog" where
  "Sftp_TcpConnect host port = pbind (ssh_addrs (GetAddrInfo host port)) (\<lambda>res. case res of
     None \<Rightarrow> Ret (- 1)
   | Some addrs \<Rightarrow> connect_first (- 1) addrs)"

text \<open>\<open>libssh2_sftp_close\<close> on every open handle, in the order of the map.\<close>

fun close_handles :: "(u64 \<times> nat) list \<Rightarrow> unit prog" where
  "close_handles [] = Ret ()"
| "close_handles ((_, h) # rest) = pbind (ssh_unit (SftpClose h)) (\<lambda>_. close_handles rest)"

definition Sftp_Disconnect :: "SftpBackend \<Rightarrow> SftpBackend prog" where
  "Sftp_Disconnect sb =
    pbind (close_handles (sf_fOpen sb)) (\<lambda>_.
    pbind (case sf_fSftp sb of None \<Rightarrow> Ret () | Some sftp \<Rightarrow> ssh_unit (SftpShutdown sftp)) (\<lambda>_.
    pbind (case sf_fSession sb of
        None \<Rightarrow> Ret ()
      | Some session \<Rightarrow> pbind (ssh_unit (SessionDisconnect session)) (\<lambda>_. ssh_unit (SessionFree session))) (\<lambda>_.
    pbind (if sf_fSocket sb \<ge> 0 then ssh_unit (CloseSocket (sf_fSocket sb)) else Ret ()) (\<lambda>_.
    Ret (sb\<lparr>sf_fOpen := [], sf_fSftp := None, sf_fSession := None,
      sf_fSocket := (if sf_fSocket sb \<ge> 0 then - 1 else sf_fSocket sb)\<rparr>)))))"

text \<open>The decision callback; \<open>None\<close> when there is none.\<close>

type_synonym HostKeyDecision = "(HostKeyStatus \<Rightarrow> bytes \<Rightarrow> bool prog) option"

text \<open>Is the host's key trusted or accepted, and the known hosts afterwards.\<close>

definition check_host_key :: "KnownHosts \<Rightarrow> string \<Rightarrow> HostKeyDecision \<Rightarrow> string \<Rightarrow> bytes \<Rightarrow> (bool \<times> KnownHosts) prog" where
  "check_host_key knownHosts knownHostsPath decision host hostKey =
    (let hk = Hosts_Evaluate host hostKey knownHosts in
     if hk = Host_Trusted then Ret (True, knownHosts)
     else pbind (case decision of None \<Rightarrow> Ret False | Some decide \<Rightarrow> decide hk hostKey) (\<lambda>accepted.
       if \<not> accepted then Ret (False, knownHosts)
       else let knownHosts = Hosts_Pin host hostKey knownHosts in
         pbind (Hosts_SaveToFile knownHosts knownHostsPath) (\<lambda>_. Ret (True, knownHosts))))"

text \<open>The result of the authentication call, \<open>None\<close> when no method is configured.\<close>

definition authenticate :: "nat \<Rightarrow> SftpConfig \<Rightarrow> int option prog" where
  "authenticate session config =
    (if sc_password config \<noteq> [] then
       pbind (ssh_int (UserauthPassword session (sc_user config) (sc_password config))) (\<lambda>rc. Ret (Some rc))
     else if sc_privateKeyPath config \<noteq> [] then
       pbind (ssh_int (UserauthPublickey session (sc_user config)
           (if sc_publicKeyPath config = [] then None else Some (sc_publicKeyPath config)) (sc_privateKeyPath config)
           (if sc_keyPassphrase config = [] then None else Some (sc_keyPassphrase config)))) (\<lambda>rc. Ret (Some rc))
     else Ret None)"

text \<open>\<open>fError\<close> set, \<open>Disconnect\<close>, and the status.\<close>

definition give_up :: "SftpBackend \<Rightarrow> string \<Rightarrow> BackendStatus \<Rightarrow> KnownHosts \<Rightarrow> (BackendStatus \<times> SftpBackend \<times> KnownHosts) prog" where
  "give_up sb msg status knownHosts =
    pbind (Sftp_Disconnect (sb\<lparr>sf_fError := Some msg\<rparr>)) (\<lambda>sb. Ret (status, sb, knownHosts))"

definition open_session :: "SftpBackend \<Rightarrow> nat \<Rightarrow> SftpConfig \<Rightarrow> string \<Rightarrow> KnownHosts \<Rightarrow>
    (BackendStatus \<times> SftpBackend \<times> KnownHosts) prog" where
  "open_session sb session config knownHostsPath knownHosts =
    pbind (authenticate session config) (\<lambda>authRc. case authRc of
      None \<Rightarrow> give_up sb ''no authentication method configured'' S_InvalidRequest knownHosts
    | Some rc \<Rightarrow>
        if rc \<noteq> 0 then give_up sb ''authentication failed'' S_AccessDenied knownHosts
        else pbind (ssh_ptr (SftpInit session)) (\<lambda>sftp. case sftp of
            None \<Rightarrow> give_up sb ''SFTP init failed'' S_TransportError knownHosts
          | Some sftp \<Rightarrow> Ret (S_Ok, sb\<lparr>sf_fSftp := Some sftp, sf_fBasePath := sc_basePath config,
              sf_fConfig := config, sf_fKnownHostsPath := knownHostsPath, sf_fError := None\<rparr>, knownHosts)))"

definition Sftp_Connect :: "SftpBackend \<Rightarrow> SftpConfig \<Rightarrow> KnownHosts \<Rightarrow> string \<Rightarrow> HostKeyDecision \<Rightarrow>
    (BackendStatus \<times> SftpBackend \<times> KnownHosts) prog" where
  "Sftp_Connect sb config knownHosts knownHostsPath decision =
    (if IsConnected sb then Ret (S_InvalidRequest, sb\<lparr>sf_fError := Some ''already connected''\<rparr>, knownHosts)
     else pbind (Sftp_TcpConnect (sc_host config) (sc_port config)) (\<lambda>fd.
       let sb = sb\<lparr>sf_fSocket := fd\<rparr> in
       if fd < 0 then Ret (S_TransportError, sb\<lparr>sf_fError := Some ''TCP connect failed''\<rparr>, knownHosts)
       else pbind (ssh_ptr SessionInit) (\<lambda>session. case session of
         None \<Rightarrow> give_up sb ''session init failed'' S_TransportError knownHosts
       | Some session \<Rightarrow> let sb = sb\<lparr>sf_fSession := Some session\<rparr> in
         pbind (ssh_int (SessionHandshake session fd)) (\<lambda>rc.
           if rc \<noteq> 0 then give_up sb ''SSH handshake failed'' S_TransportError knownHosts
           else pbind (ssh_key (SessionHostkey session)) (\<lambda>keyData.
             if keyData \<in> {None, Some []} then give_up sb ''no host key'' S_TransportError knownHosts
             else pbind (check_host_key knownHosts knownHostsPath decision
                 (sc_host config @ '':'' @ decimal (unat (sc_port config))) (the keyData)) (\<lambda>(trusted, knownHosts).
               if \<not> trusted then give_up sb ''host key not accepted'' S_AccessDenied knownHosts
               else open_session sb session config knownHostsPath knownHosts))))))"

definition SessionDead :: "SftpBackend \<Rightarrow> bool prog" where
  "SessionDead sb = (case sf_fSession sb of
     None \<Rightarrow> Ret True
   | Some session \<Rightarrow> pbind (ssh_errno (SessionLastErrno session)) (\<lambda>e. Ret
       (e \<in> {SSH_SOCKET_SEND, SSH_SOCKET_RECV, SSH_SOCKET_DISCONNECT, SSH_SOCKET_TIMEOUT, SSH_TIMEOUT})))"

text \<open>The keys come from the file again; a key that is not pinned there is rejected.\<close>

definition Reconnect :: "SftpBackend \<Rightarrow> (bool \<times> SftpBackend) prog" where
  "Reconnect sb = pbind (Sftp_Disconnect sb) (\<lambda>sb.
     pbind (if sf_fKnownHostsPath sb \<noteq> [] then Hosts_LoadFromFile [] (sf_fKnownHostsPath sb) else Ret (False, [])) (\<lambda>(_, knownHosts).
       pbind (Sftp_Connect sb (sf_fConfig sb) knownHosts (sf_fKnownHostsPath sb) (Some (\<lambda>_ _. Ret False)))
         (\<lambda>(status, sb, _). Ret (status = S_Ok, sb))))"

definition ReconnectIfDead :: "SftpBackend \<Rightarrow> (bool \<times> SftpBackend) prog" where
  "ReconnectIfDead sb = pbind (SessionDead sb) (\<lambda>dead. if dead then Reconnect sb else Ret (False, sb))"

section \<open>Paths, attributes and errors\<close>

definition RemotePath :: "SftpBackend \<Rightarrow> string \<Rightarrow> string" where
  "RemotePath sb reqPath =
    (if sf_fBasePath sb = [] then reqPath
     else if reqPath = ''/'' then sf_fBasePath sb
     else sf_fBasePath sb @ reqPath)"

fun strip_slashes :: "string \<Rightarrow> string" where
  "strip_slashes rpath = (case rpath of
     a # b # rest \<Rightarrow> if a = CHR ''/'' then strip_slashes (b # rest) else rpath
   | _ \<Rightarrow> rpath)"

text \<open>\<open>strip_slashes\<close> works on the reversed path, whose first character is the last one of the path.\<close>

definition LeafName :: "string \<Rightarrow> string" where
  "LeafName path = (let path = rev (strip_slashes (rev path)) in
     if path = ''/'' \<or> path = [] then ''.''
     else if CHR ''/'' \<notin> set path then path
     else rev (takeWhile (\<lambda>c. c \<noteq> CHR ''/'') (rev path)))"

definition FillWireStat :: "sftp_attrs \<Rightarrow> Stat" where
  "FillWireStat a =
    \<lparr>st_mode = (case sa_permissions a of Some p \<Rightarrow> ucast p | None \<Rightarrow> 0),
     st_size = (case sa_size a of Some n \<Rightarrow> n | None \<Rightarrow> 0),
     st_mtime = (case sa_mtime a of Some t \<Rightarrow> t | None \<Rightarrow> 0),
     st_crtime = (case sa_mtime a of Some t \<Rightarrow> t | None \<Rightarrow> 0),
     st_inode = 0\<rparr>"

definition SftpError :: "SftpBackend \<Rightarrow> BackendStatus prog" where
  "SftpError sb = pbind (ssh_status (SftpLastError (sf_fSftp sb))) (\<lambda>e. Ret (case e of
     FX_NO_SUCH_FILE \<Rightarrow> S_NotFound | FX_NO_SUCH_PATH \<Rightarrow> S_NotFound
   | FX_PERMISSION_DENIED \<Rightarrow> S_AccessDenied | FX_NOT_A_DIRECTORY \<Rightarrow> S_NotADirectory
   | FX_OP_UNSUPPORTED \<Rightarrow> S_Unsupported | FX_OTHER _ \<Rightarrow> S_IoError))"

section \<open>The operations\<close>

text \<open>
  The loop around every operation on a path, \<open>for (attempt = 0; attempt < 2; ++attempt)\<close>: connect
  when there is no session, try, and after a first failure try once more if the session was dead and
  the reconnect worked. \<open>left\<close> counts the rounds that remain; an attempt is \<open>None\<close> when its call failed.
\<close>

type_synonym 'a sftp_op = "('a outcome \<times> SftpBackend) prog"

primrec attempts :: "nat \<Rightarrow> (SftpBackend \<Rightarrow> nat \<Rightarrow> ('a \<times> SftpBackend) option prog) \<Rightarrow> SftpBackend \<Rightarrow> 'a sftp_op" where
  "attempts 0 try_op sb = Ret (Inl S_IoError, sb)"
| "attempts (Suc left) try_op sb = pbind (if IsConnected sb then Ret (True, sb) else Reconnect sb) (\<lambda>(ready, sb).
     if \<not> ready then Ret (Inl S_TransportError, sb)
     else pbind (try_op sb (the (sf_fSftp sb))) (\<lambda>r. case r of
         Some (out, sb) \<Rightarrow> Ret (Inr out, sb)
       | None \<Rightarrow> pbind (if left = 1 then ReconnectIfDead sb else Ret (False, sb)) (\<lambda>(again, sb).
           if again then attempts left try_op sb
           else pbind (SftpError sb) (\<lambda>status. Ret (Inl status, sb)))))"

text \<open>An attempt that is one call with result 0 for success.\<close>

definition try_call :: "ssh_call \<Rightarrow> SftpBackend \<Rightarrow> (unit \<times> SftpBackend) option prog" where
  "try_call c sb = pbind (ssh_int c) (\<lambda>rc. Ret (if rc = 0 then Some ((), sb) else None))"

definition Sftp_Stat :: "SftpBackend \<Rightarrow> string \<Rightarrow> Entry sftp_op" where
  "Sftp_Stat sb path = (let remote = RemotePath sb path in
     attempts 2 (\<lambda>sb sftp. pbind (ssh_attrs (SftpStat sftp remote)) (\<lambda>attrs. Ret (case attrs of
       None \<Rightarrow> None
     | Some a \<Rightarrow> Some (\<lparr>en_name = LeafName path, en_stat = FillWireStat a, en_attrs = []\<rparr>, sb)))) sb)"

definition Sftp_ReadDir :: "SftpBackend \<Rightarrow> string \<Rightarrow> Entry list sftp_op" where
  "Sftp_ReadDir sb path = (let remote = RemotePath sb path in
     attempts 2 (\<lambda>sb sftp. pbind (ssh_ptr (SftpOpendir sftp remote)) (\<lambda>dir. case dir of
       None \<Rightarrow> Ret None
     | Some dir \<Rightarrow> pbind (ssh_names (SftpReaddir dir)) (\<lambda>(names, readError).
         pbind (ssh_unit (SftpClosedir dir)) (\<lambda>_.
           if readError then Ret None
           else Ret (Some (map (\<lambda>(leaf, a). \<lparr>en_name = leaf, en_stat = FillWireStat a, en_attrs = []\<rparr>)
             (filter (\<lambda>(leaf, a). \<not> (leaf = ''.'' \<or> leaf = ''..'')) names), sb)))))) sb)"

definition add_handle :: "nat \<Rightarrow> SftpBackend \<Rightarrow> u64 \<times> SftpBackend" where
  "add_handle h sb = (let handle = sf_fNextHandle sb in
     (handle, sb\<lparr>sf_fNextHandle := handle + 1, sf_fOpen := AList.update handle h (sf_fOpen sb)\<rparr>))"

definition Sftp_Open :: "SftpBackend \<Rightarrow> string \<Rightarrow> (u64 \<times> u64) sftp_op" where
  "Sftp_Open sb path = (let remote = RemotePath sb path in
     attempts 2 (\<lambda>sb sftp. pbind (ssh_ptr (SftpOpen sftp remote [FXF_READ] 0)) (\<lambda>h. case h of
       None \<Rightarrow> Ret None
     | Some h \<Rightarrow> pbind (ssh_attrs (SftpFstat h)) (\<lambda>attrs.
         let sz = (case attrs of Some a \<Rightarrow> (case sa_size a of Some n \<Rightarrow> n | None \<Rightarrow> 0) | None \<Rightarrow> 0);
             (handle, sb) = add_handle h sb
         in Ret (Some ((handle, sz), sb))))) sb)"

text \<open>The loop of \<open>Read\<close>: \<open>out\<close> is the part of the buffer that is filled.\<close>

function read_loop :: "nat \<Rightarrow> nat \<Rightarrow> bytes \<Rightarrow> bytes outcome prog" where
  "read_loop h len out =
    (if length out < len then Call (Ssh (SftpRead h (len - length out))) (\<lambda>r. case as_ssh r of
        SshBytes (Some d) \<Rightarrow> if d = [] then Ret (Inr out) else read_loop h len (out @ d)
      | _ \<Rightarrow> Ret (Inl S_IoError))
     else Ret (Inr out))"
  by pat_completeness auto
termination by (relation "measure (\<lambda>(h, len, out). len - length out)") (auto simp flip: length_greater_0_conv)

declare read_loop.simps [simp del]

definition Sftp_Read :: "SftpBackend \<Rightarrow> u64 \<Rightarrow> u64 \<Rightarrow> u32 \<Rightarrow> bytes sftp_op" where
  "Sftp_Read sb handle off len = (case map_of (sf_fOpen sb) handle of
     None \<Rightarrow> Ret (Inl S_BadHandle, sb)
   | Some h \<Rightarrow> pbind (ssh_unit (SftpSeek h off)) (\<lambda>_.
       pbind (read_loop h (unat len) []) (\<lambda>out. Ret (out, sb))))"

definition Sftp_Close :: "SftpBackend \<Rightarrow> u64 \<Rightarrow> unit sftp_op" where
  "Sftp_Close sb handle = (case map_of (sf_fOpen sb) handle of
     None \<Rightarrow> Ret (Inl S_BadHandle, sb)
   | Some h \<Rightarrow> pbind (ssh_unit (SftpClose h)) (\<lambda>_.
       Ret (Inr (), sb\<lparr>sf_fOpen := AList.delete handle (sf_fOpen sb)\<rparr>)))"

definition Sftp_OpenWrite :: "SftpBackend \<Rightarrow> string \<Rightarrow> u64 sftp_op" where
  "Sftp_OpenWrite sb path = (let remote = RemotePath sb path in
     attempts 2 (\<lambda>sb sftp. pbind (ssh_ptr (SftpOpen sftp remote [FXF_WRITE, FXF_CREAT, FXF_TRUNC] 420)) (\<lambda>h.
       Ret (map_option (\<lambda>h. add_handle h sb) h))) sb)"

text \<open>The loop of \<open>Write\<close>: what is left to send and the count sent.\<close>

function write_loop :: "nat \<Rightarrow> bytes \<Rightarrow> nat \<Rightarrow> nat outcome prog" where
  "write_loop h dat sent =
    (if sent < length dat then Call (Ssh (SftpWrite h (drop sent dat))) (\<lambda>r.
        let n = (case as_ssh r of SshInt n \<Rightarrow> n | _ \<Rightarrow> - 1) in
        if n < 0 then Ret (Inl S_IoError)
        else if n = 0 then Ret (Inr sent)
        else write_loop h dat (sent + nat n))
     else Ret (Inr sent))"
  by pat_completeness auto
termination by (relation "measure (\<lambda>(h, dat, sent). length dat - sent)") auto

declare write_loop.simps [simp del]

definition Sftp_Write :: "SftpBackend \<Rightarrow> u64 \<Rightarrow> u64 \<Rightarrow> bytes \<Rightarrow> u64 sftp_op" where
  "Sftp_Write sb handle off dat = (case map_of (sf_fOpen sb) handle of
     None \<Rightarrow> Ret (Inl S_BadHandle, sb)
   | Some h \<Rightarrow> pbind (ssh_unit (SftpSeek h off)) (\<lambda>_.
       pbind (write_loop h dat 0) (\<lambda>r. Ret (map_sum id of_nat r, sb))))"

definition Sftp_Mkdir :: "SftpBackend \<Rightarrow> string \<Rightarrow> u32 \<Rightarrow> unit sftp_op" where
  "Sftp_Mkdir sb path mode = (let remote = RemotePath sb path; m = (if mode AND 0x1FF \<noteq> 0 then uint (mode AND 0x1FF) else 0x1ED) in
     attempts 2 (\<lambda>sb sftp. try_call (SftpMkdir sftp remote m) sb) sb)"

definition Sftp_Unlink :: "SftpBackend \<Rightarrow> string \<Rightarrow> unit sftp_op" where
  "Sftp_Unlink sb path = (let remote = RemotePath sb path in
     attempts 2 (\<lambda>sb sftp. pbind (ssh_attrs (SftpStat sftp remote)) (\<lambda>attrs.
       let isDir = (case attrs of None \<Rightarrow> False | Some a \<Rightarrow> (case sa_permissions a of None \<Rightarrow> False | Some p \<Rightarrow> S_ISDIR (ucast p)))
       in try_call (if isDir then SftpRmdir sftp remote else SftpUnlink sftp remote) sb)) sb)"

definition Sftp_Rename :: "SftpBackend \<Rightarrow> string \<Rightarrow> string \<Rightarrow> unit sftp_op" where
  "Sftp_Rename sb src dst = (let remoteFrom = RemotePath sb src; remoteTo = RemotePath sb dst in
     attempts 2 (\<lambda>sb sftp. try_call (SftpRename sftp remoteFrom remoteTo) sb) sb)"

definition Sftp_Truncate :: "SftpBackend \<Rightarrow> string \<Rightarrow> u64 \<Rightarrow> unit sftp_op" where
  "Sftp_Truncate sb path sz = (let remote = RemotePath sb path in
     attempts 2 (\<lambda>sb sftp. try_call (SftpSetstat sftp remote \<lparr>sa_permissions = None, sa_size = Some sz, sa_mtime = None\<rparr>) sb) sb)"

text \<open>
  Calls of the class in any order, as its users make them: \<open>Connect\<close> asks about a key through the
  callback, the other operations return to the caller whatever they find.
\<close>

definition asking :: HostKeyDecision where
  "asking = Some (\<lambda>hk key. ssh_bool (DecideKey hk key))"

datatype sftp_request = SR_Connect SftpConfig KnownHosts string | SR_Disconnect | SR_Stat string | SR_ReadDir string
  | SR_Open string | SR_Read u64 u64 u32 | SR_Close u64 | SR_OpenWrite string | SR_Write u64 u64 bytes
  | SR_Mkdir string u32 | SR_Unlink string | SR_Rename string string | SR_Truncate string u64

definition state_after :: "'a sftp_op \<Rightarrow> SftpBackend prog" where
  "state_after m = pbind m (\<lambda>(_, sb). Ret sb)"

fun sftp_call :: "sftp_request \<Rightarrow> SftpBackend \<Rightarrow> SftpBackend prog" where
  "sftp_call (SR_Connect config hosts path) sb = pbind (Sftp_Connect sb config hosts path asking) (\<lambda>(_, sb, _). Ret sb)"
| "sftp_call SR_Disconnect sb = Sftp_Disconnect sb"
| "sftp_call (SR_Stat path) sb = state_after (Sftp_Stat sb path)"
| "sftp_call (SR_ReadDir path) sb = state_after (Sftp_ReadDir sb path)"
| "sftp_call (SR_Open path) sb = state_after (Sftp_Open sb path)"
| "sftp_call (SR_Read handle off len) sb = state_after (Sftp_Read sb handle off len)"
| "sftp_call (SR_Close handle) sb = state_after (Sftp_Close sb handle)"
| "sftp_call (SR_OpenWrite path) sb = state_after (Sftp_OpenWrite sb path)"
| "sftp_call (SR_Write handle off dat) sb = state_after (Sftp_Write sb handle off dat)"
| "sftp_call (SR_Mkdir path mode) sb = state_after (Sftp_Mkdir sb path mode)"
| "sftp_call (SR_Unlink path) sb = state_after (Sftp_Unlink sb path)"
| "sftp_call (SR_Rename src dst) sb = state_after (Sftp_Rename sb src dst)"
| "sftp_call (SR_Truncate path sz) sb = state_after (Sftp_Truncate sb path sz)"

primrec sftp_calls :: "sftp_request list \<Rightarrow> SftpBackend \<Rightarrow> SftpBackend prog" where
  "sftp_calls [] sb = Ret sb"
| "sftp_calls (q # qs) sb = pbind (sftp_call q sb) (sftp_calls qs)"

text \<open>The backend as the FUSE front end calls it, over a system and its state.\<close>

definition on_sftp :: "'os system \<Rightarrow> (SftpBackend \<Rightarrow> 'a sftp_op) \<Rightarrow> SftpBackend \<times> 'os \<Rightarrow> 'a outcome \<times> SftpBackend \<times> 'os" where
  "on_sftp sys f w = (case w of (sb, s) \<Rightarrow> (case run sys (f sb) s of ((out, sb), s, log) \<Rightarrow> (out, sb, s)))"

definition sftp_backend :: "'os system \<Rightarrow> (SftpBackend \<times> 'os) PeerBackend" where
  "sftp_backend sys =
    (reading_backend (\<lambda>path. on_sftp sys (\<lambda>sb. Sftp_Stat sb path)) (\<lambda>path. on_sftp sys (\<lambda>sb. Sftp_ReadDir sb path))
      (\<lambda>path. on_sftp sys (\<lambda>sb. Sftp_Open sb path)) (\<lambda>handle off len. on_sftp sys (\<lambda>sb. Sftp_Read sb handle off len))
      (\<lambda>handle. on_sftp sys (\<lambda>sb. Sftp_Close sb handle)))
    \<lparr>v_OpenWrite := (\<lambda>path. on_sftp sys (\<lambda>sb. Sftp_OpenWrite sb path)),
     v_Write := (\<lambda>handle off dat. on_sftp sys (\<lambda>sb. Sftp_Write sb handle off dat)),
     v_Mkdir := (\<lambda>path mode. on_sftp sys (\<lambda>sb. Sftp_Mkdir sb path mode)),
     v_Unlink := (\<lambda>path. on_sftp sys (\<lambda>sb. Sftp_Unlink sb path)),
     v_Rename := (\<lambda>src dst. on_sftp sys (\<lambda>sb. Sftp_Rename sb src dst)),
     v_Truncate := (\<lambda>path sz. on_sftp sys (\<lambda>sb. Sftp_Truncate sb path sz))\<rparr>"

end
