(* ===== verification/SftpSafety.thy ===== *)
theory SftpSafety
  imports Sftp
begin

text \<open>
  What every operation of the SFTP backend keeps: the session's objects are there together or not at
  all, and no credential goes to a host whose key was not found trustworthy. Both are instances of one
  contract between a connection and what it relies on, the locale \<open>session_policy\<close>.
\<close>

section \<open>Invariants of the session\<close>

definition sftp_ok :: "SftpBackend \<Rightarrow> bool" where
  "sftp_ok sb = (case sf_fSftp sb of
     None \<Rightarrow> sf_fSession sb = None \<and> sf_fSocket sb < 0 \<and> sf_fOpen sb = []
   | Some _ \<Rightarrow> sf_fSession sb \<noteq> None \<and> sf_fSocket sb \<ge> 0)"

text \<open>The calls that hand the user's secrets to the other side.\<close>

fun credential :: "syscall \<Rightarrow> bool" where
  "credential (Ssh (UserauthPassword _ _ _)) = True"
| "credential (Ssh (UserauthPublickey _ _ _ _ _)) = True"
| "credential _ = False"

text \<open>The name under which a configuration's host is pinned.\<close>

definition host_name :: "SftpConfig \<Rightarrow> string" where
  "host_name config = sc_host config @ '':'' @ decimal (unat (sc_port config))"

lemma wp_ssh: "wp P Q (sys_ssh get c) post \<longleftrightarrow> P (Ssh c) \<and> (\<forall>r. Q (Ssh c) r \<longrightarrow> post (get (as_ssh r)))"
  by (simp add: sys_ssh_def)

lemma wp_ssh_any: "P (Ssh c) \<Longrightarrow> (\<And>x. wp P Q (f x) post) \<Longrightarrow> wp P Q (pbind (sys_ssh get c) f) post"
  by (simp add: wp_pbind wp_ssh)

lemmas ssh_calls = ssh_int_def ssh_ptr_def ssh_key_def ssh_addrs_def ssh_attrs_def ssh_names_def ssh_bytes_def
  ssh_status_def ssh_errno_def ssh_bool_def ssh_unit_def

lemma wp_pre: "(\<And>c. \<not> credential c \<Longrightarrow> P c) \<Longrightarrow> wp (\<lambda>c. \<not> credential c) Q m post \<Longrightarrow> wp P Q m post"
  by (rule wp_calls_mono [where P = "\<lambda>c. \<not> credential c"])

section \<open>Operations that need no trust\<close>

lemma wp_connect_first: "wp (\<lambda>c. \<not> credential c) Q (connect_first fd ps) (\<lambda>_. True)"
  by (induction fd ps rule: connect_first.induct) (auto simp: wp_pbind ssh_calls wp_ssh)

lemma wp_TcpConnect: "wp (\<lambda>c. \<not> credential c) Q (Sftp_TcpConnect host port) (\<lambda>_. True)"
  by (auto simp: Sftp_TcpConnect_def wp_pbind ssh_calls wp_ssh wp_connect_first split: option.split)

lemma wp_close_handles: "wp (\<lambda>c. \<not> credential c) Q (close_handles hs) (\<lambda>_. True)"
  by (induction hs rule: close_handles.induct) (auto simp: wp_pbind ssh_calls wp_ssh)

definition closed :: "SftpBackend \<Rightarrow> SftpBackend" where
  "closed sb = sb\<lparr>sf_fOpen := [], sf_fSftp := None, sf_fSession := None,
      sf_fSocket := (if sf_fSocket sb \<ge> 0 then - 1 else sf_fSocket sb)\<rparr>"

lemma closed_ok [simp]: "sftp_ok (closed sb)" "\<not> IsConnected (closed sb)"
  "sf_fConfig (closed sb) = sf_fConfig sb" "sf_fKnownHostsPath (closed sb) = sf_fKnownHostsPath sb"
  by (simp_all add: sftp_ok_def closed_def IsConnected_def)

lemma wp_Disconnect: "wp (\<lambda>c. \<not> credential c) Q (Sftp_Disconnect sb) (\<lambda>sb'. sb' = closed sb)"
  unfolding Sftp_Disconnect_def
  by (rule wp_bind [OF wp_close_handles]) (auto simp: wp_pbind ssh_calls wp_ssh closed_def split: option.split)

lemma wp_SaveToFile: "wp (\<lambda>c. \<not> credential c) Q (Hosts_SaveToFile hosts path) (\<lambda>_. True)"
  by (auto simp: Hosts_SaveToFile_def Let_def wp_simps)

lemma wp_SftpError: "wp (\<lambda>c. \<not> credential c) Q (SftpError sb) (\<lambda>_. True)"
  by (simp add: SftpError_def wp_pbind ssh_calls wp_ssh)

lemma wp_SessionDead: "wp (\<lambda>c. \<not> credential c) Q (SessionDead sb) (\<lambda>_. True)"
  by (simp add: SessionDead_def wp_pbind ssh_calls wp_ssh split: option.split)

section \<open>The contract of a connection\<close>

text \<open>A key the host may present.\<close>

definition presents :: "(syscall \<Rightarrow> reply \<Rightarrow> bool) \<Rightarrow> bytes \<Rightarrow> bool" where
  "presents Q key \<longleftrightarrow> (\<exists>session r. Q (Ssh (SessionHostkey session)) r \<and> as_ssh r = SshKey (Some key))"

text \<open>
  \<open>allowed\<close> says whether credentials may be sent, \<open>live\<close> whether there was a session before. The laws: what is trusted by a vouched store, or
  accepted when asked, is allowed; and the file holds a vouched store.
\<close>

locale session_policy =
  fixes P :: "syscall \<Rightarrow> bool" and Q :: "syscall \<Rightarrow> reply \<Rightarrow> bool" and allowed live :: bool
    and host path :: string and vouched :: "KnownHosts \<Rightarrow> bool"
  assumes plain: "\<not> credential c \<Longrightarrow> P c" and allow: "allowed \<Longrightarrow> P c"
    and loaded: "Q (ReadFile path) (RText (Some text)) \<Longrightarrow> vouched (load_hosts text)" and empty: "vouched []"
    and trusted: "vouched hosts \<Longrightarrow> presents Q key \<Longrightarrow> Hosts_Evaluate host key hosts = Host_Trusted \<Longrightarrow> allowed"
    and accepted: "presents Q key \<Longrightarrow> Q (Ssh (DecideKey hk key)) r \<Longrightarrow> as_ssh r = SshBool True \<Longrightarrow> allowed"
begin

definition fits :: "SftpBackend \<Rightarrow> bool" where
  "fits sb \<longleftrightarrow> sftp_ok sb \<and> (IsConnected sb \<longrightarrow> allowed \<or> live) \<and>
    (sf_fKnownHostsPath sb = [] \<or> sf_fKnownHostsPath sb = path \<and> host_name (sf_fConfig sb) = host)"

lemma calm: "wp (\<lambda>c. \<not> credential c) Q m post \<Longrightarrow> wp P Q m post"
  using plain by (rule wp_pre)

lemma fits_closed: "fits sb \<Longrightarrow> fits (closed sb)"
  by (simp add: fits_def)

lemma check_asking:
  assumes "vouched hosts" "presents Q key"
  shows "wp P Q (check_host_key hosts p asking host key) (\<lambda>(ok, _). ok \<longrightarrow> allowed)"
proof -
  have "wp P Q (Hosts_SaveToFile hs p) (\<lambda>_. True)" for hs by (rule calm [OF wp_SaveToFile])
  then show ?thesis using trusted [OF assms] accepted [OF assms(2)] plain
    by (auto simp: check_host_key_def asking_def Let_def wp_pbind ssh_calls wp_ssh intro: wp_mono split: ssh_reply.splits)
qed

lemma check_rejecting:
  assumes "hosts = [] \<or> vouched hosts \<and> h = host" "presents Q key"
  shows "wp P Q (check_host_key hosts p (Some (\<lambda>_ _. Ret False)) h key) (\<lambda>(ok, _). ok \<longrightarrow> allowed)"
  using assms trusted [of hosts key] by (auto simp: check_host_key_def Let_def Hosts_Evaluate_def)

lemma give_up_closes:
  "wp P Q (give_up sb msg status hosts) (\<lambda>(status', sb', _). status' = status \<and> sb' = closed (sb\<lparr>sf_fError := Some msg\<rparr>))"
  using calm [OF wp_Disconnect [of Q "sb\<lparr>sf_fError := Some msg\<rparr>"]] by (auto simp: give_up_def intro!: wp_bind)

lemma open_session_allowed:
  assumes allowed "sf_fSession sb = Some session" "sf_fSocket sb \<ge> 0" "sf_fSftp sb = None"
  shows "wp P Q (open_session sb session config p hosts) (\<lambda>(status, sb', _).
    (status = S_Ok \<and> IsConnected sb' \<and> sftp_ok sb' \<and> sf_fConfig sb' = config \<and> sf_fKnownHostsPath sb' = p) \<or>
    (status \<noteq> S_Ok \<and> (\<exists>msg. sb' = closed (sb\<lparr>sf_fError := Some msg\<rparr>))))"
proof -
  have "wp P Q (give_up sb msg status hosts) (\<lambda>(status', sb', _).
      (status' = S_Ok \<and> IsConnected sb' \<and> sftp_ok sb' \<and> sf_fConfig sb' = config \<and> sf_fKnownHostsPath sb' = p) \<or>
      (status' \<noteq> S_Ok \<and> (\<exists>msg. sb' = closed (sb\<lparr>sf_fError := Some msg\<rparr>))))" if "status \<noteq> S_Ok" for msg status
    by (rule wp_mono [OF give_up_closes]) (use that in auto)
  then show ?thesis using assms allow
    by (auto simp: open_session_def authenticate_def wp_pbind ssh_calls wp_ssh IsConnected_def sftp_ok_def split: option.split)
qed

lemma Connect_checked:
  assumes sb: "sftp_ok sb" "\<not> IsConnected sb"
    and check: "\<And>key. presents Q key \<Longrightarrow>
      wp P Q (check_host_key hosts p decision (host_name config) key) (\<lambda>(ok, _). ok \<longrightarrow> allowed)"
  shows "wp P Q (Sftp_Connect sb config hosts p decision) (\<lambda>(status, sb', _). sftp_ok sb' \<and> (status = S_Ok \<longleftrightarrow> IsConnected sb') \<and>
    (if status = S_Ok then allowed \<and> sf_fConfig sb' = config \<and> sf_fKnownHostsPath sb' = p
     else sf_fConfig sb' = sf_fConfig sb \<and> sf_fKnownHostsPath sb' = sf_fKnownHostsPath sb))" (is "wp P Q _ ?post")
proof -
  have sftp: "sf_fSftp sb = None" using sb by (simp add: IsConnected_def)
  have fail: "wp P Q (give_up (sb\<lparr>sf_fSocket := fd, sf_fSession := session\<rparr>) msg status hosts') ?post"
    if "status \<noteq> S_Ok" for fd session msg status hosts'
    by (rule wp_mono [OF give_up_closes]) (use that in auto)
  have fail0: "wp P Q (give_up (sb\<lparr>sf_fSocket := fd\<rparr>) msg status hosts') ?post" if "status \<noteq> S_Ok" for fd msg status hosts'
    by (rule wp_mono [OF give_up_closes]) (use that in auto)
  have opened: "wp P Q (open_session (sb\<lparr>sf_fSocket := fd, sf_fSession := Some session\<rparr>) session config p hosts') ?post"
    if allowed "\<not> fd < 0" for fd session hosts'
    by (rule wp_mono [OF open_session_allowed]) (use that sftp in auto)
  have keyed: "wp P Q (pbind (check_host_key hosts p decision (sc_host config @ '':'' @ decimal (unat (sc_port config))) key)
      (\<lambda>(trusted, knownHosts).
               if \<not> trusted then give_up (sb\<lparr>sf_fSocket := fd, sf_fSession := Some session\<rparr>) ''host key not accepted'' S_AccessDenied knownHosts
               else open_session (sb\<lparr>sf_fSocket := fd, sf_fSession := Some session\<rparr>) session config p knownHosts)) ?post"
    if "presents Q key" "\<not> fd < 0" for key fd session
    by (rule wp_bind [OF check [OF that(1), unfolded host_name_def]]) (use that fail opened in auto)
  have tcp: "wp P Q (Sftp_TcpConnect h n) (\<lambda>_. True)" for h n by (rule calm [OF wp_TcpConnect])
  have refused: "sftp_ok (sb\<lparr>sf_fSocket := fd, sf_fError := e\<rparr>) \<and> \<not> IsConnected (sb\<lparr>sf_fSocket := fd, sf_fError := e\<rparr>)"
    if "fd < 0" for fd e
    using sb that sftp by (simp add: sftp_ok_def IsConnected_def)
  have plain': "P (Ssh SessionInit)" "P (Ssh (SessionHandshake s fd))" "P (Ssh (SessionHostkey s))" for s fd
    by (simp_all add: plain)
  have key: "wp P Q (ssh_key (SessionHostkey s)) (\<lambda>k. \<forall>key. k = Some key \<longrightarrow> presents Q key)" for s
    by (auto simp: ssh_calls wp_ssh plain' presents_def split: ssh_reply.splits)
  show ?thesis
    unfolding Sftp_Connect_def Let_def ssh_ptr_def ssh_int_def if_not_P [OF sb(2)]
  proof (intro wp_bind [OF tcp] wp_bind [OF key] wp_if wp_case_option wp_ssh_any plain')
  qed (use refused in \<open>auto simp: fail fail0 intro!: keyed [unfolded append_Cons append_Nil]\<close>)
qed

lemma Load_vouched: "wp P Q (Hosts_LoadFromFile [] path) (\<lambda>(_, hosts). vouched hosts)"
  using loaded empty by (auto simp: Hosts_LoadFromFile_def wp_simps plain split: option.split reply.split)

lemma Reconnect_fits: "fits sb \<Longrightarrow> wp P Q (Reconnect sb) (\<lambda>(ok, sb'). fits sb' \<and> (ok \<longleftrightarrow> IsConnected sb'))"
proof -
  assume sb: "fits sb"
  have load: "wp P Q (if sf_fKnownHostsPath (closed sb) \<noteq> [] then Hosts_LoadFromFile [] (sf_fKnownHostsPath (closed sb)) else Ret (False, []))
      (\<lambda>(_, hosts). hosts = [] \<or> vouched hosts \<and> sf_fKnownHostsPath sb = path \<and> host_name (sf_fConfig sb) = host)"
    using sb wp_mono [OF Load_vouched, of "\<lambda>(_, hosts). hosts = [] \<or> vouched hosts"] by (auto simp: fits_def)
  have connect: "wp P Q (pbind (Sftp_Connect (closed sb) (sf_fConfig (closed sb)) hosts (sf_fKnownHostsPath (closed sb)) (Some (\<lambda>_ _. Ret False)))
      (\<lambda>(status, sb, _). Ret (status = S_Ok, sb))) (\<lambda>(ok, sb'). fits sb' \<and> (ok \<longleftrightarrow> IsConnected sb'))"
    if "hosts = [] \<or> vouched hosts \<and> sf_fKnownHostsPath sb = path \<and> host_name (sf_fConfig sb) = host" for hosts
    using that sb by (intro wp_bind [OF Connect_checked] check_rejecting) (auto simp: fits_def split: if_splits)
  have "wp P Q (pbind (if sf_fKnownHostsPath a \<noteq> [] then Hosts_LoadFromFile [] (sf_fKnownHostsPath a) else Ret (False, [])) (\<lambda>(_, hosts).
       pbind (Sftp_Connect a (sf_fConfig a) hosts (sf_fKnownHostsPath a) (Some (\<lambda>_ _. Ret False)))
         (\<lambda>(status, sb, _). Ret (status = S_Ok, sb)))) (\<lambda>(ok, sb'). fits sb' \<and> (ok \<longleftrightarrow> IsConnected sb'))" if "a = closed sb" for a
    unfolding that by (rule wp_bind [OF load]) (clarify, rule connect)
  then show ?thesis unfolding Reconnect_def by (rule wp_bind [OF calm [OF wp_Disconnect]])
qed

lemma ReconnectIfDead_fits: "fits sb \<Longrightarrow> wp P Q (ReconnectIfDead sb) (\<lambda>(ok, sb'). fits sb' \<and> (ok \<longrightarrow> IsConnected sb'))"
  unfolding ReconnectIfDead_def
  by (rule wp_bind [OF calm [OF wp_SessionDead]]) (auto intro: wp_mono [OF Reconnect_fits])

text \<open>What an attempt at an operation has to keep.\<close>

definition kept :: "('a \<times> SftpBackend) option \<Rightarrow> bool" where
  "kept r \<longleftrightarrow> (case r of None \<Rightarrow> True | Some (a, sb) \<Rightarrow> fits sb)"

lemma attempts_fits:
  assumes "\<And>sb sftp. fits sb \<Longrightarrow> IsConnected sb \<Longrightarrow> wp P Q (try_op sb sftp) kept"
  shows "fits sb \<Longrightarrow> wp P Q (attempts n try_op sb) (\<lambda>(_, sb'). fits sb')"
proof (induction n arbitrary: sb)
  case (Suc n)
  have err: "wp P Q (pbind (SftpError sb) (\<lambda>status. Ret (Inl status, sb))) (\<lambda>(_, sb'). fits sb')" if "fits sb" for sb
    by (rule wp_bind [OF calm [OF wp_SftpError]]) (use that in auto)
  have ready: "wp P Q (if IsConnected sb then Ret (True, sb) else Reconnect sb) (\<lambda>(ok, sb'). fits sb' \<and> (ok \<longleftrightarrow> IsConnected sb'))"
    using Suc.prems by (auto intro: Reconnect_fits)
  show ?case unfolding attempts.simps
    by (rule wp_bind [OF ready])
      (auto simp: kept_def intro!: wp_bind [OF assms] wp_bind [OF ReconnectIfDead_fits] err Suc.IH split: option.splits)
qed simp

lemma try_call_kept: "fits sb \<Longrightarrow> \<not> credential (Ssh c) \<Longrightarrow> wp P Q (try_call c sb) kept"
  by (simp add: try_call_def wp_pbind ssh_calls wp_ssh plain kept_def)

lemma add_handle_fits: "add_handle h sb = (handle, sb') \<Longrightarrow> fits sb \<Longrightarrow> IsConnected sb \<Longrightarrow> fits sb'"
  by (auto simp: fits_def add_handle_def Let_def sftp_ok_def IsConnected_def)

lemma Connect_fits:
  assumes sb: "fits sb" and "vouched hosts" "host_name config = host"
  shows "wp P Q (Sftp_Connect sb config hosts path asking) (\<lambda>(_, sb', _). fits sb')"
proof (cases "IsConnected sb")
  case True
  then show ?thesis using sb by (auto simp: Sftp_Connect_def fits_def sftp_ok_def split: option.splits)
next
  case False
  have ok: "sftp_ok sb" using sb by (simp add: fits_def)
  show ?thesis
    by (rule wp_mono [OF Connect_checked [OF ok False]])
      (use assms check_asking in \<open>auto simp: fits_def split: if_splits\<close>)
qed

lemma read_loop_calm: "wp (\<lambda>c. \<not> credential c) Q (read_loop h len out) (\<lambda>_. True)"
proof (induction h len out rule: read_loop.induct)
  case (1 h len out)
  then show ?case by (subst read_loop.simps) (auto split: ssh_reply.split option.split)
qed

lemma write_loop_calm: "wp (\<lambda>c. \<not> credential c) Q (write_loop h dat sent) (\<lambda>_. True)"
proof (induction h dat sent rule: write_loop.induct)
  case (1 h dat sent)
  then show ?case by (subst write_loop.simps) (auto simp: Let_def)
qed

lemmas path_operations = Sftp_Stat_def Sftp_ReadDir_def Sftp_Open_def Sftp_OpenWrite_def Sftp_Mkdir_def Sftp_Unlink_def
  Sftp_Rename_def Sftp_Truncate_def

lemma wp_state_after: "wp P Q m (\<lambda>(_, sb). post sb) \<Longrightarrow> wp P Q (state_after m) post"
  unfolding state_after_def by (rule wp_bind [where mid = "\<lambda>(_, sb). post sb"]) auto

lemma handle_operations:
  assumes "fits sb"
  shows "wp P Q (Sftp_Read sb handle off len) (\<lambda>(_, sb'). fits sb')"
    and "wp P Q (Sftp_Write sb handle off dat) (\<lambda>(_, sb'). fits sb')"
    and "wp P Q (Sftp_Close sb handle) (\<lambda>(_, sb'). fits sb')"
  using assms calm [OF read_loop_calm] calm [OF write_loop_calm]
  by (auto simp: Sftp_Read_def Sftp_Write_def Sftp_Close_def wp_pbind ssh_calls wp_ssh plain fits_def sftp_ok_def IsConnected_def
      elim!: wp_mono split: option.split)

definition call_fits :: "sftp_request \<Rightarrow> bool" where
  "call_fits q \<longleftrightarrow> (\<forall>config hosts p. q = SR_Connect config hosts p \<longrightarrow> host_name config = host \<and> p = path \<and> vouched hosts)"

lemma sftp_call_fits:
  assumes "call_fits q" and sb: "fits sb"
  shows "wp P Q (sftp_call q sb) fits"
proof (cases q)
  case (SR_Connect config hosts p)
  then have "vouched hosts" "host_name config = host" "p = path" using assms by (auto simp: call_fits_def)
  then show ?thesis unfolding SR_Connect sftp_call.simps
    by (intro wp_bind [OF Connect_fits [OF sb, of hosts config, folded \<open>p = path\<close>]]) auto
next
  case SR_Disconnect
  then show ?thesis using wp_mono [OF calm [OF wp_Disconnect]] fits_closed [OF sb] by auto
qed (use sb in \<open>auto simp: path_operations handle_operations wp_pbind ssh_calls wp_ssh plain kept_def Let_def dest: add_handle_fits
      intro!: wp_state_after attempts_fits try_call_kept split: option.split prod.split\<close>)

lemma sftp_calls_fit: "list_all call_fits qs \<Longrightarrow> fits sb \<Longrightarrow> wp P Q (sftp_calls qs sb) fits"
  by (induction qs arbitrary: sb) (auto intro!: wp_bind [OF sftp_call_fits])

end

end
