(* ===== verification/SftpProps.thy ===== *)
theory SftpProps
  imports SftpSafety Fuse
begin

text \<open>
  What holds of SFTP mounts: the session over any use of the class, whom the user's credentials go to,
  the file a read through the mount returns, and the known hosts with their file.
\<close>

section \<open>The session\<close>

interpretation lifecycle: session_policy "\<lambda>_. True" "\<lambda>_ _. True" True True host path "\<lambda>_. True" for host path
  by unfold_locales simp_all

lemma call_keeps_session:
  assumes "sftp_ok sb"
  shows "wp (\<lambda>_. True) (\<lambda>_ _. True) (sftp_call q sb) sftp_ok"
proof (cases "\<exists>config hosts p. q = SR_Connect config hosts p")
  case True
  then obtain config hosts p where q: "q = SR_Connect config hosts p" by blast
  show ?thesis
  proof (cases "IsConnected sb")
    case True
    then show ?thesis using assms q by (auto simp: Sftp_Connect_def sftp_ok_def split: option.splits)
  next
    case False
    show ?thesis unfolding q sftp_call.simps
      by (rule wp_bind [OF lifecycle.Connect_checked [OF assms False lifecycle.check_asking]]) (auto simp: host_name_def)
  qed
next
  case False
  let ?fits = "lifecycle.fits (host_name (sf_fConfig sb)) (sf_fKnownHostsPath sb)"
  have "lifecycle.call_fits (host_name (sf_fConfig sb)) (sf_fKnownHostsPath sb) q" using False by (auto simp: lifecycle.call_fits_def)
  from wp_mono [OF lifecycle.sftp_call_fits [OF this, of sb]] show ?thesis
    using assms by (auto simp: lifecycle.fits_def)
qed

lemma calls_keep_session: "sftp_ok sb \<Longrightarrow> wp (\<lambda>_. True) (\<lambda>_ _. True) (sftp_calls qs sb) sftp_ok"
  by (induction qs arbitrary: sb) (auto intro!: wp_bind [OF call_keeps_session])

text \<open>
  C27: However the class is used and whatever the library answers, a backend has its socket, its
  session and its SFTP object together or none of them, and open handles only while it has them: no
  call ever leaves a half-open session behind.
\<close>

theorem session_whole_or_closed:
  "sftp_ok (result sys (sftp_calls qs SftpBackend) s)"
proof -
  have "sftp_ok SftpBackend" by (simp add: sftp_ok_def SftpBackend_def)
  then show ?thesis
    using wp_run [OF _ calls_keep_session, of sys SftpBackend qs s] by (simp add: honest_def)
qed

section \<open>Credentials\<close>

text \<open>Every key the store has for \<open>host\<close> satisfies \<open>K\<close>.\<close>

definition vouched_hosts :: "(bytes \<Rightarrow> bool) \<Rightarrow> string \<Rightarrow> KnownHosts \<Rightarrow> bool" where
  "vouched_hosts K host hosts = (case known hosts host of None \<Rightarrow> True | Some key \<Rightarrow> K key)"

text \<open>
  A system in which someone else answers for the host: the keys presented are none of \<open>K\<close>, the file
  pins only keys of \<open>K\<close>, and the user accepts only keys of \<open>K\<close>.
\<close>

definition impostor :: "string \<Rightarrow> string \<Rightarrow> (bytes \<Rightarrow> bool) \<Rightarrow> syscall \<Rightarrow> reply \<Rightarrow> bool" where
  "impostor host path K c r \<longleftrightarrow>
    (\<forall>session key. c = Ssh (SessionHostkey session) \<longrightarrow> as_ssh r = SshKey (Some key) \<longrightarrow> \<not> K key) \<and>
    (\<forall>hk key. c = Ssh (DecideKey hk key) \<longrightarrow> as_ssh r = SshBool True \<longrightarrow> K key) \<and>
    (\<forall>text. c = ReadFile path \<longrightarrow> r = RText (Some text) \<longrightarrow> vouched_hosts K host (load_hosts text))"

definition connects_to :: "string \<Rightarrow> string \<Rightarrow> (bytes \<Rightarrow> bool) \<Rightarrow> sftp_request \<Rightarrow> bool" where
  "connects_to host path K q = (case q of
     SR_Connect config hosts p \<Rightarrow> host_name config = host \<and> p = path \<and> vouched_hosts K host hosts
   | _ \<Rightarrow> True)"

interpretation guarded: session_policy "\<lambda>c. \<not> credential c" "impostor host path K" False live host path "vouched_hosts K host"
  for host path K live
proof unfold_locales
  fix hosts key
  assume "vouched_hosts K host hosts" "presents (impostor host path K) key" "Hosts_Evaluate host key hosts = Host_Trusted"
  then show False
    by (auto simp: vouched_hosts_def presents_def impostor_def Hosts_Evaluate_known split: option.splits if_splits)
next
  fix key hk r
  assume "presents (impostor host path K) key" "impostor host path K (Ssh (DecideKey hk key)) r" "as_ssh r = SshBool True"
  then show False by (auto simp: presents_def impostor_def)
qed (auto simp: impostor_def vouched_hosts_def)

text \<open>
  C25: The user's password or key is never offered to an impostor. As long as the keys presented for
  the host are neither pinned for it nor accepted by the user, no operation of the class, no retry and
  no reconnect makes an authentication call, and no session comes about that was not there before.
\<close>

theorem no_credentials_for_impostors:
  assumes "honest (impostor host path K) sys" and "list_all (connects_to host path K) qs"
    and "sftp_ok sb" and "sf_fKnownHostsPath sb = [] \<or> sf_fKnownHostsPath sb = path \<and> host_name (sf_fConfig sb) = host"
  shows "list_all (\<lambda>c. \<not> credential c) (calls sys (sftp_calls qs sb) s) \<and>
    (IsConnected (result sys (sftp_calls qs sb) s) \<longrightarrow> IsConnected sb)"
proof -
  have "guarded.fits (IsConnected sb) host path sb" using assms(3,4) by (auto simp: guarded.fits_def)
  moreover have "list_all (guarded.call_fits host path K) qs"
    using assms(2) by (rule list.pred_mono_strong) (auto simp: connects_to_def guarded.call_fits_def)
  ultimately have "wp (\<lambda>c. \<not> credential c) (impostor host path K) (sftp_calls qs sb) (guarded.fits (IsConnected sb) host path)"
    by (intro guarded.sftp_calls_fit)
  from wp_run [OF assms(1) this, of s] show ?thesis by (auto simp: guarded.fits_def list_all_iff)
qed

section \<open>Reading\<close>

text \<open>
  What libssh2 documents of an open file with content \<open>file\<close>: a seek sets the position \<open>pos\<close>, and a read
  gives some bytes from there on, at most as many as asked for, none only at the end of the file.
\<close>

definition serves_file :: "'os system \<Rightarrow> nat \<Rightarrow> bytes \<Rightarrow> ('os \<Rightarrow> nat) \<Rightarrow> bool" where
  "serves_file sys h file pos \<longleftrightarrow>
    (\<forall>s off. pos (snd (sys (Ssh (SftpSeek h off)) s)) = unat off) \<and>
    (\<forall>s n. \<exists>d s'. sys (Ssh (SftpRead h n)) s = (RSsh (SshBytes (Some d)), s') \<and> d = take (length d) (drop (pos s) file) \<and>
      length d \<le> n \<and> (d = [] \<longrightarrow> n = 0 \<or> length file \<le> pos s) \<and> pos s' = pos s + length d)"

lemma read_loop_serves:
  assumes "serves_file sys h file pos" and "length out \<le> len"
  shows "result sys (read_loop h len out) s = Inr (out @ take (len - length out) (drop (pos s) file))"
  using assms(2)
proof (induction "len - length out" arbitrary: out s rule: less_induct)
  case less
  show ?case
  proof (cases "length out < len")
    case True
    obtain d s' where r: "sys (Ssh (SftpRead h (len - length out))) s = (RSsh (SshBytes (Some d)), s')"
        and d: "d = take (length d) (drop (pos s) file)" "length d \<le> len - length out" "d = [] \<Longrightarrow> length file \<le> pos s"
        and p: "pos s' = pos s + length d"
      using assms(1) True unfolding serves_file_def by (metis zero_less_diff less_numeral_extra(3))
    show ?thesis
    proof (cases "d = []")
      case True
      then show ?thesis using r d(3) \<open>length out < len\<close>
        by (subst read_loop.simps) (simp add: result_def as_ssh_def)
    next
      case False
      have "result sys (read_loop h len (out @ d)) s' = Inr ((out @ d) @ take (len - length (out @ d)) (drop (pos s') file))"
        by (rule less.hyps) (use False d(2) True in \<open>auto simp flip: length_greater_0_conv\<close>)
      moreover have "d @ take (len - length out - length d) (drop (pos s + length d) file) = take (len - length out) (drop (pos s) file)"
        using d(1,2) by (metis add.commute drop_drop le_add_diff_inverse take_add)
      ultimately show ?thesis using r False p \<open>length out < len\<close>
        by (subst read_loop.simps) (auto simp: result_def as_ssh_def split: prod.split)
    qed
  next
    case False
    then show ?thesis using less.prems by (subst read_loop.simps) (simp add: result_def)
  qed
qed

text \<open>
  C26: A read through an SFTP mount returns the file's bytes from the offset on, as many as were asked
  for unless the file ends, however short the reads of the library are; so it fits the caller's
  buffer, and FUSE sees a short read only at the end of the file.
\<close>

theorem sftp_mount_reads_the_file:
  assumes "map_of (sf_fOpen sb) fh = Some h" and "serves_file sys h file pos"
  shows "fst (cf_read (sftp_backend sys) fh sz off (sb, s)) =
      (let d = take (unat (ucast sz :: u32)) (drop (unat (ucast off :: u64)) file) in Inr (of_nat (length d), d)) \<and>
    fits sz (fst (cf_read (sftp_backend sys) fh sz off (sb, s)))"
proof -
  obtain r s1 where seek: "sys (Ssh (SftpSeek h (ucast off))) s = (r, s1)" by (metis prod.exhaust)
  then have "pos s1 = unat (ucast off :: u64)" using assms(2) unfolding serves_file_def by (metis snd_conv)
  then have "result sys (read_loop h (unat (ucast sz :: u32)) []) s1 =
      Inr (take (unat (ucast sz :: u32)) (drop (unat (ucast off :: u64)) file))"
    using read_loop_serves [OF assms(2), of "[]" _ s1] by simp
  then obtain s2 lg where "run sys (read_loop h (unat (ucast sz :: u32)) []) s1 =
      (Inr (take (unat (ucast sz :: u32)) (drop (unat (ucast off :: u64)) file)), s2, lg)"
    unfolding result_def by (metis prod.collapse)
  then have "cf_read (sftp_backend sys) fh sz off (sb, s) =
      (let d = take (unat (ucast sz :: u32)) (drop (unat (ucast off :: u64)) file) in Inr (of_nat (length d), d), (sb, s2))"
    using assms(1) seek
    by (simp add: cf_read_def sftp_backend_def reading_backend_def on_sftp_def Sftp_Read_def run_pbind ssh_unit_def sys_ssh_def Let_def)
  then show ?thesis using small_size [of sz] by (simp add: fits_def Let_def)
qed

section \<open>Known hosts\<close>

text \<open>
  The known hosts are a map from hosts to keys as long as no host is listed twice: \<open>Pin\<close> updates it,
  \<open>Forget\<close> deletes from it and says whether there was anything to delete, and a key is trusted exactly
  when it is the host's. Saving writes the whole text before it replaces the file, and the file reads
  back entry for entry, but for entries that cannot be written on a line.
\<close>

theorem known_hosts_map_and_file:
  assumes "hosts_ok hs"
  shows "known (Hosts_Pin host key hs) = (known hs)(host \<mapsto> key) \<and> hosts_ok (Hosts_Pin host key hs) \<and>
    known (snd (Hosts_Forget host hs)) = (known hs)(host := None) \<and> hosts_ok (snd (Hosts_Forget host hs)) \<and>
    (fst (Hosts_Forget host hs) \<longleftrightarrow> host \<in> dom (known hs)) \<and>
    (Hosts_Evaluate host key hs = Host_Trusted \<longleftrightarrow> known hs host = Some key) \<and>
    (Hosts_Evaluate host key hs = Host_Unknown \<longleftrightarrow> known hs host = None) \<and>
    load_hosts (hosts_text hs) = filter storable hs \<and>
    (let calls = calls sys (Hosts_SaveToFile hs path) s in
     calls \<in> {[WriteFile (path @ ''.tmp'') (hosts_text hs)],
       [WriteFile (path @ ''.tmp'') (hosts_text hs), Chmod (path @ ''.tmp'') 0x180, Rename (path @ ''.tmp'') path]})"
proof -
  have "calls sys (Hosts_SaveToFile hs path) s \<in> {[WriteFile (path @ ''.tmp'') (hosts_text hs)],
       [WriteFile (path @ ''.tmp'') (hosts_text hs), Chmod (path @ ''.tmp'') 0x180, Rename (path @ ''.tmp'') path]}"
    by (auto simp: Hosts_SaveToFile_def Let_def calls_def sys_bool_def sys_unit_def sys_status_def split: prod.splits)
  moreover have eq: "snd (Hosts_Forget host hs) = filter (\<lambda>h. kh_host h \<noteq> host) hs" by (rule Hosts_Forget_filter [OF assms])
  moreover have "hosts_ok (filter (\<lambda>h. kh_host h \<noteq> host) hs)" using hosts_ok_Forget [OF assms, of host] eq by simp
  ultimately show ?thesis using assms
    by (simp add: known_Pin hosts_ok_Pin known_filter Hosts_Forget_found Hosts_Evaluate_known load_hosts_text split: option.split)
qed

text \<open>
  A file may list a host twice. \<open>Forget\<close> removes the first line only, so the host is still known, with
  the key of the second one.
\<close>

lemma forgotten_host_still_trusted:
  assumes "ValidHost host" "a \<noteq> []" "b \<noteq> []"
  shows "let hs = load_hosts (hosts_text [\<lparr>kh_host = host, kh_key = a\<rparr>, \<lparr>kh_host = host, kh_key = b\<rparr>]) in
    fst (Hosts_Forget host hs) \<and> Hosts_Evaluate host b (snd (Hosts_Forget host hs)) = Host_Trusted"
  using assms by (simp add: load_hosts_text storable_def Hosts_Evaluate_def)

section \<open>Deleting\<close>

text \<open>
  \<open>Unlink\<close> tells a directory from a file by \<open>libssh2_sftp_stat\<close>, which follows links. So for a link
  to a directory it asks for \<open>rmdir\<close> of the link and never for \<open>unlink\<close>; as the server refuses
  that, the link cannot be deleted.
\<close>

lemma link_to_directory_stays:
  assumes "sf_fSftp sb = Some sftp" "sf_fSession sb = Some session"
    and "sys (Ssh (SftpStat sftp (RemotePath sb path))) s = (RSsh (SshAttrs (Some a)), s1)" "sa_permissions a = Some m" "FileServer.S_ISDIR (ucast m)"
    and "sys (Ssh (SftpRmdir sftp (RemotePath sb path))) s1 = (RSsh (SshInt rc), s2)" "rc \<noteq> 0"
    and "sys (Ssh (SessionLastErrno session)) s2 = (RSsh (SshErrno (SSH_OTHER e)), s3)"
    and "sys (Ssh (SftpLastError (Some sftp))) s3 = (RSsh (SshStatus (FX_OTHER n)), s4)"
  shows "run sys (Sftp_Unlink sb path) s = ((Inl S_IoError, sb), s4,
    [Ssh (SftpStat sftp (RemotePath sb path)), Ssh (SftpRmdir sftp (RemotePath sb path)), Ssh (SessionLastErrno session),
     Ssh (SftpLastError (Some sftp))])"
  using assms
  by (simp add: Sftp_Unlink_def Let_def numeral_2_eq_2 IsConnected_def run_pbind ssh_calls sys_ssh_def as_ssh_def try_call_def
      ReconnectIfDead_def SessionDead_def SftpError_def)

section \<open>The hypotheses hold of concrete systems\<close>

definition sample_config :: SftpConfig where
  "sample_config = SftpConfig\<lparr>sc_host := ''srv'', sc_user := ''u'', sc_password := ''secret''\<rparr>"

text \<open>A machine that answers for \<open>srv\<close> with another key than the pinned one.\<close>

definition wrong_host :: "unit system" where
  "wrong_host c s = (case c of
     Ssh (GetAddrInfo _ _) \<Rightarrow> RSsh (SshAddrs (Some [1])) | Ssh (NewSocket _) \<Rightarrow> RSsh (SshInt 3)
   | Ssh (ConnectSocket _ _) \<Rightarrow> RSsh (SshInt 0) | Ssh SessionInit \<Rightarrow> RSsh (SshPtr (Some 1))
   | Ssh (SessionHandshake _ _) \<Rightarrow> RSsh (SshInt 0) | Ssh (SessionHostkey _) \<Rightarrow> RSsh (SshKey (Some [9]))
   | ReadFile _ \<Rightarrow> RText (Some (hosts_text [\<lparr>kh_host = ''srv:22'', kh_key = [1]\<rparr>])) | _ \<Rightarrow> RUnit, s)"

lemma sample_host_name: "host_name sample_config = ''srv:22''"
  by code_simp

lemma wrong_host_impostor: "honest (impostor ''srv:22'' ''hosts'' (\<lambda>key. key = [1])) wrong_host"
  by (auto simp: honest_def impostor_def wrong_host_def as_ssh_def vouched_hosts_def load_hosts_text storable_def ValidHost_def
      split: syscall.splits ssh_call.splits)

theorem no_credentials_for_impostors_witness:
  "list_all (\<lambda>c. \<not> credential c) (calls wrong_host (sftp_calls [SR_Connect sample_config [] ''hosts'', SR_Stat ''/a''] SftpBackend) ()) \<and>
    \<not> IsConnected (result wrong_host (sftp_calls [SR_Connect sample_config [] ''hosts'', SR_Stat ''/a''] SftpBackend) ())"
  using no_credentials_for_impostors [OF wrong_host_impostor, of "[SR_Connect sample_config [] ''hosts'', SR_Stat ''/a'']" SftpBackend "()"]
  by (simp add: connects_to_def sample_host_name vouched_hosts_def SftpBackend_def sftp_ok_def IsConnected_def)

text \<open>A library that reads at most two bytes at a time; its state is the position.\<close>

definition two_bytes :: "bytes \<Rightarrow> nat system" where
  "two_bytes file c pos = (case c of
     Ssh (SftpSeek _ off) \<Rightarrow> (RSsh SshUnit, unat off)
   | Ssh (SftpRead _ n) \<Rightarrow> (let d = take (min n 2) (drop pos file) in (RSsh (SshBytes (Some d)), pos + length d))
   | _ \<Rightarrow> (RUnit, pos))"

lemma two_bytes_serves: "serves_file (two_bytes file) h file (\<lambda>pos. pos)"
proof -
  have "take (min n 2) (drop s file) = take (min (length file - s) (min n 2)) (drop s file)" for s n by (simp add: min_def)
  then show ?thesis by (auto simp: serves_file_def two_bytes_def Let_def)
qed

theorem sftp_mount_reads_the_file_witness:
  "fst (cf_read (sftp_backend (two_bytes [10, 11, 12, 13, 14])) 1 3 1 (SftpBackend\<lparr>sf_fOpen := [(1, 7)]\<rparr>, 0)) = Inr (3, [11, 12, 13])"
  using sftp_mount_reads_the_file [OF _ two_bytes_serves, of "SftpBackend\<lparr>sf_fOpen := [(1, 7)]\<rparr>" 1 7 "[10, 11, 12, 13, 14]" 3 1 0]
  by simp

end
