(* ===== verification/Radar.thy ===== *)
theory Radar
  imports PeerTable "HOL-Library.Multiset" "HOL-Library.Product_Lexorder"
begin

text \<open>
  The network radar, \<open>bricola/mdns/MdnsRadar.cpp\<close>: every datagram heard is folded into a model of
  sources, services and instances, unfiltered, and a snapshot of it is counted and sorted for display.
  The worker's socket and clock are the turns of its loop. Times are integers, as in the peer table;
  counters are 64 bits wide.
\<close>

section \<open>The model\<close>

record RadarSource =
  rs_ip :: string
  rs_packets :: u64
  rs_records :: u64
  rs_firstMs :: int
  rs_lastMs :: int

record RadarService =
  rv_type :: string
  rv_instances :: nat
  rv_subtypes :: "string list"
  rv_lastMs :: int

record RadarInstance =
  ri_name :: string
  ri_type :: string
  ri_host :: string
  ri_port :: u16
  ri_addrs :: "string list"
  ri_txt :: "(string \<times> string) list"
  ri_srcIp :: string
  ri_lastMs :: int

definition RadarSource :: RadarSource where
  "RadarSource = \<lparr>rs_ip = [], rs_packets = 0, rs_records = 0, rs_firstMs = 0, rs_lastMs = 0\<rparr>"
definition RadarService :: RadarService where
  "RadarService = \<lparr>rv_type = [], rv_instances = 0, rv_subtypes = [], rv_lastMs = 0\<rparr>"
definition RadarInstance :: RadarInstance where
  "RadarInstance = \<lparr>ri_name = [], ri_type = [], ri_host = [], ri_port = 0, ri_addrs = [], ri_txt = [], ri_srcIp = [], ri_lastMs = 0\<rparr>"

record MdnsRadar =
  rd_fInterface :: string
  rd_fStartMs :: int
  rd_fLastMs :: int
  rd_fTotalPackets :: u64
  rd_fTotalRecords :: u64
  rd_fDroppedPackets :: u64
  rd_fSources :: "(string, RadarSource) std_map"
  rd_fServices :: "(string, RadarService) std_map"
  rd_fInstances :: "(string, RadarInstance) std_map"
  rd_fHostAddrs :: "(string, string std_set) std_map"

text \<open>The model as \<open>Start\<close> leaves it on an interface.\<close>

definition Radar_Start :: "string \<Rightarrow> int \<Rightarrow> MdnsRadar" where
  "Radar_Start iface now = \<lparr>rd_fInterface = iface, rd_fStartMs = now, rd_fLastMs = now, rd_fTotalPackets = 0,
     rd_fTotalRecords = 0, rd_fDroppedPackets = 0, rd_fSources = [], rd_fServices = [], rd_fInstances = [],
     rd_fHostAddrs = []\<rparr>"

text \<open>\<open>m[k]\<close>: the entry, made with its default when it is missing; \<open>f\<close> is what is done through the reference.\<close>

definition map_at :: "'v \<Rightarrow> 'k::linorder \<Rightarrow> ('v \<Rightarrow> 'v) \<Rightarrow> ('k, 'v) std_map \<Rightarrow> ('k, 'v) std_map" where
  "map_at dflt k f m = map_put k (f (case map_of m k of None \<Rightarrow> dflt | Some v \<Rightarrow> v)) m"

section \<open>Helpers\<close>

definition kMetaQuery :: string where "kMetaQuery = ''_services._dns-sd._udp.local''"

text \<open>\<open>s.find(marker)\<close>: what is before the first occurrence and what follows it.\<close>

fun split_marker :: "string \<Rightarrow> string \<Rightarrow> (string \<times> string) option" where
  "split_marker marker [] = (if marker = [] then Some ([], []) else None)"
| "split_marker marker (c # s) =
    (if take (length marker) (c # s) = marker then Some ([], drop (length marker) (c # s))
     else map_option (\<lambda>(before, after). (c # before, after)) (split_marker marker s))"

definition contains :: "string \<Rightarrow> string \<Rightarrow> bool" where
  "contains s part \<longleftrightarrow> split_marker part s \<noteq> None"

text \<open>The parent type and the subtype's label.\<close>

definition NormalizeServiceType :: "string \<Rightarrow> string \<times> string" where
  "NormalizeServiceType type = (case split_marker ''._sub.'' type of
     None \<Rightarrow> (type, [])
   | Some (label, parent) \<Rightarrow> (parent, label))"

definition AddSubtype :: "string \<Rightarrow> RadarService \<Rightarrow> RadarService" where
  "AddSubtype label svc =
    (if label = [] then svc
     else if label \<notin> set (rv_subtypes svc) then svc\<lparr>rv_subtypes := rv_subtypes svc @ [label]\<rparr>
     else svc)"

section \<open>Folding a datagram in\<close>

definition saw_service :: "string \<Rightarrow> string \<Rightarrow> int \<Rightarrow> MdnsRadar \<Rightarrow> MdnsRadar" where
  "saw_service parent label nowMs r = r\<lparr>rd_fServices := map_at RadarService parent
     (\<lambda>svc. AddSubtype label (svc\<lparr>rv_type := parent, rv_lastMs := nowMs\<rparr>)) (rd_fServices r)\<rparr>"

definition saw_instance :: "string \<Rightarrow> (RadarInstance \<Rightarrow> RadarInstance) \<Rightarrow> int \<Rightarrow> MdnsRadar \<Rightarrow> MdnsRadar" where
  "saw_instance name f nowMs r = r\<lparr>rd_fInstances := map_at RadarInstance name
     (\<lambda>inst. (f (inst\<lparr>ri_name := name\<rparr>))\<lparr>ri_lastMs := nowMs\<rparr>) (rd_fInstances r)\<rparr>"

definition first_src :: "string \<Rightarrow> RadarInstance \<Rightarrow> RadarInstance" where
  "first_src srcIp inst = (if ri_srcIp inst = [] then inst\<lparr>ri_srcIp := srcIp\<rparr> else inst)"

text \<open>One record, after it was counted.\<close>

definition radar_record :: "bytes \<Rightarrow> nat \<Rightarrow> string \<Rightarrow> int \<Rightarrow> Record \<Rightarrow> MdnsRadar \<Rightarrow> MdnsRadar" where
  "radar_record buf len srcIp nowMs rec r =
    (if r_type rec = kTypePTR then
       (case DecodePtr buf len rec of
          None \<Rightarrow> r
        | Some target \<Rightarrow>
            if target = [] then r
            else if r_name rec = kMetaQuery then
              (case NormalizeServiceType target of (parent, label) \<Rightarrow> saw_service parent label nowMs r)
            else (case NormalizeServiceType (r_name rec) of (parent, label) \<Rightarrow>
              saw_instance target (\<lambda>inst. first_src srcIp (inst\<lparr>ri_type := parent\<rparr>)) nowMs
                (saw_service parent label nowMs r)))
     else if r_type rec = kTypeSRV then
       (case DecodeSrv buf len rec of
          None \<Rightarrow> r
        | Some (prio, weight, port, host) \<Rightarrow>
            saw_instance (r_name rec) (\<lambda>inst. first_src srcIp (inst\<lparr>ri_host := host, ri_port := port\<rparr>)) nowMs r)
     else if r_type rec = kTypeTXT then
       (case DecodeTxt rec of
          None \<Rightarrow> r
        | Some kv \<Rightarrow> saw_instance (r_name rec) (\<lambda>inst. inst\<lparr>ri_txt := kv\<rparr>) nowMs r)
     else if r_type rec = kTypeA then
       (case DecodeA rec of
          None \<Rightarrow> r
        | Some addr \<Rightarrow> r\<lparr>rd_fHostAddrs := map_at [] (Lower (r_name rec)) (set_put addr) (rd_fHostAddrs r)\<rparr>)
     else r)"

definition count_record :: "string \<Rightarrow> MdnsRadar \<Rightarrow> MdnsRadar" where
  "count_record srcIp r = r\<lparr>rd_fTotalRecords := rd_fTotalRecords r + 1,
     rd_fSources := map_at RadarSource srcIp (\<lambda>src. src\<lparr>rs_records := rs_records src + 1\<rparr>) (rd_fSources r)\<rparr>"

fun handle_records :: "bytes \<Rightarrow> nat \<Rightarrow> string \<Rightarrow> int \<Rightarrow> Record list \<Rightarrow> MdnsRadar \<Rightarrow> MdnsRadar" where
  "handle_records buf len srcIp nowMs [] r = r"
| "handle_records buf len srcIp nowMs (rec # recs) r =
    handle_records buf len srcIp nowMs recs (radar_record buf len srcIp nowMs rec (count_record srcIp r))"

definition count_packet :: "string \<Rightarrow> int \<Rightarrow> MdnsRadar \<Rightarrow> MdnsRadar" where
  "count_packet srcIp nowMs r = r\<lparr>rd_fLastMs := nowMs, rd_fTotalPackets := rd_fTotalPackets r + 1,
     rd_fSources := map_at RadarSource srcIp (\<lambda>src.
       (if rs_ip src = [] then src\<lparr>rs_ip := srcIp, rs_firstMs := nowMs\<rparr> else src)
         \<lparr>rs_packets := rs_packets src + 1, rs_lastMs := nowMs\<rparr>) (rd_fSources r)\<rparr>"

definition Radar_Ingest :: "bytes \<Rightarrow> nat \<Rightarrow> string \<Rightarrow> int \<Rightarrow> MdnsRadar \<Rightarrow> MdnsRadar" where
  "Radar_Ingest buf len srcIp nowMs r =
    (let r = count_packet srcIp nowMs r in
     case Parse buf len of
       None \<Rightarrow> r\<lparr>rd_fDroppedPackets := rd_fDroppedPackets r + 1\<rparr>
     | Some msg \<Rightarrow> handle_records buf len srcIp nowMs (m_authorities msg)
         (handle_records buf len srcIp nowMs (m_additionals msg)
           (handle_records buf len srcIp nowMs (m_answers msg) r)))"

section \<open>The snapshot\<close>

record RadarSnapshot =
  rx_interfaceIp :: string
  rx_startMs :: int
  rx_nowMs :: int
  rx_totalPackets :: u64
  rx_totalRecords :: u64
  rx_droppedPackets :: u64
  rx_sources :: "RadarSource list"
  rx_services :: "RadarService list"
  rx_instances :: "RadarInstance list"

definition resolve_addrs :: "MdnsRadar \<Rightarrow> RadarInstance \<Rightarrow> RadarInstance" where
  "resolve_addrs r inst =
    (let inst = (case map_of (rd_fHostAddrs r) (Lower (ri_host inst)) of
           None \<Rightarrow> inst | Some addrs \<Rightarrow> inst\<lparr>ri_addrs := addrs\<rparr>)
     in if ri_addrs inst = [] \<and> ri_srcIp inst \<noteq> [] then inst\<lparr>ri_addrs := ri_addrs inst @ [ri_srcIp inst]\<rparr> else inst)"

text \<open>\<open>++perType[inst.type]\<close> over the instances.\<close>

fun count_types :: "RadarInstance list \<Rightarrow> (string, nat) std_map \<Rightarrow> (string, nat) std_map" where
  "count_types [] perType = perType"
| "count_types (inst # insts) perType =
    count_types insts (if ri_type inst \<noteq> [] then map_at 0 (ri_type inst) Suc perType else perType)"

definition Radar_Snapshot :: "MdnsRadar \<Rightarrow> RadarSnapshot" where
  "Radar_Snapshot r =
    (let instances = map (resolve_addrs r \<circ> snd) (rd_fInstances r);
         perType = count_types instances [];
         services = map (\<lambda>svc. svc\<lparr>rv_instances := (case map_of perType (rv_type svc) of Some n \<Rightarrow> n | None \<Rightarrow> 0)\<rparr>)
           (map snd (rd_fServices r))
     in \<lparr>rx_interfaceIp = rd_fInterface r, rx_startMs = rd_fStartMs r, rx_nowMs = rd_fLastMs r,
         rx_totalPackets = rd_fTotalPackets r, rx_totalRecords = rd_fTotalRecords r,
         rx_droppedPackets = rd_fDroppedPackets r,
         rx_sources = sort_key rs_ip (map snd (rd_fSources r)),
         rx_services = sort_key rv_type services,
         rx_instances = sort_key (\<lambda>i. (ri_type i, ri_name i)) instances\<rparr>)"

section \<open>The worker\<close>

definition SendQueries :: "MdnsRadar \<Rightarrow> bytes list" where
  "SendQueries r = BuildQuery kMetaQuery # map (BuildQuery \<circ> fst) (rd_fServices r)"

definition kQueryIntervalMs :: int where "kQueryIntervalMs = 4000"

text \<open>
  A turn of \<open>Run\<close>: a datagram with its sender and the time it is folded in at, the clock afterwards,
  and whether \<open>QueryNow\<close> was called since the last turn.
\<close>

record RadarTurn =
  ru_packet :: "(bytes \<times> string \<times> int) option"
  ru_now :: int
  ru_queryNow :: bool

definition Radar_turn :: "MdnsRadar \<Rightarrow> int \<Rightarrow> RadarTurn \<Rightarrow> MdnsRadar \<times> int \<times> bytes list" where
  "Radar_turn r lastQuery u =
    (let r = (case ru_packet u of
           Some (buf, srcIp, nowMs) \<Rightarrow> if length buf > 0 then Radar_Ingest buf (length buf) srcIp nowMs r else r
         | None \<Rightarrow> r)
     in if ru_queryNow u \<or> ru_now u - lastQuery \<ge> kQueryIntervalMs then (r, ru_now u, SendQueries r) else (r, lastQuery, []))"

fun Radar_loop :: "MdnsRadar \<Rightarrow> int \<Rightarrow> RadarTurn list \<Rightarrow> MdnsRadar \<times> bytes list list" where
  "Radar_loop r lastQuery [] = (r, [])"
| "Radar_loop r lastQuery (u # us) = (let (r, lastQuery, sent) = Radar_turn r lastQuery u;
     (r, rounds) = Radar_loop r lastQuery us in (r, sent # rounds))"

definition Radar_Run :: "MdnsRadar \<Rightarrow> int \<Rightarrow> RadarTurn list \<Rightarrow> MdnsRadar \<times> bytes list list" where
  "Radar_Run r now us = (let (r', rounds) = Radar_loop r now us in (r', SendQueries r # rounds))"

section \<open>Sums and entries of a map\<close>

lemma map_of_below: "map_ok ((k', v') # m) \<Longrightarrow> k < k' \<Longrightarrow> map_of m k = None"
  by (auto simp: map_ok_Cons map_of_eq_None_iff dest: less_trans)

lemma sum_put:
  fixes f :: "'v \<Rightarrow> 'a::ab_group_add"
  shows "map_ok m \<Longrightarrow> sum_list (map (f \<circ> snd) (map_put k v m)) =
    sum_list (map (f \<circ> snd) m) - (case map_of m k of None \<Rightarrow> 0 | Some u \<Rightarrow> f u) + f v"
proof (induction m)
  case (Cons e m)
  obtain k' v' where e: "e = (k', v')" by (cases e)
  have "map_ok m" using Cons.prems by (simp add: e map_ok_Cons)
  then show ?case using Cons map_of_below [of k' v' m k] by (auto simp: e algebra_simps)
qed simp

lemma sum_map_at:
  fixes f :: "'v \<Rightarrow> 'a::ab_group_add"
  assumes "map_ok m" "\<And>v. f (g v) = f v + d" "f dflt = 0"
  shows "sum_list (map (f \<circ> snd) (map_at dflt k g m)) = sum_list (map (f \<circ> snd) m) + d"
  using assms by (simp add: map_at_def sum_put split: option.split)

definition entries :: "('k \<Rightarrow> 'v \<Rightarrow> bool) \<Rightarrow> ('k, 'v) std_map \<Rightarrow> bool" where
  "entries R m \<longleftrightarrow> list_all (\<lambda>(k, v). R k v) m"

lemma entries_map_at:
  "entries R m \<Longrightarrow> (\<And>v. map_of m k = Some v \<or> map_of m k = None \<and> v = dflt \<Longrightarrow> R k (f v)) \<Longrightarrow> entries R (map_at dflt k f m)"
proof -
  have "entries R m \<Longrightarrow> R k v \<Longrightarrow> entries R (map_put k v m)" for v
    by (induction m) (auto simp: entries_def)
  then show "entries R m \<Longrightarrow> (\<And>v. map_of m k = Some v \<or> map_of m k = None \<and> v = dflt \<Longrightarrow> R k (f v)) \<Longrightarrow> ?thesis"
    by (simp add: map_at_def split: option.split)
qed

lemma entries_lookup: "entries R m \<Longrightarrow> map_of m k = Some v \<Longrightarrow> R k v"
  by (auto simp: entries_def list_all_iff dest: map_of_SomeD)

lemma map_at_keys [simp]: "fst ` set (map_at dflt k f m) = insert k (fst ` set m)"
  and map_at_ok [simp]: "map_ok m \<Longrightarrow> map_ok (map_at dflt k f m)"
  by (simp_all add: map_at_def)

lemma entries_mono: "entries R m \<Longrightarrow> (\<And>k v. R k v \<Longrightarrow> R' k v) \<Longrightarrow> entries R' m"
  by (auto simp: entries_def list_all_iff)

section \<open>The invariant\<close>

text \<open>Every entry is under its own name, every typed instance has its service, and the totals are the sums.\<close>

definition service_ok :: "string \<Rightarrow> RadarService \<Rightarrow> bool" where
  "service_ok k v \<longleftrightarrow> rv_type v = k \<and> distinct (rv_subtypes v) \<and> [] \<notin> set (rv_subtypes v)"

definition radar_ok :: "MdnsRadar \<Rightarrow> bool" where
  "radar_ok r \<longleftrightarrow> map_ok (rd_fSources r) \<and> map_ok (rd_fServices r) \<and> map_ok (rd_fInstances r) \<and>
    entries (\<lambda>k v. rs_ip v = k) (rd_fSources r) \<and>
    entries service_ok (rd_fServices r) \<and>
    entries (\<lambda>k v. ri_name v = k \<and> (ri_type v = [] \<or> ri_type v \<in> fst ` set (rd_fServices r))) (rd_fInstances r) \<and>
    rd_fTotalPackets r = sum_list (map (rs_packets \<circ> snd) (rd_fSources r)) \<and>
    rd_fTotalRecords r = sum_list (map (rs_records \<circ> snd) (rd_fSources r))"

lemma radar_ok_Start: "radar_ok (Radar_Start iface now)"
  by (simp add: radar_ok_def Radar_Start_def entries_def)

lemma AddSubtype_ok: "service_ok k v \<Longrightarrow> service_ok k (AddSubtype label v)"
  by (auto simp: service_ok_def AddSubtype_def)

lemma radar_ok_service: "radar_ok r \<Longrightarrow> radar_ok (saw_service parent label nowMs r)"
proof -
  assume r: "radar_ok r"
  have "service_ok parent (AddSubtype label (v\<lparr>rv_type := parent, rv_lastMs := nowMs\<rparr>))"
    if "map_of (rd_fServices r) parent = Some v \<or> map_of (rd_fServices r) parent = None \<and> v = RadarService" for v
    using that entries_lookup [of service_ok "rd_fServices r" parent v] r
    by (intro AddSubtype_ok) (auto simp: radar_ok_def service_ok_def RadarService_def)
  moreover have "entries service_ok (rd_fServices r)" using r by (simp add: radar_ok_def)
  ultimately have "entries service_ok (rd_fServices (saw_service parent label nowMs r))"
    by (auto simp: saw_service_def intro!: entries_map_at)
  then show ?thesis using r
    by (auto simp: radar_ok_def saw_service_def elim: entries_mono)
qed

lemma radar_ok_instance:
  assumes r: "radar_ok r"
    and f: "\<And>i. ri_name (f i) = ri_name i \<and> (ri_type (f i) = ri_type i \<or> ri_type (f i) \<in> fst ` set (rd_fServices r))"
  shows "radar_ok (saw_instance name f nowMs r)"
proof -
  let ?R = "\<lambda>k v. ri_name v = k \<and> (ri_type v = [] \<or> ri_type v \<in> fst ` set (rd_fServices r))"
  have inv: "entries ?R (rd_fInstances r)" using r by (simp add: radar_ok_def)
  have "?R name ((f (v\<lparr>ri_name := name\<rparr>))\<lparr>ri_lastMs := nowMs\<rparr>)"
    if "map_of (rd_fInstances r) name = Some v \<or> map_of (rd_fInstances r) name = None \<and> v = RadarInstance" for v
    using that entries_lookup [OF inv, of name v] f [of "v\<lparr>ri_name := name\<rparr>"] by (auto simp: RadarInstance_def)
  then have "entries ?R (rd_fInstances (saw_instance name f nowMs r))"
    using inv by (auto simp: saw_instance_def intro!: entries_map_at)
  then show ?thesis using r by (simp add: radar_ok_def saw_instance_def)
qed

lemma radar_ok_hosts: "radar_ok r \<Longrightarrow> radar_ok (r\<lparr>rd_fHostAddrs := h\<rparr>)"
  by (simp add: radar_ok_def)

lemma saw_service_keys: "fst ` set (rd_fServices (saw_service parent label nowMs r)) = insert parent (fst ` set (rd_fServices r))"
  by (simp add: saw_service_def)

lemma first_src_keeps [simp]: "ri_name (first_src srcIp i) = ri_name i" "ri_type (first_src srcIp i) = ri_type i"
  by (simp_all add: first_src_def)

lemma radar_ok_record: "radar_ok r \<Longrightarrow> radar_ok (radar_record buf len srcIp nowMs rec r)"
  by (auto simp: radar_record_def saw_service_keys intro!: radar_ok_instance radar_ok_service radar_ok_hosts
      split: option.split prod.split)

lemma radar_ok_count: "radar_ok r \<Longrightarrow> rs_ip (case map_of (rd_fSources r) srcIp of None \<Rightarrow> RadarSource | Some v \<Rightarrow> v) = srcIp \<Longrightarrow>
    radar_ok (count_record srcIp r)"
  by (auto simp: radar_ok_def count_record_def RadarSource_def sum_map_at [where d = 0, simplified] sum_map_at [where d = 1]
      dest: entries_lookup intro!: entries_map_at split: option.splits)

lemma count_packet_source:
  "fst ` set (rd_fSources (count_packet srcIp nowMs r)) = insert srcIp (fst ` set (rd_fSources r))"
  by (simp add: count_packet_def)

lemma radar_ok_packet: "radar_ok r \<Longrightarrow> radar_ok (count_packet srcIp nowMs r)"
proof -
  assume r: "radar_ok r"
  then have "entries (\<lambda>k v. rs_ip v = k) (rd_fSources (count_packet srcIp nowMs r))"
    by (auto simp: radar_ok_def count_packet_def RadarSource_def dest: entries_lookup intro!: entries_map_at)
  then show ?thesis using r
    by (simp add: radar_ok_def count_packet_def RadarSource_def sum_map_at [where f = rs_packets and d = 1]
        sum_map_at [where f = rs_records and d = 0, simplified])
qed

lemma radar_ok_handle:
  "radar_ok r \<Longrightarrow> srcIp \<in> fst ` set (rd_fSources r) \<Longrightarrow>
    radar_ok (handle_records buf len srcIp nowMs recs r) \<and> srcIp \<in> fst ` set (rd_fSources (handle_records buf len srcIp nowMs recs r))"
proof (induction recs arbitrary: r)
  case (Cons rec recs)
  obtain v where v: "map_of (rd_fSources r) srcIp = Some v" using Cons.prems(2) by (metis map_of_eq_None_iff option.exhaust)
  then have "rs_ip v = srcIp" using Cons.prems(1) by (auto simp: radar_ok_def dest: entries_lookup)
  then have "radar_ok (count_record srcIp r)" using radar_ok_count [OF Cons.prems(1)] v by simp
  then have "radar_ok (radar_record buf len srcIp nowMs rec (count_record srcIp r))" by (rule radar_ok_record)
  moreover have "rd_fSources (radar_record buf len srcIp nowMs rec r') = rd_fSources r'" for r'
    by (simp add: radar_record_def saw_instance_def saw_service_def split: option.split prod.split)
  ultimately show ?case using Cons.IH by (simp add: count_record_def)
qed simp

lemma radar_ok_Ingest: "radar_ok r \<Longrightarrow> radar_ok (Radar_Ingest buf len srcIp nowMs r)"
  using radar_ok_packet [of r srcIp nowMs] count_packet_source [of srcIp nowMs r]
  by (auto simp: Radar_Ingest_def Let_def radar_ok_handle split: option.split) (simp add: radar_ok_def)

lemma radar_ok_turn: "radar_ok r \<Longrightarrow> radar_ok (fst (Radar_turn r lastQuery u))"
  by (simp add: Radar_turn_def Let_def radar_ok_Ingest split: option.split)

lemma radar_ok_loop: "radar_ok r \<Longrightarrow> radar_ok (fst (Radar_loop r lastQuery us))"
proof (induction us arbitrary: r lastQuery)
  case (Cons u us)
  obtain r' l' sent where t: "Radar_turn r lastQuery u = (r', l', sent)" by (metis prod.exhaust)
  then have "radar_ok r'" using radar_ok_turn [OF Cons.prems, of lastQuery u] by simp
  then show ?case using Cons.IH [of r' l'] t by (auto split: prod.split)
qed simp

section \<open>The snapshot of a well-formed model\<close>

lemma count_types_of:
  "(case map_of (count_types is perType) t of Some n \<Rightarrow> n | None \<Rightarrow> 0) =
    (case map_of perType t of Some n \<Rightarrow> n | None \<Rightarrow> 0) + length (filter (\<lambda>i. ri_type i = t \<and> t \<noteq> []) is)"
  by (induction "is" arbitrary: perType) (auto simp: map_at_def split: option.split)

lemma resolve_keeps [simp]: "ri_name (resolve_addrs r i) = ri_name i" "ri_type (resolve_addrs r i) = ri_type i"
  by (simp_all add: resolve_addrs_def Let_def split: option.split)

lemma count_by_key:
  assumes "distinct ts" "list_all (\<lambda>i. P i \<longrightarrow> key i \<in> set ts) xs"
  shows "sum_list (map (\<lambda>t. length (filter (\<lambda>i. key i = t \<and> P i) xs)) ts) = length (filter P xs)"
  using assms(2)
proof (induction xs)
  case (Cons x xs)
  have one: "sum_list (map (\<lambda>t. (if key x = t \<and> P x then 1 else 0) + length (filter (\<lambda>i. key i = t \<and> P i) xs)) ts) =
      (if P x then 1 else 0) + length (filter P xs)"
    using Cons assms(1) by (simp add: sum_list_addf sum_list_distinct_conv_sum_set)
  have "(\<lambda>t. length (filter (\<lambda>i. key i = t \<and> P i) (x # xs))) =
      (\<lambda>t. (if key x = t \<and> P x then 1 else 0) + length (filter (\<lambda>i. key i = t \<and> P i) xs))" by (auto simp: fun_eq_iff)
  then show ?case using one by simp
qed simp

lemma entries_keys: "entries R m \<Longrightarrow> (\<And>k v. R k v \<Longrightarrow> f v = k) \<Longrightarrow> map (f \<circ> snd) m = map fst m"
  by (induction m) (auto simp: entries_def)

definition snapshot_ok :: "RadarSnapshot \<Rightarrow> bool" where
  "snapshot_ok x \<longleftrightarrow> sorted (map rs_ip (rx_sources x)) \<and> distinct (map rs_ip (rx_sources x)) \<and>
    sorted (map rv_type (rx_services x)) \<and> distinct (map rv_type (rx_services x)) \<and>
    sorted (map (\<lambda>i. (ri_type i, ri_name i)) (rx_instances x)) \<and> distinct (map ri_name (rx_instances x)) \<and>
    rx_totalPackets x = sum_list (map rs_packets (rx_sources x)) \<and>
    rx_totalRecords x = sum_list (map rs_records (rx_sources x)) \<and>
    list_all (\<lambda>v. rv_instances v = length (filter (\<lambda>i. ri_type i = rv_type v \<and> ri_type i \<noteq> []) (rx_instances x))) (rx_services x) \<and>
    sum_list (map rv_instances (rx_services x)) = length (filter (\<lambda>i. ri_type i \<noteq> []) (rx_instances x))"

lemma sum_list_sort_key: "sum_list (map g (sort_key f xs)) = sum_list (map (g :: _ \<Rightarrow> 'a::comm_monoid_add) xs)"
  by (metis mset_map mset_sort sum_mset_sum_list)

lemma distinct_sort_key: "distinct (map g (sort_key f xs)) = distinct (map g xs)"
  by (metis distinct_map distinct_sort set_sort)

lemma length_filter_sort_key: "length (filter P (sort_key f xs)) = length (filter P xs)"
  by (metis mset_filter mset_sort size_mset)

lemma Snapshot_ok:
  assumes "radar_ok r"
  shows "snapshot_ok (Radar_Snapshot r)"
proof -
  have src: "entries (\<lambda>k v. rs_ip v = k) (rd_fSources r)" and svc: "entries service_ok (rd_fServices r)"
    and inst: "entries (\<lambda>k v. ri_name v = k \<and> (ri_type v = [] \<or> ri_type v \<in> fst ` set (rd_fServices r))) (rd_fInstances r)"
    using assms by (simp_all add: radar_ok_def)
  have ips: "map (rs_ip \<circ> snd) (rd_fSources r) = map fst (rd_fSources r)" by (rule entries_keys [OF src])
  have types: "map (rv_type \<circ> snd) (rd_fServices r) = map fst (rd_fServices r)"
    by (rule entries_keys [OF svc]) (simp add: service_ok_def)
  have names: "map (ri_name \<circ> snd) (rd_fInstances r) = map fst (rd_fInstances r)" by (rule entries_keys [OF inst]) simp
  have dist: "distinct (map fst (rd_fSources r))" "distinct (map fst (rd_fServices r))" "distinct (map fst (rd_fInstances r))"
    using assms by (simp_all add: radar_ok_def map_ok_def)
  let ?is = "map (resolve_addrs r \<circ> snd) (rd_fInstances r)"
  have typed: "list_all (\<lambda>i. ri_type i \<noteq> [] \<longrightarrow> ri_type i \<in> set (map fst (rd_fServices r))) ?is"
    using inst by (auto simp: entries_def list_all_iff)
  have per: "(case map_of (count_types ?is []) t of Some n \<Rightarrow> n | None \<Rightarrow> 0) = length (filter (\<lambda>i. ri_type i = t \<and> ri_type i \<noteq> []) ?is)" for t
    using count_types_of [of ?is "[]" t] by (auto intro!: arg_cong [where f = length] filter_cong)
  have sum: "sum_list (map (\<lambda>t. length (filter (\<lambda>i. ri_type i = t \<and> ri_type i \<noteq> []) ?is)) (map fst (rd_fServices r))) =
      length (filter (\<lambda>i. ri_type i \<noteq> []) ?is)"
    by (rule count_by_key [OF dist(2) typed])
  define n where "n t = length (filter (\<lambda>i. ri_type i = t \<and> ri_type i \<noteq> []) ?is)" for t
  define ss where "ss = map (\<lambda>svc. svc\<lparr>rv_instances := n (rv_type svc)\<rparr>) (map snd (rd_fServices r))"
  have x: "rx_sources (Radar_Snapshot r) = sort_key rs_ip (map snd (rd_fSources r))"
    "rx_services (Radar_Snapshot r) = sort_key rv_type ss"
    "rx_instances (Radar_Snapshot r) = sort_key (\<lambda>i. (ri_type i, ri_name i)) ?is"
    "rx_totalPackets (Radar_Snapshot r) = rd_fTotalPackets r" "rx_totalRecords (Radar_Snapshot r) = rd_fTotalRecords r"
    by (simp_all only: Radar_Snapshot_def Let_def per ss_def n_def RadarSnapshot.simps)
  have "map rs_ip (map snd (rd_fSources r)) = map fst (rd_fSources r)" "map ri_name ?is = map fst (rd_fInstances r)"
    "map rv_type ss = map fst (rd_fServices r)" "map rv_instances ss = map n (map fst (rd_fServices r))"
    using ips names types by (simp_all add: ss_def o_def flip: types)
  moreover have "sum_list (map rs_packets (map snd (rd_fSources r))) = rd_fTotalPackets r"
    "sum_list (map rs_records (map snd (rd_fSources r))) = rd_fTotalRecords r"
    using assms by (simp_all add: radar_ok_def)
  moreover have "list_all (\<lambda>v. rv_instances v = n (rv_type v)) (sort_key rv_type ss)"
    by (auto simp: list_all_iff ss_def)
  moreover have "length (filter (\<lambda>i. ri_type i = t \<and> ri_type i \<noteq> []) (sort_key (\<lambda>i. (ri_type i, ri_name i)) ?is)) = n t" for t
    by (simp only: length_filter_sort_key n_def)
  moreover have "sum_list (map n (map fst (rd_fServices r))) = length (filter (\<lambda>i. ri_type i \<noteq> []) ?is)"
    using sum by (simp only: n_def [abs_def])
  ultimately show ?thesis using dist
    by (simp only: snapshot_ok_def x sum_list_sort_key distinct_sort_key length_filter_sort_key sorted_sort_key simp_thms)
qed

text \<open>
  The radar's numbers add up, whatever arrives. After any turns of its worker the snapshot's totals
  are the sums over its sources, each source is listed once and in order, each service counts exactly
  the instances listed under its type, and every instance with a type is counted once.
\<close>

theorem radar_adds_up:
  "snapshot_ok (Radar_Snapshot (fst (Radar_Run (Radar_Start iface now) now us)))"
proof -
  have "radar_ok (fst (Radar_Run (Radar_Start iface now) now us))"
    using radar_ok_loop [OF radar_ok_Start] by (simp add: Radar_Run_def split: prod.split) (metis fst_conv)
  then show ?thesis by (rule Snapshot_ok)
qed

end
