(* ===== verification/Labels.thy ===== *)
theory Labels
  imports Radar "HOL-Library.Sublist"
begin

text \<open>
  What the radar's snapshot is called in words, \<open>bricola/mdns/RadarLabels.cpp\<close>: labels of service types,
  TXT keys and TXT values, the summary of an instance and the text report. Numbers are read as
  \<open>strtol\<close> reads them and buffers are cut as \<open>snprintf\<close> cuts them.
\<close>

section \<open>Service types\<close>

definition kKnown :: "(string \<times> string \<times> string) list" where
  "kKnown =
    [(''_campiello._tcp.local'', ''Campiello'', ''Campiello''),
     (''_smb._tcp.local'', ''Condivisione Windows (SMB)'', ''File''),
     (''_afpovertcp._tcp.local'', ''Condivisione Apple (AFP)'', ''File''),
     (''_nfs._tcp.local'', ''Condivisione NFS'', ''File''),
     (''_webdav._tcp.local'', ''WebDAV'', ''File''),
     (''_webdavs._tcp.local'', ''WebDAV sicuro'', ''File''),
     (''_ftp._tcp.local'', ''FTP'', ''File''),
     (''_sftp-ssh._tcp.local'', ''SFTP (SSH)'', ''File''),
     (''_ssh._tcp.local'', ''SSH'', ''Sistema''),
     (''_http._tcp.local'', ''Web'', ''Web''),
     (''_https._tcp.local'', ''Web sicuro'', ''Web''),
     (''_ipp._tcp.local'', ''Stampante (IPP)'', ''Stampa''),
     (''_ipps._tcp.local'', ''Stampante (IPPS)'', ''Stampa''),
     (''_printer._tcp.local'', ''Stampante (LPR)'', ''Stampa''),
     (''_pdl-datastream._tcp.local'', ''Stampante (RAW 9100)'', ''Stampa''),
     (''_scanner._tcp.local'', ''Scanner'', ''Stampa''),
     (''_uscan._tcp.local'', ''Scanner (eSCL)'', ''Stampa''),
     (''_hue._tcp.local'', ''Philips Hue'', ''Casa''),
     (''_hap._tcp.local'', ''Apple HomeKit'', ''Casa''),
     (''_matter._tcp.local'', ''Matter'', ''Casa''),
     (''_matterc._udp.local'', ''Matter (in abbinamento)'', ''Casa''),
     (''_matterd._udp.local'', ''Matter (operativo)'', ''Casa''),
     (''_companion-link._tcp.local'', ''Apple Continuity'', ''Casa''),
     (''_airplay._tcp.local'', ''AirPlay'', ''Media''),
     (''_raop._tcp.local'', ''AirPlay Audio'', ''Media''),
     (''_airport._tcp.local'', ''Apple AirPort'', ''Rete''),
     (''_googlecast._tcp.local'', ''Chromecast / Google Cast'', ''Media''),
     (''_spotify-connect._tcp.local'', ''Spotify Connect'', ''Media''),
     (''_amzn-wplay._tcp.local'', ''Amazon (Whisperplay)'', ''Media''),
     (''_amzn-alexa._tcp.local'', ''Amazon Alexa'', ''Media''),
     (''_daap._tcp.local'', ''Libreria iTunes (DAAP)'', ''Media''),
     (''_workstation._tcp.local'', ''Computer'', ''Computer''),
     (''_device-info._tcp.local'', ''Info dispositivo'', ''Sistema''),
     (''_rfb._tcp.local'', ''Desktop remoto (VNC)'', ''Sistema''),
     (''_sleap._tcp.local'', ''Lutron'', ''Casa''),
     (''_dkapi._tcp.local'', ''Condizionatore Daikin'', ''Casa''),
     (''_esphomelib._tcp.local'', ''Dispositivo ESPHome'', ''Casa''),
     (''_nut._tcp.local'', ''Gruppo di continuita (UPS)'', ''Sistema''),
     (''_eero._tcp.local'', ''Router mesh eero'', ''Rete'')]"

definition IsMatter :: "string \<Rightarrow> bool" where
  "IsMatter type \<longleftrightarrow> take (length ''_matter'') type = ''_matter''"

definition IsAmznWplay :: "string \<Rightarrow> bool" where
  "IsAmznWplay type \<longleftrightarrow> type = ''_amzn-wplay._tcp.local''"

definition erase_suffix :: "nat \<Rightarrow> string \<Rightarrow> string" where
  "erase_suffix n s = take (length s - n) s"

definition DeriveServiceLabel :: "string \<Rightarrow> string" where
  "DeriveServiceLabel type =
    (let s = (if EndsWith type ''.local'' then erase_suffix 6 type else type);
         s = (if EndsWith s ''._tcp'' then erase_suffix 5 s
              else if EndsWith s ''._udp'' then erase_suffix 5 s else s);
         s = (if s \<noteq> [] \<and> hd s = CHR ''_'' then tl s else s)
     in if s = [] then type else s)"

text \<open>The label and the category.\<close>

type_synonym ServiceInfo = "string \<times> string"

definition LookupService :: "string \<Rightarrow> ServiceInfo" where
  "LookupService type = (case map_of kKnown type of Some info \<Rightarrow> info | None \<Rightarrow> (DeriveServiceLabel type, ''Altro''))"

section \<open>Numbers\<close>

definition hex_value :: "char \<Rightarrow> nat option" where
  "hex_value c = (let n = of_char c in
     if 48 \<le> n \<and> n \<le> 57 then Some (n - 48)
     else if 97 \<le> n \<and> n \<le> 102 then Some (n - 97 + 10)
     else if 65 \<le> n \<and> n \<le> 70 then Some (n - 65 + 10)
     else None)"

definition digit_in :: "nat \<Rightarrow> char \<Rightarrow> bool" where
  "digit_in base c \<longleftrightarrow> (case hex_value c of Some d \<Rightarrow> d < base | None \<Rightarrow> False)"

definition value_in :: "nat \<Rightarrow> string \<Rightarrow> nat" where
  "value_in base = foldl (\<lambda>v c. v * base + the (hex_value c)) 0"

text \<open>\<open>long\<close> is 64 bits wide; \<open>strtol\<close> stays at its ends.\<close>

definition to_long :: "int \<Rightarrow> int" where
  "to_long v = max (- (2 ^ 63)) (min (2 ^ 63 - 1) v)"

text \<open>
  \<open>strtol\<close> in base 0: the base is 16 behind \<open>0x\<close> and a digit, 8 behind a 0, and 10. The result is the
  number and what follows; without a digit nothing is read.
\<close>

definition strtol0 :: "string \<Rightarrow> int \<times> string" where
  "strtol0 s =
    (let t = dropWhile is_space s;
         neg = (t \<noteq> [] \<and> hd t = CHR ''-'');
         t = (if t \<noteq> [] \<and> (hd t = CHR ''-'' \<or> hd t = CHR ''+'') then tl t else t);
         (base, ds) = (if length t \<ge> 3 \<and> t ! 0 = CHR ''0'' \<and> (t ! 1 = CHR ''x'' \<or> t ! 1 = CHR ''X'') \<and> digit_in 16 (t ! 2)
           then (16, drop 2 t) else if t \<noteq> [] \<and> hd t = CHR ''0'' then (8, t) else (10, t));
         v = int (value_in base (takeWhile (digit_in base) ds))
     in if takeWhile (digit_in base) ds = [] then (0, s)
        else (to_long (if neg then - v else v), dropWhile (digit_in base) ds))"

definition ParseInt :: "string \<Rightarrow> int option" where
  "ParseInt s = (if s = [] then None else (case strtol0 (c_str s) of (v, rest) \<Rightarrow> if rest = [] then Some v else None))"

text \<open>\<open>strtoll\<close> in base 10, which is \<open>atoi\<close> as well on numbers that fit an \<open>int\<close>.\<close>

definition strtoll :: "string \<Rightarrow> int" where
  "strtoll s = (let t = dropWhile is_space s; v = int (digits_value (takeWhile is_digit (case t of c # r \<Rightarrow> if c = CHR ''-'' \<or> c = CHR ''+'' then r else t | [] \<Rightarrow> [])))
     in to_long (if t \<noteq> [] \<and> hd t = CHR ''-'' then - v else v))"

definition show_long :: "int \<Rightarrow> string" where
  "show_long i = (if i < 0 then CHR ''-'' # decimal (nat (- i)) else decimal (nat i))"

text \<open>\<open>snprintf\<close> into a buffer of \<open>n\<close> bytes keeps room for the NUL.\<close>

definition snprintf :: "nat \<Rightarrow> string \<Rightarrow> string" where
  "snprintf n s = take (n - 1) s"

section \<open>TXT keys and values\<close>

definition HomeKitCategory :: "int \<Rightarrow> string option" where
  "HomeKitCategory n = map_of
    [(1, ''Altro''),
     (2, ''Bridge''),
     (3, ''Ventilatore''),
     (4, ''Apriporta garage''),
     (5, ''Lampadina''),
     (6, ''Serratura''),
     (7, ''Presa''),
     (8, ''Interruttore''),
     (9, ''Termostato''),
     (10, ''Sensore''),
     (11, ''Sistema di sicurezza''),
     (12, ''Porta''),
     (13, ''Finestra''),
     (14, ''Tenda / tapparella''),
     (15, ''Interruttore programmabile''),
     (16, ''Range extender''),
     (17, ''Videocamera IP''),
     (18, ''Videocitofono''),
     (19, ''Purificatore d'aria''),
     (20, ''Riscaldatore''),
     (21, ''Condizionatore''),
     (22, ''Umidificatore''),
     (23, ''Deumidificatore''),
     (26, ''Irrigatore''),
     (27, ''Rubinetto''),
     (28, ''Doccia''),
     (29, ''Televisore''),
     (30, ''Telecomando''),
     (31, ''Router WiFi''),
     (32, ''Ricevitore audio''),
     (33, ''Set-top box TV''),
     (34, ''Chiavetta streaming TV'')] n"

definition MatterDeviceType :: "int \<Rightarrow> string option" where
  "MatterDeviceType n = map_of
    [(0x0100, ''Lampadina on/off''),
     (0x0101, ''Lampadina dimmerabile''),
     (0x010C, ''Lampadina bianco variabile''),
     (0x010D, ''Lampadina RGB''),
     (0x010A, ''Presa on/off''),
     (0x010B, ''Presa dimmerabile''),
     (0x0103, ''Interruttore luce on/off''),
     (0x0104, ''Interruttore dimmer''),
     (0x0105, ''Interruttore colore''),
     (0x0106, ''Sensore di luce''),
     (0x0107, ''Sensore di presenza''),
     (0x000A, ''Serratura''),
     (0x000E, ''Aggregatore / bridge''),
     (0x0015, ''Sensore di contatto''),
     (0x0016, ''Nodo radice''),
     (0x002B, ''Ventilatore''),
     (0x002D, ''Purificatore d'aria''),
     (0x0041, ''Tenda motorizzata''),
     (0x0301, ''Termostato''),
     (0x0302, ''Sensore di temperatura''),
     (0x0306, ''Sensore di flusso''),
     (0x0307, ''Sensore di umidita''),
     (0x000F, ''Interruttore generico''),
     (0x0013, ''Nodo bridge''),
     (0x0022, ''Altoparlante''),
     (0x0023, ''Lettore video (casting)''),
     (0x0024, ''App contenuti''),
     (0x0027, ''Selettore modalita''),
     (0x0028, ''Lettore video''),
     (0x0029, ''Client video casting''),
     (0x002A, ''Telecomando video'')] n"

definition IsMatterTestVendor :: "int \<Rightarrow> bool" where
  "IsMatterTestVendor vendorId \<longleftrightarrow> vendorId \<ge> 0xFFF1 \<and> vendorId \<le> 0xFFF4"

definition hap_keys :: "(string \<times> string) list" where
  "hap_keys = [(''md'', ''Modello''),
     (''ci'', ''Categoria''),
     (''sf'', ''Stato abbinamento''),
     (''pv'', ''Versione protocollo''),
     (''id'', ''ID accessorio''),
     (''c#'', ''Numero configurazione''),
     (''s#'', ''Numero stato''),
     (''ff'', ''Flag funzionalita''),
     (''sh'', ''Hash configurazione'')]"

definition amzn_keys :: "(string \<times> string) list" where
  "amzn_keys = [(''n'', ''Nome''),
     (''c'', ''Indirizzo MAC''),
     (''ad'', ''Seriale dispositivo''),
     (''u'', ''ID univoco''),
     (''sp'', ''Porta sicura''),
     (''tr'', ''Trasporto''),
     (''pv'', ''Versione protocollo''),
     (''dpv'', ''Versione protocollo dati''),
     (''v'', ''Versione''),
     (''mv'', ''Versione modello'')]"

definition matter_keys :: "(string \<times> string) list" where
  "matter_keys = [(''VP'', ''Vendor / Prodotto''),
     (''DT'', ''Tipo dispositivo''),
     (''DN'', ''Nome dispositivo''),
     (''CM'', ''Modo abbinamento''),
     (''D'', ''Discriminatore''),
     (''PH'', ''Suggerimento abbinamento''),
     (''PI'', ''Istruzioni abbinamento'')]"

definition dkapi_keys :: "(string \<times> string) list" where
  "dkapi_keys = [(''type'', ''Tipo''),
     (''reg'', ''Regione''),
     (''ver'', ''Versione firmware''),
     (''adp_kind'', ''Tipo adattatore''),
     (''adp_mode'', ''Modo adattatore''),
     (''pow'', ''Accensione''),
     (''led'', ''LED'')]"

definition esphome_keys :: "(string \<times> string) list" where
  "esphome_keys = [(''project_name'', ''Progetto''),
     (''project_version'', ''Versione progetto''),
     (''version'', ''Versione ESPHome''),
     (''board'', ''Scheda''),
     (''platform'', ''Piattaforma''),
     (''network'', ''Rete''),
     (''mac'', ''Indirizzo MAC'')]"

definition eero_keys :: "(string \<times> string) list" where
  "eero_keys = [(''base_mac'', ''MAC base'')]"

definition generic_keys :: "(string \<times> string) list" where
  "generic_keys = [(''md'', ''Modello''),
     (''model'', ''Modello''),
     (''ty'', ''Modello''),
     (''usb_MDL'', ''Modello''),
     (''fn'', ''Nome''),
     (''usb_MFG'', ''Produttore''),
     (''note'', ''Posizione''),
     (''rp'', ''Percorso''),
     (''pdl'', ''Formati''),
     (''deviceid'', ''ID dispositivo''),
     (''n'', ''Nome''),
     (''srcvers'', ''Versione''),
     (''ve'', ''Versione''),
     (''vs'', ''Versione''),
     (''bridgeid'', ''ID bridge''),
     (''modelid'', ''ID modello''),
     (''osxvers'', ''Versione macOS''),
     (''rs'', ''Stato'')]"

text \<open>The keys of a service are looked for before the generic ones.\<close>

definition service_keys :: "string \<Rightarrow> (string \<times> string) list" where
  "service_keys type =
    (if type = ''_hap._tcp.local'' then hap_keys else []) @
    (if IsAmznWplay type then amzn_keys else []) @
    (if IsMatter type then matter_keys else []) @
    (if type = ''_dkapi._tcp.local'' then dkapi_keys else []) @
    (if type = ''_esphomelib._tcp.local'' then esphome_keys else []) @
    (if type = ''_eero._tcp.local'' then eero_keys else [])"

definition TxtKeyLabel :: "string \<Rightarrow> string \<Rightarrow> string" where
  "TxtKeyLabel serviceType key =
    (case map_of (service_keys serviceType @ generic_keys) key of Some label \<Rightarrow> label | None \<Rightarrow> key)"

text \<open>A name with its number, \<open>"%s (%ld)"\<close>.\<close>

definition numbered :: "nat \<Rightarrow> string \<Rightarrow> int \<Rightarrow> string" where
  "numbered n name i = snprintf n (c_str name @ '' ('' @ show_long i @ '')'')"

definition hap_value :: "string \<Rightarrow> string \<Rightarrow> string option" where
  "hap_value key value =
    (if key = ''ci'' then
       (case ParseInt value of None \<Rightarrow> None
        | Some ci \<Rightarrow> map_option (\<lambda>name. numbered 64 name ci) (HomeKitCategory ci))
     else if key = ''sf'' then
       map_option (\<lambda>sf. if odd sf then ''non abbinato (visibile)'' else ''abbinato'') (ParseInt value)
     else if key = ''ff'' then
       map_option (\<lambda>ff.
         let s = (if odd ff then ''coprocessore MFi'' else []);
             s = (if odd (ff div 2) then (if s \<noteq> [] then s @ '', '' else s) @ ''autenticazione software'' else s);
             s = (if s = [] then ''nessuna'' else s)
         in numbered 96 s ff) (ParseInt value)
     else None)"

definition matter_value :: "string \<Rightarrow> string \<Rightarrow> string option" where
  "matter_value key value =
    (if key = ''DT'' then
       (case ParseInt value of None \<Rightarrow> None
        | Some dt \<Rightarrow> map_option (\<lambda>name. numbered 64 name dt) (MatterDeviceType dt))
     else if key = ''VP'' \<and> CHR ''+'' \<in> set value then
       (let vendor = takeWhile (\<lambda>c. c \<noteq> CHR ''+'') value;
            product = tl (dropWhile (\<lambda>c. c \<noteq> CHR ''+'') value);
            note = (case ParseInt vendor of Some vid \<Rightarrow> if IsMatterTestVendor vid then '' (vendor di test)'' else []
              | None \<Rightarrow> [])
        in Some (snprintf 128 (''Vendor '' @ c_str vendor @ '', Prodotto '' @ c_str product @ note)))
     else None)"

definition DecodeTxtValue :: "string \<Rightarrow> string \<Rightarrow> string \<Rightarrow> string" where
  "DecodeTxtValue serviceType key value =
    (case (if serviceType = ''_hap._tcp.local'' then hap_value key value else None) of
       Some s \<Rightarrow> s
     | None \<Rightarrow> (case (if IsMatter serviceType then matter_value key value else None) of
         Some s \<Rightarrow> s
       | None \<Rightarrow> value))"

section \<open>The summary of an instance\<close>

text \<open>\<open>TxtGet\<close> is \<open>map_of\<close>: the first entry of the key. A missing value reads as the empty one.\<close>

definition TxtGet :: "(string \<times> string) list \<Rightarrow> string \<Rightarrow> string option" where
  "TxtGet txt key = map_of txt key"

definition txt_or_empty :: "(string \<times> string) list \<Rightarrow> string \<Rightarrow> string" where
  "txt_or_empty txt key = (case TxtGet txt key of Some v \<Rightarrow> v | None \<Rightarrow> [])"

text \<open>Two parts with a dash, or the one that is there, the first of them in the given order.\<close>

definition hap_summary :: "string \<Rightarrow> (string \<times> string) list \<Rightarrow> string" where
  "hap_summary serviceType txt =
    (let model = txt_or_empty txt ''md'';
         cat = (case TxtGet txt ''ci'' of Some ci \<Rightarrow> DecodeTxtValue serviceType ''ci'' ci | None \<Rightarrow> [])
     in if model \<noteq> [] \<and> cat \<noteq> [] then model @ '' - '' @ cat
        else if model \<noteq> [] then model else cat)"

definition matter_summary :: "string \<Rightarrow> (string \<times> string) list \<Rightarrow> string" where
  "matter_summary serviceType txt =
    (let dn = txt_or_empty txt ''DN'';
         decodedDt = (case TxtGet txt ''DT'' of None \<Rightarrow> []
           | Some dt \<Rightarrow> (let d = DecodeTxtValue serviceType ''DT'' dt in if d = dt then [] else d))
     in if dn \<noteq> [] \<and> decodedDt \<noteq> [] then dn @ '' - '' @ decodedDt
        else if decodedDt \<noteq> [] then decodedDt else dn)"

definition generic_summary :: "(string \<times> string) list \<Rightarrow> string" where
  "generic_summary txt =
    (if txt_or_empty txt ''fn'' \<noteq> [] then
       (if txt_or_empty txt ''md'' \<noteq> [] then txt_or_empty txt ''fn'' @ '' ('' @ txt_or_empty txt ''md'' @ '')''
        else txt_or_empty txt ''fn'')
     else if txt_or_empty txt ''md'' \<noteq> [] then txt_or_empty txt ''md''
     else if txt_or_empty txt ''ty'' \<noteq> [] then txt_or_empty txt ''ty''
     else if txt_or_empty txt ''model'' \<noteq> [] then txt_or_empty txt ''model''
     else txt_or_empty txt ''n'')"

definition InstanceSummary :: "string \<Rightarrow> (string \<times> string) list \<Rightarrow> string" where
  "InstanceSummary serviceType txt =
    (let special =
       (if serviceType = ''_hap._tcp.local'' then hap_summary serviceType txt
        else if IsMatter serviceType then matter_summary serviceType txt
        else if serviceType = ''_esphomelib._tcp.local'' then txt_or_empty txt ''project_name''
        else [])
     in if special \<noteq> [] then special else generic_summary txt)"

section \<open>The report\<close>

text \<open>A line is put together in a buffer of 768 bytes.\<close>

definition report_line :: "string \<Rightarrow> string" where
  "report_line s = snprintf 768 s"

definition new_line :: string where "new_line = [CHR 0x0A]"

text \<open>What is joined with commas, as the loops append it.\<close>

definition comma_list :: "string list \<Rightarrow> string" where
  "comma_list = foldl (\<lambda>acc d. (if acc \<noteq> [] then acc @ '', '' else acc) @ d) []"

definition host_devices :: "RadarInstance list \<Rightarrow> (string, string std_set) std_map" where
  "host_devices insts = fold (\<lambda>inst. fold (\<lambda>addr. map_at [] addr (set_put (fst (LookupService (ri_type inst))))) (ri_addrs inst)) insts []"

definition capture_seconds :: "RadarSnapshot \<Rightarrow> int" where
  "capture_seconds snap = max 0 ((rx_nowMs snap - rx_startMs snap) div 1000)"

definition report_head :: "RadarSnapshot \<Rightarrow> string" where
  "report_head snap = ''Campiello Radar - report di rete (mDNS/DNS-SD)'' @ new_line
     @ report_line (''Interfaccia: '' @ c_str (if rx_interfaceIp snap = [] then ''automatica'' else rx_interfaceIp snap) @ new_line)
     @ report_line (''Pacchetti: '' @ decimal (unat (rx_totalPackets snap)) @ '' da '' @ decimal (length (rx_sources snap))
         @ '' host, '' @ decimal (unat (rx_totalRecords snap)) @ '' record ('' @ decimal (unat (rx_droppedPackets snap))
         @ '' scartati), cattura di '' @ show_long (capture_seconds snap) @ ''s'' @ new_line @ new_line)"

definition report_source :: "(string, string std_set) std_map \<Rightarrow> RadarSource \<Rightarrow> string" where
  "report_source hostDevices src =
    (let devices = comma_list (case map_of hostDevices (rs_ip src) of Some ds \<Rightarrow> ds | None \<Rightarrow> []);
         counts = decimal (unat (rs_packets src)) @ '' pacchetti, '' @ decimal (unat (rs_records src)) @ '' record'' @ new_line
     in if devices = [] then report_line (''  '' @ c_str (rs_ip src) @ '' - '' @ counts)
        else report_line (''  '' @ c_str (rs_ip src) @ '' - '' @ c_str devices @ '' - '' @ counts))"

definition report_txt :: "RadarInstance \<Rightarrow> string \<times> string \<Rightarrow> string" where
  "report_txt inst kv =
    (let label = TxtKeyLabel (ri_type inst) (fst kv);
         value = DecodeTxtValue (ri_type inst) (fst kv) (snd kv)
     in if value = [] then report_line (''      '' @ c_str label @ new_line)
        else report_line (''      '' @ c_str label @ '' = '' @ c_str value @ new_line))"

definition report_instance_line :: "RadarInstance \<Rightarrow> string" where
  "report_instance_line inst =
    (let addr = (if ri_addrs inst = [] then ri_host inst else hd (ri_addrs inst));
         summary = InstanceSummary (ri_type inst) (ri_txt inst);
         at = ''    '' @ c_str (ri_name inst) @ ''  @ '' @ c_str addr @ '':'' @ decimal (unat (ri_port inst))
     in if summary = [] then report_line (at @ new_line)
        else report_line (at @ ''  ['' @ c_str summary @ '']'' @ new_line))"

definition report_service_line :: "RadarService \<Rightarrow> string" where
  "report_service_line svc =
    (case LookupService (rv_type svc) of (label, category) \<Rightarrow>
     let header = (if category = ''Altro'' \<or> category = label then label else category @ '' - '' @ label)
     in report_line (''  '' @ c_str header @ ''  ['' @ c_str (rv_type svc) @ '']  ('' @ decimal (rv_instances svc) @ '' istanze)'' @ new_line))"

definition report_service :: "RadarInstance list \<Rightarrow> RadarService \<Rightarrow> string" where
  "report_service insts svc = report_service_line svc
     @ (if rv_subtypes svc = [] then [] else report_line (''    sottotipi: '' @ c_str (comma_list (rv_subtypes svc)) @ new_line))
     @ concat (map (\<lambda>inst. if ri_type inst \<noteq> rv_type svc then []
         else report_instance_line inst @ concat (map (report_txt inst) (ri_txt inst))) insts)"

definition BuildRadarReport :: "RadarSnapshot \<Rightarrow> string" where
  "BuildRadarReport snap = report_head snap
     @ report_line (''HOST CHE TRASMETTONO ('' @ decimal (length (rx_sources snap)) @ '')'' @ new_line)
     @ concat (map (report_source (host_devices (rx_instances snap))) (rx_sources snap))
     @ report_line (new_line @ ''SERVIZI ('' @ decimal (length (rx_services snap)) @ '')'' @ new_line)
     @ concat (map (report_service (rx_instances snap)) (rx_services snap))"

section \<open>What the values say\<close>

lemmas number_eval = ParseInt_def strtol0_def c_str_def digit_in_def hex_value_def value_in_def to_long_def is_space_def Let_def

lemma hex_value_digit: "is_digit c \<Longrightarrow> hex_value c = Some (of_char c - 48)"
  by (simp add: hex_value_def is_digit_def Let_def)

lemma digit_in_10: "digit_in 10 c \<longleftrightarrow> is_digit c"
  by (auto simp: digit_in_def hex_value_def is_digit_def Let_def)

lemma value_in_10: "\<forall>c \<in> set s. is_digit c \<Longrightarrow> value_in 10 s = digits_value s"
proof -
  have "\<forall>c \<in> set s. is_digit c \<Longrightarrow>
      foldl (\<lambda>v c. v * 10 + the (hex_value c)) v s = foldl (\<lambda>v c. v * 10 + (of_char c - 48)) v s" for v
    by (induction s arbitrary: v) (simp_all add: hex_value_digit)
  then show "\<forall>c \<in> set s. is_digit c \<Longrightarrow> ?thesis" by (simp add: value_in_def digits_value_def)
qed

lemma decimal_zero: "decimal 0 = ''0''"
  by code_simp

lemma decimal_head: "n > 0 \<Longrightarrow> hd (decimal n) \<noteq> CHR ''0''"
proof (induction n rule: decimal.induct)
  case (1 n)
  show ?case
  proof (cases "n < 10")
    case True
    then have "(of_char (char_of (48 + n) :: char) :: nat) \<noteq> of_char CHR ''0''" using 1(2) by simp
    then have "char_of (48 + n) \<noteq> CHR ''0''" by metis
    then show ?thesis using True by (subst decimal.simps) simp
  next
    case False
    then show ?thesis using 1(1) decimal_facts(1) [of "n div 10"] by (subst decimal.simps) simp
  qed
qed

lemma c_str_decimal [simp]: "c_str (decimal n) = decimal n"
  using decimal_facts(2) [of n] is_digit_not(3) by (auto simp: c_str_def takeWhile_eq_all_conv)

text \<open>A number in decimal is read back.\<close>

lemma ParseInt_decimal: "n < 2 ^ 63 \<Longrightarrow> ParseInt (decimal n) = Some (int n)"
proof (cases "n = 0")
  case True
  then show ?thesis by (simp add: number_eval decimal_zero)
next
  case False
  assume n: "n < 2 ^ 63"
  obtain c t where ct: "decimal n = c # t" using decimal_facts(1) [of n] by (cases "decimal n") auto
  have dig: "\<forall>c \<in> set (decimal n). is_digit c" by (rule decimal_facts)
  then have c: "\<not> is_space c" "c \<noteq> CHR ''-''" "c \<noteq> CHR ''+''" "c \<noteq> CHR ''0''"
    using is_digit_not ct decimal_head [of n] False by auto
  have all: "takeWhile (digit_in 10) (decimal n) = decimal n" "dropWhile (digit_in 10) (decimal n) = []"
    using dig by (simp_all add: takeWhile_eq_all_conv digit_in_10)
  have "strtol0 (decimal n) = (to_long (int (value_in 10 (decimal n))), [])"
    using c all by (simp add: strtol0_def Let_def ct)
  moreover have "to_long (int (value_in 10 (decimal n))) = int n"
    using n value_in_10 [OF dig] decimal_facts(3) [of n] by (simp add: to_long_def)
  ultimately show ?thesis using decimal_facts(1) [of n] by (simp add: ParseInt_def)
qed

lemma strtoll_decimal: "n < 2 ^ 63 \<Longrightarrow> strtoll (decimal n) = int n"
proof -
  assume n: "n < 2 ^ 63"
  obtain c t where ct: "decimal n = c # t" using decimal_facts(1) [of n] by (cases "decimal n") auto
  have dig: "\<forall>c \<in> set (decimal n). is_digit c" by (rule decimal_facts)
  then have c: "\<not> is_space c" "c \<noteq> CHR ''-''" "c \<noteq> CHR ''+''" using is_digit_not ct by auto
  have "takeWhile is_digit (c # t) = c # t" using dig ct by (simp add: takeWhile_eq_all_conv)
  then show ?thesis using c n decimal_facts(3) [of n] ct by (simp add: strtoll_def to_long_def Let_def)
qed

text \<open>A leading zero makes the number octal.\<close>

lemma leading_zero_is_octal: "ParseInt ''0100'' = Some 64" "ParseInt ''08'' = None"
  by (simp_all add: number_eval)

lemma short_names:
  "HomeKitCategory i = Some name \<Longrightarrow> length name \<le> 30 \<and> CHR 0x00 \<notin> set name \<and> 0 < i \<and> i < 100"
  by (auto simp: HomeKitCategory_def split: if_splits)

lemma decimal_short: "n < 100 \<Longrightarrow> length (decimal n) \<le> 2"
  by (subst decimal.simps) (auto simp: decimal.simps)

text \<open>Every category an accessory may announce is shown in words, with its number, uncut.\<close>

theorem category_in_words:
  assumes "HomeKitCategory (int n) = Some name"
  shows "DecodeTxtValue ''_hap._tcp.local'' ''ci'' (decimal n) = name @ '' ('' @ decimal n @ '')''"
proof -
  have s: "length name \<le> 30" "c_str name = name" "n < 100"
    using short_names [OF assms] by (auto simp: c_str_def takeWhile_eq_all_conv)
  then have "numbered 64 name (int n) = name @ '' ('' @ decimal n @ '')''"
    using decimal_short [of n] by (simp add: numbered_def snprintf_def show_long_def)
  then show ?thesis using assms s(3) ParseInt_decimal [of n] by (simp add: DecodeTxtValue_def hap_value_def)
qed

section \<open>What the report holds\<close>

lemma report_line_length: "length (report_line s) \<le> 767"
  by (simp add: report_line_def snprintf_def)

text \<open>A line that fills its buffer loses its end, so the next one goes on behind it.\<close>

lemma long_line_runs_on:
  assumes "length s \<ge> 767" "CHR 0x0A \<notin> set s"
  shows "CHR 0x0A \<notin> set (report_line (s @ new_line))"
  using assms set_take_subset [of 767 s] by (auto simp: report_line_def snprintf_def new_line_def)

lemma concat_part: "x \<in> set xs \<Longrightarrow> sublist (f x) (concat (map f xs))"
  by (metis split_list map_append concat_append list.simps(9) concat.simps(2) sublist_appendI)

lemma sublist_last: "sublist x (a @ b @ x)" "sublist x (a @ b @ c @ d @ x)"
  using sublist_append_leftI [of x "a @ b"] sublist_append_leftI [of x "a @ b @ c @ d"] by simp_all

lemma Snapshot_types:
  assumes "radar_ok r" "i \<in> set (rx_instances (Radar_Snapshot r))" "ri_type i \<noteq> []"
  shows "ri_type i \<in> rv_type ` set (rx_services (Radar_Snapshot r))"
proof -
  have "rv_type ` snd ` set (rd_fServices r) = fst ` set (rd_fServices r)"
    using assms(1) by (auto simp: radar_ok_def entries_def service_ok_def list_all_iff image_image intro!: image_cong)
  then show ?thesis
    using assms by (auto simp: Radar_Snapshot_def Let_def radar_ok_def entries_def list_all_iff image_image)
qed

lemma report_holds_instance:
  assumes "i \<in> set (rx_instances snap)" "ri_type i \<in> rv_type ` set (rx_services snap)"
  shows "sublist (report_instance_line i @ concat (map (report_txt i) (ri_txt i))) (BuildRadarReport snap)"
proof -
  obtain svc where svc: "svc \<in> set (rx_services snap)" "rv_type svc = ri_type i" using assms(2) by auto
  let ?f = "\<lambda>inst. if ri_type inst \<noteq> rv_type svc then []
    else report_instance_line inst @ concat (map (report_txt inst) (ri_txt inst))"
  have "sublist (?f i) (concat (map ?f (rx_instances snap)))" by (rule concat_part [OF assms(1)])
  also have "sublist \<dots> (report_service (rx_instances snap) svc)"
    unfolding report_service_def by (rule sublist_last)
  also have "sublist \<dots> (concat (map (report_service (rx_instances snap)) (rx_services snap)))"
    by (rule concat_part [OF svc(1)])
  also have "sublist \<dots> (BuildRadarReport snap)"
    unfolding BuildRadarReport_def by (rule sublist_last)
  finally show ?thesis using svc(2) by simp
qed

text \<open>
  The report leaves nothing out: after any turns of the radar, every instance with a type is
  in the report, its line followed by its TXT records.
\<close>

theorem report_names_every_instance:
  "\<forall>i \<in> set (rx_instances (Radar_Snapshot (fst (Radar_Run (Radar_Start iface now) now us)))). ri_type i = [] \<or>
    sublist (report_instance_line i @ concat (map (report_txt i) (ri_txt i)))
      (BuildRadarReport (Radar_Snapshot (fst (Radar_Run (Radar_Start iface now) now us))))"
proof -
  have "radar_ok (fst (Radar_Run (Radar_Start iface now) now us))"
    using radar_ok_loop [OF radar_ok_Start] by (simp add: Radar_Run_def split: prod.split) (metis fst_conv)
  then show ?thesis using report_holds_instance Snapshot_types by blast
qed

end
