(* ===== verification/Neighborhood.thy ===== *)
theory Neighborhood
  imports Labels
begin

text \<open>
  The neighborhood behind Vicinato: \<open>vicinato/NetworkDirectory.cpp\<close> makes a sorted list of services of a
  radar snapshot, \<open>vicinato/SmbHostFinder.cpp\<close> adds the hosts that answer on the SMB port. The scan's
  sockets are parameters: what is modelled is which hosts are kept of what a scan found.
\<close>

section \<open>Services\<close>

datatype ServiceKind = Kind_Campiello | Kind_Smb | Kind_Sftp | Kind_Computer | Kind_Home | Kind_Web | Kind_Printer
  | Kind_Media | Kind_Other

datatype AuthKind = Auth_None | Auth_Password | Auth_Pairing

datatype BackendKind = Backend_None | Backend_Cnp | Backend_Smb | Backend_Sftp

text \<open>Kinds are ordered as the enumeration lists them.\<close>

fun kind_rank :: "ServiceKind \<Rightarrow> nat" where
  "kind_rank Kind_Campiello = 0"
| "kind_rank Kind_Smb = 1"
| "kind_rank Kind_Sftp = 2"
| "kind_rank Kind_Computer = 3"
| "kind_rank Kind_Home = 4"
| "kind_rank Kind_Web = 5"
| "kind_rank Kind_Printer = 6"
| "kind_rank Kind_Media = 7"
| "kind_rank Kind_Other = 8"

instantiation ServiceKind :: linorder
begin

definition less_eq_ServiceKind :: "ServiceKind \<Rightarrow> ServiceKind \<Rightarrow> bool" where
  "a \<le> b \<longleftrightarrow> kind_rank a \<le> kind_rank b"

definition less_ServiceKind :: "ServiceKind \<Rightarrow> ServiceKind \<Rightarrow> bool" where
  "a < b \<longleftrightarrow> kind_rank a < kind_rank b"

instance
proof
  fix a b :: ServiceKind
  show "a \<le> b \<Longrightarrow> b \<le> a \<Longrightarrow> a = b" by (cases a; cases b) (simp_all add: less_eq_ServiceKind_def)
qed (auto simp: less_eq_ServiceKind_def less_ServiceKind_def)

end

record NetworkService =
  ns_id :: string
  ns_label :: string
  ns_category :: string
  ns_host :: string
  ns_port :: u16
  ns_serviceType :: string
  ns_txt :: "(string \<times> string) list"
  ns_kind :: ServiceKind
  ns_auth :: AuthKind
  ns_backend :: BackendKind
  ns_browsable :: bool
  ns_mac :: string
  ns_vendor :: string

definition NetworkService :: NetworkService where
  "NetworkService = \<lparr>ns_id = [], ns_label = [], ns_category = [], ns_host = [], ns_port = 0, ns_serviceType = [],
     ns_txt = [], ns_kind = Kind_Other, ns_auth = Auth_None, ns_backend = Backend_None, ns_browsable = False,
     ns_mac = [], ns_vendor = []\<rparr>"

definition ClassifyServiceType :: "string \<Rightarrow> NetworkService" where
  "ClassifyServiceType type =
    (let s = NetworkService\<lparr>ns_serviceType := type\<rparr> in
     if type = ''_campiello._tcp.local'' then
       s\<lparr>ns_kind := Kind_Campiello, ns_auth := Auth_Pairing, ns_backend := Backend_Cnp, ns_browsable := True\<rparr>
     else if type = ''_smb._tcp.local'' then
       s\<lparr>ns_kind := Kind_Smb, ns_auth := Auth_Password, ns_backend := Backend_Smb, ns_browsable := True\<rparr>
     else if type = ''_sftp-ssh._tcp.local'' \<or> type = ''_ssh._tcp.local'' then
       s\<lparr>ns_kind := Kind_Sftp, ns_auth := Auth_Password, ns_backend := Backend_Sftp, ns_browsable := True\<rparr>
     else if type \<in> {''_workstation._tcp.local'', ''_device-info._tcp.local'', ''_companion-link._tcp.local''} then
       s\<lparr>ns_kind := Kind_Computer\<rparr>
     else if type \<in> {''_hue._tcp.local'', ''_hap._tcp.local'', ''_matter._tcp.local'', ''_matterc._udp.local'',
         ''_matterd._udp.local'', ''_homekit._tcp.local'', ''_sleap._tcp.local'', ''_dkapi._tcp.local'',
         ''_esphomelib._tcp.local''} then
       s\<lparr>ns_kind := Kind_Home\<rparr>
     else if type \<in> {''_http._tcp.local'', ''_https._tcp.local''} then s\<lparr>ns_kind := Kind_Web\<rparr>
     else if type \<in> {''_ipp._tcp.local'', ''_ipps._tcp.local'', ''_printer._tcp.local'', ''_pdl-datastream._tcp.local'',
         ''_scanner._tcp.local'', ''_uscan._tcp.local''} then
       s\<lparr>ns_kind := Kind_Printer\<rparr>
     else if type \<in> {''_airplay._tcp.local'', ''_raop._tcp.local'', ''_googlecast._tcp.local'',
         ''_spotify-connect._tcp.local'', ''_amzn-wplay._tcp.local'', ''_daap._tcp.local''} then
       s\<lparr>ns_kind := Kind_Media\<rparr>
     else s\<lparr>ns_kind := Kind_Other\<rparr>)"

section \<open>The neighborhood of a snapshot\<close>

text \<open>Reverse lookups are no services.\<close>

definition reverse_lookup :: "RadarInstance \<Rightarrow> bool" where
  "reverse_lookup inst \<longleftrightarrow> EndsWith (ri_type inst) ''.in-addr.arpa'' \<or> EndsWith (ri_type inst) ''.ip6.arpa''
     \<or> EndsWith (ri_name inst) ''.in-addr.arpa'' \<or> EndsWith (ri_name inst) ''.ip6.arpa''"

definition service_of :: "RadarInstance \<Rightarrow> NetworkService" where
  "service_of inst =
    (let host = (if ri_addrs inst = [] then ri_host inst else hd (ri_addrs inst));
         summary = InstanceSummary (ri_type inst) (ri_txt inst);
         si = LookupService (ri_type inst)
     in (ClassifyServiceType (ri_type inst))\<lparr>ns_id := ri_type inst @ ''/'' @ ri_name inst,
          ns_host := host, ns_port := ri_port inst, ns_txt := ri_txt inst, ns_category := snd si,
          ns_label := (if summary \<noteq> [] then summary
            else if host \<noteq> [] then fst si @ '' ('' @ host @ '')''
            else fst si)\<rparr>)"

text \<open>A computer is shown only where nothing else is.\<close>

definition served_hosts :: "NetworkService list \<Rightarrow> string list" where
  "served_hosts out = map ns_host (filter (\<lambda>s. ns_kind s \<noteq> Kind_Computer \<and> ns_host s \<noteq> []) out)"

definition doubled :: "string list \<Rightarrow> NetworkService \<Rightarrow> bool" where
  "doubled served s \<longleftrightarrow> ns_kind s = Kind_Computer \<and> ns_host s \<noteq> [] \<and> ns_host s \<in> set served"

text \<open>Services of the same kind and label may come in any order; here they keep theirs.\<close>

definition BuildNeighborhood :: "RadarSnapshot \<Rightarrow> NetworkService list" where
  "BuildNeighborhood snap =
    (let out = map service_of (filter (\<lambda>i. \<not> reverse_lookup i) (rx_instances snap));
         out = filter (\<lambda>s. \<not> doubled (served_hosts out) s) out
     in sort_key (\<lambda>s. (ns_kind s, ns_label s)) out)"

section \<open>Hosts found by a port scan\<close>

definition SubnetPrefix :: "string \<Rightarrow> string" where
  "SubnetPrefix localIpv4 =
    (if CHR ''.'' \<notin> set localIpv4 then []
     else let head = rev (tl (dropWhile (\<lambda>c. c \<noteq> CHR ''.'') (rev localIpv4)))
       in if head = [] then [] else if count_list head CHR ''.'' \<noteq> 2 then [] else head)"

text \<open>The negotiate request of the check, and what is taken for an SMB server's reply.\<close>

definition kNegProt :: bytes where
  "kNegProt = [0x00, 0x00, 0x00, 0x45] @
     [0xFF] @ bytes_of_string ''SMB'' @ [0x72] @
     [0x00, 0x00, 0x00, 0x00, 0x18, 0x01, 0x28, 0x00, 0x00] @
     [0x00, 0x00, 0x00, 0x00, 0x00, 0x00, 0x00, 0x00] @
     [0x00, 0x00, 0x00, 0x00, 0x2F, 0x4B, 0x00, 0x00, 0x00, 0x00] @
     [0x00] @
     [0x22, 0x00] @
     [0x02] @ bytes_of_string ''NT LM 0.12'' @ [0x00] @
     [0x02] @ bytes_of_string ''SMB 2.002'' @ [0x00] @
     [0x02] @ bytes_of_string ''SMB 2.???'' @ [0x00]"

definition smb_reply :: "bytes \<Rightarrow> bool" where
  "smb_reply buf \<longleftrightarrow> length buf \<ge> 8 \<and> (buf ! 4 = 0xFF \<or> buf ! 4 = 0xFE) \<and> take 3 (drop 5 buf) = bytes_of_string ''SMB''"

definition SmbHostsToServices :: "string list \<Rightarrow> NetworkService list" where
  "SmbHostsToServices hosts = map (\<lambda>host. (ClassifyServiceType ''_smb._tcp.local'')\<lparr>ns_id := ''smbhost/'' @ host,
     ns_host := host, ns_port := 445, ns_category := ''File'', ns_label := ''Condivisione Windows ('' @ host @ '')''\<rparr>) hosts"

fun MergeSmbHosts :: "NetworkService list \<Rightarrow> string list \<Rightarrow> NetworkService list" where
  "MergeSmbHosts base [] = base"
| "MergeSmbHosts base (host # smbHosts) =
    (if list_ex (\<lambda>s. ns_host s = host) base then MergeSmbHosts base smbHosts
     else MergeSmbHosts (base @ SmbHostsToServices [host]) smbHosts)"

text \<open>What \<open>Run\<close> keeps of a round of scans: per own address, what the scan of its subnet found.\<close>

fun keep_found :: "string \<Rightarrow> string list \<Rightarrow> string list \<Rightarrow> string list" where
  "keep_found own [] hosts = hosts"
| "keep_found own (h # found) hosts =
    keep_found own found (if h \<noteq> own \<and> h \<notin> set hosts then hosts @ [h] else hosts)"

fun keep_all :: "(string \<times> string list) list \<Rightarrow> string list \<Rightarrow> string list" where
  "keep_all [] hosts = hosts"
| "keep_all ((own, found) # scans) hosts = keep_all scans (keep_found own found hosts)"

section \<open>What is shown\<close>

lemma classified: "ns_browsable (ClassifyServiceType t) \<longleftrightarrow> ns_backend (ClassifyServiceType t) \<noteq> Backend_None"
  "ns_auth (ClassifyServiceType t) = Auth_None \<longleftrightarrow> ns_backend (ClassifyServiceType t) = Backend_None"
  "ns_serviceType (ClassifyServiceType t) = t"
  by (simp_all add: ClassifyServiceType_def Let_def NetworkService_def)

lemma service_of_simps [simp]:
  "ns_kind (service_of i) = ns_kind (ClassifyServiceType (ri_type i))"
  "ns_host (service_of i) = (if ri_addrs i = [] then ri_host i else hd (ri_addrs i))"
  by (simp_all add: service_of_def Let_def)

text \<open>
  A list shows a snapshot when its entries are services of its instances, no two services stand for a
  computer and its own address, and every instance is an entry or a computer another entry stands for.
\<close>

definition stands_for :: "NetworkService \<Rightarrow> NetworkService \<Rightarrow> bool" where
  "stands_for s c \<longleftrightarrow> ns_kind c = Kind_Computer \<and> ns_kind s \<noteq> Kind_Computer \<and> ns_host s = ns_host c \<and> ns_host c \<noteq> []"

definition shows_snapshot :: "RadarSnapshot \<Rightarrow> NetworkService list \<Rightarrow> bool" where
  "shows_snapshot snap out \<longleftrightarrow>
    (\<forall>s \<in> set out. \<exists>i \<in> set (rx_instances snap). \<not> reverse_lookup i \<and> s = service_of i) \<and>
    (\<forall>s \<in> set out. \<forall>c \<in> set out. \<not> stands_for s c) \<and>
    (\<forall>i \<in> set (rx_instances snap). reverse_lookup i \<or> service_of i \<in> set out \<or>
      (\<exists>s \<in> set out. stands_for s (service_of i))) \<and>
    sorted (map (\<lambda>s. (ns_kind s, ns_label s)) out)"

lemma doubled_iff: "doubled (served_hosts out) c \<longleftrightarrow> (\<exists>s \<in> set out. stands_for s c)"
  by (auto simp: doubled_def served_hosts_def stands_for_def image_iff)

text \<open>
  C31: The neighborhood is complete and shows nothing twice: every instance of a snapshot that is no reverse
  lookup is an entry, or is a computer that another entry of the same address stands for; every entry is
  such an instance; and the entries come by kind and label.
\<close>

theorem neighborhood_complete: "shows_snapshot snap (BuildNeighborhood snap)"
proof -
  define out where "out = map service_of (filter (\<lambda>i. \<not> reverse_lookup i) (rx_instances snap))"
  have mem: "s \<in> set (BuildNeighborhood snap) \<longleftrightarrow> s \<in> set out \<and> \<not> (\<exists>t \<in> set out. stands_for t s)" for s
    by (simp add: BuildNeighborhood_def Let_def doubled_iff flip: out_def)
  have "sorted (map (\<lambda>s. (ns_kind s, ns_label s)) (BuildNeighborhood snap))"
    by (simp add: BuildNeighborhood_def Let_def)
  moreover have "\<forall>s \<in> set out. \<exists>i \<in> set (rx_instances snap). \<not> reverse_lookup i \<and> s = service_of i"
    by (auto simp: out_def)
  moreover have "\<forall>i \<in> set (rx_instances snap). reverse_lookup i \<or> service_of i \<in> set out"
    by (auto simp: out_def)
  moreover have "\<not> stands_for u t" if "stands_for t s" for s t u
    using that by (auto simp: stands_for_def)
  ultimately show ?thesis unfolding shows_snapshot_def using mem by auto
qed

lemma hosts_of_service [simp]: "map ns_host (SmbHostsToServices hs) = hs"
  by (simp add: SmbHostsToServices_def o_def)

lemma Merge_added:
  "\<exists>new. MergeSmbHosts base hosts = base @ SmbHostsToServices new \<and> distinct new \<and>
    set new = set hosts - ns_host ` set base"
proof (induction hosts arbitrary: base)
  case (Cons h hosts)
  show ?case
  proof (cases "h \<in> ns_host ` set base")
    case True
    then have "list_ex (\<lambda>s. ns_host s = h) base" by (auto simp: list_ex_iff)
    then show ?thesis using Cons.IH [of base] True by (simp add: insert_Diff_if)
  next
    case False
    then have no: "\<not> list_ex (\<lambda>s. ns_host s = h) base" by (auto simp: list_ex_iff)
    have one: "ns_host ` set (SmbHostsToServices [h]) = {h}" by (simp flip: set_map)
    obtain new where new: "MergeSmbHosts (base @ SmbHostsToServices [h]) hosts = (base @ SmbHostsToServices [h]) @ SmbHostsToServices new"
      "distinct new" "set new = set hosts - ns_host ` set (base @ SmbHostsToServices [h])"
      using Cons.IH [of "base @ SmbHostsToServices [h]"] by blast
    have "MergeSmbHosts base (h # hosts) = base @ SmbHostsToServices (h # new)"
      using no new(1) by (simp add: SmbHostsToServices_def)
    moreover have "distinct (h # new)" "set (h # new) = set (h # hosts) - ns_host ` set base"
      using new(2,3) one False by (auto simp: image_Un)
    ultimately show ?thesis by blast
  qed
qed (simp add: SmbHostsToServices_def exI [of _ "[]"])

text \<open>Every host of the scan is shown, once, and as a share only where nothing else shows it.\<close>

theorem scan_fills_gaps:
  "set hosts \<subseteq> ns_host ` set (MergeSmbHosts base hosts) \<and>
   take (length base) (MergeSmbHosts base hosts) = base \<and>
   distinct (map ns_host (drop (length base) (MergeSmbHosts base hosts))) \<and>
   ns_host ` set (drop (length base) (MergeSmbHosts base hosts)) = set hosts - ns_host ` set base"
proof -
  obtain new where new: "MergeSmbHosts base hosts = base @ SmbHostsToServices new" "distinct new"
    "set new = set hosts - ns_host ` set base" using Merge_added by blast
  have [simp]: "ns_host ` set (SmbHostsToServices new) = set new" by (metis hosts_of_service set_map)
  show ?thesis using new by (auto simp: image_Un)
qed

lemma keep_found_hosts:
  "set (keep_found own found hosts) = set hosts \<union> (set found - {own})" "distinct hosts \<Longrightarrow> distinct (keep_found own found hosts)"
  by (induction found arbitrary: hosts) (auto)

text \<open>With one address of its own, the machine never lists itself.\<close>

lemma own_address_left_out: "own \<notin> set (keep_all [(own, found)] [])"
  by (simp add: keep_found_hosts)

text \<open>With two on the same subnet it does.\<close>

lemma second_own_address_kept:
  "keep_all [(''10.0.0.5'', [''10.0.0.5'', ''10.0.0.6'']), (''10.0.0.6'', [''10.0.0.5'', ''10.0.0.6''])] [] =
    [''10.0.0.6'', ''10.0.0.5'']"
  by simp

lemma kNegProt_lengths: "length kNegProt = 4 + 0x45" "drop 37 kNegProt \<noteq> []" "length (drop 39 kNegProt) = 0x22"
  by (simp_all add: kNegProt_def)

lemma SubnetPrefix_example: "SubnetPrefix ''192.168.2.100'' = ''192.168.2''" "SubnetPrefix ''10.1'' = []"
  by (simp_all add: SubnetPrefix_def)

end
