(* ===== verification/Handlers.thy ===== *)
theory Handlers
  imports Neighborhood
begin

text \<open>
  The registry of device add-ons, \<open>vicinato/HandlerRegistry.cpp\<close>: manifests are read into handlers, and the
  handlers of a service are those one of whose rules matches it.
\<close>

section \<open>Manifests\<close>

text \<open>An action is its id and label, a TXT rule its key and the prefix of the value.\<close>

record DeviceHandler =
  dh_signature :: string
  dh_name :: string
  dh_matchTypes :: "string list"
  dh_matchKinds :: "ServiceKind list"
  dh_matchTxt :: "(string \<times> string) list"
  dh_actions :: "(string \<times> string) list"

definition DeviceHandler :: DeviceHandler where
  "DeviceHandler = \<lparr>dh_signature = [], dh_name = [], dh_matchTypes = [], dh_matchKinds = [], dh_matchTxt = [], dh_actions = []\<rparr>"

definition blank :: "char \<Rightarrow> bool" where
  "blank c \<longleftrightarrow> c = CHR '' '' \<or> c = CHR 0x09 \<or> c = CHR 0x0D \<or> c = CHR 0x0A"

definition Trim :: "string \<Rightarrow> string" where
  "Trim s = rev (dropWhile blank (rev (dropWhile blank s)))"

definition StartsWith :: "string \<Rightarrow> string \<Rightarrow> bool" where
  "StartsWith s p \<longleftrightarrow> take (length p) s = p"

fun KindName :: "ServiceKind \<Rightarrow> string" where
  "KindName Kind_Campiello = ''campiello''"
| "KindName Kind_Smb = ''smb''"
| "KindName Kind_Sftp = ''sftp''"
| "KindName Kind_Home = ''home''"
| "KindName Kind_Web = ''web''"
| "KindName Kind_Printer = ''printer''"
| "KindName Kind_Media = ''media''"
| "KindName _ = ''other''"

definition KindFromName :: "string \<Rightarrow> ServiceKind option" where
  "KindFromName name = List.find (\<lambda>k. name = KindName k)
    [Kind_Campiello, Kind_Smb, Kind_Sftp, Kind_Home, Kind_Web, Kind_Printer, Kind_Media, Kind_Other]"

definition txt_rule :: "string \<Rightarrow> string \<times> string" where
  "txt_rule value = (if CHR ''='' \<notin> set value then (Trim value, [])
     else (case split_entry value of (k, v) \<Rightarrow> (Trim k, Trim v)))"

text \<open>What a key with a value does.\<close>

definition set_entry :: "string \<Rightarrow> string \<Rightarrow> DeviceHandler \<Rightarrow> DeviceHandler" where
  "set_entry key value out =
    (if key = ''signature'' then out\<lparr>dh_signature := value\<rparr>
     else if key = ''name'' then out\<lparr>dh_name := value\<rparr>
     else if key = ''match.type'' then out\<lparr>dh_matchTypes := dh_matchTypes out @ [value]\<rparr>
     else if key = ''match.kind'' then
       (case KindFromName value of Some k \<Rightarrow> out\<lparr>dh_matchKinds := dh_matchKinds out @ [k]\<rparr> | None \<Rightarrow> out)
     else if key = ''match.txt'' then
       (if fst (txt_rule value) \<noteq> [] then out\<lparr>dh_matchTxt := dh_matchTxt out @ [txt_rule value]\<rparr> else out)
     else if StartsWith key ''action.'' then
       (if drop 7 key \<noteq> [] then out\<lparr>dh_actions := dh_actions out @ [(drop 7 key, value)]\<rparr> else out)
     else out)"

definition manifest_line :: "string \<Rightarrow> DeviceHandler \<Rightarrow> DeviceHandler" where
  "manifest_line line out =
    (let line = takeWhile (\<lambda>c. c \<noteq> CHR ''#'') line in
     if CHR ''='' \<notin> set line then out
     else (case split_entry line of (k, v) \<Rightarrow>
       if Trim k = [] \<or> Trim v = [] then out else set_entry (Trim k) (Trim v) out))"

text \<open>The lines of a text, the one behind the last line break included.\<close>

fun lines_of :: "string \<Rightarrow> string list" where
  "lines_of [] = [[]]"
| "lines_of (c # s) = (if c = CHR 0x0A then [] # lines_of s
     else (case lines_of s of l # ls \<Rightarrow> (c # l) # ls | [] \<Rightarrow> [[c]]))"

text \<open>Whether it is a handler, and what was read.\<close>

definition ParseHandlerManifest :: "string \<Rightarrow> bool \<times> DeviceHandler" where
  "ParseHandlerManifest text' = (let out = fold manifest_line (lines_of text') DeviceHandler in (dh_signature out \<noteq> [], out))"

section \<open>The registry\<close>

type_synonym HandlerRegistry = "DeviceHandler list"

text \<open>The entries of a directory in the order they are read, with the content of those that open.\<close>

definition handler_file :: "string \<Rightarrow> bool" where
  "handler_file name \<longleftrightarrow> length name \<ge> 8 \<and> drop (length name - 8) name = ''.handler''"

fun LoadFromDir :: "(string \<times> string option) list \<Rightarrow> HandlerRegistry \<Rightarrow> HandlerRegistry" where
  "LoadFromDir [] fHandlers = fHandlers"
| "LoadFromDir ((name, content) # ents) fHandlers = LoadFromDir ents
    (case content of
       Some t \<Rightarrow> if handler_file name \<and> fst (ParseHandlerManifest t) then fHandlers @ [snd (ParseHandlerManifest t)] else fHandlers
     | None \<Rightarrow> fHandlers)"

definition strip_local :: "string \<Rightarrow> string" where
  "strip_local s = (if length s > length ''.local'' \<and> drop (length s - length ''.local'') s = ''.local''
     then take (length s - length ''.local'') s else s)"

definition SameServiceType :: "string \<Rightarrow> string \<Rightarrow> bool" where
  "SameServiceType a b \<longleftrightarrow> strip_local a = strip_local b"

text \<open>The prefix of a rule goes through a C string.\<close>

definition matches :: "NetworkService \<Rightarrow> DeviceHandler \<Rightarrow> bool" where
  "matches service h \<longleftrightarrow>
    list_ex (\<lambda>t. SameServiceType t (ns_serviceType service)) (dh_matchTypes h) \<or>
    list_ex (\<lambda>k. k = ns_kind service) (dh_matchKinds h) \<or>
    list_ex (\<lambda>(key, valuePrefix). list_ex (\<lambda>(k, v). k = key \<and> StartsWith v (c_str valuePrefix)) (ns_txt service)) (dh_matchTxt h)"

definition Match :: "HandlerRegistry \<Rightarrow> NetworkService \<Rightarrow> DeviceHandler list" where
  "Match fHandlers service = filter (matches service) fHandlers"

definition DefaultHandler :: "HandlerRegistry \<Rightarrow> NetworkService \<Rightarrow> DeviceHandler option" where
  "DefaultHandler fHandlers service = (case Match fHandlers service of [] \<Rightarrow> None | h # _ \<Rightarrow> Some h)"

section \<open>A manifest is read as it is meant\<close>

text \<open>The manifest of a handler, as the format is documented.\<close>

definition txt_text :: "string \<times> string \<Rightarrow> string" where
  "txt_text r = (if snd r = [] then fst r else fst r @ ''='' @ snd r)"

definition handler_entries :: "DeviceHandler \<Rightarrow> (string \<times> string) list" where
  "handler_entries h = [(''signature'', dh_signature h)] @ (if dh_name h = [] then [] else [(''name'', dh_name h)])
     @ map (\<lambda>t. (''match.type'', t)) (dh_matchTypes h) @ map (\<lambda>k. (''match.kind'', KindName k)) (dh_matchKinds h)
     @ map (\<lambda>r. (''match.txt'', txt_text r)) (dh_matchTxt h) @ map (\<lambda>(i, l). (''action.'' @ i, l)) (dh_actions h)"

definition manifest_of :: "DeviceHandler \<Rightarrow> string" where
  "manifest_of h = concat (map (\<lambda>(k, v). k @ '' = '' @ v @ [CHR 0x0A]) (handler_entries h))"

text \<open>Text that fits a line: not empty, no comment, no blank at its ends.\<close>

definition tidy :: "string \<Rightarrow> bool" where
  "tidy s \<longleftrightarrow> s \<noteq> [] \<and> CHR ''#'' \<notin> set s \<and> CHR 0x0A \<notin> set s \<and> \<not> blank (hd s) \<and> \<not> blank (last s)"

definition tidy_key :: "string \<Rightarrow> bool" where
  "tidy_key s \<longleftrightarrow> tidy s \<and> CHR ''='' \<notin> set s"

definition tidy_handler :: "DeviceHandler \<Rightarrow> bool" where
  "tidy_handler h \<longleftrightarrow> tidy (dh_signature h) \<and> (dh_name h = [] \<or> tidy (dh_name h)) \<and> list_all tidy (dh_matchTypes h) \<and>
    Kind_Computer \<notin> set (dh_matchKinds h) \<and>
    list_all (\<lambda>r. tidy_key (fst r) \<and> (snd r = [] \<or> tidy (snd r))) (dh_matchTxt h) \<and>
    list_all (\<lambda>a. tidy_key (fst a) \<and> tidy (snd a)) (dh_actions h)"

lemma dropWhile_hd: "s \<noteq> [] \<Longrightarrow> \<not> P (hd s) \<Longrightarrow> dropWhile P (s @ t) = s @ t"
  by (cases s) simp_all

lemma blank_space [simp]: "blank CHR '' ''"
  by (simp add: blank_def)

lemma Trim_tidy:
  assumes "tidy s"
  shows "Trim s = s" "Trim (s @ '' '') = s" "Trim (CHR '' '' # s) = s"
proof -
  have s: "s \<noteq> []" "\<not> blank (hd s)" "rev s \<noteq> []" "\<not> blank (hd (rev s))" using assms by (auto simp: tidy_def hd_rev)
  have "dropWhile blank (s @ t) = s @ t" "dropWhile blank (rev s) = rev s" for t
    using dropWhile_hd [of s blank t] dropWhile_hd [of "rev s" blank "[]"] s by simp_all
  from this(1) [of "[]"] this show "Trim s = s" "Trim (s @ '' '') = s" "Trim (CHR '' '' # s) = s"
    by (simp_all add: Trim_def)
qed

lemma manifest_line_entry:
  assumes "tidy_key k" "tidy v"
  shows "manifest_line (k @ '' = '' @ v) out = set_entry k v out"
proof -
  have "takeWhile (\<lambda>c. c \<noteq> CHR ''#'') (k @ '' = '' @ v) = k @ '' = '' @ v"
    using assms by (auto simp: tidy_key_def tidy_def takeWhile_eq_all_conv)
  moreover have "split_entry (k @ '' = '' @ v) = (k @ '' '', CHR '' '' # v)"
    using assms by (simp add: split_entry_def tidy_key_def takeWhile_append dropWhile_append)
  moreover have "Trim (k @ '' '') = k" "Trim (CHR '' '' # v) = v" "k \<noteq> []" "v \<noteq> []"
    using assms by (auto simp: Trim_tidy tidy_key_def) (auto simp: tidy_def)
  ultimately show ?thesis by (simp only: manifest_line_def Let_def prod.case) simp
qed

lemma lines_of_line: "CHR 0x0A \<notin> set l \<Longrightarrow> lines_of (l @ CHR 0x0A # s) = l # lines_of s"
  by (induction l) auto

definition tidy_entries :: "(string \<times> string) list \<Rightarrow> bool" where
  "tidy_entries es \<longleftrightarrow> list_all (\<lambda>e. tidy_key (fst e) \<and> tidy (snd e)) es"

lemma fold_entries:
  "tidy_entries es \<Longrightarrow> fold manifest_line (lines_of (concat (map (\<lambda>(k, v). k @ '' = '' @ v @ [CHR 0x0A]) es))) out =
    fold (\<lambda>(k, v). set_entry k v) es out"
proof (induction es arbitrary: out)
  case Nil
  then show ?case by (simp add: manifest_line_def)
next
  case (Cons e es)
  obtain k v where e: "e = (k, v)" by (cases e)
  have kv: "tidy_key k" "tidy v" "tidy_entries es" using Cons.prems by (simp_all add: tidy_entries_def e)
  have "CHR 0x0A \<notin> set (k @ '' = '' @ v)" using kv by (auto simp: tidy_key_def tidy_def)
  then have "lines_of ((k @ '' = '' @ v) @ CHR 0x0A # s) = (k @ '' = '' @ v) # lines_of s" for s by (rule lines_of_line)
  then show ?case using Cons.IH [OF kv(3)] manifest_line_entry [OF kv(1,2)] by (simp add: e)
qed

lemma KindFromName_KindName: "Kind_Computer \<noteq> k \<Longrightarrow> KindFromName (KindName k) = Some k"
  by (cases k) (simp_all add: KindFromName_def)

lemma txt_rule_text: "tidy_key (fst r) \<Longrightarrow> snd r = [] \<or> tidy (snd r) \<Longrightarrow> txt_rule (txt_text r) = r"
proof -
  assume r: "tidy_key (fst r)" "snd r = [] \<or> tidy (snd r)"
  then have "split_entry (fst r @ CHR ''='' # snd r) = r"
    by (simp add: split_entry_def tidy_key_def takeWhile_append dropWhile_append)
  moreover have "Trim (fst r) = fst r" "Trim (snd r) = snd r" using r by (auto simp: tidy_key_def Trim_tidy Trim_def [of "[]"])
  ultimately show ?thesis using r(1) by (cases r) (simp add: txt_rule_def txt_text_def tidy_key_def)
qed

lemma fold_types: "fold (\<lambda>(k, v). set_entry k v) (map (\<lambda>t. (''match.type'', t)) ts) out = out\<lparr>dh_matchTypes := dh_matchTypes out @ ts\<rparr>"
  by (induction ts arbitrary: out) (simp_all add: set_entry_def)

lemma fold_kinds: "Kind_Computer \<notin> set ks \<Longrightarrow>
    fold (\<lambda>(k, v). set_entry k v) (map (\<lambda>k. (''match.kind'', KindName k)) ks) out = out\<lparr>dh_matchKinds := dh_matchKinds out @ ks\<rparr>"
  by (induction ks arbitrary: out) (simp_all add: set_entry_def KindFromName_KindName)

lemma fold_rules: "list_all (\<lambda>r. tidy_key (fst r) \<and> (snd r = [] \<or> tidy (snd r))) rs \<Longrightarrow>
    fold (\<lambda>(k, v). set_entry k v) (map (\<lambda>r. (''match.txt'', txt_text r)) rs) out = out\<lparr>dh_matchTxt := dh_matchTxt out @ rs\<rparr>"
  by (induction rs arbitrary: out) (auto simp: set_entry_def txt_rule_text tidy_key_def tidy_def)

lemma fold_actions: "list_all (\<lambda>a. tidy_key (fst a) \<and> tidy (snd a)) as \<Longrightarrow>
    fold (\<lambda>(k, v). set_entry k v) (map (\<lambda>(i, l). (''action.'' @ i, l)) as) out = out\<lparr>dh_actions := dh_actions out @ as\<rparr>"
  by (induction "as" arbitrary: out) (auto simp: set_entry_def StartsWith_def tidy_key_def tidy_def)

lemma tidy_action: "tidy_key i \<Longrightarrow> tidy_key (''action.'' @ i)"
  by (auto simp: tidy_key_def tidy_def blank_def)

lemma tidy_names: "tidy_key ''signature''" "tidy_key ''name''" "tidy_key ''match.type''" "tidy_key ''match.kind''"
  "tidy_key ''match.txt''" "tidy (KindName k)"
  by (simp_all add: tidy_key_def tidy_def blank_def) (cases k; simp)

lemma tidy_txt_text: "tidy_key (fst r) \<Longrightarrow> snd r = [] \<or> tidy (snd r) \<Longrightarrow> tidy (txt_text r)"
  by (auto simp: txt_text_def tidy_key_def tidy_def)

lemma tidy_handler_entries: "tidy_handler h \<Longrightarrow> tidy_entries (handler_entries h)"
proof -
  assume "tidy_handler h"
  then have "tidy (dh_signature h)" "dh_name h = [] \<or> tidy (dh_name h)" "\<forall>t \<in> set (dh_matchTypes h). tidy t"
    "\<forall>r \<in> set (dh_matchTxt h). tidy (txt_text r)"
    "\<forall>a \<in> set (dh_actions h). tidy_key (''action.'' @ fst a) \<and> tidy (snd a)"
    using tidy_txt_text tidy_action by (simp_all only: tidy_handler_def list_all_iff) blast+
  then show ?thesis by (auto simp: tidy_entries_def handler_entries_def list_all_iff tidy_names)
qed

text \<open>What a tidy handler's manifest says is what the registry reads.\<close>

theorem manifest_roundtrip:
  assumes "tidy_handler h"
  shows "ParseHandlerManifest (manifest_of h) = (True, h)"
proof -
  have h: "Kind_Computer \<notin> set (dh_matchKinds h)"
    "list_all (\<lambda>r. tidy_key (fst r) \<and> (snd r = [] \<or> tidy (snd r))) (dh_matchTxt h)"
    "list_all (\<lambda>a. tidy_key (fst a) \<and> tidy (snd a)) (dh_actions h)" "dh_signature h \<noteq> []"
    using assms by (auto simp: tidy_handler_def tidy_def)
  have "fold manifest_line (lines_of (manifest_of h)) DeviceHandler = fold (\<lambda>(k, v). set_entry k v) (handler_entries h) DeviceHandler"
    unfolding manifest_of_def by (rule fold_entries [OF tidy_handler_entries [OF assms]])
  also have "\<dots> = h"
    by (simp add: handler_entries_def fold_types fold_kinds [OF h(1)] fold_rules [OF h(2)] fold_actions [OF h(3), simplified])
      (simp add: set_entry_def DeviceHandler_def)
  finally show ?thesis using h(4) by (simp add: ParseHandlerManifest_def)
qed

section \<open>Computers\<close>

text \<open>A manifest cannot ask for computers: their kind has no name of its own.\<close>

lemma KindFromName_other: "KindFromName name \<noteq> Some Kind_Computer" "KindFromName (KindName Kind_Computer) = Some Kind_Other"
  by (auto simp: KindFromName_def)

lemma no_manifest_names_computers: "Kind_Computer \<notin> set (dh_matchKinds (snd (ParseHandlerManifest t)))"
proof -
  have "Kind_Computer \<notin> set (dh_matchKinds (manifest_line l out))" if "Kind_Computer \<notin> set (dh_matchKinds out)" for l out
    using that KindFromName_other(1)
    by (auto simp: manifest_line_def Let_def set_entry_def split: prod.split option.split)
  then have "Kind_Computer \<notin> set (dh_matchKinds (fold manifest_line ls out))" if "Kind_Computer \<notin> set (dh_matchKinds out)" for ls out
    using that by (induction ls arbitrary: out) simp_all
  then show ?thesis by (simp add: ParseHandlerManifest_def Let_def DeviceHandler_def)
qed

text \<open>The types of a manifest match with and without their domain.\<close>

lemma local_ignored: "t \<noteq> [] \<Longrightarrow> SameServiceType t (t @ ''.local'') \<longleftrightarrow> strip_local t = t"
  by (auto simp: SameServiceType_def strip_local_def)

end
