(* ===== verification/ShareFolder.thy ===== *)
theory ShareFolder
  imports Handlers Containers
begin

text \<open>
  The folder of icons the neighborhood keeps on the Desktop, \<open>vicinato/ShareFolder.cpp\<close>: a shortcut for
  every service, by its label, and the removal of shortcuts whose service is gone. The folder is a map
  of names to nodes; a file is its content, its attributes and what the system keeps of it through
  \<open>BNodeInfo\<close>. Whether a file of a name can be opened and which icons the user has put down are
  parameters; writing attributes of an open file is taken to succeed.
\<close>

section \<open>Nodes\<close>

datatype attr_value = Attr_Text string | Attr_Int int

datatype icon = UserIcon string | DrawnIcon ServiceKind

record file_node =
  fi_content :: string
  fi_attrs :: "string \<rightharpoonup> attr_value"
  fi_type :: "string option"
  fi_app :: "string option"
  fi_icon :: "icon option"

definition new_file :: file_node where
  "new_file = \<lparr>fi_content = [], fi_attrs = Map.empty, fi_type = None, fi_app = None, fi_icon = None\<rparr>"

text \<open>A directory is empty or not.\<close>

datatype node = FileNode file_node | DirNode bool "string \<rightharpoonup> attr_value"

type_synonym folder = "(string, node) std_map"

definition WriteAttrString :: "string \<Rightarrow> string \<Rightarrow> file_node \<Rightarrow> file_node" where
  "WriteAttrString attr s f = f\<lparr>fi_attrs := (fi_attrs f)(attr \<mapsto> Attr_Text (c_str s))\<rparr>"

definition WriteAttrInt :: "string \<Rightarrow> int \<Rightarrow> file_node \<Rightarrow> file_node" where
  "WriteAttrInt attr i f = f\<lparr>fi_attrs := (fi_attrs f)(attr \<mapsto> Attr_Int i)\<rparr>"

text \<open>
  A \<open>BFile\<close> opened to write, created when it is missing and emptied when it is there, with what is then
  done to it. A directory does not open.
\<close>

definition opened :: "(string \<Rightarrow> bool) \<Rightarrow> string \<Rightarrow> (file_node \<Rightarrow> file_node) \<Rightarrow> node option \<Rightarrow> node option" where
  "opened opens name f old = (case old of
     Some (DirNode b a) \<Rightarrow> old
   | Some (FileNode x) \<Rightarrow> if opens name then Some (FileNode (f (x\<lparr>fi_content := []\<rparr>))) else old
   | None \<Rightarrow> if opens name then Some (FileNode (f new_file)) else None)"

definition at_name :: "string \<Rightarrow> (node option \<Rightarrow> node option) \<Rightarrow> folder \<Rightarrow> folder" where
  "at_name name g dir = (case g (map_of dir name) of None \<Rightarrow> AList.delete name dir | Some n \<Rightarrow> map_put name n dir)"

section \<open>Icons\<close>

fun KindIconName :: "ServiceKind \<Rightarrow> string" where
  "KindIconName Kind_Campiello = ''campiello''"
| "KindIconName Kind_Smb = ''smb''"
| "KindIconName Kind_Sftp = ''sftp''"
| "KindIconName Kind_Home = ''home''"
| "KindIconName Kind_Web = ''web''"
| "KindIconName Kind_Printer = ''printer''"
| "KindIconName Kind_Media = ''media''"
| "KindIconName _ = ''other''"

text \<open>\<open>icons\<close> is the content of the icon files in the settings that can be read.\<close>

definition SetUserIcon :: "(string \<Rightarrow> string option) \<Rightarrow> ServiceKind \<Rightarrow> file_node \<Rightarrow> file_node option" where
  "SetUserIcon icons kind f = (case icons (KindIconName kind @ ''.hvif'') of None \<Rightarrow> None
    | Some bytes \<Rightarrow> if bytes = [] \<or> length bytes > 256 * 1024 then None else Some (f\<lparr>fi_icon := Some (UserIcon bytes)\<rparr>))"

definition SetFileIcon :: "(string \<Rightarrow> string option) \<Rightarrow> ServiceKind \<Rightarrow> file_node \<Rightarrow> file_node" where
  "SetFileIcon icons kind f = (case SetUserIcon icons kind f of Some f \<Rightarrow> f | None \<Rightarrow> f\<lparr>fi_icon := Some (DrawnIcon kind)\<rparr>)"

section \<open>Shortcuts\<close>

definition SanitizeFileName :: "string \<Rightarrow> string" where
  "SanitizeFileName s = (let out = map (\<lambda>c. if c = CHR ''/'' \<or> c = CHR 0x00 then CHR ''-'' else c) s
     in if out = [] then ''condivisione'' else out)"

definition kAttrWon :: string where "kAttrWon = ''CAMPIELLO:won''"

definition MarkOurs :: "file_node \<Rightarrow> file_node" where
  "MarkOurs f = WriteAttrInt kAttrWon 1 f"

definition WriteSmbShare :: "(string \<Rightarrow> string option) \<Rightarrow> NetworkService \<Rightarrow> file_node \<Rightarrow> file_node" where
  "WriteSmbShare icons svc f =
    (let f = f\<lparr>fi_content := ''Condivisione Windows.'' @ new_line @ ''Doppio clic per connetterti.'' @ new_line
           @ ''Server: '' @ c_str (ns_host svc) @ new_line\<rparr>;
         f = WriteAttrString ''CAMPIELLO:name'' (ns_label svc) (WriteAttrString ''CAMPIELLO:server'' (ns_host svc) f)
     in SetFileIcon icons Kind_Smb (MarkOurs (f\<lparr>fi_type := Some ''application/x-vnd.Campiello-smb-share''\<rparr>)))"

definition WriteBookmark :: "(string \<Rightarrow> string option) \<Rightarrow> NetworkService \<Rightarrow> file_node \<Rightarrow> file_node" where
  "WriteBookmark icons svc f =
    (let scheme = (if ns_port svc = 443 then ''https'' else ''http'');
         url = c_str (scheme @ ''://'' @ ns_host svc)
           @ (if ns_port svc \<noteq> 0 \<and> ns_port svc \<noteq> 80 \<and> ns_port svc \<noteq> 443 then '':'' @ decimal (unat (ns_port svc)) else []) @ ''/'';
         f = WriteAttrString ''META:url'' url f
     in SetFileIcon icons (ns_kind svc) (MarkOurs (f\<lparr>fi_type := Some ''application/x-vnd.Be-bookmark''\<rparr>)))"

definition WriteInfo :: "(string \<Rightarrow> string option) \<Rightarrow> NetworkService \<Rightarrow> file_node \<Rightarrow> file_node" where
  "WriteInfo icons svc f =
    (let f = f\<lparr>fi_content := ''Dispositivo di rete rilevato da Campiello.'' @ new_line @ new_line
           @ ''Nome: '' @ c_str (ns_label svc) @ new_line
           @ (if ns_category svc \<noteq> [] then ''Tipo: '' @ c_str (ns_category svc) @ new_line else [])
           @ ''Indirizzo: '' @ c_str (ns_host svc)
           @ (if ns_port svc \<noteq> 0 then '':'' @ decimal (unat (ns_port svc)) else []) @ new_line\<rparr>
     in SetFileIcon icons (ns_kind svc) (MarkOurs (f\<lparr>fi_type := Some ''text/plain''\<rparr>)))"

definition txt_attr :: "string \<times> string \<Rightarrow> file_node \<Rightarrow> file_node" where
  "txt_attr kv f = (if fst kv = [] \<or> length (fst kv) > 64 then f
     else WriteAttrString (''CAMPIELLO:txt.'' @ c_str (fst kv)) (snd kv) f)"

definition WriteDeviceShortcut :: "(string \<Rightarrow> string option) \<Rightarrow> NetworkService \<Rightarrow> DeviceHandler \<Rightarrow> file_node \<Rightarrow> file_node" where
  "WriteDeviceShortcut icons svc h f =
    (let f = f\<lparr>fi_content := c_str (dh_name h) @ ''.'' @ new_line @ ''Doppio clic per aprire.'' @ new_line
           @ ''Dispositivo: '' @ c_str (ns_host svc) @ new_line\<rparr>;
         f = WriteAttrString ''CAMPIELLO:type'' (ns_serviceType svc)
           (WriteAttrString ''CAMPIELLO:name'' (ns_label svc) (WriteAttrString ''CAMPIELLO:host'' (ns_host svc) f));
         f = (if ns_port svc \<noteq> 0 then WriteAttrInt ''CAMPIELLO:port'' (int (unat (ns_port svc))) f else f);
         f = fold txt_attr (ns_txt svc) f
     in SetFileIcon icons (ns_kind svc) (MarkOurs (f\<lparr>fi_app := Some (c_str (dh_signature h))\<rparr>)))"

definition WriteServiceFile :: "(string \<Rightarrow> string option) \<Rightarrow> HandlerRegistry \<Rightarrow> NetworkService \<Rightarrow> file_node \<Rightarrow> file_node" where
  "WriteServiceFile icons reg svc =
    (if ns_backend svc = Backend_Smb then WriteSmbShare icons svc
     else case DefaultHandler reg svc of
       Some h \<Rightarrow> WriteDeviceShortcut icons svc h
     | None \<Rightarrow> if ns_kind svc = Kind_Web then WriteBookmark icons svc else WriteInfo icons svc)"

section \<open>Keeping the folder\<close>

text \<open>The entries of the two directories of manifests, when they are found.\<close>

definition LoadHandlers :: "(string \<times> string option) list option \<Rightarrow> (string \<times> string option) list option \<Rightarrow> HandlerRegistry" where
  "LoadHandlers sys usr =
    (let reg = (case sys of Some ents \<Rightarrow> LoadFromDir ents [] | None \<Rightarrow> [])
     in case usr of Some ents \<Rightarrow> LoadFromDir ents reg | None \<Rightarrow> reg)"

fun write_all :: "(string \<Rightarrow> bool) \<Rightarrow> (string \<Rightarrow> string option) \<Rightarrow> HandlerRegistry \<Rightarrow> NetworkService list \<Rightarrow>
    string std_set \<Rightarrow> folder \<Rightarrow> string std_set \<times> folder" where
  "write_all opens icons reg [] desired dir = (desired, dir)"
| "write_all opens icons reg (svc # svcs) desired dir = (let name = SanitizeFileName (ns_label svc) in
     if name \<in> set desired then write_all opens icons reg svcs desired dir
     else write_all opens icons reg svcs (set_put name desired)
       (at_name name (opened opens name (WriteServiceFile icons reg svc)) dir))"

text \<open>Whether the node is marked as ours and can be removed; a directory can when it is empty.\<close>

fun pruned :: "node \<Rightarrow> bool" where
  "pruned (FileNode f) \<longleftrightarrow> fi_attrs f kAttrWon \<noteq> None"
| "pruned (DirNode bare a) \<longleftrightarrow> a kAttrWon \<noteq> None \<and> bare"

fun prune :: "string std_set \<Rightarrow> string list \<Rightarrow> folder \<Rightarrow> folder" where
  "prune desired [] dir = dir"
| "prune desired (name # names) dir = prune desired names
     (if name \<in> set desired then dir
      else case map_of dir name of
        Some n \<Rightarrow> if pruned n then AList.delete name dir else dir
      | None \<Rightarrow> dir)"

text \<open>\<open>readable\<close>: whether the directory can be read.\<close>

definition SyncShareFolder :: "(string \<Rightarrow> bool) \<Rightarrow> (string \<Rightarrow> string option) \<Rightarrow> HandlerRegistry \<Rightarrow> bool \<Rightarrow> string \<Rightarrow>
    NetworkService list \<Rightarrow> folder \<Rightarrow> folder" where
  "SyncShareFolder opens icons reg readable folderPath services dir =
    (if folderPath = [] then dir
     else case write_all opens icons reg services [] dir of (desired, dir) \<Rightarrow>
       if readable then prune desired (map fst dir) dir else dir)"

section \<open>The folder mirrors the services\<close>

definition file_name :: "NetworkService \<Rightarrow> string" where
  "file_name svc = SanitizeFileName (ns_label svc)"

text \<open>What becomes of the node of a name: the shortcut of the first service of that name.\<close>

definition mirrored :: "(string \<Rightarrow> bool) \<Rightarrow> (string \<Rightarrow> string option) \<Rightarrow> HandlerRegistry \<Rightarrow> NetworkService list \<Rightarrow>
    string \<Rightarrow> node option \<Rightarrow> node option" where
  "mirrored opens icons reg services name old = (case find (\<lambda>svc. file_name svc = name) services of
     Some svc \<Rightarrow> opened opens name (WriteServiceFile icons reg svc) old
   | None \<Rightarrow> (case old of Some n \<Rightarrow> if pruned n then None else old | None \<Rightarrow> None))"

lemma map_of_at_name [simp]: "map_of (at_name name g dir) = (map_of dir)(name := g (map_of dir name))"
  by (auto simp: at_name_def delete_conv split: option.splits)

lemma map_ok_at_name [simp]: "map_ok dir \<Longrightarrow> map_ok (at_name name g dir)"
  by (auto simp: at_name_def split: option.splits)

lemma write_all_result:
  "write_all opens icons reg services desired dir = (desired', dir') \<Longrightarrow>
    set desired' = set desired \<union> set (map file_name services) \<and>
    map_of dir' name = (if name \<in> set desired then map_of dir name
      else case find (\<lambda>svc. file_name svc = name) services of
        Some svc \<Rightarrow> opened opens name (WriteServiceFile icons reg svc) (map_of dir name)
      | None \<Rightarrow> map_of dir name)"
proof (induction services arbitrary: desired dir)
  case (Cons svc services)
  show ?case
  proof (cases "file_name svc \<in> set desired")
    case True
    then show ?thesis using Cons.IH [of desired dir] Cons.prems by (auto simp: Let_def file_name_def [symmetric])
  next
    case False
    define dir1 where "dir1 = at_name (file_name svc) (opened opens (file_name svc) (WriteServiceFile icons reg svc)) dir"
    have "write_all opens icons reg services (set_put (file_name svc) desired) dir1 = (desired', dir')"
      using Cons.prems False by (simp add: Let_def file_name_def [symmetric] dir1_def)
    from Cons.IH [OF this] show ?thesis using False by (auto simp: dir1_def split: option.split)
  qed
qed simp

lemma prune_result:
  "map_of (prune desired names dir) name =
    (if name \<in> set names \<and> name \<notin> set desired
     then (case map_of dir name of Some n \<Rightarrow> if pruned n then None else Some n | None \<Rightarrow> None) else map_of dir name)"
  by (induction names arbitrary: dir) (auto simp: delete_conv split: option.splits)

lemma find_none: "find P xs = None \<longleftrightarrow> (\<forall>x \<in> set xs. \<not> P x)"
  by (induction xs) auto

text \<open>What the writers leave of a file, field by field.\<close>

definition icon_for :: "(string \<Rightarrow> string option) \<Rightarrow> ServiceKind \<Rightarrow> icon" where
  "icon_for icons kind = (case icons (KindIconName kind @ ''.hvif'') of None \<Rightarrow> DrawnIcon kind
    | Some bytes \<Rightarrow> if bytes = [] \<or> length bytes > 256 * 1024 then DrawnIcon kind else UserIcon bytes)"

lemma SetFileIcon_eq: "SetFileIcon icons kind f = f\<lparr>fi_icon := Some (icon_for icons kind)\<rparr>"
  by (simp add: SetFileIcon_def SetUserIcon_def icon_for_def split: option.split)

text \<open>The attributes for the TXT pairs.\<close>

definition txt_attrs :: "(string \<times> string) list \<Rightarrow> (string \<rightharpoonup> attr_value)" where
  "txt_attrs kvs = fi_attrs (fold txt_attr kvs new_file)"

lemma fold_txt_attr: "fold txt_attr kvs f = f\<lparr>fi_attrs := fi_attrs f ++ txt_attrs kvs\<rparr>"
proof -
  have "fold txt_attr kvs (f\<lparr>fi_attrs := a ++ b\<rparr>) = f\<lparr>fi_attrs := a ++ fi_attrs (fold txt_attr kvs (new_file\<lparr>fi_attrs := b\<rparr>))\<rparr>" for a b
  proof (induction kvs arbitrary: b)
    case (Cons kv kvs)
    show ?case
    proof (cases "fst kv = [] \<or> length (fst kv) > 64")
      case True
      then have "txt_attr kv = (\<lambda>g. g)" by (simp add: txt_attr_def fun_eq_iff)
      then show ?thesis using Cons.IH by simp
    next
      case False
      define k where "k = ''CAMPIELLO:txt.'' @ c_str (fst kv)"
      have step: "txt_attr kv g = g\<lparr>fi_attrs := (fi_attrs g)(k \<mapsto> Attr_Text (c_str (snd kv)))\<rparr>" for g
        using False by (simp add: txt_attr_def WriteAttrString_def k_def)
      let ?b = "b(k \<mapsto> Attr_Text (c_str (snd kv)))"
      have "fold txt_attr (kv # kvs) (f\<lparr>fi_attrs := a ++ b\<rparr>) = fold txt_attr kvs (f\<lparr>fi_attrs := a ++ ?b\<rparr>)" by (simp add: step)
      moreover have "fold txt_attr (kv # kvs) (new_file\<lparr>fi_attrs := b\<rparr>) = fold txt_attr kvs (new_file\<lparr>fi_attrs := ?b\<rparr>)" by (simp add: step)
      ultimately show ?thesis unfolding Cons.IH [of ?b] by (simp only:)
    qed
  qed simp
  from this [of "fi_attrs f" Map.empty] show ?thesis by (simp add: txt_attrs_def new_file_def)
qed

lemmas writer_defs = MarkOurs_def WriteAttrInt_def WriteAttrString_def SetFileIcon_eq fold_txt_attr

lemma WriteServiceFile_marks: "fi_attrs (WriteServiceFile icons reg svc f) kAttrWon = Some (Attr_Int 1)"
  by (simp add: WriteServiceFile_def WriteSmbShare_def WriteBookmark_def WriteInfo_def WriteDeviceShortcut_def Let_def writer_defs
      split: option.split)

text \<open>A writer does not look at what it overwrites.\<close>

lemma written_again:
  "WriteSmbShare icons svc ((WriteSmbShare icons svc f)\<lparr>fi_content := []\<rparr>) = WriteSmbShare icons svc (f\<lparr>fi_content := []\<rparr>)"
  "WriteBookmark icons svc ((WriteBookmark icons svc f)\<lparr>fi_content := []\<rparr>) = WriteBookmark icons svc (f\<lparr>fi_content := []\<rparr>)"
  "WriteInfo icons svc ((WriteInfo icons svc f)\<lparr>fi_content := []\<rparr>) = WriteInfo icons svc (f\<lparr>fi_content := []\<rparr>)"
  "WriteDeviceShortcut icons svc h ((WriteDeviceShortcut icons svc h f)\<lparr>fi_content := []\<rparr>) = WriteDeviceShortcut icons svc h (f\<lparr>fi_content := []\<rparr>)"
  subgoal by (simp add: WriteSmbShare_def Let_def writer_defs fun_eq_iff)
  subgoal by (simp add: WriteBookmark_def Let_def writer_defs)
  subgoal by (simp add: WriteInfo_def Let_def writer_defs)
  subgoal by (cases "ns_port svc = 0") (simp_all add: WriteDeviceShortcut_def Let_def writer_defs fun_eq_iff map_add_def split: option.split)
  done

lemma WriteServiceFile_again:
  "WriteServiceFile icons reg svc ((WriteServiceFile icons reg svc f)\<lparr>fi_content := []\<rparr>) = WriteServiceFile icons reg svc (f\<lparr>fi_content := []\<rparr>)"
  by (simp add: WriteServiceFile_def written_again split: option.split)

lemma mirrored_again:
  "mirrored opens icons reg services name (mirrored opens icons reg services name old) = mirrored opens icons reg services name old"
proof (cases "find (\<lambda>svc. file_name svc = name) services")
  case None
  then show ?thesis by (auto simp: mirrored_def split: option.splits)
next
  case (Some svc)
  have w: "WriteServiceFile icons reg svc ((WriteServiceFile icons reg svc new_file)\<lparr>fi_content := []\<rparr>) = WriteServiceFile icons reg svc new_file"
    using WriteServiceFile_again [of icons reg svc new_file] by (simp add: new_file_def)
  have "new_file\<lparr>fi_content := []\<rparr> = new_file" by (simp add: new_file_def)
  then show ?thesis using Some by (auto simp: mirrored_def opened_def WriteServiceFile_again w split: option.splits node.splits)
qed

lemma SyncShareFolder_mirrors:
  "map_of (SyncShareFolder opens icons reg True (c # path) services dir) name =
    mirrored opens icons reg services name (map_of dir name)"
proof -
  obtain desired dir' where w: "write_all opens icons reg services [] dir = (desired, dir')" by (metis prod.exhaust)
  note r = write_all_result [OF w, of name]
  have "name \<in> set (map fst dir') \<longleftrightarrow> map_of dir' name \<noteq> None" by (simp add: map_of_eq_None_iff)
  then have p: "map_of (prune desired (map fst dir') dir') name = (if name \<in> set desired then map_of dir' name
      else case map_of dir' name of Some n \<Rightarrow> if pruned n then None else Some n | None \<Rightarrow> None)"
    by (auto simp: prune_result)
  have d: "name \<in> set desired \<longleftrightarrow> find (\<lambda>svc. file_name svc = name) services \<noteq> None" using r by (auto simp: find_none)
  have "map_of (SyncShareFolder opens icons reg True (c # path) services dir) name = map_of (prune desired (map fst dir') dir') name"
    by (simp add: SyncShareFolder_def w)
  also have "... = mirrored opens icons reg services name (map_of dir name)"
    unfolding p using r d by (cases "find (\<lambda>svc. file_name svc = name) services") (simp_all add: mirrored_def split: option.split)
  finally show ?thesis .
qed


section \<open>Whose files they are\<close>

text \<open>A file of the user that bears the name of a service is emptied, and removed when the service is gone.\<close>

lemma users_file_lost:
  assumes "opens (file_name svc)"
  shows "map_of (SyncShareFolder opens icons reg True (c # path) [] (SyncShareFolder opens icons reg True (c # path) [svc] dir)) (file_name svc) =
    (case map_of dir (file_name svc) of Some (DirNode bare a) \<Rightarrow> if pruned (DirNode bare a) then None else Some (DirNode bare a) | _ \<Rightarrow> None)"
  using assms WriteServiceFile_marks
  by (auto simp: SyncShareFolder_mirrors mirrored_def opened_def split: option.splits node.splits)

text \<open>A shortcut keeps the application of a handler that no longer is there.\<close>

lemma application_of:
  "fi_app (WriteDeviceShortcut icons svc h f) = Some (c_str (dh_signature h))"
  "fi_app (WriteBookmark icons svc f) = fi_app f" "fi_app (WriteInfo icons svc f) = fi_app f"
  by (simp_all add: WriteDeviceShortcut_def WriteBookmark_def WriteInfo_def MarkOurs_def WriteAttrInt_def WriteAttrString_def
      SetFileIcon_eq Let_def fold_txt_attr)

lemma application_stays:
  assumes "opens (file_name svc)" "ns_backend svc \<noteq> Backend_Smb" "DefaultHandler reg svc = Some h"
    and "map_of dir (file_name svc) = None"
  shows "\<exists>f. map_of (SyncShareFolder opens icons [] True (c # path) [svc] (SyncShareFolder opens icons reg True (c # path) [svc] dir)) (file_name svc) =
    Some (FileNode f) \<and> fi_app f = Some (c_str (dh_signature h))"
proof -
  have "fi_app (WriteServiceFile icons reg svc f) = Some (c_str (dh_signature h))" for f
    using assms(2,3) by (simp add: WriteServiceFile_def application_of)
  moreover have "fi_app (WriteServiceFile icons [] svc f) = fi_app f" for f
    using assms(2) by (simp add: WriteServiceFile_def application_of DefaultHandler_def Match_def)
  ultimately show ?thesis using assms(1,4) by (simp add: SyncShareFolder_mirrors mirrored_def opened_def)
qed

end
