(* ===== verification/NetIntel.thy ===== *)
theory NetIntel
  imports Labels
begin

text \<open>
  What is learnt of the hosts on the network, \<open>vicinato/NetIntel.cpp\<close>: the ARP cache, the vendor of an
  address, Wake-on-LAN packets, NetBIOS names and SSDP answers. What a command prints, a file holds or a
  socket receives is the argument of the parsing code; \<open>fgets\<close> and \<open>sscanf\<close> cut as they do in C.
\<close>

section \<open>Text\<close>

definition TrimSpaces :: "string \<Rightarrow> string" where
  "TrimSpaces s = rev (dropWhile is_space (rev (dropWhile is_space s)))"

text \<open>A line of \<open>fgets\<close> with a buffer of \<open>n\<close> bytes, and what is left.\<close>

definition fgets :: "nat \<Rightarrow> string \<Rightarrow> string \<times> string" where
  "fgets n s = (let m = take (n - 1) s;
     k = (if CHR 0x0A \<in> set m then Suc (length (takeWhile (\<lambda>c. c \<noteq> CHR 0x0A) m)) else n - 1)
   in (take k s, drop k s))"

function fgets_all :: "nat \<Rightarrow> string \<Rightarrow> string list" where
  "fgets_all n s = (if s = [] \<or> n < 2 then [] else (case fgets n s of (l, r) \<Rightarrow> l # fgets_all n r))"
  by pat_completeness auto
termination
  by (relation "measure (length \<circ> snd)") (auto simp: fgets_def Let_def split: if_splits)

declare fgets_all.simps [simp del]

text \<open>\<open>%63s\<close> and the like.\<close>

definition scan_word :: "nat \<Rightarrow> string \<Rightarrow> (string \<times> string) option" where
  "scan_word w s = (let s = dropWhile is_space s; t = take w (takeWhile (\<lambda>c. \<not> is_space c) s)
     in if s = [] then None else Some (t, drop (length t) s))"

section \<open>The ARP cache\<close>

text \<open>A row of \<open>arp -a\<close> on Haiku.\<close>

definition arp_row :: "string \<Rightarrow> (string \<times> string) option" where
  "arp_row line = (case scan_word 63 (c_str line) of None \<Rightarrow> None
    | Some (ip, r) \<Rightarrow> (case scan_word 63 r of None \<Rightarrow> None
      | Some (mac, _) \<Rightarrow>
          if mac = ''00:00:00:00:00:00'' then None
          else if ip = ''0.0.0.0'' then None
          else if CHR '':'' \<notin> set mac then None
          else Some (ip, Lower mac)))"

definition ReadArpCache :: "string option \<Rightarrow> (string, string) std_map" where
  "ReadArpCache printed = (case printed of None \<Rightarrow> []
    | Some t \<Rightarrow> fold (\<lambda>line m. case arp_row line of Some (ip, mac) \<Rightarrow> map_put ip mac m | None \<Rightarrow> m) (fgets_all 256 t) [])"

section \<open>Vendors\<close>

definition to_upper :: "char \<Rightarrow> char" where
  "to_upper c = (if 97 \<le> (of_char c :: nat) \<and> (of_char c :: nat) \<le> 122 then char_of (of_char c - 32 :: nat) else c)"

definition OuiKey :: "string \<Rightarrow> string" where
  "OuiKey mac = (let hex = take 6 (map to_upper (filter (\<lambda>c. hex_value c \<noteq> None) mac))
     in if length hex = 6 then hex else [])"

definition oui_line :: "string \<Rightarrow> (string, string) std_map \<Rightarrow> (string, string) std_map" where
  "oui_line buf fByPrefix = (case split_marker ''(hex)'' (c_str buf) of None \<Rightarrow> fByPrefix
    | Some (prefixPart, rest) \<Rightarrow>
        if TrimSpaces rest = [] then fByPrefix
        else if OuiKey prefixPart = [] then fByPrefix
        else map_put (OuiKey prefixPart) (TrimSpaces rest) fByPrefix)"

definition LoadFromFile :: "string option \<Rightarrow> (string, string) std_map" where
  "LoadFromFile content = (case content of None \<Rightarrow> [] | Some t \<Rightarrow> fold oui_line (fgets_all 512 t) [])"

definition Oui_Lookup :: "(string, string) std_map \<Rightarrow> string \<Rightarrow> string" where
  "Oui_Lookup fByPrefix mac = (if OuiKey mac = [] then []
     else (case map_of fByPrefix (OuiKey mac) of Some v \<Rightarrow> v | None \<Rightarrow> []))"

section \<open>Wake-on-LAN\<close>

text \<open>The bytes so far, the digits of the next one and its value.\<close>

fun parse_mac :: "string \<Rightarrow> bytes \<Rightarrow> nat \<Rightarrow> u8 \<Rightarrow> bytes option" where
  "parse_mac [] out nibble cur = (if length out = 6 \<and> nibble = 0 then Some out else None)"
| "parse_mac (c # s) out nibble cur =
    (if c = CHR '':'' \<or> c = CHR ''-'' \<or> c = CHR '' '' then parse_mac s out nibble cur
     else case hex_value c of None \<Rightarrow> None
     | Some v \<Rightarrow> let cur = push_bit 4 cur OR of_nat v in
         if nibble + 1 = 2 then if length out \<ge> 6 then None else parse_mac s (out @ [cur]) 0 0
         else parse_mac s out (nibble + 1) cur)"

definition ParseMacBytes :: "string \<Rightarrow> bytes option" where
  "ParseMacBytes s = parse_mac s [] 0 0"

definition BuildWolPacket :: "string \<Rightarrow> bytes option" where
  "BuildWolPacket mac = map_option (\<lambda>m. replicate 6 0xFF @ concat (replicate 16 m)) (ParseMacBytes mac)"

text \<open>\<open>inet_pton\<close> on a dotted address: four numbers of at most three digits.\<close>

fun fields :: "char \<Rightarrow> string \<Rightarrow> string list" where
  "fields c [] = [[]]"
| "fields c (x # s) = (if x = c then [] # fields c s else case fields c s of w # ws \<Rightarrow> (x # w) # ws | [] \<Rightarrow> [[x]])"

definition inet_pton :: "string \<Rightarrow> nat list option" where
  "inet_pton s = (let ws = fields CHR ''.'' s in
     if length ws = 4 \<and> list_all (\<lambda>w. w \<noteq> [] \<and> length w \<le> 3 \<and> list_all is_digit w \<and> digits_value w \<le> 255) ws
     then Some (map digits_value ws) else None)"

definition DirectedBroadcast :: "string \<Rightarrow> string" where
  "DirectedBroadcast ip = (case inet_pton (c_str ip) of
     Some [a, b, c, d] \<Rightarrow> decimal a @ ''.'' @ decimal b @ ''.'' @ decimal c @ ''.255''
   | _ \<Rightarrow> [])"

text \<open>
  Whether the packet was sent, and the packet with its address. \<open>sends\<close> is whether the socket takes a
  datagram to the address.
\<close>

definition SendWakeOnLan :: "(string \<Rightarrow> bool) \<Rightarrow> string \<Rightarrow> string \<Rightarrow> bool \<times> (bytes \<times> string) list" where
  "SendWakeOnLan sends mac broadcastIp = (case BuildWolPacket mac of
     None \<Rightarrow> (False, [])
   | Some packet \<Rightarrow> if inet_pton (c_str broadcastIp) = None then (False, []) else (sends broadcastIp, [(packet, broadcastIp)]))"

section \<open>NetBIOS\<close>

definition EncodeWildcardName :: bytes where
  "EncodeWildcardName = [0x20] @ concat (map (\<lambda>n :: u8. [(drop_bit 4 n AND 0x0F) + 65, (n AND 0x0F) + 65])
     (byte_of_char CHR ''*'' # replicate 15 0)) @ [0]"

definition BuildNbstatQuery :: bytes where
  "BuildNbstatQuery = [0, 0, 0, 0x10, 0, 1, 0, 0, 0, 0, 0, 0] @ EncodeWildcardName @ [0, 0x21, 0, 1]"

function skip_answer :: "bytes \<Rightarrow> nat \<Rightarrow> nat \<Rightarrow> nat" where
  "skip_answer buf len offset =
    (if offset < len then
       if buf ! offset = 0 then offset + 1
       else if buf ! offset AND 0xC0 = 0xC0 then offset + 2
       else skip_answer buf len (offset + unat (buf ! offset) + 1)
     else offset)"
  by pat_completeness auto
termination
  by (relation "measure (\<lambda>(buf, len, offset). len - offset)") auto

declare skip_answer.simps [simp del]

definition nb_name :: "bytes \<Rightarrow> nat \<Rightarrow> string" where
  "nb_name buf offset = takeWhile (\<lambda>c. c \<noteq> CHR '' '' \<and> c \<noteq> CHR 0x00) (map (\<lambda>k. char_of_byte (buf ! (offset + k))) [0..<15])"

definition nb_type :: "bytes \<Rightarrow> nat \<Rightarrow> u8" where
  "nb_type buf offset = buf ! (offset + 15)"

definition nb_group :: "bytes \<Rightarrow> nat \<Rightarrow> bool" where
  "nb_group buf offset \<longleftrightarrow> (push_bit 8 (ucast (buf ! (offset + 16)) :: u16) OR ucast (buf ! (offset + 17))) AND 0x8000 \<noteq> 0"

text \<open>The first unique name of a workstation or server, and the first group.\<close>

definition nb_take :: "string \<Rightarrow> u8 \<Rightarrow> bool \<Rightarrow> string \<times> string \<Rightarrow> string \<times> string" where
  "nb_take nm type isGroup st = (case st of (name, workgroup) \<Rightarrow>
     if nm = [] then (name, workgroup)
     else (if \<not> isGroup \<and> name = [] \<and> (type = 0x00 \<or> type = 0x20) then nm else name,
           if isGroup \<and> workgroup = [] then nm else workgroup))"

fun nb_names :: "bytes \<Rightarrow> nat \<Rightarrow> nat \<Rightarrow> nat \<Rightarrow> string \<times> string \<Rightarrow> string \<times> string" where
  "nb_names buf len 0 offset st = st"
| "nb_names buf len (Suc n) offset st =
    (if offset + 18 \<le> len then
       nb_names buf len n (offset + 18) (nb_take (nb_name buf offset) (nb_type buf offset) (nb_group buf offset) st)
     else st)"

text \<open>Whether there is a name, with the name and the workgroup.\<close>

definition ParseNbstatResponse :: "bytes \<Rightarrow> nat \<Rightarrow> string \<times> string \<Rightarrow> bool \<times> string \<times> string" where
  "ParseNbstatResponse buf len st =
    (if len < 12 then (False, st)
     else if (push_bit 8 (ucast (buf ! 6) :: u16) OR ucast (buf ! 7)) = 0 then (False, st)
     else let offset = skip_answer buf len 12 in
       if offset + 10 > len then (False, st)
       else if offset + 10 \<ge> len then (False, st)
       else let st = nb_names buf len (unat (buf ! (offset + 10))) (offset + 11) st in (fst st \<noteq> [], st))"

text \<open>What is made of the name a reverse lookup gave.\<close>

definition reverse_name :: "string \<Rightarrow> string \<Rightarrow> string option" where
  "reverse_name ip host =
    (let host = c_str host; hostname = (if host \<noteq> [] \<and> last host = CHR ''.'' then butlast host else host)
     in if hostname = ip then None else if hostname = [] then None else Some hostname)"

section \<open>SSDP\<close>

definition SsdpHeaderValue :: "string \<Rightarrow> string \<Rightarrow> string" where
  "SsdpHeaderValue msg name =
    (case split_marker (Lower name @ '':'') (Lower msg) of None \<Rightarrow> []
     | Some (before, _) \<Rightarrow>
         let v = dropWhile (\<lambda>c. c = CHR '' '' \<or> c = CHR 0x09) (drop (length before + length name + 1) msg) in
         if CHR 0x0D \<in> set v then takeWhile (\<lambda>c. c \<noteq> CHR 0x0D) v
         else takeWhile (\<lambda>c. c \<noteq> CHR 0x0A) v)"

record SsdpDevice =
  sd_server :: string
  sd_deviceType :: string
  sd_location :: string

definition SsdpDevice :: SsdpDevice where
  "SsdpDevice = \<lparr>sd_server = [], sd_deviceType = [], sd_location = []\<rparr>"

definition InferSsdpType :: "SsdpDevice \<Rightarrow> string" where
  "InferSsdpType d =
    (let srv = Lower (sd_server d); st = Lower (sd_deviceType d) in
     if contains srv ''sonos'' then ''Sonos''
     else if contains srv ''dlna'' \<or> contains st ''mediaserver'' then ''Server multimediale DLNA''
     else if contains st ''mediarenderer'' then ''Lettore multimediale DLNA''
     else if contains st ''internetgatewaydevice'' \<or> contains srv ''router'' then ''Router (UPnP IGD)''
     else if contains srv ''samsung'' \<and> contains srv ''tv'' then ''Smart TV Samsung''
     else if contains srv ''webos'' \<or> (contains srv ''lg'' \<and> contains st ''tv'') then ''Smart TV LG''
     else if contains st ''printer'' then ''Stampante UPnP''
     else if contains srv ''synology'' then ''NAS Synology''
     else if contains srv ''qnap'' then ''NAS QNAP''
     else if sd_server d \<noteq> [] then ''UPnP: '' @ sd_server d
     else ''Dispositivo UPnP'')"

text \<open>A datagram that came in before the deadline, cut at the size of the buffer by the socket.\<close>

definition ssdp_answer :: "string \<times> string \<Rightarrow> (string, SsdpDevice) std_map \<Rightarrow> (string, SsdpDevice) std_map" where
  "ssdp_answer packet byIp = (case packet of (ip, msg) \<Rightarrow>
     if msg = [] then byIp
     else if take 12 (c_str msg) \<noteq> ''HTTP/1.1 200'' \<and> take 12 (c_str msg) \<noteq> ''HTTP/1.0 200'' then byIp
     else map_at SsdpDevice ip (\<lambda>dev. dev\<lparr>
         sd_server := (if sd_server dev = [] then SsdpHeaderValue msg ''SERVER'' else sd_server dev),
         sd_deviceType := (if sd_deviceType dev = [] then SsdpHeaderValue msg ''ST'' else sd_deviceType dev),
         sd_location := (if sd_location dev = [] then SsdpHeaderValue msg ''LOCATION'' else sd_location dev)\<rparr>) byIp)"

definition DiscoverSsdp :: "(string \<times> string) list \<Rightarrow> (string, SsdpDevice) std_map" where
  "DiscoverSsdp packets = fold ssdp_answer packets []"

section \<open>Packets to wake a host\<close>

lemma nibbles_join: "push_bit 4 (drop_bit 4 b) OR (b AND 0x0F) = (b :: u8)"
proof -
  have "(0x0F :: u8) = mask 4" by (simp add: mask_eq_exp_minus_1)
  then show ?thesis by (auto intro!: bit_word_eqI simp only: bit_simps) (simp_all add: bit_simps)
qed

definition hex_pair :: "bool \<Rightarrow> u8 \<Rightarrow> string" where
  "hex_pair up b = (let digits = (if up then ''0123456789ABCDEF'' else ''0123456789abcdef'')
     in [digits ! unat (drop_bit 4 b), digits ! unat (b AND 0x0F)])"

definition mac_text :: "bool \<Rightarrow> string \<Rightarrow> bytes \<Rightarrow> string" where
  "mac_text up sep m = concat (map (\<lambda>b. sep @ hex_pair up b) m)"

lemma hex_digit_value: "n < 16 \<Longrightarrow> hex_value (''0123456789ABCDEF'' ! n) = Some n \<and> hex_value (''0123456789abcdef'' ! n) = Some n"
proof -
  have "list_all (\<lambda>n. hex_value (''0123456789ABCDEF'' ! n) = Some n \<and> hex_value (''0123456789abcdef'' ! n) = Some n) [0..<16]"
    by code_simp
  then show "n < 16 \<Longrightarrow> ?thesis" by (simp add: list_all_iff)
qed

lemma hex_value_separator: "hex_value c = Some v \<Longrightarrow> c \<noteq> CHR '':'' \<and> c \<noteq> CHR ''-'' \<and> c \<noteq> CHR '' ''"
  by (auto simp: hex_value_def)

lemma parse_mac_separators: "set sep \<subseteq> {CHR '':'', CHR ''-'', CHR '' ''} \<Longrightarrow> parse_mac (sep @ s) out n cur = parse_mac s out n cur"
  by (induction sep) auto

lemma parse_mac_digit: "hex_value c = Some v \<Longrightarrow> parse_mac (c # s) out nibble cur =
    (let cur = push_bit 4 cur OR of_nat v in
     if nibble + 1 = 2 then if length out \<ge> 6 then None else parse_mac s (out @ [cur]) 0 0
     else parse_mac s out (nibble + 1) cur)"
  using hex_value_separator [of c v] by simp

lemma unat_nibbles: "unat (drop_bit 4 (b :: u8)) < 16" "unat (b AND 0x0F) < 16"
proof -
  have "unat (drop_bit 4 b) = unat b div 2 ^ 4" by (metis unat_drop_bit_eq drop_bit_eq_div)
  moreover have "unat b < 2 ^ 8" using unsigned_less [of b, where 'a = nat] by simp
  ultimately show "unat (drop_bit 4 b) < 16" by simp
  have "b AND 0x0F \<le> 0x0F" by (rule word_and_le1)
  then show "unat (b AND 0x0F) < 16" by (simp add: word_le_nat_alt)
qed

lemma parse_mac_pair: "length out < 6 \<Longrightarrow> parse_mac (hex_pair up b @ s) out 0 0 = parse_mac s (out @ [b]) 0 0"
  using hex_digit_value [OF unat_nibbles(1) [of b]] hex_digit_value [OF unat_nibbles(2) [of b]] nibbles_join [of b]
  by (simp add: hex_pair_def Let_def parse_mac_digit del: parse_mac.simps)

lemma parse_mac_text:
  assumes "set sep \<subseteq> {CHR '':'', CHR ''-'', CHR '' ''}"
  shows "length out + length m = 6 \<Longrightarrow> parse_mac (mac_text up sep m) out 0 0 = Some (out @ m)"
proof (induction m arbitrary: out)
  case (Cons b m)
  then show ?case using parse_mac_pair [of out up b "mac_text up sep m"]
    by (simp add: mac_text_def parse_mac_separators [OF assms])
qed (simp add: mac_text_def)

lemma parse_mac_six: "parse_mac s out n cur = Some m \<Longrightarrow> length m = 6"
  by (induction s out n cur rule: parse_mac.induct) (auto simp: Let_def split: if_splits option.splits)

text \<open>
  A packet is six bytes of ones and the address sixteen times, and every address written in pairs of
  digits is understood.
\<close>

theorem wol_packet_of_printed:
  assumes "length m = 6" "set sep \<subseteq> {CHR '':'', CHR ''-'', CHR '' ''}"
  shows "BuildWolPacket (mac_text up sep m) = Some (replicate 6 0xFF @ concat (replicate 16 m))"
  using parse_mac_text [OF assms(2), of "[]" m up] assms(1) by (simp add: BuildWolPacket_def ParseMacBytes_def)

lemma wol_packet_length: "BuildWolPacket mac = Some p \<Longrightarrow> length p = 102"
  using parse_mac_six by (auto simp: BuildWolPacket_def ParseMacBytes_def length_concat sum_list_replicate)

section \<open>Vendors are found\<close>

lemma split_marker_hex: "CHR ''('' \<notin> set p \<Longrightarrow> split_marker ''(hex)'' (p @ ''(hex)'' @ v) = Some (p, v)"
  by (induction p) auto

text \<open>A line of the list gives its vendor to every address that begins like it, however it is written.\<close>

lemma vendor_of_line:
  assumes "CHR ''('' \<notin> set p" "CHR 0x00 \<notin> set (p @ v)" "OuiKey p \<noteq> []" "TrimSpaces v \<noteq> []" "OuiKey mac = OuiKey p"
  shows "Oui_Lookup (oui_line (p @ ''(hex)'' @ v) m) mac = TrimSpaces v"
proof -
  have "c_str (p @ ''(hex)'' @ v) = p @ ''(hex)'' @ v" using assms(2) by (auto simp: c_str_def takeWhile_eq_all_conv)
  then show ?thesis using assms split_marker_hex [OF assms(1), of v] by (simp add: oui_line_def Oui_Lookup_def)
qed

lemma OuiKey_forms: "OuiKey ''aa:bb:0c:01:02:03'' = OuiKey ''AA-BB-0C   ''"
  by code_simp

section \<open>NetBIOS answers\<close>

lemma skip_answer_agree:
  "take len buf = take len buf' \<Longrightarrow> skip_answer buf len offset = skip_answer buf' len offset"
proof (induction buf len offset rule: skip_answer.induct)
  case (1 buf len offset)
  have "offset < len \<Longrightarrow> buf ! offset = buf' ! offset" using 1(2) by (rule nth_agree)
  then show ?case using 1 by (simp add: skip_answer.simps [of buf] skip_answer.simps [of buf'])
qed

lemma nb_names_agree:
  assumes "take len buf = take len buf'"
  shows "nb_names buf len n offset st = nb_names buf' len n offset st"
proof (induction n arbitrary: offset st)
  case (Suc n)
  have at: "buf ! i = buf' ! i" if "i < offset + 18" "offset + 18 \<le> len" for i
    using that by (intro nth_agree [OF assms]) simp
  have "nb_name buf offset = nb_name buf' offset" if "offset + 18 \<le> len"
    unfolding nb_name_def using at that by (intro arg_cong [where f = "takeWhile _"] map_cong) auto
  then show ?case using at Suc.IH by (simp add: nb_type_def nb_group_def)
qed simp

text \<open>Whatever a host answers, only the received bytes are read.\<close>

theorem nbstat_reads_in_packet:
  assumes "take len buf = take len buf'"
  shows "ParseNbstatResponse buf len st = ParseNbstatResponse buf' len st"
proof -
  have "buf ! i = buf' ! i" if "i < len" for i using that by (rule nth_agree [OF assms])
  then show ?thesis
    by (simp add: ParseNbstatResponse_def skip_answer_agree [OF assms] nb_names_agree [OF assms] Let_def)
qed

text \<open>A node status answer, as the protocol lays it out: name, type and whether it is a group.\<close>

type_synonym nb_entry = "string \<times> u8 \<times> bool"

definition nb_entry :: "nb_entry \<Rightarrow> bytes" where
  "nb_entry e = (case e of (nm, type, isGroup) \<Rightarrow>
     bytes_of_string nm @ replicate (15 - length nm) 0x20 @ [type, if isGroup then 0x80 else 0, 0])"

definition nb_entry_ok :: "nb_entry \<Rightarrow> bool" where
  "nb_entry_ok e \<longleftrightarrow> fst e \<noteq> [] \<and> length (fst e) \<le> 15 \<and> CHR '' '' \<notin> set (fst e) \<and> CHR 0x00 \<notin> set (fst e)"

definition nbstat_reply :: "nb_entry list \<Rightarrow> bytes" where
  "nbstat_reply es = [0, 0, 0x84, 0, 0, 0, 0, 1, 0, 0, 0, 0] @ EncodeWildcardName @ replicate 10 0 @
     [of_nat (length es)] @ concat (map nb_entry es)"

text \<open>The first of the names with a property.\<close>

definition first_with :: "(nb_entry \<Rightarrow> bool) \<Rightarrow> nb_entry list \<Rightarrow> string" where
  "first_with P es = (case List.find P es of Some e \<Rightarrow> fst e | None \<Rightarrow> [])"

definition host_entry :: "nb_entry \<Rightarrow> bool" where
  "host_entry e \<longleftrightarrow> \<not> snd (snd e) \<and> (fst (snd e) = 0x00 \<or> fst (snd e) = 0x20)"

definition group_entry :: "nb_entry \<Rightarrow> bool" where
  "group_entry e \<longleftrightarrow> snd (snd e)"

lemma length_nb_entry: "nb_entry_ok e \<Longrightarrow> length (nb_entry e) = 18"
  by (cases e) (auto simp: nb_entry_def nb_entry_ok_def)

lemma nb_entry_read:
  assumes "nb_entry_ok e" "length pre = offset"
  shows "nb_name (pre @ nb_entry e @ post) offset = fst e"
    "nb_type (pre @ nb_entry e @ post) offset = fst (snd e)"
    "nb_group (pre @ nb_entry e @ post) offset = snd (snd e)"
proof -
  obtain nm type g where e: "e = (nm, type, g)" by (metis prod.exhaust)
  have nm: "nm \<noteq> []" "length nm \<le> 15" "\<forall>c \<in> set nm. c \<noteq> CHR '' '' \<and> c \<noteq> CHR 0x00" using assms(1) by (auto simp: nb_entry_ok_def e)
  define pad where "pad = bytes_of_string nm @ replicate (15 - length nm) (0x20 :: u8)"
  have pad: "length pad = 15" using nm(2) by (simp add: pad_def)
  have buf: "pre @ nb_entry e @ post = (pre @ pad) @ [type, if g then 0x80 else 0, 0] @ post"
    by (simp add: nb_entry_def e pad_def)
  have "map (\<lambda>k. char_of_byte ((pre @ nb_entry e @ post) ! (offset + k))) [0..<15] = map char_of_byte pad"
    unfolding buf by (rule nth_equalityI) (simp_all add: nth_append pad assms(2))
  moreover have "char_of_byte 0x20 = CHR '' ''" by code_simp
  ultimately have "map (\<lambda>k. char_of_byte ((pre @ nb_entry e @ post) ! (offset + k))) [0..<15] =
      nm @ replicate (15 - length nm) CHR '' ''"
    using string_of_bytes_of_string [of nm] by (simp add: pad_def string_of_bytes_def)
  then show "nb_name (pre @ nb_entry e @ post) offset = fst e"
    using nm(3) by (cases "15 - length nm") (simp_all add: nb_name_def e takeWhile_append takeWhile_eq_all_conv)
  show "nb_type (pre @ nb_entry e @ post) offset = fst (snd e)"
    "nb_group (pre @ nb_entry e @ post) offset = snd (snd e)"
    unfolding buf by (simp_all add: nb_type_def nb_group_def nth_append e pad assms(2))
qed

lemma nb_names_read:
  "list_all nb_entry_ok es \<Longrightarrow> offset = length pre \<Longrightarrow> len = length (pre @ concat (map nb_entry es)) \<Longrightarrow>
    nb_names (pre @ concat (map nb_entry es)) len (length es) offset st = fold (\<lambda>e. nb_take (fst e) (fst (snd e)) (snd (snd e))) es st"
proof (induction es arbitrary: pre offset st)
  case (Cons e es)
  have e: "nb_entry_ok e" using Cons.prems(1) by simp
  have step: "pre @ concat (map nb_entry (e # es)) = (pre @ nb_entry e) @ concat (map nb_entry es)" by simp
  show ?case
    using Cons.IH [where pre = "pre @ nb_entry e" and offset = "offset + 18"] Cons.prems nb_entry_read [OF e, of pre offset "concat (map nb_entry es)"]
    by (simp add: length_nb_entry [OF e] step)
qed simp

lemma nb_take_fold:
  "list_all nb_entry_ok es \<Longrightarrow> fold (\<lambda>e. nb_take (fst e) (fst (snd e)) (snd (snd e))) es st =
    (if fst st = [] then first_with host_entry es else fst st, if snd st = [] then first_with group_entry es else snd st)"
proof (induction es arbitrary: st)
  case (Cons e es)
  then show ?case by (cases st) (auto simp: nb_take_def first_with_def host_entry_def group_entry_def nb_entry_ok_def)
qed (simp add: first_with_def prod_eq_iff)

text \<open>
  A NetBIOS answer is understood. Whatever names a host reports, in any number that fits the packet,
  the parser finds behind the echoed question the first name of a workstation or server and the first
  group, and reports success exactly if there is such a name.
\<close>

theorem nbstat_reply_understood:
  assumes "list_all nb_entry_ok es" "es \<noteq> []" "length es < 256"
  shows "ParseNbstatResponse (nbstat_reply es) (length (nbstat_reply es)) ([], []) =
    (first_with host_entry es \<noteq> [], first_with host_entry es, first_with group_entry es)"
proof -
  define pre where "pre = [0, 0, 0x84, 0, 0, 0, 0, 1, 0, 0, 0, 0] @ EncodeWildcardName @ replicate 10 0 @ [of_nat (length es) :: u8]"
  have buf: "nbstat_reply es = pre @ concat (map nb_entry es)" by (simp add: nbstat_reply_def pre_def)
  have wild: "length EncodeWildcardName = 34" "EncodeWildcardName ! 0 = 0x20" "EncodeWildcardName ! 33 = 0" by code_simp+
  have len: "length pre = 57" by (simp add: pre_def wild)
  have at: "pre ! 6 = 0" "pre ! 7 = 1" "pre ! 12 = 0x20" "pre ! 45 = 0" "pre ! 56 = of_nat (length es)"
    by (simp_all add: pre_def nth_append wild)
  let ?n = "length (nbstat_reply es)"
  have n: "?n \<ge> 57" by (simp add: buf len)
  have "skip_answer (nbstat_reply es) ?n 45 = 46"
    using n at(4) by (subst skip_answer.simps) (simp add: buf nth_append len)
  then have "skip_answer (nbstat_reply es) ?n 12 = 46"
    using n at(3) by (subst skip_answer.simps) (simp add: buf nth_append len)
  moreover have "unat (of_nat (length es) :: u8) = length es" using assms(3) by (simp add: unat_of_nat)
  moreover have "nb_names (nbstat_reply es) ?n (length es) 57 ([], []) =
      (first_with host_entry es, first_with group_entry es)"
    using nb_names_read [OF assms(1), of 57 pre ?n "([], [])"] nb_take_fold [OF assms(1), of "([], [])"] by (simp add: buf len)
  ultimately show ?thesis
    using n at by (simp add: ParseNbstatResponse_def Let_def buf nth_append len)
qed

section \<open>SSDP headers\<close>

text \<open>A header is looked for anywhere in the message: the type of a device can come from its \<open>HOST\<close> line.\<close>

lemma type_from_the_host_line:
  "SsdpHeaderValue (''HTTP/1.1 200 OK'' @ [CHR 0x0D, CHR 0x0A] @ ''HOST: 10.0.0.1'' @ [CHR 0x0D, CHR 0x0A] @ ''ST: upnp:rootdevice'' @ [CHR 0x0D, CHR 0x0A]) ''ST'' =
    ''10.0.0.1''"
  by code_simp

end
