(* ===== verification/Vicinato.thy ===== *)
theory Vicinato
  imports ShareFolder NetIntel
begin

text \<open>
  The window of the neighborhood, \<open>vicinato/campiello_vicinato.cpp\<close>: what it keeps of the network, the list
  it shows, and what every message does to it. The radar, the finder of SMB hosts, the files, the other
  programs and the network threads are the fields of \<open>surroundings\<close>, as they are when a message is
  handled; what leaves the window is an \<open>action\<close>. Texts are those of the source, untranslated, and what is
  drawn of them is left out.
\<close>

section \<open>The reachability of devices\<close>

datatype ReachState = kUnknownState | kOnline | kOffline

record DeviceStatus =
  dv_state :: ReachState
  dv_latencyMs :: int

text \<open>How a connection attempt ended: at once, after milliseconds, or not.\<close>

datatype attempt = Immediate | After int | Unreachable

definition TcpPing :: "(string \<Rightarrow> int \<Rightarrow> attempt) \<Rightarrow> string \<Rightarrow> int \<Rightarrow> int" where
  "TcpPing connects host port = (if port \<le> 0 \<or> host = [] then - 1
     else case connects host port of Immediate \<Rightarrow> 1 | After ms \<Rightarrow> (if ms < 1 then 1 else ms) | Unreachable \<Rightarrow> - 1)"

type_synonym ping_target = "string \<times> string \<times> int"

definition StatusThread :: "(string \<Rightarrow> int \<Rightarrow> attempt) \<Rightarrow> ping_target list \<Rightarrow> (string \<times> int) list" where
  "StatusThread connects = map (\<lambda>(i, host, port). (c_str i, TcpPing connects host port))"

section \<open>What is learnt of the hosts\<close>

definition IsDottedIp :: "string \<Rightarrow> bool" where
  "IsDottedIp h \<longleftrightarrow> h \<noteq> [] \<and> inet_pton (c_str h) \<noteq> None"

text \<open>Addresses with their MAC, their NetBIOS name, and the type and server of their UPnP answer.\<close>

record intel =
  im_macs :: "(string \<times> string) list"
  im_names :: "(string \<times> string) list"
  im_ssdp :: "(string \<times> string \<times> string) list"

text \<open>\<open>netbios\<close> and \<open>reverse_dns\<close> are the answers of the two lookups.\<close>

definition IntelThread :: "(string, string) std_map \<Rightarrow> (string \<Rightarrow> string option) \<Rightarrow> (string \<Rightarrow> string option) \<Rightarrow>
    (string, SsdpDevice) std_map \<Rightarrow> (string \<times> string) list \<Rightarrow> string list \<Rightarrow> intel" where
  "IntelThread arp netbios reverse_dns ssdp targets smbIps =
    \<lparr>im_macs = List.map_filter (\<lambda>(i, host). if IsDottedIp host
         then map_option (\<lambda>mac. (c_str host, c_str mac)) (map_of arp host) else None) targets,
     im_names = List.map_filter (\<lambda>ip. case netbios ip of
           Some name \<Rightarrow> Some (c_str ip, c_str name)
         | None \<Rightarrow> map_option (\<lambda>name. (c_str ip, c_str name)) (reverse_dns ip)) smbIps,
     im_ssdp = map (\<lambda>(ip, d). (c_str ip, c_str (InferSsdpType d), c_str (sd_server d))) ssdp\<rparr>"

section \<open>The window\<close>

fun KindLabel :: "ServiceKind \<Rightarrow> string" where
  "KindLabel Kind_Campiello = ''Campiello''"
| "KindLabel Kind_Computer = ''Computer''"
| "KindLabel Kind_Smb = ''Windows''"
| "KindLabel Kind_Sftp = ''SSH/SFTP''"
| "KindLabel Kind_Home = ''Casa''"
| "KindLabel Kind_Web = ''Web''"
| "KindLabel Kind_Printer = ''Stampante''"
| "KindLabel Kind_Media = ''Media''"
| "KindLabel Kind_Other = ''Altro''"

definition ShortcutName :: "string \<Rightarrow> string" where
  "ShortcutName label = (let out = map (\<lambda>c. if c = CHR ''/'' \<or> c = CHR 0x00 then CHR ''-'' else c) label
     in if out = [] then ''condivisione'' else out)"

definition icon_names :: "(string \<times> string) list" where
  "icon_names = [(''_campiello._tcp'', ''campiello''),
     (''_smb._tcp'', ''smb''), (''_sftp-ssh._tcp'', ''ssh''), (''_ssh._tcp'', ''ssh''),
     (''_ftp._tcp'', ''ftp''), (''_webdav._tcp'', ''webdav''), (''_webdavs._tcp'', ''webdav''),
     (''_nfs._tcp'', ''nfs''), (''_afpovertcp._tcp'', ''afp''),
     (''_hue._tcp'', ''hue''), (''_hap._tcp'', ''homekit''),
     (''_matter._tcp'', ''matter''), (''_matterc._udp'', ''matter''), (''_matterd._udp'', ''matter''),
     (''_sleap._tcp'', ''lutron''),
     (''_airplay._tcp'', ''airplay''), (''_raop._tcp'', ''airplay''),
     (''_googlecast._tcp'', ''cast''), (''_spotify-connect._tcp'', ''spotify''),
     (''_amzn-wplay._tcp'', ''firetv''), (''_amzn-alexa._tcp'', ''alexa''), (''_daap._tcp'', ''daap''),
     (''_ipp._tcp'', ''printer''), (''_ipps._tcp'', ''printer''), (''_printer._tcp'', ''printer''),
     (''_pdl-datastream._tcp'', ''printer''), (''_uscan._tcp'', ''scanner''), (''_scanner._tcp'', ''scanner''),
     (''_http._tcp'', ''web''), (''_https._tcp'', ''web''), (''_rfb._tcp'', ''vnc''),
     (''_workstation._tcp'', ''computer''), (''_device-info._tcp'', ''computer''),
     (''_companion-link._tcp'', ''computer'')]"

fun kind_icon :: "ServiceKind \<Rightarrow> string" where
  "kind_icon Kind_Campiello = ''campiello''"
| "kind_icon Kind_Computer = ''computer''"
| "kind_icon Kind_Smb = ''smb''"
| "kind_icon Kind_Sftp = ''ssh''"
| "kind_icon Kind_Home = ''home''"
| "kind_icon Kind_Web = ''web''"
| "kind_icon Kind_Printer = ''printer''"
| "kind_icon Kind_Media = ''media''"
| "kind_icon Kind_Other = ''other''"

definition IconBaseName :: "NetworkService \<Rightarrow> string" where
  "IconBaseName s = (let t = (case split_marker ''.local'' (ns_serviceType s) of Some (before, _) \<Rightarrow> before | None \<Rightarrow> ns_serviceType s)
     in case map_of icon_names t of Some name \<Rightarrow> name | None \<Rightarrow> kind_icon (ns_kind s))"

text \<open>
  The rows of the list: a group's header, and a service's text, kind, lock, place among the services
  and id, with the name of its icon.
\<close>

datatype list_item = Group string ServiceKind | Item string ServiceKind bool nat string string

text \<open>The details pane: a notice, or the title, the status, the fields and the groups of fields.\<close>

datatype details = No_Details string
  | Details string string "(string \<times> string) list" "(string \<times> bool \<times> (string \<times> string) list) list"

record buttons =
  bt_open :: bool
  bt_copy :: bool
  bt_web :: bool
  bt_info :: bool
  bt_inspect :: bool

record window =
  vw_fShareFolder :: string
  vw_folder :: folder
  vw_fServices :: "NetworkService list"
  vw_fManual :: "NetworkService list"
  vw_fSsdp :: "NetworkService list"
  vw_fMacByIp :: "(string, string) std_map"
  vw_fNetbiosByIp :: "(string, string) std_map"
  vw_fOui :: "(string, string) std_map"
  vw_fOuiTried :: bool
  vw_fStatusMap :: "(string, DeviceStatus) std_map"
  vw_fSignature :: string
  vw_fPinging :: bool
  vw_fIntelBusy :: bool
  vw_fFilter :: string
  vw_fOnlyOnlineOn :: bool
  vw_list :: "list_item list"
  vw_selected :: "nat option" \<comment> \<open>the place among the services of the selected row\<close>
  vw_fDetail :: details
  vw_buttons :: buttons
  vw_fStatus :: string
  vw_subtitle :: string
  vw_online :: bool
  vw_manual_file :: "string option"
  vw_macs_file :: "string option"
  vw_autostart :: "string option"

datatype launch = Launch_Ref string | Launch_App string "string list"

text \<open>Opening a path includes its resolution; what is launched may fail.\<close>

datatype action = Ping "ping_target list" | Gather "(string \<times> string) list" "string list" | Launched launch
  | Alert string | Copied string | Woken "(bytes \<times> string) list" | Inspector string string

record surroundings =
  en_snap :: RadarSnapshot
  en_smbHosts :: "string list"
  en_opens :: "string \<Rightarrow> bool"
  en_icons :: "string \<Rightarrow> string option"
  en_handlers :: HandlerRegistry
  en_readable :: bool
  en_spawns :: bool
  en_settings :: bool \<comment> \<open>whether files of the settings can be written\<close>
  en_oui :: "string option"
  en_launches :: "launch \<Rightarrow> bool"
  en_sends :: "string \<Rightarrow> bool"
  en_executable :: "string \<Rightarrow> bool"
  en_self :: string

definition Selected :: "window \<Rightarrow> NetworkService option" where
  "Selected w = (case vw_selected w of None \<Rightarrow> None
    | Some i \<Rightarrow> if i < length (vw_fServices w) then Some (vw_fServices w ! i) else None)"

section \<open>Details\<close>

definition kind_and_category :: "NetworkService \<Rightarrow> string" where
  "kind_and_category svc = KindLabel (ns_kind svc)
     @ (if ns_category svc \<noteq> [] \<and> ns_category svc \<noteq> ''Altro'' \<and> Lower (ns_category svc) \<noteq> Lower (KindLabel (ns_kind svc))
        then '' - '' @ ns_category svc else [])"

definition host_and_port :: "NetworkService \<Rightarrow> string" where
  "host_and_port svc = ns_host svc @ (if ns_port svc \<noteq> 0 then '':'' @ decimal (unat (ns_port svc)) else [])"

definition txt_in_words :: "NetworkService \<Rightarrow> string \<times> string \<Rightarrow> string \<times> string" where
  "txt_in_words svc kv = (TxtKeyLabel (ns_serviceType svc) (fst kv), DecodeTxtValue (ns_serviceType svc) (fst kv) (snd kv))"

definition DetailsText :: "NetworkService \<Rightarrow> string" where
  "DetailsText svc = ''Tipo: '' @ kind_and_category svc @ new_line
     @ (if ns_host svc \<noteq> [] then ''Indirizzo: '' @ host_and_port svc @ new_line else [])
     @ (if ns_vendor svc \<noteq> [] then ''Produttore: '' @ ns_vendor svc @ new_line else [])
     @ (if ns_mac svc \<noteq> [] then ''MAC: '' @ ns_mac svc @ new_line else [])
     @ ''Servizio: '' @ ns_serviceType svc @ new_line
     @ (if ns_txt svc \<noteq> [] then new_line else [])
     @ concat (map (\<lambda>kv. case txt_in_words svc kv of (key, val) \<Rightarrow>
         ''  '' @ key @ (if val = [] then [] else '' = '' @ val) @ new_line) (take 12 (ns_txt svc)))"

definition PopulateDetails :: "NetworkService \<Rightarrow> string \<Rightarrow> details" where
  "PopulateDetails svc statusText = Details (ns_label svc) statusText
     ((''Tipo'', kind_and_category svc)
       # (if ns_host svc \<noteq> [] then [(''Indirizzo'', host_and_port svc)] else [])
       @ (if ns_vendor svc \<noteq> [] then [(''Produttore'', ns_vendor svc)] else []))
     ((''Dettagli di rete'', False, (if ns_mac svc \<noteq> [] then [(''MAC'', ns_mac svc)] else []) @ [(''Servizio'', ns_serviceType svc)])
       # (if ns_txt svc \<noteq> [] then [(''Informazioni sul servizio'', length (ns_txt svc) > 5, map (txt_in_words svc) (take 20 (ns_txt svc)))]
          else []))"

definition status_text :: "DeviceStatus option \<Rightarrow> string" where
  "status_text st = (case st of None \<Rightarrow> ''Stato: verifica...''
    | Some d \<Rightarrow> (case dv_state d of
         kUnknownState \<Rightarrow> ''Stato: verifica...''
       | kOnline \<Rightarrow> if dv_latencyMs d > 0 then snprintf 64 (''Stato: online ('' @ show_long (dv_latencyMs d) @ '' ms)'')
           else ''Stato: online (raggiungibile in rete)''
       | kOffline \<Rightarrow> ''Stato: offline''))"

definition web_kind :: "ServiceKind \<Rightarrow> bool" where
  "web_kind k \<longleftrightarrow> k = Kind_Web \<or> k = Kind_Printer \<or> k = Kind_Home"

definition UpdateDetails :: "window \<Rightarrow> window" where
  "UpdateDetails w = (case Selected w of
     None \<Rightarrow> w\<lparr>vw_fDetail := No_Details ''Nessun dispositivo selezionato'',
       vw_buttons := \<lparr>bt_open = False, bt_copy = False, bt_web = False, bt_info = False, bt_inspect = False\<rparr>\<rparr>
   | Some svc \<Rightarrow> w\<lparr>vw_fDetail := PopulateDetails svc (status_text (map_of (vw_fStatusMap w) (ns_id svc))),
       vw_buttons := \<lparr>bt_open = True, bt_copy = ns_host svc \<noteq> [], bt_web = web_kind (ns_kind svc) \<and> ns_host svc \<noteq> [],
         bt_info = True, bt_inspect = True\<rparr>\<rparr>)"

section \<open>The list\<close>

definition kind_order :: "ServiceKind list" where
  "kind_order = [Kind_Campiello, Kind_Computer, Kind_Home, Kind_Media, Kind_Smb, Kind_Sftp, Kind_Printer, Kind_Web, Kind_Other]"

definition shown_service :: "window \<Rightarrow> NetworkService \<Rightarrow> bool" where
  "shown_service w s \<longleftrightarrow>
    (Lower (vw_fFilter w) = [] \<or> contains (Lower (ns_label s @ '' '' @ ns_host s @ '' '' @ ns_serviceType s @ '' '' @ ns_category s)) (Lower (vw_fFilter w))) \<and>
    (vw_fOnlyOnlineOn w \<longrightarrow> (case map_of (vw_fStatusMap w) (ns_id s) of None \<Rightarrow> False | Some st \<Rightarrow> dv_state st = kOnline))"

definition members :: "window \<Rightarrow> ServiceKind \<Rightarrow> nat list" where
  "members w kind = filter (\<lambda>i. ns_kind (vw_fServices w ! i) = kind \<and> shown_service w (vw_fServices w ! i)) [0..<length (vw_fServices w)]"

definition row_text :: "NetworkService \<Rightarrow> string" where
  "row_text s = ns_label s @ (if ns_host s \<noteq> [] \<and> \<not> contains (ns_label s) (ns_host s) then ''  -  '' @ ns_host s else [])"

definition item_of :: "window \<Rightarrow> nat \<Rightarrow> list_item" where
  "item_of w i = (let s = vw_fServices w ! i in Item (row_text s) (ns_kind s) (ns_auth s \<noteq> Auth_None) i (ns_id s) (IconBaseName s))"

definition section_of :: "window \<Rightarrow> ServiceKind \<Rightarrow> list_item list" where
  "section_of w kind = (let ms = members w kind in if ms = [] then []
     else Group (snprintf 64 (KindLabel kind @ '' ('' @ decimal (length ms) @ '')'')) kind # map (item_of w) ms)"

text \<open>The row that is selected: the last one of the id that was, or the first.\<close>

definition to_select :: "window \<Rightarrow> string \<Rightarrow> nat list \<Rightarrow> nat option" where
  "to_select w selId shown = (if shown = [] then None
     else case filter (\<lambda>i. selId \<noteq> [] \<and> ns_id (vw_fServices w ! i) = selId) shown of
       [] \<Rightarrow> Some (hd shown) | ms \<Rightarrow> Some (last ms))"

definition RebuildList :: "window \<Rightarrow> window" where
  "RebuildList w =
    (let selId = (case Selected w of Some s \<Rightarrow> ns_id s | None \<Rightarrow> []);
         shown = concat (map (members w) kind_order);
         w = UpdateDetails (w\<lparr>vw_list := concat (map (section_of w) kind_order), vw_selected := to_select w selId shown\<rparr>);
         w = w\<lparr>vw_fStatus := snprintf 128 (decimal (length (vw_fServices w)) @ '' servizi in rete'')\<rparr>
     in if shown = [] then w\<lparr>vw_fDetail := No_Details (if Lower (vw_fFilter w) = [] then ''Nessun dispositivo trovato''
          else ''Nessun risultato per il filtro'')\<rparr> else w)"

section \<open>The services\<close>

text \<open>Those of a list are added whose address no service has yet.\<close>

fun fold_in :: "NetworkService list \<Rightarrow> NetworkService list \<Rightarrow> NetworkService list" where
  "fold_in [] hood = hood"
| "fold_in (m # ms) hood = fold_in ms (if list_ex (\<lambda>s. ns_host s = ns_host m) hood then hood else hood @ [m])"

definition MacFor :: "window \<Rightarrow> NetworkService \<Rightarrow> string" where
  "MacFor w svc = (if ns_mac svc \<noteq> [] then ns_mac svc else case map_of (vw_fMacByIp w) (ns_host svc) of Some mac \<Rightarrow> mac | None \<Rightarrow> [])"

definition enrich :: "window \<Rightarrow> NetworkService \<Rightarrow> NetworkService" where
  "enrich w s =
    (let s = (case map_of (vw_fMacByIp w) (ns_host s) of None \<Rightarrow> s
         | Some mac \<Rightarrow> let s = s\<lparr>ns_mac := mac\<rparr>; v = Oui_Lookup (vw_fOui w) mac
             in if vw_fOui w \<noteq> [] \<and> v \<noteq> [] then s\<lparr>ns_vendor := v\<rparr> else s)
     in case map_of (vw_fNetbiosByIp w) (ns_host s) of None \<Rightarrow> s
       | Some name \<Rightarrow> if name \<noteq> [] \<and> (ns_label s = [] \<or> ns_label s = ns_host s \<or> contains (ns_label s) (ns_host s))
           then s\<lparr>ns_label := name\<rparr> else s)"

definition ApplyEnrichment :: "window \<Rightarrow> NetworkService list \<Rightarrow> NetworkService list" where
  "ApplyEnrichment w hood = map (enrich w) hood"

definition signature_of :: "NetworkService list \<Rightarrow> string" where
  "signature_of hood = concat (map (\<lambda>s. ns_id s @ ''|'' @ ns_label s @ ''|'' @ ns_mac s @ '';'') hood)"

definition StartStatusCheck :: "surroundings \<Rightarrow> window \<Rightarrow> window \<times> action list" where
  "StartStatusCheck en w = (if vw_fPinging w \<or> vw_fServices w = [] \<or> \<not> en_spawns en then (w, [])
     else (w\<lparr>vw_fPinging := True\<rparr>, [Ping (map (\<lambda>s. (ns_id s, ns_host s,
       (if ns_port s = 0 \<and> ns_backend s = Backend_Smb then 445 else int (unat (ns_port s))))) (vw_fServices w))]))"

definition hood_of :: "surroundings \<Rightarrow> window \<Rightarrow> NetworkService list" where
  "hood_of en w = ApplyEnrichment w (fold_in (vw_fSsdp w) (fold_in (vw_fManual w)
     (MergeSmbHosts (BuildNeighborhood (en_snap en)) (en_smbHosts en))))"

definition Refresh :: "surroundings \<Rightarrow> window \<Rightarrow> window \<times> action list" where
  "Refresh en w =
    (let hood = hood_of en w in
     if signature_of hood = vw_fSignature w \<and> vw_list w \<noteq> [] then (w, [])
     else StartStatusCheck en (RebuildList (w\<lparr>vw_fSignature := signature_of hood, vw_fServices := hood,
       vw_folder := SyncShareFolder (en_opens en) (en_icons en) (en_handlers en) (en_readable en) (vw_fShareFolder w) hood (vw_folder w)\<rparr>)))"


section \<open>Status and enrichment arrive\<close>

definition device_status :: "window \<Rightarrow> string \<times> int \<Rightarrow> DeviceStatus" where
  "device_status w idl = (case idl of (i, latency) \<Rightarrow>
     if latency > 0 then \<lparr>dv_state = kOnline, dv_latencyMs = latency\<rparr>
     else (case find (\<lambda>s. ns_id s = i) (vw_fServices w) of
         Some s \<Rightarrow> if ns_host s \<noteq> [] \<and> map_of (vw_fMacByIp w) (ns_host s) \<noteq> None
           then \<lparr>dv_state = kOnline, dv_latencyMs = 0\<rparr> else \<lparr>dv_state = kOffline, dv_latencyMs = - 1\<rparr>
       | None \<Rightarrow> \<lparr>dv_state = kOffline, dv_latencyMs = - 1\<rparr>))"

definition ApplyStatus :: "(string \<times> int) list \<Rightarrow> window \<Rightarrow> window" where
  "ApplyStatus found w =
    (let online = length (filter (\<lambda>f. dv_state (device_status w f) = kOnline) found);
         w = UpdateDetails (w\<lparr>vw_fPinging := False,
           vw_fStatusMap := fold (\<lambda>f m. map_put (fst f) (device_status w f) m) found (vw_fStatusMap w)\<rparr>)
     in w\<lparr>vw_subtitle := snprintf 96 (decimal (length found) @ '' dispositivi - '' @ decimal online @ '' online''), vw_online := online > 0\<rparr>)"

definition StartIntel :: "surroundings \<Rightarrow> window \<Rightarrow> window \<times> action list" where
  "StartIntel en w = (if vw_fIntelBusy w \<or> vw_fServices w = [] \<or> \<not> en_spawns en then (w, [])
     else (w\<lparr>vw_fIntelBusy := True\<rparr>,
       [Gather (map (\<lambda>s. (ns_id s, ns_host s)) (filter (\<lambda>s. ns_host s \<noteq> []) (vw_fServices w)))
         (map ns_host (filter (\<lambda>s. ns_backend s = Backend_Smb \<and> IsDottedIp (ns_host s)) (vw_fServices w)))]))"

definition macs_text :: "(string, string) std_map \<Rightarrow> string" where
  "macs_text macs = concat (map (\<lambda>(ip, mac). c_str ip @ [CHR 0x09] @ c_str mac @ new_line) macs)"

definition SaveMacs :: "surroundings \<Rightarrow> window \<Rightarrow> window" where
  "SaveMacs en w = (if en_settings en then w\<lparr>vw_macs_file := Some (macs_text (vw_fMacByIp w))\<rparr> else w)"

definition macs_of :: "string \<Rightarrow> (string, string) std_map" where
  "macs_of t = fold (\<lambda>line m. case scan_word 63 (c_str line) of None \<Rightarrow> m
     | Some (ip, r) \<Rightarrow> (case scan_word 63 r of None \<Rightarrow> m | Some (mac, _) \<Rightarrow> map_put ip mac m)) (fgets_all 256 t) []"

definition LoadMacs :: "window \<Rightarrow> window" where
  "LoadMacs w = w\<lparr>vw_fMacByIp := (case vw_macs_file w of None \<Rightarrow> [] | Some t \<Rightarrow> macs_of t)\<rparr>"

definition learn_mac :: "string \<times> string \<Rightarrow> bool \<times> (string, string) std_map \<Rightarrow> bool \<times> (string, string) std_map" where
  "learn_mac im bm = (case (im, bm) of ((ip, mac), learned, macs) \<Rightarrow>
     (learned \<or> (case map_of macs ip of Some v \<Rightarrow> v | None \<Rightarrow> []) \<noteq> mac, map_put ip mac macs))"

definition ssdp_kind :: "string \<Rightarrow> ServiceKind" where
  "ssdp_kind stype = (let lt = Lower stype in
     if contains lt ''tv'' \<or> contains lt ''sonos'' \<or> contains lt ''dlna'' \<or> contains lt ''multimediale'' \<or> contains lt ''lettore''
     then Kind_Media else if contains lt ''stampante'' then Kind_Printer else Kind_Other)"

definition ssdp_service :: "string \<times> string \<times> string \<Rightarrow> NetworkService" where
  "ssdp_service d = (case d of (ip, stype, server) \<Rightarrow> NetworkService\<lparr>ns_id := ''ssdp:'' @ ip, ns_host := ip, ns_label := stype,
     ns_serviceType := ''ssdp/upnp'', ns_category := ''UPnP'', ns_kind := ssdp_kind stype,
     ns_txt := (if server \<noteq> [] then [(''server'', server)] else [])\<rparr>)"

definition ApplyIntel :: "surroundings \<Rightarrow> intel \<Rightarrow> window \<Rightarrow> window \<times> action list" where
  "ApplyIntel en im w =
    (let w = w\<lparr>vw_fIntelBusy := False, vw_fOuiTried := True,
           vw_fOui := (if vw_fOuiTried w \<or> en_oui en = None then vw_fOui w else LoadFromFile (en_oui en))\<rparr>
     in case fold learn_mac (im_macs im) (False, vw_fMacByIp w) of (learned, macs) \<Rightarrow>
       let w = w\<lparr>vw_fMacByIp := macs, vw_fNetbiosByIp := fold (\<lambda>(ip, name). map_put ip name) (im_names im) (vw_fNetbiosByIp w),
             vw_fSsdp := map ssdp_service (im_ssdp im)\<rparr>
       in Refresh en (if learned then SaveMacs en w else w))"

section \<open>Devices added by hand\<close>

definition MakeManual :: "string \<Rightarrow> int \<Rightarrow> string \<Rightarrow> NetworkService" where
  "MakeManual host port name = NetworkService\<lparr>ns_id := ''manual:'' @ host @ '':'' @ show_long port,
     ns_label := (if name = [] then host else name), ns_host := host, ns_port := word_of_int port,
     ns_serviceType := ''manuale'', ns_category := ''Manuale'',
     ns_kind := (if port = 80 \<or> port = 443 \<or> port = 8080 \<or> port = 8443 then Kind_Web else Kind_Other),
     ns_auth := Auth_None, ns_backend := Backend_None, ns_browsable := False\<rparr>"

definition manual_of_line :: "string \<Rightarrow> NetworkService option" where
  "manual_of_line line =
    (let s = rev (dropWhile (\<lambda>c. c = CHR 0x0A \<or> c = CHR 0x0D) (rev (c_str line)))
     in case split_marker [CHR 0x09] s of None \<Rightarrow> None
       | Some (host, rest) \<Rightarrow> (case (case split_marker [CHR 0x09] rest of None \<Rightarrow> (rest, []) | Some x \<Rightarrow> x) of
           (port, name) \<Rightarrow> if host = [] then None else Some (MakeManual host (strtoll (c_str port)) name)))"

definition manual_devices :: "string \<Rightarrow> NetworkService list" where
  "manual_devices t = List.map_filter manual_of_line (fgets_all 512 t)"

definition LoadManual :: "window \<Rightarrow> window" where
  "LoadManual w = w\<lparr>vw_fManual := (case vw_manual_file w of None \<Rightarrow> [] | Some t \<Rightarrow> manual_devices t)\<rparr>"

definition manual_line :: "NetworkService \<Rightarrow> string" where
  "manual_line s = c_str (ns_host s) @ [CHR 0x09] @ decimal (unat (ns_port s)) @ [CHR 0x09] @ c_str (ns_label s) @ new_line"

definition SaveManual :: "surroundings \<Rightarrow> window \<Rightarrow> window" where
  "SaveManual en w = (if en_settings en then w\<lparr>vw_manual_file := Some (concat (map manual_line (vw_fManual w)))\<rparr> else w)"

fun replace_first :: "NetworkService \<Rightarrow> NetworkService list \<Rightarrow> NetworkService list option" where
  "replace_first s [] = None"
| "replace_first s (m # ms) = (if ns_id m = ns_id s then Some (s # ms) else map_option ((#) m) (replace_first s ms))"

definition AddManual :: "surroundings \<Rightarrow> string \<Rightarrow> int \<Rightarrow> string \<Rightarrow> window \<Rightarrow> window \<times> action list" where
  "AddManual en host port name w = (if host = [] then (w, [])
     else let s = MakeManual host port name in
       (case replace_first s (vw_fManual w) of
         Some ms \<Rightarrow> Refresh en ((SaveManual en (w\<lparr>vw_fManual := ms\<rparr>))\<lparr>vw_fSignature := []\<rparr>)
       | None \<Rightarrow> (case Refresh en ((SaveManual en (w\<lparr>vw_fManual := vw_fManual w @ [s]\<rparr>))\<lparr>vw_fSignature := []\<rparr>) of
           (w, as1) \<Rightarrow> (case StartStatusCheck en w of (w, as2) \<Rightarrow> (w, as1 @ as2)))))"

fun remove_first :: "string \<Rightarrow> NetworkService list \<Rightarrow> NetworkService list" where
  "remove_first i [] = []"
| "remove_first i (m # ms) = (if ns_id m = i then ms else m # remove_first i ms)"

definition RemoveSelectedManual :: "surroundings \<Rightarrow> window \<Rightarrow> window \<times> action list" where
  "RemoveSelectedManual en w = (case Selected w of None \<Rightarrow> (w, [])
    | Some svc \<Rightarrow> if take 7 (ns_id svc) \<noteq> ''manual:'' then (w, [])
        else Refresh en ((SaveManual en (w\<lparr>vw_fManual := remove_first (ns_id svc) (vw_fManual w)\<rparr>))\<lparr>vw_fSignature := []\<rparr>))"

section \<open>What is done with a device\<close>

text \<open>The user a TXT pair names, the first of the three keys.\<close>

fun ssh_target :: "string \<Rightarrow> (string \<times> string) list \<Rightarrow> string" where
  "ssh_target host [] = host"
| "ssh_target host ((key, value) # txt) = (if key = ''u'' \<or> key = ''user'' \<or> key = ''username''
     then (if value \<noteq> [] then value @ ''@'' @ host else host) else ssh_target host txt)"

definition terminal :: string where "terminal = ''application/x-vnd.Haiku-Terminal''"

definition OpenSshTerminal :: "surroundings \<Rightarrow> NetworkService \<Rightarrow> window \<Rightarrow> window \<times> action list" where
  "OpenSshTerminal en svc w = (if ns_host svc = [] then (w, [])
     else let l = Launch_App terminal [''-t'', c_str (''SSH '' @ ns_host svc), ''/bin/ssh'', c_str (ssh_target (ns_host svc) (ns_txt svc))]
       in if \<not> en_launches en l then (w, [Launched l, Alert ''Impossibile aprire il Terminal per la sessione SSH.''])
       else (w\<lparr>vw_fStatus := ''Terminale SSH verso '' @ ns_host svc\<rparr>, [Launched l]))"

definition OpenService :: "surroundings \<Rightarrow> NetworkService \<Rightarrow> window \<Rightarrow> window \<times> action list" where
  "OpenService en svc w =
    (if ns_kind svc = Kind_Computer then OpenSshTerminal en svc w
     else let shortcut = (if vw_fShareFolder w = [] then [] else [Launch_Ref (vw_fShareFolder w @ ''/'' @ ShortcutName (ns_label svc))]);
              helper = (if ns_backend svc = Backend_Smb then [Launch_App ''application/x-vnd.Campiello-smb-mount'' [c_str (''server='' @ ns_host svc)]]
                else if ns_backend svc = Backend_Sftp then [Launch_App ''application/x-vnd.Campiello-mount'' [c_str (''host='' @ ns_host svc)]]
                else []);
              failed = takeWhile (\<lambda>l. \<not> en_launches en l) (shortcut @ helper)
       in if length failed < length (shortcut @ helper) then (w, map Launched (take (Suc (length failed)) (shortcut @ helper)))
          else (w, map Launched (shortcut @ helper) @ [Alert (c_str (ns_label svc @ new_line @ new_line @ DetailsText svc))]))"

definition OpenWebUi :: "surroundings \<Rightarrow> NetworkService \<Rightarrow> action list" where
  "OpenWebUi en svc = (if ns_host svc = [] then []
     else let url = (if ns_port svc = 443 then ''https'' else ''http'') @ ''://'' @ ns_host svc
            @ (if ns_port svc \<noteq> 0 \<and> ns_port svc \<noteq> 80 \<and> ns_port svc \<noteq> 443 then '':'' @ decimal (unat (ns_port svc)) else []);
          l1 = Launch_App ''application/x-vnd.Be-URL.http'' [c_str url]; l2 = Launch_App ''application/x-vnd.Be-URL.https'' [c_str url]
       in if en_launches en l1 then [Launched l1] else if en_launches en l2 then [Launched l1, Launched l2]
         else [Launched l1, Launched l2, Alert (c_str (''Nessun browser per aprire:'' @ new_line @ url))])"

definition SshApplies :: "NetworkService \<Rightarrow> bool" where
  "SshApplies svc \<longleftrightarrow> contains (ns_serviceType svc) ''_ssh'' \<or> contains (ns_serviceType svc) ''_sftp-ssh'' \<or>
     ns_kind svc \<in> {Kind_Sftp, Kind_Campiello, Kind_Computer, Kind_Smb}"

definition RdpApplies :: "NetworkService \<Rightarrow> bool" where
  "RdpApplies svc \<longleftrightarrow> contains (ns_serviceType svc) ''_rdp'' \<or> ns_kind svc = Kind_Smb \<or> ns_kind svc = Kind_Computer"

definition rdp_clients :: "(string \<times> bool) list" where
  "rdp_clients = concat (map (\<lambda>(name, remmina). map (\<lambda>d. (d @ ''/'' @ name, remmina)) [''/boot/system/bin'', ''/bin'', ''/boot/system/non-packaged/bin''])
     [(''xfreerdp'', False), (''xfreerdp3'', False), (''sdl-freerdp'', False), (''sdl-freerdp3'', False), (''wlfreerdp'', False), (''remmina'', True)])"

definition FindRdpClient :: "(string \<Rightarrow> bool) \<Rightarrow> (string \<times> bool) option" where
  "FindRdpClient executable = find (\<lambda>(p, remmina). executable p) rdp_clients"

definition OpenRdp :: "surroundings \<Rightarrow> NetworkService \<Rightarrow> window \<Rightarrow> window \<times> action list" where
  "OpenRdp en svc w = (if ns_host svc = [] then (w, [])
     else case FindRdpClient (en_executable en) of
       None \<Rightarrow> (w, [Alert (''Nessun client RDP installato.'' @ new_line @ new_line
         @ ''Installa \"freerdp\" o \"remmina\" da HaikuDepot per aprire i desktop remoti Windows.'')])
     | Some (client, remmina) \<Rightarrow>
         let l = Launch_App terminal ([''-t'', c_str (''RDP '' @ ns_host svc), client]
           @ (if remmina then [''-c'', c_str (''rdp://'' @ ns_host svc)] else [c_str (''/v:'' @ ns_host svc)]))
         in if \<not> en_launches en l then (w, [Launched l, Alert ''Impossibile avviare il client RDP.''])
            else (w\<lparr>vw_fStatus := ''Desktop remoto verso '' @ ns_host svc\<rparr>, [Launched l]))"

definition WakeSelected :: "surroundings \<Rightarrow> window \<Rightarrow> window \<times> action list" where
  "WakeSelected en w = (case Selected w of None \<Rightarrow> (w, [])
    | Some svc \<Rightarrow> let mac = MacFor w svc; bcast = DirectedBroadcast (ns_host svc) in
        if mac = [] then (w, [Alert (''Indirizzo MAC non disponibile per questo dispositivo.'' @ new_line @ new_line
          @ ''Il MAC si apprende quando il dispositivo e' online e nella tabella ARP.'')])
        else (case SendWakeOnLan (en_sends en) mac ''255.255.255.255'' of (ok1, p1) \<Rightarrow>
          (case (if bcast \<noteq> [] then SendWakeOnLan (en_sends en) mac bcast else (False, [])) of (ok2, p2) \<Rightarrow>
            (w\<lparr>vw_fStatus := (if ok2 \<or> ok1 then ''Magic packet inviato a '' @ mac else ''Invio del magic packet non riuscito.'')\<rparr>,
             [Woken (p1 @ p2)]))))"

definition InspectorText :: "NetworkService \<Rightarrow> string" where
  "InspectorText svc = ''Istanza: '' @ ns_label svc @ new_line
     @ ''Tipo servizio: '' @ (if ns_serviceType svc = [] then ''(nessuno)'' else ns_serviceType svc) @ new_line
     @ ''Indirizzo (A): '' @ (if ns_host svc = [] then ''(non risolto)'' else ns_host svc) @ new_line
     @ ''Porta (SRV): '' @ (if ns_port svc \<noteq> 0 then decimal (unat (ns_port svc)) else ''(nessuna)'') @ new_line
     @ ''Chiave interna: '' @ ns_id svc @ new_line
     @ new_line @ ''TXT grezzi ('' @ decimal (length (ns_txt svc)) @ ''):'' @ new_line
     @ (if ns_txt svc = [] then ''  (nessun record TXT)'' @ new_line else [])
     @ concat (map (\<lambda>(key, val). ''  '' @ key @ (if val = [] then [] else ''='' @ val) @ new_line) (ns_txt svc))"

text \<open>The commands the context menu of the selected device offers.\<close>

definition context_menu :: "window \<Rightarrow> string list" where
  "context_menu w = (case Selected w of None \<Rightarrow> []
    | Some svc \<Rightarrow> [''Apri'', ''Copia indirizzo'']
        @ (if web_kind (ns_kind svc) then [''Apri interfaccia web''] else [])
        @ (if SshApplies svc \<and> ns_host svc \<noteq> [] then [''Apri terminale SSH''] else [])
        @ (if RdpApplies svc \<and> ns_host svc \<noteq> [] then [''Apri desktop remoto (RDP)''] else [])
        @ (if MacFor w svc \<noteq> [] then [''Accendi (Wake-on-LAN)''] else [])
        @ [''Dettagli...'', ''Ispeziona record mDNS...'']
        @ (if take 7 (ns_id svc) = ''manual:'' then [''Rimuovi dispositivo''] else []))"

definition SetAutostart :: "surroundings \<Rightarrow> bool \<Rightarrow> window \<Rightarrow> window" where
  "SetAutostart en on w = (if \<not> en_settings en then w
     else if on then (if en_self en = [] then w else w\<lparr>vw_autostart := Some (en_self en)\<rparr>)
     else w\<lparr>vw_autostart := None\<rparr>)"

section \<open>Messages\<close>

datatype window_message = M_Tick | M_StatusTick | M_StatusReady "(string \<times> int) list" | M_IntelTick | M_IntelReady intel
  | M_Wake | M_Autostart | M_Ssh | M_Rdp | M_Filter string | M_OnlyOnline bool | M_RefreshNow | M_Select nat | M_Open | M_Copy | M_Web
  | M_Info | M_Inspect | M_AddDeviceOk string int string | M_RemoveDevice

definition on_selected :: "window \<Rightarrow> (NetworkService \<Rightarrow> window \<times> action list) \<Rightarrow> window \<times> action list" where
  "on_selected w f = (case Selected w of None \<Rightarrow> (w, []) | Some svc \<Rightarrow> f svc)"

text \<open>Selecting the row of a number selects its service; a header is none.\<close>

definition select_row :: "nat \<Rightarrow> window \<Rightarrow> window" where
  "select_row r w = w\<lparr>vw_selected := (if r < length (vw_list w) then (case vw_list w ! r of Item _ _ _ i _ _ \<Rightarrow> Some i | Group _ _ \<Rightarrow> None) else None)\<rparr>"

fun MessageReceived :: "surroundings \<Rightarrow> window_message \<Rightarrow> window \<Rightarrow> window \<times> action list" where
  "MessageReceived en M_Tick w = Refresh en w"
| "MessageReceived en M_StatusTick w = StartStatusCheck en w"
| "MessageReceived en (M_StatusReady found) w = (ApplyStatus found w, [])"
| "MessageReceived en M_IntelTick w = StartIntel en w"
| "MessageReceived en (M_IntelReady im) w = ApplyIntel en im w"
| "MessageReceived en M_Wake w = WakeSelected en w"
| "MessageReceived en M_Autostart w = (let enable = (\<not> en_settings en \<or> vw_autostart w = None); w = SetAutostart en enable w
     in (w\<lparr>vw_fStatus := (if enable then ''Si aprira' all'avvio del sistema'' else ''Non si aprira' piu' all'avvio (l'icona resta sulla Deskbar)'')\<rparr>, []))"
| "MessageReceived en M_Ssh w = on_selected w (\<lambda>svc. OpenSshTerminal en svc w)"
| "MessageReceived en M_Rdp w = on_selected w (\<lambda>svc. OpenRdp en svc w)"
| "MessageReceived en (M_Filter t) w = (RebuildList (w\<lparr>vw_fFilter := t\<rparr>), [])"
| "MessageReceived en (M_OnlyOnline b) w = (RebuildList (w\<lparr>vw_fOnlyOnlineOn := b\<rparr>), [])"
| "MessageReceived en M_RefreshNow w = (case StartStatusCheck en w of (w, as1) \<Rightarrow>
     (case StartIntel en w of (w, as2) \<Rightarrow> (RebuildList w, as1 @ as2)))"
| "MessageReceived en (M_Select r) w = (UpdateDetails (select_row r w), [])"
| "MessageReceived en M_Open w = on_selected w (\<lambda>svc. OpenService en svc w)"
| "MessageReceived en M_Copy w = on_selected w (\<lambda>svc. (w, [Copied (host_and_port svc)]))"
| "MessageReceived en M_Web w = on_selected w (\<lambda>svc. (w, OpenWebUi en svc))"
| "MessageReceived en M_Info w = on_selected w (\<lambda>svc. (w, [Alert (c_str (ns_label svc @ new_line @ new_line @ DetailsText svc))]))"
| "MessageReceived en M_Inspect w = on_selected w (\<lambda>svc. (w, [Inspector (c_str (''Record mDNS - '' @ ns_label svc)) (InspectorText svc)]))"
| "MessageReceived en (M_AddDeviceOk host port name) w = AddManual en (c_str host) port (c_str name) w"
| "MessageReceived en M_RemoveDevice w = RemoveSelectedManual en w"

fun messages :: "(surroundings \<times> window_message) list \<Rightarrow> window \<Rightarrow> window \<times> action list" where
  "messages [] w = (w, [])"
| "messages ((en, m) # ms) w = (case MessageReceived en m w of (w, as1) \<Rightarrow> (case messages ms w of (w, as2) \<Rightarrow> (w, as1 @ as2)))"

text \<open>The window as it opens, with the radar running: \<open>home\<close> is the folder of shortcuts.\<close>

definition new_window :: "string \<Rightarrow> folder \<Rightarrow> string option \<Rightarrow> string option \<Rightarrow> string option \<Rightarrow> window" where
  "new_window home dir manual macs autostart = LoadMacs (LoadManual
    \<lparr>vw_fShareFolder = home, vw_folder = dir, vw_fServices = [], vw_fManual = [], vw_fSsdp = [], vw_fMacByIp = [],
     vw_fNetbiosByIp = [], vw_fOui = [], vw_fOuiTried = False, vw_fStatusMap = [], vw_fSignature = [], vw_fPinging = False,
     vw_fIntelBusy = False, vw_fFilter = [], vw_fOnlyOnlineOn = False, vw_list = [], vw_selected = None,
     vw_fDetail = No_Details [], vw_buttons = \<lparr>bt_open = False, bt_copy = False, bt_web = False, bt_info = False, bt_inspect = False\<rparr>,
     vw_fStatus = [], vw_subtitle = ''Ricerca in corso...'', vw_online = False,
     vw_manual_file = manual, vw_macs_file = macs, vw_autostart = autostart\<rparr>)"

definition VicinatoWindow :: "surroundings \<Rightarrow> string \<Rightarrow> folder \<Rightarrow> string option \<Rightarrow> string option \<Rightarrow> string option \<Rightarrow> window \<times> action list" where
  "VicinatoWindow en home dir manual macs autostart =
    (case Refresh en (new_window home dir manual macs autostart) of (w, as1) \<Rightarrow>
      (case StartIntel en w of (w, as2) \<Rightarrow> (w, as1 @ as2)))"

end
