(* ===== verification/VicinatoProps.thy ===== *)
theory VicinatoProps
  imports Vicinato PeerLife
begin

text \<open>
  What the window of the neighborhood shows and acts on: the list against the services, the selection
  through any messages, and the files it keeps.
\<close>

section \<open>The list is the services\<close>

definition places :: "list_item list \<Rightarrow> nat list" where
  "places items = List.map_filter (\<lambda>x. case x of Item _ _ _ i _ _ \<Rightarrow> Some i | Group _ _ \<Rightarrow> None) items"

text \<open>The rank of a kind among the groups.\<close>

fun group_rank :: "ServiceKind \<Rightarrow> nat" where
  "group_rank Kind_Campiello = 0"
| "group_rank Kind_Computer = 1"
| "group_rank Kind_Home = 2"
| "group_rank Kind_Media = 3"
| "group_rank Kind_Smb = 4"
| "group_rank Kind_Sftp = 5"
| "group_rank Kind_Printer = 6"
| "group_rank Kind_Web = 7"
| "group_rank Kind_Other = 8"

lemma group_rank_inj: "group_rank a = group_rank b \<Longrightarrow> a = b"
  by (cases a; cases b) simp_all

lemma kind_order_ranks: "sorted (map group_rank kind_order)" "distinct kind_order" "set kind_order = UNIV"
proof -
  have "k \<in> set kind_order" for k by (cases k) (simp_all add: kind_order_def)
  then show "set kind_order = UNIV" by blast
qed (simp_all add: kind_order_def)

text \<open>Lists of elements of one key each, the keys in order, are the list sorted by key.\<close>

lemma concat_one_key:
  "distinct ks \<Longrightarrow> filter (\<lambda>x. key x = k') (concat (map (\<lambda>k. filter (\<lambda>x. key x = k) xs) ks)) =
    (if k' \<in> set ks then filter (\<lambda>x. key x = k') xs else [])"
proof (induction ks)
  case (Cons k ks)
  have "filter (\<lambda>x. key x = k') (filter (\<lambda>x. key x = k) xs) = (if k' = k then filter (\<lambda>x. key x = k') xs else [])"
    by (auto simp: filter_empty_conv intro: filter_cong)
  then show ?case using Cons by auto
qed simp

lemma concat_by_key:
  assumes "distinct ks" "sorted (map r ks)" "\<And>a b. r a = r b \<longleftrightarrow> a = b" "\<forall>x \<in> set xs. key x \<in> set ks"
  shows "concat (map (\<lambda>k. filter (\<lambda>x. key x = k) xs) ks) = sort_key (\<lambda>x. r (key x)) xs"
proof (rule properties_for_sort_key [symmetric])
  let ?ys = "concat (map (\<lambda>k. filter (\<lambda>x. key x = k) xs) ks)"
  have same: "filter (\<lambda>x. key x = k) ?ys = filter (\<lambda>x. key x = k) xs" for k
  proof (cases "k \<in> set ks")
    case False
    then have "filter (\<lambda>x. key x = k) xs = []" using assms(4) by (auto simp: filter_empty_conv)
    then show ?thesis using concat_one_key [OF assms(1), of key k xs] False by simp
  qed (use concat_one_key [OF assms(1), of key k xs] in simp)
  show "mset ?ys = mset xs"
  proof (rule multiset_eqI)
    fix x
    have "count (mset zs) x = count (mset (filter (\<lambda>y. key y = key x) zs)) x" for zs by simp
    then show "count (mset ?ys) x = count (mset xs) x" by (metis same)
  qed
  show "sorted (map (\<lambda>x. r (key x)) ?ys)" using assms(2)
  proof (induction ks)
    case (Cons k ks)
    have "r (key a) \<le> r (key b)" if "a \<in> set (filter (\<lambda>x. key x = k) xs)" "b \<in> set (concat (map (\<lambda>k. filter (\<lambda>x. key x = k) xs) ks))" for a b
      using that Cons.prems by auto
    moreover have "sorted (map (\<lambda>x. r (key x)) (filter (\<lambda>x. key x = k) xs))"
      by (induction xs) auto
    ultimately show ?case using Cons by (simp add: sorted_append)
  qed simp
  show "filter (\<lambda>x. r (key y) = r (key x)) ?ys = filter (\<lambda>x. r (key y) = r (key x)) xs" for y
    using same [of "key y"] assms(3) by (simp add: eq_commute)
qed

lemma places_section: "places (section_of w kind) = members w kind"
proof -
  have "List.map_filter (\<lambda>x. case x of Item _ _ _ i _ _ \<Rightarrow> Some i | Group _ _ \<Rightarrow> None) (map (item_of w) ms) = ms" for ms
    by (induction ms) (simp_all add: map_filter_simps item_of_def Let_def)
  then show ?thesis by (simp add: places_def section_of_def Let_def map_filter_simps)
qed

lemma places_concat: "places (concat xss) = concat (map places xss)"
  by (induction xss) (simp_all add: places_def map_filter_def)

text \<open>The services a list shows, in the order of the list.\<close>

definition shown_in_order :: "window \<Rightarrow> nat list" where
  "shown_in_order w = sort_key (\<lambda>i. group_rank (ns_kind (vw_fServices w ! i)))
     (filter (\<lambda>i. shown_service w (vw_fServices w ! i)) [0..<length (vw_fServices w)])"

lemma members_in_order: "concat (map (members w) kind_order) = shown_in_order w"
proof -
  let ?n = "[0..<length (vw_fServices w)]"
  have m: "members w = (\<lambda>k. filter (\<lambda>i. ns_kind (vw_fServices w ! i) = k) (filter (\<lambda>i. shown_service w (vw_fServices w ! i)) ?n))"
    by (auto simp: members_def fun_eq_iff conj_commute)
  have "group_rank a = group_rank b \<longleftrightarrow> a = b" for a b using group_rank_inj by blast
  then show ?thesis unfolding m shown_in_order_def
    by (intro concat_by_key [OF kind_order_ranks(2,1)]) (use kind_order_ranks(3) in auto)
qed

lemma UpdateDetails_simps [simp]:
  "vw_list (UpdateDetails w) = vw_list w" "vw_selected (UpdateDetails w) = vw_selected w" "vw_fServices (UpdateDetails w) = vw_fServices w"
  "vw_fManual (UpdateDetails w) = vw_fManual w" "vw_fSignature (UpdateDetails w) = vw_fSignature w" "vw_fStatusMap (UpdateDetails w) = vw_fStatusMap w"
  "vw_fPinging (UpdateDetails w) = vw_fPinging w" "vw_fFilter (UpdateDetails w) = vw_fFilter w" "vw_folder (UpdateDetails w) = vw_folder w"
  "vw_fOnlyOnlineOn (UpdateDetails w) = vw_fOnlyOnlineOn w"
  by (simp_all add: UpdateDetails_def split: option.split)

lemma RebuildList_simps [simp]:
  "vw_list (RebuildList w) = concat (map (section_of w) kind_order)" "vw_fServices (RebuildList w) = vw_fServices w"
  "vw_selected (RebuildList w) = to_select w (case Selected w of Some s \<Rightarrow> ns_id s | None \<Rightarrow> []) (shown_in_order w)"
  "vw_fSignature (RebuildList w) = vw_fSignature w" "vw_folder (RebuildList w) = vw_folder w"
  by (simp_all add: RebuildList_def Let_def members_in_order)

lemma places_RebuildList: "places (vw_list (RebuildList w)) = shown_in_order w"
  by (simp add: places_concat places_section comp_def flip: members_in_order)

lemma fold_in_hosts: "ns_host ` set (fold_in ms hood) = ns_host ` set hood \<union> ns_host ` set ms"
proof (induction ms arbitrary: hood)
  case (Cons m ms)
  have "list_ex (\<lambda>s. ns_host s = ns_host m) hood \<longleftrightarrow> ns_host m \<in> ns_host ` set hood" by (simp add: list_ex_iff image_iff) metis
  then show ?case by (auto simp: Cons.IH)
qed simp

lemma enrich_host [simp]: "ns_host (enrich w s) = ns_host s" "ns_id (enrich w s) = ns_id s" "ns_kind (enrich w s) = ns_kind s"
  by (simp_all add: enrich_def Let_def split: option.split)



section \<open>The rows stand for the services\<close>

text \<open>
  Every row of the list is that of the service at its place, with its id, and the selected service is
  one of the list; the signature is that of the services, or cleared.
\<close>

definition row_ok :: "window \<Rightarrow> list_item \<Rightarrow> bool" where
  "row_ok w x \<longleftrightarrow> (case x of Group _ _ \<Rightarrow> True
     | Item _ _ _ i _ _ \<Rightarrow> i < length (vw_fServices w) \<and> x = item_of w i)"

definition window_ok :: "window \<Rightarrow> bool" where
  "window_ok w \<longleftrightarrow> list_all (row_ok w) (vw_list w) \<and>
    set_option (vw_selected w) \<subseteq> set (places (vw_list w)) \<and>
    (vw_fSignature w = [] \<or> vw_fSignature w = signature_of (vw_fServices w))"

definition core :: "window \<Rightarrow> list_item list \<times> NetworkService list \<times> nat option \<times> string" where
  "core w = (vw_list w, vw_fServices w, vw_selected w, vw_fSignature w)"

lemma row_ok_cong: "vw_fServices w' = vw_fServices w \<Longrightarrow> row_ok w' = row_ok w"
  by (simp add: row_ok_def item_of_def fun_eq_iff split: list_item.split)

lemma window_ok_core: "core w' = core w \<Longrightarrow> window_ok w \<Longrightarrow> window_ok w'"
  using row_ok_cong [of w' w] by (simp add: window_ok_def core_def)

lemma to_select_shown: "to_select w i shown = Some n \<Longrightarrow> n \<in> set shown"
proof -
  assume a: "to_select w i shown = Some n"
  let ?ms = "filter (\<lambda>j. i \<noteq> [] \<and> ns_id (vw_fServices w ! j) = i) shown"
  show ?thesis
  proof (cases "?ms = []")
    case True
    then show ?thesis using a by (cases shown) (auto simp: to_select_def split: if_splits)
  next
    case False
    then have "n = last ?ms" using a by (auto simp: to_select_def split: if_splits list.splits)
    then show ?thesis using last_in_set [OF False] by auto
  qed
qed

lemma RebuildList_ok: "vw_fSignature w = [] \<or> vw_fSignature w = signature_of (vw_fServices w) \<Longrightarrow> window_ok (RebuildList w)"
proof -
  assume sig: "vw_fSignature w = [] \<or> vw_fSignature w = signature_of (vw_fServices w)"
  have "row_ok w x" if "x \<in> set (section_of w kind)" for x kind
    using that by (auto simp: row_ok_def section_of_def members_def item_of_def Let_def split: if_splits)
  then have "list_all (row_ok w) (vw_list (RebuildList w))" by (auto simp: list_all_iff)
  moreover have "row_ok (RebuildList w) = row_ok w" by (rule row_ok_cong) simp
  moreover have "set_option (vw_selected (RebuildList w)) \<subseteq> set (places (vw_list (RebuildList w)))"
    unfolding places_RebuildList using to_select_shown by auto
  ultimately show ?thesis using sig by (simp add: window_ok_def del: RebuildList_simps(1,3))
qed

text \<open>What leaves the list, the services, the selection and the signature alone.\<close>

lemma core_kept:
  "core (UpdateDetails w) = core w" "core (fst (StartStatusCheck en w)) = core w" "core (fst (StartIntel en w)) = core w"
  "core (ApplyStatus found w) = core w" "core (SaveManual en w) = core w" "core (SaveMacs en w) = core w"
  "core (fst (OpenSshTerminal en svc w)) = core w" "core (fst (OpenService en svc w)) = core w" "core (fst (OpenRdp en svc w)) = core w"
  "core (fst (WakeSelected en w)) = core w" "core (SetAutostart en on w) = core w"
  by (auto simp: core_def StartStatusCheck_def StartIntel_def ApplyStatus_def SaveManual_def SaveMacs_def OpenSshTerminal_def
      OpenService_def OpenRdp_def WakeSelected_def SetAutostart_def Let_def split: option.splits prod.splits)

lemma ok_kept: "window_ok w \<Longrightarrow> core w' = core w \<Longrightarrow> window_ok w'"
  using window_ok_core by blast

lemma Refresh_ok: "window_ok w \<Longrightarrow> window_ok (fst (Refresh en w))"
proof -
  assume ok: "window_ok w"
  have "window_ok (RebuildList (w\<lparr>vw_fSignature := signature_of hood, vw_fServices := hood, vw_folder := dir\<rparr>))" for hood dir
    by (rule RebuildList_ok) simp
  then show ?thesis using ok ok_kept [OF _ core_kept(2)] by (simp add: Refresh_def Let_def)
qed

lemma cleared_ok: "window_ok w \<Longrightarrow> window_ok (w\<lparr>vw_fSignature := []\<rparr>)"
  using row_ok_cong [of "w\<lparr>vw_fSignature := []\<rparr>" w] by (simp add: window_ok_def)

lemma selected_row_ok: "window_ok w \<Longrightarrow> window_ok (select_row r w)"
proof -
  assume ok: "window_ok w"
  have "i \<in> set (places xs)" if "xs ! r = Item a b c i d e" "r < length xs" for xs i a b c d e
    using nth_mem [OF that(2)] unfolding that(1) by (induction xs) (auto simp: places_def map_filter_simps split: list_item.split option.split)
  then show ?thesis using ok row_ok_cong [of "select_row r w" w] by (auto simp: window_ok_def select_row_def split: list_item.splits)
qed

lemma message_ok: "window_ok w \<Longrightarrow> window_ok (fst (MessageReceived en m w))"
proof -
  assume ok: "window_ok w"
  note kept = core_kept [THEN ok_kept [OF ok]]
  have rebuilt: "window_ok (RebuildList w')" if "core w' = core w" for w'
    using ok_kept [OF ok that] by (intro RebuildList_ok) (simp add: window_ok_def)
  have refreshed: "window_ok (fst (Refresh en w'))" if "window_ok w'" for w' by (rule Refresh_ok) (rule that)
  show ?thesis
  proof (cases m)
    case (M_IntelReady im)
    obtain learned macs where f: "fold learn_mac (im_macs im) (False, vw_fMacByIp w) = (learned, macs)" by (metis prod.exhaust)
    define w1 where "w1 = w\<lparr>vw_fIntelBusy := False, vw_fOuiTried := True,
      vw_fOui := (if vw_fOuiTried w \<or> en_oui en = None then vw_fOui w else LoadFromFile (en_oui en)),
      vw_fMacByIp := macs, vw_fNetbiosByIp := fold (\<lambda>(ip, name). map_put ip name) (im_names im) (vw_fNetbiosByIp w),
      vw_fSsdp := map ssdp_service (im_ssdp im)\<rparr>"
    have "core w1 = core w" by (simp add: core_def w1_def)
    then have "core (if learned then SaveMacs en w1 else w1) = core w" by (simp add: core_kept)
    moreover have "ApplyIntel en im w = Refresh en (if learned then SaveMacs en w1 else w1)"
      by (cases learned; cases "vw_fOuiTried w \<or> en_oui en = None") (simp_all add: ApplyIntel_def Let_def f w1_def)
    ultimately show ?thesis using refreshed [OF ok_kept [OF ok]] by (simp add: M_IntelReady)
  next
    case (M_AddDeviceOk host port name)
    have saved: "window_ok ((SaveManual en (w\<lparr>vw_fManual := ms\<rparr>))\<lparr>vw_fSignature := []\<rparr>)" for ms
      by (rule cleared_ok, rule ok_kept [OF ok]) (simp add: core_kept, simp add: core_def)
    then have "window_ok (fst (StartStatusCheck en (fst (Refresh en ((SaveManual en (w\<lparr>vw_fManual := ms\<rparr>))\<lparr>vw_fSignature := []\<rparr>)))))" for ms
      by (intro ok_kept [OF refreshed core_kept(2)])
    then show ?thesis using ok refreshed saved
      by (simp add: M_AddDeviceOk AddManual_def Let_def split: option.split prod.split) (metis fst_conv)
  next
    case M_RemoveDevice
    have "window_ok ((SaveManual en (w\<lparr>vw_fManual := ms\<rparr>))\<lparr>vw_fSignature := []\<rparr>)" for ms
      by (rule cleared_ok, rule ok_kept [OF ok]) (simp add: core_kept, simp add: core_def)
    then show ?thesis using ok refreshed by (simp add: M_RemoveDevice RemoveSelectedManual_def split: option.split)
  next
    case M_RefreshNow
    have "core (fst (StartIntel en (fst (StartStatusCheck en w)))) = core w" by (simp add: core_kept)
    then show ?thesis using rebuilt by (simp add: M_RefreshNow split: prod.split) (metis fst_conv)
  next
    case (M_Select r)
    then show ?thesis using ok_kept [OF selected_row_ok [OF ok] core_kept(1)] by simp
  next
    case M_Autostart
    have "core ((SetAutostart en on w)\<lparr>vw_fStatus := t\<rparr>) = core w" for on t by (simp add: core_def SetAutostart_def)
    then show ?thesis using ok_kept [OF ok] by (simp add: M_Autostart Let_def)
  qed (use ok kept rebuilt refreshed in \<open>simp_all add: on_selected_def core_def split: option.split\<close>)
qed

lemma messages_ok: "window_ok w \<Longrightarrow> window_ok (fst (messages ms w))"
proof (induction ms w rule: messages.induct)
  case (2 en m ms w)
  then show ?case using message_ok [OF "2.prems", of en m] by (simp split: prod.split) (metis fst_conv)
qed simp

text \<open>
  C37: Whatever messages the window gets, in any surroundings, every row of its list is the row of the
  service at its place, and a command acts on a service of the list.
\<close>

theorem rows_are_services: "window_ok (fst (messages ms (fst (VicinatoWindow en home dir manual macs autostart))))"
proof -
  have "window_ok (new_window home dir manual macs autostart)"
    by (simp add: window_ok_def new_window_def LoadMacs_def LoadManual_def)
  then have "window_ok (fst (VicinatoWindow en home dir manual macs autostart))"
    using ok_kept [OF Refresh_ok core_kept(3)] by (simp add: VicinatoWindow_def split: prod.split) (metis fst_conv)
  then show ?thesis by (rule messages_ok)
qed


section \<open>The files of the window\<close>

lemma fgets_all_line:
  assumes "CHR 0x0A \<notin> set l" "length l + 2 \<le> n"
  shows "fgets_all n (l @ CHR 0x0A # rest) = (l @ [CHR 0x0A]) # fgets_all n rest"
proof -
  obtain k where k: "n - 1 = length l + Suc k" using assms(2) that [of "n - length l - 2"] by simp
  have "take (n - 1) (l @ CHR 0x0A # rest) = l @ CHR 0x0A # take k rest" unfolding k by simp
  moreover have "takeWhile (\<lambda>c. c \<noteq> CHR 0x0A) (l @ CHR 0x0A # take k rest) = l" using assms(1) by (subst takeWhile_append2) auto
  ultimately have "fgets n (l @ CHR 0x0A # rest) = (l @ [CHR 0x0A], rest)" by (simp add: fgets_def Let_def)
  then show ?thesis using assms(2) by (subst fgets_all.simps) simp
qed

lemma fgets_all_lines:
  "list_all (\<lambda>l. CHR 0x0A \<notin> set l \<and> length l + 2 \<le> n) ls \<Longrightarrow>
    fgets_all n (concat (map (\<lambda>l. l @ new_line) ls)) = map (\<lambda>l. l @ new_line) ls"
proof (induction ls)
  case (Cons l ls)
  then show ?case using fgets_all_line [of l n "concat (map (\<lambda>l. l @ new_line) ls)"] by (simp add: new_line_def)
qed (simp add: fgets_all.simps)

text \<open>A device as the dialog makes it, with texts that fit on a line.\<close>

definition hand_made :: "NetworkService \<Rightarrow> bool" where
  "hand_made s \<longleftrightarrow> s = MakeManual (ns_host s) (int (unat (ns_port s))) (ns_label s) \<and> ns_host s \<noteq> [] \<and> ns_label s \<noteq> [] \<and>
    set (ns_host s) \<inter> {CHR 0x00, CHR 0x09, CHR 0x0A, CHR 0x0D} = {} \<and> set (ns_label s) \<inter> {CHR 0x00, CHR 0x0A, CHR 0x0D} = {} \<and>
    length (ns_host s) + length (ns_label s) \<le> 500"

lemma c_str_plain: "CHR 0x00 \<notin> set s \<Longrightarrow> c_str s = s"
  by (auto simp: c_str_def takeWhile_eq_all_conv)

lemma split_at_char: "c \<notin> set a \<Longrightarrow> split_marker [c] (a @ c # b) = Some (a, b)"
  by (induction a) auto

lemma manual_line_read:
  assumes "hand_made s"
  shows "manual_of_line (manual_line s) = Some s"
proof -
  let ?h = "ns_host s" and ?p = "decimal (unat (ns_port s))" and ?l = "ns_label s"
  note h = assms [unfolded hand_made_def]
  have dig: "\<forall>c \<in> set ?p. is_digit c" by (rule decimal_facts)
  then have p: "CHR 0x00 \<notin> set ?p" "CHR 0x09 \<notin> set ?p" by (auto simp: is_digit_def)
  have plain: "c_str ?h = ?h" "c_str ?l = ?l" "c_str ?p = ?p" using h p by (auto simp: c_str_plain)
  have line: "manual_line s = ?h @ CHR 0x09 # ?p @ CHR 0x09 # ?l @ [CHR 0x0A]" using plain by (simp add: manual_line_def new_line_def)
  have nul: "CHR 0x00 \<notin> set (manual_line s)" using h p unfolding line by auto
  have "CHR 0x0A \<notin> set ?l" "CHR 0x0D \<notin> set ?l" using h by auto
  then have "last ?l \<noteq> CHR 0x0A \<and> last ?l \<noteq> CHR 0x0D" using h last_in_set [of ?l] by metis
  moreover obtain c r where cr: "rev ?l = c # r" using h by (metis rev_is_Nil_conv list.exhaust)
  ultimately have "c \<noteq> CHR 0x0A" "c \<noteq> CHR 0x0D" by (metis hd_rev list.sel(1))+
  then have "dropWhile (\<lambda>c. c = CHR 0x0A \<or> c = CHR 0x0D) (rev (manual_line s)) = rev (?h @ CHR 0x09 # ?p @ CHR 0x09 # ?l)"
    unfolding line by (simp add: cr)
  then have stripped: "rev (dropWhile (\<lambda>c. c = CHR 0x0A \<or> c = CHR 0x0D) (rev (c_str (manual_line s)))) = ?h @ CHR 0x09 # ?p @ CHR 0x09 # ?l"
    using c_str_plain [OF nul] by simp
  have "split_marker [CHR 0x09] (?h @ CHR 0x09 # ?p @ CHR 0x09 # ?l) = Some (?h, ?p @ CHR 0x09 # ?l)"
    "split_marker [CHR 0x09] (?p @ CHR 0x09 # ?l) = Some (?p, ?l)" using h p(2) by (auto intro: split_at_char)
  moreover have "unat (ns_port s) < 2 ^ 63" using unsigned_less [of "ns_port s", where 'a = nat] by simp
  then have "strtoll ?p = int (unat (ns_port s))" by (rule strtoll_decimal)
  ultimately show ?thesis unfolding manual_of_line_def Let_def stripped using h plain(3) by simp
qed

text \<open>
  The devices added by hand are the same after the file is written and read again.
\<close>

theorem manual_devices_survive:
  assumes "list_all hand_made (vw_fManual w)" "en_settings en"
  shows "vw_fManual (LoadManual (SaveManual en w)) = vw_fManual w"
proof -
  let ?line = "\<lambda>s. c_str (ns_host s) @ [CHR 0x09] @ decimal (unat (ns_port s)) @ [CHR 0x09] @ c_str (ns_label s)"
  have lines: "manual_line = (\<lambda>s. ?line s @ new_line)" by (simp add: manual_line_def fun_eq_iff)
  have ok: "CHR 0x0A \<notin> set (?line s) \<and> length (?line s) + 2 \<le> 512" if "hand_made s" for s
  proof -
    note h = that [unfolded hand_made_def]
    have "CHR 0x0A \<notin> set (decimal n)" for n using decimal_facts(2) [of n] by (auto simp: is_digit_def)
    moreover have "length (decimal (unat (ns_port s))) \<le> 5" by (rule length_decimal16)
    moreover have "CHR 0x00 \<notin> set (ns_host s)" "CHR 0x00 \<notin> set (ns_label s)" using h by auto
    ultimately show ?thesis using h by (simp add: c_str_plain)
  qed
  have "fgets_all 512 (concat (map manual_line (vw_fManual w))) = map manual_line (vw_fManual w)"
    using fgets_all_lines [of 512 "map ?line (vw_fManual w)"] assms(1) ok unfolding lines by (simp add: list_all_iff comp_def)
  moreover have "List.map_filter manual_of_line (map manual_line ms) = ms" if "list_all hand_made ms" for ms
    using that by (induction ms) (simp_all add: map_filter_simps manual_line_read)
  ultimately show ?thesis using assms by (simp add: LoadManual_def SaveManual_def manual_devices_def)
qed


section \<open>What the code does besides\<close>

text \<open>The signature that tells whether anything changed leaves out addresses and ports: a device that moved stays where it was shown.\<close>

lemma move_unnoticed:
  "signature_of (map (\<lambda>s. s\<lparr>ns_host := host s, ns_port := port s\<rparr>) hood) = signature_of hood"
  by (simp add: signature_of_def comp_def)

lemma filter_the_one: "distinct xs \<Longrightarrow> x \<in> set xs \<Longrightarrow> filter ((=) x) xs = [x]"
  by (induction xs) (auto simp: filter_empty_conv)

text \<open>
  When the list is rebuilt for new services, the selection is looked up by its old place among them: the
  device at that place is selected next.
\<close>

lemma selection_stays_at_place:
  assumes "vw_selected w = Some i" "i < length hood" "distinct (map ns_id hood)" "ns_id (hood ! i) \<noteq> []"
    and "shown_service (w\<lparr>vw_fServices := hood\<rparr>) (hood ! i)"
  shows "Selected (RebuildList (w\<lparr>vw_fServices := hood\<rparr>)) = Some (hood ! i)"
proof -
  let ?w = "w\<lparr>vw_fServices := hood\<rparr>"
  have sel: "Selected ?w = Some (hood ! i)" using assms(1,2) by (simp add: Selected_def)
  have shown: "set (shown_in_order ?w) = {j. j < length hood \<and> shown_service ?w (hood ! j)}" "distinct (shown_in_order ?w)"
    by (auto simp: shown_in_order_def)
  have "filter (\<lambda>j. ns_id (hood ! i) \<noteq> [] \<and> ns_id (hood ! j) = ns_id (hood ! i)) (shown_in_order ?w) = filter ((=) i) (shown_in_order ?w)"
    using assms(2-4) shown(1) by (intro filter_cong) (auto simp: distinct_conv_nth)
  also have "... = [i]" using shown assms(2,5) by (intro filter_the_one) auto
  finally have "vw_selected (RebuildList ?w) = Some i" using sel by (auto simp: to_select_def)
  then show ?thesis using assms(2) by (simp add: Selected_def)
qed

text \<open>The results of a status check leave the list alone, also when only devices online are to be shown.\<close>

lemma status_keeps_list: "vw_list (ApplyStatus found w) = vw_list w"
  by (simp add: ApplyStatus_def Let_def)

text \<open>
  The user that a TXT pair names is the beginning of an argument of \<open>ssh\<close>: one that begins with a minus
  is read as an option.
\<close>

lemma option_for_ssh:
  assumes "ns_host svc \<noteq> []" "ns_txt svc = (''u'', CHR ''-'' # opt) # txt" "CHR 0x00 \<notin> set (opt @ ns_host svc)"
  shows "\<exists>l. snd (OpenSshTerminal en svc w) ! 0 = Launched l \<and>
    l = Launch_App terminal [''-t'', c_str (''SSH '' @ ns_host svc), ''/bin/ssh'', CHR ''-'' # opt @ ''@'' @ ns_host svc]"
proof -
  have "c_str (CHR ''-'' # opt @ ''@'' @ ns_host svc) = CHR ''-'' # opt @ ''@'' @ ns_host svc"
    using assms(3) by (intro c_str_plain) auto
  then show ?thesis using assms(1,2) by (simp add: OpenSshTerminal_def Let_def)
qed

text \<open>
  Of two services with the same label, only the first has a shortcut, and opening the second one opens
  that.
\<close>

lemma shortcut_of_the_first:
  assumes "ns_kind svc2 \<noteq> Kind_Computer" "vw_fShareFolder w \<noteq> []" "ns_label svc2 = ns_label svc1"
    and "en_launches en (Launch_Ref (vw_fShareFolder w @ ''/'' @ file_name svc1))"
  shows "OpenService en svc2 w = (w, [Launched (Launch_Ref (vw_fShareFolder w @ ''/'' @ file_name svc1))])"
proof -
  have "ShortcutName (ns_label svc1) = file_name svc1" by (simp add: ShortcutName_def file_name_def SanitizeFileName_def)
  then show ?thesis using assms by (simp add: OpenService_def Let_def)
qed

end
