(* ===== verification/CastTransport.thy ===== *)
theory CastTransport
  imports MdnsWire
begin

text \<open>
  The sending side of Cast mirroring, \<open>optional/cast/CastTransport.cpp\<close>: the nonce of a frame, the RTP
  packets a frame is split into, their reassembly, and the RTCP reports. AES is OpenSSL's and a parameter;
  16- and 32-bit numbers are written and read as the mDNS codec does.
\<close>

section \<open>Nonces and encryption\<close>

text \<open>The offset is \<open>CAMP_NONCE\<close> as \<open>atoi\<close> reads it, when it is set.\<close>

definition nonce_offset :: "int option \<Rightarrow> nat" where
  "nonce_offset env = (case env of None \<Rightarrow> 8 | Some off \<Rightarrow> if off < 0 \<or> off > 12 then 8 else nat off)"

definition CastNonce :: "int option \<Rightarrow> u32 \<Rightarrow> bytes \<Rightarrow> bytes" where
  "CastNonce env frameId ivMask =
    (let off = nonce_offset env; b = AppendBE32 frameId in
     ivMask[off := (ivMask ! off) XOR (b ! 0), off + 1 := (ivMask ! (off + 1)) XOR (b ! 1),
            off + 2 := (ivMask ! (off + 2)) XOR (b ! 2), off + 3 := (ivMask ! (off + 3)) XOR (b ! 3)])"

record FrameCrypto =
  fc_fKey :: bytes
  fc_fIvMask :: bytes

definition Encrypt :: "(bytes \<Rightarrow> bytes \<Rightarrow> bytes \<Rightarrow> bytes) \<Rightarrow> int option \<Rightarrow> FrameCrypto \<Rightarrow> u32 \<Rightarrow> bytes \<Rightarrow> bytes" where
  "Encrypt aes_ctr env c frameId plain = aes_ctr (fc_fKey c) (CastNonce env frameId (fc_fIvMask c)) plain"

definition Decrypt :: "(bytes \<Rightarrow> bytes \<Rightarrow> bytes \<Rightarrow> bytes) \<Rightarrow> int option \<Rightarrow> FrameCrypto \<Rightarrow> u32 \<Rightarrow> bytes \<Rightarrow> bytes" where
  "Decrypt aes_ctr env c frameId cipher = Encrypt aes_ctr env c frameId cipher"

section \<open>RTP packets\<close>

record RtpHeader =
  rh_payloadType :: u8
  rh_sequenceNumber :: u16
  rh_rtpTimestamp :: u32
  rh_ssrc :: u32
  rh_keyFrame :: bool
  rh_frameId :: u8
  rh_packetId :: u16
  rh_maxPacketId :: u16
  rh_hasReference :: bool
  rh_referenceFrameId :: u8

definition CastHeaderSize :: "bool \<Rightarrow> nat" where
  "CastHeaderSize hasReference = (if hasReference then 7 else 6)"

definition frame_bits :: "RtpHeader \<Rightarrow> u8" where
  "frame_bits h = (if rh_keyFrame h then 0x80 else 0) OR (if rh_hasReference h then 0x40 else 0)"

definition BuildRtpPacket :: "RtpHeader \<Rightarrow> bytes \<Rightarrow> bytes" where
  "BuildRtpPacket h payload =
    [0x80, rh_payloadType h AND 0x7F] @ AppendBE16 (rh_sequenceNumber h) @ AppendBE32 (rh_rtpTimestamp h) @ AppendBE32 (rh_ssrc h)
    @ [frame_bits h, rh_frameId h] @ AppendBE16 (rh_packetId h) @ AppendBE16 (rh_maxPacketId h)
    @ (if rh_hasReference h then [rh_referenceFrameId h] else []) @ payload"

text \<open>The header of the caller is a new one, whose reference is 0.\<close>

definition ParseRtpPacket :: "bytes \<Rightarrow> (RtpHeader \<times> bytes) option" where
  "ParseRtpPacket p =
    (if length p < 18 then None
     else if p ! 0 AND 0xC0 \<noteq> 0x80 then None
     else let hasReference = (p ! 12 AND 0x40 \<noteq> 0);
       h = \<lparr>rh_payloadType = p ! 1 AND 0x7F, rh_sequenceNumber = ReadBE16 p 2, rh_rtpTimestamp = ReadBE32 p 4,
         rh_ssrc = ReadBE32 p 8, rh_keyFrame = (p ! 12 AND 0x80 \<noteq> 0), rh_frameId = p ! 13, rh_packetId = ReadBE16 p 14,
         rh_maxPacketId = ReadBE16 p 16, rh_hasReference = hasReference, rh_referenceFrameId = 0\<rparr>
     in if hasReference then
          if length p < 19 then None else Some (h\<lparr>rh_referenceFrameId := p ! 18\<rparr>, drop 19 p)
        else Some (h, drop 18 p))"

text \<open>What the packets of a frame have in common.\<close>

definition packet_count :: "nat \<Rightarrow> nat \<Rightarrow> nat" where
  "packet_count len maxPayload = (if len = 0 then 1 else (len + maxPayload - 1) div maxPayload)"

definition packet_header :: "RtpHeader \<Rightarrow> nat \<Rightarrow> nat \<Rightarrow> RtpHeader" where
  "packet_header h count i = h\<lparr>rh_sequenceNumber := rh_sequenceNumber h + of_nat i, rh_packetId := of_nat i,
     rh_maxPacketId := of_nat (count - 1)\<rparr>"

definition packet_payload :: "nat \<Rightarrow> bytes \<Rightarrow> nat \<Rightarrow> bytes" where
  "packet_payload maxPayload frame i = take (min maxPayload (length frame - i * maxPayload)) (drop (i * maxPayload) frame)"

text \<open>The header holds the arguments of the call; its sequence number is the first one.\<close>

definition Packetize :: "RtpHeader \<Rightarrow> bytes \<Rightarrow> nat \<Rightarrow> bytes list" where
  "Packetize h encryptedFrame maxPacketBytes =
    (let headerBytes = 12 + CastHeaderSize (rh_hasReference h) in
     if maxPacketBytes \<le> headerBytes then []
     else let maxPayload = maxPacketBytes - headerBytes;
              count = packet_count (length encryptedFrame) maxPayload
       in map (\<lambda>i. BuildRtpPacket (packet_header h count i) (packet_payload maxPayload encryptedFrame i)) [0..<count])"

fun gather :: "bytes list \<Rightarrow> int \<Rightarrow> (u16, bytes) std_map \<Rightarrow> (int \<times> (u16, bytes) std_map) option" where
  "gather [] expectedMax byId = Some (expectedMax, byId)"
| "gather (pkt # packets) expectedMax byId = (case ParseRtpPacket pkt of None \<Rightarrow> None
    | Some (h, payload) \<Rightarrow>
        if expectedMax < 0 then gather packets (uint (rh_maxPacketId h)) (map_put (rh_packetId h) payload byId)
        else if expectedMax \<noteq> uint (rh_maxPacketId h) then None
        else gather packets expectedMax (map_put (rh_packetId h) payload byId))"

definition Reassemble :: "bytes list \<Rightarrow> bytes" where
  "Reassemble packets = (case gather packets (- 1) [] of None \<Rightarrow> []
    | Some (expectedMax, byId) \<Rightarrow>
        if expectedMax < 0 then []
        else if length byId \<noteq> nat expectedMax + 1 then []
        else (case those (map (\<lambda>i. map_of byId (of_nat i)) [0..<nat expectedMax + 1]) of
            None \<Rightarrow> [] | Some payloads \<Rightarrow> concat payloads))"

section \<open>RTCP reports\<close>

definition BuildSenderReport :: "u32 \<Rightarrow> u32 \<Rightarrow> u32 \<Rightarrow> u32 \<Rightarrow> u32 \<Rightarrow> u32 \<Rightarrow> bytes" where
  "BuildSenderReport ssrc ntpSeconds ntpFraction rtpTimestamp packetCount octetCount =
    [0x80, 200] @ AppendBE16 6 @ AppendBE32 ssrc @ AppendBE32 ntpSeconds @ AppendBE32 ntpFraction
    @ AppendBE32 rtpTimestamp @ AppendBE32 packetCount @ AppendBE32 octetCount"

definition BuildXrDlrr :: "u32 \<Rightarrow> u32 \<Rightarrow> u32 \<Rightarrow> u32 \<Rightarrow> bytes" where
  "BuildXrDlrr senderSsrc receiverSsrc lastRr delay =
    [0x80, 207] @ AppendBE16 5 @ AppendBE32 senderSsrc @ [5, 0] @ AppendBE16 3
    @ AppendBE32 receiverSsrc @ AppendBE32 lastRr @ AppendBE32 delay"

text \<open>The length field counts the words behind the first one.\<close>

lemma report_lengths:
  "length (BuildSenderReport a b c d e f) = 4 * (6 + 1)" "length (BuildXrDlrr a b c d) = 4 * (5 + 1)"
  by (simp_all add: BuildSenderReport_def BuildXrDlrr_def AppendBE16_def AppendBE32_def)

section \<open>Nonces\<close>

lemma xor_inject: "(x XOR a = x XOR b) = (a = (b :: u8))"
proof
  assume "x XOR a = x XOR b"
  then have "x XOR (x XOR a) = x XOR (x XOR b)" by (rule arg_cong)
  then show "a = b" by (simp flip: xor.assoc)
qed simp

lemma AppendBE32_inject: "AppendBE32 a = AppendBE32 b \<Longrightarrow> a = b"
  using ReadBE32_at [of 0 "AppendBE32 a" a "[]"] ReadBE32_at [of 0 "AppendBE32 a" b "[]"] by simp

lemma length_CastNonce: "length (CastNonce env i iv) = length iv"
  by (simp add: CastNonce_def Let_def)

lemma nonce_offset_below: "nonce_offset env \<le> 12"
  by (auto simp: nonce_offset_def split: option.split)

lemma less_four: "k < 4 \<Longrightarrow> k = 0 \<or> k = 1 \<or> k = 2 \<or> k = (3 :: nat)"
  by linarith

lemma nth_four: "k < 4 \<Longrightarrow> [f 0, f 1, f 2, f 3] ! k = f k"
  by (drule less_four) auto

lemma nth_four_updates:
  "off + 3 < length xs \<Longrightarrow> k < 4 \<Longrightarrow> xs[off := b0, off + 1 := b1, off + 2 := b2, off + 3 := b3] ! (off + k) = [b0, b1, b2, b3] ! k"
  by (drule less_four) (elim disjE; simp add: nth_list_update)

text \<open>No two frames of a stream share a nonce, which is what counter mode rests on.\<close>

theorem nonces_differ:
  assumes "length iv = 16" "CastNonce env i iv = CastNonce env j iv"
  shows "i = j"
proof -
  let ?o = "nonce_offset env"
  have off: "?o + 3 < length iv" using nonce_offset_below [of env] assms(1) by simp
  have at: "CastNonce env i iv ! (?o + k) = (iv ! (?o + k)) XOR (AppendBE32 i ! k)" if k: "k < 4" for i k
  proof -
    define f where "f m = (iv ! (?o + m)) XOR (AppendBE32 i ! m)" for m
    have "CastNonce env i iv ! (?o + k) = [f 0, f 1, f 2, f 3] ! k"
      unfolding CastNonce_def Let_def f_def add_0_right by (rule nth_four_updates [OF off k])
    also have "\<dots> = f k" by (rule nth_four [OF k])
    finally show ?thesis by (simp only: f_def)
  qed
  have "AppendBE32 i = AppendBE32 j"
  proof (rule nth_equalityI)
    fix k assume "k < length (AppendBE32 i)"
    then have k: "k < 4" by simp
    have "(iv ! (?o + k)) XOR (AppendBE32 i ! k) = (iv ! (?o + k)) XOR (AppendBE32 j ! k)"
      using at [OF k] assms(2) by metis
    then show "AppendBE32 i ! k = AppendBE32 j ! k" by (simp only: xor_inject)
  qed simp
  then show ?thesis by (rule AppendBE32_inject)
qed

section \<open>Packets arrive\<close>

lemma frame_bits_back: "frame_bits h AND 0x80 \<noteq> 0 \<longleftrightarrow> rh_keyFrame h" "frame_bits h AND 0x40 \<noteq> 0 \<longleftrightarrow> rh_hasReference h"
  by (simp_all add: frame_bits_def)

text \<open>What of a header is on the wire.\<close>

definition sent_header :: "RtpHeader \<Rightarrow> RtpHeader" where
  "sent_header h = \<lparr>rh_payloadType = rh_payloadType h AND 0x7F, rh_sequenceNumber = rh_sequenceNumber h,
     rh_rtpTimestamp = rh_rtpTimestamp h, rh_ssrc = rh_ssrc h, rh_keyFrame = rh_keyFrame h, rh_frameId = rh_frameId h,
     rh_packetId = rh_packetId h, rh_maxPacketId = rh_maxPacketId h, rh_hasReference = rh_hasReference h,
     rh_referenceFrameId = (if rh_hasReference h then rh_referenceFrameId h else 0)\<rparr>"

lemma packet_back: "ParseRtpPacket (BuildRtpPacket h payload) = Some (sent_header h, payload)"
proof -
  let ?p = "BuildRtpPacket h payload"
  have r16: "ReadBE16 ?p 2 = rh_sequenceNumber h" "ReadBE16 ?p 14 = rh_packetId h" "ReadBE16 ?p 16 = rh_maxPacketId h"
    by (rule ReadBE16_at; simp add: BuildRtpPacket_def)+
  have r32: "ReadBE32 ?p 4 = rh_rtpTimestamp h" "ReadBE32 ?p 8 = rh_ssrc h"
    by (rule ReadBE32_at; simp add: BuildRtpPacket_def)+
  have at: "?p ! 0 = 0x80" "?p ! Suc 0 = rh_payloadType h AND 0x7F" "?p ! 12 = frame_bits h" "?p ! 13 = rh_frameId h"
    by (simp_all add: BuildRtpPacket_def nth_append nth_Cons')
  have len: "length ?p = 18 + (if rh_hasReference h then 1 else 0) + length payload" by (simp add: BuildRtpPacket_def)
  show ?thesis
  proof (cases "rh_hasReference h")
    case True
    have "?p ! 18 = rh_referenceFrameId h" "drop 19 ?p = payload" using True by (simp_all add: BuildRtpPacket_def nth_append nth_Cons')
    then show ?thesis using True frame_bits_back [of h] by (simp add: ParseRtpPacket_def Let_def r16 r32 at len sent_header_def)
  next
    case False
    have "drop 18 ?p = payload" using False by (simp add: BuildRtpPacket_def)
    then show ?thesis using False frame_bits_back [of h] by (simp add: ParseRtpPacket_def Let_def r16 r32 at len sent_header_def)
  qed
qed

lemma payloads_frame:
  assumes "m > 0" "n = packet_count (length frame) m"
  shows "concat (map (packet_payload m frame) [0..<n]) = frame"
proof -
  have p: "packet_payload m frame = (\<lambda>i. take m (drop (i * m) frame))" by (auto simp: packet_payload_def fun_eq_iff min_def)
  have "concat (map (\<lambda>i. take m (drop (i * m) xs)) [0..<n]) = take (n * m) xs" for n and xs :: bytes
    by (induction n) (simp_all add: take_add [symmetric] add.commute)
  moreover have "length frame \<le> n * m"
  proof (cases "length frame = 0")
    case False
    have "length frame \<le> (length frame + m - 1) div m * m"
      using assms(1) div_mult_mod_eq [of "length frame + m - 1" m] mod_less_divisor [of m "length frame + m - 1"] by linarith
    then show ?thesis using False assms(2) by (simp add: packet_count_def)
  qed simp
  ultimately show ?thesis by (simp add: p)
qed

text \<open>The packets of a frame, by their index.\<close>

definition frame_packet :: "RtpHeader \<Rightarrow> bytes \<Rightarrow> nat \<Rightarrow> nat \<Rightarrow> nat \<Rightarrow> bytes" where
  "frame_packet h frame m n i = BuildRtpPacket (packet_header h n i) (packet_payload m frame i)"

lemma small_id: "i < n \<Longrightarrow> n \<le> 65536 \<Longrightarrow> unat (of_nat i :: u16) = i"
  by (simp add: unat_of_nat)

lemma ids_inject: "i < n \<Longrightarrow> j < n \<Longrightarrow> n \<le> 65536 \<Longrightarrow> (of_nat i :: u16) = of_nat j \<longleftrightarrow> i = j"
  using small_id [of i n] small_id [of j n] by metis

lemma gather_packets:
  assumes "n \<le> 65536" "n > 0"
  shows "set is \<subseteq> {..<n} \<Longrightarrow> e = int (n - 1) \<or> e = - 1 \<Longrightarrow>
    gather (map (frame_packet h frame m n) is) e byId =
      Some (if is = [] then e else int (n - 1), fold (\<lambda>i. map_put (of_nat i) (packet_payload m frame i)) is byId)"
proof (induction "is" arbitrary: e byId)
  case (Cons i "is")
  have "uint (of_nat (n - 1) :: u16) = int (n - 1)" using small_id [of "n - 1" n] assms by (metis diff_less uint_nat zero_less_one)
  then have "ParseRtpPacket (frame_packet h frame m n i) = Some (sent_header (packet_header h n i), packet_payload m frame i) \<and>
      uint (rh_maxPacketId (sent_header (packet_header h n i))) = int (n - 1) \<and>
      rh_packetId (sent_header (packet_header h n i)) = of_nat i"
    by (simp add: frame_packet_def packet_back sent_header_def packet_header_def)
  then show ?case using Cons by auto
qed simp

lemma fold_put:
  assumes "n \<le> 65536"
  shows "set is \<subseteq> {..<n} \<Longrightarrow> j < n \<Longrightarrow> map_of (fold (\<lambda>i. map_put (of_nat i :: u16) (f i)) is byId) (of_nat j) =
    (if j \<in> set is then Some (f j) else map_of byId (of_nat j))"
  by (induction "is" arbitrary: byId) (auto simp: ids_inject [OF _ _ assms])

lemma fold_put_keys: "map_ok byId \<Longrightarrow> map_ok (fold (\<lambda>i. map_put (k i) (f i)) is byId) \<and>
    fst ` set (fold (\<lambda>i. map_put (k i) (f i)) is byId) = k ` set is \<union> fst ` set byId"
  by (induction "is" arbitrary: byId) auto

lemma map_ok_length: "map_ok m \<Longrightarrow> length m = card (fst ` set m)"
  by (metis distinct_card length_map list.set_map map_ok_def)

lemma those_Some: "those (map Some xs) = Some xs"
  by (induction xs) simp_all

lemma reassembled:
  assumes n: "n \<le> 65536" "n = packet_count (length frame) m" and m: "m > 0" and "is": "set is \<subseteq> {..<n}"
  shows "Reassemble (map (frame_packet h frame m n) is) = (if set is = {..<n} then frame else [])"
proof -
  have pos: "n > 0" using n(2) m by (auto simp: packet_count_def div_greater_zero_iff neq_Nil_conv)
  let ?byId = "fold (\<lambda>i. map_put (of_nat i :: u16) (packet_payload m frame i)) is []"
  have g: "gather (map (frame_packet h frame m n) is) (- 1) [] = Some (if is = [] then - 1 else int (n - 1), ?byId)"
    by (rule gather_packets [OF n(1) pos "is"]) simp
  have inj: "inj_on (of_nat :: nat \<Rightarrow> u16) (set is)" using "is" ids_inject [OF _ _ n(1)] by (auto simp: inj_on_def subset_iff)
  have keys: "map_ok ?byId" "fst ` set ?byId = of_nat ` set is" using fold_put_keys [of "[] :: (u16, bytes) std_map" of_nat "packet_payload m frame" "is"] by simp_all
  then have len: "length ?byId = card (set is)" by (simp add: map_ok_length card_image [OF inj])
  show ?thesis
  proof (cases "set is = {..<n}")
    case True
    then have "map_of ?byId (of_nat i) = Some (packet_payload m frame i)" if "i < n" for i
      using fold_put [OF n(1) "is" that] that by simp
    then have all: "map (\<lambda>i. map_of ?byId (of_nat i)) [0..<n] = map Some (map (packet_payload m frame) [0..<n])" by simp
    have "those (map (\<lambda>i. map_of ?byId (of_nat i)) [0..<n]) = Some (map (packet_payload m frame) [0..<n])"
      unfolding all by (rule those_Some)
    moreover have "is \<noteq> []" using True pos by (cases "is") auto
    moreover have "length ?byId = n" using True len by simp
    moreover have "nat (int (n - 1)) + 1 = n" using pos by simp
    moreover have "concat (map (packet_payload m frame) [0..<n]) = frame" by (rule payloads_frame [OF m n(2)])
    ultimately show ?thesis using True by (simp only: Reassemble_def g option.case prod.case if_False simp_thms) simp
  next
    case False
    then have "card (set is) < n" using "is" psubset_card_mono [of "{..<n}" "set is"] by auto
    then show ?thesis using False pos len by (auto simp: Reassemble_def g)
  qed
qed

lemma list_of_image: "set xs \<subseteq> f ` A \<Longrightarrow> \<exists>is. xs = map f is \<and> set is \<subseteq> A"
proof (induction xs)
  case (Cons x xs)
  then obtain i "is" where "x = f i" "i \<in> A" "xs = map f is" "set is \<subseteq> A" by auto
  then show ?case by (intro exI [of _ "i # is"]) simp
qed simp

text \<open>
  A frame or nothing: from any of its packets, in any order and repeated at will, the frame is put
  together if none is missing, and otherwise nothing is.
\<close>

theorem frame_or_nothing:
  assumes "12 + CastHeaderSize (rh_hasReference h) < maxPacketBytes"
    "length (Packetize h frame maxPacketBytes) \<le> 65536"
    "set packets \<subseteq> set (Packetize h frame maxPacketBytes)"
  shows "Reassemble packets = (if set (Packetize h frame maxPacketBytes) \<subseteq> set packets then frame else [])"
proof -
  define m where "m = maxPacketBytes - (12 + CastHeaderSize (rh_hasReference h))"
  define n where "n = packet_count (length frame) m"
  have m: "m > 0" using assms(1) by (simp add: m_def)
  have P: "Packetize h frame maxPacketBytes = map (frame_packet h frame m n) [0..<n]"
    using assms(1) by (simp add: Packetize_def Let_def frame_packet_def [abs_def] m_def n_def)
  have n: "n \<le> 65536" using assms(2) by (simp add: P)
  have "set packets \<subseteq> frame_packet h frame m n ` {..<n}" using assms(3) by (simp add: P atLeast0LessThan)
  then obtain "is" where "is": "packets = map (frame_packet h frame m n) is" "set is \<subseteq> {..<n}"
    using list_of_image by metis
  have inj: "i = j" if "frame_packet h frame m n i = frame_packet h frame m n j" "i < n" "j < n" for i j
  proof -
    have "sent_header (packet_header h n i) = sent_header (packet_header h n j)"
      using that(1) packet_back by (metis frame_packet_def option.inject prod.inject)
    then have "(of_nat i :: u16) = of_nat j" by (simp add: sent_header_def packet_header_def)
    then show ?thesis using ids_inject [OF that(2,3) n] by simp
  qed
  have "set (Packetize h frame maxPacketBytes) \<subseteq> set packets \<longleftrightarrow> set is = {..<n}"
  proof
    assume *: "set (Packetize h frame maxPacketBytes) \<subseteq> set packets"
    have "j \<in> set is" if j: "j < n" for j
    proof -
      have "frame_packet h frame m n j \<in> set packets" using * j by (auto simp: P)
      then obtain i where "i \<in> set is" "frame_packet h frame m n j = frame_packet h frame m n i" by (auto simp: "is"(1))
      then show ?thesis using inj [of j i] j "is"(2) by auto
    qed
    then show "set is = {..<n}" using "is"(2) by auto
  next
    assume "set is = {..<n}"
    then show "set (Packetize h frame maxPacketBytes) \<subseteq> set packets" by (simp add: P "is"(1) atLeast0LessThan)
  qed
  then show ?thesis using reassembled [OF n n_def m "is"(2), of h] "is"(1) by simp
qed

end
