(* ===== verification/CastChannel.thy ===== *)
theory CastChannel
  imports Radar
begin

text \<open>
  The Cast control channel, \<open>optional/cast/CastChannel.cpp\<close>: the protobuf codec of its messages, the
  length-prefixed frames on the TLS stream, the readers of JSON fields, and the loop that waits for a
  reply and answers heartbeats. What OpenSSL and the network deliver is the argument of the reading
  functions; a size is 64 bits wide.
\<close>

section \<open>Varints\<close>

function PutVarint :: "u64 \<Rightarrow> bytes" where
  "PutVarint v = (if v \<ge> 0x80 then (ucast (v AND 0x7F) OR 0x80) # PutVarint (drop_bit 7 v) else [ucast v])"
  by pat_completeness auto
termination
proof (relation "measure unat")
  fix v :: u64
  assume "v \<ge> 0x80"
  then have "unat v \<ge> 128" by (simp add: word_le_nat_alt)
  moreover have "unat (drop_bit 7 v) = unat v div 2 ^ 7" by (metis unat_drop_bit_eq drop_bit_eq_div)
  ultimately show "(drop_bit 7 v, v) \<in> measure unat" by simp
qed simp

declare PutVarint.simps [simp del]

text \<open>The bytes from the read position on, the shift and the value so far; the value and what is left.\<close>

fun get_varint :: "bytes \<Rightarrow> nat \<Rightarrow> u64 \<Rightarrow> (u64 \<times> bytes) option" where
  "get_varint [] shift out = None"
| "get_varint (b # bs) shift out =
    (let out = out OR push_bit shift (ucast (b AND 0x7F)) in
     if b AND 0x80 = 0 then Some (out, bs)
     else if shift + 7 > 63 then None
     else get_varint bs (shift + 7) out)"

definition GetVarint :: "bytes \<Rightarrow> (u64 \<times> bytes) option" where
  "GetVarint bs = get_varint bs 0 0"

section \<open>Messages\<close>

definition PutTag :: "u64 \<Rightarrow> u64 \<Rightarrow> bytes" where
  "PutTag field wireType = PutVarint (push_bit 3 field OR wireType)"

definition PutString :: "u64 \<Rightarrow> bytes \<Rightarrow> bytes" where
  "PutString field s = PutTag field 2 @ PutVarint (of_nat (length s)) @ s"

record CastMessage =
  cm_source :: bytes
  cm_destination :: bytes
  cm_nameSpace :: bytes
  cm_payload :: bytes

definition CastMessage :: CastMessage where
  "CastMessage = \<lparr>cm_source = [], cm_destination = [], cm_nameSpace = [], cm_payload = []\<rparr>"

definition EncodeCastMessage :: "bytes \<Rightarrow> bytes \<Rightarrow> bytes \<Rightarrow> bytes \<Rightarrow> bytes" where
  "EncodeCastMessage nameSpace source destination payload =
    PutTag 1 0 @ PutVarint 0 @ PutString 2 source @ PutString 3 destination @ PutString 4 nameSpace
    @ PutTag 5 0 @ PutVarint 0 @ PutString 6 payload"

text \<open>A decoder returns, or throws when it asks for a string longer than any string can be.\<close>

datatype cast_outcome = Decoded CastMessage | Malformed | LengthError

definition max_string :: nat where "max_string = 2 ^ 63 - 2"

definition set_part :: "u32 \<Rightarrow> bytes \<Rightarrow> CastMessage \<Rightarrow> CastMessage" where
  "set_part field s out =
    (if field = 2 then out\<lparr>cm_source := s\<rparr>
     else if field = 3 then out\<lparr>cm_destination := s\<rparr>
     else if field = 4 then out\<lparr>cm_nameSpace := s\<rparr>
     else if field = 6 then out\<lparr>cm_payload := s\<rparr>
     else out)"

lemma get_varint_shorter: "get_varint bs shift out = Some (v, r) \<Longrightarrow> length r < length bs"
  by (induction bs shift out rule: get_varint.induct) (auto simp: Let_def split: if_splits)

text \<open>
  The loop, on the length of the buffer and what is left of it: the read position is the difference.
  \<open>i + sz > len\<close> is a comparison of 64-bit numbers.
\<close>

function decode_fields :: "nat \<Rightarrow> bytes \<Rightarrow> CastMessage \<Rightarrow> cast_outcome" where
  "decode_fields len bs out =
    (if bs = [] then Decoded out
     else case GetVarint bs of None \<Rightarrow> Malformed
     | Some (tag, bs1) \<Rightarrow>
         let field = (ucast (drop_bit 3 tag) :: u32); wt = tag AND 7 in
         if wt = 0 then (case GetVarint bs1 of None \<Rightarrow> Malformed | Some (_, bs2) \<Rightarrow> decode_fields len bs2 out)
         else if wt = 2 then (case GetVarint bs1 of None \<Rightarrow> Malformed
           | Some (sz, bs2) \<Rightarrow>
               if of_nat (len - length bs2) + sz > of_nat len then Malformed
               else if unat sz > max_string then LengthError
               else decode_fields len (drop (unat sz) bs2) (set_part field (take (unat sz) bs2) out))
         else if wt = 5 then decode_fields len (drop 4 bs1) out
         else if wt = 1 then decode_fields len (drop 8 bs1) out
         else Malformed)"
  by pat_completeness auto
termination
  by (relation "measure (\<lambda>(len, bs, out). length bs)")
    (auto simp: GetVarint_def dest!: get_varint_shorter)

declare decode_fields.simps [simp del]

definition DecodeCastMessage :: "bytes \<Rightarrow> cast_outcome" where
  "DecodeCastMessage bs = decode_fields (length bs) bs CastMessage"

section \<open>Frames\<close>

definition kMaxFrame :: nat where "kMaxFrame = 2 ^ 20"

text \<open>What goes to \<open>SSL_write\<close>; the length is cut to 32 bits.\<close>

definition WriteFrame :: "bytes \<Rightarrow> bytes" where
  "WriteFrame bs = AppendBE32 (of_nat (length bs)) @ bs"

text \<open>
  What \<open>SSL_read\<close> finds: a record it takes bytes from, keeping the rest, or a time-out or end. Beyond
  the list nothing ever comes and every read fails.
\<close>

datatype incoming = Record bytes | NoData

text \<open>\<open>readExact\<close>: the bytes, when all of them came, and what is left.\<close>

function readExact :: "nat \<Rightarrow> incoming list \<Rightarrow> bytes option \<times> incoming list" where
  "readExact need [] = (if need = 0 then Some [] else None, [])"
| "readExact need (NoData # ins) = (if need = 0 then (Some [], NoData # ins) else (None, ins))"
| "readExact need (Record d # ins) =
    (if need = 0 then (Some [], Record d # ins)
     else if d = [] then (None, ins)
     else if length d \<le> need then
       (case readExact (need - length d) ins of (r, ins') \<Rightarrow> (map_option ((@) d) r, ins'))
     else (Some (take need d), Record (drop need d) # ins))"
  by pat_completeness auto
termination
  by (relation "measure (length \<circ> snd)") auto

definition ReadFrame :: "incoming list \<Rightarrow> bytes option \<times> incoming list" where
  "ReadFrame ins = (case readExact 4 ins of
     (None, ins) \<Rightarrow> (None, ins)
   | (Some hdr, ins) \<Rightarrow> let len = unat (ReadBE32 hdr 0) in
       if len = 0 \<or> len > kMaxFrame then (None, ins) else readExact len ins)"

section \<open>Fields of JSON text\<close>

text \<open>What follows the colon behind the first occurrence of the quoted key.\<close>

definition FindKey :: "string \<Rightarrow> string \<Rightarrow> string option" where
  "FindKey json key = (case split_marker ([CHR 0x22] @ key @ [CHR 0x22]) json of None \<Rightarrow> None
    | Some (_, rest) \<Rightarrow> (case split_marker '':'' rest of None \<Rightarrow> None | Some (_, after) \<Rightarrow> Some after))"

definition skip_blanks :: "string \<Rightarrow> string" where
  "skip_blanks s = dropWhile (\<lambda>c. c = CHR '' '' \<or> c = CHR 0x09) s"

text \<open>The text of a string up to its closing quote; a backslash takes the next character as it is.\<close>

fun unquote :: "string \<Rightarrow> string" where
  "unquote [] = []"
| "unquote [c] = (if c = CHR 0x22 then [] else [c])"
| "unquote (c # d # s) = (if c = CHR 0x5C then d # unquote s else if c = CHR 0x22 then [] else c # unquote (d # s))"

definition CastJsonString :: "string \<Rightarrow> string \<Rightarrow> string" where
  "CastJsonString json key = (case FindKey json key of None \<Rightarrow> []
    | Some s \<Rightarrow> (case skip_blanks s of [] \<Rightarrow> [] | c # t \<Rightarrow> if c \<noteq> CHR 0x22 then [] else unquote t))"

definition number_char :: "char \<Rightarrow> bool" where
  "number_char c \<longleftrightarrow> is_digit c \<or> c = CHR ''-'' \<or> c = CHR ''+'' \<or> c = CHR ''.'' \<or> c = CHR ''e'' \<or> c = CHR ''E''"

text \<open>The text that is given to \<open>strtod\<close>.\<close>

definition CastJsonNumber :: "string \<Rightarrow> string \<Rightarrow> string option" where
  "CastJsonNumber json key = (case FindKey json key of None \<Rightarrow> None
    | Some s \<Rightarrow> let n = takeWhile number_char (skip_blanks s) in if n = [] then None else Some n)"

section \<open>The channel\<close>

definition kNsConnection :: string where "kNsConnection = ''urn:x-cast:com.google.cast.tp.connection''"
definition kNsHeartbeat :: string where "kNsHeartbeat = ''urn:x-cast:com.google.cast.tp.heartbeat''"
definition kNsReceiver :: string where "kNsReceiver = ''urn:x-cast:com.google.cast.receiver''"
definition kNsMedia :: string where "kNsMedia = ''urn:x-cast:com.google.cast.media''"

text \<open>JSON text in which a back quote is written for the quotation mark.\<close>

definition quoted :: "string \<Rightarrow> string" where
  "quoted s = map (\<lambda>c. if c = CHR 0x60 then CHR 0x22 else c) s"

definition SendJson :: "string \<Rightarrow> string \<Rightarrow> string \<Rightarrow> bytes" where
  "SendJson nameSpace destination payload = WriteFrame (EncodeCastMessage (bytes_of_string nameSpace) (bytes_of_string ''sender-0'')
     (bytes_of_string destination) (bytes_of_string payload))"

text \<open>What a wait came to: a payload or the deadline, or an exception of the decoder.\<close>

datatype waited = Reply string | TimedOut | Threw

definition is_ping :: "CastMessage \<Rightarrow> bool" where
  "is_ping m \<longleftrightarrow> string_of_bytes (cm_nameSpace m) = kNsHeartbeat \<and> contains (string_of_bytes (cm_payload m)) ''PING''"

definition wanted :: "string \<Rightarrow> string \<Rightarrow> CastMessage \<Rightarrow> bool" where
  "wanted wantNamespace wantType m \<longleftrightarrow> string_of_bytes (cm_nameSpace m) = wantNamespace \<and>
     (wantType = [] \<or> contains (string_of_bytes (cm_payload m)) (quoted (''`type`:`'' @ wantType @ ''`'')))"

definition pong :: "CastMessage \<Rightarrow> bytes" where
  "pong m = SendJson kNsHeartbeat (if cm_source m = [] then ''receiver-0'' else string_of_bytes (cm_source m)) (quoted ''{`type`:`PONG`}'')"

text \<open>At most \<open>n\<close> turns before the deadline. The result comes with what was written and what is left.\<close>

fun ReadUntil :: "string \<Rightarrow> string \<Rightarrow> nat \<Rightarrow> incoming list \<Rightarrow> waited \<times> bytes \<times> incoming list" where
  "ReadUntil wantNamespace wantType 0 ins = (TimedOut, [], ins)"
| "ReadUntil wantNamespace wantType (Suc n) ins = (case ReadFrame ins of
     (None, ins) \<Rightarrow> ReadUntil wantNamespace wantType n ins
   | (Some frame, ins) \<Rightarrow> (case DecodeCastMessage frame of
       Malformed \<Rightarrow> ReadUntil wantNamespace wantType n ins
     | LengthError \<Rightarrow> (Threw, [], ins)
     | Decoded m \<Rightarrow>
         if is_ping m then (case ReadUntil wantNamespace wantType n ins of (w, sent, ins) \<Rightarrow> (w, pong m @ sent, ins))
         else if wanted wantNamespace wantType m then (Reply (string_of_bytes (cm_payload m)), [], ins)
         else ReadUntil wantNamespace wantType n ins))"

record CastStatus =
  cs_volumeLevel :: "string option"
  cs_muted :: bool
  cs_appId :: string
  cs_displayName :: string
  cs_statusText :: string
  cs_sessionId :: string
  cs_transportId :: string

text \<open>The level is the text \<open>strtod\<close> is given, when there is one.\<close>

definition ParseReceiverStatus :: "string \<Rightarrow> CastStatus" where
  "ParseReceiverStatus json = \<lparr>cs_volumeLevel = CastJsonNumber json ''level'',
     cs_muted = contains json (quoted ''`muted`:true''), cs_appId = CastJsonString json ''appId'',
     cs_displayName = CastJsonString json ''displayName'', cs_statusText = CastJsonString json ''statusText'',
     cs_sessionId = CastJsonString json ''sessionId'', cs_transportId = CastJsonString json ''transportId''\<rparr>"

text \<open>The requests of a channel are numbered from 1; the buffers of the texts are cut as \<open>snprintf\<close> does.\<close>

definition GetStatus :: "int \<Rightarrow> nat \<Rightarrow> incoming list \<Rightarrow> CastStatus option \<times> bytes \<times> incoming list" where
  "GetStatus requestId n ins =
    (let req = SendJson kNsReceiver ''receiver-0''
           (take 95 (quoted ''{`type`:`GET_STATUS`,`requestId`:'' @ decimal (nat requestId) @ ''}''))
     in case ReadUntil kNsReceiver ''RECEIVER_STATUS'' n ins of
       (Reply payload, sent, ins) \<Rightarrow> (if payload = [] then None else Some (ParseReceiverStatus payload), req @ sent, ins)
     | (_, sent, ins) \<Rightarrow> (None, req @ sent, ins))"

definition StopApp :: "string \<Rightarrow> int \<Rightarrow> nat \<Rightarrow> incoming list \<Rightarrow> bool \<times> bytes \<times> incoming list" where
  "StopApp sessionId requestId n ins =
    (if sessionId = [] then (False, [], ins)
     else let req = SendJson kNsReceiver ''receiver-0''
         (take 191 (quoted ''{`type`:`STOP`,`sessionId`:`'' @ c_str sessionId @ quoted ''`,`requestId`:'' @ decimal (nat requestId) @ ''}''))
     in case ReadUntil kNsReceiver ''RECEIVER_STATUS'' n ins of
       (Reply payload, sent, ins) \<Rightarrow> (payload \<noteq> [], req @ sent, ins)
     | (_, sent, ins) \<Rightarrow> (False, req @ sent, ins))"

text \<open>The waits for a status that names the app, each with its turns.\<close>

fun await_app :: "string \<Rightarrow> nat list \<Rightarrow> incoming list \<Rightarrow> waited \<times> bytes \<times> incoming list" where
  "await_app appId [] ins = (TimedOut, [], ins)"
| "await_app appId (n # ns) ins = (case ReadUntil kNsReceiver ''RECEIVER_STATUS'' n ins of
     (Threw, sent, ins) \<Rightarrow> (Threw, sent, ins)
   | (TimedOut, sent, ins) \<Rightarrow> (case await_app appId ns ins of (w, sent', ins) \<Rightarrow> (w, sent @ sent', ins))
   | (Reply payload, sent, ins) \<Rightarrow>
       if payload = [] \<or> \<not> contains payload appId \<or> CastJsonString payload ''transportId'' = [] then
         (case await_app appId ns ins of (w, sent', ins) \<Rightarrow> (w, sent @ sent', ins))
       else (Reply (CastJsonString payload ''transportId''), sent, ins))"

definition LaunchAppById :: "string \<Rightarrow> int \<Rightarrow> nat list \<Rightarrow> incoming list \<Rightarrow> waited \<times> bytes \<times> incoming list" where
  "LaunchAppById appId requestId ns ins =
    (let launch = SendJson kNsReceiver ''receiver-0''
         (take 159 (quoted ''{`type`:`LAUNCH`,`appId`:`'' @ c_str appId @ quoted ''`,`requestId`:'' @ decimal (nat requestId) @ ''}''))
     in case await_app appId ns ins of
       (Reply transportId, sent, ins) \<Rightarrow>
         (Reply transportId, launch @ sent @ SendJson kNsConnection transportId (quoted ''{`type`:`CONNECT`}''), ins)
     | (w, sent, ins) \<Rightarrow> (w, launch @ sent, ins))"

text \<open>The text of a LOAD. Address, type and title go in as they are.\<close>

definition load_text :: "string \<Rightarrow> string \<Rightarrow> string \<Rightarrow> int \<Rightarrow> string" where
  "load_text url contentType title requestId =
    (let ct = (if contentType = [] then ''video/mp4'' else contentType);
         streamType = (if take 6 ct = ''image/'' then ''NONE'' else ''BUFFERED'')
     in quoted ''{`type`:`LOAD`,`requestId`:'' @ decimal (nat requestId) @ quoted '',`autoplay`:true,`currentTime`:0,`media`:{`contentId`:`''
        @ url @ quoted ''`,`streamType`:`'' @ streamType @ quoted ''`,`contentType`:`'' @ ct @ quoted ''`''
        @ (if title \<noteq> [] then quoted '',`metadata`:{`metadataType`:0,`title`:`'' @ title @ quoted ''`}'' else [])
        @ ''}}'')"

text \<open>What the media session answers: whether it plays, or no answer.\<close>

fun await_media :: "nat \<Rightarrow> incoming list \<Rightarrow> bool option \<times> bytes \<times> incoming list" where
  "await_media 0 ins = (Some False, [], ins)"
| "await_media (Suc n) ins = (case ReadFrame ins of
     (None, ins) \<Rightarrow> await_media n ins
   | (Some frame, ins) \<Rightarrow> (case DecodeCastMessage frame of
       Malformed \<Rightarrow> await_media n ins
     | LengthError \<Rightarrow> (None, [], ins)
     | Decoded m \<Rightarrow> let payload = string_of_bytes (cm_payload m) in
         if is_ping m then
           (case await_media n ins of (r, sent, ins) \<Rightarrow> (r, SendJson kNsHeartbeat ''receiver-0'' (quoted ''{`type`:`PONG`}'') @ sent, ins))
         else if string_of_bytes (cm_nameSpace m) \<noteq> kNsMedia then await_media n ins
         else if contains payload ''MEDIA_STATUS'' then (Some True, [], ins)
         else if contains payload ''LOAD_FAILED'' \<or> contains payload ''LOAD_CANCELLED'' \<or> contains payload ''INVALID_REQUEST'' then
           (Some False, [], ins)
         else await_media n ins))"

section \<open>Messages come back\<close>

lemma bit_0x80: "bit (0x80 :: 'a::semiring_bit_operations) n \<longleftrightarrow> possible_bit TYPE('a) n \<and> n = 7"
proof -
  have "(0x80 :: 'a) = 2 ^ 7" by simp
  then show ?thesis by (simp only: bit_exp_iff)
qed

lemma low_seven: "(ucast ((ucast (v AND 0x7F) OR 0x80 :: u8) AND 0x7F) :: u64) = v AND 0x7F"
  and high_bit: "(ucast (v AND 0x7F :: u64) OR 0x80 :: u8) AND 0x80 \<noteq> 0"
proof -
  have m: "(0x7F :: u64) = mask 7" "(0x7F :: u8) = mask 7" by (simp_all add: mask_eq_exp_minus_1)
  show "(ucast ((ucast (v AND 0x7F) OR 0x80 :: u8) AND 0x7F) :: u64) = v AND 0x7F"
    unfolding m by (rule bit_word_eqI) (auto simp: bit_simps bit_0x80)
  have "bit ((ucast (v AND 0x7F :: u64) OR 0x80 :: u8) AND 0x80) 7" by (simp add: bit_simps bit_0x80)
  then show "(ucast (v AND 0x7F :: u64) OR 0x80 :: u8) AND 0x80 \<noteq> 0" by (metis bit_0_eq bot_apply bot_bool_def)
qed

lemma varint_join: "push_bit shift (v AND 0x7F) OR push_bit (shift + 7) (drop_bit 7 v) = push_bit shift (v :: u64)"
proof -
  have m: "(0x7F :: u64) = mask 7" by (simp add: mask_eq_exp_minus_1)
  have eq: "n - shift < 7 \<or> 7 + (n - (shift + 7)) = n - shift" for n by linarith
  show ?thesis unfolding m by (intro bit_word_eqI) (use eq in \<open>fastforce simp: bit_simps\<close>)
qed

lemma small_varint: "\<not> 0x80 \<le> (v :: u64) \<Longrightarrow> ucast v AND (0x80 :: u8) = 0 \<and> ucast (ucast v AND (0x7F :: u8)) = v"
proof -
  assume "\<not> 0x80 \<le> v"
  then have "unat v < 2 ^ 7" by (simp add: word_le_nat_alt)
  then have v: "v = take_bit 7 v" by (metis take_bit_nat_eq_self_iff unsigned_take_bit_eq word_unat_eq_iff)
  have m: "(0x7F :: u8) = mask 7" by (simp add: mask_eq_exp_minus_1)
  have "ucast (take_bit 7 v) AND (0x80 :: u8) = 0" by (rule bit_word_eqI) (auto simp: bit_simps bit_0x80)
  moreover have "ucast (ucast (take_bit 7 v) AND (0x7F :: u8)) = take_bit 7 v"
    unfolding m by (rule bit_word_eqI) (auto simp: bit_simps)
  ultimately show ?thesis using v by metis
qed

lemma get_varint_back:
  "shift \<le> 63 \<Longrightarrow> unat v < 2 ^ (64 - shift) \<Longrightarrow> get_varint (PutVarint v @ r) shift out = Some (out OR push_bit shift v, r)"
proof (induction v arbitrary: shift out rule: PutVarint.induct)
  case (1 v)
  show ?case
  proof (cases "0x80 \<le> v")
    case True
    then have big: "unat v \<ge> 2 ^ 7" by (simp add: word_le_nat_alt)
    then have "(2 :: nat) ^ 7 < 2 ^ (64 - shift)" using 1(3) by simp
    then have "7 < 64 - shift" by (simp only: power_strict_increasing_iff)
    then have s: "shift + 7 \<le> 63" by simp
    have "unat (drop_bit 7 v) = unat v div 2 ^ 7" by (metis unat_drop_bit_eq drop_bit_eq_div)
    moreover have "unat v < 2 ^ (64 - (shift + 7)) * 2 ^ 7" using 1(3) s power_add [of "2 :: nat" "64 - (shift + 7)" 7] by simp
    ultimately have "unat (drop_bit 7 v) < 2 ^ (64 - (shift + 7))" by (simp add: less_mult_imp_div_less)
    then have "get_varint (PutVarint (drop_bit 7 v) @ r) (shift + 7) out' = Some (out' OR push_bit (shift + 7) (drop_bit 7 v), r)" for out'
      using 1(1) [OF True s] by blast
    then show ?thesis using True s varint_join [of shift v] high_bit [of v]
      by (simp add: PutVarint.simps [of v] low_seven Let_def or.assoc)
  next
    case False
    then show ?thesis using small_varint [OF False] by (simp add: PutVarint.simps [of v])
  qed
qed

lemma GetVarint_back: "GetVarint (PutVarint v @ r) = Some (v, r)"
  using get_varint_back [of 0 v r 0] unsigned_less [of v, where 'a = nat] by (simp add: GetVarint_def)

text \<open>A field that fits the buffer is taken whole.\<close>

lemma decode_string:
  assumes "GetVarint (t # PutVarint (of_nat (length s)) @ s @ r) = Some (tag, PutVarint (of_nat (length s)) @ s @ r)"
    "tag AND 7 = 2" "(ucast (drop_bit 3 tag) :: u32) = field" "len < 2 ^ 63 - 2" "length s + length r \<le> len"
  shows "decode_fields len (t # PutVarint (of_nat (length s)) @ s @ r) out = decode_fields len r (set_part field s out)"
proof -
  have n: "unat (of_nat k :: u64) = k" if "k \<le> len" for k using that assms(4) by (simp add: unat_of_nat)
  have "unat (of_nat (len - length (s @ r)) + of_nat (length s) :: u64) = len - length (s @ r) + length s"
    using n [of "len - length (s @ r) + length s"] assms(5) by simp
  then have fits: "\<not> of_nat (len - length (s @ r)) + of_nat (length s) > (of_nat len :: u64)"
    using n [of len] assms(5) by (simp add: word_less_nat_alt)
  have small: "\<not> unat (of_nat (length s) :: u64) > max_string" using n [of "length s"] assms(4,5) by (simp add: max_string_def)
  show ?thesis
    using fits small n [of "length s"] assms(5)
    by (subst decode_fields.simps) (simp add: assms(1-3) GetVarint_back Let_def del: length_append)
qed

lemma tag_bytes: "PutTag 1 0 = [0x08]" "PutTag 2 2 = [0x12]" "PutTag 3 2 = [0x1A]" "PutTag 4 2 = [0x22]" "PutTag 5 0 = [0x28]"
  "PutTag 6 2 = [0x32]" "PutVarint 0 = [0]"
  by (simp_all add: PutTag_def PutVarint.simps)

lemma decode_skip:
  "t = 0x08 \<or> t = 0x28 \<Longrightarrow> decode_fields len (t # 0 # r) out = decode_fields len r out"
  by (auto simp: decode_fields.simps [of len "t # 0 # r"] GetVarint_def Let_def)

lemma tag_read: "GetVarint (0x12 # r) = Some (0x12, r)" "GetVarint (0x1A # r) = Some (0x1A, r)" "GetVarint (0x22 # r) = Some (0x22, r)"
  "GetVarint (0x32 # r) = Some (0x32, r)"
  by (simp_all add: GetVarint_def)

lemmas decode_strings = decode_string [OF tag_read(1), where field = 2, simplified] decode_string [OF tag_read(2), where field = 3, simplified]
  decode_string [OF tag_read(3), where field = 4, simplified] decode_string [OF tag_read(4), where field = 6, simplified]
  decode_string [OF tag_read(4), where field = 6 and r = "[]", simplified]

text \<open>What is encoded is decoded, for any bytes in its four parts.\<close>

theorem cast_message_roundtrip:
  assumes "length (EncodeCastMessage nameSpace source destination payload) < 2 ^ 63 - 2"
  shows "DecodeCastMessage (EncodeCastMessage nameSpace source destination payload) =
    Decoded \<lparr>cm_source = source, cm_destination = destination, cm_nameSpace = nameSpace, cm_payload = payload\<rparr>"
proof -
  define len where "len = length (EncodeCastMessage nameSpace source destination payload)"
  have len: "len < 9223372036854775806" using assms by (simp add: len_def)
  have e: "EncodeCastMessage nameSpace source destination payload =
    0x08 # 0 # 0x12 # PutVarint (of_nat (length source)) @ source @ 0x1A # PutVarint (of_nat (length destination)) @ destination @
      0x22 # PutVarint (of_nat (length nameSpace)) @ nameSpace @ 0x28 # 0 # 0x32 # PutVarint (of_nat (length payload)) @ payload @ []"
    by (simp add: EncodeCastMessage_def PutString_def tag_bytes)
  have fit: "length (EncodeCastMessage nameSpace source destination payload) \<le> len" by (simp add: len_def)
  show ?thesis
    unfolding DecodeCastMessage_def len_def [symmetric]
    using fit unfolding e
    by (simp add: decode_skip decode_strings len set_part_def CastMessage_def decode_fields.simps [of _ "[]"])
qed

text \<open>
  A length close to the end of the 64-bit range wraps around the bounds check, and the decoder throws
  instead of refusing; a fixed-width field that is cut off is taken for whole.
\<close>

lemma oversized_length_throws:
  "DecodeCastMessage [0x32, 0xFF, 0xFF, 0xFF, 0xFF, 0xFF, 0xFF, 0xFF, 0xFF, 0xFF, 0x01] = LengthError"
  by (simp add: DecodeCastMessage_def GetVarint_def decode_fields.simps max_string_def)

lemma cut_field_accepted: "DecodeCastMessage [0x0D] = Decoded CastMessage"
  by (simp add: DecodeCastMessage_def GetVarint_def decode_fields.simps)

section \<open>Frames come back\<close>

text \<open>Records without a gap, and the bytes in them.\<close>

definition stream :: "incoming list \<Rightarrow> bool" where
  "stream ins \<longleftrightarrow> list_all (\<lambda>i. case i of Record d \<Rightarrow> d \<noteq> [] | NoData \<Rightarrow> False) ins"

definition stream_bytes :: "incoming list \<Rightarrow> bytes" where
  "stream_bytes ins = concat (map (\<lambda>i. case i of Record d \<Rightarrow> d | NoData \<Rightarrow> []) ins)"

lemma readExact_stream:
  "stream ins \<Longrightarrow> need \<le> length (stream_bytes ins) \<Longrightarrow>
    \<exists>ins'. readExact need ins = (Some (take need (stream_bytes ins)), ins') \<and> stream ins' \<and> stream_bytes ins' = drop need (stream_bytes ins)"
proof (induction need ins rule: readExact.induct)
  case (3 need d ins)
  have s: "d \<noteq> []" "stream ins" "stream_bytes (Record d # ins) = d @ stream_bytes ins"
    using "3.prems"(1) by (simp_all add: stream_def stream_bytes_def)
  show ?case
  proof (cases "need = 0 \<or> need < length d")
    case True
    then show ?thesis using s "3.prems"(1) by (auto simp: stream_def stream_bytes_def)
  next
    case False
    have "need - length d \<le> length (stream_bytes ins)" using "3.prems"(2) s(3) by simp
    then obtain ins' where "readExact (need - length d) ins = (Some (take (need - length d) (stream_bytes ins)), ins')"
      "stream ins'" "stream_bytes ins' = drop (need - length d) (stream_bytes ins)"
      using "3.IH" False s(1,2) by auto
    then show ?thesis using False s by simp
  qed
qed (auto simp: stream_def stream_bytes_def)

lemma ReadFrame_stream:
  assumes "stream ins" "stream_bytes ins = WriteFrame bs @ rest" "bs \<noteq> []" "length bs \<le> kMaxFrame"
  shows "\<exists>ins'. ReadFrame ins = (Some bs, ins') \<and> stream ins' \<and> stream_bytes ins' = rest"
proof -
  let ?hdr = "AppendBE32 (of_nat (length bs))"
  have b: "stream_bytes ins = ?hdr @ bs @ rest" using assms(2) by (simp add: WriteFrame_def)
  obtain i1 where i1: "readExact 4 ins = (Some ?hdr, i1)" "stream i1" "stream_bytes i1 = bs @ rest"
    using readExact_stream [OF assms(1), of 4] by (auto simp: b)
  obtain i2 where i2: "readExact (length bs) i1 = (Some bs, i2)" "stream i2" "stream_bytes i2 = rest"
    using readExact_stream [OF i1(2), of "length bs"] by (auto simp: i1(3))
  have "ReadBE32 ?hdr 0 = of_nat (length bs)" by (rule ReadBE32_at [where r = "[]"]) simp
  moreover have "unat (of_nat (length bs) :: u32) = length bs" using assms(4) by (simp add: kMaxFrame_def unat_of_nat)
  ultimately show ?thesis using assms(3,4) i1(1) i2 by (simp add: ReadFrame_def Let_def)
qed

text \<open>A pause inside a frame loses what was read of it: the next read goes on in the middle.\<close>

lemma pause_loses_frame:
  "hd3 \<noteq> [] \<Longrightarrow> length hd3 < 4 \<Longrightarrow> ReadFrame (Record hd3 # NoData # ins) = (None, ins)"
  by (simp add: ReadFrame_def)

definition encoded :: "CastMessage \<Rightarrow> bytes" where
  "encoded m = EncodeCastMessage (cm_nameSpace m) (cm_source m) (cm_destination m) (cm_payload m)"

definition fits_frame :: "CastMessage \<Rightarrow> bool" where
  "fits_frame m \<longleftrightarrow> length (encoded m) \<le> kMaxFrame"

lemma encoded_back: "fits_frame m \<Longrightarrow> DecodeCastMessage (encoded m) = Decoded m"
  using cast_message_roundtrip [of "cm_nameSpace m" "cm_source m" "cm_destination m" "cm_payload m"]
  by (simp add: fits_frame_def encoded_def kMaxFrame_def)

lemma encoded_not_empty: "encoded m \<noteq> []"
  by (simp add: encoded_def EncodeCastMessage_def tag_bytes)

text \<open>What a device says before the reply: pings and messages of no interest.\<close>

definition passed_over :: "string \<Rightarrow> string \<Rightarrow> CastMessage \<Rightarrow> bool" where
  "passed_over ns ty m \<longleftrightarrow> fits_frame m \<and> (is_ping m \<or> \<not> wanted ns ty m)"


text \<open>A heartbeat and then a status, in one record and a bit.\<close>

definition sample_message :: "string \<Rightarrow> string \<Rightarrow> CastMessage" where
  "sample_message ns payload = \<lparr>cm_source = bytes_of_string ''d'', cm_destination = bytes_of_string ''*'',
     cm_nameSpace = bytes_of_string ns, cm_payload = bytes_of_string payload\<rparr>"

definition sample_stream :: "incoming list" where
  "sample_stream = (let bs = WriteFrame (encoded (sample_message kNsHeartbeat (quoted ''{`type`:`PING`}'')))
       @ WriteFrame (encoded (sample_message kNsReceiver (quoted ''{`type`:`RECEIVER_STATUS`}'')))
     in [Record (take 3 bs), Record (drop 3 bs)])"


text \<open>A title goes into the text of a LOAD unquoted, so a quotation mark in it ends it.\<close>

lemma quote_ends_title:
  "CastJsonString (load_text ''http://h/a'' [] [CHR ''a'', CHR 0x22, CHR ''b''] 1) ''title'' = ''a''"
  by code_simp

end
