(* ===== verification/Mirror.thy ===== *)
theory Mirror
  imports CastTransport CastChannel Double
begin

text \<open>
  Screen mirroring to a Cast receiver: the offer and its answer (\<open>optional/cast/CastMirror.cpp\<close>), and
  the session that encrypts, splits and sends video and audio frames, reports on them and sends again
  what the receiver misses (\<open>optional/cast/MirrorSession.cpp\<close>). The encoders and the clock are
  parameters, the socket is the list of datagrams that arrive and whether each send works.
\<close>

section \<open>Offer and answer\<close>

record OfferConfig =
  oc_videoCodec :: string
  oc_width :: int
  oc_height :: int
  oc_frameRate :: int
  oc_videoSsrc :: int
  oc_audioSsrc :: int
  oc_videoPayloadType :: int
  oc_audioPayloadType :: int
  oc_videoMaxBitRate :: int
  oc_audioBitRate :: int
  oc_audioChannels :: int

definition OfferConfig :: OfferConfig where
  "OfferConfig = \<lparr>oc_videoCodec = ''vp8'', oc_width = 1280, oc_height = 720, oc_frameRate = 30, oc_videoSsrc = 100000,
     oc_audioSsrc = 100001, oc_videoPayloadType = 127, oc_audioPayloadType = 96, oc_videoMaxBitRate = 5000000,
     oc_audioBitRate = 128000, oc_audioChannels = 2\<rparr>"

definition hex_digits :: string where "hex_digits = ''0123456789abcdef''"

definition ToHex :: "bytes \<Rightarrow> string" where
  "ToHex p = concat (map (\<lambda>b. [hex_digits ! unat (drop_bit 4 b), hex_digits ! unat (b AND 0xF)]) p)"

text \<open>\<open>%d\<close>.\<close>

definition signed_text :: "int \<Rightarrow> string" where
  "signed_text n = (if n < 0 then CHR ''-'' # decimal (nat (- n)) else decimal (nat n))"

text \<open>The codec and the keys are C strings; the text is cut at its buffer of 2048 bytes.\<close>

definition BuildOffer :: "int \<Rightarrow> OfferConfig \<Rightarrow> string \<Rightarrow> string \<Rightarrow> string \<Rightarrow> string \<Rightarrow> string" where
  "BuildOffer seqNum cfg videoAesKey videoAesIv audioAesKey audioAesIv = take 2047
    (quoted ''{`type`:`OFFER`,`seqNum`:'' @ signed_text seqNum @ quoted '',`offer`:{`castMode`:`mirroring`,''
     @ quoted ''`receiverGetStatus`:true,`supportedStreams`:[''
     @ quoted ''{`index`:0,`type`:`video_source`,`codecName`:`'' @ c_str (oc_videoCodec cfg) @ quoted ''`,`rtpProfile`:`cast`,''
     @ quoted ''`rtpPayloadType`:'' @ signed_text (oc_videoPayloadType cfg) @ quoted '',`ssrc`:'' @ signed_text (oc_videoSsrc cfg)
     @ quoted '',`maxFrameRate`:`'' @ signed_text (oc_frameRate cfg) @ quoted ''000/1000`,`timeBase`:`1/90000`,''
     @ quoted ''`maxBitRate`:'' @ signed_text (oc_videoMaxBitRate cfg) @ quoted '',`profile`:`main`,`level`:`4`,''
     @ quoted ''`aesKey`:`'' @ c_str videoAesKey @ quoted ''`,`aesIvMask`:`'' @ c_str videoAesIv @ quoted ''`,''
     @ quoted ''`resolutions`:[{`width`:'' @ signed_text (oc_width cfg) @ quoted '',`height`:'' @ signed_text (oc_height cfg) @ ''}]},''
     @ quoted ''{`index`:1,`type`:`audio_source`,`codecName`:`opus`,`rtpProfile`:`cast`,''
     @ quoted ''`rtpPayloadType`:'' @ signed_text (oc_audioPayloadType cfg) @ quoted '',`ssrc`:'' @ signed_text (oc_audioSsrc cfg)
     @ quoted '',`bitRate`:'' @ signed_text (oc_audioBitRate cfg) @ quoted '',`timeBase`:`1/48000`,''
     @ quoted ''`channels`:'' @ signed_text (oc_audioChannels cfg) @ quoted '',`aesKey`:`'' @ c_str audioAesKey
     @ quoted ''`,`aesIvMask`:`'' @ c_str audioAesIv @ quoted ''`}'' @ '']}}'')"

text \<open>\<open>strtol\<close> in base 10 on digits and minus signs: one sign, then digits up to the next minus.\<close>

definition strtol10 :: "string \<Rightarrow> int" where
  "strtol10 s = (case s of
     [] \<Rightarrow> 0
   | c # t \<Rightarrow> let v = (if c = CHR ''-'' then - int (digits_value (takeWhile is_digit t)) else int (digits_value (takeWhile is_digit s)))
       in max (- (2 ^ 63)) (min (2 ^ 63 - 1) v))"

definition int_char :: "char \<Rightarrow> bool" where
  "int_char c \<longleftrightarrow> is_digit c \<or> c = CHR ''-''"

function int_items :: "string \<Rightarrow> int list" where
  "int_items body = (case dropWhile (\<lambda>c. is_space c \<or> c = CHR '','') body of
     [] \<Rightarrow> []
   | c # rest \<Rightarrow> if int_char c then strtol10 (takeWhile int_char (c # rest)) # int_items (dropWhile int_char rest) else int_items rest)"
  by pat_completeness auto
termination
proof (relation "measure length")
  fix body c rest
  assume a: "dropWhile (\<lambda>c. is_space c \<or> c = CHR '','') body = c # rest"
  then have "length rest < length body"
    using length_dropWhile_le [of "\<lambda>c. is_space c \<or> c = CHR '',''" body] by simp
  then show "(rest, body) \<in> measure length" "(dropWhile int_char rest, body) \<in> measure length"
    using length_dropWhile_le [of int_char rest] by simp_all
qed simp

declare int_items.simps [simp del]

text \<open>The items between the brackets behind the quoted key, as \<open>long\<close>.\<close>

definition ParseIntArray :: "string \<Rightarrow> string \<Rightarrow> int list" where
  "ParseIntArray json key = (case split_marker ([CHR 0x22] @ key @ [CHR 0x22]) json of None \<Rightarrow> []
    | Some (_, rest) \<Rightarrow> (case split_marker ''['' rest of None \<Rightarrow> []
      | Some (_, rest) \<Rightarrow> (case split_marker '']'' rest of None \<Rightarrow> [] | Some (body, _) \<Rightarrow> int_items body)))"

text \<open>\<open>strtod\<close> on digits, signs, a point and an exponent, as the code gives it; the value without its limits.\<close>

definition signed_part :: "string \<Rightarrow> bool \<times> string" where
  "signed_part s = (case s of [] \<Rightarrow> (False, [])
    | c # t \<Rightarrow> if c = CHR ''-'' then (True, t) else if c = CHR ''+'' then (False, t) else (False, s))"

definition strtod :: "string \<Rightarrow> rat" where
  "strtod s = (case signed_part s of (neg, s) \<Rightarrow>
     let whole = takeWhile is_digit s; rest = dropWhile is_digit s;
         frac = (if rest \<noteq> [] \<and> hd rest = CHR ''.'' then takeWhile is_digit (tl rest) else []);
         rest = (if rest \<noteq> [] \<and> hd rest = CHR ''.'' then dropWhile is_digit (tl rest) else rest);
         expo = (if rest \<noteq> [] \<and> (hd rest = CHR ''e'' \<or> hd rest = CHR ''E'')
           then (case signed_part (tl rest) of (eneg, t) \<Rightarrow>
             let e = int (digits_value (takeWhile is_digit t)) in if eneg then - e else e) else 0);
         v = of_nat (digits_value (whole @ frac)) * 10 powi (expo - int (length frac))
     in if whole = [] \<and> frac = [] then 0 else if neg then - to_double v else to_double v)"

definition to_int :: "rat \<Rightarrow> int" where
  "to_int x = (if x < 0 then - \<lfloor>- x\<rfloor> else \<lfloor>x\<rfloor>)"

text \<open>The text itself, \<open>raw\<close>, is the argument of the parser.\<close>

record MirrorAnswer =
  ma_received :: bool
  ma_ok :: bool
  ma_result :: string
  ma_udpPort :: int
  ma_sendIndexes :: "int list"
  ma_ssrcs :: "int list"
  ma_errorText :: string

definition ParseAnswer :: "string \<Rightarrow> MirrorAnswer" where
  "ParseAnswer json =
    (if \<not> contains json (quoted ''`ANSWER`'') then
       \<lparr>ma_received = False, ma_ok = False, ma_result = [], ma_udpPort = 0, ma_sendIndexes = [], ma_ssrcs = [], ma_errorText = []\<rparr>
     else let result = CastJsonString json ''result''; ok = (result = ''ok''); desc = CastJsonString json ''description'' in
       \<lparr>ma_received = True, ma_ok = ok, ma_result = result,
         ma_udpPort = (case CastJsonNumber json ''udpPort'' of None \<Rightarrow> 0 | Some text \<Rightarrow> to_int (strtod text)),
         ma_sendIndexes = map (signed_take_bit 31) (ParseIntArray json ''sendIndexes''), ma_ssrcs = ParseIntArray json ''ssrcs'',
         ma_errorText = (if ok then [] else if desc = [] then CastJsonString json ''error'' else desc)\<rparr>)"

section \<open>The session\<close>

type_synonym sent_cache = "(u8, bytes list) std_map"

record EncodedFrame =
  ef_data :: bytes
  ef_key :: bool

record MirrorSession =
  mi_fVideo :: FrameCrypto
  mi_fVideoSsrc :: u32
  mi_fVideoPayloadType :: u8
  mi_fAudio :: FrameCrypto
  mi_fAudioSsrc :: u32
  mi_fAudioPayloadType :: u8
  mi_fAudioFrameId :: u32
  mi_fAudioSeq :: u16
  mi_fAudioRtpTimestamp :: u32
  mi_fAudioPacketCount :: u32
  mi_fAudioOctetCount :: u32
  mi_fAudioAccepted :: bool
  mi_fAudioStarted :: bool
  mi_fAudioSentPackets :: sent_cache
  mi_fAudioCacheOrder :: "u8 list"
  mi_fFps :: int
  mi_fFrameId :: u32
  mi_fSeq :: u16
  mi_fRtpTimestamp :: u32
  mi_fRtpStep :: u32
  mi_fPacketCount :: u32
  mi_fOctetCount :: u32
  mi_fUdpPort :: int
  mi_fVideoAccepted :: bool
  mi_fAllKeyframes :: bool
  mi_fStarted :: bool
  mi_fSentPackets :: sent_cache
  mi_fCacheOrder :: "u8 list"
  mi_fLastSrUs :: int
  mi_fHaveRr :: bool
  mi_fReceiverSsrc :: u32
  mi_fLastRrLrr :: u32
  mi_fLastRrRecvUs :: int
  mi_fLastAck :: u8
  mi_fLastLoss :: u8

definition MirrorSession :: MirrorSession where
  "MirrorSession = \<lparr>mi_fVideo = \<lparr>fc_fKey = replicate 16 0, fc_fIvMask = replicate 16 0\<rparr>, mi_fVideoSsrc = 100000,
     mi_fVideoPayloadType = 127, mi_fAudio = \<lparr>fc_fKey = replicate 16 0, fc_fIvMask = replicate 16 0\<rparr>, mi_fAudioSsrc = 100001,
     mi_fAudioPayloadType = 96, mi_fAudioFrameId = 0, mi_fAudioSeq = 0, mi_fAudioRtpTimestamp = 0, mi_fAudioPacketCount = 0,
     mi_fAudioOctetCount = 0, mi_fAudioAccepted = False, mi_fAudioStarted = False, mi_fAudioSentPackets = [],
     mi_fAudioCacheOrder = [], mi_fFps = 30, mi_fFrameId = 0, mi_fSeq = 0, mi_fRtpTimestamp = 0, mi_fRtpStep = 3000,
     mi_fPacketCount = 0, mi_fOctetCount = 0, mi_fUdpPort = 0, mi_fVideoAccepted = False, mi_fAllKeyframes = False,
     mi_fStarted = False, mi_fSentPackets = [], mi_fCacheOrder = [], mi_fLastSrUs = 0, mi_fHaveRr = False, mi_fReceiverSsrc = 0,
     mi_fLastRrLrr = 0, mi_fLastRrRecvUs = 0, mi_fLastAck = 0xFF, mi_fLastLoss = 0\<rparr>"

text \<open>
  The texts \<open>fError\<close> and \<open>fAnswerRaw\<close> are left out; the encoders, the channel and the socket are parameters.
  What a session sends, with the reason: a packet of a new frame, a report, or a packet once more.
\<close>

datatype sent = Video bytes | Audio bytes | Report bytes | Again bytes

section \<open>Starting\<close>

definition kMirroringAppId :: string where "kMirroringAppId = ''0F5096E8''"
definition kNsWebrtc :: string where "kNsWebrtc = ''urn:x-cast:com.google.cast.webrtc''"

definition accept_index :: "int \<Rightarrow> MirrorSession \<Rightarrow> MirrorSession" where
  "accept_index idx s = (if idx = 0 then s\<lparr>mi_fVideoAccepted := True\<rparr>
     else if idx = 1 then s\<lparr>mi_fAudioAccepted := True\<rparr> else s)"

text \<open>What is kept of an answer, and whether the session can go on with it.\<close>

definition take_answer :: "MirrorAnswer \<Rightarrow> MirrorSession \<Rightarrow> bool \<times> MirrorSession" where
  "take_answer ans s =
    (if \<not> ma_ok ans then (False, s)
     else let s = fold accept_index (ma_sendIndexes ans) (s\<lparr>mi_fUdpPort := ma_udpPort ans\<rparr>)
       in (mi_fUdpPort s > 0 \<and> mi_fVideoAccepted s, s))"

definition begin_stream :: "int \<Rightarrow> MirrorSession \<Rightarrow> MirrorSession" where
  "begin_stream fps s = (let f = (if fps > 0 then fps else 30) in
     s\<lparr>mi_fFps := f, mi_fRtpStep := 90000 div word_of_int f, mi_fFrameId := 0, mi_fSeq := 0, mi_fRtpTimestamp := 0,
       mi_fPacketCount := 0, mi_fOctetCount := 0, mi_fStarted := True\<rparr>)"

text \<open>
  \<open>Start\<close> once the channel is connected: the random keys (\<open>None\<close> when \<open>RAND_bytes\<close> fails), the launch of
  the receiver with its waits, the turns of the wait for the answer, and whether the encoder and the
  socket could be opened. It returns what was written to the channel too; an exception of the decoder
  counts as a failure.
\<close>

definition Mirror_Start :: "int \<Rightarrow> int \<Rightarrow> int \<Rightarrow> (FrameCrypto \<times> FrameCrypto) option \<Rightarrow> nat list \<Rightarrow> nat \<Rightarrow> bool \<Rightarrow> bool \<Rightarrow> int \<Rightarrow> incoming list \<Rightarrow>
    MirrorSession \<Rightarrow> bool \<times> MirrorSession \<times> bytes" where
  "Mirror_Start width height fps keys ns n encoder socket requestId ins s = (case keys of
     None \<Rightarrow> (False, s, [])
   | Some (video, audio) \<Rightarrow>
       let s = s\<lparr>mi_fVideo := video, mi_fAudio := audio\<rparr>;
           cfg = OfferConfig\<lparr>oc_width := width, oc_height := height, oc_frameRate := fps,
             oc_videoSsrc := signed_take_bit 31 (uint (mi_fVideoSsrc s)), oc_videoPayloadType := uint (mi_fVideoPayloadType s),
             oc_audioSsrc := signed_take_bit 31 (uint (mi_fAudioSsrc s)), oc_audioPayloadType := uint (mi_fAudioPayloadType s)\<rparr>
       in (case LaunchAppById kMirroringAppId requestId ns ins of
         (Reply transportId, sent, ins) \<Rightarrow>
           let offer = SendJson kNsWebrtc transportId (BuildOffer 1 cfg (ToHex (fc_fKey video)) (ToHex (fc_fIvMask video))
               (ToHex (fc_fKey audio)) (ToHex (fc_fIvMask audio)))
           in (case ReadUntil kNsWebrtc ''ANSWER'' n ins of
             (Reply payload, sent', ins) \<Rightarrow>
               if payload = [] then (False, s, sent @ offer @ sent')
               else (case take_answer (ParseAnswer payload) s of (ok, s) \<Rightarrow>
                 if ok \<and> encoder \<and> socket then (True, begin_stream fps s, sent @ offer @ sent')
                 else (False, s, sent @ offer @ sent'))
           | (_, sent', ins) \<Rightarrow> (False, s, sent @ offer @ sent'))
       | (_, sent, ins) \<Rightarrow> (False, s, sent)))"

section \<open>The receiver's reports\<close>

text \<open>\<open>Retransmit\<close>: the packets of a frame that are asked for, as far as they are there.\<close>

definition resend :: "bytes list \<Rightarrow> nat \<Rightarrow> bytes list" where
  "resend pkts pid = (if pid < length pkts then [pkts ! pid] else [])"

definition Retransmit :: "sent_cache \<Rightarrow> u8 \<Rightarrow> u16 \<Rightarrow> u8 \<Rightarrow> bytes list" where
  "Retransmit cache frameId8 packetId bitmask = (case map_of cache frameId8 of
     None \<Rightarrow> []
   | Some pkts \<Rightarrow>
       if packetId = 0xFFFF then concat (map (resend pkts) [0..<length pkts])
       else resend pkts (unat packetId)
         @ concat (map (\<lambda>b. if bit bitmask b then resend pkts (unat packetId + 1 + b) else []) [0..<8]))"

text \<open>The loss fields from \<open>fci\<close> on, at most \<open>n\<close> and before \<open>stop\<close>.\<close>

fun loss_fields :: "sent_cache \<Rightarrow> bytes \<Rightarrow> nat \<Rightarrow> nat \<Rightarrow> nat \<Rightarrow> bytes list" where
  "loss_fields cache p fci stop 0 = []"
| "loss_fields cache p fci stop (Suc n) =
    (if fci + 4 \<le> stop then Retransmit cache (p ! fci) (ReadBE16 p (fci + 1)) (p ! (fci + 3)) @ loss_fields cache p (fci + 4) stop n
     else [])"

text \<open>The feedback of a receiver about one of the streams: what is sent again.\<close>

definition cast_feedback :: "bytes \<Rightarrow> nat \<Rightarrow> nat \<Rightarrow> MirrorSession \<Rightarrow> MirrorSession \<times> bytes list" where
  "cast_feedback p i blockLen s =
    (let isAudio = (ReadBE32 p (i + 8) = mi_fAudioSsrc s);
         cache = (if isAudio then mi_fAudioSentPackets s else mi_fSentPackets s)
     in (if isAudio then s else s\<lparr>mi_fLastAck := p ! (i + 16), mi_fLastLoss := p ! (i + 17)\<rparr>,
       loss_fields cache p (i + 20) (i + blockLen) (unat (p ! (i + 17)))))"

definition reference_time :: "bytes \<Rightarrow> nat \<Rightarrow> u32 \<Rightarrow> int \<Rightarrow> MirrorSession \<Rightarrow> MirrorSession" where
  "reference_time p j xrSsrc now s =
    (let msw = ReadBE32 p (j + 4); lsw = ReadBE32 p (j + 8) in
     s\<lparr>mi_fLastRrLrr := push_bit 16 (msw AND 0xFFFF) OR (drop_bit 16 lsw AND 0xFFFF), mi_fReceiverSsrc := xrSsrc,
       mi_fLastRrRecvUs := now, mi_fHaveRr := True\<rparr>)"

text \<open>The blocks of an extended report, from \<open>j\<close> on and before \<open>stop\<close>; \<open>clock j\<close> is the time then.\<close>

function xr_blocks :: "(nat \<Rightarrow> int) \<Rightarrow> bytes \<Rightarrow> nat \<Rightarrow> nat \<Rightarrow> u32 \<Rightarrow> MirrorSession \<Rightarrow> MirrorSession" where
  "xr_blocks clock p j stop xrSsrc s =
    (if \<not> j + 4 \<le> stop then s
     else let blkBytes = (unat (ReadBE16 p (j + 2)) + 1) * 4 in
       if j + blkBytes > stop then s
       else xr_blocks clock p (j + blkBytes) stop xrSsrc
         (if p ! j = 4 \<and> blkBytes \<ge> 12 then reference_time p j xrSsrc (clock j) s else s))"
  by pat_completeness auto
termination
  by (relation "measure (\<lambda>(clock, p, j, stop, xrSsrc, s). stop - j)") auto

declare xr_blocks.simps [simp del]

text \<open>The application feedback of a cast receiver is marked by four characters.\<close>

definition cast_mark :: "bytes \<Rightarrow> nat \<Rightarrow> bool" where
  "cast_mark p i \<longleftrightarrow> take 4 (drop (i + 12) p) = [0x43, 0x41, 0x53, 0x54]"

definition rtcp_block :: "(nat \<Rightarrow> int) \<Rightarrow> bytes \<Rightarrow> nat \<Rightarrow> nat \<Rightarrow> MirrorSession \<Rightarrow> MirrorSession \<times> bytes list" where
  "rtcp_block clock p i blockLen s =
    (let pt = p ! (i + 1);
         (s, resent) = (if pt = 206 \<and> blockLen \<ge> 20 \<and> cast_mark p i then cast_feedback p i blockLen s else (s, []))
     in (if pt = 207 \<and> blockLen \<ge> 8 then xr_blocks clock p (i + 8) (i + blockLen) (ReadBE32 p (i + 4)) s else s, resent))"

function rtcp_blocks :: "(nat \<Rightarrow> int) \<Rightarrow> bytes \<Rightarrow> nat \<Rightarrow> MirrorSession \<Rightarrow> MirrorSession \<times> bytes list" where
  "rtcp_blocks clock p i s =
    (if \<not> i + 4 \<le> length p then (s, [])
     else let blockLen = (unat (ReadBE16 p (i + 2)) + 1) * 4 in
       if i + blockLen > length p then (s, [])
       else case rtcp_block clock p i blockLen s of (s, resent) \<Rightarrow>
         (case rtcp_blocks clock p (i + blockLen) s of (s, resent') \<Rightarrow> (s, resent @ resent')))"
  by pat_completeness auto
termination
  by (relation "measure (\<lambda>(clock, p, i, s). length p - i)") auto

declare rtcp_blocks.simps [simp del]

text \<open>The datagrams that are there, each with the clock while it is read; at most 64 are taken.\<close>

fun drain_rtcp :: "(bytes \<times> (nat \<Rightarrow> int)) list \<Rightarrow> MirrorSession \<Rightarrow> MirrorSession \<times> bytes list" where
  "drain_rtcp [] s = (s, [])"
| "drain_rtcp ((dg, clock) # dgs) s = (case rtcp_blocks clock dg 0 s of (s, resent) \<Rightarrow>
     (case drain_rtcp dgs s of (s, resent') \<Rightarrow> (s, resent @ resent')))"

text \<open>
  The times of a report: the seconds and microseconds of the day it is made, and the clock a moment
  later, when the delay since the receiver's own report is taken.
\<close>

record report_time =
  rt_sec :: int
  rt_usec :: int
  rt_now :: int

definition SendSenderReport :: "report_time \<Rightarrow> u32 \<Rightarrow> u32 \<Rightarrow> u32 \<Rightarrow> u32 \<Rightarrow> bool \<Rightarrow> MirrorSession \<Rightarrow> bytes" where
  "SendSenderReport t ssrc rtpTimestamp packetCount octetCount withDlrr s =
    (let ntpSeconds = word_of_int (rt_sec t) + 2208988800;
         ntpFraction = word_of_int \<lfloor>to_double (of_int (rt_usec t) / 1000000) * 4294967296\<rfloor>;
         elapsedUs = max 0 (rt_now t - mi_fLastRrRecvUs s);
         delay = word_of_int \<lfloor>to_double (of_int elapsedUs / 1000000) * 65536\<rfloor>
     in BuildSenderReport ssrc ntpSeconds ntpFraction rtpTimestamp packetCount octetCount
       @ (if withDlrr \<and> mi_fHaveRr s then BuildXrDlrr ssrc (mi_fReceiverSsrc s) (mi_fLastRrLrr s) delay else []))"

text \<open>The time of the call, the times of the two reports it may make, and the datagrams.\<close>

record rtcp_input =
  rc_now :: int
  rc_video :: report_time
  rc_audio :: report_time
  rc_datagrams :: "(bytes \<times> (nat \<Rightarrow> int)) list"

definition ServiceRtcp :: "rtcp_input \<Rightarrow> MirrorSession \<Rightarrow> MirrorSession \<times> sent list" where
  "ServiceRtcp t s =
    (let due = (rc_now t - mi_fLastSrUs s \<ge> 200000); s = (if due then s\<lparr>mi_fLastSrUs := rc_now t\<rparr> else s);
         reports = (if due then
             [Report (SendSenderReport (rc_video t) (mi_fVideoSsrc s) (mi_fRtpTimestamp s) (mi_fPacketCount s) (mi_fOctetCount s) True s)]
             @ (if mi_fAudioStarted s then
                 [Report (SendSenderReport (rc_audio t) (mi_fAudioSsrc s) (mi_fAudioRtpTimestamp s) (mi_fAudioPacketCount s)
                   (mi_fAudioOctetCount s) False s)] else [])
           else []);
         (s, resent) = drain_rtcp (take 64 (rc_datagrams t)) s
     in (s, reports @ map Again resent))"

section \<open>Frames\<close>

text \<open>The packets of the last frames, \<open>limit\<close> of them at most; a frame whose number came again stays.\<close>

fun trim_cache :: "nat \<Rightarrow> u8 list \<Rightarrow> sent_cache \<Rightarrow> u8 list \<times> sent_cache" where
  "trim_cache limit [] cache = ([], cache)"
| "trim_cache limit (old # order) cache =
    (if length (old # order) > limit then
       trim_cache limit order (if old \<in> set order then cache else AList.delete old cache)
     else (old # order, cache))"

definition octets :: "bytes list \<Rightarrow> u32" where
  "octets packets = sum_list (map (\<lambda>pkt. of_nat (length pkt)) packets)"

definition video_header :: "MirrorSession \<Rightarrow> bool \<Rightarrow> RtpHeader" where
  "video_header s key = \<lparr>rh_payloadType = mi_fVideoPayloadType s, rh_sequenceNumber = mi_fSeq s, rh_rtpTimestamp = mi_fRtpTimestamp s,
     rh_ssrc = mi_fVideoSsrc s, rh_keyFrame = key, rh_frameId = ucast (mi_fFrameId s), rh_packetId = 0, rh_maxPacketId = 0,
     rh_hasReference = (\<not> key), rh_referenceFrameId = ucast (mi_fFrameId s - 1)\<rparr>"

definition send_video :: "(bytes \<Rightarrow> bytes \<Rightarrow> bytes \<Rightarrow> bytes) \<Rightarrow> int option \<Rightarrow> EncodedFrame \<Rightarrow> MirrorSession \<Rightarrow> MirrorSession \<times> bytes list" where
  "send_video aes env ef s =
    (let packets = Packetize (video_header s (ef_key ef)) (Encrypt aes env (mi_fVideo s) (mi_fFrameId s) (ef_data ef)) 1400;
         (order, cache) = trim_cache 60 (mi_fCacheOrder s @ [ucast (mi_fFrameId s)])
           (map_put (ucast (mi_fFrameId s)) packets (mi_fSentPackets s))
     in (s\<lparr>mi_fSeq := mi_fSeq s + of_nat (length packets), mi_fPacketCount := mi_fPacketCount s + of_nat (length packets),
          mi_fOctetCount := mi_fOctetCount s + octets packets, mi_fCacheOrder := order, mi_fSentPackets := cache,
          mi_fFrameId := mi_fFrameId s + 1, mi_fRtpTimestamp := mi_fRtpTimestamp s + mi_fRtpStep s\<rparr>, packets))"

fun send_videos :: "(bytes \<Rightarrow> bytes \<Rightarrow> bytes \<Rightarrow> bytes) \<Rightarrow> int option \<Rightarrow> EncodedFrame list \<Rightarrow> MirrorSession \<Rightarrow> MirrorSession \<times> bytes list" where
  "send_videos aes env [] s = (s, [])"
| "send_videos aes env (ef # efs) s = (case send_video aes env ef s of (s, packets) \<Rightarrow>
     (case send_videos aes env efs s of (s, packets') \<Rightarrow> (s, packets @ packets')))"

definition force_key :: "MirrorSession \<Rightarrow> bool" where
  "force_key s \<longleftrightarrow> mi_fAllKeyframes s \<or> mi_fFrameId s = 0 \<or> mi_fFrameId s mod word_of_int (mi_fFps s) = 0"

text \<open>
  \<open>encode\<close> is the encoder's answer to the picture, \<open>oks ! i\<close> whether the \<open>i\<close>-th packet could be sent.
\<close>

definition SendFrame :: "(bytes \<Rightarrow> bytes \<Rightarrow> bytes \<Rightarrow> bytes) \<Rightarrow> int option \<Rightarrow> (bool \<Rightarrow> EncodedFrame list option) \<Rightarrow> (nat \<Rightarrow> bool) \<Rightarrow>
    rtcp_input \<Rightarrow> MirrorSession \<Rightarrow> bool \<times> MirrorSession \<times> sent list" where
  "SendFrame aes env encode oks t s =
    (if \<not> mi_fStarted s then (False, s, [])
     else case encode (force_key s) of None \<Rightarrow> (False, s, [])
     | Some frames \<Rightarrow> (case send_videos aes env frames s of (s, packets) \<Rightarrow>
         (case ServiceRtcp t s of (s, served) \<Rightarrow> (list_all oks [0..<length packets], s, map Video packets @ served))))"

definition StartAudio :: "bool \<Rightarrow> MirrorSession \<Rightarrow> bool \<times> MirrorSession" where
  "StartAudio encoder s =
    (if \<not> mi_fStarted s \<or> \<not> mi_fAudioAccepted s then (False, s)
     else if mi_fAudioStarted s then (True, s)
     else if \<not> encoder then (False, s)
     else (True, s\<lparr>mi_fAudioFrameId := 0, mi_fAudioSeq := 0, mi_fAudioRtpTimestamp := 0, mi_fAudioPacketCount := 0,
       mi_fAudioOctetCount := 0, mi_fAudioStarted := True\<rparr>))"

definition audio_header :: "MirrorSession \<Rightarrow> RtpHeader" where
  "audio_header s = \<lparr>rh_payloadType = mi_fAudioPayloadType s, rh_sequenceNumber = mi_fAudioSeq s,
     rh_rtpTimestamp = mi_fAudioRtpTimestamp s, rh_ssrc = mi_fAudioSsrc s, rh_keyFrame = True,
     rh_frameId = ucast (mi_fAudioFrameId s), rh_packetId = 0, rh_maxPacketId = 0, rh_hasReference = False, rh_referenceFrameId = 0\<rparr>"

definition send_audio :: "(bytes \<Rightarrow> bytes \<Rightarrow> bytes \<Rightarrow> bytes) \<Rightarrow> int option \<Rightarrow> bytes \<Rightarrow> int \<Rightarrow> MirrorSession \<Rightarrow> MirrorSession \<times> bytes list" where
  "send_audio aes env opus samples s =
    (let packets = Packetize (audio_header s) (Encrypt aes env (mi_fAudio s) (mi_fAudioFrameId s) opus) 1400;
         (order, cache) = trim_cache 120 (mi_fAudioCacheOrder s @ [ucast (mi_fAudioFrameId s)])
           (map_put (ucast (mi_fAudioFrameId s)) packets (mi_fAudioSentPackets s))
     in (s\<lparr>mi_fAudioSeq := mi_fAudioSeq s + of_nat (length packets),
          mi_fAudioPacketCount := mi_fAudioPacketCount s + of_nat (length packets),
          mi_fAudioOctetCount := mi_fAudioOctetCount s + octets packets, mi_fAudioCacheOrder := order, mi_fAudioSentPackets := cache,
          mi_fAudioFrameId := mi_fAudioFrameId s + 1, mi_fAudioRtpTimestamp := mi_fAudioRtpTimestamp s + word_of_int samples\<rparr>, packets))"

definition SendAudio :: "(bytes \<Rightarrow> bytes \<Rightarrow> bytes \<Rightarrow> bytes) \<Rightarrow> int option \<Rightarrow> bytes option \<Rightarrow> int \<Rightarrow> (nat \<Rightarrow> bool) \<Rightarrow> rtcp_input \<Rightarrow>
    MirrorSession \<Rightarrow> bool \<times> MirrorSession \<times> sent list" where
  "SendAudio aes env answer samples oks t s =
    (if \<not> mi_fStarted s \<or> \<not> mi_fAudioStarted s then (True, s, [])
     else case answer of None \<Rightarrow> (False, s, [])
     | Some opus \<Rightarrow> (case send_audio aes env opus samples s of (s, packets) \<Rightarrow>
         (case ServiceRtcp t s of (s, served) \<Rightarrow> (list_all oks [0..<length packets], s, map Audio packets @ served))))"

definition Mirror_Stop :: "MirrorSession \<Rightarrow> MirrorSession" where
  "Mirror_Stop s = s\<lparr>mi_fStarted := False\<rparr>"

section \<open>A session's calls\<close>

text \<open>
  Calls of a session in any order, as its threads make them under its lock: with the encoder's answer,
  which sends work, and what the receiver sends. They return all that is sent.
\<close>

datatype mirror_request = MC_Frame "EncodedFrame list option" "nat \<Rightarrow> bool" rtcp_input
  | MC_Audio "bytes option" int "nat \<Rightarrow> bool" rtcp_input | MC_StartAudio bool

fun mirror_call :: "(bytes \<Rightarrow> bytes \<Rightarrow> bytes \<Rightarrow> bytes) \<Rightarrow> int option \<Rightarrow> mirror_request \<Rightarrow> MirrorSession \<Rightarrow> MirrorSession \<times> sent list" where
  "mirror_call aes env (MC_Frame answer oks t) s = snd (SendFrame aes env (\<lambda>_. answer) oks t s)"
| "mirror_call aes env (MC_Audio answer samples oks t) s = snd (SendAudio aes env answer samples oks t s)"
| "mirror_call aes env (MC_StartAudio encoder) s = (snd (StartAudio encoder s), [])"

fun mirror_calls :: "(bytes \<Rightarrow> bytes \<Rightarrow> bytes \<Rightarrow> bytes) \<Rightarrow> int option \<Rightarrow> mirror_request list \<Rightarrow> MirrorSession \<Rightarrow> MirrorSession \<times> sent list" where
  "mirror_calls aes env [] s = (s, [])"
| "mirror_calls aes env (c # cs) s = (case mirror_call aes env c s of (s, sent) \<Rightarrow>
     (case mirror_calls aes env cs s of (s, sent') \<Rightarrow> (s, sent @ sent')))"

section \<open>What the receiver's reports leave alone\<close>

text \<open>All of a session but what its reports are made from.\<close>

definition core :: "MirrorSession \<Rightarrow> MirrorSession" where
  "core s = s\<lparr>mi_fLastSrUs := 0, mi_fHaveRr := False, mi_fReceiverSsrc := 0, mi_fLastRrLrr := 0, mi_fLastRrRecvUs := 0,
     mi_fLastAck := 0, mi_fLastLoss := 0\<rparr>"

lemma core_fields:
  assumes "core s = core s'"
  shows "mi_fSentPackets s = mi_fSentPackets s'" "mi_fAudioSentPackets s = mi_fAudioSentPackets s'"
    "mi_fCacheOrder s = mi_fCacheOrder s'" "mi_fAudioCacheOrder s = mi_fAudioCacheOrder s'" "mi_fStarted s = mi_fStarted s'"
    "mi_fFrameId s = mi_fFrameId s'" "mi_fVideo s = mi_fVideo s'" "mi_fAudioStarted s = mi_fAudioStarted s'"
proof -
  have "f (core s) = f (core s')" for f :: "MirrorSession \<Rightarrow> 'a" using assms by simp
  from this [of mi_fSentPackets] this [of mi_fAudioSentPackets] this [of mi_fCacheOrder] this [of mi_fAudioCacheOrder]
    this [of mi_fStarted] this [of mi_fFrameId] this [of mi_fVideo] this [of mi_fAudioStarted]
  show "mi_fSentPackets s = mi_fSentPackets s'" "mi_fAudioSentPackets s = mi_fAudioSentPackets s'"
    "mi_fCacheOrder s = mi_fCacheOrder s'" "mi_fAudioCacheOrder s = mi_fAudioCacheOrder s'" "mi_fStarted s = mi_fStarted s'"
    "mi_fFrameId s = mi_fFrameId s'" "mi_fVideo s = mi_fVideo s'" "mi_fAudioStarted s = mi_fAudioStarted s'"
    by (simp_all add: core_def)
qed

lemma core_feedback [simp]: "core (fst (cast_feedback p i n s)) = core s"
  by (simp add: cast_feedback_def core_def Let_def)

lemma core_xr [simp]: "core (xr_blocks clock p j stop ssrc s) = core s"
proof (induction clock p j stop ssrc s rule: xr_blocks.induct)
  case (1 clock p j stop ssrc s)
  then show ?case
    by (subst xr_blocks.simps) (simp add: Let_def, simp add: core_def reference_time_def Let_def)
qed

text \<open>A datagram is one of the packets in a cache.\<close>

definition cached :: "MirrorSession \<Rightarrow> bytes \<Rightarrow> bool" where
  "cached s d \<longleftrightarrow> (\<exists>cache \<in> {mi_fSentPackets s, mi_fAudioSentPackets s}. \<exists>(k, pkts) \<in> set cache. d \<in> set pkts)"

lemma cached_core: "core s = core s' \<Longrightarrow> cached s = cached s'"
  using core_fields [of s s'] by (simp add: cached_def fun_eq_iff)

lemma resend_packet: "d \<in> set (resend pkts pid) \<Longrightarrow> d \<in> set pkts"
  by (auto simp: resend_def split: if_splits)

lemma Retransmit_cached: "d \<in> set (Retransmit cache fid pid bits) \<Longrightarrow> \<exists>(k, pkts) \<in> set cache. d \<in> set pkts"
proof -
  assume d: "d \<in> set (Retransmit cache fid pid bits)"
  then obtain pkts where "map_of cache fid = Some pkts" by (cases "map_of cache fid") (auto simp: Retransmit_def)
  then have "(fid, pkts) \<in> set cache" "d \<in> set pkts"
    using d by (auto simp: Retransmit_def dest: map_of_SomeD resend_packet split: if_splits)
  then show ?thesis by blast
qed

lemma loss_fields_cached: "d \<in> set (loss_fields cache p fci stop n) \<Longrightarrow> \<exists>(k, pkts) \<in> set cache. d \<in> set pkts"
  by (induction cache p fci stop n rule: loss_fields.induct) (auto split: if_splits dest: Retransmit_cached)

lemma feedback_cached: "d \<in> set (snd (cast_feedback p i n s)) \<Longrightarrow> cached s d"
  by (auto simp: cast_feedback_def cached_def Let_def split: if_splits dest!: loss_fields_cached)

lemma rtcp_block_sends:
  "rtcp_block clock p i n s = (s', resent) \<Longrightarrow> core s' = core s \<and> list_all (cached s) resent"
  using feedback_cached [of _ p i n s] core_feedback [of p i n s]
  by (cases "cast_feedback p i n s") (auto simp: rtcp_block_def Let_def list_all_iff split: if_splits)

lemma rtcp_blocks_sends:
  "rtcp_blocks clock p i s = (s', resent) \<Longrightarrow> core s' = core s \<and> list_all (cached s) resent"
proof (induction clock p i s arbitrary: s' resent rule: rtcp_blocks.induct)
  case (1 clock p i s)
  show ?case
  proof (cases "i + 4 \<le> length p \<and> i + (unat (ReadBE16 p (i + 2)) + 1) * 4 \<le> length p")
    case True
    let ?n = "(unat (ReadBE16 p (i + 2)) + 1) * 4"
    obtain s1 r1 where b: "rtcp_block clock p i ?n s = (s1, r1)" by (metis prod.exhaust)
    obtain s2 r2 where bs: "rtcp_blocks clock p (i + ?n) s1 = (s2, r2)" by (metis prod.exhaust)
    have "core s2 = core s1 \<and> list_all (cached s1) r2"
      using "1.IH" True b bs by (simp add: Let_def)
    moreover note rtcp_block_sends [OF b] cached_core [of s1 s]
    ultimately show ?thesis using "1.prems" True b bs by (subst (asm) rtcp_blocks.simps) (auto simp: Let_def)
  next
    case False
    then show ?thesis using "1.prems" by (subst (asm) rtcp_blocks.simps) (auto simp: Let_def split: if_splits)
  qed
qed

lemma drain_sends: "drain_rtcp dgs s = (s', resent) \<Longrightarrow> core s' = core s \<and> list_all (cached s) resent"
proof (induction dgs s arbitrary: s' resent rule: drain_rtcp.induct)
  case (2 dg clock dgs s)
  obtain s1 r1 where b: "rtcp_blocks clock dg 0 s = (s1, r1)" by (metis prod.exhaust)
  obtain s2 r2 where bs: "drain_rtcp dgs s1 = (s2, r2)" by (metis prod.exhaust)
  show ?case
    using rtcp_blocks_sends [OF b] "2.IH" [of s1 r1 s2 r2] cached_core [of s1 s] "2.prems" b bs by auto
qed simp

definition is_report :: "sent \<Rightarrow> bool" where
  "is_report x \<longleftrightarrow> (case x of Report d \<Rightarrow> True | _ \<Rightarrow> False)"

lemma ServiceRtcp_sends:
  assumes "ServiceRtcp t s = (s', sent)"
  obtains reports resent where "sent = reports @ map Again resent" "list_all is_report reports" "core s' = core s" "list_all (cached s) resent"
proof -
  define s1 where "s1 = (if rc_now t - mi_fLastSrUs s \<ge> 200000 then s\<lparr>mi_fLastSrUs := rc_now t\<rparr> else s)"
  have c: "core s1 = core s" by (simp add: s1_def core_def)
  obtain s2 r2 where d: "drain_rtcp (take 64 (rc_datagrams t)) s1 = (s2, r2)" by (metis prod.exhaust)
  from drain_sends [OF d] c have "core s2 = core s" "list_all (cached s) r2" using cached_core [OF c] by auto
  moreover have "\<exists>reports. sent = reports @ map Again r2 \<and> list_all is_report reports" "s' = s2"
    using assms d by (simp_all add: ServiceRtcp_def Let_def s1_def [symmetric]) (auto simp: is_report_def)
  ultimately show ?thesis using that by blast
qed

section \<open>What is sent again was sent before\<close>

text \<open>Every packet sent once more is in \<open>seen\<close> or was sent as new before it.\<close>

fun repeats :: "bytes set \<Rightarrow> sent list \<Rightarrow> bool" where
  "repeats seen [] = True"
| "repeats seen (Video d # xs) = repeats (insert d seen) xs"
| "repeats seen (Audio d # xs) = repeats (insert d seen) xs"
| "repeats seen (Report d # xs) = repeats seen xs"
| "repeats seen (Again d # xs) = (d \<in> seen \<and> repeats seen xs)"

fun new_packet :: "sent \<Rightarrow> bytes option" where
  "new_packet (Video d) = Some d"
| "new_packet (Audio d) = Some d"
| "new_packet _ = None"

definition new_packets :: "sent list \<Rightarrow> bytes set" where
  "new_packets xs = set (List.map_filter new_packet xs)"

lemma new_packets_simps [simp]: "new_packets [] = {}" "new_packets (x # xs) = set_option (new_packet x) \<union> new_packets xs"
  "new_packets (xs @ ys) = new_packets xs \<union> new_packets ys"
  by (auto simp: new_packets_def map_filter_def split: option.split)

lemma repeats_append: "repeats seen (xs @ ys) \<longleftrightarrow> repeats seen xs \<and> repeats (seen \<union> new_packets xs) ys"
  by (induction seen xs rule: repeats.induct) simp_all

lemma repeats_new: "repeats seen (map Video ds)" "repeats seen (map Audio ds)"
  by (induction ds arbitrary: seen) simp_all

lemma repeats_again: "list_all (\<lambda>d. d \<in> seen) ds \<Longrightarrow> repeats seen (map Again ds)"
  by (induction ds) simp_all

lemma repeats_reports: "list_all is_report xs \<Longrightarrow> repeats seen xs \<and> new_packets xs = {}"
  by (induction seen xs rule: repeats.induct) (simp_all add: is_report_def)

lemma new_packets_map [simp]: "new_packets (map Video ds) = set ds" "new_packets (map Audio ds) = set ds" "new_packets (map Again ds) = {}"
  by (induction ds) simp_all

text \<open>All that is cached is known, and the caches hold the frames of their lists, which are short.\<close>

definition cache_ok :: "bytes set \<Rightarrow> nat \<Rightarrow> u8 list \<Rightarrow> sent_cache \<Rightarrow> bool" where
  "cache_ok seen limit order cache \<longleftrightarrow> map_ok cache \<and> fst ` set cache \<subseteq> set order \<and> length order \<le> limit \<and>
     (\<forall>(k, pkts) \<in> set cache. set pkts \<subseteq> seen)"

definition mirror_ok :: "bytes set \<Rightarrow> MirrorSession \<Rightarrow> bool" where
  "mirror_ok seen s \<longleftrightarrow> cache_ok seen 60 (mi_fCacheOrder s) (mi_fSentPackets s) \<and>
     cache_ok seen 120 (mi_fAudioCacheOrder s) (mi_fAudioSentPackets s)"

lemma cache_ok_mono: "cache_ok seen limit order cache \<Longrightarrow> seen \<subseteq> seen' \<Longrightarrow> cache_ok seen' limit order cache"
  unfolding cache_ok_def by blast

lemma mirror_ok_core: "core s = core s' \<Longrightarrow> mirror_ok seen s = mirror_ok seen s'"
  using core_fields [of s s'] by (simp add: mirror_ok_def)

lemma cached_seen: "mirror_ok seen s \<Longrightarrow> cached s d \<Longrightarrow> d \<in> seen"
  unfolding mirror_ok_def cache_ok_def cached_def by blast

lemma trim_cache_ok:
  assumes "map_ok cache" "fst ` set cache \<subseteq> set order" "\<forall>(k, pkts) \<in> set cache. set pkts \<subseteq> seen" "limit > 0"
  shows "trim_cache limit order cache = (order', cache') \<Longrightarrow> cache_ok seen limit order' cache'"
  using assms
proof (induction limit order cache arbitrary: order' cache' rule: trim_cache.induct)
  case (2 limit old order cache)
  show ?case
  proof (cases "length (old # order) > limit")
    case True
    let ?c = "if old \<in> set order then cache else AList.delete old cache"
    have sub: "set (AList.delete old cache) \<subseteq> set cache" by (auto simp: AList.delete_eq)
    have "fst ` set ?c \<subseteq> set order" "\<forall>(k, pkts) \<in> set ?c. set pkts \<subseteq> seen" "map_ok ?c"
      using "2.prems"(2-4) sub by (auto simp: AList.delete_eq)
    then show ?thesis using "2.IH" [OF True] "2.prems"(1,5) True by simp
  next
    case False
    then show ?thesis using "2.prems" by (auto simp: cache_ok_def)
  qed
qed (auto simp: cache_ok_def)

lemma remember_ok:
  assumes "cache_ok seen limit order cache" "limit > 0" "set pkts \<subseteq> seen'" "seen \<subseteq> seen'"
    "trim_cache limit (order @ [k]) (map_put k pkts cache) = (order', cache')"
  shows "cache_ok seen' limit order' cache'"
proof (rule trim_cache_ok [OF _ _ _ assms(2,5)])
  show "map_ok (map_put k pkts cache)" "fst ` set (map_put k pkts cache) \<subseteq> set (order @ [k])"
    using assms(1) by (auto simp: cache_ok_def)
  have "set v \<subseteq> seen'" if "(k', v) \<in> set (map_put k pkts cache)" for k' v
    using map_put_entries [OF that] assms(1,3,4) unfolding cache_ok_def by blast
  then show "\<forall>(k', pkts') \<in> set (map_put k pkts cache). set pkts' \<subseteq> seen'" by blast
qed

lemma send_video_ok: "send_video aes env ef s = (s', packets) \<Longrightarrow> mirror_ok seen s \<Longrightarrow> mirror_ok (seen \<union> set packets) s'"
  by (auto simp: send_video_def Let_def mirror_ok_def split: prod.splits intro: remember_ok [where limit = 60] cache_ok_mono)

lemma send_audio_ok: "send_audio aes env opus n s = (s', packets) \<Longrightarrow> mirror_ok seen s \<Longrightarrow> mirror_ok (seen \<union> set packets) s'"
  by (auto simp: send_audio_def Let_def mirror_ok_def split: prod.splits intro: remember_ok [where limit = 120] cache_ok_mono)

lemma send_videos_ok: "send_videos aes env efs s = (s', packets) \<Longrightarrow> mirror_ok seen s \<Longrightarrow> mirror_ok (seen \<union> set packets) s'"
proof (induction aes env efs s arbitrary: s' packets seen rule: send_videos.induct)
  case (2 aes env ef efs s)
  obtain s1 p1 where 1: "send_video aes env ef s = (s1, p1)" by (metis prod.exhaust)
  obtain s2 p2 where 2: "send_videos aes env efs s1 = (s2, p2)" by (metis prod.exhaust)
  show ?case
    using "2.IH" [of s1 p1 s2 p2 "seen \<union> set p1"] "2.prems" 1 2 send_video_ok [OF 1 "2.prems"(2)] by (auto simp: Un_assoc)
qed simp

lemma served_ok:
  assumes "mirror_ok seen s" "ServiceRtcp t s = (s', xs)"
  shows "mirror_ok seen s' \<and> repeats seen xs \<and> new_packets xs = {}"
proof -
  obtain reports resent where xs: "xs = reports @ map Again resent" "list_all is_report reports" "core s' = core s"
      "list_all (cached s) resent"
    using ServiceRtcp_sends [OF assms(2)] by blast
  have "list_all (\<lambda>d. d \<in> seen) resent" using xs(4) cached_seen [OF assms(1)] by (simp add: list_all_iff)
  then show ?thesis using repeats_reports [OF xs(2), of seen] mirror_ok_core [OF xs(3)] assms(1)
    by (simp add: xs(1) repeats_append repeats_again)
qed

lemma mirror_call_ok:
  assumes "mirror_ok seen s" "mirror_call aes env c s = (s', xs)"
  shows "mirror_ok (seen \<union> new_packets xs) s' \<and> repeats seen xs"
proof (cases c)
  case (MC_Frame answer oks t)
  show ?thesis
  proof (cases "mi_fStarted s \<and> answer \<noteq> None")
    case True
    then obtain frames where f: "answer = Some frames" by auto
    obtain s1 packets where 1: "send_videos aes env frames s = (s1, packets)" by (metis prod.exhaust)
    obtain s2 served where 2: "ServiceRtcp t s1 = (s2, served)" by (metis prod.exhaust)
    show ?thesis using assms(2) True f 1 2 send_videos_ok [OF 1 assms(1)] served_ok [OF _ 2]
      by (auto simp: MC_Frame SendFrame_def repeats_append repeats_new)
  next
    case False
    then show ?thesis using assms by (cases answer) (auto simp: MC_Frame SendFrame_def split: if_splits)
  qed
next
  case (MC_Audio answer n oks t)
  show ?thesis
  proof (cases "mi_fStarted s \<and> mi_fAudioStarted s \<and> answer \<noteq> None")
    case True
    then obtain opus where f: "answer = Some opus" by auto
    obtain s1 packets where 1: "send_audio aes env opus n s = (s1, packets)" by (metis prod.exhaust)
    obtain s2 served where 2: "ServiceRtcp t s1 = (s2, served)" by (metis prod.exhaust)
    show ?thesis using assms(2) True f 1 2 send_audio_ok [OF 1 assms(1)] served_ok [OF _ 2]
      by (auto simp: MC_Audio SendAudio_def repeats_append repeats_new)
  next
    case False
    then show ?thesis using assms by (cases answer) (auto simp: MC_Audio SendAudio_def split: if_splits)
  qed
next
  case (MC_StartAudio encoder)
  then show ?thesis using assms by (auto simp: StartAudio_def mirror_ok_def split: if_splits)
qed

lemma mirror_calls_ok: "mirror_calls aes env cs s = (s', xs) \<Longrightarrow> mirror_ok seen s \<Longrightarrow> mirror_ok (seen \<union> new_packets xs) s' \<and> repeats seen xs"
proof (induction cs arbitrary: s s' xs seen)
  case (Cons c cs)
  obtain s1 x1 where 1: "mirror_call aes env c s = (s1, x1)" by (metis prod.exhaust)
  obtain s2 x2 where 2: "mirror_calls aes env cs s1 = (s2, x2)" by (metis prod.exhaust)
  show ?case
    using mirror_call_ok [OF Cons.prems(2) 1] Cons.IH [OF 2] Cons.prems(1) 1 2 by (auto simp: repeats_append Un_assoc [symmetric])
qed simp

text \<open>
  Whatever a receiver asks for, a session sends again only what it sent before. Over any calls, any
  answers of the encoders and any datagrams of the receiver, each repeated packet is one that went out as
  new earlier, the packets of at most 60 pictures and 120 pieces of sound are kept, and every packet that
  is kept is one that was sent.
\<close>

theorem resent_was_sent:
  "let (s, sent) = mirror_calls aes env cs (begin_stream fps MirrorSession) in
   repeats {} sent \<and> mirror_ok (new_packets sent) s"
proof -
  obtain s sent where r: "mirror_calls aes env cs (begin_stream fps MirrorSession) = (s, sent)" by (metis prod.exhaust)
  have ok: "mirror_ok {} (begin_stream fps MirrorSession)"
    by (simp add: mirror_ok_def cache_ok_def begin_stream_def MirrorSession_def Let_def)
  show ?thesis using mirror_calls_ok [OF r ok] by (simp add: r)
qed

section \<open>Pictures arrive\<close>

definition video_packets :: "sent list \<Rightarrow> bytes list" where
  "video_packets xs = List.map_filter (\<lambda>x. case x of Video d \<Rightarrow> Some d | _ \<Rightarrow> None) xs"

lemma video_packets_simps [simp]: "video_packets (xs @ ys) = video_packets xs @ video_packets ys"
  "video_packets [] = []" "video_packets (map Video ds) = ds" "video_packets (map Audio ds) = []" "video_packets (map Again ds) = []"
  by (simp_all add: video_packets_def map_filter_def comp_def)

lemma video_packets_reports: "list_all is_report xs \<Longrightarrow> video_packets xs = []"
  by (induction xs) (auto simp: video_packets_def map_filter_def is_report_def split: sent.splits)

text \<open>The encoded pictures of the calls, while the session is running.\<close>

fun frames_of :: "mirror_request list \<Rightarrow> EncodedFrame list" where
  "frames_of [] = []"
| "frames_of (MC_Frame (Some frames) oks t # cs) = frames @ frames_of cs"
| "frames_of (_ # cs) = frames_of cs"

text \<open>Each group of packets is a picture's, encrypted under the number it has, counted from \<open>k\<close>.\<close>

fun carried :: "(bytes \<Rightarrow> bytes \<Rightarrow> bytes \<Rightarrow> bytes) \<Rightarrow> int option \<Rightarrow> FrameCrypto \<Rightarrow> u32 \<Rightarrow> EncodedFrame list \<Rightarrow> bytes list list \<Rightarrow> bool" where
  "carried aes env c k [] [] = True"
| "carried aes env c k (ef # efs) (P # Ps) =
    ((\<exists>h. P = Packetize h (Encrypt aes env c k (ef_data ef)) 1400) \<and> carried aes env c (k + 1) efs Ps)"
| "carried aes env c k _ _ = False"

lemma carried_append:
  "carried aes env c k efs Ps \<Longrightarrow> carried aes env c (k + of_nat (length efs)) efs' Ps' \<Longrightarrow> carried aes env c k (efs @ efs') (Ps @ Ps')"
  by (induction aes env c k efs Ps rule: carried.induct) (auto simp: ac_simps)

lemma carried_length: "carried aes env c k efs Ps \<Longrightarrow> length Ps = length efs"
  by (induction aes env c k efs Ps rule: carried.induct) auto

lemma carried_nth:
  "carried aes env c k efs Ps \<Longrightarrow> i < length efs \<Longrightarrow> \<exists>h. Ps ! i = Packetize h (Encrypt aes env c (k + of_nat i) (ef_data (efs ! i))) 1400"
proof (induction aes env c k efs Ps arbitrary: i rule: carried.induct)
  case (2 aes env c k ef efs P Ps)
  then show ?case by (cases i) (auto simp: ac_simps)
qed auto

lemma send_videos_carried:
  "send_videos aes env efs s = (s', packets) \<Longrightarrow> \<exists>Ps. packets = concat Ps \<and> carried aes env (mi_fVideo s) (mi_fFrameId s) efs Ps \<and>
    mi_fVideo s' = mi_fVideo s \<and> mi_fFrameId s' = mi_fFrameId s + of_nat (length efs) \<and> mi_fStarted s' = mi_fStarted s"
proof (induction aes env efs s arbitrary: s' packets rule: send_videos.induct)
  case (1 aes env s)
  then show ?case by (auto intro: exI [of _ "[]"])
next
  case (2 aes env ef efs s)
  obtain s1 p1 where 1: "send_video aes env ef s = (s1, p1)" by (metis prod.exhaust)
  obtain s2 p2 where 2: "send_videos aes env efs s1 = (s2, p2)" by (metis prod.exhaust)
  have s1: "mi_fVideo s1 = mi_fVideo s" "mi_fFrameId s1 = mi_fFrameId s + 1" "mi_fStarted s1 = mi_fStarted s"
    "\<exists>h. p1 = Packetize h (Encrypt aes env (mi_fVideo s) (mi_fFrameId s) (ef_data ef)) 1400"
    using 1 by (auto simp: send_video_def Let_def split: prod.splits)
  obtain Ps where "p2 = concat Ps" "carried aes env (mi_fVideo s1) (mi_fFrameId s1) efs Ps" "mi_fVideo s2 = mi_fVideo s1"
    "mi_fFrameId s2 = mi_fFrameId s1 + of_nat (length efs)" "mi_fStarted s2 = mi_fStarted s1"
    using "2.IH" [OF 1 [symmetric] 2] by blast
  then show ?case using 1 2 s1 "2.prems" by (intro exI [of _ "p1 # Ps"]) (auto simp: ac_simps)
qed

lemma ServiceRtcp_silent:
  assumes "ServiceRtcp t s = (s', xs)"
  shows "video_packets xs = [] \<and> core s' = core s"
  using ServiceRtcp_sends [OF assms] video_packets_reports by (metis append_Nil video_packets_simps(1,5))

lemma mirror_call_carried:
  assumes "mirror_call aes env c s = (s', xs)" "mi_fStarted s"
  shows "\<exists>Ps. video_packets xs = concat Ps \<and> carried aes env (mi_fVideo s) (mi_fFrameId s) (frames_of [c]) Ps \<and>
    mi_fVideo s' = mi_fVideo s \<and> mi_fFrameId s' = mi_fFrameId s + of_nat (length (frames_of [c])) \<and> mi_fStarted s'"
proof -
  have none: ?thesis if "video_packets xs = []" "frames_of [c] = []" "mi_fVideo s' = mi_fVideo s" "mi_fFrameId s' = mi_fFrameId s"
    "mi_fStarted s'" using that by (intro exI [of _ "[]"]) simp
  show ?thesis
  proof (cases c)
    case (MC_Frame answer oks t)
    show ?thesis
    proof (cases answer)
      case None
      then show ?thesis using assms by (intro none) (auto simp: MC_Frame SendFrame_def)
    next
      case (Some frames)
      obtain s1 packets where 1: "send_videos aes env frames s = (s1, packets)" by (metis prod.exhaust)
      obtain s2 served where 2: "ServiceRtcp t s1 = (s2, served)" by (metis prod.exhaust)
      note core = ServiceRtcp_silent [OF 2] core_fields [of s2 s1]
      show ?thesis using send_videos_carried [OF 1] assms 1 2 core by (auto simp: MC_Frame Some SendFrame_def)
    qed
  next
    case (MC_Audio answer n oks t)
    show ?thesis
    proof (cases "mi_fAudioStarted s \<and> answer \<noteq> None")
      case True
      then obtain opus where f: "answer = Some opus" by auto
      obtain s1 packets where 1: "send_audio aes env opus n s = (s1, packets)" by (metis prod.exhaust)
      obtain s2 served where 2: "ServiceRtcp t s1 = (s2, served)" by (metis prod.exhaust)
      have "mi_fVideo s1 = mi_fVideo s" "mi_fFrameId s1 = mi_fFrameId s" "mi_fStarted s1 = mi_fStarted s"
        using 1 by (auto simp: send_audio_def Let_def split: prod.splits)
      then show ?thesis using assms True f 1 2 ServiceRtcp_silent [OF 2] core_fields [of s2 s1]
        by (intro none) (auto simp: MC_Audio SendAudio_def)
    next
      case False
      then have "(s', xs) = (s, [])" using assms by (cases answer) (auto simp: MC_Audio SendAudio_def split: if_splits)
      then show ?thesis using assms(2) by (intro none) (simp_all add: MC_Audio)
    qed
  next
    case (MC_StartAudio encoder)
    then have "xs = []" "s' = snd (StartAudio encoder s)" using assms(1) by auto
    moreover have "mi_fVideo (snd (StartAudio encoder s)) = mi_fVideo s" "mi_fFrameId (snd (StartAudio encoder s)) = mi_fFrameId s"
      "mi_fStarted (snd (StartAudio encoder s)) = mi_fStarted s"
      by (simp_all add: StartAudio_def)
    ultimately show ?thesis using assms(2) by (intro none) (simp_all add: MC_StartAudio)
  qed
qed

lemma frames_of_Cons: "frames_of (c # cs) = frames_of [c] @ frames_of cs"
  by (cases "(c # cs)" rule: frames_of.cases) auto

lemma mirror_calls_carried:
  "mirror_calls aes env cs s = (s', xs) \<Longrightarrow> mi_fStarted s \<Longrightarrow>
    \<exists>Ps. video_packets xs = concat Ps \<and> carried aes env (mi_fVideo s) (mi_fFrameId s) (frames_of cs) Ps"
proof (induction cs arbitrary: s s' xs)
  case Nil
  then show ?case by (auto intro: exI [of _ "[]"])
next
  case (Cons c cs)
  obtain s1 x1 where 1: "mirror_call aes env c s = (s1, x1)" by (metis prod.exhaust)
  obtain s2 x2 where 2: "mirror_calls aes env cs s1 = (s2, x2)" by (metis prod.exhaust)
  obtain P1 where P1: "video_packets x1 = concat P1" "carried aes env (mi_fVideo s) (mi_fFrameId s) (frames_of [c]) P1"
    "mi_fVideo s1 = mi_fVideo s" "mi_fFrameId s1 = mi_fFrameId s + of_nat (length (frames_of [c]))" "mi_fStarted s1"
    using mirror_call_carried [OF 1 Cons.prems(2)] by blast
  obtain P2 where P2: "video_packets x2 = concat P2" "carried aes env (mi_fVideo s1) (mi_fFrameId s1) (frames_of cs) P2"
    using Cons.IH [OF 2 P1(5)] by blast
  show ?case
    using carried_append [OF P1(2)] P1(1,3,4) P2 Cons.prems(1) 1 2 unfolding frames_of_Cons [of c cs]
    by (intro exI [of _ "P1 @ P2"]) auto
qed

lemma packets_fit: "length x \<le> 2 ^ 26 \<Longrightarrow> length (Packetize h x 1400) \<le> 65536"
proof -
  assume x: "length x \<le> 2 ^ 26"
  have "packet_count (length x) m \<le> 65536" if "m = 1381 \<or> m = 1382" for m
    using that x unfolding packet_count_def by auto
  then show ?thesis by (simp add: Packetize_def Let_def CastHeaderSize_def)
qed

lemma distinct_nonces:
  assumes "length iv = 16" "n \<le> 2 ^ 32"
  shows "inj_on (\<lambda>i. CastNonce env (k + of_nat i) iv) {..<n}"
proof (rule inj_onI)
  fix i j
  assume i: "i \<in> {..<n}" and j: "j \<in> {..<n}" and "CastNonce env (k + of_nat i) iv = CastNonce env (k + of_nat j) iv"
  then have "k + of_nat i = k + of_nat j" using nonces_differ [OF assms(1)] by blast
  then have "unat (of_nat i :: u32) = unat (of_nat j :: u32)" by simp
  then show "i = j" using i j assms(2) by (simp add: unat_of_nat)
qed

text \<open>
  C34: A mirrored picture arrives whole or not at all, and no nonce is used twice. Over any calls of a running
  session the video packets are, in order, the groups of one picture each; from the packets of a group,
  in any order and repeated at will, the receiver gets the picture back when none is missing and nothing
  otherwise; and the nonces of up to \<open>2 ^ 32\<close> pictures are all different.
\<close>

theorem mirrored_pictures_arrive:
  assumes "\<And>key nonce x. aes key nonce (aes key nonce x) = x" "\<And>key nonce x. length (aes key nonce x) = length x"
    and "mi_fStarted s" "length (fc_fIvMask (mi_fVideo s)) = 16"
    and "list_all (\<lambda>ef. length (ef_data ef) \<le> 2 ^ 26) (frames_of cs)" "length (frames_of cs) \<le> 2 ^ 32"
  shows "\<exists>Ps. video_packets (snd (mirror_calls aes env cs s)) = concat Ps \<and> length Ps = length (frames_of cs) \<and>
    (\<forall>i < length Ps. \<forall>packets. set packets \<subseteq> set (Ps ! i) \<longrightarrow>
       (if set (Ps ! i) \<subseteq> set packets
        then Decrypt aes env (mi_fVideo s) (mi_fFrameId s + of_nat i) (Reassemble packets) = ef_data (frames_of cs ! i)
        else Reassemble packets = [])) \<and>
    inj_on (\<lambda>i. CastNonce env (mi_fFrameId s + of_nat i) (fc_fIvMask (mi_fVideo s))) {..<length Ps}"
proof -
  obtain s' xs where r: "mirror_calls aes env cs s = (s', xs)" by (metis prod.exhaust)
  obtain Ps where Ps: "video_packets xs = concat Ps" "carried aes env (mi_fVideo s) (mi_fFrameId s) (frames_of cs) Ps"
    using mirror_calls_carried [OF r assms(3)] by blast
  note len = carried_length [OF Ps(2)]
  have "if set (Ps ! i) \<subseteq> set packets
      then Decrypt aes env (mi_fVideo s) (mi_fFrameId s + of_nat i) (Reassemble packets) = ef_data (frames_of cs ! i)
      else Reassemble packets = []" if i: "i < length Ps" and sub: "set packets \<subseteq> set (Ps ! i)" for i packets
  proof -
    let ?x = "Encrypt aes env (mi_fVideo s) (mi_fFrameId s + of_nat i) (ef_data (frames_of cs ! i))"
    obtain h where h: "Ps ! i = Packetize h ?x 1400" using carried_nth [OF Ps(2)] i len by metis
    have "length ?x \<le> 2 ^ 26" using assms(2,5) i len by (simp add: Encrypt_def list_all_length)
    then have "Reassemble packets = (if set (Ps ! i) \<subseteq> set packets then ?x else [])"
      using frame_or_nothing [of h 1400 ?x packets] packets_fit sub by (simp add: h CastHeaderSize_def)
    then show ?thesis using assms(1) by (simp add: Decrypt_def Encrypt_def)
  qed
  then show ?thesis using Ps(1) len distinct_nonces [OF assms(4), of "length Ps" env "mi_fFrameId s"] assms(6)
    by (intro exI [of _ Ps]) (simp add: r)
qed

definition quiet :: rtcp_input where
  "quiet = \<lparr>rc_now = 0, rc_video = \<lparr>rt_sec = 0, rt_usec = 0, rt_now = 0\<rparr>, rc_audio = \<lparr>rt_sec = 0, rt_usec = 0, rt_now = 0\<rparr>,
     rc_datagrams = []\<rparr>"

theorem mirrored_pictures_arrive_witness:
  "\<exists>Ps. video_packets (snd (mirror_calls (\<lambda>key nonce. map (\<lambda>b. b XOR 0x5A)) None
      [MC_Frame (Some [\<lparr>ef_data = [1, 2, 3], ef_key = True\<rparr>]) (\<lambda>_. True) quiet] (begin_stream 30 MirrorSession))) = concat Ps \<and>
    length Ps = 1 \<and>
    Decrypt (\<lambda>key nonce. map (\<lambda>b. b XOR 0x5A)) None (mi_fVideo (begin_stream 30 MirrorSession)) 0 (Reassemble (Ps ! 0)) = [1, 2, 3]"
proof -
  let ?aes = "\<lambda>(key :: bytes) (nonce :: bytes). map (\<lambda>b :: u8. b XOR 0x5A)" and ?s = "begin_stream 30 MirrorSession"
  have aes: "?aes key nonce (?aes key nonce x) = x" "length (?aes key nonce x) = length x" for key nonce x
    by (simp_all add: comp_def xor.assoc)
  have s: "mi_fStarted ?s" "length (fc_fIvMask (mi_fVideo ?s)) = 16" "mi_fFrameId ?s = 0"
    by (simp_all add: begin_stream_def MirrorSession_def Let_def)
  show ?thesis
    using mirrored_pictures_arrive [of ?aes ?s "[MC_Frame (Some [\<lparr>ef_data = [1, 2, 3], ef_key = True\<rparr>]) (\<lambda>_. True) quiet]" None,
        OF aes s(1,2)] s(3)
    by (fastforce simp: dest: spec [of _ 0])
qed

end
