(* ===== verification/MediaServer.thy ===== *)
theory MediaServer
  imports Labels Connection PeerLife
begin

text \<open>
  The HTTP server a Cast receiver fetches a local file or the screen preview from,
  \<open>optional/cast/MediaServer.cpp\<close>: one request per connection, with byte ranges. The sockets are lists of
  outcomes, one per \<open>recv\<close> or \<open>send\<close>, as in the framed connection; the open file is its size and what a
  read at a position finds. Positions and lengths are integers, as \<open>off_t\<close> is signed.
\<close>

section \<open>The server\<close>

definition media_types :: "(string \<times> string) list" where
  "media_types = [(''.mp4'', ''video/mp4''), (''.m4v'', ''video/mp4''), (''.webm'', ''video/webm''),
     (''.mkv'', ''video/x-matroska''), (''.mov'', ''video/quicktime''), (''.m3u8'', ''application/x-mpegurl''),
     (''.mpd'', ''application/dash+xml''), (''.mp3'', ''audio/mpeg''), (''.m4a'', ''audio/aac''), (''.aac'', ''audio/aac''),
     (''.ogg'', ''audio/ogg''), (''.opus'', ''audio/ogg''), (''.flac'', ''audio/flac''), (''.wav'', ''audio/wav''),
     (''.jpg'', ''image/jpeg''), (''.jpeg'', ''image/jpeg''), (''.png'', ''image/png'')]"

definition GuessMediaType :: "string \<Rightarrow> string" where
  "GuessMediaType name = (case find (\<lambda>(ext, _). EndsWith (Lower name) ext) media_types of
     Some (_, type) \<Rightarrow> type | None \<Rightarrow> ''application/octet-stream'')"

record MediaServer =
  me_fListen :: int
  me_fPort :: int
  me_fPath :: string
  me_fContentType :: string
  me_fBufferMode :: bool
  me_fBuffer :: string

definition MediaServer :: MediaServer where
  "MediaServer = \<lparr>me_fListen = - 1, me_fPort = 0, me_fPath = [], me_fContentType = [], me_fBufferMode = False, me_fBuffer = []\<rparr>"

definition Media_Stop :: "MediaServer \<Rightarrow> MediaServer" where
  "Media_Stop me = (if me_fListen me < 0 then me else me\<lparr>me_fListen := - 1, me_fPort := 0\<rparr>)"

text \<open>\<open>bound\<close> is the listening descriptor and its port, when the calls that make them succeeded.\<close>

definition StartListener :: "(int \<times> int) option \<Rightarrow> MediaServer \<Rightarrow> int \<times> MediaServer" where
  "StartListener bound me = (case bound of None \<Rightarrow> (0, me) | Some (fd, port) \<Rightarrow> (port, me\<lparr>me_fListen := fd, me_fPort := port\<rparr>))"

definition Serve :: "bool \<Rightarrow> (int \<times> int) option \<Rightarrow> string \<Rightarrow> string \<Rightarrow> MediaServer \<Rightarrow> int \<times> MediaServer" where
  "Serve regular bound filePath contentType me = (let me = Media_Stop me in
     if \<not> regular then (0, me)
     else StartListener bound (me\<lparr>me_fBufferMode := False, me_fPath := filePath,
       me_fContentType := (if contentType = [] then GuessMediaType filePath else contentType)\<rparr>))"

definition ServeBuffer :: "(int \<times> int) option \<Rightarrow> string \<Rightarrow> MediaServer \<Rightarrow> int \<times> MediaServer" where
  "ServeBuffer bound contentType me = StartListener bound ((Media_Stop me)\<lparr>me_fBufferMode := True, me_fPath := [],
     me_fContentType := (if contentType = [] then ''application/octet-stream'' else contentType), me_fBuffer := []\<rparr>)"

definition UpdateBuffer :: "string \<Rightarrow> MediaServer \<Rightarrow> MediaServer" where
  "UpdateBuffer bytes me = me\<lparr>me_fBuffer := bytes\<rparr>"

section \<open>A request\<close>

definition crlf :: string where "crlf = [CHR 0x0D, CHR 0x0A]"

definition blank_line :: string where "blank_line = crlf @ crlf"

text \<open>
  The head of the request, \<open>Some None\<close> when it never came. A \<open>recv\<close> has room for 1024 bytes, which what
  it delivers does not exceed; there is no result when it blocks.
\<close>

fun ReadHead :: "string \<Rightarrow> recv_outcome list \<Rightarrow> string option option" where
  "ReadHead head [] = (if \<not> contains head blank_line \<and> length head < 16384 then None
     else Some (if contains head blank_line then Some head else None))"
| "ReadHead head (x # outcomes) = (if \<not> contains head blank_line \<and> length head < 16384
     then (case x of
         Received d \<Rightarrow> if d = [] then Some None else ReadHead (head @ string_of_bytes d) outcomes
       | _ \<Rightarrow> Some None)
     else Some (if contains head blank_line then Some head else None))"

text \<open>The result and the range, whose first and last position are output parameters with values already.\<close>

definition clamp_range :: "int \<Rightarrow> int \<Rightarrow> int \<Rightarrow> bool \<times> int \<times> int" where
  "clamp_range sz first final = (let first = (if first < 0 then 0 else first); final = (if final \<ge> sz then sz - 1 else final)
     in (first \<le> final, first, final))"

definition ParseRange :: "string \<Rightarrow> int \<Rightarrow> int \<times> int \<Rightarrow> bool \<times> int \<times> int" where
  "ParseRange head sz fromto = (case split_marker ''range:'' (Lower head) of None \<Rightarrow> (False, fromto)
    | Some (_, r) \<Rightarrow> (case split_marker ''bytes='' (''range:'' @ r) of None \<Rightarrow> (False, fromto)
      | Some (_, r) \<Rightarrow>
          if CHR ''-'' \<notin> set r then (False, fromto)
          else let s = takeWhile (\<lambda>c. c \<noteq> CHR ''-'') r;
                   e = takeWhile (\<lambda>c. c \<noteq> CHR 0x0D \<and> c \<noteq> CHR 0x0A) (tl (dropWhile (\<lambda>c. c \<noteq> CHR ''-'') r))
            in if s = [] then
                 (if strtoll e \<le> 0 then (False, fromto)
                  else clamp_range sz (if strtoll e \<ge> sz then 0 else sz - strtoll e) (sz - 1))
               else clamp_range sz (strtoll s) (if e = [] then sz - 1 else strtoll e)))"

section \<open>The answer\<close>

text \<open>A \<open>send\<close> that fails or takes nothing ends it; the bytes taken and the outcomes left.\<close>

fun SendAll :: "bytes \<Rightarrow> send_outcome list \<Rightarrow> (bool \<times> bytes \<times> send_outcome list) option" where
  "SendAll [] outcomes = Some (True, [], outcomes)"
| "SendAll data [] = None"
| "SendAll data (Sent n # outcomes) =
    (if n = 0 then Some (False, [], outcomes)
     else case SendAll (drop n data) outcomes of
       None \<Rightarrow> None
     | Some (good, taken, outcomes) \<Rightarrow> Some (good, take n data @ taken, outcomes))"
| "SendAll data (_ # outcomes) = Some (False, [], outcomes)"

definition not_found :: string where
  "not_found = ''HTTP/1.1 404 Not Found'' @ crlf @ ''Content-Length: 0'' @ crlf @ ''Connection: close'' @ blank_line"

definition reply_head :: "string \<Rightarrow> bool \<Rightarrow> int \<Rightarrow> int \<Rightarrow> int \<Rightarrow> int \<Rightarrow> string" where
  "reply_head type partial first final sz len = snprintf 512
    (if partial then ''HTTP/1.1 206 Partial Content'' @ crlf @ ''Content-Type: '' @ c_str type @ crlf
       @ ''Accept-Ranges: bytes'' @ crlf @ ''Content-Range: bytes '' @ show_long first @ ''-'' @ show_long final @ ''/'' @ show_long sz @ crlf
       @ ''Content-Length: '' @ show_long len @ crlf @ ''Connection: close'' @ blank_line
     else ''HTTP/1.1 200 OK'' @ crlf @ ''Content-Type: '' @ c_str type @ crlf @ ''Accept-Ranges: bytes'' @ crlf
       @ ''Content-Length: '' @ show_long sz @ crlf @ ''Connection: close'' @ blank_line)"

text \<open>An open file: its size as \<open>ftell\<close> tells it, and what reading from a position on finds.\<close>

record open_file =
  of_size :: int
  of_read :: "int \<Rightarrow> string"

text \<open>The loop that copies \<open>remaining\<close> bytes in buffers of 65536.\<close>

function send_file :: "(int \<Rightarrow> string) \<Rightarrow> int \<Rightarrow> int \<Rightarrow> send_outcome list \<Rightarrow> bytes option" where
  "send_file rd pos remaining outs =
    (if remaining \<le> 0 then Some []
     else let got = take (nat (min remaining 65536)) (rd pos) in
       if got = [] then Some []
       else (case SendAll (bytes_of_string got) outs of
           None \<Rightarrow> None
         | Some (good, sent, outs) \<Rightarrow> if \<not> good then Some sent
             else map_option ((@) sent) (send_file rd (pos + int (length got)) (remaining - int (length got)) outs)))"
  by pat_completeness auto
termination
proof (relation "measure (\<lambda>(rd, pos, remaining, outs). nat remaining)", simp, goal_cases)
  case (1 rd pos remaining outs got)
  then have "0 < length got" "int (length got) \<le> remaining" by (auto simp: min_def)
  then show ?case using 1(1) by simp
qed

declare send_file.simps [simp del]

text \<open>
  What was sent, or that \<open>send\<close> is given memory outside the buffer: what was sent before, and the
  position and the length.
\<close>

datatype handled = Handled bytes | Outside bytes int int

definition HandleClient :: "MediaServer \<Rightarrow> open_file option \<Rightarrow> recv_outcome list \<Rightarrow> send_outcome list \<Rightarrow> handled option" where
  "HandleClient me opened ins outs = (case ReadHead [] ins of
     None \<Rightarrow> None
   | Some None \<Rightarrow> Some (Handled [])
   | Some (Some head) \<Rightarrow>
      if \<not> me_fBufferMode me \<and> Option.is_none opened then
        map_option (\<lambda>(_, sent, _). Handled sent) (SendAll (bytes_of_string not_found) outs)
      else let sz = (if me_fBufferMode me then int (length (me_fBuffer me)) else of_size (the opened)) in
        (case (if sz > 0 then ParseRange head sz (0, sz - 1) else (False, 0, 0)) of (partial, first, final) \<Rightarrow>
         let len = (if sz > 0 then final - first + 1 else 0) in
         (case SendAll (bytes_of_string (reply_head (me_fContentType me) partial first final sz len)) outs of
           None \<Rightarrow> None
         | Some (good, sent, outs) \<Rightarrow>
             if \<not> good \<or> take 5 head = ''HEAD '' \<or> len = 0 then Some (Handled sent)
             else if me_fBufferMode me then
               (if len < 0 \<or> first + len > sz then Some (Outside sent first len)
                else map_option (\<lambda>(_, sent', _). Handled (sent @ sent'))
                  (SendAll (bytes_of_string (take (nat len) (drop (nat first) (me_fBuffer me)))) outs))
             else map_option (\<lambda>sent'. Handled (sent @ sent')) (send_file (of_read (the opened)) first len outs))))"

text \<open>The server over time: what each client is sent, with the updates of the buffer in between.\<close>

datatype media_event = Update string | Client_Comes "open_file option" "recv_outcome list" "send_outcome list"

fun AcceptLoop :: "MediaServer \<Rightarrow> media_event list \<Rightarrow> handled option list \<times> MediaServer" where
  "AcceptLoop me [] = ([], me)"
| "AcceptLoop me (Update bytes # es) = AcceptLoop (UpdateBuffer bytes me) es"
| "AcceptLoop me (Client_Comes opened ins outs # es) =
    (case AcceptLoop me es of (rs, me') \<Rightarrow> (HandleClient me opened ins outs # rs, me'))"


section \<open>Text that is found\<close>

lemma split_marker_first:
  "split_marker m (pre @ butlast m) = None \<Longrightarrow> m \<noteq> [] \<Longrightarrow> split_marker m (pre @ m @ post) = Some (pre, post)"
proof (induction pre)
  case Nil
  then show ?case by (cases m) auto
next
  case (Cons c pre)
  have "take (length m) (c # pre @ m @ post) = take (length m) (c # pre @ butlast m)"
    using Cons.prems(2) by (cases m rule: rev_cases) (simp_all add: take_Cons')
  then show ?case using Cons by (auto split: if_splits)
qed

lemma not_contains_prefix: "\<not> contains (s @ t) m \<Longrightarrow> \<not> contains s m"
  unfolding contains_def
proof (induction s)
  case Nil
  then show ?case by (cases t) (auto split: if_splits)
next
  case (Cons c s)
  have "take (length m) (c # s) \<noteq> m"
  proof
    assume a: "take (length m) (c # s) = m"
    then have "length m \<le> length (c # s)" by (metis length_take min.cobounded1)
    then have "take (length m) (c # s @ t) = m" using a by (metis append_Cons append_eq_conv_conj append_take_drop_id take_append take_all_iff diff_is_0_eq take0 append_Nil2)
    then show False using Cons.prems by simp
  qed
  then show ?case using Cons by (auto split: if_splits)
qed

section \<open>A request in pieces\<close>

definition pieces :: "string \<Rightarrow> recv_outcome list \<Rightarrow> bool" where
  "pieces req ins \<longleftrightarrow> list_all (\<lambda>x. \<exists>d. x = Received d \<and> d \<noteq> []) ins \<and> string_of_bytes (delivered ins) = req"

text \<open>A head: its first blank line is its end.\<close>

definition request_head :: "string \<Rightarrow> bool" where
  "request_head req \<longleftrightarrow> contains req blank_line \<and> \<not> contains (butlast req) blank_line \<and> length req \<le> 16384"

lemma ReadHead_pieces:
  assumes "request_head req"
  shows "pieces rest ins \<Longrightarrow> head @ rest = req \<Longrightarrow> ReadHead head ins = Some (Some req)"
proof (induction ins arbitrary: head rest)
  case Nil
  then show ?case using assms by (simp add: pieces_def request_head_def string_of_bytes_def)
next
  case (Cons x ins)
  obtain d where x: "x = Received d" "d \<noteq> []" and r: "rest = string_of_bytes d @ string_of_bytes (delivered ins)"
    using Cons.prems(1) by (auto simp: pieces_def string_of_bytes_def)
  then have ne: "rest \<noteq> []" by (simp add: string_of_bytes_def)
  then have "butlast req = head @ butlast rest" "length head < length req"
    using Cons.prems(2) by (auto simp: butlast_append)
  then have "\<not> contains head blank_line" "length head < 16384"
    using assms not_contains_prefix [of head "butlast rest"] by (simp_all add: request_head_def)
  moreover have "ReadHead (head @ string_of_bytes d) ins = Some (Some req)"
    using Cons.IH [of "string_of_bytes (delivered ins)" "head @ string_of_bytes d"] Cons.prems r by (simp add: pieces_def)
  ultimately show ?case using x by simp
qed

lemma SendAll_sends:
  "list_all sends outs \<Longrightarrow> length data \<le> length outs \<Longrightarrow>
    \<exists>rest. SendAll data outs = Some (True, data, rest) \<and> list_all sends rest \<and> length outs \<le> length rest + length data"
proof (induction data outs rule: SendAll.induct)
  case (3 b bs n outs)
  then have n: "n \<noteq> 0" "list_all sends outs" by simp_all (simp add: sends_def)
  then have "length (drop n (b # bs)) \<le> length outs" "length (drop n (b # bs)) \<le> length bs" using 3(3) by simp_all
  then show ?case using n 3(1) by fastforce
qed (auto simp: sends_def)

lemma send_file_content:
  "list_all sends outs \<Longrightarrow> remaining \<le> int (length outs) \<Longrightarrow> 0 \<le> pos \<Longrightarrow> pos + remaining \<le> int (length content) \<Longrightarrow>
    send_file (\<lambda>pos. drop (nat pos) content) pos remaining outs =
      Some (bytes_of_string (take (nat remaining) (drop (nat pos) content)))"
proof (induction "\<lambda>pos :: int. drop (nat pos) content" pos remaining outs rule: send_file.induct)
  case (1 pos remaining outs)
  show ?case
  proof (cases "remaining \<le> 0")
    case False
    define m where "m = nat (min remaining 65536)"
    define got where "got = take m (drop (nat pos) content)"
    have m: "0 < m" "int m \<le> remaining" using False by (auto simp: m_def)
    then have l: "length got = m" using 1(4,5) by (simp add: got_def)
    obtain rest where send: "SendAll (bytes_of_string got) outs = Some (True, bytes_of_string got, rest)" "list_all sends rest"
        "length outs \<le> length rest + m"
      using SendAll_sends [OF 1(2), of "bytes_of_string got"] m 1(3) l by auto
    have "send_file (\<lambda>pos. drop (nat pos) content) (pos + int (length got)) (remaining - int (length got)) rest =
        Some (bytes_of_string (take (nat (remaining - int (length got))) (drop (nat (pos + int (length got))) content)))"
    proof (rule "1.hyps" [of got "(True, bytes_of_string got, rest)" True "(bytes_of_string got, rest)" "bytes_of_string got" rest])
      show "got = take (nat (min remaining 65536)) (drop (nat pos) content)" by (simp add: got_def m_def)
      show "got \<noteq> []" using l m by auto
      show "remaining - int (length got) \<le> int (length rest)" using send(3) l 1(3) by linarith
      show "pos + int (length got) + (remaining - int (length got)) \<le> int (length content)" using 1(5) by simp
    qed (use False send 1(4) in simp_all)
    then have "send_file (\<lambda>pos. drop (nat pos) content) (pos + int (length got)) (remaining - int (length got)) rest =
        Some (bytes_of_string (take (nat (remaining - int m)) (drop (nat (pos + int m)) content)))" by (simp add: l)
    moreover have "nat (pos + int m) = nat pos + m" "nat remaining = m + nat (remaining - int m)" using 1(4) m by simp_all
    moreover have "got \<noteq> []" using l m by auto
    ultimately have "send_file (\<lambda>pos. drop (nat pos) content) pos remaining outs =
        Some (bytes_of_string got @ bytes_of_string (take (nat (remaining - int m)) (drop (nat pos + m) content)))"
      by (subst send_file.simps) (simp only: Let_def False if_False m_def [symmetric] got_def [symmetric] send(1) option.case prod.case
        simp_thms l option.map)
    moreover have "take (nat remaining) (drop (nat pos) content) = got @ take (nat (remaining - int m)) (drop (nat pos + m) content)"
      using take_add [of m "nat (remaining - int m)" "drop (nat pos) content"] \<open>nat remaining = m + nat (remaining - int m)\<close>
      by (simp add: got_def add.commute)
    ultimately show ?thesis by (simp add: bytes_of_string_def)
  qed (subst send_file.simps, simp add: bytes_of_string_def)
qed

section \<open>Ranges\<close>

datatype byte_range = From nat | FromTo nat nat | Last nat

fun range_text :: "byte_range \<Rightarrow> string" where
  "range_text (From a) = decimal a @ ''-''"
| "range_text (FromTo a b) = decimal a @ ''-'' @ decimal b"
| "range_text (Last n) = ''-'' @ decimal n"

text \<open>The first and last position a range stands for in \<open>sz\<close> bytes.\<close>

fun covered :: "byte_range \<Rightarrow> nat \<Rightarrow> (nat \<times> nat) option" where
  "covered (From a) sz = (if a < sz then Some (a, sz - 1) else None)"
| "covered (FromTo a b) sz = (if a \<le> b \<and> a < sz then Some (a, min b (sz - 1)) else None)"
| "covered (Last n) sz = (if 0 < n \<and> 0 < sz then Some (sz - n, sz - 1) else None)"

fun fits_long :: "byte_range \<Rightarrow> bool" where
  "fits_long (From a) \<longleftrightarrow> a < 2 ^ 63"
| "fits_long (FromTo a b) \<longleftrightarrow> a < 2 ^ 63 \<and> b < 2 ^ 63"
| "fits_long (Last n) \<longleftrightarrow> n < 2 ^ 63"

definition range_request :: "string \<Rightarrow> byte_range \<Rightarrow> string \<Rightarrow> string" where
  "range_request pre r post = pre @ ''Range: bytes='' @ range_text r @ crlf @ post"

lemma Lower_append [simp]: "Lower (a @ b) = Lower a @ Lower b"
  by (simp add: Lower_def)

lemma digit_lower: "is_digit c \<Longrightarrow> to_lower c = c"
  by (auto simp: is_digit_def to_lower_def)

lemma Lower_decimal [simp]: "Lower (decimal n) = decimal n"
  using decimal_facts(2) [of n] by (simp add: Lower_def digit_lower map_idI)

lemma Lower_range [simp]: "Lower (range_text r) = range_text r"
  using Lower_decimal by (cases r) (simp_all add: Lower_def to_lower_def)

lemma digits_until:
  "\<not> is_digit c \<Longrightarrow> takeWhile (\<lambda>x. x \<noteq> c) (decimal n @ c # s) = decimal n \<and> dropWhile (\<lambda>x. x \<noteq> c) (decimal n @ c # s) = c # s"
proof -
  assume c: "\<not> is_digit c"
  then have "\<forall>x \<in> set (decimal n). x \<noteq> c" using decimal_facts(2) [of n] by metis
  then show ?thesis by (simp add: takeWhile_append dropWhile_append)
qed

lemma line_until: "takeWhile (\<lambda>c. c \<noteq> CHR 0x0D \<and> c \<noteq> CHR 0x0A) (decimal n @ crlf @ s) = decimal n"
proof -
  have "\<forall>c \<in> set (decimal n). c \<noteq> CHR 0x0D \<and> c \<noteq> CHR 0x0A" using decimal_facts(2) [of n] by (auto simp: is_digit_def)
  then show ?thesis by (subst takeWhile_append2) (auto simp: crlf_def)
qed

lemma ParseRange_text:
  assumes "split_marker ''range:'' (Lower pre @ ''range'') = None" "fits_long r"
  shows "ParseRange (range_request pre r post) sz fromto = (case r of
      From a \<Rightarrow> clamp_range sz (int a) (sz - 1)
    | FromTo a b \<Rightarrow> clamp_range sz (int a) (int b)
    | Last n \<Rightarrow> if n = 0 then (False, fromto) else clamp_range sz (if int n \<ge> sz then 0 else sz - int n) (sz - 1))"
proof -
  let ?y = "crlf @ Lower post"
  have crlf: "Lower crlf = crlf" by code_simp
  have "Lower ''Range: bytes='' = ''range: bytes=''" by code_simp
  then have "Lower (range_request pre r post) = Lower pre @ ''range:'' @ ('' bytes='' @ range_text r @ ?y)"
    by (simp only: range_request_def Lower_append Lower_range crlf) simp
  moreover have "split_marker ''range:'' (Lower pre @ ''range:'' @ ('' bytes='' @ range_text r @ ?y)) = Some (Lower pre, '' bytes='' @ range_text r @ ?y)"
    by (rule split_marker_first) (use assms(1) in simp_all)
  moreover have "split_marker ''bytes='' (''range: '' @ ''bytes='' @ range_text r @ ?y) = Some (''range: '', range_text r @ ?y)"
    by (rule split_marker_first) simp_all
  ultimately have 1: "ParseRange (range_request pre r post) sz fromto =
      (let s = takeWhile (\<lambda>c. c \<noteq> CHR ''-'') (range_text r @ ?y);
           e = takeWhile (\<lambda>c. c \<noteq> CHR 0x0D \<and> c \<noteq> CHR 0x0A) (tl (dropWhile (\<lambda>c. c \<noteq> CHR ''-'') (range_text r @ ?y)))
       in if s = [] then
            (if strtoll e \<le> 0 then (False, fromto)
             else clamp_range sz (if strtoll e \<ge> sz then 0 else sz - strtoll e) (sz - 1))
          else clamp_range sz (strtoll s) (if e = [] then sz - 1 else strtoll e))"
    by (cases r) (simp_all add: ParseRange_def Let_def)
  have d: "\<not> is_digit CHR ''-''" by (simp add: is_digit_def)
  have c: "takeWhile (\<lambda>c. c \<noteq> CHR 0x0D \<and> c \<noteq> CHR 0x0A) ?y = []" by (simp add: crlf_def)
  show ?thesis
  proof (cases r)
    case (From a)
    then show ?thesis unfolding 1 using assms(2) digits_until [OF d, of a ?y] decimal_facts(1) [of a]
      by (simp add: strtoll_decimal c)
  next
    case (FromTo a b)
    then show ?thesis unfolding 1 using assms(2) digits_until [OF d, of a "decimal b @ ?y"] decimal_facts(1) [of a]
        decimal_facts(1) [of b] line_until [of b "Lower post"] by (simp add: strtoll_decimal)
  next
    case (Last n)
    then show ?thesis unfolding 1 using assms(2) line_until [of n "Lower post"] by (simp add: strtoll_decimal)
  qed
qed

lemma ParseRange_covered:
  assumes "split_marker ''range:'' (Lower pre @ ''range'') = None" "fits_long r" "covered r sz = Some (i, j)"
  shows "ParseRange (range_request pre r post) (int sz) fromto = (True, int i, int j)" "i \<le> j" "j < sz"
proof -
  note range = ParseRange_text [OF assms(1,2), of post "int sz" fromto]
  have "ParseRange (range_request pre r post) (int sz) fromto = (True, int i, int j) \<and> i \<le> j \<and> j < sz"
  proof (cases r)
    case (From a)
    then show ?thesis unfolding range using assms(3) by (auto simp: clamp_range_def Let_def of_nat_diff split: if_splits)
  next
    case (FromTo a b)
    then show ?thesis unfolding range using assms(3) by (auto simp: clamp_range_def Let_def of_nat_diff min_def split: if_splits)
  next
    case (Last n)
    then show ?thesis unfolding range using assms(3) by (auto simp: clamp_range_def Let_def of_nat_diff split: if_splits)
  qed
  then show "ParseRange (range_request pre r post) (int sz) fromto = (True, int i, int j)" "i \<le> j" "j < sz" by simp_all
qed

section \<open>What a client gets\<close>

text \<open>The head of a partial answer, uncut.\<close>

definition partial_head :: "string \<Rightarrow> nat \<Rightarrow> nat \<Rightarrow> nat \<Rightarrow> string" where
  "partial_head type i j sz = ''HTTP/1.1 206 Partial Content'' @ crlf @ ''Content-Type: '' @ c_str type @ crlf
     @ ''Accept-Ranges: bytes'' @ crlf @ ''Content-Range: bytes '' @ decimal i @ ''-'' @ decimal j @ ''/'' @ decimal sz @ crlf
     @ ''Content-Length: '' @ decimal (j + 1 - i) @ crlf @ ''Connection: close'' @ blank_line"

lemma decimal_long: "n < 2 ^ 63 \<Longrightarrow> length (decimal n) \<le> 19"
  using length_decimal [of n 18] by simp

lemma partial_head_fits:
  assumes "length type \<le> 200" "i \<le> j" "j < sz" "sz < 2 ^ 63"
  shows "length (partial_head type i j sz) < 512"
    "reply_head type True (int i) (int j) (int sz) (int j - int i + 1) = partial_head type i j sz"
proof -
  have "length (decimal i) \<le> 19" "length (decimal j) \<le> 19" "length (decimal sz) \<le> 19" "length (decimal (j + 1 - i)) \<le> 19"
    using assms by (simp_all add: decimal_long)
  moreover have "length (c_str type) \<le> 200" using assms(1) length_takeWhile_le order_trans unfolding c_str_def by blast
  ultimately show l: "length (partial_head type i j sz) < 512" by (simp add: partial_head_def crlf_def blank_line_def)
  have "nat (int j - int i + 1) = j + 1 - i" using assms(2) by simp
  then show "reply_head type True (int i) (int j) (int sz) (int j - int i + 1) = partial_head type i j sz"
    using l assms(2) by (simp add: reply_head_def snprintf_def show_long_def partial_head_def)
qed

definition regular_file :: "string \<Rightarrow> open_file" where
  "regular_file content = \<lparr>of_size = int (length content), of_read = (\<lambda>pos. drop (nat pos) content)\<rparr>"

text \<open>The server has \<open>content\<close> to serve, a file's or the buffer's.\<close>

definition has_content :: "MediaServer \<Rightarrow> open_file option \<Rightarrow> string \<Rightarrow> bool" where
  "has_content me opened content \<longleftrightarrow> (if me_fBufferMode me then me_fBuffer me = content else opened = Some (regular_file content))"

text \<open>
  C39: A request for a range, in any pieces and with any other headers, is answered with exactly the
  bytes of the range, for the file and the preview alike, under a head that names them.
\<close>

theorem range_served:
  assumes "has_content me opened content" "length content < 2 ^ 63" "length (me_fContentType me) \<le> 200"
    and "request_head (range_request pre r post)" "pieces (range_request pre r post) ins" "take 5 (range_request pre r post) \<noteq> ''HEAD ''"
    and "split_marker ''range:'' (Lower pre @ ''range'') = None" "fits_long r" "covered r (length content) = Some (i, j)"
    and "list_all sends outs" "length outs \<ge> 512 + length content"
  shows "HandleClient me opened ins outs = Some (Handled (bytes_of_string
    (partial_head (me_fContentType me) i j (length content) @ take (j + 1 - i) (drop i content))))"
proof -
  note range = ParseRange_covered [OF assms(7-9)]
  note head = partial_head_fits [OF assms(3) range(2,3) assms(2)]
  let ?h = "bytes_of_string (partial_head (me_fContentType me) i j (length content))"
  obtain rest where send: "SendAll ?h outs = Some (True, ?h, rest)" "list_all sends rest" "length outs \<le> length rest + length ?h"
    using SendAll_sends [OF assms(10), of ?h] head(1) assms(11) by auto
  let ?b = "take (j + 1 - i) (drop i content)"
  have n: "nat (int j - int i + 1) = j + 1 - i" "int j - int i + 1 \<noteq> 0" using range(2) by simp_all
  have "length content \<le> length rest" using send(3) assms(11) head(1) by simp
  then have len: "length (bytes_of_string ?b) \<le> length rest" "int j - int i + 1 \<le> int (length rest)" using range(2,3) by simp_all
  obtain rest' where body: "SendAll (bytes_of_string ?b) rest = Some (True, bytes_of_string ?b, rest')"
    using SendAll_sends [OF send(2) len(1)] by blast
  have copied: "send_file (\<lambda>pos. drop (nat pos) content) (int i) (int j - int i + 1) rest = Some (bytes_of_string ?b)"
    using send_file_content [OF send(2) len(2), of "int i" content] range(2,3) n(1) by simp
  have "ReadHead [] ins = Some (Some (range_request pre r post))"
    using ReadHead_pieces [OF assms(4,5)] by simp
  moreover have "content \<noteq> []" using range(3) by auto
  moreover have "\<not> int j - int i + 1 < 0" "\<not> int i + (int j - int i + 1) > int (length content)" using range(2,3) by simp_all
  ultimately show ?thesis using assms(1,6) range(1) head(2) send(1) body copied n
    by (simp add: HandleClient_def has_content_def regular_file_def Let_def bytes_of_string_def split: if_splits)
qed

lemma range_served_witness:
  "HandleClient (UpdateBuffer ''JPEG'' (snd (ServeBuffer (Some (5, 8080)) ''image/jpeg'' MediaServer))) None
     [Received (bytes_of_string (''GET / HTTP/1.1'' @ crlf)), Received (bytes_of_string (''Range: bytes=1-2'' @ crlf @ crlf))]
     (replicate 600 (Sent 7)) =
   Some (Handled (bytes_of_string (''HTTP/1.1 206 Partial Content'' @ crlf @ ''Content-Type: image/jpeg'' @ crlf
     @ ''Accept-Ranges: bytes'' @ crlf @ ''Content-Range: bytes 1-2/4'' @ crlf @ ''Content-Length: 2'' @ crlf
     @ ''Connection: close'' @ crlf @ crlf @ ''PE'')))"
proof -
  let ?req = "range_request (''GET / HTTP/1.1'' @ crlf) (FromTo 1 2) crlf"
  let ?me = "UpdateBuffer ''JPEG'' (snd (ServeBuffer (Some (5, 8080)) ''image/jpeg'' MediaServer))"
  let ?ins = "[Received (bytes_of_string (''GET / HTTP/1.1'' @ crlf)), Received (bytes_of_string (''Range: bytes=1-2'' @ crlf @ crlf))]"
  have type: "me_fContentType ?me = ''image/jpeg''" by code_simp
  have a: "has_content ?me None ''JPEG''" "length ''JPEG'' < 2 ^ 63" "length (me_fContentType ?me) \<le> 200"
    by (simp_all add: type has_content_def) (simp_all add: UpdateBuffer_def ServeBuffer_def StartListener_def)
  have b: "request_head ?req" "take 5 ?req \<noteq> ''HEAD ''" "split_marker ''range:'' (Lower (''GET / HTTP/1.1'' @ crlf) @ ''range'') = None"
    by code_simp+
  have "string_of_bytes (delivered ?ins) = ?req" by code_simp
  then have c: "pieces ?req ?ins" unfolding pieces_def by (simp add: crlf_def bytes_of_string_def)
  have d: "fits_long (FromTo 1 2)" "covered (FromTo 1 2) (length ''JPEG'') = Some (1, 2)" by simp_all
  have e: "list_all sends (replicate 600 (Sent 7))" "length (replicate 600 (Sent 7)) \<ge> 512 + length ''JPEG''"
    by (simp_all add: list_all_iff sends_def)
  have f: "partial_head (me_fContentType ?me) 1 2 (length ''JPEG'') @ take (2 + 1 - 1) (drop 1 ''JPEG'') =
      ''HTTP/1.1 206 Partial Content'' @ crlf @ ''Content-Type: image/jpeg'' @ crlf
     @ ''Accept-Ranges: bytes'' @ crlf @ ''Content-Range: bytes 1-2/4'' @ crlf @ ''Content-Length: 2'' @ crlf
     @ ''Connection: close'' @ crlf @ crlf @ ''PE''" by code_simp
  show ?thesis using range_served [OF a b(1) c b(2,3) d e] unfolding f .
qed

text \<open>
  C40: A range that begins behind the end of the preview makes the server hand memory outside its buffer
  to \<open>send\<close>: the range is not satisfiable, but its ends stay in the variables the length is taken from.
\<close>

theorem range_behind_the_end:
  assumes "me_fBufferMode me" "me_fBuffer me \<noteq> []" "length (me_fBuffer me) < a" "a < 2 ^ 63" "length (me_fContentType me) \<le> 200"
    and "request_head (range_request pre (From a) post)" "pieces (range_request pre (From a) post) ins"
    and "take 5 (range_request pre (From a) post) \<noteq> ''HEAD ''" "split_marker ''range:'' (Lower pre @ ''range'') = None"
    and "list_all sends outs" "length outs \<ge> 512"
  shows "HandleClient me opened ins outs = Some (Outside
    (bytes_of_string (reply_head (me_fContentType me) False 0 0 (int (length (me_fBuffer me))) 0))
    (int a) (int (length (me_fBuffer me)) - int a))"
proof -
  let ?n = "int (length (me_fBuffer me))"
  let ?h = "\<lambda>i j k. reply_head (me_fContentType me) False i j ?n k"
  have same: "?h i j k = ?h 0 0 0" for i j k by (simp add: reply_head_def)
  have "length (?h 0 0 0) \<le> 511" by (simp add: reply_head_def snprintf_def)
  then obtain rest where send: "SendAll (bytes_of_string (?h 0 0 0)) outs = Some (True, bytes_of_string (?h 0 0 0), rest)"
    using SendAll_sends [OF assms(10), of "bytes_of_string (?h 0 0 0)"] assms(11) by auto
  have "ParseRange (range_request pre (From a) post) ?n fromto = (False, int a, ?n - 1)" for fromto
    using ParseRange_text [OF assms(9), of "From a" post ?n fromto] assms(3,4) by (simp add: clamp_range_def Let_def)
  then show ?thesis using ReadHead_pieces [OF assms(6,7), of "[]"] assms(1-3,8) send same [of "int a" "?n - 1" "?n - int a"]
    by (simp add: HandleClient_def Let_def)
qed

lemma range_behind_the_end_witness:
  "HandleClient (UpdateBuffer ''JPEG'' (snd (ServeBuffer (Some (5, 8080)) ''image/jpeg'' MediaServer))) None
     [Received (bytes_of_string (range_request ''GET / HTTP/1.1'' (From 1000) crlf))] (replicate 600 (Sent 7)) =
   Some (Outside (bytes_of_string (reply_head ''image/jpeg'' False 0 0 4 0)) 1000 (- 996))"
proof -
  let ?me = "UpdateBuffer ''JPEG'' (snd (ServeBuffer (Some (5, 8080)) ''image/jpeg'' MediaServer))"
  let ?req = "range_request ''GET / HTTP/1.1'' (From 1000) crlf"
  have type: "me_fContentType ?me = ''image/jpeg''" "length (me_fBuffer ?me) = 4" by code_simp+
  have a: "me_fBufferMode ?me" "me_fBuffer ?me \<noteq> []" "length (me_fBuffer ?me) < 1000" "(1000::nat) < 2 ^ 63" "length (me_fContentType ?me) \<le> 200"
    by (simp_all add: type) (simp_all add: UpdateBuffer_def ServeBuffer_def StartListener_def)
  have b: "request_head ?req" "take 5 ?req \<noteq> ''HEAD ''" "split_marker ''range:'' (Lower ''GET / HTTP/1.1'' @ ''range'') = None"
    by code_simp+
  have "bytes_of_string ?req \<noteq> []" by code_simp
  then have c: "pieces ?req [Received (bytes_of_string ?req)]" unfolding pieces_def by simp
  have e: "list_all sends (replicate 600 (Sent 7))" "length (replicate 600 (Sent 7)) \<ge> 512"
    by (simp_all add: list_all_iff sends_def)
  show ?thesis using range_behind_the_end [OF a b(1) c b(2,3) e, of None] by (simp add: type)
qed

end
