(* ===== verification/Smb.thy ===== *)
theory Smb
  imports Sftp Containers
begin

text \<open>
  The SMB backend, \<open>optional/smb/SmbBackend.cpp\<close>: one share of an SMB server over libsmb2, and the list of
  a server's shares. The calls of libsmb2 are calls to the host; an operation is a tree of them. The
  name of an entry, \<open>LeafName\<close>, is the function the SFTP backend has too.
\<close>

section \<open>Calls\<close>

definition smb_ptr :: "smb_call \<Rightarrow> nat option prog" where
  "smb_ptr = sys_smb (\<lambda>r. case r of SmbPtr p \<Rightarrow> p | _ \<Rightarrow> None)"
definition smb_status :: "smb_call \<Rightarrow> errno option prog" where
  "smb_status = sys_smb (\<lambda>r. case r of SmbStatus e \<Rightarrow> e | _ \<Rightarrow> Some (EOTHER 0))"
definition smb_attrs :: "smb_call \<Rightarrow> (errno + smb_stat) prog" where
  "smb_attrs = sys_smb (\<lambda>r. case r of SmbAttrs a \<Rightarrow> a | _ \<Rightarrow> Inl (EOTHER 0))"
definition smb_names :: "smb_call \<Rightarrow> (string \<times> smb_stat) list prog" where
  "smb_names = sys_smb (\<lambda>r. case r of SmbNames ns \<Rightarrow> ns | _ \<Rightarrow> [])"
definition smb_data :: "smb_call \<Rightarrow> (int \<times> bytes) prog" where
  "smb_data = sys_smb (\<lambda>r. case r of SmbData n d \<Rightarrow> (n, d) | _ \<Rightarrow> (- 1, []))"
definition smb_int :: "smb_call \<Rightarrow> int prog" where
  "smb_int = sys_smb (\<lambda>r. case r of SmbInt n \<Rightarrow> n | _ \<Rightarrow> - 1)"
definition smb_bool :: "smb_call \<Rightarrow> bool prog" where
  "smb_bool = sys_smb (\<lambda>r. case r of SmbBool b \<Rightarrow> b | _ \<Rightarrow> False)"
definition smb_served :: "smb_call \<Rightarrow> (bool \<times> (int \<times> enum_data) option) prog" where
  "smb_served = sys_smb (\<lambda>r. case r of SmbServed ok cb \<Rightarrow> (ok, cb) | _ \<Rightarrow> (False, None))"
definition smb_unit :: "smb_call \<Rightarrow> unit prog" where
  "smb_unit = sys_smb (\<lambda>_. ())"

section \<open>State\<close>

record SmbConfig =
  mc_server :: string
  mc_share :: string
  mc_user :: string
  mc_password :: string
  mc_domain :: string
  mc_basePath :: string

text \<open>\<open>fError\<close> points at a text of the program or at one inside a context of the library.\<close>

datatype smb_error = NoError | ErrorText string | ErrorOf nat

record SmbBackend =
  mb_fSmb :: "nat option"
  mb_fOpen :: "(u64, nat) std_map"
  mb_fNextHandle :: u64
  mb_fBasePath :: string
  mb_fError :: smb_error

definition SmbBackend :: SmbBackend where
  "SmbBackend = \<lparr>mb_fSmb = None, mb_fOpen = [], mb_fNextHandle = 1, mb_fBasePath = [], mb_fError = NoError\<rparr>"

definition Smb_IsConnected :: "SmbBackend \<Rightarrow> bool" where
  "Smb_IsConnected sb = (mb_fSmb sb \<noteq> None)"

type_synonym 'a smb_op = "('a outcome \<times> SmbBackend) prog"

section \<open>Paths, attributes and errors\<close>

fun ErrnoToStatus :: "errno \<Rightarrow> BackendStatus" where
  "ErrnoToStatus ENOENT = S_NotFound"
| "ErrnoToStatus EACCES = S_AccessDenied"
| "ErrnoToStatus EPERM = S_AccessDenied"
| "ErrnoToStatus ENOTDIR = S_NotADirectory"
| "ErrnoToStatus EISDIR = S_IsADirectory"
| "ErrnoToStatus _ = S_IoError"

definition Smb_FillWireStat :: "smb_stat \<Rightarrow> Stat" where
  "Smb_FillWireStat st =
    \<lparr>st_mode = (case sx_type st of Smb_Directory \<Rightarrow> 0x416D | Smb_Link \<Rightarrow> 0xA1FF | Smb_File \<Rightarrow> 0x8124),
     st_size = sx_size st, st_mtime = sx_mtime st, st_crtime = sx_btime st, st_inode = sx_ino st\<rparr>"

definition SharePath :: "SmbBackend \<Rightarrow> string \<Rightarrow> string" where
  "SharePath sb reqPath =
    (let rel = (if reqPath \<noteq> [] \<and> hd reqPath = CHR ''/'' then tl reqPath else reqPath) in
     if mb_fBasePath sb = [] then rel
     else if rel = [] then mb_fBasePath sb
     else mb_fBasePath sb @ ''/'' @ rel)"

text \<open>A path with a component \<open>..\<close>.\<close>

function PathEscapes :: "string \<Rightarrow> bool" where
  "PathEscapes path \<longleftrightarrow> path \<noteq> [] \<and>
    (takeWhile (\<lambda>c. c \<noteq> CHR ''/'') path = ''..'' \<or>
     (case dropWhile (\<lambda>c. c \<noteq> CHR ''/'') path of [] \<Rightarrow> False | _ # rest \<Rightarrow> PathEscapes rest))"
  by pat_completeness auto
termination
proof (relation "measure length")
  fix path :: string and c rest
  assume "dropWhile (\<lambda>c. c \<noteq> CHR ''/'') path = c # rest"
  then show "(rest, path) \<in> measure length" using length_dropWhile_le [of "\<lambda>c. c \<noteq> CHR ''/''" path] by simp
qed simp

declare PathEscapes.simps [simp del]

section \<open>Sessions\<close>

text \<open>What is set on a new context, and the connection to a share on it.\<close>

definition login :: "nat \<Rightarrow> SmbConfig \<Rightarrow> string \<Rightarrow> errno option prog" where
  "login smb2 config share =
    pbind (smb_unit (SmbSetTimeout smb2 15)) (\<lambda>_.
    pbind (if mc_password config \<noteq> [] then smb_unit (SmbSetPassword smb2 (mc_password config)) else Ret ()) (\<lambda>_.
    pbind (if mc_domain config \<noteq> [] then smb_unit (SmbSetDomain smb2 (mc_domain config)) else Ret ()) (\<lambda>_.
      smb_status (SmbConnectShare smb2 (mc_server config) share (if mc_user config = [] then None else Some (mc_user config))))))"

definition trim_slashes :: "string \<Rightarrow> string" where
  "trim_slashes path = rev (dropWhile (\<lambda>c. c = CHR ''/'') (rev (dropWhile (\<lambda>c. c = CHR ''/'') path)))"

definition Smb_Connect :: "SmbBackend \<Rightarrow> SmbConfig \<Rightarrow> unit smb_op" where
  "Smb_Connect sb config =
    (if Smb_IsConnected sb then Ret (Inl S_InvalidRequest, sb\<lparr>mb_fError := ErrorText ''already connected''\<rparr>)
     else pbind (smb_ptr SmbInit) (\<lambda>ctx. case ctx of
         None \<Rightarrow> Ret (Inl S_TransportError, sb\<lparr>mb_fError := ErrorText ''smb2 context init failed''\<rparr>)
       | Some smb2 \<Rightarrow> pbind (login smb2 config (mc_share config)) (\<lambda>rc. case rc of
           Some e \<Rightarrow> pbind (smb_unit (SmbDestroy smb2)) (\<lambda>_.
             Ret (Inl (if e = EACCES \<or> e = EPERM then S_AccessDenied else if e = ENOENT then S_NotFound else S_TransportError),
               sb\<lparr>mb_fError := ErrorOf smb2\<rparr>))
         | None \<Rightarrow> Ret (Inr (), sb\<lparr>mb_fSmb := Some smb2, mb_fBasePath := trim_slashes (mc_basePath config), mb_fError := NoError\<rparr>))))"

fun close_files :: "nat \<Rightarrow> (u64, nat) std_map \<Rightarrow> unit prog" where
  "close_files smb2 [] = Ret ()"
| "close_files smb2 ((_, fh) # rest) = pbind (smb_unit (SmbClose smb2 fh)) (\<lambda>_. close_files smb2 rest)"

definition Smb_Disconnect :: "SmbBackend \<Rightarrow> SmbBackend prog" where
  "Smb_Disconnect sb = (case mb_fSmb sb of
     None \<Rightarrow> Ret sb
   | Some smb2 \<Rightarrow> pbind (close_files smb2 (mb_fOpen sb)) (\<lambda>_.
       pbind (smb_unit (SmbDisconnectShare smb2)) (\<lambda>_.
       pbind (smb_unit (SmbDestroy smb2)) (\<lambda>_. Ret (sb\<lparr>mb_fOpen := [], mb_fSmb := None\<rparr>)))))"

section \<open>The shares of a server\<close>

record ShareEnumState =
  se_done :: bool
  se_status :: int
  se_shares :: "string list"

text \<open>The share types of libsmb2: \<open>SHARE_TYPE_DISKTREE\<close> is 0 in the low bits, \<open>SHARE_TYPE_HIDDEN\<close> the top bit.\<close>

definition visible_disk :: "share_info \<Rightarrow> bool" where
  "visible_disk info \<longleftrightarrow> si_type info AND 3 = 0 \<and> si_type info AND 0x80000000 = 0"

definition ShareEnumCb :: "int \<Rightarrow> enum_data \<Rightarrow> ShareEnumState \<Rightarrow> ShareEnumState" where
  "ShareEnumCb status commandData state =
    (let state = state\<lparr>se_done := True, se_status := status\<rparr> in
     if status \<noteq> 0 then state
     else case commandData of None \<Rightarrow> state | Some None \<Rightarrow> state
     | Some (Some (level, array)) \<Rightarrow>
         if level = 1 then state\<lparr>se_shares := se_shares state @ List.map_filter si_name (filter visible_disk array)\<rparr> else state)"

text \<open>At most \<open>n\<close> turns; the error is set when \<open>smb2_service\<close> fails.\<close>

fun enum_loop :: "nat \<Rightarrow> nat \<Rightarrow> ShareEnumState \<Rightarrow> smb_error \<Rightarrow> (ShareEnumState \<times> smb_error) prog" where
  "enum_loop smb2 0 state err = Ret (state, err)"
| "enum_loop smb2 (Suc n) state err =
    (if se_done state then Ret (state, err)
     else pbind (smb_bool (SmbPoll smb2)) (\<lambda>polled.
       if \<not> polled then Ret (state, err)
       else pbind (smb_served (SmbService smb2)) (\<lambda>(ok, cb).
         let state = (case cb of None \<Rightarrow> state | Some (status, d) \<Rightarrow> ShareEnumCb status d state) in
         if \<not> ok then Ret (state, ErrorOf smb2) else enum_loop smb2 n state err)))"

definition enum_result :: "nat \<Rightarrow> ShareEnumState \<Rightarrow> smb_error \<Rightarrow> string list outcome \<times> smb_error" where
  "enum_result smb2 state err =
    (if \<not> se_done state then (Inl S_TransportError, ErrorText ''share enumeration timed out'')
     else if se_status state \<noteq> 0 then (Inl S_AccessDenied, ErrorOf smb2)
     else (Inr (se_shares state), NoError))"

definition Smb_EnumShares :: "SmbBackend \<Rightarrow> SmbConfig \<Rightarrow> string list smb_op" where
  "Smb_EnumShares sb config = pbind (smb_ptr SmbInit) (\<lambda>ctx. case ctx of
     None \<Rightarrow> Ret (Inl S_TransportError, sb\<lparr>mb_fError := ErrorText ''smb2 context init failed''\<rparr>)
   | Some smb2 \<Rightarrow> pbind (login smb2 config ''IPC$'') (\<lambda>rc. case rc of
       Some e \<Rightarrow> pbind (smb_unit (SmbDestroy smb2)) (\<lambda>_.
         Ret (Inl (if e = EACCES \<or> e = EPERM then S_AccessDenied else S_TransportError), sb\<lparr>mb_fError := ErrorOf smb2\<rparr>))
     | None \<Rightarrow> pbind (smb_bool (SmbShareEnum smb2)) (\<lambda>started.
         pbind (if started then pbind (enum_loop smb2 200 \<lparr>se_done = False, se_status = 0, se_shares = []\<rparr> (mb_fError sb))
               (\<lambda>(state, err). Ret (enum_result smb2 state err))
             else Ret (Inl S_IoError, ErrorOf smb2)) (\<lambda>(out, err).
         pbind (smb_unit (SmbDisconnectShare smb2)) (\<lambda>_.
         pbind (smb_unit (SmbDestroy smb2)) (\<lambda>_. Ret (out, sb\<lparr>mb_fError := err\<rparr>)))))))"

section \<open>The operations\<close>

definition root_stat :: Stat where
  "root_stat = \<lparr>st_mode = 0x416D, st_size = 0, st_mtime = 0, st_crtime = 0, st_inode = 0\<rparr>"

text \<open>The context, for an operation that needs a session.\<close>

definition on_session :: "SmbBackend \<Rightarrow> (nat \<Rightarrow> 'a smb_op) \<Rightarrow> 'a smb_op" where
  "on_session sb f = (case mb_fSmb sb of None \<Rightarrow> Ret (Inl S_TransportError, sb) | Some smb2 \<Rightarrow> f smb2)"

definition status_result :: "SmbBackend \<Rightarrow> smb_call \<Rightarrow> unit smb_op" where
  "status_result sb c = pbind (smb_status c) (\<lambda>rc. Ret (case rc of None \<Rightarrow> Inr () | Some e \<Rightarrow> Inl (ErrnoToStatus e), sb))"

definition Smb_Stat :: "SmbBackend \<Rightarrow> string \<Rightarrow> Entry smb_op" where
  "Smb_Stat sb path = on_session sb (\<lambda>smb2. let sp = SharePath sb path in
     if sp = [] then Ret (Inr \<lparr>en_name = LeafName path, en_stat = root_stat, en_attrs = []\<rparr>, sb)
     else pbind (smb_attrs (SmbStat smb2 sp)) (\<lambda>r. Ret (case r of
         Inl e \<Rightarrow> Inl (ErrnoToStatus e)
       | Inr st \<Rightarrow> Inr \<lparr>en_name = LeafName path, en_stat = Smb_FillWireStat st, en_attrs = []\<rparr>, sb)))"

definition Smb_ReadDir :: "SmbBackend \<Rightarrow> string \<Rightarrow> Entry list smb_op" where
  "Smb_ReadDir sb path = on_session sb (\<lambda>smb2.
     pbind (smb_ptr (SmbOpendir smb2 (SharePath sb path))) (\<lambda>dir. case dir of
         None \<Rightarrow> Ret (Inl S_NotFound, sb)
       | Some dir \<Rightarrow> pbind (smb_names (SmbReaddir smb2 dir)) (\<lambda>names. pbind (smb_unit (SmbClosedir smb2 dir)) (\<lambda>_.
           Ret (Inr (map (\<lambda>(leaf, st). \<lparr>en_name = leaf, en_stat = Smb_FillWireStat st, en_attrs = []\<rparr>)
             (filter (\<lambda>(leaf, st). \<not> (leaf = ''.'' \<or> leaf = ''..'')) names)), sb)))))"

definition add_file :: "nat \<Rightarrow> SmbBackend \<Rightarrow> u64 \<times> SmbBackend" where
  "add_file fh sb = (let handle = mb_fNextHandle sb in
     (handle, sb\<lparr>mb_fNextHandle := handle + 1, mb_fOpen := map_put handle fh (mb_fOpen sb)\<rparr>))"

definition Smb_Open :: "SmbBackend \<Rightarrow> string \<Rightarrow> (u64 \<times> u64) smb_op" where
  "Smb_Open sb path = on_session sb (\<lambda>smb2. let sp = SharePath sb path in
     pbind (smb_ptr (SmbOpen smb2 sp [O_RDONLY])) (\<lambda>fh. case fh of
         None \<Rightarrow> Ret (Inl S_NotFound, sb)
       | Some fh \<Rightarrow> pbind (smb_attrs (SmbStat smb2 sp)) (\<lambda>r.
           let sz = (case r of Inl _ \<Rightarrow> 0 | Inr st \<Rightarrow> sx_size st); (handle, sb) = add_file fh sb
           in Ret (Inr (handle, sz), sb))))"

text \<open>
  The loop of \<open>Read\<close>; \<open>out\<close> is the part of the buffer that is filled. The buffer was zero, so where the
  library put fewer bytes than it says, zeros are read.
\<close>

function smb_read_loop :: "nat \<Rightarrow> nat \<Rightarrow> nat \<Rightarrow> u64 \<Rightarrow> bytes \<Rightarrow> bytes outcome prog" where
  "smb_read_loop smb2 fh len off out =
    (if length out < len then
       pbind (smb_data (SmbPread smb2 fh (len - length out) (off + of_nat (length out)))) (\<lambda>(n, d).
         if n < 0 \<or> n > int (len - length out) then Ret (Inl S_IoError)
         else if n = 0 then Ret (Inr out)
         else smb_read_loop smb2 fh len off (out @ take (nat n) (d @ replicate (nat n) 0)))
     else Ret (Inr out))"
  by pat_completeness auto
termination
  by (relation "measure (\<lambda>(smb2, fh, len, off, out). len - length out)") auto

declare smb_read_loop.simps [simp del]

definition Smb_Read :: "SmbBackend \<Rightarrow> u64 \<Rightarrow> u64 \<Rightarrow> u32 \<Rightarrow> bytes smb_op" where
  "Smb_Read sb handle off len = (case map_of (mb_fOpen sb) handle of
     None \<Rightarrow> Ret (Inl S_BadHandle, sb)
   | Some fh \<Rightarrow> pbind (smb_read_loop (the (mb_fSmb sb)) fh (unat len) off []) (\<lambda>out. Ret (out, sb)))"

definition Smb_Close :: "SmbBackend \<Rightarrow> u64 \<Rightarrow> unit smb_op" where
  "Smb_Close sb handle = (case map_of (mb_fOpen sb) handle of
     None \<Rightarrow> Ret (Inl S_BadHandle, sb)
   | Some fh \<Rightarrow> pbind (smb_unit (SmbClose (the (mb_fSmb sb)) fh)) (\<lambda>_.
       Ret (Inr (), sb\<lparr>mb_fOpen := AList.delete handle (mb_fOpen sb)\<rparr>)))"

definition Smb_OpenWrite :: "SmbBackend \<Rightarrow> string \<Rightarrow> u64 smb_op" where
  "Smb_OpenWrite sb path = on_session sb (\<lambda>smb2.
     if PathEscapes path then Ret (Inl S_InvalidRequest, sb)
     else pbind (smb_ptr (SmbOpen smb2 (SharePath sb path) [O_WRONLY, O_CREAT])) (\<lambda>fh. case fh of
         None \<Rightarrow> Ret (Inl S_AccessDenied, sb)
       | Some fh \<Rightarrow> (case add_file fh sb of (handle, sb) \<Rightarrow> Ret (Inr handle, sb))))"

text \<open>The loop of \<open>Write\<close>, with the count written so far.\<close>

function smb_write_loop :: "nat \<Rightarrow> nat \<Rightarrow> u64 \<Rightarrow> bytes \<Rightarrow> nat \<Rightarrow> nat outcome prog" where
  "smb_write_loop smb2 fh off dat done =
    (if done < length dat then
       let want = min (length dat - done) (2 ^ 20) in
       pbind (smb_int (SmbPwrite smb2 fh (take want (drop done dat)) (off + of_nat done))) (\<lambda>n.
         if n < 0 \<or> n > int want then Ret (Inl S_IoError)
         else if n = 0 then Ret (Inr done)
         else smb_write_loop smb2 fh off dat (done + nat n))
     else Ret (Inr done))"
  by pat_completeness auto
termination
  by (relation "measure (\<lambda>(smb2, fh, off, dat, done). length dat - done)") auto

declare smb_write_loop.simps [simp del]

definition Smb_Write :: "SmbBackend \<Rightarrow> u64 \<Rightarrow> u64 \<Rightarrow> bytes \<Rightarrow> u64 smb_op" where
  "Smb_Write sb handle off dat = (case map_of (mb_fOpen sb) handle of
     None \<Rightarrow> Ret (Inl S_BadHandle, sb)
   | Some fh \<Rightarrow> pbind (smb_write_loop (the (mb_fSmb sb)) fh off dat 0) (\<lambda>r. Ret (map_sum id of_nat r, sb)))"

definition Smb_Mkdir :: "SmbBackend \<Rightarrow> string \<Rightarrow> u32 \<Rightarrow> unit smb_op" where
  "Smb_Mkdir sb path mode = on_session sb (\<lambda>smb2.
     if PathEscapes path then Ret (Inl S_InvalidRequest, sb) else status_result sb (SmbMkdir smb2 (SharePath sb path)))"

definition Smb_Unlink :: "SmbBackend \<Rightarrow> string \<Rightarrow> unit smb_op" where
  "Smb_Unlink sb path = on_session sb (\<lambda>smb2.
     if PathEscapes path then Ret (Inl S_InvalidRequest, sb)
     else let sp = SharePath sb path in pbind (smb_attrs (SmbStat smb2 sp)) (\<lambda>r.
       let isDir = (case r of Inl _ \<Rightarrow> False | Inr st \<Rightarrow> sx_type st = Smb_Directory) in
       status_result sb (if isDir then SmbRmdir smb2 sp else SmbUnlink smb2 sp)))"

definition Smb_Rename :: "SmbBackend \<Rightarrow> string \<Rightarrow> string \<Rightarrow> unit smb_op" where
  "Smb_Rename sb src dst = on_session sb (\<lambda>smb2.
     if PathEscapes src \<or> PathEscapes dst then Ret (Inl S_InvalidRequest, sb)
     else status_result sb (SmbRename smb2 (SharePath sb src) (SharePath sb dst)))"

definition Smb_Truncate :: "SmbBackend \<Rightarrow> string \<Rightarrow> u64 \<Rightarrow> unit smb_op" where
  "Smb_Truncate sb path sz = on_session sb (\<lambda>smb2.
     if PathEscapes path then Ret (Inl S_InvalidRequest, sb) else status_result sb (SmbTruncate smb2 (SharePath sb path) sz))"

text \<open>A backend whose operations are trees, as the FUSE front end calls it, over a system and its state.\<close>

definition on_tree :: "'os system \<Rightarrow> ('b \<Rightarrow> ('a \<times> 'b) prog) \<Rightarrow> 'b \<times> 'os \<Rightarrow> 'a \<times> 'b \<times> 'os" where
  "on_tree sys f w = (case w of (b, s) \<Rightarrow> (case run sys (f b) s of ((out, b), s, log) \<Rightarrow> (out, b, s)))"

definition smb_backend :: "'os system \<Rightarrow> (SmbBackend \<times> 'os) PeerBackend" where
  "smb_backend sys =
    (reading_backend (\<lambda>path. on_tree sys (\<lambda>sb. Smb_Stat sb path)) (\<lambda>path. on_tree sys (\<lambda>sb. Smb_ReadDir sb path))
      (\<lambda>path. on_tree sys (\<lambda>sb. Smb_Open sb path)) (\<lambda>handle off len. on_tree sys (\<lambda>sb. Smb_Read sb handle off len))
      (\<lambda>handle. on_tree sys (\<lambda>sb. Smb_Close sb handle)))
    \<lparr>v_OpenWrite := (\<lambda>path. on_tree sys (\<lambda>sb. Smb_OpenWrite sb path)),
     v_Write := (\<lambda>handle off dat. on_tree sys (\<lambda>sb. Smb_Write sb handle off dat)),
     v_Mkdir := (\<lambda>path mode. on_tree sys (\<lambda>sb. Smb_Mkdir sb path mode)),
     v_Unlink := (\<lambda>path. on_tree sys (\<lambda>sb. Smb_Unlink sb path)),
     v_Rename := (\<lambda>src dst. on_tree sys (\<lambda>sb. Smb_Rename sb src dst)),
     v_Truncate := (\<lambda>path sz. on_tree sys (\<lambda>sb. Smb_Truncate sb path sz))\<rparr>"

section \<open>Which paths a share sees\<close>

lemma PathEscapes_component: "PathEscapes path \<longleftrightarrow> ''..'' \<in> set (split_path path)"
proof (induction path rule: PathEscapes.induct)
  case (1 path)
  let ?P = "\<lambda>c. c \<noteq> CHR ''/''"
  show ?case
  proof (cases "dropWhile ?P path")
    case Nil
    then have "CHR ''/'' \<notin> set path" by (simp add: dropWhile_eq_Nil_conv) metis
    then have split: "split_path path = [path]" and taken: "takeWhile ?P path = path"
      by (rule split_path_name, subst takeWhile_eq_all_conv) auto
    have "PathEscapes path \<longleftrightarrow> path \<noteq> [] \<and> path = ''..''" "set (split_path path) = {path}"
      unfolding PathEscapes.simps [of path] Nil taken split by simp_all
    then show ?thesis by auto
  next
    case (Cons c rest)
    then have c: "c = CHR ''/''" using hd_dropWhile [of ?P path] by simp
    have path: "path = takeWhile ?P path @ CHR ''/'' # rest" using takeWhile_dropWhile_id [of ?P path] by (simp only: Cons c)
    have "CHR ''/'' \<notin> set (takeWhile ?P path)" by (auto dest: set_takeWhileD)
    note split_path_name [OF this]
    then have "split_path path = takeWhile ?P path # split_path rest"
      using split_path_join [of "takeWhile ?P path" rest, folded path] by simp
    then have "set (split_path path) = insert (takeWhile ?P path) (set (split_path rest))" by simp
    moreover have "PathEscapes path \<longleftrightarrow> takeWhile ?P path = ''..'' \<or> PathEscapes rest"
      unfolding PathEscapes.simps [of path] Cons list.case using Cons by (metis dropWhile.simps(1) list.distinct(1))
    moreover have "PathEscapes rest \<longleftrightarrow> ''..'' \<in> set (split_path rest)" by (rule "1.IH" [OF Cons])
    ultimately show ?thesis by (metis insert_iff)
  qed
qed

text \<open>A path below the folder that is mounted, without a component \<open>..\<close> behind it.\<close>

definition below :: "string \<Rightarrow> string \<Rightarrow> bool" where
  "below base p \<longleftrightarrow> (\<exists>rel. ''..'' \<notin> set (split_path rel) \<and>
     p = (if base = [] then rel else if rel = [] then base else base @ ''/'' @ rel))"

lemma split_path_slash: "split_path (CHR ''/'' # p) = [] # split_path p"
  by simp

lemma SharePath_below: "\<not> PathEscapes path \<Longrightarrow> below (mb_fBasePath sb) (SharePath sb path)"
  unfolding below_def SharePath_def Let_def PathEscapes_component
  by (intro exI [of _ "if path \<noteq> [] \<and> hd path = CHR ''/'' then tl path else path"]) (cases path; auto)

end
