(* ===== verification/SmbServer.thy ===== *)
theory SmbServer
  imports Smb
begin

text \<open>
  A whole SMB server as one volume, \<open>optional/smb/SmbServerBackend.cpp\<close>: its root lists the shares, and
  each share has a backend of its own that is connected on first use. A pointer to such a backend is
  the name of its share, under which it stays until everything is disconnected.
\<close>

section \<open>Routing\<close>

text \<open>The share and the rest of the path, which keeps its leading slash.\<close>

definition SplitServerPath :: "string \<Rightarrow> string \<times> string" where
  "SplitServerPath path = (let p = dropWhile (\<lambda>c. c = CHR ''/'') path in
     (takeWhile (\<lambda>c. c \<noteq> CHR ''/'') p, dropWhile (\<lambda>c. c \<noteq> CHR ''/'') p))"

section \<open>State\<close>

record SmbServerBackend =
  ms_fServer :: SmbConfig
  ms_fShares :: "string list"
  ms_fBackends :: "(string, SmbBackend) std_map"
  ms_fHandles :: "(u64, string \<times> u64) std_map"
  ms_fNextHandle :: u64
  ms_fError :: smb_error

definition SmbServerBackend :: SmbServerBackend where
  "SmbServerBackend = \<lparr>ms_fServer = \<lparr>mc_server = [], mc_share = [], mc_user = [], mc_password = [], mc_domain = [], mc_basePath = []\<rparr>,
     ms_fShares = [], ms_fBackends = [], ms_fHandles = [], ms_fNextHandle = 1, ms_fError = NoError\<rparr>"

type_synonym 'a server_op = "('a outcome \<times> SmbServerBackend) prog"

definition ConnectServer :: "SmbServerBackend \<Rightarrow> SmbConfig \<Rightarrow> unit server_op" where
  "ConnectServer ss config =
    (let server = config\<lparr>mc_share := [], mc_basePath := []\<rparr>; ss = ss\<lparr>ms_fServer := server\<rparr> in
     pbind (Smb_EnumShares SmbBackend server) (\<lambda>(out, enumerator). Ret (case out of
       Inl status \<Rightarrow> (Inl status, ss\<lparr>ms_fShares := [], ms_fError := mb_fError enumerator\<rparr>)
     | Inr shares \<Rightarrow> (Inr (), ss\<lparr>ms_fShares := shares\<rparr>))))"

fun disconnect_all :: "(string, SmbBackend) std_map \<Rightarrow> unit prog" where
  "disconnect_all [] = Ret ()"
| "disconnect_all ((_, sb) # rest) = pbind (Smb_Disconnect sb) (\<lambda>_. disconnect_all rest)"

definition Server_Disconnect :: "SmbServerBackend \<Rightarrow> SmbServerBackend prog" where
  "Server_Disconnect ss = pbind (disconnect_all (ms_fBackends ss)) (\<lambda>_.
     Ret (ss\<lparr>ms_fHandles := [], ms_fBackends := [], ms_fShares := []\<rparr>))"

definition Share_DirEntry :: "string \<Rightarrow> Entry" where
  "Share_DirEntry name = \<lparr>en_name = name, en_stat = root_stat, en_attrs = []\<rparr>"

text \<open>Whether there is a backend for the share now; it is found under the share's name.\<close>

definition ShareBackend :: "SmbServerBackend \<Rightarrow> string \<Rightarrow> (bool \<times> SmbServerBackend) prog" where
  "ShareBackend ss share = (case map_of (ms_fBackends ss) share of
     Some _ \<Rightarrow> Ret (True, ss)
   | None \<Rightarrow> pbind (Smb_Connect SmbBackend ((ms_fServer ss)\<lparr>mc_share := share\<rparr>)) (\<lambda>(out, backend). Ret (case out of
         Inl _ \<Rightarrow> (False, ss\<lparr>ms_fError := mb_fError backend\<rparr>)
       | Inr _ \<Rightarrow> (True, ss\<lparr>ms_fBackends := map_put share backend (ms_fBackends ss)\<rparr>))))"

text \<open>A call through the pointer to a share's backend.\<close>

definition through :: "string \<Rightarrow> (SmbBackend \<Rightarrow> 'a smb_op) \<Rightarrow> SmbServerBackend \<Rightarrow> 'a server_op" where
  "through share f ss = pbind (f (the (map_of (ms_fBackends ss) share))) (\<lambda>(out, sb).
     Ret (out, ss\<lparr>ms_fBackends := map_put share sb (ms_fBackends ss)\<rparr>))"

definition on_share :: "SmbServerBackend \<Rightarrow> string \<Rightarrow> (SmbBackend \<Rightarrow> 'a smb_op) \<Rightarrow> 'a server_op" where
  "on_share ss share f = pbind (ShareBackend ss share) (\<lambda>(found, ss).
     if found then through share f ss else Ret (Inl S_AccessDenied, ss))"

section \<open>The operations\<close>

definition Server_Stat :: "SmbServerBackend \<Rightarrow> string \<Rightarrow> Entry server_op" where
  "Server_Stat ss path = (case SplitServerPath path of (share, rest) \<Rightarrow>
     if share = [] then Ret (Inr (Share_DirEntry []), ss)
     else if rest = [] then Ret (Inr (Share_DirEntry share), ss)
     else on_share ss share (\<lambda>sb. Smb_Stat sb rest))"

definition Server_ReadDir :: "SmbServerBackend \<Rightarrow> string \<Rightarrow> Entry list server_op" where
  "Server_ReadDir ss path = (case SplitServerPath path of (share, rest) \<Rightarrow>
     if share = [] then Ret (Inr (map Share_DirEntry (ms_fShares ss)), ss)
     else on_share ss share (\<lambda>sb. Smb_ReadDir sb rest))"

definition add_remapped :: "string \<Rightarrow> u64 \<Rightarrow> SmbServerBackend \<Rightarrow> u64 \<times> SmbServerBackend" where
  "add_remapped share local ss = (let handle = ms_fNextHandle ss in
     (handle, ss\<lparr>ms_fNextHandle := handle + 1, ms_fHandles := map_put handle (share, local) (ms_fHandles ss)\<rparr>))"

definition Server_Open :: "SmbServerBackend \<Rightarrow> string \<Rightarrow> (u64 \<times> u64) server_op" where
  "Server_Open ss path = (case SplitServerPath path of (share, rest) \<Rightarrow>
     if share = [] \<or> rest = [] then Ret (Inl S_IsADirectory, ss)
     else pbind (on_share ss share (\<lambda>sb. Smb_Open sb rest)) (\<lambda>(out, ss). Ret (case out of
         Inl status \<Rightarrow> (Inl status, ss)
       | Inr (local, sz) \<Rightarrow> (case add_remapped share local ss of (handle, ss) \<Rightarrow> (Inr (handle, sz), ss)))))"

definition on_handle :: "SmbServerBackend \<Rightarrow> u64 \<Rightarrow> (u64 \<Rightarrow> SmbBackend \<Rightarrow> 'a smb_op) \<Rightarrow> 'a server_op" where
  "on_handle ss handle f = (case map_of (ms_fHandles ss) handle of
     None \<Rightarrow> Ret (Inl S_BadHandle, ss)
   | Some (share, local) \<Rightarrow> through share (f local) ss)"

definition Server_Read :: "SmbServerBackend \<Rightarrow> u64 \<Rightarrow> u64 \<Rightarrow> u32 \<Rightarrow> bytes server_op" where
  "Server_Read ss handle off len = on_handle ss handle (\<lambda>local sb. Smb_Read sb local off len)"

definition Server_Close :: "SmbServerBackend \<Rightarrow> u64 \<Rightarrow> unit server_op" where
  "Server_Close ss handle = (case map_of (ms_fHandles ss) handle of
     None \<Rightarrow> Ret (Inl S_BadHandle, ss)
   | Some (share, local) \<Rightarrow> pbind (through share (\<lambda>sb. Smb_Close sb local) ss) (\<lambda>(out, ss).
       Ret (out, ss\<lparr>ms_fHandles := AList.delete handle (ms_fHandles ss)\<rparr>)))"

definition Server_OpenWrite :: "SmbServerBackend \<Rightarrow> string \<Rightarrow> u64 server_op" where
  "Server_OpenWrite ss path = (case SplitServerPath path of (share, rest) \<Rightarrow>
     if share = [] \<or> rest = [] then Ret (Inl S_IsADirectory, ss)
     else pbind (on_share ss share (\<lambda>sb. Smb_OpenWrite sb rest)) (\<lambda>(out, ss). Ret (case out of
         Inl status \<Rightarrow> (Inl status, ss)
       | Inr local \<Rightarrow> (case add_remapped share local ss of (handle, ss) \<Rightarrow> (Inr handle, ss)))))"

definition Server_Write :: "SmbServerBackend \<Rightarrow> u64 \<Rightarrow> u64 \<Rightarrow> bytes \<Rightarrow> u64 server_op" where
  "Server_Write ss handle off dat = on_handle ss handle (\<lambda>local sb. Smb_Write sb local off dat)"

text \<open>An operation that changes something inside a share; \<open>outside\<close> is its answer for the root and the shares.\<close>

definition inside_share :: "SmbServerBackend \<Rightarrow> string \<Rightarrow> BackendStatus \<Rightarrow> (string \<Rightarrow> SmbBackend \<Rightarrow> 'a smb_op) \<Rightarrow> 'a server_op" where
  "inside_share ss path outside f = (case SplitServerPath path of (share, rest) \<Rightarrow>
     if share = [] \<or> rest = [] then Ret (Inl outside, ss) else on_share ss share (f rest))"

definition Server_Mkdir :: "SmbServerBackend \<Rightarrow> string \<Rightarrow> u32 \<Rightarrow> unit server_op" where
  "Server_Mkdir ss path mode = inside_share ss path S_AccessDenied (\<lambda>rest sb. Smb_Mkdir sb rest mode)"

definition Server_Unlink :: "SmbServerBackend \<Rightarrow> string \<Rightarrow> unit server_op" where
  "Server_Unlink ss path = inside_share ss path S_AccessDenied (\<lambda>rest sb. Smb_Unlink sb rest)"

definition Server_Rename :: "SmbServerBackend \<Rightarrow> string \<Rightarrow> string \<Rightarrow> unit server_op" where
  "Server_Rename ss src dst = (case (SplitServerPath src, SplitServerPath dst) of ((fromShare, fromRest), (toShare, toRest)) \<Rightarrow>
     if fromShare = [] \<or> fromRest = [] \<or> toShare = [] \<or> toRest = [] then Ret (Inl S_AccessDenied, ss)
     else if fromShare \<noteq> toShare then Ret (Inl S_Unsupported, ss)
     else on_share ss fromShare (\<lambda>sb. Smb_Rename sb fromRest toRest))"

definition Server_Truncate :: "SmbServerBackend \<Rightarrow> string \<Rightarrow> u64 \<Rightarrow> unit server_op" where
  "Server_Truncate ss path sz = inside_share ss path S_IsADirectory (\<lambda>rest sb. Smb_Truncate sb rest sz)"

definition smb_server_backend :: "'os system \<Rightarrow> (SmbServerBackend \<times> 'os) PeerBackend" where
  "smb_server_backend sys =
    (reading_backend (\<lambda>path. on_tree sys (\<lambda>ss. Server_Stat ss path)) (\<lambda>path. on_tree sys (\<lambda>ss. Server_ReadDir ss path))
      (\<lambda>path. on_tree sys (\<lambda>ss. Server_Open ss path)) (\<lambda>handle off len. on_tree sys (\<lambda>ss. Server_Read ss handle off len))
      (\<lambda>handle. on_tree sys (\<lambda>ss. Server_Close ss handle)))
    \<lparr>v_OpenWrite := (\<lambda>path. on_tree sys (\<lambda>ss. Server_OpenWrite ss path)),
     v_Write := (\<lambda>handle off dat. on_tree sys (\<lambda>ss. Server_Write ss handle off dat)),
     v_Mkdir := (\<lambda>path mode. on_tree sys (\<lambda>ss. Server_Mkdir ss path mode)),
     v_Unlink := (\<lambda>path. on_tree sys (\<lambda>ss. Server_Unlink ss path)),
     v_Rename := (\<lambda>src dst. on_tree sys (\<lambda>ss. Server_Rename ss src dst)),
     v_Truncate := (\<lambda>path sz. on_tree sys (\<lambda>ss. Server_Truncate ss path sz))\<rparr>"

section \<open>A path has one place\<close>

text \<open>The path of a file inside a share, and its two parts again.\<close>

lemma SplitServerPath_joined:
  assumes "share \<noteq> []" "CHR ''/'' \<notin> set share"
  shows "SplitServerPath (CHR ''/'' # share) = (share, [])"
    and "SplitServerPath (CHR ''/'' # share @ CHR ''/'' # rest) = (share, CHR ''/'' # rest)"
proof -
  obtain c cs where share: "share = c # cs" "c \<noteq> CHR ''/''" "CHR ''/'' \<notin> set cs" using assms by (cases share) auto
  then have "x \<in> set cs \<Longrightarrow> x \<noteq> CHR ''/''" for x by auto
  then show "SplitServerPath (CHR ''/'' # share) = (share, [])"
    "SplitServerPath (CHR ''/'' # share @ CHR ''/'' # rest) = (share, CHR ''/'' # rest)"
    using share by (simp_all add: SplitServerPath_def takeWhile_append dropWhile_append takeWhile_eq_all_conv dropWhile_eq_Nil_conv)
qed

end
