(* ===== verification/SftpMount.thy ===== *)
theory SftpMount
  imports Sftp
begin

text \<open>
  The configuration of an SFTP mount, \<open>fondamenta/fuse/SftpMount.cpp\<close>: read from the arguments of the
  add-on and the environment, and written as the parameter string of a mount. The environment and the
  splitting of that string into arguments, which userlandfs does, are parameters.
\<close>

section \<open>Parsing and building\<close>

text \<open>\<open>MatchOption\<close>: the value of a token \<open>name=value\<close>.\<close>

definition MatchOption :: "string \<Rightarrow> string \<Rightarrow> string option" where
  "MatchOption token name =
    (if CHR ''='' \<notin> set token then None
     else if takeWhile (\<lambda>c. c \<noteq> CHR ''='') token \<noteq> name then None
     else Some (tl (dropWhile (\<lambda>c. c \<noteq> CHR ''='') token)))"

text \<open>\<open>atoi\<close>, on numbers that fit an \<open>int\<close>.\<close>

definition atoi :: "string \<Rightarrow> int" where
  "atoi s = (let s = dropWhile is_space s;
     neg = (s \<noteq> [] \<and> hd s = CHR ''-'');
     s = (if s \<noteq> [] \<and> (hd s = CHR ''-'' \<or> hd s = CHR ''+'') then tl s else s);
     v = int (digits_value (takeWhile is_digit s))
   in if neg then - v else v)"

record SftpMount =
  sm_config :: SftpConfig
  sm_fuseArgs :: "string list"
  sm_ok :: bool
  sm_error :: string

text \<open>One argument, on the mount and the port's text.\<close>

definition parse_token :: "string \<Rightarrow> SftpMount \<times> string \<Rightarrow> SftpMount \<times> string" where
  "parse_token token st = (case st of (out, port) \<Rightarrow>
     case MatchOption token ''host'' of Some v \<Rightarrow> (out\<lparr>sm_config := (sm_config out)\<lparr>sc_host := v\<rparr>\<rparr>, port) | None \<Rightarrow>
     (case MatchOption token ''port'' of Some v \<Rightarrow> (out, v) | None \<Rightarrow>
     (case MatchOption token ''user'' of Some v \<Rightarrow> (out\<lparr>sm_config := (sm_config out)\<lparr>sc_user := v\<rparr>\<rparr>, port) | None \<Rightarrow>
     (case MatchOption token ''password'' of Some v \<Rightarrow> (out\<lparr>sm_config := (sm_config out)\<lparr>sc_password := v\<rparr>\<rparr>, port) | None \<Rightarrow>
     (case MatchOption token ''key'' of Some v \<Rightarrow> (out\<lparr>sm_config := (sm_config out)\<lparr>sc_privateKeyPath := v\<rparr>\<rparr>, port) | None \<Rightarrow>
     (case MatchOption token ''path'' of Some v \<Rightarrow> (out\<lparr>sm_config := (sm_config out)\<lparr>sc_basePath := v\<rparr>\<rparr>, port) | None \<Rightarrow>
       (out\<lparr>sm_fuseArgs := sm_fuseArgs out @ [token]\<rparr>, port)))))))"

definition fall_back :: "(string \<Rightarrow> string) \<Rightarrow> SftpConfig \<Rightarrow> SftpConfig" where
  "fall_back env c = c\<lparr>sc_host := (if sc_host c = [] then env ''CAMPIELLO_SFTP_HOST'' else sc_host c),
     sc_user := (if sc_user c = [] then env ''CAMPIELLO_SFTP_USER'' else sc_user c),
     sc_password := (if sc_password c = [] then env ''CAMPIELLO_SFTP_PASS'' else sc_password c),
     sc_privateKeyPath := (if sc_privateKeyPath c = [] then env ''CAMPIELLO_SFTP_KEY'' else sc_privateKeyPath c),
     sc_basePath := (if sc_basePath c = [] then env ''CAMPIELLO_SFTP_PATH'' else sc_basePath c)\<rparr>"

text \<open>What is done once the arguments are read: fallbacks, the port, and what must not be missing.\<close>

definition with_port :: "string \<Rightarrow> SftpConfig \<Rightarrow> SftpConfig" where
  "with_port port c = (if port \<noteq> [] \<and> atoi port > 0 \<and> atoi port \<le> 0xFFFF then c\<lparr>sc_port := word_of_int (atoi port)\<rparr> else c)"

definition finish_mount :: "(string \<Rightarrow> string) \<Rightarrow> SftpMount \<times> string \<Rightarrow> SftpMount" where
  "finish_mount env st = (case st of (out, port) \<Rightarrow>
    (let config = with_port (if port = [] then env ''CAMPIELLO_SFTP_PORT'' else port) (fall_back env (sm_config out));
         out = out\<lparr>sm_config := config\<rparr>
     in if sc_host config = [] then out\<lparr>sm_error := ''no SFTP host (set host=... or CAMPIELLO_SFTP_HOST)''\<rparr>
        else if sc_user config = [] then out\<lparr>sm_error := ''no SFTP user (set user=... or CAMPIELLO_SFTP_USER)''\<rparr>
        else out\<lparr>sm_ok := True\<rparr>))"

definition ParseSftpMount :: "(string \<Rightarrow> string) \<Rightarrow> string list \<Rightarrow> SftpMount" where
  "ParseSftpMount env argv = finish_mount env
    (fold parse_token (drop 1 argv) (\<lparr>sm_config = SftpConfig, sm_fuseArgs = take 1 argv, sm_ok = False, sm_error = []\<rparr>, []))"

definition BuildMountParameters :: "SftpConfig \<Rightarrow> string" where
  "BuildMountParameters config = ''campiello_sftp''
     @ '' host='' @ sc_host config
     @ '' port='' @ decimal (unat (sc_port config))
     @ '' user='' @ sc_user config
     @ (if sc_password config \<noteq> [] then '' password='' @ sc_password config else [])
     @ (if sc_privateKeyPath config \<noteq> [] then '' key='' @ sc_privateKeyPath config else [])
     @ (if sc_basePath config \<noteq> [] then '' path='' @ sc_basePath config else [])"

text \<open>
  What the add-on's \<open>main\<close> does before and after \<open>fuse_main\<close>: a key is pinned on first sight, a changed
  one refused.
\<close>

definition headless :: HostKeyDecision where
  "headless = Some (\<lambda>status key. Ret (status = Host_Unknown))"

definition sftp_main :: "(string \<Rightarrow> string) \<Rightarrow> string list \<Rightarrow> string \<Rightarrow> (string list \<Rightarrow> SftpBackend \<Rightarrow> (int \<times> SftpBackend) prog) \<Rightarrow> int prog" where
  "sftp_main env argv knownHostsPath fuse =
    (let mount = ParseSftpMount env argv in
     if \<not> sm_ok mount then Ret 1
     else pbind (Hosts_LoadFromFile [] knownHostsPath) (\<lambda>(_, knownHosts).
       pbind (Sftp_Connect SftpBackend (sm_config mount) knownHosts knownHostsPath headless) (\<lambda>(s, backend, _).
         if s \<noteq> S_Ok then Ret 1
         else pbind (fuse (sm_fuseArgs mount) backend) (\<lambda>(rc, backend).
           pbind (Sftp_Disconnect backend) (\<lambda>_. Ret rc)))))"

section \<open>A configuration survives the parameter string\<close>

definition word :: "string \<Rightarrow> bool" where
  "word s \<longleftrightarrow> s \<noteq> [] \<and> CHR '' '' \<notin> set s"

definition spaced :: "string list \<Rightarrow> string" where
  "spaced ws = concat (map (\<lambda>w. CHR '' '' # w) ws)"

text \<open>A splitting into words, as it is documented for the parameters of a mount.\<close>

definition splits_words :: "(string \<Rightarrow> string list) \<Rightarrow> bool" where
  "splits_words tok \<longleftrightarrow> (\<forall>w ws. list_all word (w # ws) \<longrightarrow> tok (w @ spaced ws) = w # ws)"

definition option_token :: "string \<Rightarrow> string \<Rightarrow> string list" where
  "option_token name v = (if v \<noteq> [] then [name @ CHR ''='' # v] else [])"

definition config_tokens :: "SftpConfig \<Rightarrow> string list" where
  "config_tokens c = [''host='' @ sc_host c, ''port='' @ decimal (unat (sc_port c)), ''user='' @ sc_user c] @
     option_token ''password'' (sc_password c) @ option_token ''key'' (sc_privateKeyPath c) @ option_token ''path'' (sc_basePath c)"

lemma Build_tokens: "BuildMountParameters c = ''campiello_sftp'' @ spaced (config_tokens c)"
  by (simp add: BuildMountParameters_def config_tokens_def option_token_def spaced_def)

lemma MatchOption_token: "CHR ''='' \<notin> set name \<Longrightarrow> MatchOption (name @ CHR ''='' # v) name' = (if name = name' then Some v else None)"
  by (auto simp: MatchOption_def takeWhile_append dropWhile_append)

lemmas MatchOption_tokens = MatchOption_token [of "''host''"] MatchOption_token [of "''port''"] MatchOption_token [of "''user''"]
  MatchOption_token [of "''password''"] MatchOption_token [of "''key''"] MatchOption_token [of "''path''"]

lemma atoi_decimal: "atoi (decimal n) = int n"
proof -
  obtain c t where ct: "decimal n = c # t" using decimal_facts(1) [of n] by (cases "decimal n") auto
  have dig: "\<forall>c \<in> set (decimal n). is_digit c" by (rule decimal_facts)
  then have c: "\<not> is_space c" "c \<noteq> CHR ''-''" "c \<noteq> CHR ''+''" using is_digit_not ct by auto
  have "takeWhile is_digit (decimal n) = decimal n" using dig by (simp add: takeWhile_eq_all_conv)
  moreover have "dropWhile is_space (decimal n) = decimal n" using c ct by simp
  ultimately show ?thesis using c decimal_facts(3) [of n] by (simp add: atoi_def Let_def ct)
qed

text \<open>The fields the string has no token for are lost, and unset ones may come from the environment.\<close>

definition carried :: "SftpConfig \<Rightarrow> SftpConfig" where
  "carried c = c\<lparr>sc_publicKeyPath := [], sc_keyPassphrase := []\<rparr>"

lemma finish_mount_port:
  assumes "sc_host (sm_config out) \<noteq> []" "sc_user (sm_config out) \<noteq> []" "n \<noteq> (0 :: u16)"
  shows "finish_mount env (out, decimal (unat n)) =
    out\<lparr>sm_config := (fall_back env (sm_config out))\<lparr>sc_port := n\<rparr>, sm_ok := True\<rparr>"
proof -
  have n: "uint n < 2 ^ 16" "0 < uint n" using unsigned_less [of n] assms(3)
    by (simp, metis unsigned_eq_0_iff unsigned_greater_eq order_le_less)
  have port: "with_port (decimal (unat n)) c = c\<lparr>sc_port := n\<rparr>" for c
    using n by (simp add: with_port_def atoi_decimal decimal_facts(1))
  show ?thesis using assms(1,2) by (simp add: finish_mount_def Let_def decimal_facts(1) port fall_back_def)
qed

lemma Parse_tokens:
  assumes "sc_host c \<noteq> []" "sc_user c \<noteq> []" "sc_port c \<noteq> 0"
  shows "ParseSftpMount env (a # config_tokens c) =
    \<lparr>sm_config = fall_back env (carried c), sm_fuseArgs = [a], sm_ok = True, sm_error = []\<rparr>"
proof -
  have "fold parse_token (config_tokens c) (\<lparr>sm_config = SftpConfig, sm_fuseArgs = [a], sm_ok = False, sm_error = []\<rparr>, []) =
      (\<lparr>sm_config = (carried c)\<lparr>sc_port := 22\<rparr>, sm_fuseArgs = [a], sm_ok = False, sm_error = []\<rparr>, decimal (unat (sc_port c)))"
    using MatchOption_tokens
    by (simp add: config_tokens_def option_token_def parse_token_def SftpConfig_def carried_def)
  then show ?thesis using assms by (simp add: ParseSftpMount_def finish_mount_port carried_def) (simp add: fall_back_def)
qed

theorem mount_parameters_roundtrip:
  assumes "splits_words tok" and "list_all word [sc_host c, sc_user c]" and "sc_port c \<noteq> 0"
    and "list_all (\<lambda>s. s = [] \<or> word s) [sc_password c, sc_privateKeyPath c, sc_basePath c]"
  shows "ParseSftpMount env (tok (BuildMountParameters c)) =
    \<lparr>sm_config = fall_back env (carried c), sm_fuseArgs = [''campiello_sftp''], sm_ok = True, sm_error = []\<rparr>"
proof -
  have digits: "CHR '' '' \<notin> set (decimal n)" for n
    using decimal_facts(2) [of n] by (auto simp: is_digit_def)
  have "list_all word (''campiello_sftp'' # config_tokens c)"
    using assms(2,4) digits by (auto simp: config_tokens_def option_token_def word_def)
  then have "tok (BuildMountParameters c) = ''campiello_sftp'' # config_tokens c"
    using assms(1) unfolding Build_tokens splits_words_def by blast
  then show ?thesis using Parse_tokens assms(2,3) by (simp add: word_def)
qed

text \<open>A base path with a space is cut there, and its rest becomes an argument of FUSE.\<close>

lemma spaced_path_is_cut:
  assumes "splits_words tok" and "list_all word [sc_host c, sc_user c, p, q]" and "sc_port c \<noteq> 0" and "sc_basePath c = p @ CHR '' '' # q"
    and "sc_password c = []" "sc_privateKeyPath c = []" "CHR ''='' \<notin> set q"
  shows "sc_basePath (sm_config (ParseSftpMount env (tok (BuildMountParameters c)))) = p \<and>
    sm_fuseArgs (ParseSftpMount env (tok (BuildMountParameters c))) = [''campiello_sftp'', q]"
proof -
  have digits: "CHR '' '' \<notin> set (decimal n)" for n
    using decimal_facts(2) [of n] by (auto simp: is_digit_def)
  let ?ts = "[''host='' @ sc_host c, ''port='' @ decimal (unat (sc_port c)), ''user='' @ sc_user c, ''path='' @ p, q]"
  have "list_all word (''campiello_sftp'' # ?ts)" using assms(2) digits by (auto simp: word_def)
  moreover have "BuildMountParameters c = ''campiello_sftp'' @ spaced ?ts"
    using assms(4-6) by (simp add: BuildMountParameters_def spaced_def)
  ultimately have "tok (BuildMountParameters c) = ''campiello_sftp'' # ?ts"
    using assms(1) unfolding splits_words_def by metis
  moreover have "MatchOption q n = None" for n using assms(7) by (simp add: MatchOption_def)
  ultimately have "ParseSftpMount env (tok (BuildMountParameters c)) = finish_mount env
      (\<lparr>sm_config = SftpConfig\<lparr>sc_host := sc_host c, sc_user := sc_user c, sc_basePath := p\<rparr>,
        sm_fuseArgs = [''campiello_sftp'', q], sm_ok = False, sm_error = []\<rparr>, decimal (unat (sc_port c)))"
    using MatchOption_tokens by (simp add: ParseSftpMount_def parse_token_def SftpConfig_def)
  then show ?thesis using assms(2,3) by (simp add: finish_mount_port word_def fall_back_def)
qed

end
