(* ===== verification/Launch.thy ===== *)
theory Launch
  imports Neighborhood
begin

text \<open>
  How a device is handed to an add-on, \<open>vicinato/DeviceLaunch.cpp\<close>: the list of arguments the neighborhood
  starts a handler with, and what the handler reads from it.
\<close>

section \<open>Values of arguments\<close>

definition upper_hex :: string where "upper_hex = ''0123456789ABCDEF''"

definition escaped :: "char \<Rightarrow> bool" where
  "escaped c \<longleftrightarrow> of_char c \<le> (0x20 :: nat) \<or> c = CHR ''%'' \<or> of_char c = (0x7F :: nat)"

definition encode_char :: "char \<Rightarrow> string" where
  "encode_char c = (if escaped c then [CHR ''%'', upper_hex ! (of_char c div 16), upper_hex ! (of_char c mod 16)] else [c])"

definition EncodeArg :: "string \<Rightarrow> string" where
  "EncodeArg value = concat (map encode_char value)"

fun DecodeArg :: "string \<Rightarrow> string" where
  "DecodeArg (c # h # l # s) = (case (hex_value h, hex_value l) of
     (Some hi, Some lo) \<Rightarrow> if c = CHR ''%'' then char_of (hi * 16 + lo) # DecodeArg s else c # DecodeArg (h # l # s)
   | _ \<Rightarrow> c # DecodeArg (h # l # s))"
| "DecodeArg (c # s) = c # DecodeArg s"
| "DecodeArg [] = []"

section \<open>The list of arguments\<close>

record DeviceInfo =
  di_host :: string
  di_port :: u16
  di_type :: string
  di_name :: string
  di_action :: string
  di_txt :: "(string \<times> string) list"

definition DeviceInfo :: DeviceInfo where
  "DeviceInfo = \<lparr>di_host = [], di_port = 0, di_type = [], di_name = [], di_action = [], di_txt = []\<rparr>"

definition BuildLaunchArgs :: "NetworkService \<Rightarrow> string \<Rightarrow> string list" where
  "BuildLaunchArgs service action =
    [''host='' @ EncodeArg (ns_host service), ''port='' @ decimal (unat (ns_port service))]
    @ (if ns_serviceType service \<noteq> [] then [''type='' @ EncodeArg (ns_serviceType service)] else [])
    @ (if ns_label service \<noteq> [] then [''name='' @ EncodeArg (ns_label service)] else [])
    @ (if action \<noteq> [] then [''action='' @ EncodeArg action] else [])
    @ map (\<lambda>(k, v). ''txt.'' @ EncodeArg k @ ''='' @ EncodeArg v) (ns_txt service)"

definition set_field :: "string \<Rightarrow> string \<Rightarrow> DeviceInfo \<Rightarrow> DeviceInfo" where
  "set_field key value out =
    (if key = ''host'' then out\<lparr>di_host := DecodeArg value\<rparr>
     else if key = ''port'' then out\<lparr>di_port := (case strtoul (c_str value) of Some (v, _) \<Rightarrow> ucast v | None \<Rightarrow> 0)\<rparr>
     else if key = ''type'' then out\<lparr>di_type := DecodeArg value\<rparr>
     else if key = ''name'' then out\<lparr>di_name := DecodeArg value\<rparr>
     else if key = ''action'' then out\<lparr>di_action := DecodeArg value\<rparr>
     else if take 4 key = ''txt.'' then out\<lparr>di_txt := di_txt out @ [(DecodeArg (drop 4 key), DecodeArg value)]\<rparr>
     else out)"

text \<open>An argument vector holds C strings.\<close>

definition parse_arg :: "string \<Rightarrow> DeviceInfo \<Rightarrow> DeviceInfo" where
  "parse_arg arg out =
    (let token = c_str arg in
     if CHR ''='' \<notin> set token then out else (case split_entry token of (key, value) \<Rightarrow> set_field key value out))"

definition ParseDevice :: "string list \<Rightarrow> DeviceInfo" where
  "ParseDevice argv = fold parse_arg (drop 1 argv) DeviceInfo"

section \<open>Arguments arrive\<close>

lemma hex_value_upper: "n < 16 \<Longrightarrow> hex_value (upper_hex ! n) = Some n"
proof -
  have "list_all (\<lambda>n. hex_value (upper_hex ! n) = Some n) [0..<16]" by code_simp
  then show "n < 16 \<Longrightarrow> ?thesis" by (simp add: list_all_iff)
qed

lemma DecodeArg_plain: "c \<noteq> CHR ''%'' \<Longrightarrow> DecodeArg (c # s) = c # DecodeArg s"
  by (cases "(c # s)" rule: DecodeArg.cases) (auto split: option.split)

lemma DecodeArg_char: "DecodeArg (encode_char c @ s) = c # DecodeArg s"
proof (cases "escaped c")
  case True
  have n: "of_char c < (256 :: nat)" by simp
  then have "of_char c div 16 < (16 :: nat)" by linarith
  then show ?thesis using True n by (simp add: encode_char_def hex_value_upper)
next
  case False
  then show ?thesis by (auto simp: encode_char_def escaped_def intro: DecodeArg_plain)
qed

lemma DecodeArg_EncodeArg: "DecodeArg (EncodeArg s) = s"
  by (induction s) (simp_all add: EncodeArg_def DecodeArg_char)

text \<open>No byte of an encoded value is white space or a control byte.\<close>

lemma upper_hex_word: "n < 16 \<Longrightarrow> (0x20 :: nat) < of_char (upper_hex ! n) \<and> upper_hex ! n \<noteq> CHR ''=''"
proof -
  have "list_all (\<lambda>n. (0x20 :: nat) < of_char (upper_hex ! n) \<and> upper_hex ! n \<noteq> CHR ''='') [0..<16]" by code_simp
  then show "n < 16 \<Longrightarrow> ?thesis" by (simp add: list_all_iff)
qed

lemma encode_char_word: "d \<in> set (encode_char c) \<Longrightarrow> (0x20 :: nat) < of_char d \<and> (d = CHR ''='' \<longrightarrow> c = CHR ''='')"
proof -
  have "of_char c div 16 < (16 :: nat)" using nat_of_char_less_256 [of c] by linarith
  then have "list_all (\<lambda>n. (0x20 :: nat) < of_char (upper_hex ! n) \<and> upper_hex ! n \<noteq> CHR ''='') [of_char c div 16, of_char c mod 16]"
    using upper_hex_word by simp
  then show "d \<in> set (encode_char c) \<Longrightarrow> ?thesis"
    by (auto simp: encode_char_def escaped_def split: if_splits)
qed

lemma EncodeArg_word: "d \<in> set (EncodeArg s) \<Longrightarrow> (0x20 :: nat) < of_char d \<and> (d = CHR ''='' \<longrightarrow> CHR ''='' \<in> set s)"
  unfolding EncodeArg_def using encode_char_word by fastforce

lemma split_entry_at: "CHR ''='' \<notin> set k \<Longrightarrow> split_entry (k @ CHR ''='' # v) = (k, v)"
  by (simp add: split_entry_def takeWhile_append dropWhile_append)

text \<open>An argument of printable bytes with a key.\<close>

definition graphic :: "string \<Rightarrow> bool" where
  "graphic s \<longleftrightarrow> (\<forall>c \<in> set s. (0x20 :: nat) < of_char c)"

lemma graphic_c_str: "graphic s \<Longrightarrow> c_str s = s"
  by (auto simp: graphic_def c_str_def takeWhile_eq_all_conv)

lemma graphic_EncodeArg [simp]: "graphic (EncodeArg s)"
  using EncodeArg_word by (auto simp: graphic_def)

lemma graphic_simps [simp]: "graphic (s @ t) \<longleftrightarrow> graphic s \<and> graphic t" "graphic (c # s) \<longleftrightarrow> (0x20 :: nat) < of_char c \<and> graphic s"
  "graphic []" "graphic (decimal n)"
  using decimal_facts(2) [of n] by (auto simp: graphic_def is_digit_def)

lemma parse_arg_at:
  assumes "graphic k" "graphic v" "CHR ''='' \<notin> set k"
  shows "parse_arg (k @ ''='' @ v) out = set_field k v out"
  using assms graphic_c_str [of "k @ ''='' @ v"] split_entry_at [of k v] by (simp add: parse_arg_def Let_def)

definition plain_keys :: "(string \<times> string) list \<Rightarrow> bool" where
  "plain_keys kvs \<longleftrightarrow> list_all (\<lambda>e. CHR ''='' \<notin> set (fst e)) kvs"

lemma plain_keys_simps [simp]: "plain_keys []" "plain_keys (e # kvs) \<longleftrightarrow> CHR ''='' \<notin> set (fst e) \<and> plain_keys kvs"
  by (simp_all add: plain_keys_def)

lemma parse_txt:
  assumes "plain_keys kvs"
  shows "fold parse_arg (map (\<lambda>(k, v). ''txt.'' @ EncodeArg k @ ''='' @ EncodeArg v) kvs) out = out\<lparr>di_txt := di_txt out @ kvs\<rparr>"
  using assms
proof (induction kvs arbitrary: out)
  case (Cons e kvs)
  obtain k v where e: "e = (k, v)" by (cases e)
  have "CHR ''='' \<notin> set (''txt.'' @ EncodeArg k)" using Cons.prems EncodeArg_word [of "CHR ''=''" k] by (auto simp: e)
  then have "parse_arg ((''txt.'' @ EncodeArg k) @ ''='' @ EncodeArg v) out = out\<lparr>di_txt := di_txt out @ [(k, v)]\<rparr>"
    by (subst parse_arg_at) (simp_all add: set_field_def DecodeArg_EncodeArg)
  then show ?case using Cons by (simp add: e)
qed simp

definition device_of :: "NetworkService \<Rightarrow> string \<Rightarrow> DeviceInfo" where
  "device_of service action = \<lparr>di_host = ns_host service, di_port = ns_port service, di_type = ns_serviceType service,
     di_name = ns_label service, di_action = action, di_txt = ns_txt service\<rparr>"

lemma launched_port: "strtoul (decimal (unat (p :: u16))) = Some (of_nat (unat p), [])"
  using strtoul_decimal [of "unat p" "[]"] unsigned_less [of p, where 'a = nat] by simp

lemma port_back: "(ucast (ucast (p :: u16) :: u64) :: u16) = p"
  by (rule word_unat_eq_iff [THEN iffD2]) (simp add: unat_ucast_small order_less_le_trans [OF unsigned_less])

lemmas parse_fields = parse_arg_at [of "''host''", simplified] parse_arg_at [of "''port''", simplified]
  parse_arg_at [of "''type''", simplified] parse_arg_at [of "''name''", simplified] parse_arg_at [of "''action''", simplified]

text \<open>
  A handler gets the device it is started for, whatever bytes its names hold, when no TXT key has an
  equals sign; and every argument is one word.
\<close>

lemma launched_whole:
  assumes "plain_keys (ns_txt service)"
  shows "ParseDevice (prog # BuildLaunchArgs service action) = device_of service action \<and>
    list_all graphic (BuildLaunchArgs service action)"
proof
  show "ParseDevice (prog # BuildLaunchArgs service action) = device_of service action"
    using parse_txt [OF assms]
    by (simp add: ParseDevice_def BuildLaunchArgs_def parse_fields set_field_def DecodeArg_EncodeArg launched_port
        graphic_c_str port_back device_of_def DeviceInfo_def)
  show "list_all graphic (BuildLaunchArgs service action)"
    by (auto simp: BuildLaunchArgs_def list_all_iff)
qed

text \<open>The TXT records of a packet have such keys, and the neighborhood hands them on.\<close>

lemma txt_entries_keys: "txt_entries bs = Some kvs \<Longrightarrow> plain_keys kvs"
proof (induction bs arbitrary: kvs rule: txt_entries.induct)
  case (2 slen r)
  have "CHR ''='' \<notin> set (fst (split_entry entry))" for entry
    by (auto simp: split_entry_def dest: set_takeWhileD)
  then show ?case using 2 by (auto simp: Let_def split: if_splits)
qed simp

lemma DecodeTxt_keys: "DecodeTxt rec = Some kvs \<Longrightarrow> plain_keys kvs"
  by (auto simp: DecodeTxt_def txt_entries_keys split: if_splits)

section \<open>From a packet to a handler\<close>

definition radar_plain :: "MdnsRadar \<Rightarrow> bool" where
  "radar_plain r \<longleftrightarrow> entries (\<lambda>_ i. plain_keys (ri_txt i)) (rd_fInstances r)"

lemma plain_service: "radar_plain (saw_service parent label nowMs r) = radar_plain r"
  by (simp add: radar_plain_def saw_service_def)

lemma plain_instance:
  assumes "radar_plain r" "\<And>i. plain_keys (ri_txt i) \<Longrightarrow> plain_keys (ri_txt (f i))"
  shows "radar_plain (saw_instance name f nowMs r)"
proof -
  have inv: "entries (\<lambda>_ i. plain_keys (ri_txt i)) (rd_fInstances r)" using assms(1) by (simp add: radar_plain_def)
  have "plain_keys (ri_txt (f (v\<lparr>ri_name := name\<rparr>)))"
    if "map_of (rd_fInstances r) name = Some v \<or> map_of (rd_fInstances r) name = None \<and> v = RadarInstance" for v
    using that entries_lookup [OF inv, of name v] by (auto simp: RadarInstance_def intro!: assms(2))
  then show ?thesis using inv by (auto simp: radar_plain_def saw_instance_def intro!: entries_map_at)
qed

lemma first_src_txt [simp]: "ri_txt (first_src srcIp i) = ri_txt i"
  by (simp add: first_src_def)

lemma plain_record: "radar_plain r \<Longrightarrow> radar_plain (radar_record buf len srcIp nowMs rec r)"
proof -
  assume r: "radar_plain r"
  then have "radar_plain (r\<lparr>rd_fHostAddrs := h\<rparr>)" for h by (simp add: radar_plain_def)
  then show ?thesis using r
    by (auto simp: radar_record_def plain_service dest: DecodeTxt_keys intro!: plain_instance split: option.split prod.split)
qed

lemma plain_records: "radar_plain r \<Longrightarrow> radar_plain (handle_records buf len srcIp nowMs recs r)"
proof (induction recs arbitrary: r)
  case (Cons rec recs)
  have "radar_plain (count_record srcIp r)" using Cons.prems by (simp add: radar_plain_def count_record_def)
  then show ?case using Cons.IH plain_record by simp
qed simp

lemma plain_Ingest: "radar_plain r \<Longrightarrow> radar_plain (Radar_Ingest buf len srcIp nowMs r)"
proof -
  assume "radar_plain r"
  then have "radar_plain (count_packet srcIp nowMs r)" by (simp add: radar_plain_def count_packet_def)
  then show ?thesis
    by (simp add: Radar_Ingest_def Let_def plain_records split: option.split) (simp add: radar_plain_def)
qed

lemma plain_loop: "radar_plain r \<Longrightarrow> radar_plain (fst (Radar_loop r lastQuery us))"
proof (induction us arbitrary: r lastQuery)
  case (Cons u us)
  obtain r' l' sent where t: "Radar_turn r lastQuery u = (r', l', sent)" by (metis prod.exhaust)
  then have "radar_plain r'" using Cons.prems
    by (auto simp: Radar_turn_def Let_def plain_Ingest split: option.splits if_splits)
  then show ?case using Cons.IH [of r' l'] t by (auto split: prod.split)
qed simp

lemma resolve_txt [simp]: "ri_txt (resolve_addrs r i) = ri_txt i"
  by (simp add: resolve_addrs_def Let_def split: option.split)

lemma plain_Snapshot: "radar_plain r \<Longrightarrow> i \<in> set (rx_instances (Radar_Snapshot r)) \<Longrightarrow> plain_keys (ri_txt i)"
  by (auto simp: radar_plain_def entries_def list_all_iff Radar_Snapshot_def Let_def)

text \<open>
  C30: From a packet to a handler nothing is lost. Whatever the network sends to the radar, every service the
  neighborhood shows arrives at the handler it is started for with its host, port, type, label and TXT
  records byte by byte, through arguments that are one word each.
\<close>

theorem shown_is_launched:
  "list_all (\<lambda>s. ParseDevice (prog # BuildLaunchArgs s action) = device_of s action \<and> list_all graphic (BuildLaunchArgs s action))
    (BuildNeighborhood (Radar_Snapshot (fst (Radar_Run (Radar_Start iface now) now us))))"
proof -
  let ?r = "fst (Radar_Run (Radar_Start iface now) now us)"
  have "radar_plain (Radar_Start iface now)" by (simp add: radar_plain_def Radar_Start_def entries_def)
  then have "radar_plain ?r" using plain_loop by (simp add: Radar_Run_def split: prod.split) (metis fst_conv)
  then have "plain_keys (ns_txt (service_of i))" if "i \<in> set (rx_instances (Radar_Snapshot ?r))" for i
    using that plain_Snapshot by (simp add: service_of_def Let_def)
  then have "plain_keys (ns_txt s)" if "s \<in> set (BuildNeighborhood (Radar_Snapshot ?r))" for s
    using that by (auto simp: BuildNeighborhood_def Let_def)
  then show ?thesis using launched_whole unfolding list_all_iff [of _ "BuildNeighborhood _"] by blast
qed

end
