(* ===== verification/SmbMount.thy ===== *)
theory SmbMount
  imports SmbServer SftpMount Launch
begin

text \<open>
  The configuration of an SMB mount, \<open>optional/smb/SmbMount.cpp\<close>, and the add-on's \<open>main\<close>. As for SFTP
  mounts the environment and the splitting of the parameter string are parameters. \<open>MatchOption\<close>
  is that of \<open>SftpMount.cpp\<close> but for the decoding of the value.
\<close>

section \<open>Parsing and building\<close>

text \<open>The two coders are written like those for the arguments of a handler.\<close>

definition PercentDecode :: "string \<Rightarrow> string" where
  "PercentDecode s = DecodeArg s"

definition EncodeMountValue :: "string \<Rightarrow> string" where
  "EncodeMountValue value = EncodeArg value"

definition Smb_MatchOption :: "string \<Rightarrow> string \<Rightarrow> string option" where
  "Smb_MatchOption token name = map_option PercentDecode (MatchOption token name)"

record SmbMount =
  mm_config :: SmbConfig
  mm_fuseArgs :: "string list"
  mm_ok :: bool
  mm_error :: string

definition SmbConfig :: SmbConfig where
  "SmbConfig = \<lparr>mc_server = [], mc_share = [], mc_user = [], mc_password = [], mc_domain = [], mc_basePath = []\<rparr>"

definition smb_token :: "string \<Rightarrow> SmbMount \<Rightarrow> SmbMount" where
  "smb_token token out =
    (case Smb_MatchOption token ''server'' of Some v \<Rightarrow> out\<lparr>mm_config := (mm_config out)\<lparr>mc_server := v\<rparr>\<rparr> | None \<Rightarrow>
     (case Smb_MatchOption token ''share'' of Some v \<Rightarrow> out\<lparr>mm_config := (mm_config out)\<lparr>mc_share := v\<rparr>\<rparr> | None \<Rightarrow>
     (case Smb_MatchOption token ''user'' of Some v \<Rightarrow> out\<lparr>mm_config := (mm_config out)\<lparr>mc_user := v\<rparr>\<rparr> | None \<Rightarrow>
     (case Smb_MatchOption token ''password'' of Some v \<Rightarrow> out\<lparr>mm_config := (mm_config out)\<lparr>mc_password := v\<rparr>\<rparr> | None \<Rightarrow>
     (case Smb_MatchOption token ''domain'' of Some v \<Rightarrow> out\<lparr>mm_config := (mm_config out)\<lparr>mc_domain := v\<rparr>\<rparr> | None \<Rightarrow>
     (case Smb_MatchOption token ''path'' of Some v \<Rightarrow> out\<lparr>mm_config := (mm_config out)\<lparr>mc_basePath := v\<rparr>\<rparr> | None \<Rightarrow>
       out\<lparr>mm_fuseArgs := mm_fuseArgs out @ [token]\<rparr>))))))"

definition smb_fall_back :: "(string \<Rightarrow> string) \<Rightarrow> SmbConfig \<Rightarrow> SmbConfig" where
  "smb_fall_back env c = c\<lparr>mc_server := (if mc_server c = [] then env ''CAMPIELLO_SMB_SERVER'' else mc_server c),
     mc_share := (if mc_share c = [] then env ''CAMPIELLO_SMB_SHARE'' else mc_share c),
     mc_user := (if mc_user c = [] then env ''CAMPIELLO_SMB_USER'' else mc_user c),
     mc_password := (if mc_password c = [] then env ''CAMPIELLO_SMB_PASS'' else mc_password c),
     mc_domain := (if mc_domain c = [] then env ''CAMPIELLO_SMB_DOMAIN'' else mc_domain c),
     mc_basePath := (if mc_basePath c = [] then env ''CAMPIELLO_SMB_PATH'' else mc_basePath c)\<rparr>"

definition ParseSmbMount :: "(string \<Rightarrow> string) \<Rightarrow> string list \<Rightarrow> SmbMount" where
  "ParseSmbMount env argv =
    (let out = fold smb_token (drop 1 argv) \<lparr>mm_config = SmbConfig, mm_fuseArgs = take 1 argv, mm_ok = False, mm_error = []\<rparr>;
         out = out\<lparr>mm_config := smb_fall_back env (mm_config out)\<rparr>
     in if mc_server (mm_config out) = [] then out\<lparr>mm_error := ''no SMB server (set server=... or CAMPIELLO_SMB_SERVER)''\<rparr>
        else out\<lparr>mm_ok := True\<rparr>)"

definition BuildSmbMountParameters :: "SmbConfig \<Rightarrow> string" where
  "BuildSmbMountParameters config = ''campiello_smb''
     @ '' server='' @ EncodeMountValue (mc_server config)
     @ (if mc_share config \<noteq> [] then '' share='' @ EncodeMountValue (mc_share config) else [])
     @ (if mc_user config \<noteq> [] then '' user='' @ EncodeMountValue (mc_user config) else [])
     @ (if mc_password config \<noteq> [] then '' password='' @ EncodeMountValue (mc_password config) else [])
     @ (if mc_domain config \<noteq> [] then '' domain='' @ EncodeMountValue (mc_domain config) else [])
     @ (if mc_basePath config \<noteq> [] then '' path='' @ EncodeMountValue (mc_basePath config) else [])"

text \<open>The add-on's \<open>main\<close>: one share, or the whole server when no share is named.\<close>

definition smb_main :: "(string \<Rightarrow> string) \<Rightarrow> string list \<Rightarrow>
    (string list \<Rightarrow> SmbBackend \<Rightarrow> (int \<times> SmbBackend) prog) \<Rightarrow>
    (string list \<Rightarrow> SmbServerBackend \<Rightarrow> (int \<times> SmbServerBackend) prog) \<Rightarrow> int prog" where
  "smb_main env argv fuse_share fuse_server =
    (let mount = ParseSmbMount env argv in
     if \<not> mm_ok mount then Ret 1
     else if mc_share (mm_config mount) = [] then
       pbind (ConnectServer SmbServerBackend (mm_config mount)) (\<lambda>(out, server). case out of
         Inl _ \<Rightarrow> pbind (Server_Disconnect server) (\<lambda>_. Ret 1)
       | Inr _ \<Rightarrow> pbind (fuse_server (mm_fuseArgs mount) server) (\<lambda>(rc, server).
           pbind (Server_Disconnect server) (\<lambda>_. Ret rc)))
     else
       pbind (Smb_Connect SmbBackend (mm_config mount)) (\<lambda>(out, backend). case out of
         Inl _ \<Rightarrow> pbind (Smb_Disconnect backend) (\<lambda>_. Ret 1)
       | Inr _ \<Rightarrow> pbind (fuse_share (mm_fuseArgs mount) backend) (\<lambda>(rc, backend).
           pbind (Smb_Disconnect backend) (\<lambda>_. Ret rc))))"

section \<open>A configuration survives the parameter string\<close>

definition smb_option :: "string \<Rightarrow> string \<Rightarrow> string list" where
  "smb_option name v = (if v \<noteq> [] then [name @ CHR ''='' # EncodeMountValue v] else [])"

definition smb_tokens :: "SmbConfig \<Rightarrow> string list" where
  "smb_tokens c = [''server='' @ EncodeMountValue (mc_server c)] @ smb_option ''share'' (mc_share c) @ smb_option ''user'' (mc_user c)
     @ smb_option ''password'' (mc_password c) @ smb_option ''domain'' (mc_domain c) @ smb_option ''path'' (mc_basePath c)"

lemma Smb_Build_tokens: "BuildSmbMountParameters c = ''campiello_smb'' @ spaced (smb_tokens c)"
  by (simp add: BuildSmbMountParameters_def smb_tokens_def smb_option_def spaced_def)

lemma Smb_MatchOption_token:
  "CHR ''='' \<notin> set name \<Longrightarrow> Smb_MatchOption (name @ CHR ''='' # EncodeMountValue v) name' = (if name = name' then Some v else None)"
  by (simp add: Smb_MatchOption_def MatchOption_token PercentDecode_def EncodeMountValue_def DecodeArg_EncodeArg)

lemmas Smb_MatchOption_tokens = Smb_MatchOption_token [of "''server''"] Smb_MatchOption_token [of "''share''"]
  Smb_MatchOption_token [of "''user''"] Smb_MatchOption_token [of "''password''"] Smb_MatchOption_token [of "''domain''"]
  Smb_MatchOption_token [of "''path''"]

lemma smb_words: "list_all word (smb_tokens c)"
proof -
  have "CHR '' '' \<notin> set (EncodeMountValue v)" for v
    using EncodeArg_word [of "CHR '' ''" v] by (auto simp: EncodeMountValue_def)
  then show ?thesis by (simp add: smb_tokens_def smb_option_def word_def)
qed

text \<open>
  Every setting of an SMB mount survives the parameter string. For any server, share, user, password,
  domain and folder, with spaces, percent signs or any other bytes in them, the add-on reads back what
  was built, its defaults aside: an empty setting is taken from the environment.
\<close>

theorem smb_mount_survives:
  assumes "splits_words tok" and "mc_server c \<noteq> []"
  shows "ParseSmbMount env (tok (BuildSmbMountParameters c)) =
    \<lparr>mm_config = smb_fall_back env c, mm_fuseArgs = [''campiello_smb''], mm_ok = True, mm_error = []\<rparr>"
proof -
  have "list_all word (''campiello_smb'' # smb_tokens c)" using smb_words by (simp add: word_def)
  then have tok: "tok (BuildSmbMountParameters c) = ''campiello_smb'' # smb_tokens c"
    using assms(1) unfolding Smb_Build_tokens splits_words_def by blast
  have "fold smb_token (smb_tokens c) \<lparr>mm_config = SmbConfig, mm_fuseArgs = [''campiello_smb''], mm_ok = False, mm_error = []\<rparr> =
      \<lparr>mm_config = c, mm_fuseArgs = [''campiello_smb''], mm_ok = False, mm_error = []\<rparr>"
    using Smb_MatchOption_tokens by (simp add: smb_tokens_def smb_option_def smb_token_def SmbConfig_def)
  then show ?thesis using assms(2) by (simp add: ParseSmbMount_def tok smb_fall_back_def)
qed

end
