(* ===== verification/SmbProps.thy ===== *)
theory SmbProps
  imports SmbMount Fuse
begin

text \<open>
  What holds of SMB mounts: which paths of a share they change, and the file that is read through a
  handle of the whole server's volume, whatever is done between opening and reading.
\<close>

section \<open>Requests\<close>

text \<open>The operations FUSE asks a mounted backend for.\<close>

datatype smb_request = MB_Stat string | MB_ReadDir string | MB_Open string | MB_Read u64 u64 u32 | MB_Close u64
  | MB_OpenWrite string | MB_Write u64 u64 bytes | MB_Mkdir string u32 | MB_Unlink string | MB_Rename string string
  | MB_Truncate string u64

definition then_state :: "('a \<times> 'b) prog \<Rightarrow> 'b prog" where
  "then_state m = pbind m (\<lambda>(_, b). Ret b)"

fun smb_do :: "smb_request \<Rightarrow> SmbBackend \<Rightarrow> SmbBackend prog" where
  "smb_do (MB_Stat path) sb = then_state (Smb_Stat sb path)"
| "smb_do (MB_ReadDir path) sb = then_state (Smb_ReadDir sb path)"
| "smb_do (MB_Open path) sb = then_state (Smb_Open sb path)"
| "smb_do (MB_Read handle off len) sb = then_state (Smb_Read sb handle off len)"
| "smb_do (MB_Close handle) sb = then_state (Smb_Close sb handle)"
| "smb_do (MB_OpenWrite path) sb = then_state (Smb_OpenWrite sb path)"
| "smb_do (MB_Write handle off dat) sb = then_state (Smb_Write sb handle off dat)"
| "smb_do (MB_Mkdir path mode) sb = then_state (Smb_Mkdir sb path mode)"
| "smb_do (MB_Unlink path) sb = then_state (Smb_Unlink sb path)"
| "smb_do (MB_Rename src dst) sb = then_state (Smb_Rename sb src dst)"
| "smb_do (MB_Truncate path sz) sb = then_state (Smb_Truncate sb path sz)"

fun server_do :: "smb_request \<Rightarrow> SmbServerBackend \<Rightarrow> SmbServerBackend prog" where
  "server_do (MB_Stat path) ss = then_state (Server_Stat ss path)"
| "server_do (MB_ReadDir path) ss = then_state (Server_ReadDir ss path)"
| "server_do (MB_Open path) ss = then_state (Server_Open ss path)"
| "server_do (MB_Read handle off len) ss = then_state (Server_Read ss handle off len)"
| "server_do (MB_Close handle) ss = then_state (Server_Close ss handle)"
| "server_do (MB_OpenWrite path) ss = then_state (Server_OpenWrite ss path)"
| "server_do (MB_Write handle off dat) ss = then_state (Server_Write ss handle off dat)"
| "server_do (MB_Mkdir path mode) ss = then_state (Server_Mkdir ss path mode)"
| "server_do (MB_Unlink path) ss = then_state (Server_Unlink ss path)"
| "server_do (MB_Rename src dst) ss = then_state (Server_Rename ss src dst)"
| "server_do (MB_Truncate path sz) ss = then_state (Server_Truncate ss path sz)"

primrec do_all :: "('q \<Rightarrow> 'b \<Rightarrow> 'b prog) \<Rightarrow> 'q list \<Rightarrow> 'b \<Rightarrow> 'b prog" where
  "do_all step [] b = Ret b"
| "do_all step (q # qs) b = pbind (step q b) (do_all step qs)"

text \<open>What each of a number of requests keeps, all of them keep; \<open>kept n\<close> is for \<open>n\<close> requests to come.\<close>

locale request_loop =
  fixes step :: "'q \<Rightarrow> 'b \<Rightarrow> 'b prog" and P :: "syscall \<Rightarrow> bool" and ok :: "'q \<Rightarrow> bool" and kept :: "nat \<Rightarrow> 'b \<Rightarrow> bool"
  assumes step_kept: "ok q \<Longrightarrow> kept (Suc n) b \<Longrightarrow> wp P (\<lambda>_ _. True) (step q b) (kept n)"
begin

lemma all_kept: "list_all ok qs \<Longrightarrow> kept (length qs + n) b \<Longrightarrow> wp P (\<lambda>_ _. True) (do_all step qs b) (kept n)"
proof (induction qs arbitrary: b)
  case (Cons q qs)
  then show ?case by (auto intro!: wp_bind [OF step_kept])
qed simp

lemma run_kept:
  assumes "list_all ok qs" "kept (length qs + n) b"
  shows "kept n (result sys (do_all step qs b) s) \<and> list_all P (calls sys (do_all step qs b) s)"
  using wp_run [OF _ all_kept [OF assms], of sys s] by (simp add: honest_def list_all_iff)

end

section \<open>What is changed\<close>

text \<open>A call that changes something is about a path below \<open>base\<close>.\<close>

fun safe_change :: "string \<Rightarrow> syscall \<Rightarrow> bool" where
  "safe_change base (Smb (SmbOpen smb2 p flags)) \<longleftrightarrow> flags = [O_RDONLY] \<or> below base p"
| "safe_change base (Smb (SmbMkdir smb2 p)) \<longleftrightarrow> below base p"
| "safe_change base (Smb (SmbRmdir smb2 p)) \<longleftrightarrow> below base p"
| "safe_change base (Smb (SmbUnlink smb2 p)) \<longleftrightarrow> below base p"
| "safe_change base (Smb (SmbRename smb2 p q)) \<longleftrightarrow> below base p \<and> below base q"
| "safe_change base (Smb (SmbTruncate smb2 p n)) \<longleftrightarrow> below base p"
| "safe_change base _ = True"

lemma wp_smb: "wp P Q (sys_smb get c) post \<longleftrightarrow> P (Smb c) \<and> (\<forall>r. Q (Smb c) r \<longrightarrow> post (get (as_smb r)))"
  by (simp add: sys_smb_def)

lemmas smb_calls = smb_ptr_def smb_status_def smb_attrs_def smb_names_def smb_data_def smb_int_def smb_bool_def
  smb_served_def smb_unit_def wp_smb

lemma wp_then_state: "wp P Q m (\<lambda>(_, b). post b) \<Longrightarrow> wp P Q (then_state m) post"
  unfolding then_state_def by (rule wp_bind [where mid = "\<lambda>(_, b). post b"]) auto

lemma wp_smb_read_loop: "(\<And>h n off. P (Smb (SmbPread smb2 h n off))) \<Longrightarrow> wp P Q (smb_read_loop smb2 fh len off out) (\<lambda>_. True)"
proof (induction smb2 fh len off out rule: smb_read_loop.induct)
  case (1 smb2 fh len off out)
  then show ?case by (subst smb_read_loop.simps) (auto simp: wp_pbind smb_calls split: prod.split)
qed

lemma wp_smb_write_loop: "(\<And>h d off. P (Smb (SmbPwrite smb2 h d off))) \<Longrightarrow> wp P Q (smb_write_loop smb2 fh off dat done) (\<lambda>_. True)"
proof (induction smb2 fh off dat "done" rule: smb_write_loop.induct)
  case (1 smb2 fh off dat "done")
  then show ?case by (subst smb_write_loop.simps) (auto simp: wp_pbind smb_calls Let_def)
qed

text \<open>Operations that leave a share's backend as it is.\<close>

abbreviation (input) below_base :: "SmbBackend \<Rightarrow> syscall \<Rightarrow> bool" where
  "below_base sb \<equiv> safe_change (mb_fBasePath sb)"

lemma wp_unchanged:
  "wp (below_base sb) Q (Smb_Stat sb path) (\<lambda>(_, sb'). sb' = sb)"
  "wp (below_base sb) Q (Smb_ReadDir sb path) (\<lambda>(_, sb'). sb' = sb)"
  "wp (below_base sb) Q (Smb_Mkdir sb path mode) (\<lambda>(_, sb'). sb' = sb)"
  "wp (below_base sb) Q (Smb_Unlink sb path) (\<lambda>(_, sb'). sb' = sb)"
  "wp (below_base sb) Q (Smb_Rename sb src dst) (\<lambda>(_, sb'). sb' = sb)"
  "wp (below_base sb) Q (Smb_Truncate sb path sz) (\<lambda>(_, sb'). sb' = sb)"
  by (auto simp: Smb_Stat_def Smb_ReadDir_def Smb_Mkdir_def Smb_Unlink_def Smb_Rename_def Smb_Truncate_def on_session_def
      status_result_def Let_def wp_pbind smb_calls SharePath_below split: option.split)

lemma wp_data_unchanged:
  "wp (below_base sb) Q (Smb_Read sb handle off len) (\<lambda>(_, sb'). sb' = sb)"
  "wp (below_base sb) Q (Smb_Write sb handle off dat) (\<lambda>(_, sb'). sb' = sb)"
  by (auto simp: Smb_Read_def Smb_Write_def intro!: wp_bind [OF wp_smb_read_loop] wp_bind [OF wp_smb_write_loop] split: option.split)

text \<open>A new handle is the next number; a closed one is gone.\<close>

definition opened :: "SmbBackend \<Rightarrow> u64 \<Rightarrow> SmbBackend \<Rightarrow> bool" where
  "opened sb handle sb' \<longleftrightarrow> handle = mb_fNextHandle sb \<and> (\<exists>fh. sb' = snd (add_file fh sb))"

lemma wp_opens:
  "wp (below_base sb) Q (Smb_Open sb path) (\<lambda>(out, sb'). case out of Inl _ \<Rightarrow> sb' = sb | Inr (handle, sz) \<Rightarrow> opened sb handle sb')"
  "wp (below_base sb) Q (Smb_OpenWrite sb path) (\<lambda>(out, sb'). case out of Inl _ \<Rightarrow> sb' = sb | Inr handle \<Rightarrow> opened sb handle sb')"
  "wp (below_base sb) Q (Smb_Close sb handle) (\<lambda>(_, sb'). sb' = sb\<lparr>mb_fOpen := AList.delete handle (mb_fOpen sb)\<rparr>)"
  by (auto simp: Smb_Open_def Smb_OpenWrite_def Smb_Close_def on_session_def opened_def add_file_def Let_def wp_pbind smb_calls
      SharePath_below delete_idem map_of_eq_None_iff split: option.split)

lemma smb_do_base: "wp (below_base sb) Q (smb_do q sb) (\<lambda>sb'. mb_fBasePath sb' = mb_fBasePath sb)"
  by (cases q)
    (auto simp: opened_def add_file_def Let_def intro!: wp_then_state wp_mono [OF wp_unchanged(1)] wp_mono [OF wp_unchanged(2)]
      wp_mono [OF wp_unchanged(3)] wp_mono [OF wp_unchanged(4)] wp_mono [OF wp_unchanged(5)] wp_mono [OF wp_unchanged(6)]
      wp_mono [OF wp_data_unchanged(1)] wp_mono [OF wp_data_unchanged(2)] wp_mono [OF wp_opens(1)] wp_mono [OF wp_opens(2)]
      wp_mono [OF wp_opens(3)] split: sum.splits)

interpretation share_loop: request_loop smb_do "safe_change base" "\<lambda>_. True" "\<lambda>_ sb. mb_fBasePath sb = base" for base
proof unfold_locales
  fix q :: smb_request and n :: nat and sb :: SmbBackend
  assume "mb_fBasePath sb = base"
  then show "wp (safe_change base) (\<lambda>_ _. True) (smb_do q sb) (\<lambda>sb. mb_fBasePath sb = base)"
    using smb_do_base [of sb _ q] by auto
qed

text \<open>All shares of a server are mounted at their roots, and handles lead to backends that are there.\<close>

definition at_roots :: "SmbServerBackend \<Rightarrow> bool" where
  "at_roots ss \<longleftrightarrow> mc_basePath (ms_fServer ss) = [] \<and> list_all (\<lambda>(_, sb). mb_fBasePath sb = []) (ms_fBackends ss) \<and>
     list_all (\<lambda>(_, share, _). share \<in> dom (map_of (ms_fBackends ss))) (ms_fHandles ss)"

lemma at_roots_found: "at_roots ss \<Longrightarrow> map_of (ms_fBackends ss) share = Some sb \<Longrightarrow> mb_fBasePath sb = []"
  by (auto simp: at_roots_def list_all_iff dest!: map_of_SomeD)

lemma at_roots_handle: "at_roots ss \<Longrightarrow> map_of (ms_fHandles ss) handle = Some (share, local) \<Longrightarrow> share \<in> dom (map_of (ms_fBackends ss))"
  unfolding at_roots_def list_all_iff by (auto dest!: map_of_SomeD)

lemma list_all_put: "list_all f m \<Longrightarrow> f (k, v) \<Longrightarrow> list_all f (map_put k v m)"
  by (auto simp: list_all_iff dest: map_put_entries)

lemma at_roots_put: "at_roots ss \<Longrightarrow> mb_fBasePath sb = [] \<Longrightarrow> at_roots (ss\<lparr>ms_fBackends := map_put share sb (ms_fBackends ss)\<rparr>)"
  unfolding at_roots_def by (auto simp: list_all_iff dest!: map_put_entries)

lemma trim_nothing [simp]: "trim_slashes [] = []"
  by (simp add: trim_slashes_def)

lemma wp_login: "(\<And>c. P (Smb c)) \<Longrightarrow> wp P Q (login smb2 config share) (\<lambda>_. True)"
  by (simp add: login_def wp_pbind smb_calls)

definition harmless :: "(syscall \<Rightarrow> bool) \<Rightarrow> bool" where
  "harmless P \<longleftrightarrow> (\<forall>smb2 n s server share user. P (Smb SmbInit) \<and> P (Smb (SmbSetTimeout smb2 n)) \<and> P (Smb (SmbSetPassword smb2 s)) \<and>
     P (Smb (SmbSetDomain smb2 s)) \<and> P (Smb (SmbConnectShare smb2 server share user)) \<and> P (Smb (SmbDestroy smb2)) \<and>
     P (Smb (SmbDisconnectShare smb2)) \<and> P (Smb (SmbClose smb2 n)) \<and> P (Smb (SmbShareEnum smb2)) \<and> P (Smb (SmbPoll smb2)) \<and>
     P (Smb (SmbService smb2)))"

lemma harmless_safe: "harmless (safe_change base)" "harmless (\<lambda>_. True)"
  by (simp_all add: harmless_def)

text \<open>A new session, or the old state with an error.\<close>

lemma wp_Connect:
  assumes "harmless P" "mb_fSmb sb = None"
  shows "wp P Q (Smb_Connect sb config) (\<lambda>(out, sb'). case out of
      Inl _ \<Rightarrow> \<exists>e. sb' = sb\<lparr>mb_fError := e\<rparr>
    | Inr _ \<Rightarrow> \<exists>smb2. sb' = sb\<lparr>mb_fSmb := Some smb2, mb_fBasePath := trim_slashes (mc_basePath config), mb_fError := NoError\<rparr>)"
  using assms by (auto simp: Smb_Connect_def Smb_IsConnected_def login_def harmless_def wp_pbind smb_calls split: option.split)

lemma wp_ShareBackend:
  assumes "harmless P"
  shows "wp P Q (ShareBackend ss share) (\<lambda>(found, ss').
    if found then (map_of (ms_fBackends ss) share \<noteq> None \<and> ss' = ss) \<or>
      (map_of (ms_fBackends ss) share = None \<and> (\<exists>smb2. ss' = ss\<lparr>ms_fBackends := map_put share
        (SmbBackend\<lparr>mb_fSmb := Some smb2, mb_fBasePath := trim_slashes (mc_basePath (ms_fServer ss)), mb_fError := NoError\<rparr>) (ms_fBackends ss)\<rparr>))
    else \<exists>e. ss' = ss\<lparr>ms_fError := e\<rparr>)"
proof (cases "map_of (ms_fBackends ss) share")
  case None
  have "mb_fSmb SmbBackend = None" by (simp add: SmbBackend_def)
  from wp_Connect [OF assms this, of Q "(ms_fServer ss)\<lparr>mc_share := share\<rparr>"] show ?thesis
    unfolding ShareBackend_def None option.case by (rule wp_bind) (auto split: sum.splits)
qed (simp add: ShareBackend_def)

lemma wp_through:
  assumes "map_of (ms_fBackends ss) share = Some sb" "wp P Q (f sb) (\<lambda>(out, sb'). post (out, ss\<lparr>ms_fBackends := map_put share sb' (ms_fBackends ss)\<rparr>))"
  shows "wp P Q (through share f ss) post"
  unfolding through_def assms(1) option.sel by (rule wp_bind [OF assms(2)]) auto

lemma at_roots_error [simp]: "at_roots (ss\<lparr>ms_fError := e\<rparr>) = at_roots ss"
  by (simp add: at_roots_def)

text \<open>What an operation on one share has to keep.\<close>

definition keeps_base :: "(SmbBackend \<Rightarrow> 'a smb_op) \<Rightarrow> bool" where
  "keeps_base f \<longleftrightarrow> (\<forall>sb. wp (below_base sb) (\<lambda>_ _. True) (f sb) (\<lambda>(_, sb'). mb_fBasePath sb' = mb_fBasePath sb))"

lemma opened_base:
  "(case out of Inl _ \<Rightarrow> sb' = sb | Inr (handle, sz) \<Rightarrow> opened sb handle sb') \<Longrightarrow> mb_fBasePath sb' = mb_fBasePath sb"
  "(case out' of Inl _ \<Rightarrow> sb' = sb | Inr handle \<Rightarrow> opened sb handle sb') \<Longrightarrow> mb_fBasePath sb' = mb_fBasePath sb"
  by (cases out, auto simp: opened_def add_file_def Let_def) (cases out', auto simp: opened_def add_file_def Let_def)

lemma keeps_base:
  "keeps_base (\<lambda>sb. Smb_Stat sb path)" "keeps_base (\<lambda>sb. Smb_ReadDir sb path)" "keeps_base (\<lambda>sb. Smb_Mkdir sb path mode)"
  "keeps_base (\<lambda>sb. Smb_Unlink sb path)" "keeps_base (\<lambda>sb. Smb_Rename sb path dst)" "keeps_base (\<lambda>sb. Smb_Truncate sb path sz)"
  "keeps_base (\<lambda>sb. Smb_Read sb handle off len)" "keeps_base (\<lambda>sb. Smb_Write sb handle off dat)"
  "keeps_base (\<lambda>sb. Smb_Open sb path)" "keeps_base (\<lambda>sb. Smb_OpenWrite sb path)" "keeps_base (\<lambda>sb. Smb_Close sb handle)"
  unfolding keeps_base_def
  by (rule allI, rule wp_mono, rule wp_unchanged wp_data_unchanged wp_opens, (auto dest: opened_base)[1])+

lemma through_at_roots:
  assumes "keeps_base f" "at_roots ss" "share \<in> dom (map_of (ms_fBackends ss))"
  shows "wp (safe_change []) (\<lambda>_ _. True) (through share f ss) (\<lambda>(_, ss'). at_roots ss' \<and> share \<in> dom (map_of (ms_fBackends ss')))"
proof -
  obtain sb where sb: "map_of (ms_fBackends ss) share = Some sb" using assms(3) by blast
  have "mb_fBasePath sb = []" using at_roots_found [OF assms(2) sb] .
  then have "wp (safe_change []) (\<lambda>_ _. True) (f sb) (\<lambda>(_, sb'). mb_fBasePath sb' = [])"
    using assms(1) unfolding keeps_base_def by metis
  then have "wp (safe_change []) (\<lambda>_ _. True) (f sb) (\<lambda>(out, sb'). case (out, ss\<lparr>ms_fBackends := map_put share sb' (ms_fBackends ss)\<rparr>) of
      (_, ss') \<Rightarrow> at_roots ss' \<and> share \<in> dom (map_of (ms_fBackends ss')))"
    by (rule wp_mono) (use assms(2) in \<open>auto intro: at_roots_put\<close>)
  then show ?thesis by (rule wp_through [OF sb])
qed

lemma on_share_at_roots:
  assumes "keeps_base f" "at_roots ss"
  shows "wp (safe_change []) (\<lambda>_ _. True) (on_share ss share f)
    (\<lambda>(out, ss'). at_roots ss' \<and> ((\<exists>x. out = Inr x) \<longrightarrow> share \<in> dom (map_of (ms_fBackends ss'))))"
  unfolding on_share_def
proof (rule wp_bind [OF wp_ShareBackend [OF harmless_safe(1)]], clarify)
  fix found ss'
  assume a: "if found then (map_of (ms_fBackends ss) share \<noteq> None \<and> ss' = ss) \<or>
      (map_of (ms_fBackends ss) share = None \<and> (\<exists>smb2. ss' = ss\<lparr>ms_fBackends := map_put share
        (SmbBackend\<lparr>mb_fSmb := Some smb2, mb_fBasePath := trim_slashes (mc_basePath (ms_fServer ss)), mb_fError := NoError\<rparr>) (ms_fBackends ss)\<rparr>))
    else \<exists>e. ss' = ss\<lparr>ms_fError := e\<rparr>"
  have "at_roots ss'" using a assms(2) by (auto split: if_splits intro!: at_roots_put) (simp add: at_roots_def)
  moreover have "found \<Longrightarrow> share \<in> dom (map_of (ms_fBackends ss'))" using a by auto
  ultimately show "wp (safe_change []) (\<lambda>_ _. True) (if found then through share f ss' else Ret (Inl S_AccessDenied, ss'))
      (\<lambda>(out, ss'). at_roots ss' \<and> ((\<exists>x. out = Inr x) \<longrightarrow> share \<in> dom (map_of (ms_fBackends ss'))))"
    by (auto intro!: wp_mono [OF through_at_roots [OF assms(1)]])
qed

lemma at_roots_remapped:
  "add_remapped share local ss = (handle, ss') \<Longrightarrow> at_roots ss \<Longrightarrow> map_of (ms_fBackends ss) share = Some sb \<Longrightarrow> at_roots ss'"
  by (auto simp: at_roots_def add_remapped_def Let_def list_all_iff dest!: map_put_entries)

lemma inside_share_at_roots:
  assumes "\<And>rest. keeps_base (f rest)" "at_roots ss"
  shows "wp (safe_change []) (\<lambda>_ _. True) (inside_share ss path outside f) (\<lambda>(_, ss'). at_roots ss')"
  unfolding inside_share_def using assms(2)
  by (auto split: prod.split intro!: wp_mono [OF on_share_at_roots [OF assms]])

lemma on_handle_at_roots:
  assumes "\<And>local. keeps_base (f local)" "at_roots ss"
  shows "wp (safe_change []) (\<lambda>_ _. True) (on_handle ss handle f) (\<lambda>(_, ss'). at_roots ss')"
  unfolding on_handle_def using assms(2) at_roots_handle [OF assms(2), of handle]
  by (auto split: option.split prod.split intro!: wp_mono [OF through_at_roots [OF assms]])

lemma server_opens_at_roots:
  assumes "at_roots ss"
  shows "wp (safe_change []) (\<lambda>_ _. True) (Server_Open ss path) (\<lambda>(_, ss'). at_roots ss')"
    and "wp (safe_change []) (\<lambda>_ _. True) (Server_OpenWrite ss path) (\<lambda>(_, ss'). at_roots ss')"
    and "wp (safe_change []) (\<lambda>_ _. True) (Server_Close ss handle) (\<lambda>(_, ss'). at_roots ss')"
proof -
  note on_share = on_share_at_roots [OF keeps_base(9) assms] on_share_at_roots [OF keeps_base(10) assms]
  show "wp (safe_change []) (\<lambda>_ _. True) (Server_Open ss path) (\<lambda>(_, ss'). at_roots ss')"
    unfolding Server_Open_def using assms
    by (auto split: prod.split sum.split intro!: wp_bind [OF on_share(1)] dest: at_roots_remapped)
  show "wp (safe_change []) (\<lambda>_ _. True) (Server_OpenWrite ss path) (\<lambda>(_, ss'). at_roots ss')"
    unfolding Server_OpenWrite_def using assms
    by (auto split: prod.split sum.split intro!: wp_bind [OF on_share(2)] dest: at_roots_remapped)
  have del: "at_roots (ss\<lparr>ms_fHandles := AList.delete handle (ms_fHandles ss)\<rparr>)" if "at_roots ss" for ss
    using that by (auto simp: at_roots_def AList.delete_eq list_all_iff)
  show "wp (safe_change []) (\<lambda>_ _. True) (Server_Close ss handle) (\<lambda>(_, ss'). at_roots ss')"
    unfolding Server_Close_def using assms at_roots_handle [OF assms, of handle] del
    by (auto split: option.split prod.split intro!: wp_bind [OF through_at_roots [OF keeps_base(11)]])
qed

lemma server_do_at_roots: "at_roots ss \<Longrightarrow> wp (safe_change []) (\<lambda>_ _. True) (server_do q ss) at_roots"
  by (cases q)
    (auto simp: Server_Stat_def Server_ReadDir_def Server_Read_def Server_Write_def Server_Mkdir_def Server_Unlink_def Server_Rename_def
      Server_Truncate_def split: prod.split
      intro!: wp_then_state server_opens_at_roots inside_share_at_roots on_handle_at_roots wp_mono [OF on_share_at_roots] keeps_base)

interpretation server_loop: request_loop server_do "safe_change []" "\<lambda>_. True" "\<lambda>_. at_roots"
  by unfold_locales (rule server_do_at_roots)

lemma wp_enum_loop: "harmless P \<Longrightarrow> wp P Q (enum_loop smb2 n state err) (\<lambda>_. True)"
proof (induction smb2 n state err rule: enum_loop.induct)
  case (2 smb2 n state err)
  then show ?case by (auto simp: wp_pbind smb_calls harmless_def Let_def split: prod.split option.split)
qed simp

lemma wp_EnumShares: "harmless P \<Longrightarrow> wp P Q (Smb_EnumShares sb config) (\<lambda>_. True)"
  unfolding Smb_EnumShares_def
  by (auto simp: smb_calls harmless_def login_def wp_pbind split: option.split prod.split intro!: wp_mono [OF wp_enum_loop])

lemma wp_close_files: "harmless P \<Longrightarrow> wp P Q (close_files smb2 m) (\<lambda>_. True)"
  by (induction smb2 m rule: close_files.induct) (auto simp: wp_pbind smb_calls harmless_def)

lemma wp_Smb_Disconnect: "harmless P \<Longrightarrow> wp P Q (Smb_Disconnect sb) (\<lambda>_. True)"
  unfolding Smb_Disconnect_def
  by (cases "mb_fSmb sb", simp, simp, rule wp_bind [OF wp_close_files]) (simp_all add: wp_pbind smb_calls harmless_def)

lemma wp_disconnect_all: "harmless P \<Longrightarrow> wp P Q (disconnect_all m) (\<lambda>_. True)"
  by (induction m rule: disconnect_all.induct) (auto intro!: wp_bind [OF wp_Smb_Disconnect])

lemma wp_Server_Disconnect: "harmless P \<Longrightarrow> wp P Q (Server_Disconnect ss) (\<lambda>_. True)"
  by (auto simp: Server_Disconnect_def intro!: wp_bind [OF wp_disconnect_all])

lemma ConnectServer_at_roots: "wp (safe_change []) Q (ConnectServer SmbServerBackend config) (\<lambda>(_, ss). at_roots ss)"
  unfolding ConnectServer_def Let_def
  by (auto simp: at_roots_def SmbServerBackend_def split: sum.split intro!: wp_bind [OF wp_EnumShares [OF harmless_safe(1)]])

text \<open>The add-on's \<open>main\<close> with the requests FUSE makes of the backend.\<close>

definition smb_session :: "(string \<Rightarrow> string) \<Rightarrow> string list \<Rightarrow> smb_request list \<Rightarrow> int prog" where
  "smb_session env argv qs = smb_main env argv (\<lambda>_ sb. pbind (do_all smb_do qs sb) (\<lambda>sb. Ret (0, sb)))
     (\<lambda>_ ss. pbind (do_all server_do qs ss) (\<lambda>ss. Ret (0, ss)))"

definition mounted_base :: "SmbConfig \<Rightarrow> string" where
  "mounted_base config = (if mc_share config = [] then [] else trim_slashes (mc_basePath config))"

lemma session_confined:
  "wp (safe_change (mounted_base (mm_config (ParseSmbMount env argv)))) (\<lambda>_ _. True) (smb_session env argv qs) (\<lambda>_. True)"
proof -
  let ?m = "mm_config (ParseSmbMount env argv)"
  let ?P = "safe_change (mounted_base ?m)"
  have server: "wp ?P (\<lambda>_ _. True) (pbind (ConnectServer SmbServerBackend ?m) (\<lambda>(out, server). case out of
         Inl _ \<Rightarrow> pbind (Server_Disconnect server) (\<lambda>_. Ret (1 :: int))
       | Inr _ \<Rightarrow> pbind (pbind (do_all server_do qs server) (\<lambda>ss. Ret (0 :: int, ss))) (\<lambda>(rc, server).
           pbind (Server_Disconnect server) (\<lambda>_. Ret rc)))) (\<lambda>_. True)" if "mc_share ?m = []"
  proof -
    have base: "mounted_base ?m = []" using that by (simp add: mounted_base_def)
    have all: "at_roots ss \<Longrightarrow> wp (safe_change []) (\<lambda>_ _. True) (do_all server_do qs ss) at_roots" for ss
      by (rule server_loop.all_kept) (simp_all add: list_all_iff)
    show ?thesis unfolding base
      by (rule wp_bind [OF ConnectServer_at_roots])
        (auto simp: pbind_assoc split: sum.split intro!: wp_bind [OF wp_Server_Disconnect [OF harmless_safe(1)]] wp_bind [OF all])
  qed
  have share: "wp ?P (\<lambda>_ _. True) (pbind (Smb_Connect SmbBackend ?m) (\<lambda>(out, backend). case out of
         Inl _ \<Rightarrow> pbind (Smb_Disconnect backend) (\<lambda>_. Ret (1 :: int))
       | Inr _ \<Rightarrow> pbind (pbind (do_all smb_do qs backend) (\<lambda>sb. Ret (0 :: int, sb))) (\<lambda>(rc, backend).
           pbind (Smb_Disconnect backend) (\<lambda>_. Ret rc)))) (\<lambda>_. True)" if "mc_share ?m \<noteq> []"
  proof -
    let ?b = "trim_slashes (mc_basePath ?m)"
    have base: "mounted_base ?m = ?b" using that by (simp add: mounted_base_def)
    have all: "mb_fBasePath sb = ?b \<Longrightarrow> wp (safe_change ?b) (\<lambda>_ _. True) (do_all smb_do qs sb) (\<lambda>sb. mb_fBasePath sb = ?b)" for sb
      by (rule share_loop.all_kept) (simp_all add: list_all_iff)
    have "mb_fSmb SmbBackend = None" by (simp add: SmbBackend_def)
    then show ?thesis unfolding base
      by (rule wp_bind [OF wp_Connect [OF harmless_safe(1)]])
        (auto simp: pbind_assoc split: sum.splits intro!: wp_bind [OF wp_Smb_Disconnect [OF harmless_safe(1)]] wp_bind [OF all])
  qed
  show ?thesis using server share by (simp add: smb_session_def smb_main_def Let_def)
qed


section \<open>Handles and their files\<close>

text \<open>The context and the file of the library behind a handle of the server.\<close>

definition bound :: "SmbServerBackend \<Rightarrow> u64 \<Rightarrow> (nat \<times> nat) option" where
  "bound ss fh = (case map_of (ms_fHandles ss) fh of None \<Rightarrow> None
    | Some (share, local) \<Rightarrow> (case map_of (ms_fBackends ss) share of None \<Rightarrow> None
      | Some sb \<Rightarrow> (case mb_fSmb sb of None \<Rightarrow> None | Some smb2 \<Rightarrow> map_option (Pair smb2) (map_of (mb_fOpen sb) local))))"

text \<open>
  The numbers of handles are used up from below, with room for \<open>n\<close> more; no two handles of the server
  stand for the same one of a share.
\<close>

definition numbered :: "nat \<Rightarrow> SmbServerBackend \<Rightarrow> bool" where
  "numbered n ss \<longleftrightarrow> 0 < ms_fNextHandle ss \<and> unat (ms_fNextHandle ss) + n < 2 ^ 64 \<and>
     (\<forall>h h' x. map_of (ms_fHandles ss) h = Some x \<longrightarrow> map_of (ms_fHandles ss) h' = Some x \<longrightarrow> h = h') \<and>
     (\<forall>share sb. map_of (ms_fBackends ss) share = Some sb \<longrightarrow> mb_fNextHandle sb \<le> ms_fNextHandle ss) \<and>
     (\<forall>h share local. map_of (ms_fHandles ss) h = Some (share, local) \<longrightarrow> h < ms_fNextHandle ss \<and>
        (\<exists>sb. map_of (ms_fBackends ss) share = Some sb \<and> local < mb_fNextHandle sb))"

text \<open>Nothing but a new backend, which has no handles.\<close>

definition same_view :: "SmbServerBackend \<Rightarrow> SmbServerBackend \<Rightarrow> bool" where
  "same_view ss ss' \<longleftrightarrow> ms_fNextHandle ss' = ms_fNextHandle ss \<and> ms_fHandles ss' = ms_fHandles ss \<and>
     (\<forall>share. map_of (ms_fBackends ss') share = map_of (ms_fBackends ss) share \<or>
        map_of (ms_fBackends ss) share = None \<and> (\<exists>sb. map_of (ms_fBackends ss') share = Some sb \<and> mb_fNextHandle sb = 1))"

lemma same_view_refl [simp]: "same_view ss ss" "same_view ss (ss\<lparr>ms_fError := e\<rparr>)"
  by (simp_all add: same_view_def)

lemma same_view_bound: "same_view ss ss' \<Longrightarrow> bound ss fh = Some x \<Longrightarrow> bound ss' fh = Some x"
  unfolding same_view_def bound_def by (auto split: option.splits) (metis option.distinct(1) option.inject)+

lemma same_view_numbered: "same_view ss ss' \<Longrightarrow> numbered n ss \<Longrightarrow> numbered n ss'"
proof -
  assume v: "same_view ss ss'" and n: "numbered n ss"
  have "mb_fNextHandle sb \<le> ms_fNextHandle ss'" if "map_of (ms_fBackends ss') share = Some sb" for share sb
  proof -
    have "0 < ms_fNextHandle ss" using n by (simp add: numbered_def)
    then have "1 \<le> ms_fNextHandle ss" using inc_le [of 0 "ms_fNextHandle ss"] by simp
    then show ?thesis using v n that unfolding same_view_def numbered_def by (metis option.inject)
  qed
  moreover have "\<exists>sb. map_of (ms_fBackends ss') share = Some sb \<and> local < mb_fNextHandle sb"
    if "map_of (ms_fHandles ss') h = Some (share, local)" for h share local
    using v n that unfolding same_view_def numbered_def by (metis option.distinct(1))
  ultimately show ?thesis using v n unfolding same_view_def numbered_def by auto
qed

lemma numbered_less: "numbered (Suc n) ss \<Longrightarrow> numbered n ss"
  unfolding numbered_def by (elim conjE, intro conjI) auto

lemma on_share_view:
  assumes "\<And>sb. wp (\<lambda>_. True) (\<lambda>_ _. True) (f sb) (\<lambda>(out, sb'). R sb out sb')"
  shows "wp (\<lambda>_. True) (\<lambda>_ _. True) (on_share ss share f) (\<lambda>(out, ss'). (\<exists>e. out = Inl S_AccessDenied \<and> ss' = ss\<lparr>ms_fError := e\<rparr>) \<or>
    (\<exists>ss1 sb sb'. same_view ss ss1 \<and> map_of (ms_fBackends ss1) share = Some sb \<and> R sb out sb' \<and>
      ss' = ss1\<lparr>ms_fBackends := map_put share sb' (ms_fBackends ss1)\<rparr>))"
  unfolding on_share_def
proof (rule wp_bind [OF wp_ShareBackend [OF harmless_safe(2)]], clarify)
  fix found ss1
  assume a: "if found then (map_of (ms_fBackends ss) share \<noteq> None \<and> ss1 = ss) \<or>
      (map_of (ms_fBackends ss) share = None \<and> (\<exists>smb2. ss1 = ss\<lparr>ms_fBackends := map_put share
        (SmbBackend\<lparr>mb_fSmb := Some smb2, mb_fBasePath := trim_slashes (mc_basePath (ms_fServer ss)), mb_fError := NoError\<rparr>) (ms_fBackends ss)\<rparr>))
    else \<exists>e. ss1 = ss\<lparr>ms_fError := e\<rparr>"
  show "wp (\<lambda>_. True) (\<lambda>_ _. True) (if found then through share f ss1 else Ret (Inl S_AccessDenied, ss1))
      (\<lambda>(out, ss'). (\<exists>e. out = Inl S_AccessDenied \<and> ss' = ss\<lparr>ms_fError := e\<rparr>) \<or>
    (\<exists>ss1 sb sb'. same_view ss ss1 \<and> map_of (ms_fBackends ss1) share = Some sb \<and> R sb out sb' \<and>
      ss' = ss1\<lparr>ms_fBackends := map_put share sb' (ms_fBackends ss1)\<rparr>))"
  proof (cases found)
    case True
    have v: "same_view ss ss1" using a True by (auto simp: same_view_def SmbBackend_def split: if_splits)
    obtain sb where sb: "map_of (ms_fBackends ss1) share = Some sb" using a True by auto
    show ?thesis using True v sb by (auto intro!: wp_through [OF sb] wp_mono [OF assms])
  next
    case False
    then show ?thesis using a by auto
  qed
qed

text \<open>An operation that leaves the share's backend as it is.\<close>

definition idle :: "(SmbBackend \<Rightarrow> 'a smb_op) \<Rightarrow> bool" where
  "idle f \<longleftrightarrow> (\<forall>sb. wp (\<lambda>_. True) (\<lambda>_ _. True) (f sb) (\<lambda>(_, sb'). sb' = sb))"

lemma wp_any_call: "wp P Q m post \<Longrightarrow> wp (\<lambda>_. True) Q m post"
  by (rule wp_calls_mono) auto

lemma idle:
  "idle (\<lambda>sb. Smb_Stat sb path)" "idle (\<lambda>sb. Smb_ReadDir sb path)" "idle (\<lambda>sb. Smb_Mkdir sb path mode)"
  "idle (\<lambda>sb. Smb_Unlink sb path)" "idle (\<lambda>sb. Smb_Rename sb path dst)" "idle (\<lambda>sb. Smb_Truncate sb path sz)"
  "idle (\<lambda>sb. Smb_Read sb handle off len)" "idle (\<lambda>sb. Smb_Write sb handle off dat)"
  unfolding idle_def by (rule allI, rule wp_any_call, rule wp_unchanged wp_data_unchanged)+

lemma put_same_view: "map_of (ms_fBackends ss) share = Some sb \<Longrightarrow> same_view ss (ss\<lparr>ms_fBackends := map_put share sb (ms_fBackends ss)\<rparr>)"
  by (auto simp: same_view_def)

lemma same_view_trans: "same_view a b \<Longrightarrow> same_view b c \<Longrightarrow> same_view a c"
  unfolding same_view_def by metis

lemma idle_on_share: "idle f \<Longrightarrow> wp (\<lambda>_. True) (\<lambda>_ _. True) (on_share ss share f) (\<lambda>(_, ss'). same_view ss ss')"
  by (rule wp_mono [OF on_share_view [where R = "\<lambda>sb _ sb'. sb' = sb"]])
    (auto simp: idle_def dest: put_same_view intro: same_view_trans)

lemma idle_through:
  assumes "idle f" "map_of (ms_fBackends ss) share = Some sb"
  shows "wp (\<lambda>_. True) (\<lambda>_ _. True) (through share f ss) (\<lambda>(_, ss'). same_view ss ss')"
proof (rule wp_through [OF assms(2)])
  have "wp (\<lambda>_. True) (\<lambda>_ _. True) (f sb) (\<lambda>(_, sb'). sb' = sb)" using assms(1) by (simp add: idle_def)
  then show "wp (\<lambda>_. True) (\<lambda>_ _. True) (f sb) (\<lambda>(out, sb'). case (out, ss\<lparr>ms_fBackends := map_put share sb' (ms_fBackends ss)\<rparr>) of
      (_, ss') \<Rightarrow> same_view ss ss')"
    by (rule wp_mono) (auto simp: put_same_view [OF assms(2)])
qed

text \<open>The state with room for \<open>n\<close> more handles, in which \<open>fh\<close> is the file \<open>x\<close>.\<close>

definition stays :: "u64 \<Rightarrow> nat \<times> nat \<Rightarrow> nat \<Rightarrow> SmbServerBackend \<Rightarrow> bool" where
  "stays fh x n ss \<longleftrightarrow> numbered n ss \<and> bound ss fh = Some x"

lemma stays_view: "same_view ss ss' \<Longrightarrow> stays fh x n ss \<Longrightarrow> stays fh x n ss'"
  using same_view_numbered same_view_bound by (auto simp: stays_def)

lemma stays_less: "stays fh x (Suc n) ss \<Longrightarrow> stays fh x n ss"
  using numbered_less by (simp add: stays_def)

lemma bound_parts:
  assumes "bound ss fh = Some (smb2, file)"
  obtains share local sb where "map_of (ms_fHandles ss) fh = Some (share, local)" "map_of (ms_fBackends ss) share = Some sb"
    "mb_fSmb sb = Some smb2" "map_of (mb_fOpen sb) local = Some file"
  using assms by (auto simp: bound_def split: option.splits)

lemma stays_opened:
  assumes "stays fh x (Suc n) ss" "map_of (ms_fBackends ss) share = Some sb" "opened sb local sb'"
    "add_remapped share local (ss\<lparr>ms_fBackends := map_put share sb' (ms_fBackends ss)\<rparr>) = (h, ss')"
  shows "stays fh x n ss'"
proof -
  obtain fd where sb': "sb' = sb\<lparr>mb_fNextHandle := mb_fNextHandle sb + 1, mb_fOpen := map_put (mb_fNextHandle sb) fd (mb_fOpen sb)\<rparr>"
      and loc: "local = mb_fNextHandle sb"
    using assms(3) by (auto simp: opened_def add_file_def Let_def)
  let ?next = "ms_fNextHandle ss"
  have ss': "ss' = ss\<lparr>ms_fBackends := map_put share sb' (ms_fBackends ss), ms_fNextHandle := ?next + 1,
      ms_fHandles := map_put ?next (share, local) (ms_fHandles ss)\<rparr>"
    using assms(4) by (auto simp: add_remapped_def Let_def)
  have n: "0 < ?next" "unat ?next + Suc n < 2 ^ 64"
    "\<And>h h' x. map_of (ms_fHandles ss) h = Some x \<Longrightarrow> map_of (ms_fHandles ss) h' = Some x \<Longrightarrow> h = h'"
    "\<And>share sb. map_of (ms_fBackends ss) share = Some sb \<Longrightarrow> mb_fNextHandle sb \<le> ?next"
    "\<And>h share local. map_of (ms_fHandles ss) h = Some (share, local) \<Longrightarrow> h < ?next \<and>
        (\<exists>sb. map_of (ms_fBackends ss) share = Some sb \<and> local < mb_fNextHandle sb)"
    using assms(1) by (auto simp: stays_def numbered_def)
  have up: "unat (?next + 1) = unat ?next + 1" using n(2) by (simp add: unat_word_ariths)
  have less: "v < ?next + 1 \<longleftrightarrow> v \<le> ?next" for v unfolding word_less_nat_alt word_le_nat_alt up by auto
  have sub: "mb_fNextHandle sb \<le> ?next" using n(4) [OF assms(2)] .
  then have up': "unat (mb_fNextHandle sb + 1) = unat (mb_fNextHandle sb) + 1" using n(2) by (simp add: unat_word_ariths word_le_nat_alt)
  have less': "v < mb_fNextHandle sb + 1 \<longleftrightarrow> v \<le> mb_fNextHandle sb" for v unfolding word_less_nat_alt word_le_nat_alt up' by auto
  have old: "local' < mb_fNextHandle sb" if "map_of (ms_fHandles ss) h = Some (share, local')" for h local'
    using n(5) [OF that] assms(2) by auto
  have "numbered n ss'"
    unfolding numbered_def
  proof (intro conjI allI impI)
    show "0 < ms_fNextHandle ss'" by (simp add: ss' less)
    show "unat (ms_fNextHandle ss') + n < 2 ^ 64" using n(2) by (simp add: ss' up)
    show "h = h'" if "map_of (ms_fHandles ss') h = Some x" "map_of (ms_fHandles ss') h' = Some x" for h h' x
      using that n(3) [of h x h'] old [of h local] old [of h' local] by (auto simp: ss' loc split: if_splits)
    show "mb_fNextHandle b \<le> ms_fNextHandle ss'" if "map_of (ms_fBackends ss') sh = Some b" for sh b
      using that n(4) [of sh b] sub up up' by (auto simp: ss' sb' word_le_nat_alt split: if_splits)
    show "h < ms_fNextHandle ss'" "\<exists>b. map_of (ms_fBackends ss') sh = Some b \<and> l < mb_fNextHandle b"
      if "map_of (ms_fHandles ss') h = Some (sh, l)" for h sh l
      using that n(5) [of h sh l] assms(2) by (auto simp: ss' sb' loc less less' split: if_splits)
  qed
  moreover have "bound ss' fh = Some x"
  proof -
    obtain smb2 file' where x: "x = (smb2, file')" by (cases x)
    then obtain sh l b where b: "map_of (ms_fHandles ss) fh = Some (sh, l)" "map_of (ms_fBackends ss) sh = Some b"
      "mb_fSmb b = Some smb2" "map_of (mb_fOpen b) l = Some file'"
      using assms(1) unfolding stays_def by (auto elim!: bound_parts)
    have "fh \<noteq> ?next" "sh = share \<Longrightarrow> l \<noteq> mb_fNextHandle sb" using n(5) [OF b(1)] old [of fh l] b(1) by auto
    then show ?thesis using b assms(2) by (auto simp: bound_def ss' sb' x)
  qed
  ultimately show ?thesis by (simp add: stays_def)
qed

lemma stays_closed:
  assumes "stays fh x n ss" "map_of (ms_fHandles ss) h = Some (share, local)" "h \<noteq> fh" "map_of (ms_fBackends ss) share = Some sb"
  shows "stays fh x n (ss\<lparr>ms_fBackends := map_put share (sb\<lparr>mb_fOpen := AList.delete local (mb_fOpen sb)\<rparr>) (ms_fBackends ss),
    ms_fHandles := AList.delete h (ms_fHandles ss)\<rparr>)" (is "stays fh x n ?ss'")
proof -
  have del: "map_of (ms_fHandles ?ss') k = (if k = h then None else map_of (ms_fHandles ss) k)" for k
    by (simp add: delete_conv')
  have put: "map_of (ms_fBackends ?ss') sh = (if sh = share then Some (sb\<lparr>mb_fOpen := AList.delete local (mb_fOpen sb)\<rparr>) else map_of (ms_fBackends ss) sh)" for sh
    by simp
  have num: "numbered n ss" using assms(1) by (simp add: stays_def)
  then have "numbered n ?ss'" using assms(4) unfolding numbered_def del put
    by (auto split: if_splits) (metis option.inject)
  moreover have "bound ?ss' fh = Some x"
  proof -
    obtain smb2 file' where x: "x = (smb2, file')" by (cases x)
    then obtain sh l b where b: "map_of (ms_fHandles ss) fh = Some (sh, l)" "map_of (ms_fBackends ss) sh = Some b"
      "mb_fSmb b = Some smb2" "map_of (mb_fOpen b) l = Some file'"
      using assms(1) unfolding stays_def by (auto elim!: bound_parts)
    have "(sh, l) \<noteq> (share, local)" using num assms(2,3) b(1) unfolding numbered_def by metis
    then show ?thesis using b assms(3,4) unfolding bound_def del put by (auto simp: x delete_conv')
  qed
  ultimately show ?thesis by (simp add: stays_def)
qed

lemma stays_inside: "(\<And>rest. idle (f rest)) \<Longrightarrow> stays fh x (Suc n) ss \<Longrightarrow>
    wp (\<lambda>_. True) (\<lambda>_ _. True) (inside_share ss path outside f) (\<lambda>(_, ss'). stays fh x n ss')"
  unfolding inside_share_def
  by (auto split: prod.split dest: stays_less intro!: wp_mono [OF idle_on_share] intro: stays_view)

lemma stays_share: "idle f \<Longrightarrow> stays fh x (Suc n) ss \<Longrightarrow>
    wp (\<lambda>_. True) (\<lambda>_ _. True) (on_share ss share f) (\<lambda>(_, ss'). stays fh x n ss')"
  by (auto dest: stays_less intro!: wp_mono [OF idle_on_share] intro: stays_view)

lemma stays_handle: "(\<And>local. idle (f local)) \<Longrightarrow> stays fh x (Suc n) ss \<Longrightarrow>
    wp (\<lambda>_. True) (\<lambda>_ _. True) (on_handle ss handle f) (\<lambda>(_, ss'). stays fh x n ss')"
proof -
  assume f: "\<And>local. idle (f local)" and st: "stays fh x (Suc n) ss"
  have "wp (\<lambda>_. True) (\<lambda>_ _. True) (through share (f l) ss) (\<lambda>(_, ss'). stays fh x n ss')"
    if h: "map_of (ms_fHandles ss) handle = Some (share, l)" for share l
  proof -
    obtain sb where "map_of (ms_fBackends ss) share = Some sb" using st h unfolding stays_def numbered_def by metis
    then show ?thesis using stays_less [OF st] by (auto intro!: wp_mono [OF idle_through [OF f]] intro: stays_view)
  qed
  then show ?thesis using stays_less [OF st] unfolding on_handle_def by (auto split: option.split prod.split)
qed

lemma stays_error: "stays fh x (Suc n) ss \<Longrightarrow> stays fh x n (ss\<lparr>ms_fError := e\<rparr>)"
  by (rule stays_view [OF same_view_refl(2) stays_less])

lemma stays_opens:
  assumes "stays fh x (Suc n) ss"
  shows "wp (\<lambda>_. True) (\<lambda>_ _. True) (Server_Open ss path) (\<lambda>(_, ss'). stays fh x n ss')"
    and "wp (\<lambda>_. True) (\<lambda>_ _. True) (Server_OpenWrite ss path) (\<lambda>(_, ss'). stays fh x n ss')"
proof -
  have view: "stays fh x (Suc n) ss1" if "same_view ss ss1" for ss1 using stays_view [OF that assms] .
  have same: "stays fh x n (ss1\<lparr>ms_fBackends := map_put share sb (ms_fBackends ss1)\<rparr>)"
    if "same_view ss ss1" "map_of (ms_fBackends ss1) share = Some sb" for ss1 share sb
    using stays_view [OF put_same_view [OF that(2)] stays_less [OF view [OF that(1)]]] .
  show "wp (\<lambda>_. True) (\<lambda>_ _. True) (Server_Open ss path) (\<lambda>(_, ss'). stays fh x n ss')"
    unfolding Server_Open_def
  proof (clarsimp split: prod.split simp: stays_less [OF assms])
    fix share rest
    show "wp (\<lambda>_. True) (\<lambda>_ _. True) (pbind (on_share ss share (\<lambda>sb. Smb_Open sb rest)) (\<lambda>(out, ss). Ret (case out of
        Inl status \<Rightarrow> (Inl status, ss)
      | Inr (local, sz) \<Rightarrow> (case add_remapped share local ss of (handle, ss) \<Rightarrow> (Inr (handle, sz), ss))))) (\<lambda>(_, ss'). stays fh x n ss')"
      by (rule wp_bind [OF on_share_view [OF wp_any_call [OF wp_opens(1)]]])
        (auto simp: same stays_error [OF assms] split: sum.splits prod.splits intro: stays_opened [OF view])
  qed
  show "wp (\<lambda>_. True) (\<lambda>_ _. True) (Server_OpenWrite ss path) (\<lambda>(_, ss'). stays fh x n ss')"
    unfolding Server_OpenWrite_def
  proof (clarsimp split: prod.split simp: stays_less [OF assms])
    fix share rest
    show "wp (\<lambda>_. True) (\<lambda>_ _. True) (pbind (on_share ss share (\<lambda>sb. Smb_OpenWrite sb rest)) (\<lambda>(out, ss). Ret (case out of
        Inl status \<Rightarrow> (Inl status, ss)
      | Inr local \<Rightarrow> (case add_remapped share local ss of (handle, ss) \<Rightarrow> (Inr handle, ss))))) (\<lambda>(_, ss'). stays fh x n ss')"
      by (rule wp_bind [OF on_share_view [OF wp_any_call [OF wp_opens(2)]]])
        (auto simp: same stays_error [OF assms] split: sum.splits prod.splits intro: stays_opened [OF view])
  qed
qed

lemma stays_close:
  assumes "stays fh x (Suc n) ss" "handle \<noteq> fh"
  shows "wp (\<lambda>_. True) (\<lambda>_ _. True) (Server_Close ss handle) (\<lambda>(_, ss'). stays fh x n ss')"
proof (cases "map_of (ms_fHandles ss) handle")
  case None
  then show ?thesis using stays_less [OF assms(1)] by (simp add: Server_Close_def)
next
  case (Some a)
  then obtain share l where h: "map_of (ms_fHandles ss) handle = Some (share, l)" by (cases a) auto
  obtain sb where sb: "map_of (ms_fBackends ss) share = Some sb" using assms(1) h unfolding stays_def numbered_def by metis
  have "wp (\<lambda>_. True) (\<lambda>_ _. True) (Smb_Close sb l) (\<lambda>(_, sb'). sb' = sb\<lparr>mb_fOpen := AList.delete l (mb_fOpen sb)\<rparr>)"
    by (rule wp_any_call [OF wp_opens(3)])
  then have "wp (\<lambda>_. True) (\<lambda>_ _. True) (through share (\<lambda>sb. Smb_Close sb l) ss)
      (\<lambda>(_, ss'). ss' = ss\<lparr>ms_fBackends := map_put share (sb\<lparr>mb_fOpen := AList.delete l (mb_fOpen sb)\<rparr>) (ms_fBackends ss)\<rparr>)"
    by (intro wp_through [OF sb]) (auto elim: wp_mono)
  then show ?thesis unfolding Server_Close_def h option.case prod.case
    by (rule wp_bind) (auto intro: stays_closed [OF stays_less [OF assms(1)] h assms(2) sb])
qed

lemma server_do_stays: "q \<noteq> MB_Close fh \<Longrightarrow> stays fh x (Suc n) ss \<Longrightarrow> wp (\<lambda>_. True) (\<lambda>_ _. True) (server_do q ss) (stays fh x n)"
  by (cases q)
    (auto simp: Server_Stat_def Server_ReadDir_def Server_Read_def Server_Write_def Server_Mkdir_def Server_Unlink_def Server_Rename_def
      Server_Truncate_def split: prod.split dest: stays_less
      intro!: wp_then_state stays_opens stays_close stays_inside stays_handle stays_share idle)

interpretation handle_loop: request_loop server_do "\<lambda>_. True" "\<lambda>q. q \<noteq> MB_Close fh" "stays fh x" for fh x
  by unfold_locales (rule server_do_stays)

section \<open>Reading\<close>

text \<open>
  What libsmb2 documents of reads from an open file with content \<open>file\<close>: some bytes from the position on,
  at most as many as asked for, none only at the end of the file, and their count.
\<close>

definition smb_serves :: "'os system \<Rightarrow> nat \<Rightarrow> nat \<Rightarrow> bytes \<Rightarrow> bool" where
  "smb_serves sys smb2 h file \<longleftrightarrow> (\<forall>s n off. \<exists>d s'. sys (Smb (SmbPread smb2 h n off)) s = (RSmb (SmbData (int (length d)) d), s') \<and>
     d = take (length d) (drop (unat off) file) \<and> length d \<le> n \<and> (d = [] \<longrightarrow> n = 0 \<or> length file \<le> unat off))"

lemma smb_read_loop_serves:
  assumes "smb_serves sys smb2 h file" "length file < 2 ^ 64"
  shows "length out \<le> len \<Longrightarrow> out = [] \<or> unat off + length out \<le> length file \<Longrightarrow>
    result sys (smb_read_loop smb2 h len off out) s = Inr (out @ take (len - length out) (drop (unat off + length out) file))"
proof (induction "len - length out" arbitrary: out s rule: less_induct)
  case less
  show ?case
  proof (cases "length out < len")
    case True
    have pos: "unat (off + of_nat (length out)) = unat off + length out"
      using less.prems(2) assms(2) by (cases "out = []") (simp_all add: unat_word_ariths unat_of_nat)
    obtain d s' where r: "sys (Smb (SmbPread smb2 h (len - length out) (off + of_nat (length out)))) s = (RSmb (SmbData (int (length d)) d), s')"
        and d: "d = take (length d) (drop (unat off + length out) file)" "length d \<le> len - length out"
          "d = [] \<Longrightarrow> length file \<le> unat off + length out"
      using assms(1) True pos unfolding smb_serves_def by (metis zero_less_diff less_numeral_extra(3))
    show ?thesis
    proof (cases "d = []")
      case True
      then show ?thesis using r d(3) \<open>length out < len\<close>
        by (subst smb_read_loop.simps) (simp add: result_def run_pbind smb_data_def sys_smb_def as_smb_def)
    next
      case False
      have "length d \<le> length file - (unat off + length out)" using d(1) by (metis length_take length_drop min.cobounded1)
      then have fits: "unat off + length (out @ d) \<le> length file" using False by (cases "unat off + length out \<le> length file") auto
      have "result sys (smb_read_loop smb2 h len off (out @ d)) s' =
          Inr ((out @ d) @ take (len - length (out @ d)) (drop (unat off + length (out @ d)) file))"
      proof (rule less.hyps)
        show "len - length (out @ d) < len - length out" using False d(2) True by (cases d) auto
        show "length (out @ d) \<le> len" using d(2) True by simp
        show "out @ d = [] \<or> unat off + length (out @ d) \<le> length file" using fits by blast
      qed
      moreover have "d @ take (len - length out - length d) (drop (unat off + length out + length d) file) =
          take (len - length out) (drop (unat off + length out) file)"
        using take_add [of "length d" "len - length out - length d" "drop (unat off + length out) file"] d(1) [symmetric]
        unfolding le_add_diff_inverse [OF d(2)] by (simp add: add.commute)
      ultimately show ?thesis using r False \<open>length out < len\<close> d(2)
        by (subst smb_read_loop.simps)
          (auto simp: result_def run_pbind smb_data_def sys_smb_def as_smb_def add.assoc split: prod.split)
    qed
  next
    case False
    then show ?thesis using less.prems by (subst smb_read_loop.simps) (simp add: result_def)
  qed
qed

lemma Server_Read_serves:
  assumes "bound ss fh = Some (smb2, h)" "smb_serves sys smb2 h file" "length file < 2 ^ 64"
  shows "result sys (Server_Read ss fh off len) s = (Inr (take (unat len) (drop (unat off) file)), snd (result sys (Server_Read ss fh off len) s))"
proof -
  obtain share l sb where b: "map_of (ms_fHandles ss) fh = Some (share, l)" "map_of (ms_fBackends ss) share = Some sb"
    "mb_fSmb sb = Some smb2" "map_of (mb_fOpen sb) l = Some h"
    using assms(1) by (rule bound_parts)
  have "result sys (smb_read_loop smb2 h (unat len) off []) s = Inr (take (unat len) (drop (unat off) file))"
    using smb_read_loop_serves [OF assms(2,3), of "[]" "unat len" off s] by simp
  then obtain s2 lg where "run sys (smb_read_loop smb2 h (unat len) off []) s = (Inr (take (unat len) (drop (unat off) file)), s2, lg)"
    unfolding result_def by (metis prod.collapse)
  then show ?thesis using b
    by (simp add: Server_Read_def on_handle_def through_def Smb_Read_def result_def run_pbind split: prod.split)
qed

text \<open>
  C33: A file opened on an SMB server stays that file until it is closed, and reading it through the mount gives
  its bytes. Whatever is done in between but closing the handle itself (other files and shares opened and
  closed, requests that fail), a read callback on the handle returns the bytes of the file from the
  offset on, as many as were asked for unless the file ends, however short the reads of the library are.
\<close>

theorem smb_mount_reads_the_file:
  assumes "numbered (length qs) ss" "bound ss fh = Some (smb2, h)" "MB_Close fh \<notin> set qs"
    and "smb_serves sys smb2 h file" "length file < 2 ^ 64"
    and "run sys (do_all server_do qs ss) s = (ss', s', lg)"
  shows "fst (cf_read (smb_server_backend sys) fh sz off (ss', s')) =
      (let d = take (unat (ucast sz :: u32)) (drop (unat (ucast off :: u64)) file) in Inr (of_nat (length d), d)) \<and>
    fits sz (fst (cf_read (smb_server_backend sys) fh sz off (ss', s')))"
proof -
  have others: "list_all (\<lambda>q. q \<noteq> MB_Close fh) qs" using assms(3) by (auto simp: list_all_iff)
  have "stays fh (smb2, h) (length qs + 0) ss" using assms(1,2) by (simp add: stays_def)
  from handle_loop.run_kept [OF others this, of sys s] have "bound ss' fh = Some (smb2, h)" using assms(6) by (simp add: stays_def result_def)
  then obtain ss2 where "result sys (Server_Read ss' fh (ucast off) (ucast sz)) s' =
      (Inr (take (unat (ucast sz :: u32)) (drop (unat (ucast off :: u64)) file)), ss2)"
    using Server_Read_serves [OF _ assms(4,5)] by blast
  then obtain s2 lg2 where "run sys (Server_Read ss' fh (ucast off) (ucast sz)) s' =
      ((Inr (take (unat (ucast sz :: u32)) (drop (unat (ucast off :: u64)) file)), ss2), s2, lg2)"
    unfolding result_def by (metis prod.collapse)
  then have "fst (cf_read (smb_server_backend sys) fh sz off (ss', s')) =
      (let d = take (unat (ucast sz :: u32)) (drop (unat (ucast off :: u64)) file) in Inr (of_nat (length d), d))"
    by (simp add: cf_read_def smb_server_backend_def reading_backend_def on_tree_def result_def Let_def split: prod.split sum.split)
  then show ?thesis using small_size [of sz] by (simp add: Let_def fits_def)
qed

section \<open>The hypotheses hold of concrete systems\<close>

text \<open>A library that reads at most two bytes at a time.\<close>

definition slow_share :: "bytes \<Rightarrow> unit system" where
  "slow_share file c s = (case c of
     Smb (SmbPread _ _ n off) \<Rightarrow> (let d = take (min n 2) (drop (unat off) file) in (RSmb (SmbData (int (length d)) d), s))
   | _ \<Rightarrow> (RUnit, s))"

lemma slow_share_serves: "smb_serves (slow_share file) smb2 h file"
proof -
  have "take (min n 2) (drop m file) = take (min (length file - m) (min n 2)) (drop m file)" for m n by (simp add: min_def)
  then show ?thesis by (auto simp: smb_serves_def slow_share_def Let_def)
qed

definition one_file :: SmbServerBackend where
  "one_file = SmbServerBackend\<lparr>ms_fBackends := [(''Public'', SmbBackend\<lparr>mb_fSmb := Some 5, mb_fOpen := [(1, 9)], mb_fNextHandle := 2\<rparr>)],
     ms_fHandles := [(1, (''Public'', 1))], ms_fNextHandle := 2\<rparr>"

lemma one_file_ok: "numbered (Suc (Suc 0)) one_file" "bound one_file 1 = Some (5, 9)"
  by (auto simp: numbered_def bound_def one_file_def SmbServerBackend_def SmbBackend_def split: if_splits)

theorem smb_mount_reads_the_file_witness:
  "fst (cf_read (smb_server_backend (slow_share [10, 11, 12, 13, 14])) 1 3 1 (one_file, ())) = Inr (3, [11, 12, 13])"
proof -
  have "run (slow_share [10, 11, 12, 13, 14]) (do_all server_do [MB_Stat ''/'', MB_Close 7] one_file) () = (one_file, (), [])"
    by (simp add: then_state_def Server_Stat_def SplitServerPath_def Server_Close_def one_file_def)
  from smb_mount_reads_the_file [OF _ one_file_ok(2) _ slow_share_serves _ this, of 3 1] one_file_ok(1)
  show ?thesis by simp
qed

section \<open>What is not as it should be\<close>

text \<open>A server that refuses the login.\<close>

definition refusing :: "unit system" where
  "refusing c s = (case c of
     Smb SmbInit \<Rightarrow> (RSmb (SmbPtr (Some 1)), s) | Smb (SmbConnectShare _ _ _ _) \<Rightarrow> (RSmb (SmbStatus (Some EACCES)), s) | _ \<Rightarrow> (RUnit, s))"

text \<open>After a failed connect the error is a text inside the context that was destroyed.\<close>

lemma error_outlives_context:
  "let (r, s, lg) = run refusing (Smb_Connect SmbBackend SmbConfig) () in
   mb_fError (snd r) = ErrorOf 1 \<and> last lg = Smb (SmbDestroy 1)"
  by (simp add: Smb_Connect_def Smb_IsConnected_def SmbBackend_def SmbConfig_def login_def smb_ptr_def smb_unit_def smb_status_def
      sys_smb_def as_smb_def refusing_def)

text \<open>With a slash at its end a share's name is inside the share, so \<open>rmdir\<close> is asked for the share itself.\<close>

lemma share_itself_removed:
  "calls (slow_share []) (Server_Unlink (one_file\<lparr>ms_fHandles := []\<rparr>) ''/Public/'') () =
    [Smb (SmbStat 5 []), Smb (SmbUnlink 5 [])]"
  by (simp add: Server_Unlink_def inside_share_def SplitServerPath_def on_share_def ShareBackend_def through_def one_file_def Smb_Unlink_def
      on_session_def PathEscapes_component SharePath_def SmbBackend_def SmbServerBackend_def status_result_def smb_attrs_def smb_status_def
      sys_smb_def calls_def slow_share_def Let_def as_smb_def)

text \<open>A path that climbs out is refused for changes only; it is listed, and read from, as it is.\<close>

lemma climbing_path_listed:
  "mb_fSmb sb = Some smb2 \<Longrightarrow> mb_fBasePath sb = [] \<Longrightarrow> calls (slow_share []) (Smb_ReadDir sb ''/../secret'') () = [Smb (SmbOpendir smb2 ''../secret'')]"
  by (simp add: Smb_ReadDir_def on_session_def SharePath_def smb_ptr_def sys_smb_def calls_def slow_share_def as_smb_def)

end
