(* ===== verification/Spec2Isabelle.thy ===== *)
theory Spec2Isabelle
  imports ServerConnection WireProps NodeProps Tls PeerProps DiscoveryProps SftpProps VicinatoProps Mirror MediaServer SmbProps
begin

text \<open>
  Campiello: machines on a local network find each other over multicast DNS and share a folder over
  CNP, a framed binary protocol on TLS connections. This library models the C++ code of that path
  from end to end, and with it two of the add-ons for foreign devices: the mounting of SMB servers and
  the mirroring of the screen to Cast receivers. Paths below are relative to \<open>src/src/\<close>, those that
  begin with \<open>optional/\<close> to \<open>src/\<close>.

  THE PARTS, and how they work together.

  A node serves one folder. \<open>traghetto/wire\<close> is the language of the protocol: CBOR items, frames, and
  one payload per message. \<open>traghetto/server/FileServer.cpp\<close> answers the requests of one connection by
  calls of the host system. In front of it stands the pairing gate (\<open>server/GatedHandler.cpp\<close>), which
  asks \<open>trust/Pairing.cpp\<close> whether the peer's key is pinned in the trust store or the user lets it in.
  \<open>dispatch/\<close> moves frames: the serve loop takes requests and a writer thread sends replies and pushed
  query updates; the client matches replies to requests. \<open>transport/Connection.cpp\<close> is the framing on
  a socket, \<open>tls/TlsConnection.cpp\<close> the handshake and the same framing over TLS.
  A node finds others by \<open>bricola/mdns\<close>: the responder announces it, the browser folds what it hears
  into a table of peers, and a snapshot of the table is read by other threads. The radar
  (\<open>mdns/MdnsRadar.cpp\<close>) listens beside it and counts everything it hears, for diagnosis.
  A client mounts the network as a file system. \<open>fondamenta/fuse\<close> has the callbacks; each calls a
  \<open>PeerBackend\<close>. The one of the mount is \<open>discovery/PathRouter.cpp\<close>: its root lists the peers, below a
  peer it asks \<open>discovery/ConnectionManager.cpp\<close> for that peer's connection, and \<open>/.query/\<close> asks every
  peer (\<open>discovery/QueryAggregator.cpp\<close>). A connection's backend, \<open>backend/CnpBackend.cpp\<close>, turns
  operations into requests. A machine that speaks SFTP only is mounted through the same callbacks with
  \<open>backend/SftpBackend.cpp\<close>, which pins host keys in \<open>backend/SftpKnownHosts.cpp\<close>, and an SMB server or
  one of its shares with the backends of \<open>optional/smb\<close>.
  The neighborhood (\<open>vicinato/\<close>) shows the user what the radar heard: every announced service under a
  name and a kind, merged with the SMB hosts that \<open>mdns/SmbHosts\<close> finds and with what it knows of
  the local network, and starts a handler program with the service as its arguments. A folder of
  shortcuts (\<open>ShareFolder.cpp\<close>) mirrors the list on disk for applications without the window.
  One of the handlers is the Cast add-on (\<open>optional/cast\<close>): a channel of messages with heartbeats to a
  receiver, and over it a mirroring session that encrypts each encoded picture, cuts it into RTP
  packets, and sends again what the receiver's feedback says it lost. A local file is cast by a small
  HTTP server that answers the receiver's ranges (\<open>MediaServer.cpp\<close>).

  THE THEORIES, in the order of the parts.

  Prelude: the widths of the machine integers, bytes and strings, lemmas on words and lists that
  several parts share. Containers: \<open>std::map\<close> and \<open>std::set\<close> as ordered lists. Host: the calls of the
  host system as a datatype, operations as trees of calls (\<open>prog\<close>), their run over any system, and a
  weakest precondition \<open>wp P Q m post\<close> for statements over every behaviour of the system.
  Cbor, CborSkip, CborReading (\<open>wire/Cbor.cpp\<close>): writer and reader on explicit states (buffer,
  position, latched error); the iterative \<open>Skip\<close> against the grammar \<open>cbor_item\<close>; \<open>safe\<close>, the bounds
  and locality of a reading, and \<open>definite\<close>, that it ends at one place.
  Messages: the decoding loop all payloads share, as the locales \<open>item_codec\<close>, \<open>message_codec\<close> and
  \<open>message_bounds\<close>, interpreted for every payload where it is defined: Handshake (\<open>Error.cpp\<close>,
  \<open>Handshake.cpp\<close>), Listing (\<open>Attributes.cpp\<close>, \<open>Listing.cpp\<close>), FileOps, Namespace (\<open>Namespace.cpp\<close>,
  \<open>AttrOps.cpp\<close>), Query. Frame: the frame header and the incremental parser. WireProps: the
  properties of the wire format.
  FileServer: one definition per handler on both builds, with the table of open files and the query
  sessions in the record \<open>server\<close>. ServerPolicy: what a call may touch. ServerSafety: that the handlers
  keep to it. ServerConnection: a whole connection and its properties.
  Trust (\<open>tls/Fingerprint.cpp\<close>, \<open>trust/TrustStore.cpp\<close>), Double (the rounding of IEEE doubles, on
  rationals), Pairing (\<open>trust/TokenBucket.cpp\<close>, \<open>trust/Pairing.cpp\<close>), Gate (\<open>server/GatedHandler.cpp\<close>,
  \<open>Daemon.cpp\<close>, \<open>ServerNode.cpp\<close>), Dispatch (\<open>dispatch/Dispatch.cpp\<close>, \<open>FrameWriter.cpp\<close>), Connection
  (\<open>transport/Connection.cpp\<close>), NodeProps: the properties of a node. Tls (\<open>tls/TlsConnection.cpp\<close>), with its
  properties.
  MdnsWire, PeerTable, Responder (\<open>Responder.cpp\<close>, \<open>Browser.cpp\<close>, \<open>Bricola.cpp\<close>), PeerWatch (the contract
  between a source of peer events and its observer, locale \<open>peer_source\<close>, interpreted on the browser),
  PeerLife, PeerProps: discovery. Radar (\<open>MdnsRadar.cpp\<close>), with its property.
  Backend (\<open>CnpBackend.cpp\<close>, \<open>LiveQueryClient.cpp\<close>; locale \<open>answering_peer\<close>), BackendProps (its
  interpretation on the file server, and the client over it), Sources (\<open>PeerBackend.h\<close>, \<open>PeerSource\<close>,
  \<open>BricolaDirectory.cpp\<close>), QueryFolder (\<open>QueryAggregator.cpp\<close>), Router (\<open>PathRouter.cpp\<close>; locale
  \<open>source_keeps\<close>), Manager (\<open>ConnectionManager.cpp\<close>; its interpretation), Fuse (\<open>CampielloFuse.cpp\<close>,
  \<open>FuseTranslate.cpp\<close>), Browsing, DiscoveryProps: the mount.
  Libssh (the calls of libssh2 as a datatype), KnownHosts (\<open>SftpKnownHosts.cpp\<close>), Sftp (\<open>SftpBackend.cpp\<close>),
  SftpSafety (locale \<open>session_policy\<close>, what a session keeps), SftpMount (\<open>fuse/SftpMount.cpp\<close> and
  \<open>campiello_sftp_main.cpp\<close>), SftpProps (its interpretations, and the properties of SFTP mounts).
  Smb (\<open>optional/smb/SmbBackend.cpp\<close>), SmbServer (\<open>SmbServerBackend.cpp\<close>, all shares of a server as one
  volume), SmbMount (\<open>SmbMount.cpp\<close>, \<open>campiello_smb_main.cpp\<close>), SmbProps (locale \<open>request_loop\<close>, any requests
  in a row, interpreted on both backends; the properties of SMB mounts). The calls of libsmb2 are a
  datatype of Host.
  Labels (\<open>mdns/RadarLabels.cpp\<close>), Neighborhood (\<open>NetworkDirectory.cpp\<close>, \<open>SmbHostFinder.cpp\<close>), Handlers
  (\<open>HandlerRegistry.cpp\<close>), Launch (\<open>DeviceLaunch.cpp\<close>), NetIntel (\<open>NetIntel.cpp\<close>), ShareFolder
  (\<open>ShareFolder.cpp\<close>, with its property), Vicinato (the messages of the window in
  \<open>campiello_vicinato.cpp\<close>), VicinatoProps: the properties of the neighborhood.
  CastChannel (\<open>optional/cast/CastChannel.cpp\<close>), CastTransport (\<open>CastTransport.cpp\<close>), Mirror (\<open>CastMirror.cpp\<close>,
  \<open>MirrorSession.cpp\<close>), MediaServer (\<open>MediaServer.cpp\<close>), each with its properties.

  HOW THE CODE IS READ. A class is a record and its operations are functions on it; an enumeration is
  a datatype, or a word where any byte may come from the wire; \<open>uint8_t\<close> to \<open>uint64_t\<close> are words of
  their width, and \<open>size_t\<close> positions inside a buffer are naturals; \<open>std::string\<close> is a list of
  characters that stand for bytes; \<open>false\<close> with an output parameter left alone is \<open>None\<close>, an error code
  \<open>Inl\<close>. A reader operation returns its value and the reader's next state. What the host system, the
  clock, the user, a socket or a random peer does is a parameter or a list of outcomes, never a
  definition of ours. Threads are steps: the serve loop and the writer of a connection are the step
  relation \<open>serve_step\<close> with one step per critical section or system call, a node's connections are
  interleaved by requests, and the callbacks of the mount are one step each under the lock they hold.

  WHAT THE LEMMAS SHOW. Of the wire format: no reader leaves its buffer, whatever bytes it is given;
  what is written reads back; frames survive any chunking; unknown fields and any order are accepted,
  missing, repeated and trailing ones are not; decoded values are within the protocol's limits. Of
  the server: every path it touches is under the shared root, a read-only server changes nothing,
  links are resolved, descriptors are its own, and its handles are fresh and dead after a close. Of a
  node: strangers are refused, prompts are limited, the trust store is a map that survives its file,
  every request gets its one reply, and shutting down ends. Of discovery: packets are parsed in
  bounds, an announced node is found, peers come and go in order and for a reason. Of the mount: only
  pinned peers are talked to, a handle stays its file, a query folder is the query it names, and a
  read ends in one \<open>pread\<close> of the other machine. Of TLS: a connection is one with the expected key. Of
  SFTP: no credential goes to a host whose key is not trusted, a session is whole or closed, a read
  returns the file's bytes. Of SMB: what a mount changes lies below the mounted directory, handles are
  never mixed up, a read returns the file's bytes. Of the radar: its numbers add up. Of the
  neighborhood: the list holds every service and is sorted by kind, its rows are the services, what is
  shown is what is started, and the shortcut folder holds one file per service. Of Cast: a reply is
  awaited past other messages with every heartbeat answered, pictures arrive from their packets in any
  order, only packets sent before are sent again, and a range of a file is answered with its bytes. Several theorems state what the code does where it
  is not what it should do; they are the findings beside this library.

  BOUNDS AND TERMINATION. Every loop is a terminating function: structural, or with a measure (the
  bytes left for \<open>Skip\<close>, \<open>drain\<close> and the mDNS walks, the used names ahead for \<open>leaf_name\<close>, the work
  left for the shutdown of a connection). No fuel is used. A socket that never sends is a list of
  outcomes that ends. Handles are 64 bits wide and statements about them count the calls made so that
  they do not wrap. Query suffixes are naturals; at most 4096 are tried, so the code's \<open>int\<close> holds them.

  NOT MODELLED. OpenSSL, libssh2, libsmb2, the encoders of pictures and sound and userlandfs, which are not under \<open>src/\<close>, and \<open>traghetto/tls/Identity.cpp\<close>,
  which only calls OpenSSL: their results are parameters. The set-up of sockets and threads
  (\<open>bricola/mdns/MdnsSocket.cpp\<close>, \<open>Connect\<close>, \<open>Listen\<close> and \<open>Accept\<close>). The BLooper and BHandler objects that
  carry live query notifications to \<open>PushQueryUpdate\<close>. Programs and user interface: the daemon's
  shell and alert, the connect windows of SFTP and SMB mounts, the peer window and replicant, and of
  \<open>vicinato/\<close> the layout, drawing and dialogs, and the programs beside its main window. The native file system add-on, which is C in a kernel. The other add-ons of
  \<open>src/optional\<close>, each a window around the HTTP interface of one kind of device.
\<close>

end
